(* ===== verification/Prelude.thy ===== *)
theory Prelude
  imports Main "HOL-Library.Multiset" "HOL-Library.Product_Lexorder"
begin

text \<open>
  Shared vocabulary of the development.

  \<^item> JSON values and the payload objects that the job rows carry
    (\<open>JSON.parse\<close> and \<open>JSON.stringify\<close> of the language's library).
  \<^item> Insertion-ordered maps: a JavaScript \<open>Map\<close> or object iterates in the order in which its
    keys were first set, so it is an association list with update in place.
  \<^item> SQL tables as lists of rows in rowid order, with the update, upsert, delete and count
    operations the store uses, and the facts about how they change a \<open>COUNT(*)\<close>.
  \<^item> The slices and chunks of \<open>packages/db/src/store.ts\<close> (\<open>chunkArray\<close>).

  Numbers are integers (every number the modelled code stores is one), timestamps are
  milliseconds since the epoch: \<open>toISOString\<close> texts have a fixed width, so that the code's
  comparisons of texts are comparisons of the instants.
\<close>

named_theorems store_simps \<open>how an operation of the store changes each component of the state\<close>
named_theorems inv_intros \<open>preservation of the store's invariants, one fact per operation\<close>

type_synonym time = int \<comment> \<open>milliseconds since the epoch\<close>
type_synonym address = string
type_synonym txid = string

section \<open>JSON\<close>

datatype json =
    JNull
  | JBool bool
  | JNum int
  | JStr string
  | JArr "json list"
  | JObj "(string \<times> json) list"

text \<open>
  An object as the code sees it after \<open>JSON.parse\<close>: its own fields in order. A field whose value
  is \<open>undefined\<close> does not survive \<open>JSON.stringify\<close>, so an absent field and an undefined one are
  the same \<open>None\<close>.
\<close>

type_synonym payload = "(string \<times> json) list"

abbreviation jget :: "payload \<Rightarrow> string \<Rightarrow> json option" where
  "jget p k \<equiv> map_of p k"

text \<open>\<open>typeof v === "number"\<close>, \<open>typeof v === "string"\<close>, \<open>v === true\<close>, \<open>Array.isArray(v)\<close>.\<close>

fun as_num :: "json option \<Rightarrow> int option" where
  "as_num (Some (JNum n)) = Some n"
| "as_num _ = None"

fun as_str :: "json option \<Rightarrow> string option" where
  "as_str (Some (JStr s)) = Some s"
| "as_str _ = None"

fun as_arr :: "json option \<Rightarrow> json list option" where
  "as_arr (Some (JArr xs)) = Some xs"
| "as_arr _ = None"

definition is_true :: "json option \<Rightarrow> bool" where
  "is_true v = (v = Some (JBool True))"

text \<open>\<open>v != null\<close>: neither absent nor null.\<close>

definition non_null :: "json option \<Rightarrow> bool" where
  "non_null v = (v \<noteq> None \<and> v \<noteq> Some JNull)"

lemma non_null_simps [simp]:
  "\<not> non_null None"
  "non_null (Some v) = (v \<noteq> JNull)"
  by (simp_all add: non_null_def)

lemma is_true_simps [simp]:
  "\<not> is_true None"
  "is_true (Some v) = (v = JBool True)"
  by (simp_all add: is_true_def)

text \<open>\<open>String(v)\<close> of a parsed value.\<close>

function digits :: "nat \<Rightarrow> string" where
  "digits n = (if n < 10 then [char_of (48 + n)] else digits (n div 10) @ [char_of (48 + n mod 10)])"
  by pat_completeness auto
termination
  by (relation "measure id") auto

declare digits.simps [simp del]

fun js_string :: "json \<Rightarrow> string" where
  "js_string JNull = ''null''"
| "js_string (JBool b) = (if b then ''true'' else ''false'')"
| "js_string (JNum n) = (if n < 0 then CHR ''-'' # digits (nat (- n)) else digits (nat n))"
| "js_string (JStr s) = s"
| "js_string (JArr []) = []"
| "js_string (JArr [v]) = (if v = JNull then [] else js_string v)"
| "js_string (JArr (v # w # vs)) =
     (if v = JNull then [] else js_string v) @ CHR '','' # js_string (JArr (w # vs))"
| "js_string (JObj fs) = ''[object Object]''"

section \<open>Insertion-ordered maps\<close>

fun map_put :: "'k \<Rightarrow> 'v \<Rightarrow> ('k \<times> 'v) list \<Rightarrow> ('k \<times> 'v) list" where
  "map_put k v [] = [(k, v)]"
| "map_put k v ((k', v') # m) = (if k = k' then (k', v) # m else (k', v') # map_put k v m)"

text \<open>\<open>m.set(k, (m.get(k) ?? 0) + n)\<close>.\<close>

definition map_add :: "'k \<Rightarrow> int \<Rightarrow> ('k \<times> int) list \<Rightarrow> ('k \<times> int) list" where
  "map_add k n m = map_put k ((case map_of m k of None \<Rightarrow> 0 | Some x \<Rightarrow> x) + n) m"

definition get_or_0 :: "('k \<times> int) list \<Rightarrow> 'k \<Rightarrow> int" where
  "get_or_0 m k = (case map_of m k of None \<Rightarrow> 0 | Some x \<Rightarrow> x)"

lemma map_of_map_put [simp]: "map_of (map_put k v m) = (map_of m)(k \<mapsto> v)"
  by (induction m) (auto simp: fun_eq_iff)

lemma keys_map_put: "fst ` set (map_put k v m) = insert k (fst ` set m)"
proof (induction m)
  case Nil
  show ?case by simp
next
  case (Cons a m)
  then show ?case by (cases a) (simp add: insert_commute)
qed

lemma distinct_map_put: "distinct (map fst m) \<Longrightarrow> distinct (map fst (map_put k v m))"
proof (induction m)
  case Nil
  show ?case by simp
next
  case (Cons a m)
  then show ?case by (cases a) (simp add: keys_map_put)
qed

lemma keys_map_add: "fst ` set (map_add k n m) = insert k (fst ` set m)"
  by (simp add: map_add_def keys_map_put)

lemma distinct_map_add: "distinct (map fst m) \<Longrightarrow> distinct (map fst (map_add k n m))"
  by (simp add: map_add_def distinct_map_put)

lemma get_or_0_map_add: "get_or_0 (map_add k n m) k' = get_or_0 m k' + (if k' = k then n else 0)"
  by (simp add: get_or_0_def map_add_def split: option.splits)

lemma sum_map_put:
  assumes "distinct (map fst m)"
  shows "sum_list (map snd (map_put k (v::int) m)) = sum_list (map snd m) + v - get_or_0 m k"
  using assms
proof (induction m)
  case Nil
  then show ?case by (simp add: get_or_0_def)
next
  case (Cons a m)
  then show ?case
    by (cases a) (auto simp: get_or_0_def)
qed

lemma sum_map_add:
  "distinct (map fst m) \<Longrightarrow> sum_list (map snd (map_add k n m)) = sum_list (map snd m) + n"
  by (simp add: map_add_def sum_map_put get_or_0_def)

section \<open>First occurrences: \<open>[...new Set(xs)]\<close>\<close>

fun uniq_acc :: "'a list \<Rightarrow> 'a list \<Rightarrow> 'a list" where
  "uniq_acc seen [] = []"
| "uniq_acc seen (x # xs) = (if x \<in> set seen then uniq_acc seen xs else x # uniq_acc (x # seen) xs)"

definition uniq :: "'a list \<Rightarrow> 'a list" where
  "uniq xs = uniq_acc [] xs"

lemma set_uniq_acc: "set (uniq_acc seen xs) = set xs - set seen"
  by (induction xs arbitrary: seen) auto

lemma distinct_uniq_acc: "distinct (uniq_acc seen xs)"
  by (induction xs arbitrary: seen) (auto simp: set_uniq_acc)

lemma set_uniq [simp]: "set (uniq xs) = set xs"
  by (simp add: uniq_def set_uniq_acc)

lemma distinct_uniq [simp]: "distinct (uniq xs)"
  by (simp add: uniq_def distinct_uniq_acc)

section \<open>Chunks\<close>

text \<open>\<open>chunkArray\<close>: consecutive slices of \<open>size\<close> items; one chunk when \<open>size <= 0\<close>.\<close>

function chunks_of :: "nat \<Rightarrow> 'a list \<Rightarrow> 'a list list" where
  "chunks_of n xs = (if xs = [] then [] else take (Suc n) xs # chunks_of n (drop (Suc n) xs))"
  by pat_completeness auto
termination
  by (relation "measure (\<lambda>(n, xs). length xs)") auto

declare chunks_of.simps [simp del]

definition chunkArray :: "'a list \<Rightarrow> int \<Rightarrow> 'a list list" where
  "chunkArray items n =
     (if n \<le> 0 then (if items = [] then [] else [items]) else chunks_of (nat n - 1) items)"

lemma concat_chunks_of: "concat (chunks_of n xs) = xs"
proof (induction n xs rule: chunks_of.induct)
  case (1 n xs)
  show ?case
  proof (cases "xs = []")
    case True
    then show ?thesis by (simp add: chunks_of.simps[of n "[]"])
  next
    case False
    with 1 show ?thesis by (subst chunks_of.simps) simp
  qed
qed

lemma chunks_of_length: "c \<in> set (chunks_of n xs) \<Longrightarrow> c \<noteq> [] \<and> length c \<le> Suc n"
proof (induction n xs rule: chunks_of.induct)
  case (1 n xs)
  show ?case
  proof (cases "xs = []")
    case True
    with "1.prems" show ?thesis by (simp add: chunks_of.simps[of n "[]"])
  next
    case False
    with 1 show ?thesis by (auto simp: chunks_of.simps[of n xs])
  qed
qed

lemma concat_chunkArray [simp]: "concat (chunkArray xs n) = xs"
  by (simp add: chunkArray_def concat_chunks_of)

section \<open>Tables\<close>

text \<open>A \<open>SELECT COUNT(*)\<close>.\<close>

definition count_rows :: "('r \<Rightarrow> bool) \<Rightarrow> 'r list \<Rightarrow> int" where
  "count_rows P rows = int (length (filter P rows))"

text \<open>\<open>UPDATE t SET f WHERE P\<close> and \<open>SELECT * WHERE key = k\<close> (at most one row).\<close>

definition update_where :: "('r \<Rightarrow> bool) \<Rightarrow> ('r \<Rightarrow> 'r) \<Rightarrow> 'r list \<Rightarrow> 'r list" where
  "update_where P f rows = map (\<lambda>r. if P r then f r else r) rows"

definition b2i :: "bool \<Rightarrow> int" where
  "b2i b = (if b then 1 else 0)"

lemma b2i_simps [simp]: "b2i True = 1" "b2i False = 0"
  by (simp_all add: b2i_def)

lemma count_rows_Nil [simp]: "count_rows P [] = 0"
  by (simp add: count_rows_def)

lemma count_rows_Cons [simp]: "count_rows P (r # rows) = b2i (P r) + count_rows P rows"
  by (simp add: count_rows_def b2i_def)

lemma count_rows_append [simp]: "count_rows P (xs @ ys) = count_rows P xs + count_rows P ys"
  by (simp add: count_rows_def)

lemma count_rows_nonneg [simp]: "0 \<le> count_rows P rows"
  by (simp add: count_rows_def)

lemma count_rows_zero: "count_rows P rows = 0 \<longleftrightarrow> (\<forall>r\<in>set rows. \<not> P r)"
  by (auto simp: count_rows_def filter_empty_conv)

lemma count_rows_pos: "r \<in> set rows \<Longrightarrow> P r \<Longrightarrow> 1 \<le> count_rows P rows"
  by (induction rows) (auto simp: b2i_def)

lemma count_rows_cong:
  "(\<And>r. r \<in> set rows \<Longrightarrow> P r = Q r) \<Longrightarrow> count_rows P rows = count_rows Q rows"
  unfolding count_rows_def by (metis filter_cong)

lemma count_rows_filter:
  "count_rows P (filter Q rows) = count_rows (\<lambda>r. P r \<and> Q r) rows"
  by (simp add: count_rows_def conj_commute)

lemma count_rows_split:
  "count_rows P rows = count_rows (\<lambda>r. P r \<and> Q r) rows + count_rows (\<lambda>r. P r \<and> \<not> Q r) rows"
  by (induction rows) (auto simp: b2i_def)

lemma count_rows_mono:
  "(\<And>r. r \<in> set rows \<Longrightarrow> P r \<Longrightarrow> Q r) \<Longrightarrow> count_rows P rows \<le> count_rows Q rows"
  by (induction rows) (auto simp: b2i_def)

lemma update_where_Nil [simp]: "update_where P f [] = []"
  by (simp add: update_where_def)

lemma update_where_Cons [simp]:
  "update_where P f (r # rows) = (if P r then f r else r) # update_where P f rows"
  by (simp add: update_where_def)

lemma update_where_id [simp]: "update_where P (\<lambda>r. r) rows = rows"
  by (induction rows) auto

lemma length_update_where [simp]: "length (update_where P f rows) = length rows"
  by (simp add: update_where_def)

lemma map_key_update_where:
  "(\<And>r. key (f r) = key r) \<Longrightarrow> map key (update_where P f rows) = map key rows"
  by (simp add: update_where_def)

lemma update_where_none: "(\<And>r. r \<in> set rows \<Longrightarrow> \<not> P r) \<Longrightarrow> update_where P f rows = rows"
  by (induction rows) auto

text \<open>
  The one counting lemma behind every maintained counter: updating the row with key \<open>k\<close> changes
  the count by the difference the row makes.
\<close>

lemma count_rows_update_key:
  assumes "distinct (map key rows)" and "r \<in> set rows"
  shows "count_rows P (update_where (\<lambda>x. key x = key r) f rows)
       = count_rows P rows - b2i (P r) + b2i (P (f r))"
  using assms
proof (induction rows)
  case Nil
  then show ?case by simp
next
  case (Cons a rows)
  show ?case
  proof (cases "key a = key r")
    case True
    with Cons.prems have "a = r" by (auto simp: image_iff)
    moreover from this Cons.prems have "update_where (\<lambda>x. key x = key r) f rows = rows"
      by (intro update_where_none) (auto simp: image_iff)
    ultimately show ?thesis by simp
  next
    case False
    with Cons.prems have "r \<in> set rows" by auto
    with Cons False show ?thesis by simp
  qed
qed

lemma distinct_key_unique:
  "distinct (map key rows) \<Longrightarrow> r \<in> set rows \<Longrightarrow> r' \<in> set rows \<Longrightarrow> key r = key r' \<Longrightarrow> r = r'"
  by (induction rows) (auto simp: image_iff)

lemma find_key_Some:
  "List.find (\<lambda>r. key r = k) rows = Some r \<Longrightarrow> r \<in> set rows \<and> key r = k"
  by (auto simp: find_Some_iff)

lemma find_key_eq:
  "distinct (map key rows) \<Longrightarrow> r \<in> set rows \<Longrightarrow> List.find (\<lambda>x. key x = key r) rows = Some r"
  by (induction rows) (auto simp: image_iff)

lemma find_update_key:
  assumes "\<And>r. key (f r) = key r"
  shows "List.find (\<lambda>r. key r = k) (update_where (\<lambda>x. key x = k') f rows)
       = (if k = k' then map_option f (List.find (\<lambda>r. key r = k) rows)
          else List.find (\<lambda>r. key r = k) rows)"
  by (induction rows) (auto simp: assms)

text \<open>A count over the rows of some keys, row by row, and how a write to those keys changes the count.\<close>

definition holds :: "('r \<Rightarrow> bool) \<Rightarrow> 'r option \<Rightarrow> bool" where
  "holds P v = (case v of Some r \<Rightarrow> P r | None \<Rightarrow> False)"

lemma holds_simps [simp]: "\<not> holds P None" "holds P (Some r) = P r"
  by (simp_all add: holds_def)

lemma count_rows_key:
  "distinct (map key rows) \<Longrightarrow>
     count_rows (\<lambda>r. P r \<and> key r = k) rows = b2i (holds P (List.find (\<lambda>r. key r = k) rows))"
proof (induction rows)
  case (Cons r rows)
  have "count_rows (\<lambda>r. P r \<and> key r = k) rows = 0" if "key r = k"
    using Cons.prems that by (auto simp: count_rows_zero image_iff)
  with Cons show ?case by auto
qed simp

lemma count_rows_keys:
  assumes "distinct (map key rows)" and "distinct ks"
  shows "count_rows (\<lambda>r. P r \<and> key r \<in> set ks) rows
       = (\<Sum>k\<leftarrow>ks. b2i (holds P (List.find (\<lambda>r. key r = k) rows)))"
  using assms(2)
proof (induction ks)
  case Nil
  show ?case by (simp add: count_rows_zero)
next
  case (Cons k ks)
  have "count_rows (\<lambda>r. P r \<and> key r \<in> set (k # ks)) rows =
      count_rows (\<lambda>r. (P r \<and> key r \<in> set (k # ks)) \<and> key r = k) rows +
      count_rows (\<lambda>r. (P r \<and> key r \<in> set (k # ks)) \<and> key r \<noteq> k) rows"
    by (rule count_rows_split)
  also have "count_rows (\<lambda>r. (P r \<and> key r \<in> set (k # ks)) \<and> key r = k) rows = count_rows (\<lambda>r. P r \<and> key r = k) rows"
    by (rule count_rows_cong) auto
  also have "count_rows (\<lambda>r. (P r \<and> key r \<in> set (k # ks)) \<and> key r \<noteq> k) rows
      = count_rows (\<lambda>r. P r \<and> key r \<in> set ks) rows"
    by (rule count_rows_cong) (use Cons.prems in auto)
  finally show ?case using Cons count_rows_key[OF assms(1), of P k] by simp
qed

lemma count_rows_write:
  assumes "distinct (map key rows)" and "distinct (map key rows')" and "distinct ks"
    and "filter (\<lambda>r. key r \<notin> set ks) rows' = filter (\<lambda>r. key r \<notin> set ks) rows"
  shows "count_rows P rows' = count_rows P rows
     + (\<Sum>k\<leftarrow>ks. b2i (holds P (List.find (\<lambda>r. key r = k) rows')) - b2i (holds P (List.find (\<lambda>r. key r = k) rows)))"
proof -
  have "count_rows (\<lambda>r. P r \<and> key r \<notin> set ks) rows' = count_rows (\<lambda>r. P r \<and> key r \<notin> set ks) rows"
    using assms(4) count_rows_filter[of P "\<lambda>r. key r \<notin> set ks" rows]
      count_rows_filter[of P "\<lambda>r. key r \<notin> set ks" rows'] by simp
  then show ?thesis
    using count_rows_split[of P rows "\<lambda>r. key r \<in> set ks"] count_rows_split[of P rows' "\<lambda>r. key r \<in> set ks"]
      count_rows_keys[OF assms(1,3), of P] count_rows_keys[OF assms(2,3), of P]
    by (simp add: sum_list_subtractf)
qed

section \<open>Ordering: \<open>ORDER BY\<close> and \<open>LIMIT\<close>\<close>

text \<open>\<open>ORDER BY key LIMIT 1\<close>: the first row of least key (SQLite and a stable sort agree).\<close>

fun first_min :: "('r \<Rightarrow> 'k::linorder) \<Rightarrow> 'r list \<Rightarrow> 'r option" where
  "first_min key [] = None"
| "first_min key (r # rows) =
     (case first_min key rows of
        None \<Rightarrow> Some r
      | Some m \<Rightarrow> if key r \<le> key m then Some r else Some m)"

lemma first_min_None [simp]: "first_min key rows = None \<longleftrightarrow> rows = []"
  by (cases rows) (auto split: option.splits)

lemma first_min_Some:
  "first_min key rows = Some m \<Longrightarrow> m \<in> set rows \<and> (\<forall>r\<in>set rows. key m \<le> key r)"
proof (induction rows arbitrary: m)
  case Nil
  then show ?case by simp
next
  case (Cons r rows)
  show ?case
  proof (cases "first_min key rows")
    case None
    with Cons.prems show ?thesis by simp
  next
    case (Some x)
    with Cons.IH[of x] Cons.prems show ?thesis
      by (auto split: if_splits)
  qed
qed

lemma first_min_ex: "rows \<noteq> [] \<Longrightarrow> \<exists>m. first_min key rows = Some m"
  by (metis first_min_None not_None_eq)

end
