(* ===== verification/StoreState.thy ===== *)
theory StoreState
  imports Prelude
begin

text \<open>
  The database that \<open>packages/db/src/store.ts\<close> works on, table by table
  (\<open>packages/db/src/schema.ts\<close>), and the options of the \<open>Store\<close> object.

  A table is the list of its rows in rowid order; a nullable column is an \<open>option\<close>; a 0/1 column
  is a \<open>bool\<close>; a text column over a fixed vocabulary (role, expand status, job status, job type,
  edge direction) is a datatype; a column that holds \<open>JSON.stringify\<close> of a value holds the value.
  \<open>clock\<close> is what \<open>Date.now()\<close> returns: one store operation reads one instant.
\<close>

section \<open>Vocabulary of the text columns\<close>

datatype job_type =
    Backfill_hacker_address
  | Audit_hacker_backfill
  | Process_tx
  | Poll_hacker_address
  | Poll_downstream_address
  | Expand_downstream
  | Refresh_live_balance
  | Refresh_btc_usd_price
  | Backfill_op_return
  | Sync_coldcardwatch
  | Sync_vercel_trackers
  | Sync_bitquery_coldcard
  | Other_job_type string

datatype job_status = Pending | Running | Done

datatype role = Hacker | Victim | Downstream | Unknown_role

datatype expand_status =
    XPending | XQueued | XExpanding | XExpanded | XBackfilling | XSkippedMin | XMaxDepth

datatype direction = In_to_hacker | Out_from_hacker | Other_direction string

section \<open>Rows\<close>

text \<open>\<open>extractIngestProgressSnapshot\<close>'s result, stored in \<open>reclaim_progress_json\<close>.\<close>

record ingest_progress =
  processedIndex :: int
  headTxid :: "txid option"
  chainCursor :: "txid option"

text \<open>
  A job row. \<open>payloadJson = Some p\<close> is the text of the object \<open>p\<close>; \<open>None\<close> is a text that
  \<open>JSON.parse\<close> rejects.
\<close>

record job =
  job_id :: int
  job_kind :: job_type \<comment> \<open>column type\<close>
  payloadJson :: "payload option"
  job_status :: job_status
  priority :: int
  runAfter :: time
  attempts :: int
  lastError :: "string option"
  createdAt :: time
  startedAt :: "time option"
  completedAt :: "time option"
  reclaimCount :: int
  reclaimProgressJson :: "ingest_progress option"

record addr_row =
  address_of :: address \<comment> \<open>column address, the primary key\<close>
  role_of :: role
  label_of :: "string option"
  source_of :: string
  hackId :: string
  isFlaggedHacker :: bool
  notes_of :: "string option"
  firstSeenAt :: "time option"
  lastSeenAt :: "time option"
  addrCreatedAt :: time
  hopFromHacker :: "int option"
  expandStatus :: expand_status
  lastExpandedAt :: "time option"
  expandProfile :: "string option"
  relayMeta :: "json option" \<comment> \<open>the value in relay_meta_json\<close>
  fanoutMeta :: "json option" \<comment> \<open>the value in fanout_meta_json\<close>
  totalReceivedSats :: int
  inboundSats :: int
  liveBalanceSats :: "int option"
  liveBalanceAt :: "time option"
  lastGraphActivityAt :: "time option"

record edge_row =
  fromAddress :: address
  toAddress :: address
  edge_txid :: txid
  amountSats :: int
  edge_blockTime :: "time option"
  edge_hop :: "int option"
  direction_of :: direction
  edgeKind :: "string option"
  edge_fanoutMeta :: "json option"

record tx_row =
  tx_id :: txid
  blockHeight :: "int option"
  blockTime :: "time option"
  feeSats :: "int option"
  opReturnDisplay :: "string option"

record sync_row =
  sync_address :: address
  lastSeenTxid :: "txid option"
  lastBlockHeight :: "int option"
  lastPolledAt :: "time option"
  backfillStateJson :: "payload option"
  backfillComplete :: bool
  lastBackfillAuditAt :: "time option"
  chainTxCountAtAudit :: "int option"
  lastObservedTxCount :: "int option"

record hack_stats_row =
  hs_victimCount :: int
  hs_hackerCount :: int
  hs_totalInSats :: int

record rate_limit_row =
  rl_key :: string
  windowStart :: time
  rl_count :: int

text \<open>\<open>RecentHackerEntry\<close>.\<close>

record recent_entry =
  re_address :: address
  re_at :: time
  re_victims :: int
  re_downstream :: int

text \<open>The object in \<open>maintenance_run_json\<close> (\<open>MaintenanceRunProgress\<close>): absent counts are 0.\<close>

datatype maintenance_phase = Phase_backfill | Phase_jobs | Phase_rate_limits | Phase_orphans

record run_progress =
  rp_phase :: "maintenance_phase option"
  rp_jobs :: int
  rp_rateLimits :: int
  rp_orphans :: int
  rp_completedAt :: int
  rp_startedAt :: time

text \<open>The object in \<open>sync_snapshot_json\<close> (\<open>SyncSnapshotV1\<close>), without its cached counts per hack.\<close>

record snapshot_params =
  sn_maxCrawlDepth :: int
  sn_pollIntervalSec :: int
  sn_minExpandSats :: int

record last_completed =
  lc_type :: "job_type option"
  lc_durationMs :: "int option"
  lc_at :: "time option"

record sync_snapshot =
  sn_at :: time
  sn_params :: snapshot_params
  sn_crawl :: "int \<times> int \<times> int" \<comment> \<open>pending, expanded, maximal hop\<close>
  sn_monitor :: "int \<times> int" \<comment> \<open>nodes of the tree, due polls\<close>
  sn_lastCompleted :: last_completed
  sn_stats :: "int \<times> int \<times> int \<times> int" \<comment> \<open>victims, hackers, total in, total out\<close>

record source_row =
  src_name :: string
  src_lastSyncAt :: "time option"
  src_addressCount :: "int option"
  src_contentHash :: "string option"
  src_lastError :: "string option"

text \<open>The columns of \<open>scheduler_state\<close> that count the usage of the platform on one UTC day.\<close>

record quota_row =
  quotaDayUtc :: "int option"
  d1RowsReadTotal :: int
  d1RowsWrittenTotal :: int
  workersRequestsTotal :: int
  d1RowsReadCron :: int
  d1RowsWrittenCron :: int
  workersRequestsCron :: int
  d1RowsReadOverhead :: int
  d1RowsWrittenOverhead :: int

definition no_usage :: quota_row where
  "no_usage = \<lparr>quotaDayUtc = None, d1RowsReadTotal = 0, d1RowsWrittenTotal = 0, workersRequestsTotal = 0,
     d1RowsReadCron = 0, d1RowsWrittenCron = 0, workersRequestsCron = 0, d1RowsReadOverhead = 0,
     d1RowsWrittenOverhead = 0\<rparr>"

text \<open>The single row of \<open>scheduler_state\<close> (the migrations insert it).\<close>

record sched =
  nextProviderCallAt :: "time option"
  lastProviderUsed :: "string option"
  lastProviderSuccessAt :: "time option"
  lastApiThresholdAt :: "time option"
  apiThresholdCount :: int
  apiThresholdDayUtc :: "int option" \<comment> \<open>the UTC day number of the text \<open>YYYY-MM-DD\<close>\<close>
  lastEsploraThresholdAt :: "time option"
  lastMempoolThresholdAt :: "time option"
  esploraThresholdCount :: int
  mempoolThresholdCount :: int
  esploraStrikeCount :: int
  mempoolStrikeCount :: int
  esploraRetryAfterAt :: "time option"
  mempoolRetryAfterAt :: "time option"
  queueSchedulingPaused :: bool
  hackerPollIndex :: int
  maintenanceCronCounter :: int
  rateLimitMs :: int
  tickLeaseUntil :: "time option"
  d1ReadRetryAfterAt :: "time option"
  d1WriteRetryAfterAt :: "time option"
  cronIndexerPaused :: bool
  flaggedHackersCache :: "addr_row list option" \<comment> \<open>the rows in flagged_hackers_cache_json\<close>
  flaggedHackersCacheAt :: "time option"
  lastCompletedJobAt :: "time option"
  lastCompletedJobType :: "job_type option"
  lastCompletedJobDurationMs :: "int option"
  lastDoneJobsPrunedAt :: "time option"
  lastHousekeepingAt :: "time option"
  maintenancePrunePending :: bool
  crawlPendingCount :: int
  pendingJobCount :: int
  activeExpandCount :: int
  activeBackfillCount :: int
  activeAuditCount :: int
  activeProcessTxCount :: int
  syncSnapshotDirty :: bool
  monitorSnapshotDirty :: bool
  downstreamPollDueCount :: int
  downstreamPollDueAt :: "time option"
  downstreamPollMaxDepth :: int
  downstreamPollIntervalSec :: int
  downstreamPollMinExpandSats :: int
  totalInSats :: int
  totalOutSats :: int
  victimCount :: int
  hackerActiveCount :: int
  crawlExpandedCount :: int
  crawlMaxHopReached :: int
  downstreamTreeCount :: int
  downstreamTreeMaxDepth :: int
  recentHackers :: "recent_entry list" \<comment> \<open>the entries in recent_hackers_json\<close>
  maintenanceRun :: "run_progress option" \<comment> \<open>the object in maintenance_run_json\<close>
  btcUsdPrice :: "int option" \<comment> \<open>the price, which is only passed on\<close>
  btcUsdPriceAt :: "time option"
  btcUsdRefreshAttemptAt :: "time option"
  hackStatsRows :: "(string \<times> hack_stats_row) list option" \<comment> \<open>the rows in hack_stats_json\<close>
  hackStatsDayUtc :: "int option"
  syncSnapshot :: "sync_snapshot option" \<comment> \<open>the object in sync_snapshot_json\<close>
  syncSnapshotAt :: "time option"
  quota_usage :: quota_row

section \<open>The store\<close>

record store_options =
  maxQueueDepth :: int
  queueSchedulingResumeDepth :: int
  maxPendingExpandPerAddress :: int
  maxPendingExpandGlobal :: int
  maxPendingBackfillGlobal :: int
  maxPendingAuditGlobal :: int
  d1BatchSize :: int

text \<open>The defaults of the \<open>Store\<close> constructor, with all options absent.\<close>

definition default_options :: store_options where
  "default_options = \<lparr>maxQueueDepth = 360, queueSchedulingResumeDepth = 360 div 2,
     maxPendingExpandPerAddress = 2, maxPendingExpandGlobal = 40, maxPendingBackfillGlobal = 3,
     maxPendingAuditGlobal = 1, d1BatchSize = 8\<rparr>"

text \<open>A buffered delta of \<open>recordRecentHackerActivity\<close>.\<close>

record activity =
  act_victims :: int
  act_downstream :: int
  act_at :: "time option"

record store =
  clock :: time
  opts :: store_options
  jobs :: "job list"
  job_seq :: int \<comment> \<open>the last id AUTOINCREMENT gave out\<close>
  addresses :: "addr_row list"
  edges :: "edge_row list"
  transactions :: "tx_row list"
  sync_state :: "sync_row list"
  hack_stats :: "(string \<times> hack_stats_row) list"
  hack_victims :: "(string \<times> address) list"
  hacker_victim_peaks :: "((address \<times> address) \<times> int) list"
  rate_limits :: "rate_limit_row list"
  source_sync :: "source_row list" \<comment> \<open>table source_sync_state\<close>
  sched :: sched
  recent_buffer :: "(address \<times> activity) list"

text \<open>\<open>updateSchedulerState\<close>: the fields the caller sets, as a function on the row.\<close>

definition updateSchedulerState :: "(sched \<Rightarrow> sched) \<Rightarrow> store \<Rightarrow> store" where
  "updateSchedulerState p s = s\<lparr>sched := p (sched s)\<rparr>"

text \<open>SQLite's \<open>MAX(0, column + delta)\<close>.\<close>

definition bump :: "int \<Rightarrow> int \<Rightarrow> int" where
  "bump delta n = max 0 (n + delta)"

lemma bump_nonneg [simp]: "0 \<le> bump d n"
  by (simp add: bump_def)

lemma bump_exact: "0 \<le> n + d \<Longrightarrow> bump d n = n + d"
  by (simp add: bump_def)

lemma bump_0: "0 \<le> n \<Longrightarrow> bump 0 n = n"
  by (simp add: bump_def)

lemma updateSchedulerState_simps [simp, store_simps]:
  "sched (updateSchedulerState p s) = p (sched s)"
  "clock (updateSchedulerState p s) = clock s"
  "opts (updateSchedulerState p s) = opts s"
  "jobs (updateSchedulerState p s) = jobs s"
  "job_seq (updateSchedulerState p s) = job_seq s"
  "addresses (updateSchedulerState p s) = addresses s"
  "edges (updateSchedulerState p s) = edges s"
  "transactions (updateSchedulerState p s) = transactions s"
  "sync_state (updateSchedulerState p s) = sync_state s"
  "hack_stats (updateSchedulerState p s) = hack_stats s"
  "hack_victims (updateSchedulerState p s) = hack_victims s"
  "hacker_victim_peaks (updateSchedulerState p s) = hacker_victim_peaks s"
  "rate_limits (updateSchedulerState p s) = rate_limits s"
  "recent_buffer (updateSchedulerState p s) = recent_buffer s"
  by (simp_all add: updateSchedulerState_def)

section \<open>Initial states\<close>

text \<open>The row that the migrations insert: every counter 0, every timestamp null.\<close>

definition init_sched :: sched where
  "init_sched = \<lparr>nextProviderCallAt = None, lastProviderUsed = None, lastProviderSuccessAt = None,
     lastApiThresholdAt = None, apiThresholdCount = 0, apiThresholdDayUtc = None,
     lastEsploraThresholdAt = None, lastMempoolThresholdAt = None, esploraThresholdCount = 0,
     mempoolThresholdCount = 0, esploraStrikeCount = 0, mempoolStrikeCount = 0,
     esploraRetryAfterAt = None, mempoolRetryAfterAt = None, queueSchedulingPaused = False,
     hackerPollIndex = 0, maintenanceCronCounter = 0, rateLimitMs = 3000, tickLeaseUntil = None,
     d1ReadRetryAfterAt = None, d1WriteRetryAfterAt = None, cronIndexerPaused = False,
     flaggedHackersCache = None, flaggedHackersCacheAt = None, lastCompletedJobAt = None,
     lastCompletedJobType = None, lastCompletedJobDurationMs = None, lastDoneJobsPrunedAt = None,
     lastHousekeepingAt = None, maintenancePrunePending = False, crawlPendingCount = 0,
     pendingJobCount = 0, activeExpandCount = 0, activeBackfillCount = 0, activeAuditCount = 0,
     activeProcessTxCount = 0, syncSnapshotDirty = False, monitorSnapshotDirty = False,
     downstreamPollDueCount = 0, downstreamPollDueAt = None, downstreamPollMaxDepth = 0,
     downstreamPollIntervalSec = 0, downstreamPollMinExpandSats = 0, totalInSats = 0,
     totalOutSats = 0, victimCount = 0, hackerActiveCount = 0, crawlExpandedCount = 0,
     crawlMaxHopReached = 0, downstreamTreeCount = 0, downstreamTreeMaxDepth = 0,
     recentHackers = [], maintenanceRun = None, btcUsdPrice = None, btcUsdPriceAt = None,
     btcUsdRefreshAttemptAt = None, hackStatsRows = None, hackStatsDayUtc = None, syncSnapshot = None,
     syncSnapshotAt = None, quota_usage = no_usage\<rparr>"

definition init_store :: "store_options \<Rightarrow> time \<Rightarrow> store" where
  "init_store opt t = \<lparr>clock = t, opts = opt, jobs = [], job_seq = 0, addresses = [], edges = [],
     transactions = [], sync_state = [], hack_stats = [], hack_victims = [],
     hacker_victim_peaks = [], rate_limits = [], source_sync = [], sched = init_sched, recent_buffer = []\<rparr>"

end
