(* ===== verification/JobRows.thy ===== *)
theory JobRows
  imports StoreState
begin

text \<open>
  The pure functions on job rows at the head of \<open>packages/db/src/store.ts\<close>: the predicates over
  the status and type columns, what the store reads out of a job's payload text, and the order in
  which pending jobs are claimed (\<open>jobClaimOrderBy\<close>), with the age boost in its SQL form and in
  its JavaScript form (\<open>targetAgeBoost\<close>).
\<close>

section \<open>Predicates over the columns\<close>

definition is_pending :: "job \<Rightarrow> bool" where
  "is_pending j = (job_status j = Pending)"

definition is_running :: "job \<Rightarrow> bool" where
  "is_running j = (job_status j = Running)"

definition is_active :: "job \<Rightarrow> bool" where
  "is_active j = (job_status j = Pending \<or> job_status j = Running)"

definition INGEST_JOB_TYPES :: "job_type list" where
  "INGEST_JOB_TYPES = [Backfill_hacker_address, Audit_hacker_backfill, Expand_downstream]"

definition MAINT_COSMETIC_JOB_TYPES :: "job_type list" where
  "MAINT_COSMETIC_JOB_TYPES =
     [Poll_hacker_address, Poll_downstream_address, Sync_coldcardwatch, Sync_vercel_trackers,
      Sync_bitquery_coldcard, Process_tx, Refresh_live_balance, Refresh_btc_usd_price,
      Backfill_op_return]"

section \<open>The payload\<close>

text \<open>An array element read at an index: \<open>undefined\<close> out of range.\<close>

definition arr_at :: "json list \<Rightarrow> int \<Rightarrow> json option" where
  "arr_at xs i = (if 0 \<le> i \<and> i < int (length xs) then Some (xs ! nat i) else None)"

text \<open>\<open>json_extract(payload_json, '$.address')\<close>, compared with a text.\<close>

definition job_address :: "job \<Rightarrow> string option" where
  "job_address j = (case payloadJson j of None \<Rightarrow> None | Some p \<Rightarrow> as_str (jget p ''address''))"

definition expandPayloadAddress :: "payload \<Rightarrow> string option" where
  "expandPayloadAddress p = as_str (jget p ''address'')"

definition extractIngestProgressSnapshot :: "payload option \<Rightarrow> ingest_progress" where
  "extractIngestProgressSnapshot raw =
     (case raw of
        None \<Rightarrow> \<lparr>processedIndex = 0, headTxid = None, chainCursor = None\<rparr>
      | Some p \<Rightarrow>
          let idx = (case as_num (jget p ''processedIndex'') of Some n \<Rightarrow> n | None \<Rightarrow> 0);
              from_ids =
                (case as_arr (jget p ''pendingTxids'') of
                   Some xs \<Rightarrow>
                     if int (length xs) > idx
                     then Some (case arr_at xs idx of Some v \<Rightarrow> js_string v | None \<Rightarrow> ''undefined'')
                     else None
                 | None \<Rightarrow> None);
              head =
                (case as_arr (jget p ''pendingTxs'') of
                   Some xs \<Rightarrow>
                     if int (length xs) > idx
                     then (case arr_at xs idx of
                             Some (JObj ob) \<Rightarrow> as_str (jget ob ''txid'')
                           | _ \<Rightarrow> None)
                     else from_ids
                 | None \<Rightarrow> from_ids);
              cur = jget p ''chainCursor''
          in \<lparr>processedIndex = idx, headTxid = head,
              chainCursor =
                (if non_null cur \<and> cur \<noteq> Some (JStr [])
                 then map_option js_string cur else None)\<rparr>)"

definition num_pos :: "json option \<Rightarrow> bool" where
  "num_pos v = (case as_num v of Some n \<Rightarrow> 0 < n | None \<Rightarrow> False)"

definition nonempty_arr :: "json option \<Rightarrow> bool" where
  "nonempty_arr v = (case as_arr v of Some xs \<Rightarrow> xs \<noteq> [] | None \<Rightarrow> False)"

definition isIngestContinuation :: "payload option \<Rightarrow> bool" where
  "isIngestContinuation raw =
     (case raw of
        None \<Rightarrow> False
      | Some p \<Rightarrow>
          let cur = jget p ''chainCursor''
          in if non_null cur \<and> cur \<noteq> Some (JStr []) then True
             else if nonempty_arr (jget p ''pendingTxids'') then True
             else if nonempty_arr (jget p ''pendingTxs'') then True
             else if num_pos (jget p ''processedIndex'') then True
             else if jget p ''pagesExhausted'' = Some (JBool False) \<and>
                     (num_pos (jget p ''pagesFetched'') \<or> non_null cur) then True
             else if is_true (jget p ''traceEdgesPending'') then True
             else num_pos (jget p ''traceEdgeIndex''))"

section \<open>The claim order\<close>

record claim_age_boost =
  boost_enabled :: bool
  intervalSec :: int
  maxBoost :: int
  eligibleTypes :: "job_type list"

definition jobRunnableAt :: "job \<Rightarrow> time" where
  "jobRunnableAt j = (if runAfter j > createdAt j then runAfter j else createdAt j)"

text \<open>\<open>strftime('%s', t)\<close>: whole seconds.\<close>

definition unix_sec :: "time \<Rightarrow> int" where
  "unix_sec t = t div 1000"

definition jobWaitSec :: "time \<Rightarrow> job \<Rightarrow> int" where
  "jobWaitSec ts j = unix_sec ts - unix_sec (jobRunnableAt j)"

text \<open>SQLite's integer \<open>/\<close> truncates towards zero.\<close>

definition sql_div :: "int \<Rightarrow> int \<Rightarrow> int" where
  "sql_div a b = (if a < 0 then - ((- a) div b) else a div b)"

definition jobAgeBoost :: "claim_age_boost \<Rightarrow> time \<Rightarrow> job \<Rightarrow> int" where
  "jobAgeBoost b ts j =
     (if \<not> boost_enabled b \<or> intervalSec b \<le> 0 \<or> eligibleTypes b = [] then 0
      else if job_kind j \<in> set (eligibleTypes b)
           then min (maxBoost b) (sql_div (jobWaitSec ts j) (intervalSec b))
           else 0)"

definition effectivePriority :: "claim_age_boost option \<Rightarrow> time \<Rightarrow> job \<Rightarrow> int" where
  "effectivePriority ab ts j =
     (case ab of
        Some b \<Rightarrow>
          if boost_enabled b \<and> 0 < intervalSec b then priority j + jobAgeBoost b ts j else priority j
      | None \<Rightarrow> priority j)"

text \<open>\<open>Math.floor(x / 1000)\<close> is \<open>div\<close>.\<close>

definition targetAgeBoost :: "job_type \<Rightarrow> time \<Rightarrow> time \<Rightarrow> claim_age_boost \<Rightarrow> time \<Rightarrow> int" where
  "targetAgeBoost ty ra ca b ts =
     (if \<not> boost_enabled b \<or> intervalSec b \<le> 0 \<or> ty \<notin> set (eligibleTypes b) then 0
      else let waitSec = max 0 ((ts - max ca ra) div 1000)
           in min (maxBoost b) (waitSec div intervalSec b))"

text \<open>
  \<open>ORDER BY effective priority DESC, run_after ASC, created_at ASC\<close> as a linear order, so that the
  library's sorting applies to job rows.
\<close>

datatype claim_key = Claim_key (key_priority: int) (key_runAfter: time) (key_createdAt: time)

instantiation claim_key :: linorder
begin

definition less_claim_key :: "claim_key \<Rightarrow> claim_key \<Rightarrow> bool" where
  "less_claim_key a b \<longleftrightarrow>
     key_priority a > key_priority b \<or>
     key_priority a = key_priority b \<and>
       (key_runAfter a < key_runAfter b \<or>
        key_runAfter a = key_runAfter b \<and> key_createdAt a < key_createdAt b)"

definition less_eq_claim_key :: "claim_key \<Rightarrow> claim_key \<Rightarrow> bool" where
  "less_eq_claim_key a b \<longleftrightarrow> a < b \<or> a = b"

instance
proof
  fix x y z :: claim_key
  show "(x < y) = (x \<le> y \<and> \<not> y \<le> x)" and "x \<le> x" and "x \<le> y \<Longrightarrow> y \<le> z \<Longrightarrow> x \<le> z"
    and "x \<le> y \<Longrightarrow> y \<le> x \<Longrightarrow> x = y" and "x \<le> y \<or> y \<le> x"
    by (cases x; cases y; cases z; auto simp: less_claim_key_def less_eq_claim_key_def)+
qed

end

definition jobClaimOrder :: "claim_age_boost option \<Rightarrow> time \<Rightarrow> job \<Rightarrow> claim_key" where
  "jobClaimOrder ab ts j = Claim_key (effectivePriority ab ts j) (runAfter j) (createdAt j)"

lemma claim_key_le_priority: "a \<le> b \<Longrightarrow> key_priority b \<le> key_priority a"
  by (auto simp: less_claim_key_def less_eq_claim_key_def)

text \<open>
  The two forms of the boost read the clock differently: the SQL form subtracts whole seconds, the
  JavaScript form floors the difference. They are at most one second of waiting apart.
\<close>

lemma unix_sec_diff:
  fixes a b :: int
  assumes "b \<le> a"
  shows "(a - b) div 1000 \<le> unix_sec a - unix_sec b" and
        "unix_sec a - unix_sec b \<le> (a - b) div 1000 + 1"
  using assms unfolding unix_sec_def by linarith+

lemma jobRunnableAt_max: "jobRunnableAt j = max (createdAt j) (runAfter j)"
  by (auto simp: jobRunnableAt_def)

lemma effectivePriority_boost:
  assumes "boost_enabled b" and "0 < intervalSec b" and "0 \<le> maxBoost b" and "jobRunnableAt j \<le> ts"
  shows "priority j \<le> effectivePriority (Some b) ts j" and
        "effectivePriority (Some b) ts j \<le> priority j + maxBoost b"
proof -
  have w: "0 \<le> jobWaitSec ts j"
    using assms(4) unfolding jobWaitSec_def unix_sec_def by (simp add: zdiv_mono1)
  then have "0 \<le> jobWaitSec ts j div intervalSec b"
    using assms(2) by (simp add: pos_imp_zdiv_nonneg_iff)
  with w assms(1-3) show "priority j \<le> effectivePriority (Some b) ts j" and
        "effectivePriority (Some b) ts j \<le> priority j + maxBoost b"
    by (auto simp: effectivePriority_def jobAgeBoost_def sql_div_def)
qed

text \<open>\<open>targetAgeBoost\<close> and the SQL expression agree up to one unit of the boost.\<close>

lemma targetAgeBoost_sql:
  assumes "boost_enabled b" and "0 < intervalSec b" and "jobRunnableAt j \<le> ts"
  shows "targetAgeBoost (job_kind j) (runAfter j) (createdAt j) b ts \<le> jobAgeBoost b ts j"
    and "jobAgeBoost b ts j \<le> targetAgeBoost (job_kind j) (runAfter j) (createdAt j) b ts + 1"
proof -
  define w v where "w = jobWaitSec ts j" and "v = (ts - jobRunnableAt j) div 1000"
  have vw: "v \<le> w" "w \<le> v + 1" and v0: "0 \<le> v"
    using unix_sec_diff[OF assms(3)] assms(3) by (auto simp: w_def v_def jobWaitSec_def)
  have d1: "v div intervalSec b \<le> w div intervalSec b"
    using vw assms(2) by (simp add: zdiv_mono1)
  have "w div intervalSec b \<le> (v + intervalSec b) div intervalSec b"
    using vw assms(2) by (intro zdiv_mono1) auto
  then have d2: "w div intervalSec b \<le> v div intervalSec b + 1"
    using assms(2) div_add_self2[of "intervalSec b" v] by linarith
  have t: "targetAgeBoost (job_kind j) (runAfter j) (createdAt j) b ts
         = (if job_kind j \<in> set (eligibleTypes b) then min (maxBoost b) (v div intervalSec b) else 0)"
    using assms v0 by (auto simp: targetAgeBoost_def Let_def v_def jobRunnableAt_max)
  have g: "jobAgeBoost b ts j
         = (if job_kind j \<in> set (eligibleTypes b) then min (maxBoost b) (w div intervalSec b) else 0)"
    using assms v0 vw by (auto simp: jobAgeBoost_def sql_div_def w_def)
  show "targetAgeBoost (job_kind j) (runAfter j) (createdAt j) b ts \<le> jobAgeBoost b ts j"
    and "jobAgeBoost b ts j \<le> targetAgeBoost (job_kind j) (runAfter j) (createdAt j) b ts + 1"
    unfolding t g using d1 d2 by (auto split: if_splits)
qed

end
