(* ===== verification/SchedulerCache.thy ===== *)
theory SchedulerCache
  imports StoreState
begin

text \<open>
  The in-process cache of the \<open>scheduler_state\<close> row (\<open>schedulerStateCache\<close> in
  \<open>packages/db/src/store.ts\<close>): read through on \<open>getSchedulerState\<close>, patched by every write.

  The concrete state has the database row and the cache; the abstraction forgets the cache. The
  theory shows that every operation keeps the cache coherent (empty, or equal to the row) and that
  it refines the operation on the row alone, which is what the rest of the development uses.
\<close>

text \<open>
  \<open>scache = None\<close>: not loaded (\<open>undefined\<close>); \<open>Some None\<close>: loaded, the row is missing
  (\<open>null\<close>); \<open>Some (Some r)\<close>: a copy of the row.
\<close>

record cstore =
  srow :: "sched option"
  scache :: "sched option option"

definition clearSchedulerStateCache :: "cstore \<Rightarrow> cstore" where
  "clearSchedulerStateCache c = c\<lparr>scache := None\<rparr>"

definition getSchedulerState :: "cstore \<Rightarrow> cstore \<times> sched option" where
  "getSchedulerState c =
     (case scache c of
        Some r \<Rightarrow> (c, r)
      | None \<Rightarrow> (c\<lparr>scache := Some (srow c)\<rparr>, srow c))"

text \<open>A patch is the fields present in \<open>data\<close>: the same for the SQL update and the cache.\<close>

definition patchSchedulerCache :: "(sched \<Rightarrow> sched) \<Rightarrow> cstore \<Rightarrow> cstore" where
  "patchSchedulerCache p c =
     (case scache c of
        Some (Some r) \<Rightarrow> c\<lparr>scache := Some (Some (p r))\<rparr>
      | _ \<Rightarrow> c)"

definition updateSchedulerRow :: "(sched \<Rightarrow> sched) \<Rightarrow> cstore \<Rightarrow> cstore" where
  "updateSchedulerRow p c = patchSchedulerCache p (c\<lparr>srow := map_option p (srow c)\<rparr>)"

text \<open>
  A counter column, by how it is read and replaced. \<open>bumpSchedulerCache\<close> returns early on a zero
  delta; the SQL side is \<open>MAX(0, col + delta)\<close>.
\<close>

datatype counter =
    CrawlPending | PendingJob | ActiveExpand | ActiveBackfill | ActiveAudit | ActiveProcessTx
  | VictimC | HackerActive | CrawlExpanded | DownstreamTree | PollDue | TotalIn | TotalOut

fun counter_upd :: "counter \<Rightarrow> (int \<Rightarrow> int) \<Rightarrow> sched \<Rightarrow> sched" where
  "counter_upd CrawlPending f r = r\<lparr>crawlPendingCount := f (crawlPendingCount r)\<rparr>"
| "counter_upd PendingJob f r = r\<lparr>pendingJobCount := f (pendingJobCount r)\<rparr>"
| "counter_upd ActiveExpand f r = r\<lparr>activeExpandCount := f (activeExpandCount r)\<rparr>"
| "counter_upd ActiveBackfill f r = r\<lparr>activeBackfillCount := f (activeBackfillCount r)\<rparr>"
| "counter_upd ActiveAudit f r = r\<lparr>activeAuditCount := f (activeAuditCount r)\<rparr>"
| "counter_upd ActiveProcessTx f r = r\<lparr>activeProcessTxCount := f (activeProcessTxCount r)\<rparr>"
| "counter_upd VictimC f r = r\<lparr>victimCount := f (victimCount r)\<rparr>"
| "counter_upd HackerActive f r = r\<lparr>hackerActiveCount := f (hackerActiveCount r)\<rparr>"
| "counter_upd CrawlExpanded f r = r\<lparr>crawlExpandedCount := f (crawlExpandedCount r)\<rparr>"
| "counter_upd DownstreamTree f r = r\<lparr>downstreamTreeCount := f (downstreamTreeCount r)\<rparr>"
| "counter_upd PollDue f r = r\<lparr>downstreamPollDueCount := f (downstreamPollDueCount r)\<rparr>"
| "counter_upd TotalIn f r = r\<lparr>totalInSats := f (totalInSats r)\<rparr>"
| "counter_upd TotalOut f r = r\<lparr>totalOutSats := f (totalOutSats r)\<rparr>"

fun counter_val :: "counter \<Rightarrow> sched \<Rightarrow> int" where
  "counter_val CrawlPending r = crawlPendingCount r"
| "counter_val PendingJob r = pendingJobCount r"
| "counter_val ActiveExpand r = activeExpandCount r"
| "counter_val ActiveBackfill r = activeBackfillCount r"
| "counter_val ActiveAudit r = activeAuditCount r"
| "counter_val ActiveProcessTx r = activeProcessTxCount r"
| "counter_val VictimC r = victimCount r"
| "counter_val HackerActive r = hackerActiveCount r"
| "counter_val CrawlExpanded r = crawlExpandedCount r"
| "counter_val DownstreamTree r = downstreamTreeCount r"
| "counter_val PollDue r = downstreamPollDueCount r"
| "counter_val TotalIn r = totalInSats r"
| "counter_val TotalOut r = totalOutSats r"

definition bumpSchedulerCache :: "counter \<Rightarrow> int \<Rightarrow> cstore \<Rightarrow> cstore" where
  "bumpSchedulerCache k delta c =
     (case scache c of
        Some (Some r) \<Rightarrow>
          if delta = 0 then c else c\<lparr>scache := Some (Some (counter_upd k (bump delta) r))\<rparr>
      | _ \<Rightarrow> c)"

text \<open>
  \<open>adjustCrawlPendingCount\<close>, \<open>adjustPendingJobCount\<close>, \<open>adjustActiveJobCount\<close> and
  \<open>adjustSchedulerCounter\<close> have one shape: nothing on a zero delta, else the SQL update and the
  same change of the cache.
\<close>

definition adjustCounter :: "counter \<Rightarrow> int \<Rightarrow> cstore \<Rightarrow> cstore" where
  "adjustCounter k delta c =
     (if delta = 0 then c
      else bumpSchedulerCache k delta (c\<lparr>srow := map_option (counter_upd k (bump delta)) (srow c)\<rparr>))"

definition adjustEdgeTotals :: "int \<Rightarrow> int \<Rightarrow> cstore \<Rightarrow> cstore" where
  "adjustEdgeTotals din dout c =
     (if din = 0 \<and> dout = 0 then c
      else bumpSchedulerCache TotalOut dout (bumpSchedulerCache TotalIn din
        (c\<lparr>srow := map_option (counter_upd TotalOut (bump dout) \<circ> counter_upd TotalIn (bump din)) (srow c)\<rparr>)))"

definition incrementMaintenanceCronCounter :: "cstore \<Rightarrow> cstore \<times> int" where
  "incrementMaintenanceCronCounter c =
     (let inc = (\<lambda>r. r\<lparr>maintenanceCronCounter := maintenanceCronCounter r + 1\<rparr>);
          c1 = c\<lparr>srow := map_option inc (srow c)\<rparr>;
          c2 = (case scache c1 of
                  Some (Some r) \<Rightarrow> c1\<lparr>scache := Some (Some (inc r))\<rparr>
                | _ \<Rightarrow> c1);
          (c3, st) = getSchedulerState c2
      in (c3, case st of None \<Rightarrow> 0 | Some r \<Rightarrow> maintenanceCronCounter r))"

text \<open>
  \<open>UPDATE ... SET i = (i + 1) % n ... RETURNING ((i - 1 + n) % n)\<close>: \<open>RETURNING\<close> reads the new
  row. SQLite's \<open>%\<close> is \<open>mod\<close> on the non-negative values that occur.
\<close>

definition claimNextHackerPollIndex :: "int \<Rightarrow> cstore \<Rightarrow> cstore \<times> int" where
  "claimNextHackerPollIndex n c =
     (if n \<le> 0 then (c, 0)
      else
        let step = (\<lambda>r. r\<lparr>hackerPollIndex := (hackerPollIndex r + 1) mod n\<rparr>);
            c1 = c\<lparr>srow := map_option step (srow c)\<rparr>
        in case srow c1 of
             Some r \<Rightarrow>
               let used = (hackerPollIndex r - 1 + n) mod n
               in (patchSchedulerCache (\<lambda>r. r\<lparr>hackerPollIndex := (used + 1) mod n\<rparr>) c1, used)
           | None \<Rightarrow>
               let (c2, st) = getSchedulerState (clearSchedulerStateCache c1)
               in (c2, (case st of None \<Rightarrow> 0 | Some r \<Rightarrow> hackerPollIndex r) mod n))"

text \<open>\<open>UPDATE ... SET tick_lease_until = until WHERE lease is null or before now\<close>, then the cache.\<close>

definition tryAcquireTickLease_c :: "time \<Rightarrow> int \<Rightarrow> cstore \<Rightarrow> cstore \<times> bool" where
  "tryAcquireTickLease_c now leaseMs c =
     (let until = now + max 1 leaseMs;
          free = (case srow c of
                    None \<Rightarrow> False
                  | Some r \<Rightarrow> (case tickLeaseUntil r of None \<Rightarrow> True | Some t \<Rightarrow> t < now))
      in if free
         then (updateSchedulerRow (\<lambda>r. r\<lparr>tickLeaseUntil := Some until\<rparr>) c, True)
         else (c, False))"

definition clearTickLease_c :: "cstore \<Rightarrow> cstore" where
  "clearTickLease_c c = updateSchedulerRow (\<lambda>r. r\<lparr>tickLeaseUntil := None\<rparr>) c"

section \<open>Coherence and refinement\<close>

definition coherent :: "cstore \<Rightarrow> bool" where
  "coherent c \<longleftrightarrow> scache c = None \<or> scache c = Some (srow c)"

text \<open>
  The contract of a maintained cache: an operation keeps the cache coherent and changes the row as
  the abstract operation on the row alone does.
\<close>

definition refines_row :: "(cstore \<Rightarrow> cstore) \<Rightarrow> (sched \<Rightarrow> sched) \<Rightarrow> bool" where
  "refines_row f g \<longleftrightarrow> (\<forall>c. coherent c \<longrightarrow> coherent (f c) \<and> srow (f c) = map_option g (srow c))"

lemma refines_row_apply:
  "refines_row f g \<Longrightarrow> coherent c \<Longrightarrow> coherent (f c) \<and> srow (f c) = map_option g (srow c)"
  by (simp add: refines_row_def)

lemma refines_row_id: "refines_row (\<lambda>c. c) (\<lambda>r. r)"
  by (simp add: refines_row_def option.map_ident)

lemma refines_row_comp:
  "refines_row f g \<Longrightarrow> refines_row f' g' \<Longrightarrow> refines_row (f' \<circ> f) (g' \<circ> g)"
  by (auto simp: refines_row_def option.map_comp)

lemma getSchedulerState_coherent:
  assumes "coherent c"
  shows "coherent (fst (getSchedulerState c))" and "snd (getSchedulerState c) = srow c"
    and "srow (fst (getSchedulerState c)) = srow c"
  using assms by (auto simp: coherent_def getSchedulerState_def split: option.splits)

lemma counter_upd_same: "counter_upd k (\<lambda>x. x) r = r"
  by (cases k) simp_all

lemma counter_val_upd [simp]:
  "counter_val k (counter_upd k' f r) = (if k = k' then f (counter_val k r) else counter_val k r)"
  by (cases k; cases k') simp_all

lemma updateSchedulerRow_refines: "refines_row (updateSchedulerRow p) p"
  by (auto simp: refines_row_def coherent_def updateSchedulerRow_def patchSchedulerCache_def
      split: option.splits)

lemma adjustCounter_refines:
  "refines_row (adjustCounter k d) (\<lambda>r. if d = 0 then r else counter_upd k (bump d) r)"
  by (auto simp: refines_row_def coherent_def adjustCounter_def bumpSchedulerCache_def
      option.map_ident split: option.splits)

text \<open>
  A zero half of \<open>adjustEdgeTotalsCounters\<close> leaves the cached counter alone but writes
  \<open>MAX(0, total + 0)\<close> to the row: the two agree because the totals are never negative.
\<close>

definition totals_nonneg :: "cstore \<Rightarrow> bool" where
  "totals_nonneg c \<longleftrightarrow> (\<forall>r. srow c = Some r \<longrightarrow> 0 \<le> totalInSats r \<and> 0 \<le> totalOutSats r)"

lemma adjustEdgeTotals_coherent:
  assumes "coherent c" and "totals_nonneg c"
  shows "coherent (adjustEdgeTotals din dout c)" and "totals_nonneg (adjustEdgeTotals din dout c)"
  using assms
  by (cases "srow c"; cases "scache c";
      auto simp: coherent_def totals_nonneg_def adjustEdgeTotals_def bumpSchedulerCache_def bump_0)+

lemma incrementMaintenanceCronCounter_coherent:
  assumes "coherent c"
  shows "coherent (fst (incrementMaintenanceCronCounter c))"
    and "snd (incrementMaintenanceCronCounter c)
       = (case srow c of None \<Rightarrow> 0 | Some r \<Rightarrow> maintenanceCronCounter r + 1)"
  using assms
  by (cases "srow c"; cases "scache c";
      auto simp: coherent_def incrementMaintenanceCronCounter_def getSchedulerState_def Let_def)+

definition poll_index_nonneg :: "cstore \<Rightarrow> bool" where
  "poll_index_nonneg c \<longleftrightarrow> (\<forall>r. srow c = Some r \<longrightarrow> 0 \<le> hackerPollIndex r)"

lemma poll_index_used:
  assumes "0 < (n::int)"
  shows "((i + 1) mod n - 1 + n) mod n = i mod n"
    and "(((i + 1) mod n - 1 + n) mod n + 1) mod n = (i + 1) mod n"
proof -
  have "((i + 1) mod n - 1 + n) mod n = ((i + 1) mod n - 1) mod n" by simp
  also have "\<dots> = (i + 1 - 1) mod n" by (rule mod_diff_left_eq)
  finally show "((i + 1) mod n - 1 + n) mod n = i mod n" by simp
  then show "(((i + 1) mod n - 1 + n) mod n + 1) mod n = (i + 1) mod n"
    by (simp add: mod_add_left_eq)
qed

lemma claimNextHackerPollIndex_spec:
  assumes "coherent c" and "srow c = Some r" and "0 < n"
  shows "snd (claimNextHackerPollIndex n c) = hackerPollIndex r mod n"
    and "srow (fst (claimNextHackerPollIndex n c))
       = Some (r\<lparr>hackerPollIndex := (hackerPollIndex r + 1) mod n\<rparr>)"
    and "coherent (fst (claimNextHackerPollIndex n c))"
  using assms poll_index_used[OF assms(3), of "hackerPollIndex r"]
  by (auto simp: claimNextHackerPollIndex_def Let_def coherent_def patchSchedulerCache_def)

end
