(* ===== verification/Counters.thy ===== *)
theory Counters
  imports SchedulerCache
begin

text \<open>
  The maintained counters of \<open>scheduler_state\<close>. Instead of a \<open>COUNT(*)\<close> over a table, the code of
  \<open>packages/db/src/store.ts\<close> keeps a column that every write adjusts by the difference the write
  makes. \<open>adjust\<close> is the adjustment as a function on the store; the locale \<open>row_counter\<close> is the
  contract between a counter and the table it counts, and carries the arguments that are the same
  for the job counters and for the address counters.
\<close>

definition adjust :: "counter \<Rightarrow> int \<Rightarrow> store \<Rightarrow> store" where
  "adjust k delta s = (if delta = 0 then s else updateSchedulerState (counter_upd k (bump delta)) s)"

lemma adjust_frame [simp, store_simps]:
  "clock (adjust k d s) = clock s"
  "opts (adjust k d s) = opts s"
  "jobs (adjust k d s) = jobs s"
  "job_seq (adjust k d s) = job_seq s"
  "addresses (adjust k d s) = addresses s"
  "edges (adjust k d s) = edges s"
  "transactions (adjust k d s) = transactions s"
  "sync_state (adjust k d s) = sync_state s"
  "hack_stats (adjust k d s) = hack_stats s"
  "hack_victims (adjust k d s) = hack_victims s"
  "hacker_victim_peaks (adjust k d s) = hacker_victim_peaks s"
  "rate_limits (adjust k d s) = rate_limits s"
  "recent_buffer (adjust k d s) = recent_buffer s"
  by (simp_all add: adjust_def)

lemma counter_upd_frame [simp]:
  "queueSchedulingPaused (counter_upd k f r) = queueSchedulingPaused r"
  "cronIndexerPaused (counter_upd k f r) = cronIndexerPaused r"
  "lastCompletedJobAt (counter_upd k f r) = lastCompletedJobAt r"
  "tickLeaseUntil (counter_upd k f r) = tickLeaseUntil r"
  "downstreamPollDueAt (counter_upd k f r) = downstreamPollDueAt r"
  "downstreamPollMaxDepth (counter_upd k f r) = downstreamPollMaxDepth r"
  "downstreamPollIntervalSec (counter_upd k f r) = downstreamPollIntervalSec r"
  "downstreamPollMinExpandSats (counter_upd k f r) = downstreamPollMinExpandSats r"
  "downstreamTreeMaxDepth (counter_upd k f r) = downstreamTreeMaxDepth r"
  "crawlMaxHopReached (counter_upd k f r) = crawlMaxHopReached r"
  "flaggedHackersCache (counter_upd k f r) = flaggedHackersCache r"
  "esploraRetryAfterAt (counter_upd k f r) = esploraRetryAfterAt r"
  "mempoolRetryAfterAt (counter_upd k f r) = mempoolRetryAfterAt r"
  by (cases k; simp)+

lemma adjust_sched_frame [simp, store_simps]:
  "queueSchedulingPaused (sched (adjust k d s)) = queueSchedulingPaused (sched s)"
  "cronIndexerPaused (sched (adjust k d s)) = cronIndexerPaused (sched s)"
  "lastCompletedJobAt (sched (adjust k d s)) = lastCompletedJobAt (sched s)"
  "tickLeaseUntil (sched (adjust k d s)) = tickLeaseUntil (sched s)"
  "downstreamPollDueAt (sched (adjust k d s)) = downstreamPollDueAt (sched s)"
  "downstreamPollMaxDepth (sched (adjust k d s)) = downstreamPollMaxDepth (sched s)"
  "downstreamPollIntervalSec (sched (adjust k d s)) = downstreamPollIntervalSec (sched s)"
  "downstreamPollMinExpandSats (sched (adjust k d s)) = downstreamPollMinExpandSats (sched s)"
  "downstreamTreeMaxDepth (sched (adjust k d s)) = downstreamTreeMaxDepth (sched s)"
  "crawlMaxHopReached (sched (adjust k d s)) = crawlMaxHopReached (sched s)"
  "flaggedHackersCache (sched (adjust k d s)) = flaggedHackersCache (sched s)"
  by (simp_all add: adjust_def)

lemma adjust_0 [simp]: "adjust k 0 s = s"
  by (simp add: adjust_def)

lemma adjust_val:
  "0 \<le> counter_val k (sched s) \<Longrightarrow>
     counter_val k (sched (adjust k d s)) = max 0 (counter_val k (sched s) + d)"
  by (simp add: adjust_def bump_def)

lemma adjust_val_other [simp]:
  "k \<noteq> k' \<Longrightarrow> counter_val k (sched (adjust k' d s)) = counter_val k (sched s)"
  by (simp add: adjust_def)

section \<open>The contract of a maintained counter\<close>

text \<open>\<open>exact_count cnt tbl P s\<close>: the counter has the value that the \<open>COUNT(*)\<close> would return.\<close>

definition exact_count :: "('s \<Rightarrow> int) \<Rightarrow> ('s \<Rightarrow> 'r list) \<Rightarrow> ('r \<Rightarrow> bool) \<Rightarrow> 's \<Rightarrow> bool" where
  "exact_count cnt tbl P s \<longleftrightarrow> cnt s = count_rows P (tbl s)"

locale row_counter =
  fixes cnt :: "'s \<Rightarrow> int"
    and tbl :: "'s \<Rightarrow> 'r list"
    and key :: "'r \<Rightarrow> 'k"
    and adj :: "int \<Rightarrow> 's \<Rightarrow> 's"
  assumes cnt_adj: "0 \<le> cnt s \<Longrightarrow> cnt (adj d s) = max 0 (cnt s + d)"
    and tbl_adj: "tbl (adj d s) = tbl s"
begin

lemma exact_nonneg: "exact_count cnt tbl P s \<Longrightarrow> 0 \<le> cnt s"
  by (simp add: exact_count_def)

text \<open>Adjusting by the true difference keeps the counter exact: \<open>MAX(0, .)\<close> never cuts.\<close>

lemma exact_adj:
  assumes "exact_count cnt tbl P s" and "cnt s1 = cnt s"
    and "count_rows P (tbl s1) = count_rows P (tbl s) + d"
  shows "exact_count cnt tbl P (adj d s1)"
proof -
  have "0 \<le> cnt s1" and "0 \<le> cnt s1 + d"
    using assms count_rows_nonneg[of P "tbl s1"] by (simp_all add: exact_count_def)
  then show ?thesis
    using assms by (simp add: exact_count_def cnt_adj tbl_adj)
qed

lemma exact_insert:
  assumes "exact_count cnt tbl P s" and "cnt s1 = cnt s" and "tbl s1 = tbl s @ [r]"
  shows "exact_count cnt tbl P (adj (b2i (P r)) s1)"
  by (rule exact_adj[OF assms(1,2)]) (simp add: assms(3))

lemma exact_update:
  assumes "exact_count cnt tbl P s" and "cnt s1 = cnt s"
    and "distinct (map key (tbl s))" and "r \<in> set (tbl s)"
    and "tbl s1 = update_where (\<lambda>x. key x = key r) f (tbl s)"
  shows "exact_count cnt tbl P (adj (b2i (P (f r)) - b2i (P r)) s1)"
  by (rule exact_adj[OF assms(1,2)]) (simp add: assms(5) count_rows_update_key[OF assms(3,4)])

lemma exact_delete:
  assumes "exact_count cnt tbl P s" and "cnt s1 = cnt s"
    and "tbl s1 = filter (\<lambda>r. \<not> m r) (tbl s)"
  shows "exact_count cnt tbl P (adj (- count_rows P (filter m (tbl s))) s1)"
  by (rule exact_adj[OF assms(1,2)])
     (use count_rows_split[of P "tbl s" m] in \<open>simp add: assms(3) count_rows_filter\<close>)

end

text \<open>Every counter column with its adjustment, whatever table it counts.\<close>

interpretation jobs_counter: row_counter "\<lambda>s. counter_val k (sched s)" jobs job_id "adjust k" for k
  by unfold_locales (auto simp: adjust_val)

interpretation addr_counter: row_counter "\<lambda>s. counter_val k (sched s)" addresses address_of "adjust k" for k
  by unfold_locales (auto simp: adjust_val)

end
