(* ===== verification/JobQueue.thy ===== *)
theory JobQueue
  imports JobRows Counters
begin

text \<open>
  The job queue of \<open>packages/db/src/store.ts\<close>: enqueueing with its caps and the scheduling latch,
  claiming, completing, failing and deferring, the reclaim of stale running jobs, the deletes, the
  read-only queries and the reconciliation of the maintained counters.

  Every operation is a function on \<open>store\<close>; the ones that return a value return it with the new
  store. The counters of \<open>scheduler_state\<close> go through \<open>adjust\<close>.
\<close>

section \<open>Counters\<close>

definition adjustPendingJobCount :: "int \<Rightarrow> store \<Rightarrow> store" where
  "adjustPendingJobCount delta = adjust PendingJob delta"

fun cachedActiveJobCountField :: "job_type \<Rightarrow> counter option" where
  "cachedActiveJobCountField Expand_downstream = Some ActiveExpand"
| "cachedActiveJobCountField Backfill_hacker_address = Some ActiveBackfill"
| "cachedActiveJobCountField Audit_hacker_backfill = Some ActiveAudit"
| "cachedActiveJobCountField Process_tx = Some ActiveProcessTx"
| "cachedActiveJobCountField _ = None"

definition adjustActiveJobCount :: "job_type \<Rightarrow> int \<Rightarrow> store \<Rightarrow> store" where
  "adjustActiveJobCount ty delta s =
     (if delta = 0 then s
      else case cachedActiveJobCountField ty of
             None \<Rightarrow> s
           | Some k \<Rightarrow> adjust k delta s)"

definition afterJobInserted :: "job_type \<Rightarrow> store \<Rightarrow> store" where
  "afterJobInserted ty s = adjustActiveJobCount ty 1 (adjustPendingJobCount 1 s)"

section \<open>Reading\<close>

definition getJob :: "int \<Rightarrow> store \<Rightarrow> job option" where
  "getJob i s = List.find (\<lambda>j. job_id j = i) (jobs s)"

text \<open>\<open>countActiveJobs\<close> reads the maintained counter when the type has one.\<close>

definition countActiveJobs :: "job_type \<Rightarrow> store \<Rightarrow> int" where
  "countActiveJobs ty s =
     (case cachedActiveJobCountField ty of
        Some k \<Rightarrow> counter_val k (sched s)
      | None \<Rightarrow> count_rows (\<lambda>j. job_kind j = ty \<and> is_active j) (jobs s))"

definition hasActiveJob :: "job_type \<Rightarrow> store \<Rightarrow> bool" where
  "hasActiveJob ty s = (\<exists>j\<in>set (jobs s). job_kind j = ty \<and> is_active j)"

text \<open>
  The \<open>LIMIT\<close> of the query caps the count for expands (a negative limit is none); the other limit
  is out of reach.
\<close>

definition countActiveJobsForAddress :: "job_type \<Rightarrow> address \<Rightarrow> store \<Rightarrow> int" where
  "countActiveJobsForAddress ty a s =
     (let n = count_rows (\<lambda>j. job_kind j = ty \<and> is_active j \<and> job_address j = Some a) (jobs s)
      in if ty = Expand_downstream \<and> 0 \<le> maxPendingExpandPerAddress (opts s) + 1
         then min n (maxPendingExpandPerAddress (opts s) + 1) else n)"

definition hasPendingJob :: "job_type \<Rightarrow> address option \<Rightarrow> store \<Rightarrow> bool" where
  "hasPendingJob ty addr s =
     (\<exists>j\<in>set (jobs s). job_kind j = ty \<and> is_active j \<and>
        (case addr of Some a \<Rightarrow> a = [] \<or> job_address j = Some a | None \<Rightarrow> True))"

section \<open>The scheduling latch\<close>

definition setQueueSchedulingPaused :: "bool \<Rightarrow> store \<Rightarrow> store" where
  "setQueueSchedulingPaused b = updateSchedulerState (\<lambda>r. r\<lparr>queueSchedulingPaused := b\<rparr>)"

definition isQueueSchedulingPaused :: "store \<Rightarrow> bool" where
  "isQueueSchedulingPaused s = queueSchedulingPaused (sched s)"

definition setCronIndexerPaused :: "bool \<Rightarrow> store \<Rightarrow> store" where
  "setCronIndexerPaused b = updateSchedulerState (\<lambda>r. r\<lparr>cronIndexerPaused := b\<rparr>)"

definition maybeClearQueueSchedulingPause :: "store \<Rightarrow> store" where
  "maybeClearQueueSchedulingPause s =
     (if pendingJobCount (sched s) \<le> queueSchedulingResumeDepth (opts s)
      then setQueueSchedulingPaused False s else s)"

definition shouldAllowEnqueue :: "job_type \<Rightarrow> payload \<Rightarrow> bool \<Rightarrow> store \<Rightarrow> bool \<times> store" where
  "shouldAllowEnqueue ty p bypassQueueCap s =
     (if bypassQueueCap then (True, s)
      else
        let continuation = isIngestContinuation (Some p); st = sched s; op = opts s
        in if queueSchedulingPaused st
           then (if ty = Expand_downstream then (False, s)
                 else if ty = Backfill_hacker_address \<and> continuation then (True, s)
                 else (False, s))
           else if ty = Expand_downstream \<and> activeExpandCount st \<ge> maxPendingExpandGlobal op
                then (False, s)
           else if ty = Expand_downstream \<and>
                   (case expandPayloadAddress p of
                      Some a \<Rightarrow> a \<noteq> [] \<and>
                        countActiveJobsForAddress Expand_downstream a s \<ge> maxPendingExpandPerAddress op
                    | None \<Rightarrow> False)
                then (False, s)
           else if ty = Backfill_hacker_address \<and> \<not> continuation \<and>
                   activeBackfillCount st \<ge> maxPendingBackfillGlobal op
                then (False, s)
           else if ty = Audit_hacker_backfill \<and> activeAuditCount st \<ge> maxPendingAuditGlobal op
                then (False, s)
           else if pendingJobCount st \<ge> maxQueueDepth op
                then (continuation, setQueueSchedulingPaused True s)
           else (True, s))"

section \<open>Enqueueing\<close>

text \<open>The inserted row: the columns that the code sets, the others at the schema's defaults.\<close>

definition new_job :: "int \<Rightarrow> job_type \<Rightarrow> payload \<Rightarrow> int \<Rightarrow> time \<Rightarrow> time \<Rightarrow> job" where
  "new_job i ty p prio ra ts =
     \<lparr>job_id = i, job_kind = ty, payloadJson = Some p, job_status = Pending, priority = prio,
      runAfter = ra, attempts = 0, lastError = None, createdAt = ts, startedAt = None,
      completedAt = None, reclaimCount = 0, reclaimProgressJson = None\<rparr>"

definition insert_job :: "job_type \<Rightarrow> payload \<Rightarrow> int \<Rightarrow> time option \<Rightarrow> store \<Rightarrow> int option \<times> store" where
  "insert_job ty p prio ra s =
     (let i = job_seq s + 1;
          j = new_job i ty p prio (case ra of Some t \<Rightarrow> t | None \<Rightarrow> clock s) (clock s)
      in (Some i, afterJobInserted ty (s\<lparr>jobs := jobs s @ [j], job_seq := i\<rparr>)))"

definition enqueueJob ::
  "job_type \<Rightarrow> payload \<Rightarrow> int \<Rightarrow> time option \<Rightarrow> bool \<Rightarrow> store \<Rightarrow> int option \<times> store" where
  "enqueueJob ty p prio ra bypass s =
     (case shouldAllowEnqueue ty p bypass s of
        (False, s') \<Rightarrow> (None, s')
      | (True, s') \<Rightarrow> insert_job ty p prio ra s')"

definition dedupe_match :: "job_type list \<Rightarrow> string option \<Rightarrow> job \<Rightarrow> bool" where
  "dedupe_match types addr j =
     (job_kind j \<in> set types \<and> is_active j \<and>
      (case addr of Some a \<Rightarrow> a = [] \<or> job_address j = Some a | None \<Rightarrow> True))"

definition enqueueJobIfAbsent ::
  "job_type \<Rightarrow> payload \<Rightarrow> int \<Rightarrow> time option \<Rightarrow> job_type list option \<Rightarrow> string option \<Rightarrow> bool
   \<Rightarrow> store \<Rightarrow> int option \<times> store" where
  "enqueueJobIfAbsent ty p prio ra dedupeTypes addr bypass s =
     (case shouldAllowEnqueue ty p bypass s of
        (False, s') \<Rightarrow> (None, s')
      | (True, s') \<Rightarrow>
          let types = (case dedupeTypes of Some ts \<Rightarrow> ts | None \<Rightarrow> [ty]);
              a = (case addr of Some x \<Rightarrow> Some x | None \<Rightarrow> as_str (jget p ''address''))
          in if \<exists>j\<in>set (jobs s'). dedupe_match types a j then (None, s')
             else insert_job ty p prio ra s')"

text \<open>\<open>payload.k = v\<close> on the parsed object; a text that does not parse is left alone.\<close>

definition stamp_ops :: "int \<Rightarrow> payload option \<Rightarrow> payload option" where
  "stamp_ops prio =
     map_option (\<lambda>p. map_put ''opsPriority'' (JNum prio) (map_put ''ops'' (JBool True) p))"

definition bumpPendingExpandDownstream ::
  "address \<Rightarrow> int \<Rightarrow> bool \<Rightarrow> store \<Rightarrow> int list \<times> store" where
  "bumpPendingExpandDownstream a prio stampOps s =
     (let m = (\<lambda>j. job_kind j = Expand_downstream \<and> is_pending j \<and> job_address j = Some a);
          f = (\<lambda>j. j\<lparr>priority := prio,
                     payloadJson := (if stampOps then stamp_ops prio (payloadJson j) else payloadJson j)\<rparr>)
      in (map job_id (filter m (jobs s)), s\<lparr>jobs := update_where m f (jobs s)\<rparr>))"

section \<open>Claiming\<close>

definition set_running :: "time \<Rightarrow> job \<Rightarrow> job" where
  "set_running ts j = j\<lparr>job_status := Running, startedAt := Some ts, completedAt := None\<rparr>"

definition markJobRunning :: "int \<Rightarrow> time \<Rightarrow> store \<Rightarrow> job option \<times> store" where
  "markJobRunning i ts s =
     (let m = (\<lambda>j. job_id j = i \<and> is_pending j)
      in if count_rows m (jobs s) = 0 then (None, s)
         else
           let s' = adjustPendingJobCount (- 1) (s\<lparr>jobs := update_where m (set_running ts) (jobs s)\<rparr>)
           in (map_option (set_running ts) (getJob i s'), s'))"

definition claim_head :: "job option \<Rightarrow> store \<Rightarrow> job option \<times> store" where
  "claim_head head s =
     (case head of None \<Rightarrow> (None, s) | Some j \<Rightarrow> markJobRunning (job_id j) (clock s) s)"

definition runnable :: "time \<Rightarrow> job \<Rightarrow> bool" where
  "runnable ts j = (is_pending j \<and> runAfter j \<le> ts)"

definition claimNextJob :: "claim_age_boost option \<Rightarrow> store \<Rightarrow> job option \<times> store" where
  "claimNextJob ab s =
     claim_head (first_min (jobClaimOrder ab (clock s)) (filter (runnable (clock s)) (jobs s))) s"

definition claimOldestMaintCosmeticJob ::
  "int \<Rightarrow> int list \<Rightarrow> job_type list option \<Rightarrow> store \<Rightarrow> job option \<times> store" where
  "claimOldestMaintCosmeticJob minWaitSec excludeIds eligible s =
     (if minWaitSec \<le> 0 then (None, s)
      else
        let types = (case eligible of Some ts \<Rightarrow> ts | None \<Rightarrow> MAINT_COSMETIC_JOB_TYPES);
            m = (\<lambda>j. runnable (clock s) j \<and> job_kind j \<in> set types \<and>
                     jobWaitSec (clock s) j \<ge> minWaitSec \<and> job_id j \<notin> set excludeIds)
        in claim_head (first_min createdAt (filter m (jobs s))) s)"

definition strip_candidate :: "job \<Rightarrow> job" where
  "strip_candidate j = j\<lparr>attempts := 0, lastError := None, startedAt := None, completedAt := None,
     reclaimProgressJson := None\<rparr>"

definition listPendingIngestCandidates :: "nat \<Rightarrow> store \<Rightarrow> job list" where
  "listPendingIngestCandidates n s =
     map strip_candidate (take n (sort_key (jobClaimOrder None (clock s))
       (filter (\<lambda>j. runnable (clock s) j \<and> job_kind j \<in> set INGEST_JOB_TYPES) (jobs s))))"

definition claimIngestJobById :: "int \<Rightarrow> store \<Rightarrow> job option \<times> store" where
  "claimIngestJobById i s =
     claim_head (List.find (\<lambda>j. job_id j = i \<and> runnable (clock s) j \<and>
        job_kind j \<in> set INGEST_JOB_TYPES) (jobs s)) s"

text \<open>The pick of \<open>claimNextIngestJob\<close> from a non-empty list of candidates.\<close>

definition pick_ingest :: "bool \<Rightarrow> job list \<Rightarrow> job" where
  "pick_ingest preferContinuation cands =
     (let pick0 = hd cands;
          pick1 = (if preferContinuation
                   then (case List.find (\<lambda>j. isIngestContinuation (payloadJson j) \<and> reclaimCount j = 0) cands of
                           Some j \<Rightarrow> j | None \<Rightarrow> pick0)
                   else pick0)
      in if reclaimCount pick1 > 0 \<and> isIngestContinuation (payloadJson pick1)
         then (case List.find (\<lambda>j. reclaimCount j = 0) cands of Some j \<Rightarrow> j | None \<Rightarrow> pick1)
         else pick1)"

definition claimNextIngestJob :: "bool \<Rightarrow> store \<Rightarrow> job option \<times> store" where
  "claimNextIngestJob preferContinuation s =
     (case listPendingIngestCandidates 32 s of
        [] \<Rightarrow> (None, s)
      | c # cs \<Rightarrow> markJobRunning (job_id (pick_ingest preferContinuation (c # cs))) (clock s) s)"

definition hasPendingIngestContinuation :: "store \<Rightarrow> bool" where
  "hasPendingIngestContinuation s =
     (\<exists>j\<in>set (listPendingIngestCandidates 32 s). isIngestContinuation (payloadJson j))"

end
