(* ===== verification/JobLifecycle.thy ===== *)
theory JobLifecycle
  imports JobQueue
begin

text \<open>
  The second half of the job queue of \<open>packages/db/src/store.ts\<close>: how a claimed job ends
  (\<open>completeJob\<close>, \<open>failJob\<close>, \<open>deferJob\<close>), the reclaim of running jobs after a crash, the deletes,
  the reconciliation of the counters and the read-only queries over the queue.
\<close>

section \<open>Completion\<close>

definition jobDurationMs :: "time option \<Rightarrow> time \<Rightarrow> int option" where
  "jobDurationMs st en =
     (case st of None \<Rightarrow> None | Some t \<Rightarrow> if en < t then None else Some (en - t))"

definition set_last_completed :: "time \<Rightarrow> job_type \<Rightarrow> int option \<Rightarrow> store \<Rightarrow> store" where
  "set_last_completed at ty dur = updateSchedulerState (\<lambda>r. r\<lparr>lastCompletedJobAt := Some at,
     lastCompletedJobType := Some ty, lastCompletedJobDurationMs := dur\<rparr>)"

definition maybeUpdateLastCompletedJobCache ::
  "job_type \<Rightarrow> time \<Rightarrow> time option \<Rightarrow> store \<Rightarrow> store" where
  "maybeUpdateLastCompletedJobCache ty at st s =
     (case lastCompletedJobAt (sched s) of
        Some t \<Rightarrow> if t \<ge> at then s else set_last_completed at ty (jobDurationMs st at) s
      | None \<Rightarrow> set_last_completed at ty (jobDurationMs st at) s)"

definition markJobSnapshotDirty :: "store \<Rightarrow> store" where
  "markJobSnapshotDirty = updateSchedulerState (\<lambda>r. r\<lparr>syncSnapshotDirty := True\<rparr>)"

definition set_done :: "time \<Rightarrow> job \<Rightarrow> job" where
  "set_done ts j = j\<lparr>job_status := Done, lastError := None, completedAt := Some ts,
     reclaimCount := 0, reclaimProgressJson := None\<rparr>"

definition update_job :: "int \<Rightarrow> (job \<Rightarrow> job) \<Rightarrow> store \<Rightarrow> store" where
  "update_job i f s = s\<lparr>jobs := update_where (\<lambda>j. job_id j = i) f (jobs s)\<rparr>"

definition completeJob :: "int \<Rightarrow> store \<Rightarrow> store" where
  "completeJob i s =
     (let ts = clock s;
          s1 = update_job i (set_done ts) s
      in case getJob i s of
           None \<Rightarrow> markJobSnapshotDirty s1
         | Some j \<Rightarrow>
             let s2 = (if is_pending j then adjustPendingJobCount (- 1) s1 else s1);
                 s3 = (if is_active j then adjustActiveJobCount (job_kind j) (- 1) s2 else s2)
             in markJobSnapshotDirty (maybeUpdateLastCompletedJobCache (job_kind j) ts (startedAt j) s3))"

section \<open>Failure\<close>

definition set_failed :: "int \<Rightarrow> string \<Rightarrow> time \<Rightarrow> job \<Rightarrow> job" where
  "set_failed n err ra j = j\<lparr>job_status := Pending, attempts := n, lastError := Some err,
     runAfter := ra, startedAt := None\<rparr>"

definition requeue :: "int \<Rightarrow> int \<Rightarrow> string \<Rightarrow> time \<Rightarrow> store \<Rightarrow> store" where
  "requeue i n err ra s =
     (let s1 = update_job i (set_failed n err ra) s
      in case getJob i s of
           Some j \<Rightarrow> if is_running j then adjustPendingJobCount 1 s1 else s1
         | None \<Rightarrow> s1)"

definition failJob :: "int \<Rightarrow> string \<Rightarrow> time option \<Rightarrow> store \<Rightarrow> store" where
  "failJob i err ra s =
     requeue i ((case getJob i s of Some j \<Rightarrow> attempts j | None \<Rightarrow> 0) + 1) err
       (case ra of Some t \<Rightarrow> t | None \<Rightarrow> clock s) s"

definition deferJob :: "int \<Rightarrow> string \<Rightarrow> time \<Rightarrow> store \<Rightarrow> store" where
  "deferJob i err ra s = requeue i 0 err ra s"

definition clear_reclaim :: "job \<Rightarrow> job" where
  "clear_reclaim j = j\<lparr>reclaimCount := 0, reclaimProgressJson := None\<rparr>"

definition clearJobReclaimState :: "int \<Rightarrow> store \<Rightarrow> store" where
  "clearJobReclaimState i = update_job i clear_reclaim"

section \<open>Reclaiming running jobs\<close>

definition stale_running :: "int \<Rightarrow> time \<Rightarrow> job \<Rightarrow> bool" where
  "stale_running staleMs ts j =
     (if staleMs \<le> 0 then is_running j
      else is_running j \<and>
           (case startedAt j of None \<Rightarrow> True | Some t \<Rightarrow> t \<le> ts - max 0 staleMs))"

definition set_reclaimed :: "int \<Rightarrow> ingest_progress \<Rightarrow> job \<Rightarrow> job" where
  "set_reclaimed n pr j = j\<lparr>job_status := Pending, startedAt := None, reclaimCount := n,
     reclaimProgressJson := Some pr, lastError := Some ''reclaimed: stale running''\<rparr>"

text \<open>One turn of the loop of \<open>resetRunningJobs\<close>, on the row as it was selected.\<close>

definition reset_one :: "int \<Rightarrow> int \<Rightarrow> job \<Rightarrow> store \<times> int \<times> int \<Rightarrow> store \<times> int \<times> int" where
  "reset_one deferAfter deferSec j st =
     (case st of (s, reclaimed, deferred) \<Rightarrow>
        let pr = extractIngestProgressSnapshot (payloadJson j);
            n = reclaimCount j + 1;
            unchanged = (reclaimProgressJson j = Some pr)
        in if deferAfter > 0 \<and> n \<ge> deferAfter \<and> unchanged
           then (update_job (job_id j) clear_reclaim
                   (deferJob (job_id j) ''deferred: reclaimed without progress''
                      (clock s + deferSec * 1000) s),
                 reclaimed, deferred + 1)
           else (adjustPendingJobCount 1 (update_job (job_id j) (set_reclaimed n pr) s),
                 reclaimed + 1, deferred))"

definition resetRunningJobs :: "int \<Rightarrow> int option \<Rightarrow> int option \<Rightarrow> store \<Rightarrow> store \<times> int \<times> int" where
  "resetRunningJobs staleMs deferAfter deferSec s =
     fold (reset_one (case deferAfter of Some n \<Rightarrow> n | None \<Rightarrow> 0)
                     (case deferSec of Some n \<Rightarrow> n | None \<Rightarrow> 86400))
       (filter (stale_running staleMs (clock s)) (jobs s)) (s, 0, 0)"

section \<open>Deleting\<close>

text \<open>
  \<open>deleteActiveJobsForAddress\<close>: the deltas are collected per type in a \<open>Map\<close>, then applied in the
  order of its keys.
\<close>

definition deleteActiveJobsForAddress :: "address \<Rightarrow> store \<Rightarrow> int \<times> store" where
  "deleteActiveJobsForAddress a s =
     (let m = (\<lambda>j. is_active j \<and> job_address j = Some a);
          rows = filter m (jobs s);
          s1 = s\<lparr>jobs := filter (\<lambda>j. \<not> m j) (jobs s)\<rparr>;
          pendingDelta = - count_rows is_pending rows;
          activeByType = fold (\<lambda>j. map_add (job_kind j) (- 1)) rows [];
          s2 = adjustPendingJobCount pendingDelta s1
      in (int (length rows), fold (\<lambda>(ty, d). adjustActiveJobCount ty d) activeByType s2))"

definition deleteActiveJobs :: "store \<Rightarrow> (int \<times> int \<times> int) \<times> store" where
  "deleteActiveJobs s =
     (let p = count_rows is_pending (jobs s); r = count_rows is_running (jobs s);
          s1 = s\<lparr>jobs := filter (\<lambda>j. \<not> is_active j) (jobs s)\<rparr>
      in ((p + r, p, r),
          updateSchedulerState (\<lambda>r. r\<lparr>pendingJobCount := 0, activeExpandCount := 0,
            activeBackfillCount := 0, activeAuditCount := 0, activeProcessTxCount := 0\<rparr>) s1))"

section \<open>Reconciliation\<close>

definition reconcilePendingJobCount :: "store \<Rightarrow> int \<times> store" where
  "reconcilePendingJobCount s =
     (let n = count_rows is_pending (jobs s)
      in (n, updateSchedulerState (\<lambda>r. r\<lparr>pendingJobCount := n\<rparr>) s))"

definition count_active_of :: "job_type \<Rightarrow> store \<Rightarrow> int" where
  "count_active_of ty s = count_rows (\<lambda>j. job_kind j = ty \<and> is_active j) (jobs s)"

definition reconcileActiveJobCounts :: "store \<Rightarrow> store" where
  "reconcileActiveJobCounts s = updateSchedulerState (\<lambda>r. r\<lparr>
     activeExpandCount := count_active_of Expand_downstream s,
     activeBackfillCount := count_active_of Backfill_hacker_address s,
     activeAuditCount := count_active_of Audit_hacker_backfill s,
     activeProcessTxCount := count_active_of Process_tx s\<rparr>) s"

section \<open>Queries\<close>

definition countPendingJobsBefore :: "int \<Rightarrow> time \<Rightarrow> time option \<Rightarrow> store \<Rightarrow> int" where
  "countPendingJobsBefore prio ra ca s =
     count_rows (\<lambda>j. is_pending j \<and>
       (case ca of
          Some c \<Rightarrow> priority j > prio \<or> (priority j = prio \<and> runAfter j < ra) \<or>
                    (priority j = prio \<and> runAfter j = ra \<and> createdAt j < c)
        | None \<Rightarrow> priority j > prio \<or> (priority j = prio \<and> runAfter j \<le> ra))) (jobs s)"

definition countPendingJobsBeforeEffective ::
  "int \<Rightarrow> time \<Rightarrow> time \<Rightarrow> job_type \<Rightarrow> claim_age_boost option \<Rightarrow> store \<Rightarrow> int" where
  "countPendingJobsBeforeEffective prio ra ca ty ab s =
     (let ts = clock s;
          b = (case ab of Some b \<Rightarrow> b | None \<Rightarrow>
                 \<lparr>boost_enabled = False, intervalSec = 1, maxBoost = 0, eligibleTypes = []\<rparr>);
          target = prio + targetAgeBoost ty ra ca b ts
      in count_rows (\<lambda>j. is_pending j \<and> runAfter j \<le> ts \<and>
           (let e = effectivePriority ab ts j
            in e > target \<or> (e = target \<and> runAfter j < ra) \<or>
               (e = target \<and> runAfter j = ra \<and> createdAt j < ca))) (jobs s))"

definition getQueueDepth :: "store \<Rightarrow> int" where
  "getQueueDepth s = count_rows (runnable (clock s)) (jobs s)"

definition getPendingQueueDepthAll :: "store \<Rightarrow> int" where
  "getPendingQueueDepthAll s = pendingJobCount (sched s)"

definition matches_filter :: "job_status list option \<Rightarrow> job_type option \<Rightarrow> job \<Rightarrow> bool" where
  "matches_filter sts ty j =
     (job_status j \<in> set (case sts of Some xs \<Rightarrow> xs | None \<Rightarrow> [Pending, Running]) \<and>
      (case ty of Some t \<Rightarrow> job_kind j = t | None \<Rightarrow> True))"

definition countActiveJobsMatching ::
  "job_status list option \<Rightarrow> job_type option \<Rightarrow> store \<Rightarrow> int" where
  "countActiveJobsMatching sts ty s = count_rows (matches_filter sts ty) (jobs s)"

definition listActiveJobs ::
  "job_status list option \<Rightarrow> job_type option \<Rightarrow> nat option \<Rightarrow> nat option \<Rightarrow> store \<Rightarrow> job list" where
  "listActiveJobs sts ty lim off s =
     (let base = sort_key (jobClaimOrder None (clock s)) (filter (matches_filter sts ty) (jobs s));
          skipped = (case off of Some n \<Rightarrow> drop n base | None \<Rightarrow> base)
      in case lim of Some n \<Rightarrow> take n skipped | None \<Rightarrow> skipped)"

section \<open>The tick lease\<close>

definition tryAcquireTickLease :: "int \<Rightarrow> store \<Rightarrow> bool \<times> store" where
  "tryAcquireTickLease leaseMs s =
     (let now = clock s;
          free = (case tickLeaseUntil (sched s) of None \<Rightarrow> True | Some t \<Rightarrow> t < now)
      in if free
         then (True, updateSchedulerState (\<lambda>r. r\<lparr>tickLeaseUntil := Some (now + max 1 leaseMs)\<rparr>) s)
         else (False, s))"

definition clearTickLease :: "store \<Rightarrow> store" where
  "clearTickLease = updateSchedulerState (\<lambda>r. r\<lparr>tickLeaseUntil := None\<rparr>)"

end
