(* ===== verification/JobInv.thy ===== *)
theory JobInv
  imports JobLifecycle
begin

text \<open>
  The invariant of the job queue: job ids are distinct and below the AUTOINCREMENT sequence, and
  the five maintained counters (pending, and active per capped type) equal the counts of rows they
  stand for. Every operation of the queue preserves it; \<open>job_reach\<close> is the set of states that
  sequences of operations reach from the empty database.
\<close>

section \<open>What the counters count\<close>

definition job_counters :: "counter list" where
  "job_counters = [PendingJob, ActiveExpand, ActiveBackfill, ActiveAudit, ActiveProcessTx]"

fun job_counted :: "counter \<Rightarrow> job \<Rightarrow> bool" where
  "job_counted PendingJob j = is_pending j"
| "job_counted k j = (cachedActiveJobCountField (job_kind j) = Some k \<and> is_active j)"

definition ids_ok :: "store \<Rightarrow> bool" where
  "ids_ok s \<longleftrightarrow> distinct (map job_id (jobs s)) \<and> (\<forall>j\<in>set (jobs s). job_id j \<le> job_seq s)"

definition jobs_inv :: "store \<Rightarrow> bool" where
  "jobs_inv s \<longleftrightarrow> ids_ok s \<and>
     (\<forall>k\<in>set job_counters. exact_count (\<lambda>s. counter_val k (sched s)) jobs (job_counted k) s)"

lemma jobs_invI:
  assumes "ids_ok s"
    and "\<And>k. k \<in> set job_counters \<Longrightarrow> exact_count (\<lambda>s. counter_val k (sched s)) jobs (job_counted k) s"
  shows "jobs_inv s"
  using assms by (simp add: jobs_inv_def)

lemma jobs_invD:
  assumes "jobs_inv s"
  shows "distinct (map job_id (jobs s))" and "j \<in> set (jobs s) \<Longrightarrow> job_id j \<le> job_seq s"
    and "k \<in> set job_counters \<Longrightarrow> exact_count (\<lambda>s. counter_val k (sched s)) jobs (job_counted k) s"
    and "k \<in> set job_counters \<Longrightarrow> counter_val k (sched s) = count_rows (job_counted k) (jobs s)"
    and "k \<in> set job_counters \<Longrightarrow> 0 \<le> counter_val k (sched s)"
  using assms by (auto simp: jobs_inv_def ids_ok_def exact_count_def)

lemma ids_ok_cong: "jobs s' = jobs s \<Longrightarrow> job_seq s' = job_seq s \<Longrightarrow> ids_ok s' = ids_ok s"
  by (simp add: ids_ok_def)

lemma ids_ok_map:
  assumes "map job_id (jobs s') = map job_id (jobs s)" and "job_seq s' = job_seq s"
  shows "ids_ok s' = ids_ok s"
proof -
  have "set (map job_id (jobs s')) = set (map job_id (jobs s))" by (simp only: assms(1))
  then have "(\<forall>j\<in>set (jobs s'). job_id j \<le> n) = (\<forall>j\<in>set (jobs s). job_id j \<le> n)" for n
    by auto (metis image_eqI imageE)+
  then show ?thesis by (simp add: ids_ok_def assms)
qed

lemma jobs_inv_frame:
  assumes "jobs_inv s" and "jobs s' = jobs s" and "job_seq s' = job_seq s"
    and "\<And>k. k \<in> set job_counters \<Longrightarrow> counter_val k (sched s') = counter_val k (sched s)"
  shows "jobs_inv s'"
  using assms by (auto simp: jobs_inv_def exact_count_def ids_ok_def)

text \<open>The active counters are told apart by their type.\<close>

lemma job_counters_cases:
  "k \<in> set job_counters \<Longrightarrow> k = PendingJob \<or> (\<exists>ty. cachedActiveJobCountField ty = Some k)"
  by (auto simp: job_counters_def intro: cachedActiveJobCountField.simps)

lemma cachedActive_not_pending [simp]: "cachedActiveJobCountField ty \<noteq> Some PendingJob"
  by (cases ty) auto

lemma cachedActive_in: "cachedActiveJobCountField ty = Some k \<Longrightarrow> k \<in> set job_counters"
  by (cases ty) (auto simp: job_counters_def)

lemma cachedActive_inj:
  "cachedActiveJobCountField ty = Some k \<Longrightarrow> cachedActiveJobCountField ty' = Some k \<Longrightarrow> ty = ty'"
  by (cases ty; cases ty') auto

lemma job_counted_active:
  "k \<noteq> PendingJob \<Longrightarrow> job_counted k j = (cachedActiveJobCountField (job_kind j) = Some k \<and> is_active j)"
  by (cases k) auto

section \<open>Adjusting\<close>

lemma adjustActive_frame [simp, store_simps]:
  "clock (adjustActiveJobCount ty d s) = clock s"
  "opts (adjustActiveJobCount ty d s) = opts s"
  "jobs (adjustActiveJobCount ty d s) = jobs s"
  "job_seq (adjustActiveJobCount ty d s) = job_seq s"
  by (simp_all add: adjustActiveJobCount_def split: option.splits)

lemma adjustPending_frame [simp, store_simps]:
  "clock (adjustPendingJobCount d s) = clock s"
  "opts (adjustPendingJobCount d s) = opts s"
  "jobs (adjustPendingJobCount d s) = jobs s"
  "job_seq (adjustPendingJobCount d s) = job_seq s"
  by (simp_all add: adjustPendingJobCount_def)

lemma adjustActive_0 [simp]: "adjustActiveJobCount ty 0 s = s"
  by (simp add: adjustActiveJobCount_def)

lemma adjustPending_0 [simp]: "adjustPendingJobCount 0 s = s"
  by (simp add: adjustPendingJobCount_def)

text \<open>Adjusting the pending counter and the counter of one type is one adjustment for each counter.\<close>

definition adjust_jobs :: "job_type \<Rightarrow> int \<Rightarrow> int \<Rightarrow> store \<Rightarrow> store" where
  "adjust_jobs ty dp da s = adjustActiveJobCount ty da (adjustPendingJobCount dp s)"

lemma adjust_jobs_val:
  assumes "k \<in> set job_counters"
  shows "counter_val k (sched (adjust_jobs ty dp da s))
       = counter_val k (sched (adjust k (if k = PendingJob then dp
            else if cachedActiveJobCountField ty = Some k then da else 0) s))"
proof (cases "cachedActiveJobCountField ty")
  case None
  then show ?thesis
    by (auto simp: adjust_jobs_def adjustActiveJobCount_def adjustPendingJobCount_def)
next
  case (Some k')
  then have "k' \<noteq> PendingJob" by auto
  then show ?thesis
    using Some by (auto simp: adjust_jobs_def adjustActiveJobCount_def adjustPendingJobCount_def
        adjust_def simp del: counter_upd.simps counter_val.simps)
qed

lemma exact_adjust_jobs:
  assumes "k \<in> set job_counters"
    and "exact_count (\<lambda>s. counter_val k (sched s)) jobs (job_counted k)
      (adjust k (if k = PendingJob then dp
            else if cachedActiveJobCountField ty = Some k then da else 0) s)"
  shows "exact_count (\<lambda>s. counter_val k (sched s)) jobs (job_counted k) (adjust_jobs ty dp da s)"
  using assms(2) unfolding exact_count_def adjust_jobs_val[OF assms(1)] by (simp add: adjust_jobs_def)

section \<open>The three shapes of a change\<close>

lemma jobs_inv_insert:
  assumes "jobs_inv s" and "jobs s1 = jobs s @ [j]" and "job_seq s1 = job_id j"
    and "job_id j = job_seq s + 1" and "sched s1 = sched s" and "is_pending j"
  shows "jobs_inv (adjust_jobs (job_kind j) 1 1 s1)"
proof (rule jobs_invI)
  show "ids_ok (adjust_jobs (job_kind j) 1 1 s1)"
    using jobs_invD(1,2)[OF assms(1)] assms(2-4) by (fastforce simp: ids_ok_def adjust_jobs_def)
  fix k assume k: "k \<in> set job_counters"
  have "exact_count (\<lambda>s. counter_val k (sched s)) jobs (job_counted k)
          (adjust k (b2i (job_counted k j)) s1)"
    by (rule jobs_counter.exact_insert[OF jobs_invD(3)[OF assms(1) k]]) (simp_all add: assms)
  moreover have "b2i (job_counted k j) =
      (if k = PendingJob then 1 else if cachedActiveJobCountField (job_kind j) = Some k then 1 else 0)"
    using assms(6) by (cases "k = PendingJob") (auto simp: job_counted_active is_active_def is_pending_def)
  ultimately show "exact_count (\<lambda>s. counter_val k (sched s)) jobs (job_counted k)
      (adjust_jobs (job_kind j) 1 1 s1)"
    by (intro exact_adjust_jobs[OF k]) simp
qed

lemma jobs_inv_update:
  assumes "jobs_inv s" and "j \<in> set (jobs s)"
    and "jobs s1 = update_where (\<lambda>x. job_id x = job_id j) f (jobs s)"
    and "job_seq s1 = job_seq s" and "sched s1 = sched s"
    and "\<And>x. job_id (f x) = job_id x" and "\<And>x. job_kind (f x) = job_kind x"
    and "dp = b2i (is_pending (f j)) - b2i (is_pending j)"
    and "da = b2i (is_active (f j)) - b2i (is_active j)"
  shows "jobs_inv (adjust_jobs (job_kind j) dp da s1)"
proof (rule jobs_invI)
  show "ids_ok (adjust_jobs (job_kind j) dp da s1)"
    using assms(1) map_key_update_where[of job_id f, OF assms(6)]
    by (subst ids_ok_map[of _ s]) (simp_all add: adjust_jobs_def assms(3,4) jobs_inv_def)
  fix k assume k: "k \<in> set job_counters"
  have "exact_count (\<lambda>s. counter_val k (sched s)) jobs (job_counted k)
          (adjust k (b2i (job_counted k (f j)) - b2i (job_counted k j)) s1)"
    by (rule jobs_counter.exact_update[OF jobs_invD(3)[OF assms(1) k] _ jobs_invD(1)[OF assms(1)] assms(2)])
       (simp_all add: assms(3-5))
  moreover have "b2i (job_counted k (f j)) - b2i (job_counted k j) = (if k = PendingJob then dp
      else if cachedActiveJobCountField (job_kind j) = Some k then da else 0)"
    using assms(7-9) by (cases "k = PendingJob") (auto simp: job_counted_active)
  ultimately show "exact_count (\<lambda>s. counter_val k (sched s)) jobs (job_counted k)
      (adjust_jobs (job_kind j) dp da s1)"
    by (intro exact_adjust_jobs[OF k]) simp
qed

text \<open>A change that keeps id, type and status of every row changes no count.\<close>

lemma jobs_inv_relabel:
  assumes "jobs_inv s" and "jobs s1 = map f (jobs s)"
    and "job_seq s1 = job_seq s"
    and "\<And>k. k \<in> set job_counters \<Longrightarrow> counter_val k (sched s1) = counter_val k (sched s)"
    and "\<And>x. job_id (f x) = job_id x" and "\<And>x. job_kind (f x) = job_kind x"
    and "\<And>x. job_status (f x) = job_status x"
  shows "jobs_inv s1"
proof (rule jobs_invI)
  show "ids_ok s1"
    using jobs_invD(1,2)[OF assms(1)] assms(2,3,5) by (auto simp: ids_ok_def comp_def)
  fix k assume k: "k \<in> set job_counters"
  have same: "job_counted k (f x) = job_counted k x" for x
    using assms(5-7) by (cases "k = PendingJob") (auto simp: job_counted_active is_active_def is_pending_def)
  have "count_rows (job_counted k) (map f xs) = count_rows (job_counted k) xs" for xs
    by (induction xs) (simp_all add: same)
  then show "exact_count (\<lambda>s. counter_val k (sched s)) jobs (job_counted k) s1"
    using jobs_invD(4)[OF assms(1) k] assms(2,4) k by (simp add: exact_count_def)
qed

end
