(* ===== verification/JobSteps.thy ===== *)
theory JobSteps
  imports JobInv
begin

text \<open>
  Every operation of the queue preserves the invariant of \<open>JobInv\<close>; the operations as a step
  relation, the states that are reachable from the empty database, and the properties of the queue.
\<close>

section \<open>Preservation\<close>

lemma getJob_Some: "getJob i s = Some j \<Longrightarrow> j \<in> set (jobs s) \<and> job_id j = i"
  unfolding getJob_def by (rule find_key_Some)

lemma getJob_None: "getJob i s = None \<Longrightarrow> update_job i f s = s"
  unfolding getJob_def update_job_def
  by (subst update_where_none) (auto simp: find_None_iff)

lemma setQueueSchedulingPaused_inv [inv_intros]:
  "jobs_inv s \<Longrightarrow> jobs_inv (setQueueSchedulingPaused b s)"
  by (rule jobs_inv_frame) (auto simp: setQueueSchedulingPaused_def job_counters_def)

lemma maybeClearQueueSchedulingPause_inv [inv_intros]:
  "jobs_inv s \<Longrightarrow> jobs_inv (maybeClearQueueSchedulingPause s)"
  by (simp add: maybeClearQueueSchedulingPause_def setQueueSchedulingPaused_inv)

lemma shouldAllowEnqueue_state:
  "snd (shouldAllowEnqueue ty p b s) = s \<or>
   snd (shouldAllowEnqueue ty p b s) = setQueueSchedulingPaused True s"
  by (simp add: shouldAllowEnqueue_def Let_def)

lemma shouldAllowEnqueue_inv:
  "jobs_inv s \<Longrightarrow> jobs_inv (snd (shouldAllowEnqueue ty p b s))"
  using shouldAllowEnqueue_state[of ty p b s] by (auto intro: inv_intros)

lemma insert_job_inv [inv_intros]: "jobs_inv s \<Longrightarrow> jobs_inv (snd (insert_job ty p prio ra s))"
  unfolding insert_job_def afterJobInserted_def Let_def adjust_jobs_def[symmetric] snd_conv
  by (drule jobs_inv_insert[where j = "new_job (job_seq s + 1) ty p prio
        (case ra of Some t \<Rightarrow> t | None \<Rightarrow> clock s) (clock s)"])
     (auto simp: new_job_def is_pending_def)

lemma enqueueJob_inv [inv_intros]: "jobs_inv s \<Longrightarrow> jobs_inv (snd (enqueueJob ty p prio ra b s))"
  using shouldAllowEnqueue_inv[of s ty p b] insert_job_inv
  by (auto simp: enqueueJob_def split: prod.splits bool.splits)

lemma enqueueJobIfAbsent_inv [inv_intros]:
  "jobs_inv s \<Longrightarrow> jobs_inv (snd (enqueueJobIfAbsent ty p prio ra ds a b s))"
  using shouldAllowEnqueue_inv[of s ty p b] insert_job_inv
  by (auto simp: enqueueJobIfAbsent_def Let_def split: prod.splits bool.splits)

lemma relabel_where_inv:
  assumes "jobs_inv s" and "\<And>x. job_id (f x) = job_id x" and "\<And>x. job_kind (f x) = job_kind x"
    and "\<And>x. job_status (f x) = job_status x"
  shows "jobs_inv (s\<lparr>jobs := update_where P f (jobs s)\<rparr>)"
  by (rule jobs_inv_relabel[OF assms(1), where f = "\<lambda>x. if P x then f x else x"])
     (auto simp: assms update_where_def)

lemma bumpPending_inv [inv_intros]:
  "jobs_inv s \<Longrightarrow> jobs_inv (snd (bumpPendingExpandDownstream a prio st s))"
  unfolding bumpPendingExpandDownstream_def Let_def snd_conv
  by (rule relabel_where_inv) auto

lemma clearJobReclaimState_inv [inv_intros]: "jobs_inv s \<Longrightarrow> jobs_inv (clearJobReclaimState i s)"
  unfolding clearJobReclaimState_def update_job_def
  by (rule relabel_where_inv) (auto simp: clear_reclaim_def)

text \<open>An update of one row by its id, with the adjustments that its status change requires.\<close>

lemma update_job_inv:
  assumes "jobs_inv s" and "j \<in> set (jobs s)" and "job_id j = i"
    and "\<And>x. job_id (f x) = job_id x" and "\<And>x. job_kind (f x) = job_kind x"
    and "dp = b2i (is_pending (f j)) - b2i (is_pending j)"
    and "da = b2i (is_active (f j)) - b2i (is_active j)"
  shows "jobs_inv (adjustActiveJobCount (job_kind j) da (adjustPendingJobCount dp (update_job i f s)))"
  unfolding adjust_jobs_def[symmetric]
  by (rule jobs_inv_update[OF assms(1,2)]) (simp_all add: assms update_job_def)

lemma find_pending:
  assumes "jobs_inv s" and "count_rows (\<lambda>j. job_id j = i \<and> is_pending j) (jobs s) \<noteq> 0"
  obtains j where "j \<in> set (jobs s)" and "job_id j = i" and "is_pending j" and "getJob i s = Some j"
    and "update_where (\<lambda>j. job_id j = i \<and> is_pending j) f (jobs s)
       = update_where (\<lambda>x. job_id x = i) f (jobs s)"
proof -
  from assms(2) obtain j where j: "j \<in> set (jobs s)" "job_id j = i" "is_pending j"
    by (auto simp: count_rows_zero)
  have "getJob i s = Some j"
    unfolding getJob_def using find_key_eq[OF jobs_invD(1)[OF assms(1)] j(1)] j(2) by simp
  moreover have "update_where (\<lambda>j. job_id j = i \<and> is_pending j) f (jobs s)
       = update_where (\<lambda>x. job_id x = i) f (jobs s)"
    unfolding update_where_def
  proof (rule map_cong[OF refl])
    fix x assume "x \<in> set (jobs s)"
    then have "job_id x = i \<Longrightarrow> x = j"
      using distinct_key_unique[OF jobs_invD(1)[OF assms(1)] j(1), of x] j(2) by simp
    then show "(if job_id x = i \<and> is_pending x then f x else x) = (if job_id x = i then f x else x)"
      using j(3) by auto
  qed
  ultimately show thesis by (rule that[OF j])
qed

lemma markJobRunning_inv [inv_intros]:
  assumes "jobs_inv s"
  shows "jobs_inv (snd (markJobRunning i ts s))"
proof (cases "count_rows (\<lambda>j. job_id j = i \<and> is_pending j) (jobs s) = 0")
  case True
  then show ?thesis using assms by (simp add: markJobRunning_def)
next
  case False
  obtain j where j: "j \<in> set (jobs s)" "job_id j = i" "is_pending j"
    and eq: "update_where (\<lambda>j. job_id j = i \<and> is_pending j) (set_running ts) (jobs s)
       = update_where (\<lambda>x. job_id x = i) (set_running ts) (jobs s)"
    by (rule find_pending[OF assms False]) blast
  have "jobs_inv (adjustActiveJobCount (job_kind j) 0
          (adjustPendingJobCount (- 1) (update_job i (set_running ts) s)))"
    by (rule update_job_inv[OF assms j(1,2)])
       (use j(3) in \<open>auto simp: set_running_def is_pending_def is_active_def\<close>)
  then show ?thesis
    using False by (simp add: markJobRunning_def Let_def eq update_job_def)
qed

lemma claim_head_inv [inv_intros]: "jobs_inv s \<Longrightarrow> jobs_inv (snd (claim_head h s))"
  by (auto simp: claim_head_def markJobRunning_inv split: option.splits)

lemma claimNextJob_inv [inv_intros]: "jobs_inv s \<Longrightarrow> jobs_inv (snd (claimNextJob ab s))"
  by (simp add: claimNextJob_def claim_head_inv)

lemma claimOldestMaintCosmeticJob_inv [inv_intros]:
  "jobs_inv s \<Longrightarrow> jobs_inv (snd (claimOldestMaintCosmeticJob w ex el s))"
  by (simp add: claimOldestMaintCosmeticJob_def Let_def claim_head_inv)

lemma claimIngestJobById_inv [inv_intros]: "jobs_inv s \<Longrightarrow> jobs_inv (snd (claimIngestJobById i s))"
  by (simp add: claimIngestJobById_def claim_head_inv)

lemma claimNextIngestJob_inv [inv_intros]: "jobs_inv s \<Longrightarrow> jobs_inv (snd (claimNextIngestJob b s))"
  by (auto simp: claimNextIngestJob_def markJobRunning_inv split: list.splits)

lemma markJobSnapshotDirty_inv [inv_intros]: "jobs_inv s \<Longrightarrow> jobs_inv (markJobSnapshotDirty s)"
  by (rule jobs_inv_frame) (auto simp: markJobSnapshotDirty_def job_counters_def)

lemma set_last_completed_inv: "jobs_inv s \<Longrightarrow> jobs_inv (set_last_completed at ty d s)"
  by (rule jobs_inv_frame) (auto simp: set_last_completed_def job_counters_def)

lemma maybeUpdateLastCompleted_inv [inv_intros]:
  "jobs_inv s \<Longrightarrow> jobs_inv (maybeUpdateLastCompletedJobCache ty at st s)"
  by (auto simp: maybeUpdateLastCompletedJobCache_def intro: set_last_completed_inv split: option.splits)

lemma completeJob_inv [inv_intros]:
  assumes "jobs_inv s"
  shows "jobs_inv (completeJob i s)"
proof (cases "getJob i s")
  case None
  then show ?thesis
    using assms by (simp add: completeJob_def Let_def getJob_None markJobSnapshotDirty_inv)
next
  case (Some j)
  note j = getJob_Some[OF Some]
  have "jobs_inv (adjustActiveJobCount (job_kind j) (if is_active j then - 1 else 0)
          (adjustPendingJobCount (if is_pending j then - 1 else 0) (update_job i (set_done (clock s)) s)))"
    by (rule update_job_inv[OF assms]) (use j in \<open>auto simp: set_done_def is_pending_def is_active_def\<close>)
  then show ?thesis
    using Some by (auto simp: completeJob_def Let_def intro!: inv_intros split: if_splits)
qed

lemma requeue_inv:
  assumes "jobs_inv s" and "\<And>j. getJob i s = Some j \<Longrightarrow> is_active j"
  shows "jobs_inv (requeue i n err ra s)"
proof (cases "getJob i s")
  case None
  then show ?thesis using assms by (simp add: requeue_def Let_def getJob_None)
next
  case (Some j)
  have "jobs_inv (adjustActiveJobCount (job_kind j) 0 (adjustPendingJobCount
          (if is_running j then 1 else 0) (update_job i (set_failed n err ra) s)))"
    by (rule update_job_inv[OF assms(1)])
       (use getJob_Some[OF Some] assms(2)[OF Some] in
          \<open>auto simp: set_failed_def is_pending_def is_active_def is_running_def\<close>)
  then show ?thesis
    using Some by (auto simp: requeue_def Let_def split: if_splits)
qed

lemma failJob_inv [inv_intros]:
  "jobs_inv s \<Longrightarrow> (\<And>j. getJob i s = Some j \<Longrightarrow> is_active j) \<Longrightarrow> jobs_inv (failJob i err ra s)"
  by (simp add: failJob_def requeue_inv)

lemma deferJob_inv [inv_intros]:
  "jobs_inv s \<Longrightarrow> (\<And>j. getJob i s = Some j \<Longrightarrow> is_active j) \<Longrightarrow> jobs_inv (deferJob i err ra s)"
  by (simp add: deferJob_def requeue_inv)

section \<open>Reclaiming, deleting, reconciling\<close>

text \<open>One turn of the reclaim loop puts the one row back to pending and touches no other.\<close>

lemma reset_one_step:
  assumes "jobs_inv s" and "j \<in> set (jobs s)" and "is_running j"
    and "reset_one da ds j (s, r, d) = (s', r', d')"
  shows "jobs_inv s'" and "r' + d' = r + d + 1" and "clock s' = clock s"
    and "\<exists>g. jobs s' = update_where (\<lambda>x. job_id x = job_id j) g (jobs s) \<and>
             (\<forall>x. job_id (g x) = job_id x \<and> job_status (g x) = Pending)"
proof -
  let ?pr = "extractIngestProgressSnapshot (payloadJson j)"
  let ?n = "reclaimCount j + 1"
  have found: "getJob (job_id j) s = Some j"
    unfolding getJob_def by (rule find_key_eq[OF jobs_invD(1)[OF assms(1)] assms(2)])
  have "jobs_inv s' \<and> r' + d' = r + d + 1 \<and> clock s' = clock s \<and>
        (\<exists>g. jobs s' = update_where (\<lambda>x. job_id x = job_id j) g (jobs s) \<and>
             (\<forall>x. job_id (g x) = job_id x \<and> job_status (g x) = Pending))"
  proof (cases "da > 0 \<and> ?n \<ge> da \<and> reclaimProgressJson j = Some ?pr")
    case True
    let ?g = "\<lambda>x. clear_reclaim (set_failed 0 ''deferred: reclaimed without progress'' (clock s + ds * 1000) x)"
    have s': "s' = clearJobReclaimState (job_id j)
        (deferJob (job_id j) ''deferred: reclaimed without progress'' (clock s + ds * 1000) s)"
      and c: "r' = r" "d' = d + 1"
      using assms(4) True by (auto simp: reset_one_def Let_def clearJobReclaimState_def)
    have "jobs_inv s'"
      unfolding s' using assms(3) found by (intro inv_intros assms(1)) (auto simp: is_active_def is_running_def)
    moreover have "jobs s' = update_where (\<lambda>x. job_id x = job_id j) ?g (jobs s)"
      unfolding s' using found
      by (auto simp: clearJobReclaimState_def deferJob_def requeue_def update_job_def update_where_def
          Let_def set_failed_def clear_reclaim_def)
    moreover have "clock s' = clock s"
      unfolding s' by (simp add: clearJobReclaimState_def deferJob_def requeue_def update_job_def Let_def found)
    ultimately show ?thesis
      using c by (auto simp: set_failed_def clear_reclaim_def intro!: exI[of _ ?g])
  next
    case False
    then have s': "s' = adjustPendingJobCount 1 (update_job (job_id j) (set_reclaimed ?n ?pr) s)"
      and c: "r' = r + 1" "d' = d"
      using assms(4) by (auto simp: reset_one_def Let_def)
    have "jobs_inv (adjustActiveJobCount (job_kind j) 0
            (adjustPendingJobCount 1 (update_job (job_id j) (set_reclaimed ?n ?pr) s)))"
      by (rule update_job_inv[OF assms(1,2)])
         (use assms(3) in \<open>auto simp: set_reclaimed_def is_pending_def is_running_def is_active_def\<close>)
    then show ?thesis
      using c by (auto simp: s' update_job_def set_reclaimed_def intro!: exI[of _ "set_reclaimed ?n ?pr"])
  qed
  then show "jobs_inv s'" and "r' + d' = r + d + 1" and "clock s' = clock s"
    and "\<exists>g. jobs s' = update_where (\<lambda>x. job_id x = job_id j) g (jobs s) \<and>
             (\<forall>x. job_id (g x) = job_id x \<and> job_status (g x) = Pending)"
    by auto
qed

lemma reset_fold:
  assumes "jobs_inv s" and "distinct (map job_id js)" and "\<forall>j\<in>set js. j \<in> set (jobs s) \<and> is_running j"
    and "fold (reset_one da ds) js (s, r, d) = (s', r', d')"
  shows "jobs_inv s' \<and> r' + d' = r + d + int (length js) \<and>
         (\<forall>x\<in>set (jobs s). x \<notin> set js \<longrightarrow> x \<in> set (jobs s')) \<and>
         (\<forall>x\<in>set (jobs s'). is_running x \<longrightarrow> x \<in> set (jobs s) \<and> x \<notin> set js)"
  using assms
proof (induction js arbitrary: s r d)
  case Nil
  then show ?case by auto
next
  case (Cons j js)
  obtain s1 r1 d1 where one: "reset_one da ds j (s, r, d) = (s1, r1, d1)"
    by (cases "reset_one da ds j (s, r, d)") auto
  have j: "j \<in> set (jobs s)" "is_running j" using Cons.prems(3) by auto
  note step = reset_one_step[OF Cons.prems(1) j one]
  from step(4) obtain g where g: "jobs s1 = update_where (\<lambda>x. job_id x = job_id j) g (jobs s)"
    and gp: "\<And>x. job_id (g x) = job_id x" "\<And>x. job_status (g x) = Pending" by auto
  have keep: "x \<in> set (jobs s1)" if "x \<in> set (jobs s)" "job_id x \<noteq> job_id j" for x
    using that by (auto simp: g update_where_def)
  have orig: "x \<in> set (jobs s) \<and> job_id x \<noteq> job_id j" if "x \<in> set (jobs s1)" "is_running x" for x
    using that gp by (auto simp: g update_where_def is_running_def split: if_splits)
  have same: "x = j" if "x \<in> set (jobs s)" "job_id x = job_id j" for x
    using distinct_key_unique[OF jobs_invD(1)[OF Cons.prems(1)] that(1) j(1) that(2)] .
  have rest: "\<forall>x\<in>set js. x \<in> set (jobs s1) \<and> is_running x"
    using Cons.prems(2,3) keep by (auto simp: image_iff)
  have ih: "jobs_inv s' \<and> r' + d' = r1 + d1 + int (length js) \<and>
         (\<forall>x\<in>set (jobs s1). x \<notin> set js \<longrightarrow> x \<in> set (jobs s')) \<and>
         (\<forall>x\<in>set (jobs s'). is_running x \<longrightarrow> x \<in> set (jobs s1) \<and> x \<notin> set js)"
    using Cons.prems(2,4) one by (intro Cons.IH[OF step(1) _ rest]) auto
  show ?case
  proof (intro conjI ballI impI)
    show "jobs_inv s'" and "r' + d' = r + d + int (length (j # js))" using ih step(2) by auto
    show "x \<in> set (jobs s')" if "x \<in> set (jobs s)" "x \<notin> set (j # js)" for x
      using that ih keep same by auto
    show "x \<in> set (jobs s)" and "x \<notin> set (j # js)" if "x \<in> set (jobs s')" "is_running x" for x
      using that ih orig by auto
  qed
qed

lemma resetRunningJobs_spec:
  assumes "jobs_inv s" and "resetRunningJobs staleMs da ds s = (s', r, d)"
  shows "jobs_inv s'" and "r + d = count_rows (stale_running staleMs (clock s)) (jobs s)"
    and "\<And>x. x \<in> set (jobs s) \<Longrightarrow> \<not> stale_running staleMs (clock s) x \<Longrightarrow> x \<in> set (jobs s')"
    and "\<And>x. x \<in> set (jobs s') \<Longrightarrow> is_running x \<Longrightarrow>
           x \<in> set (jobs s) \<and> \<not> stale_running staleMs (clock s) x"
proof -
  let ?js = "filter (stale_running staleMs (clock s)) (jobs s)"
  have "distinct (map job_id ?js)" using jobs_invD(1)[OF assms(1)] by (rule distinct_map_filter)
  moreover have "\<forall>j\<in>set ?js. j \<in> set (jobs s) \<and> is_running j"
    by (auto simp: stale_running_def split: if_splits)
  ultimately have "jobs_inv s' \<and> r + d = 0 + 0 + int (length ?js) \<and>
         (\<forall>x\<in>set (jobs s). x \<notin> set ?js \<longrightarrow> x \<in> set (jobs s')) \<and>
         (\<forall>x\<in>set (jobs s'). is_running x \<longrightarrow> x \<in> set (jobs s) \<and> x \<notin> set ?js)"
    using assms(2) unfolding resetRunningJobs_def by (intro reset_fold[OF assms(1)])
  then show "jobs_inv s'" and "r + d = count_rows (stale_running staleMs (clock s)) (jobs s)"
    and "\<And>x. x \<in> set (jobs s) \<Longrightarrow> \<not> stale_running staleMs (clock s) x \<Longrightarrow> x \<in> set (jobs s')"
    and "\<And>x. x \<in> set (jobs s') \<Longrightarrow> is_running x \<Longrightarrow>
           x \<in> set (jobs s) \<and> \<not> stale_running staleMs (clock s) x"
    by (auto simp: count_rows_def)
qed

lemma resetRunningJobs_inv [inv_intros]:
  "jobs_inv s \<Longrightarrow> jobs_inv (fst (resetRunningJobs st da ds s))"
  using resetRunningJobs_spec(1)[of s st da ds] by (cases "resetRunningJobs st da ds s") auto

lemma get_fold_map_add:
  "get_or_0 (fold (\<lambda>j. map_add (f j) (- 1)) rows m) ty = get_or_0 m ty - count_rows (\<lambda>j. f j = ty) rows"
  by (induction rows arbitrary: m) (auto simp: get_or_0_map_add)

lemma distinct_fold_map_add:
  "distinct (map fst m) \<Longrightarrow> distinct (map fst (fold (\<lambda>j. map_add (f j) (d j)) rows m))"
  by (induction rows arbitrary: m) (auto simp: distinct_map_add)

lemma fold_adjustActive_frame [simp]:
  "jobs (fold (\<lambda>(ty, d). adjustActiveJobCount ty d) m s) = jobs s"
  "job_seq (fold (\<lambda>(ty, d). adjustActiveJobCount ty d) m s) = job_seq s"
  "clock (fold (\<lambda>(ty, d). adjustActiveJobCount ty d) m s) = clock s"
  by (induction m arbitrary: s) auto

lemma adjustActive_other:
  "cachedActiveJobCountField ty \<noteq> Some k \<Longrightarrow>
     counter_val k (sched (adjustActiveJobCount ty d s)) = counter_val k (sched s)"
  by (auto simp: adjustActiveJobCount_def split: option.splits)

lemma fold_adjustActive_other:
  "\<forall>(ty, d)\<in>set m. cachedActiveJobCountField ty \<noteq> Some k \<Longrightarrow>
     counter_val k (sched (fold (\<lambda>(ty, d). adjustActiveJobCount ty d) m s)) = counter_val k (sched s)"
  by (induction m arbitrary: s) (auto simp: adjustActive_other)

lemma fold_adjustActive_val:
  assumes "cachedActiveJobCountField ty = Some k" and "distinct (map fst m)"
  shows "counter_val k (sched (fold (\<lambda>(ty, d). adjustActiveJobCount ty d) m s))
       = counter_val k (sched (adjust k (get_or_0 m ty) s))"
  using assms(2)
proof (induction m arbitrary: s)
  case Nil
  then show ?case by (simp add: get_or_0_def)
next
  case (Cons a m)
  obtain ty' d where a: "a = (ty', d)" by (cases a)
  show ?case
  proof (cases "ty' = ty")
    case True
    have "\<forall>(t, d)\<in>set m. cachedActiveJobCountField t \<noteq> Some k"
      using Cons.prems True a cachedActive_inj[OF assms(1)] by (fastforce simp: image_iff)
    moreover have "adjustActiveJobCount ty d s = adjust k d s"
      using assms(1) by (simp add: adjustActiveJobCount_def)
    ultimately show ?thesis
      using True a by (simp add: fold_adjustActive_other get_or_0_def)
  next
    case False
    then have "cachedActiveJobCountField ty' \<noteq> Some k" using assms(1) by (auto dest: cachedActive_inj)
    with Cons False a show ?thesis
      by (simp add: adjust_def adjustActive_other get_or_0_def)
  qed
qed

lemma deleteActiveJobsForAddress_inv [inv_intros]:
  assumes "jobs_inv s"
  shows "jobs_inv (snd (deleteActiveJobsForAddress a s))"
proof (rule jobs_invI)
  let ?m = "\<lambda>j. is_active j \<and> job_address j = Some a"
  let ?rows = "filter ?m (jobs s)"
  let ?s1 = "s\<lparr>jobs := filter (\<lambda>j. \<not> ?m j) (jobs s)\<rparr>"
  let ?am = "fold (\<lambda>j. map_add (job_kind j) (- 1)) ?rows []"
  let ?s2 = "adjustPendingJobCount (- count_rows is_pending ?rows) ?s1"
  let ?s' = "fold (\<lambda>(ty, d). adjustActiveJobCount ty d) ?am ?s2"
  have s': "snd (deleteActiveJobsForAddress a s) = ?s'"
    by (simp only: deleteActiveJobsForAddress_def Let_def snd_conv)
  show "ids_ok (snd (deleteActiveJobsForAddress a s))"
    unfolding s' using jobs_invD(1,2)[OF assms] by (auto simp: ids_ok_def intro: distinct_map_filter)
  fix k assume k: "k \<in> set job_counters"
  have del: "exact_count (\<lambda>s. counter_val k (sched s)) jobs (job_counted k)
      (adjust k (- count_rows (job_counted k) ?rows) ?s1)"
    by (rule jobs_counter.exact_delete[OF jobs_invD(3)[OF assms k]]) simp_all
  have "counter_val k (sched ?s') = counter_val k (sched (adjust k (- count_rows (job_counted k) ?rows) ?s1))"
  proof (cases "k = PendingJob")
    case True
    have "count_rows (job_counted k) ?rows = count_rows is_pending ?rows"
      unfolding True by (rule count_rows_cong) simp
    then show ?thesis
      unfolding True by (subst fold_adjustActive_other) (auto simp: adjustPendingJobCount_def)
  next
    case False
    then obtain ty where ty: "cachedActiveJobCountField ty = Some k" using job_counters_cases[OF k] by auto
    have "count_rows (job_counted k) ?rows = count_rows (\<lambda>j. job_kind j = ty) ?rows"
      by (rule count_rows_cong) (use ty False in \<open>auto simp: job_counted_active dest: cachedActive_inj\<close>)
    moreover have "get_or_0 ?am ty = - count_rows (\<lambda>j. job_kind j = ty) ?rows"
      by (subst get_fold_map_add) (simp add: get_or_0_def)
    moreover have "counter_val k (sched (adjust k d ?s2)) = counter_val k (sched (adjust k d ?s1))" for d
      using False by (simp add: adjust_def adjustPendingJobCount_def del: counter_val.simps counter_upd.simps)
    ultimately show ?thesis
      using fold_adjustActive_val[OF ty distinct_fold_map_add[of "[]" job_kind "\<lambda>_. - 1" ?rows], of ?s2]
      by simp
  qed
  then show "exact_count (\<lambda>s. counter_val k (sched s)) jobs (job_counted k)
      (snd (deleteActiveJobsForAddress a s))"
    using del unfolding s' by (simp add: exact_count_def adjustPendingJobCount_def)
qed

lemma deleteActiveJobs_inv [inv_intros]:
  assumes "jobs_inv s"
  shows "jobs_inv (snd (deleteActiveJobs s))"
proof (rule jobs_invI)
  show "ids_ok (snd (deleteActiveJobs s))"
    using jobs_invD(1,2)[OF assms] by (auto simp: ids_ok_def deleteActiveJobs_def Let_def intro: distinct_map_filter)
  fix k assume k: "k \<in> set job_counters"
  have "count_rows (job_counted k) (filter (\<lambda>j. \<not> is_active j) (jobs s)) = 0"
    using k by (auto simp: count_rows_zero job_counters_def is_active_def is_pending_def)
  then show "exact_count (\<lambda>s. counter_val k (sched s)) jobs (job_counted k) (snd (deleteActiveJobs s))"
    using k by (auto simp: exact_count_def deleteActiveJobs_def Let_def job_counters_def)
qed

lemma job_counted_fun:
  "job_counted PendingJob = is_pending"
  "job_counted ActiveExpand = (\<lambda>j. job_kind j = Expand_downstream \<and> is_active j)"
  "job_counted ActiveBackfill = (\<lambda>j. job_kind j = Backfill_hacker_address \<and> is_active j)"
  "job_counted ActiveAudit = (\<lambda>j. job_kind j = Audit_hacker_backfill \<and> is_active j)"
  "job_counted ActiveProcessTx = (\<lambda>j. job_kind j = Process_tx \<and> is_active j)"
  by (auto simp: fun_eq_iff dest: cachedActive_inj[of _ _ Expand_downstream]
      cachedActive_inj[of _ _ Backfill_hacker_address] cachedActive_inj[of _ _ Audit_hacker_backfill]
      cachedActive_inj[of _ _ Process_tx])

text \<open>Reconciliation needs no exact counter to start with: it establishes them.\<close>

definition reconcileJobCounts :: "store \<Rightarrow> store" where
  "reconcileJobCounts s = reconcileActiveJobCounts (snd (reconcilePendingJobCount s))"

lemma reconcileJobCounts_inv:
  assumes "ids_ok s"
  shows "jobs_inv (reconcileJobCounts s)"
proof (rule jobs_invI)
  show "ids_ok (reconcileJobCounts s)"
    using assms by (simp add: reconcileJobCounts_def reconcileActiveJobCounts_def
        reconcilePendingJobCount_def Let_def ids_ok_def)
  fix k assume k: "k \<in> set job_counters"
  then show "exact_count (\<lambda>s. counter_val k (sched s)) jobs (job_counted k) (reconcileJobCounts s)"
    by (auto simp: exact_count_def reconcileJobCounts_def reconcileActiveJobCounts_def
        reconcilePendingJobCount_def Let_def job_counters_def count_active_of_def job_counted_fun)
qed

end
