(* ===== verification/JobReach.thy ===== *)
theory JobReach
  imports JobSteps
begin

text \<open>
  The queue as a transition system: the operations of the store on jobs, the states they reach from
  the empty database, and the properties of the queue as a whole: exact counters, the claim order
  and its exclusivity, deduplication, the caps and the scheduling latch, the reclaim.
\<close>

section \<open>Operations and reachable states\<close>

datatype job_op =
    Op_enqueue job_type payload int "time option" bool
  | Op_enqueue_if_absent job_type payload int "time option" "job_type list option" "string option" bool
  | Op_bump_expand address int bool
  | Op_claim_next "claim_age_boost option"
  | Op_claim_maint int "int list" "job_type list option"
  | Op_claim_ingest_by_id int
  | Op_claim_ingest bool
  | Op_complete int
  | Op_fail int string "time option"
  | Op_defer int string time
  | Op_clear_reclaim int
  | Op_reset_running int "int option" "int option"
  | Op_delete_for_address address
  | Op_delete_active
  | Op_reconcile
  | Op_set_paused bool
  | Op_maybe_clear_pause
  | Op_clock time

fun exec_job_op :: "job_op \<Rightarrow> store \<Rightarrow> store" where
  "exec_job_op (Op_enqueue ty p pr ra b) s = snd (enqueueJob ty p pr ra b s)"
| "exec_job_op (Op_enqueue_if_absent ty p pr ra ds a b) s = snd (enqueueJobIfAbsent ty p pr ra ds a b s)"
| "exec_job_op (Op_bump_expand a pr st) s = snd (bumpPendingExpandDownstream a pr st s)"
| "exec_job_op (Op_claim_next ab) s = snd (claimNextJob ab s)"
| "exec_job_op (Op_claim_maint w ex el) s = snd (claimOldestMaintCosmeticJob w ex el s)"
| "exec_job_op (Op_claim_ingest_by_id i) s = snd (claimIngestJobById i s)"
| "exec_job_op (Op_claim_ingest b) s = snd (claimNextIngestJob b s)"
| "exec_job_op (Op_complete i) s = completeJob i s"
| "exec_job_op (Op_fail i e ra) s = failJob i e ra s"
| "exec_job_op (Op_defer i e ra) s = deferJob i e ra s"
| "exec_job_op (Op_clear_reclaim i) s = clearJobReclaimState i s"
| "exec_job_op (Op_reset_running st da ds) s = fst (resetRunningJobs st da ds s)"
| "exec_job_op (Op_delete_for_address a) s = snd (deleteActiveJobsForAddress a s)"
| "exec_job_op Op_delete_active s = snd (deleteActiveJobs s)"
| "exec_job_op Op_reconcile s = reconcileJobCounts s"
| "exec_job_op (Op_set_paused b) s = setQueueSchedulingPaused b s"
| "exec_job_op Op_maybe_clear_pause s = maybeClearQueueSchedulingPause s"
| "exec_job_op (Op_clock t) s = s\<lparr>clock := t\<rparr>"

text \<open>
  \<open>failJob\<close> and \<open>deferJob\<close> are for a job that is not done: they make the row pending again but add
  to the counter only when it was running.
\<close>

definition not_done :: "int \<Rightarrow> store \<Rightarrow> bool" where
  "not_done i s = (case getJob i s of Some j \<Rightarrow> is_active j | None \<Rightarrow> True)"

fun job_op_enabled :: "job_op \<Rightarrow> store \<Rightarrow> bool" where
  "job_op_enabled (Op_fail i e ra) s = not_done i s"
| "job_op_enabled (Op_defer i e ra) s = not_done i s"
| "job_op_enabled _ s = True"

inductive job_reach :: "store_options \<Rightarrow> time \<Rightarrow> store \<Rightarrow> bool" for opt t where
  reach_init: "job_reach opt t (init_store opt t)"
| reach_step: "job_reach opt t s \<Longrightarrow> job_op_enabled op s \<Longrightarrow> job_reach opt t (exec_job_op op s)"

lemma init_store_inv: "jobs_inv (init_store opt t)"
  by (auto simp: jobs_inv_def ids_ok_def exact_count_def init_store_def init_sched_def job_counters_def)

lemma exec_job_op_inv:
  assumes "jobs_inv s" and "job_op_enabled op s"
  shows "jobs_inv (exec_job_op op s)"
proof (cases op)
  case (Op_fail i e ra)
  then show ?thesis using assms by (auto simp: not_done_def intro!: inv_intros)
next
  case (Op_defer i e ra)
  then show ?thesis using assms by (auto simp: not_done_def intro!: inv_intros)
next
  case Op_reconcile
  then show ?thesis using assms(1) reconcileJobCounts_inv[of s] by (auto simp: jobs_inv_def[of s])
next
  case (Op_clock t)
  then show ?thesis using assms(1) by (auto intro: jobs_inv_frame)
qed (use assms(1) in \<open>auto intro: inv_intros\<close>)

lemma job_reach_inv: "job_reach opt t s \<Longrightarrow> jobs_inv s"
  by (induction rule: job_reach.induct) (auto intro: init_store_inv exec_job_op_inv)

lemma job_reach_run:
  "job_reach opt t s \<Longrightarrow> (\<forall>op\<in>set ops. \<forall>s. job_op_enabled op s) \<Longrightarrow> job_reach opt t (fold exec_job_op ops s)"
  by (induction ops arbitrary: s) (auto intro: reach_step)

section \<open>Exact counters\<close>

definition demo_ops :: "job_op list" where
  "demo_ops = [Op_enqueue Expand_downstream [(''address'', JStr ''a'')] 5 None False,
     Op_enqueue Poll_hacker_address [] 9 None False, Op_claim_next None,
     Op_enqueue Backfill_hacker_address [(''address'', JStr ''h'')] 7 None False,
     Op_complete 2, Op_claim_next None]"

definition demo_store :: store where
  "demo_store = fold exec_job_op demo_ops (init_store default_options 1000)"

text \<open>
  C1: in every state that the queue's operations reach, job ids are distinct and each of the five
  counters of the scheduler row equals the number of job rows it stands for: the pending jobs, and
  the active (pending or running) jobs of each capped type.
\<close>

theorem job_counters_exact:
  assumes "job_reach opt t s"
  shows "distinct (map job_id (jobs s)) \<and>
         (\<forall>k\<in>set job_counters. counter_val k (sched s) = count_rows (job_counted k) (jobs s))"
  using jobs_invD(1,4)[OF job_reach_inv[OF assms]] by blast

lemma demo_reach: "job_reach default_options 1000 demo_store"
  unfolding demo_store_def by (rule job_reach_run[OF reach_init]) (auto simp: demo_ops_def)

theorem job_counters_exact_witness:
  "job_reach default_options 1000 demo_store \<and> length (jobs demo_store) = 3 \<and>
   distinct (map job_id (jobs demo_store)) \<and>
   pendingJobCount (sched demo_store) = count_rows is_pending (jobs demo_store)"
proof -
  have "length (jobs demo_store) = 3" by code_simp
  then show ?thesis
    using job_counters_exact[OF demo_reach] demo_reach
    by (auto simp: job_counters_def job_counted_fun)
qed

section \<open>Claiming\<close>

lemma markJobRunning_spec:
  assumes "jobs_inv s" and "j \<in> set (jobs s)" and "is_pending j"
  shows "fst (markJobRunning (job_id j) ts s) = Some (set_running ts j)"
    and "jobs (snd (markJobRunning (job_id j) ts s))
       = update_where (\<lambda>x. job_id x = job_id j) (set_running ts) (jobs s)"
    and "pendingJobCount (sched (snd (markJobRunning (job_id j) ts s))) = pendingJobCount (sched s) - 1"
    and "clock (snd (markJobRunning (job_id j) ts s)) = clock s"
proof -
  let ?m = "\<lambda>x. job_id x = job_id j \<and> is_pending x"
  have n: "count_rows ?m (jobs s) \<noteq> 0" using assms(2,3) by (auto simp: count_rows_zero)
  obtain j' where j': "j' \<in> set (jobs s)" "job_id j' = job_id j" "getJob (job_id j) s = Some j'"
    and eq: "update_where ?m (set_running ts) (jobs s)
       = update_where (\<lambda>x. job_id x = job_id j) (set_running ts) (jobs s)"
    by (rule find_pending[OF assms(1) n]) blast
  have same: "j' = j" by (rule distinct_key_unique[OF jobs_invD(1)[OF assms(1)] j'(1) assms(2) j'(2)])
  have pos: "1 \<le> pendingJobCount (sched s)"
    using jobs_invD(4)[OF assms(1), of PendingJob] count_rows_pos[OF assms(2), of "job_counted PendingJob"] assms(3)
    by (simp add: job_counters_def)
  let ?s' = "adjustPendingJobCount (- 1)
      (s\<lparr>jobs := update_where (\<lambda>x. job_id x = job_id j) (set_running ts) (jobs s)\<rparr>)"
  have m: "markJobRunning (job_id j) ts s = (map_option (set_running ts) (getJob (job_id j) ?s'), ?s')"
    using n by (simp add: markJobRunning_def Let_def eq)
  have "jobs ?s' = update_where (\<lambda>x. job_id x = job_id j) (set_running ts) (jobs s)" by simp
  then have "getJob (job_id j) ?s' = Some (set_running ts j)"
    using j'(3) by (simp add: getJob_def find_update_key[of job_id] same set_running_def)
  then show "fst (markJobRunning (job_id j) ts s) = Some (set_running ts j)"
    by (simp add: m set_running_def)
  show "jobs (snd (markJobRunning (job_id j) ts s))
       = update_where (\<lambda>x. job_id x = job_id j) (set_running ts) (jobs s)"
    and "clock (snd (markJobRunning (job_id j) ts s)) = clock s" by (simp_all add: m)
  show "pendingJobCount (sched (snd (markJobRunning (job_id j) ts s))) = pendingJobCount (sched s) - 1"
    using pos by (simp add: m adjustPendingJobCount_def adjust_def bump_def)
qed

lemma claimNextJob_head:
  assumes "jobs_inv s" and "claimNextJob ab s = (r, s')"
  shows "(r = None \<and> s' = s \<and> (\<forall>x\<in>set (jobs s). \<not> runnable (clock s) x)) \<or>
     (\<exists>j\<in>set (jobs s). r = Some (set_running (clock s) j) \<and> runnable (clock s) j \<and>
        (\<forall>x\<in>set (jobs s). runnable (clock s) x \<longrightarrow>
            jobClaimOrder ab (clock s) j \<le> jobClaimOrder ab (clock s) x) \<and>
        jobs s' = update_where (\<lambda>x. job_id x = job_id j) (set_running (clock s)) (jobs s) \<and>
        pendingJobCount (sched s') = pendingJobCount (sched s) - 1)"
proof (cases "first_min (jobClaimOrder ab (clock s)) (filter (runnable (clock s)) (jobs s))")
  case None
  then show ?thesis using assms(2) by (auto simp: claimNextJob_def claim_head_def filter_empty_conv)
next
  case (Some j)
  note m = first_min_Some[OF Some]
  then have j: "j \<in> set (jobs s)" "runnable (clock s) j" "is_pending j" by (auto simp: runnable_def)
  have "markJobRunning (job_id j) (clock s) s = (r, s')"
    using assms(2) Some by (simp add: claimNextJob_def claim_head_def)
  then show ?thesis
    using markJobRunning_spec[OF assms(1) j(1,3), of "clock s"] m j(1,2)
    by (intro disjI2 bexI[OF _ j(1)]) auto
qed

text \<open>
  C2: a claim takes a runnable pending job that is least in the claim order (greatest effective
  priority, then earliest \<open>run_after\<close>, then earliest \<open>created_at\<close>) among all runnable jobs, marks
  exactly that row running and takes one off the pending counter; it returns nothing, and changes
  nothing, exactly when no job is runnable.
\<close>

theorem claimNextJob_spec:
  assumes "job_reach opt t s" and "claimNextJob ab s = (r, s')"
  shows "case r of
      None \<Rightarrow> s' = s \<and> (\<forall>x\<in>set (jobs s). \<not> runnable (clock s) x)
    | Some j' \<Rightarrow> \<exists>j\<in>set (jobs s). j' = set_running (clock s) j \<and> runnable (clock s) j \<and>
        (\<forall>x\<in>set (jobs s). runnable (clock s) x \<longrightarrow>
            jobClaimOrder ab (clock s) j \<le> jobClaimOrder ab (clock s) x) \<and>
        jobs s' = update_where (\<lambda>x. job_id x = job_id j) (set_running (clock s)) (jobs s) \<and>
        pendingJobCount (sched s') = pendingJobCount (sched s) - 1"
  using claimNextJob_head[OF job_reach_inv[OF assms(1)] assms(2)] by (auto split: option.splits)

definition two_pending :: store where
  "two_pending = fold exec_job_op
     [Op_enqueue Expand_downstream [(''address'', JStr ''a'')] 5 None False,
      Op_enqueue Poll_hacker_address [] 9 None False] (init_store default_options 1000)"

lemma two_pending_reach: "job_reach default_options 1000 two_pending"
  unfolding two_pending_def by (rule job_reach_run[OF reach_init]) auto

theorem claimNextJob_spec_witness:
  "map_option job_id (fst (claimNextJob None two_pending)) = Some 2 \<and>
   pendingJobCount (sched (snd (claimNextJob None two_pending))) = 1"
proof -
  obtain r s' where c: "claimNextJob None two_pending = (r, s')" by (cases "claimNextJob None two_pending")
  have "map_option job_id (fst (claimNextJob None two_pending)) = Some 2"
    and p: "pendingJobCount (sched two_pending) = 2" by code_simp+
  moreover from this c obtain j where "r = Some j" by (cases r) auto
  ultimately show ?thesis
    using claimNextJob_spec[OF two_pending_reach c] c by auto
qed

text \<open>
  No job is handed out twice: the next claim after a successful claim never returns the same
  job, whatever the age boost of either.
\<close>

lemma claim_exclusive:
  assumes "job_reach opt t s" and "claimNextJob ab s = (Some j, s1)"
    and "claimNextJob ab' s1 = (Some j', s2)"
  shows "job_id j' \<noteq> job_id j"
proof -
  have inv: "jobs_inv s" by (rule job_reach_inv[OF assms(1)])
  have inv1: "jobs_inv s1" using claimNextJob_inv[OF inv, of ab] assms(2) by simp
  obtain x where x: "j = set_running (clock s) x"
      "jobs s1 = update_where (\<lambda>y. job_id y = job_id x) (set_running (clock s)) (jobs s)"
    using claimNextJob_head[OF inv assms(2)] by auto
  obtain y where y: "y \<in> set (jobs s1)" "j' = set_running (clock s1) y" "runnable (clock s1) y"
    using claimNextJob_head[OF inv1 assms(3)] by auto
  show ?thesis
    using x y by (auto simp: update_where_def runnable_def is_pending_def set_running_def split: if_splits)
qed

lemma claim_exclusive_witness:
  "\<exists>j s1 j' s2. claimNextJob None two_pending = (Some j, s1) \<and>
     claimNextJob None s1 = (Some j', s2) \<and> job_id j' \<noteq> job_id j"
proof -
  have "fst (claimNextJob None two_pending) \<noteq> None \<and>
        fst (claimNextJob None (snd (claimNextJob None two_pending))) \<noteq> None" by code_simp
  then obtain j s1 j' s2 where c: "claimNextJob None two_pending = (Some j, s1)"
      "claimNextJob None s1 = (Some j', s2)"
    by (metis not_None_eq prod.collapse snd_conv)
  then show ?thesis using claim_exclusive[OF two_pending_reach c] by blast
qed

end
