(* ===== verification/QueueRules.thy ===== *)
theory QueueRules
  imports JobReach
begin

text \<open>
  The rules of the queue as properties of \<open>enqueueJob\<close>, \<open>enqueueJobIfAbsent\<close>, \<open>resetRunningJobs\<close>,
  the reconciliation and \<open>failJob\<close>: the caps hold for the rows themselves, the scheduling latch has
  hysteresis, duplicates are not inserted, the reclaim empties the running set.
\<close>

section \<open>What an insertion does\<close>

lemma afterJobInserted_frame [simp]:
  "jobs (afterJobInserted ty s) = jobs s"
  "opts (afterJobInserted ty s) = opts s"
  "clock (afterJobInserted ty s) = clock s"
  by (simp_all add: afterJobInserted_def)

lemma adjustPending_paused [simp]:
  "queueSchedulingPaused (sched (adjustPendingJobCount d s)) = queueSchedulingPaused (sched s)"
  by (simp add: adjustPendingJobCount_def)

lemma adjustActive_paused [simp]:
  "queueSchedulingPaused (sched (adjustActiveJobCount ty d s)) = queueSchedulingPaused (sched s)"
  by (auto simp: adjustActiveJobCount_def split: option.splits)

lemma insert_job_spec:
  assumes "insert_job ty p prio ra s = (r, s')"
  shows "r = Some (job_seq s + 1)"
    and "jobs s' = jobs s @ [new_job (job_seq s + 1) ty p prio
            (case ra of Some t \<Rightarrow> t | None \<Rightarrow> clock s) (clock s)]"
    and "opts s' = opts s"
    and "queueSchedulingPaused (sched s') = queueSchedulingPaused (sched s)"
  using assms by (auto simp: insert_job_def Let_def afterJobInserted_def)

lemma shouldAllow_frame:
  assumes "shouldAllowEnqueue ty p b s = (a, s')"
  shows "jobs s' = jobs s" and "opts s' = opts s" and "job_seq s' = job_seq s" and "clock s' = clock s"
  using shouldAllowEnqueue_state[of ty p b s] assms by (auto simp: setQueueSchedulingPaused_def)

lemma enqueueJob_cases:
  assumes "enqueueJob ty p prio ra b s = (r, s')"
  shows "(r = None \<and> fst (shouldAllowEnqueue ty p b s) = False \<and> jobs s' = jobs s) \<or>
     (r = Some (job_seq s + 1) \<and> fst (shouldAllowEnqueue ty p b s) \<and>
      jobs s' = jobs s @ [new_job (job_seq s + 1) ty p prio
            (case ra of Some t \<Rightarrow> t | None \<Rightarrow> clock s) (clock s)])"
proof (cases "shouldAllowEnqueue ty p b s")
  case (Pair a s1)
  then show ?thesis
    using assms insert_job_spec(1,2)[of ty p prio ra s1 r s'] shouldAllow_frame[OF Pair]
    by (auto simp: enqueueJob_def split: bool.splits option.splits)
qed

section \<open>Deduplication\<close>

text \<open>
  C3: \<open>enqueueJobIfAbsent\<close> inserts exactly when the caps allow it and no active job of the dedupe
  types exists for the address; otherwise the table is unchanged. At most one active duplicate can
  ever exist through it: the number of matching active jobs never grows beyond one.
\<close>

theorem enqueueJobIfAbsent_dedupe:
  assumes "a \<noteq> []" and "enqueueJobIfAbsent ty p prio ra (Some types) (Some a) b s = (r, s')"
  shows "(r \<noteq> None \<longleftrightarrow> fst (shouldAllowEnqueue ty p b s) \<and>
            (\<forall>j\<in>set (jobs s). \<not> dedupe_match types (Some a) j)) \<and>
         (r = None \<longrightarrow> jobs s' = jobs s) \<and>
         (r \<noteq> None \<longrightarrow> (\<exists>j. jobs s' = jobs s @ [j] \<and> Some (job_id j) = r \<and> job_kind j = ty \<and>
            job_status j = Pending \<and> payloadJson j = Some p)) \<and>
         count_rows (dedupe_match types (Some a)) (jobs s')
           \<le> max 1 (count_rows (dedupe_match types (Some a)) (jobs s))"
proof (cases "shouldAllowEnqueue ty p b s")
  case (Pair al s1)
  note fr = shouldAllow_frame[OF Pair]
  show ?thesis
  proof (cases "al \<and> (\<forall>j\<in>set (jobs s). \<not> dedupe_match types (Some a) j)")
    case True
    then have ins: "insert_job ty p prio ra s1 = (r, s')"
      using assms Pair fr by (auto simp: enqueueJobIfAbsent_def)
    have "count_rows (dedupe_match types (Some a)) (jobs s) = 0"
      using True by (simp add: count_rows_zero)
    then show ?thesis
      using True Pair insert_job_spec(1,2)[OF ins] fr by (auto simp: new_job_def b2i_def)
  next
    case False
    then have "r = None" and "s' = s1"
      using assms Pair fr by (auto simp: enqueueJobIfAbsent_def split: bool.splits)
    then show ?thesis using False Pair fr by auto
  qed
qed

theorem enqueueJobIfAbsent_dedupe_witness:
  "fst (enqueueJobIfAbsent Expand_downstream [(''address'', JStr ''a'')] 1 None
      (Some [Expand_downstream]) (Some ''a'') False two_pending) = None"
proof -
  obtain r s' where e: "enqueueJobIfAbsent Expand_downstream [(''address'', JStr ''a'')] 1 None
      (Some [Expand_downstream]) (Some ''a'') False two_pending = (r, s')" by fastforce
  have "\<exists>j\<in>set (jobs two_pending). dedupe_match [Expand_downstream] (Some ''a'') j" by code_simp
  then show ?thesis
    using enqueueJobIfAbsent_dedupe[OF _ e] e by auto
qed

section \<open>Caps\<close>

lemma countActiveJobsForAddress_cap:
  assumes "countActiveJobsForAddress Expand_downstream a s < maxPendingExpandPerAddress (opts s)"
  shows "count_rows (\<lambda>j. job_kind j = Expand_downstream \<and> is_active j \<and> job_address j = Some a) (jobs s)
       < maxPendingExpandPerAddress (opts s)"
  using assms by (auto simp: countActiveJobsForAddress_def Let_def split: if_splits)

lemma shouldAllow_caps:
  assumes "fst (shouldAllowEnqueue ty p False s)" and "\<not> isIngestContinuation (Some p)"
  shows "\<not> queueSchedulingPaused (sched s)"
    and "pendingJobCount (sched s) < maxQueueDepth (opts s)"
    and "ty = Expand_downstream \<Longrightarrow> activeExpandCount (sched s) < maxPendingExpandGlobal (opts s)"
    and "ty = Expand_downstream \<Longrightarrow> expandPayloadAddress p = Some a \<Longrightarrow> a \<noteq> [] \<Longrightarrow>
      countActiveJobsForAddress Expand_downstream a s < maxPendingExpandPerAddress (opts s)"
    and "ty = Backfill_hacker_address \<Longrightarrow> activeBackfillCount (sched s) < maxPendingBackfillGlobal (opts s)"
    and "ty = Audit_hacker_backfill \<Longrightarrow> activeAuditCount (sched s) < maxPendingAuditGlobal (opts s)"
  using assms by (auto simp: shouldAllowEnqueue_def Let_def split: if_splits option.splits)

text \<open>
  C4: an enqueue that goes through without bypass, with a payload that is not an ingest
  continuation, leaves the queue within every cap, counted on the rows: pending jobs within
  \<open>maxQueueDepth\<close>, active expand, backfill and audit jobs within their global caps, and the active
  expands of one address within the per-address cap.
\<close>

theorem enqueue_within_caps:
  assumes "job_reach opt t s" and "enqueueJob ty p prio ra False s = (Some i, s')"
    and "\<not> isIngestContinuation (Some p)"
  shows "count_rows is_pending (jobs s') \<le> maxQueueDepth (opts s) \<and>
    (ty = Expand_downstream \<longrightarrow>
       count_rows (job_counted ActiveExpand) (jobs s') \<le> maxPendingExpandGlobal (opts s) \<and>
       (\<forall>a. expandPayloadAddress p = Some a \<and> a \<noteq> [] \<longrightarrow>
          count_rows (\<lambda>j. job_kind j = Expand_downstream \<and> is_active j \<and> job_address j = Some a) (jobs s')
            \<le> maxPendingExpandPerAddress (opts s))) \<and>
    (ty = Backfill_hacker_address \<longrightarrow>
       count_rows (job_counted ActiveBackfill) (jobs s') \<le> maxPendingBackfillGlobal (opts s)) \<and>
    (ty = Audit_hacker_backfill \<longrightarrow>
       count_rows (job_counted ActiveAudit) (jobs s') \<le> maxPendingAuditGlobal (opts s))"
proof -
  have al: "fst (shouldAllowEnqueue ty p False s)"
    and js: "jobs s' = jobs s @ [new_job (job_seq s + 1) ty p prio
            (case ra of Some t \<Rightarrow> t | None \<Rightarrow> clock s) (clock s)]" (is "_ = _ @ [?j]")
    using enqueueJob_cases[OF assms(2)] by auto
  note caps = shouldAllow_caps[OF al assms(3)]
  note ex = jobs_invD(4)[OF job_reach_inv[OF assms(1)]]
  have one: "b2i b \<le> 1" for b by (simp add: b2i_def)
  have c: "count_rows (job_counted k) (jobs s') \<le> counter_val k (sched s) + 1" if "k \<in> set job_counters" for k
    using ex[OF that] one[of "job_counted k ?j"] by (simp add: js)
  show ?thesis
  proof (intro conjI impI allI)
    show "count_rows is_pending (jobs s') \<le> maxQueueDepth (opts s)"
      using c[of PendingJob] caps(2) by (simp add: job_counters_def job_counted_fun)
    show "count_rows (job_counted ActiveExpand) (jobs s') \<le> maxPendingExpandGlobal (opts s)"
      if "ty = Expand_downstream"
      using c[of ActiveExpand] caps(3)[OF that] by (simp add: job_counters_def)
    show "count_rows (job_counted ActiveBackfill) (jobs s') \<le> maxPendingBackfillGlobal (opts s)"
      if "ty = Backfill_hacker_address"
      using c[of ActiveBackfill] caps(5)[OF that] by (simp add: job_counters_def)
    show "count_rows (job_counted ActiveAudit) (jobs s') \<le> maxPendingAuditGlobal (opts s)"
      if "ty = Audit_hacker_backfill"
      using c[of ActiveAudit] caps(6)[OF that] by (simp add: job_counters_def)
    fix a assume ty: "ty = Expand_downstream" and a: "expandPayloadAddress p = Some a \<and> a \<noteq> []"
    show "count_rows (\<lambda>j. job_kind j = Expand_downstream \<and> is_active j \<and> job_address j = Some a) (jobs s')
            \<le> maxPendingExpandPerAddress (opts s)"
      using countActiveJobsForAddress_cap[OF caps(4)[OF ty]] a
        one[of "job_kind ?j = Expand_downstream \<and> is_active ?j \<and> job_address ?j = Some a"]
      by (auto simp: js)
  qed
qed

theorem enqueue_within_caps_witness:
  "count_rows is_pending (jobs (snd (enqueueJob Expand_downstream [(''address'', JStr ''a'')] 5 None False
     (init_store default_options 1000)))) \<le> 360"
proof -
  obtain s' where e: "enqueueJob Expand_downstream [(''address'', JStr ''a'')] 5 None False
      (init_store default_options 1000) = (Some 1, s')"
  proof -
    have "fst (enqueueJob Expand_downstream [(''address'', JStr ''a'')] 5 None False
      (init_store default_options 1000)) = Some 1" by code_simp
    then show thesis using that by (metis prod.collapse)
  qed
  have "\<not> isIngestContinuation (Some [(''address'', JStr ''a'')])" by code_simp
  then show ?thesis
    using enqueue_within_caps[OF reach_init e] e by (auto simp: init_store_def default_options_def)
qed

section \<open>The scheduling latch\<close>

lemma paused_simps [simp]:
  "queueSchedulingPaused (sched (setQueueSchedulingPaused b s)) = b"
  "opts (setQueueSchedulingPaused b s) = opts s"
  "queueSchedulingPaused (sched (markJobSnapshotDirty s)) = queueSchedulingPaused (sched s)"
  "queueSchedulingPaused (sched (maybeUpdateLastCompletedJobCache ty at st s)) = queueSchedulingPaused (sched s)"
  by (auto simp: setQueueSchedulingPaused_def markJobSnapshotDirty_def set_last_completed_def
      maybeUpdateLastCompletedJobCache_def split: option.splits)

lemma update_job_paused [simp]: "sched (update_job i f s) = sched s"
  by (simp add: update_job_def)

lemma markJobRunning_paused [simp]:
  "queueSchedulingPaused (sched (snd (markJobRunning i ts s))) = queueSchedulingPaused (sched s)"
  by (simp add: markJobRunning_def Let_def)

lemma claim_head_paused [simp]:
  "queueSchedulingPaused (sched (snd (claim_head h s))) = queueSchedulingPaused (sched s)"
  by (auto simp: claim_head_def split: option.splits)

lemma requeue_paused [simp]:
  "queueSchedulingPaused (sched (requeue i n e ra s)) = queueSchedulingPaused (sched s)"
  by (auto simp: requeue_def Let_def split: option.splits)

lemma completeJob_paused [simp]:
  "queueSchedulingPaused (sched (completeJob i s)) = queueSchedulingPaused (sched s)"
  by (auto simp: completeJob_def Let_def split: option.splits)

lemma reset_fold_paused:
  "queueSchedulingPaused (sched (fst (fold (reset_one da ds) js (s, r, d)))) = queueSchedulingPaused (sched s)"
proof (induction js arbitrary: s r d)
  case (Cons j js)
  have "queueSchedulingPaused (sched (fst (reset_one da ds j (s, r, d)))) = queueSchedulingPaused (sched s)"
    by (simp add: reset_one_def Let_def deferJob_def)
  with Cons show ?case by (cases "reset_one da ds j (s, r, d)") simp
qed simp

lemma fold_adjustActive_paused [simp]:
  "queueSchedulingPaused (sched (fold (\<lambda>(ty, d). adjustActiveJobCount ty d) m s)) = queueSchedulingPaused (sched s)"
  by (induction m arbitrary: s) (simp_all add: split_beta)

lemma claims_paused [simp]:
  "queueSchedulingPaused (sched (snd (claimNextJob ab s))) = queueSchedulingPaused (sched s)"
  "queueSchedulingPaused (sched (snd (claimOldestMaintCosmeticJob w ex el s))) = queueSchedulingPaused (sched s)"
  "queueSchedulingPaused (sched (snd (claimIngestJobById i s))) = queueSchedulingPaused (sched s)"
  "queueSchedulingPaused (sched (snd (claimNextIngestJob pc s))) = queueSchedulingPaused (sched s)"
  by (simp_all add: claimNextJob_def claimOldestMaintCosmeticJob_def claimIngestJobById_def
      claimNextIngestJob_def Let_def split: list.splits)

lemma deletes_paused [simp]:
  "queueSchedulingPaused (sched (snd (deleteActiveJobsForAddress a s))) = queueSchedulingPaused (sched s)"
  "queueSchedulingPaused (sched (snd (deleteActiveJobs s))) = queueSchedulingPaused (sched s)"
  "queueSchedulingPaused (sched (reconcileJobCounts s)) = queueSchedulingPaused (sched s)"
  "queueSchedulingPaused (sched (snd (bumpPendingExpandDownstream a pr st s))) = queueSchedulingPaused (sched s)"
  by (simp_all add: deleteActiveJobsForAddress_def deleteActiveJobs_def reconcileJobCounts_def
      reconcileActiveJobCounts_def reconcilePendingJobCount_def bumpPendingExpandDownstream_def Let_def)

lemma fails_paused [simp]:
  "queueSchedulingPaused (sched (failJob i e ra' s)) = queueSchedulingPaused (sched s)"
  "queueSchedulingPaused (sched (deferJob i e ra s)) = queueSchedulingPaused (sched s)"
  "queueSchedulingPaused (sched (clearJobReclaimState i s)) = queueSchedulingPaused (sched s)"
  "queueSchedulingPaused (sched (fst (resetRunningJobs st da ds s))) = queueSchedulingPaused (sched s)"
  by (simp_all add: failJob_def deferJob_def clearJobReclaimState_def resetRunningJobs_def reset_fold_paused)

lemma enqueue_paused:
  assumes "queueSchedulingPaused (sched s)"
  shows "queueSchedulingPaused (sched (snd (enqueueJob ty p prio ra b s)))"
    and "queueSchedulingPaused (sched (snd (enqueueJobIfAbsent ty p prio ra ds a b s)))"
proof -
  obtain al s1 where al: "shouldAllowEnqueue ty p b s = (al, s1)" by fastforce
  have p1: "queueSchedulingPaused (sched s1)"
    using shouldAllowEnqueue_state[of ty p b s] al assms by auto
  have ins: "queueSchedulingPaused (sched (snd (insert_job ty p prio ra s1)))"
    using insert_job_spec(4)[of ty p prio ra s1] p1 by (metis prod.collapse)
  show "queueSchedulingPaused (sched (snd (enqueueJob ty p prio ra b s)))"
    using al p1 ins by (auto simp: enqueueJob_def split: bool.splits)
  show "queueSchedulingPaused (sched (snd (enqueueJobIfAbsent ty p prio ra ds a b s)))"
    using al p1 ins by (auto simp: enqueueJobIfAbsent_def Let_def split: bool.splits)
qed

lemma enqueue_engages:
  assumes "\<not> queueSchedulingPaused (sched s)" and "b \<or> \<not> maxQueueDepth (opts s) \<le> pendingJobCount (sched s)"
  shows "\<not> queueSchedulingPaused (sched (snd (enqueueJob ty p prio ra b s)))"
    and "\<not> queueSchedulingPaused (sched (snd (enqueueJobIfAbsent ty p prio ra ds a b s)))"
proof -
  obtain al s1 where al: "shouldAllowEnqueue ty p b s = (al, s1)" by fastforce
  then have s1: "s1 = s" using assms by (auto simp: shouldAllowEnqueue_def Let_def split: if_splits)
  have ins: "\<not> queueSchedulingPaused (sched (snd (insert_job ty p prio ra s)))"
    using insert_job_spec(4)[of ty p prio ra s] assms(1) by (metis prod.collapse)
  show "\<not> queueSchedulingPaused (sched (snd (enqueueJob ty p prio ra b s)))"
    using al assms(1) ins by (auto simp: s1 enqueueJob_def split: bool.splits)
  show "\<not> queueSchedulingPaused (sched (snd (enqueueJobIfAbsent ty p prio ra ds a b s)))"
    using al assms(1) ins by (auto simp: s1 enqueueJobIfAbsent_def Let_def split: bool.splits)
qed

lemma enqueue_while_paused:
  assumes "queueSchedulingPaused (sched s)" and "\<not> (ty = Backfill_hacker_address \<and> isIngestContinuation (Some p))"
  shows "enqueueJob ty p prio ra False s = (None, s)" and "enqueueJobIfAbsent ty p prio ra ds a False s = (None, s)"
  using assms by (auto simp: enqueueJob_def enqueueJobIfAbsent_def shouldAllowEnqueue_def Let_def)

definition guarded_enqueue :: "job_op \<Rightarrow> bool" where
  "guarded_enqueue op \<longleftrightarrow> (case op of Op_enqueue ty p pr ra b \<Rightarrow> \<not> b | Op_enqueue_if_absent ty p pr ra ds a b \<Rightarrow> \<not> b | _ \<Rightarrow> False)"

text \<open>
  C5: the scheduling pause is a latch with two thresholds, measured on the job rows. An operation of the
  queue sets it only as an enqueue without bypass that finds at least \<open>maxQueueDepth\<close> pending jobs, and
  clears it only as \<open>maybeClearQueueSchedulingPause\<close>, exactly when at most \<open>queueSchedulingResumeDepth\<close>
  jobs are pending; the setter \<open>setQueueSchedulingPaused\<close> itself is the exception on both sides. While it
  is set, both forms of enqueueing, unless they bypass the caps, refuse everything but the continuation
  of a backfill, and change nothing.
\<close>

theorem latch_hysteresis:
  assumes "job_reach opt t s"
  shows "(queueSchedulingPaused (sched s) \<longrightarrow>
           (\<not> queueSchedulingPaused (sched (exec_job_op op s)) \<longleftrightarrow>
             op = Op_set_paused False \<or>
             (op = Op_maybe_clear_pause \<and> count_rows is_pending (jobs s) \<le> queueSchedulingResumeDepth (opts s)))) \<and>
    (\<not> queueSchedulingPaused (sched s) \<and> queueSchedulingPaused (sched (exec_job_op op s)) \<longrightarrow>
       op = Op_set_paused True \<or> (guarded_enqueue op \<and> maxQueueDepth (opts s) \<le> count_rows is_pending (jobs s))) \<and>
    (queueSchedulingPaused (sched s) \<and> \<not> (ty = Backfill_hacker_address \<and> isIngestContinuation (Some p)) \<longrightarrow>
       enqueueJob ty p prio ra False s = (None, s) \<and> enqueueJobIfAbsent ty p prio ra ds a False s = (None, s))"
proof -
  have c: "pendingJobCount (sched s) = count_rows is_pending (jobs s)"
    using jobs_invD(4)[OF job_reach_inv[OF assms], of PendingJob] by (simp add: job_counters_def job_counted_fun)
  have release: "\<not> queueSchedulingPaused (sched (exec_job_op op s)) \<longleftrightarrow>
      op = Op_set_paused False \<or> (op = Op_maybe_clear_pause \<and> pendingJobCount (sched s) \<le> queueSchedulingResumeDepth (opts s))"
    if "queueSchedulingPaused (sched s)"
    using that enqueue_paused[OF that] by (cases op) (simp_all add: maybeClearQueueSchedulingPause_def)
  have engage: "op = Op_set_paused True \<or> (guarded_enqueue op \<and> maxQueueDepth (opts s) \<le> pendingJobCount (sched s))"
    if "\<not> queueSchedulingPaused (sched s)" "queueSchedulingPaused (sched (exec_job_op op s))"
  proof (cases op)
    case (Op_enqueue ty p pr ra b)
    then show ?thesis using that enqueue_engages(1)[OF that(1), of b ty p pr ra] by (cases b) (auto simp: guarded_enqueue_def)
  next
    case (Op_enqueue_if_absent ty p pr ra ds a b)
    then show ?thesis using that enqueue_engages(2)[OF that(1), of b ty p pr ra ds a] by (cases b) (auto simp: guarded_enqueue_def)
  qed (use that in \<open>auto simp: maybeClearQueueSchedulingPause_def split: if_splits\<close>)
  show ?thesis using release engage enqueue_while_paused c by auto
qed

theorem latch_hysteresis_witness:
  "enqueueJob Poll_hacker_address [] 1 None False (exec_job_op (Op_set_paused True) demo_store)
     = (None, exec_job_op (Op_set_paused True) demo_store) \<and>
   \<not> queueSchedulingPaused (sched (exec_job_op Op_maybe_clear_pause (exec_job_op (Op_set_paused True) demo_store)))"
proof -
  let ?s = "exec_job_op (Op_set_paused True) demo_store"
  have r: "job_reach default_options 1000 ?s" by (rule reach_step[OF demo_reach]) simp
  have "count_rows is_pending (jobs ?s) \<le> queueSchedulingResumeDepth (opts ?s)" by code_simp
  then show ?thesis
    using latch_hysteresis[OF r, of Op_maybe_clear_pause Poll_hacker_address "[]" 1 None] by simp
qed

section \<open>Reclaim, reconciliation, and the failure of a done job\<close>

text \<open>
  \<open>resetRunningJobs\<close> returns the number of stale running jobs, split into reclaimed and deferred
  ones; it makes every stale running job pending, keeps every other row as it was, and the counters
  stay exact. With \<open>staleMs = 0\<close> no running job is left.
\<close>

lemma resetRunningJobs_reclaims:
  assumes "job_reach opt t s" and "resetRunningJobs staleMs da ds s = (s', r, d)"
  shows "r + d = count_rows (stale_running staleMs (clock s)) (jobs s) \<and>
    (\<forall>x\<in>set (jobs s). \<not> stale_running staleMs (clock s) x \<longrightarrow> x \<in> set (jobs s')) \<and>
    (\<forall>x\<in>set (jobs s'). is_running x \<longrightarrow> x \<in> set (jobs s) \<and> \<not> stale_running staleMs (clock s) x) \<and>
    (staleMs \<le> 0 \<longrightarrow> (\<forall>x\<in>set (jobs s'). \<not> is_running x)) \<and>
    pendingJobCount (sched s') = count_rows is_pending (jobs s')"
proof -
  note sp = resetRunningJobs_spec[OF job_reach_inv[OF assms(1)] assms(2)]
  have "pendingJobCount (sched s') = count_rows is_pending (jobs s')"
    using jobs_invD(4)[OF sp(1), of PendingJob] by (simp add: job_counters_def job_counted_fun)
  then show ?thesis using sp(2-4) by (auto simp: stale_running_def)
qed

lemma resetRunningJobs_reclaims_witness:
  "fst (snd (resetRunningJobs 0 None None demo_store)) = 1"
proof -
  obtain s' r d where e: "resetRunningJobs 0 None None demo_store = (s', r, d)"
    by (cases "resetRunningJobs 0 None None demo_store") auto
  have "count_rows (stale_running 0 (clock demo_store)) (jobs demo_store) = 1"
    and "snd (snd (resetRunningJobs 0 None None demo_store)) = 0" by code_simp+
  then show ?thesis using resetRunningJobs_reclaims[OF demo_reach e] e by simp
qed

text \<open>
  Reconciliation repairs the counters from any state, however wrong they were: after
  \<open>reconcilePendingJobCount\<close> and \<open>reconcileActiveJobCounts\<close> each equals the count of its rows.
\<close>

lemma reconcile_restores:
  "k \<in> set job_counters \<Longrightarrow>
     counter_val k (sched (reconcileActiveJobCounts (snd (reconcilePendingJobCount s))))
   = count_rows (job_counted k) (jobs s)"
  by (auto simp: reconcileActiveJobCounts_def reconcilePendingJobCount_def Let_def job_counters_def
      count_active_of_def job_counted_fun)

definition drifted :: store where
  "drifted = updateSchedulerState (\<lambda>r. r\<lparr>pendingJobCount := 77\<rparr>) demo_store"

theorem reconcile_restores_witness:
  "pendingJobCount (sched (reconcileActiveJobCounts (snd (reconcilePendingJobCount drifted)))) = 1"
proof -
  have "count_rows (job_counted PendingJob) (jobs drifted) = 1" by code_simp
  then show ?thesis using reconcile_restores[of PendingJob drifted] by (simp add: job_counters_def)
qed

text \<open>
  Failing a job that is already done makes its row pending again without counting it: the
  pending counter is then one below the number of pending rows, so the counters are no longer exact.
\<close>

lemma failJob_done_drifts:
  assumes "job_reach opt t s" and "getJob i s = Some j" and "job_status j = Done"
  shows "pendingJobCount (sched (failJob i e ra s)) = count_rows is_pending (jobs (failJob i e ra s)) - 1"
proof -
  note inv = job_reach_inv[OF assms(1)]
  note j = getJob_Some[OF assms(2)]
  have f: "failJob i e ra s = update_job i (set_failed (attempts j + 1) e
      (case ra of Some t \<Rightarrow> t | None \<Rightarrow> clock s)) s" (is "_ = update_job i ?f s")
    using assms(2,3) by (simp add: failJob_def requeue_def Let_def is_running_def)
  have "count_rows is_pending (update_where (\<lambda>x. job_id x = job_id j) ?f (jobs s))
      = count_rows is_pending (jobs s) + 1"
    using assms(3) j by (subst count_rows_update_key[OF jobs_invD(1)[OF inv]])
      (auto simp: is_pending_def set_failed_def)
  then show ?thesis
    using jobs_invD(4)[OF inv, of PendingJob] j
    by (simp add: f update_job_def job_counters_def job_counted_fun)
qed

lemma failJob_done_drifts_witness:
  "pendingJobCount (sched (failJob 2 ''late error'' None demo_store)) = 1 \<and>
   count_rows is_pending (jobs (failJob 2 ''late error'' None demo_store)) = 2"
proof -
  have "pendingJobCount (sched (failJob 2 ''late error'' None demo_store)) = 1"
    and "map_option job_status (getJob 2 demo_store) = Some Done" by code_simp+
  then show ?thesis using failJob_done_drifts[OF demo_reach, of 2] by auto
qed

end
