(* ===== verification/TxPage.thy ===== *)
theory TxPage
  imports Prelude
begin

text \<open>
  Transactions as the chain providers return them (\<open>packages/core/src/chain/types.ts\<close>) and the
  classification of a page of them for one address
  (\<open>packages/core/src/indexer/txPage.ts\<close>, \<open>pendingPayload.ts\<close>, \<open>pollGap.ts\<close>): whether a
  transaction spends from the address, what is kept of it in a job's payload, which entries are
  worth a further call to the provider.
\<close>

section \<open>Chain data\<close>

record prevout =
  prev_address :: "string option"
  prev_value :: "int option"

record chain_vin =
  vin_txid :: "txid option"
  vin_vout :: "int option"
  prevout_of :: "prevout option"
  is_coinbase :: "bool option"

record chain_vout =
  out_address :: "string option"
  out_value :: "int option"
  out_type :: "string option"
  out_asm :: "string option"
  out_script :: "string option"

record tx_status =
  block_height :: "int option"
  block_time :: "int option"

record chain_tx =
  ctx_txid :: txid
  ctx_status :: "tx_status option"
  ctx_fee :: "int option"
  ctx_vin :: "chain_vin list option"
  ctx_vout :: "chain_vout list option"

text \<open>\<open>tx.vin ?? []\<close>, \<open>tx.vout ?? []\<close>, and \<open>tx.vin?.length\<close> as a condition.\<close>

definition vins :: "chain_tx \<Rightarrow> chain_vin list" where
  "vins tx = (case ctx_vin tx of Some xs \<Rightarrow> xs | None \<Rightarrow> [])"

definition vouts :: "chain_tx \<Rightarrow> chain_vout list" where
  "vouts tx = (case ctx_vout tx of Some xs \<Rightarrow> xs | None \<Rightarrow> [])"

definition vin_address :: "chain_vin \<Rightarrow> string option" where
  "vin_address i = (case prevout_of i of Some p \<Rightarrow> prev_address p | None \<Rightarrow> None)"

section \<open>Classification of a page entry\<close>

definition txInvolvesSpendFromPage :: "chain_tx \<Rightarrow> address \<Rightarrow> bool" where
  "txInvolvesSpendFromPage tx a =
     (if vins tx = [] then False else (\<exists>i\<in>set (vins tx). vin_address i = Some a))"

definition txVoutCount :: "chain_tx \<Rightarrow> int" where
  "txVoutCount tx = int (length (vouts tx))"

text \<open>A truthy address: present and not the empty text.\<close>

definition truthy :: "string option \<Rightarrow> string option" where
  "truthy a = (case a of Some (c # cs) \<Rightarrow> Some (c # cs) | _ \<Rightarrow> None)"

definition uniqueOutputAddresses :: "chain_tx \<Rightarrow> int" where
  "uniqueOutputAddresses tx =
     (if vouts tx = [] then 0
      else int (length (uniq (List.map_filter (\<lambda>v. truthy (out_address v)) (vouts tx)))))"

record page_snapshot =
  snap_status :: "tx_status option"
  snap_fee :: "int option"
  snap_vin :: "prevout option list"
  snap_vout :: "chain_vout list"

record classified_tx =
  c_txid :: txid
  isSpend :: "bool option"
  voutCount :: "int option"
  outputAddressCount :: "int option"
  pageSnapshot :: "page_snapshot option"

record pending_tx = classified_tx +
  pageEntry :: "chain_tx option"

definition classifyPageTx :: "chain_tx \<Rightarrow> address \<Rightarrow> classified_tx" where
  "classifyPageTx tx a =
     \<lparr>c_txid = ctx_txid tx,
      isSpend = (if vins tx \<noteq> [] then Some (txInvolvesSpendFromPage tx a) else None),
      voutCount = Some (txVoutCount tx),
      outputAddressCount = Some (uniqueOutputAddresses tx),
      pageSnapshot = None\<rparr>"

definition to_pending :: "classified_tx \<Rightarrow> chain_tx option \<Rightarrow> pending_tx" where
  "to_pending c e = \<lparr>c_txid = c_txid c, isSpend = isSpend c, voutCount = voutCount c,
     outputAddressCount = outputAddressCount c, pageSnapshot = pageSnapshot c, pageEntry = e\<rparr>"

definition classifyPageTxs :: "chain_tx list \<Rightarrow> address \<Rightarrow> pending_tx list" where
  "classifyPageTxs txs a = map (\<lambda>tx. to_pending (classifyPageTx tx a) (Some tx)) txs"

definition hasPageVinVout :: "chain_tx \<Rightarrow> bool" where
  "hasPageVinVout tx = (vins tx \<noteq> [] \<and> vouts tx \<noteq> [])"

section \<open>Snapshots\<close>

definition compactPageSnapshot :: "chain_tx \<Rightarrow> page_snapshot" where
  "compactPageSnapshot e =
     \<lparr>snap_status = ctx_status e, snap_fee = ctx_fee e,
      snap_vin = map prevout_of (vins e), snap_vout = vouts e\<rparr>"

definition pageSnapshotToSummary :: "txid \<Rightarrow> page_snapshot \<Rightarrow> chain_tx" where
  "pageSnapshotToSummary t sn =
     \<lparr>ctx_txid = t, ctx_status = snap_status sn, ctx_fee = snap_fee sn,
      ctx_vin = Some (map (\<lambda>p. \<lparr>vin_txid = None, vin_vout = None, prevout_of = p, is_coinbase = None\<rparr>)
                        (snap_vin sn)),
      ctx_vout = Some (snap_vout sn)\<rparr>"

definition vout_count_of :: "int option \<Rightarrow> chain_tx option \<Rightarrow> int" where
  "vout_count_of vc e =
     (case vc of Some n \<Rightarrow> n | None \<Rightarrow> (case e of Some tx \<Rightarrow> txVoutCount tx | None \<Rightarrow> 0))"

text \<open>\<open>maxVoutCountSkipGetTx\<close> is \<open>None\<close> for the default \<open>POSITIVE_INFINITY\<close>.\<close>

definition shouldSnapshotReceivePage :: "pending_tx \<Rightarrow> int option \<Rightarrow> bool" where
  "shouldSnapshotReceivePage e maxVout =
     (if isSpend e \<noteq> Some False then False
      else if (case maxVout of Some m \<Rightarrow> vout_count_of (voutCount e) (pageEntry e) > m | None \<Rightarrow> False)
           then False
      else (case pageEntry e of Some tx \<Rightarrow> hasPageVinVout tx | None \<Rightarrow> False))"

definition serialize_one :: "bool \<Rightarrow> int option \<Rightarrow> pending_tx \<Rightarrow> classified_tx" where
  "serialize_one trace maxVout e =
     \<lparr>c_txid = c_txid e, isSpend = isSpend e, voutCount = voutCount e,
      outputAddressCount = outputAddressCount e,
      pageSnapshot =
        (if trace \<and> shouldSnapshotReceivePage e maxVout \<and> pageEntry e \<noteq> None
         then map_option compactPageSnapshot (pageEntry e)
         else pageSnapshot e)\<rparr>"

text \<open>\<open>opts\<close> absent is \<open>trace = False\<close> and no maximum.\<close>

definition serializePendingTxs :: "pending_tx list \<Rightarrow> bool \<Rightarrow> int option \<Rightarrow> classified_tx list" where
  "serializePendingTxs pending trace maxVout = map (serialize_one trace maxVout) pending"

definition runtimeFromClassified :: "classified_tx list \<Rightarrow> pending_tx list" where
  "runtimeFromClassified cs =
     map (\<lambda>c. to_pending c (map_option (pageSnapshotToSummary (c_txid c)) (pageSnapshot c))) cs"

definition pendingTxidsFromPending :: "classified_tx list \<Rightarrow> txid list" where
  "pendingTxidsFromPending cs = map c_txid cs"

section \<open>Sums and tests on a page entry\<close>

definition pos_value :: "int option \<Rightarrow> int" where
  "pos_value v = (case v of Some n \<Rightarrow> if n > 0 then n else 0 | None \<Rightarrow> 0)"

definition pageSpendSats :: "chain_tx \<Rightarrow> address \<Rightarrow> int" where
  "pageSpendSats tx a =
     (\<Sum>i\<leftarrow>vins tx. case prevout_of i of
        Some p \<Rightarrow> if prev_address p = Some a then pos_value (prev_value p) else 0
      | None \<Rightarrow> 0)"

definition pageReceiveSats :: "chain_tx \<Rightarrow> address \<Rightarrow> int" where
  "pageReceiveSats tx a =
     (\<Sum>v\<leftarrow>vouts tx. if out_address v = Some a then pos_value (out_value v) else 0)"

definition isSubFloorSpendFromPage :: "chain_tx option \<Rightarrow> address \<Rightarrow> int \<Rightarrow> bool" where
  "isSubFloorSpendFromPage tx a minExpandSats =
     (case tx of
        None \<Rightarrow> False
      | Some t \<Rightarrow>
          if vins t = [] then False
          else if \<not> txInvolvesSpendFromPage t a then False
          else 0 < pageSpendSats t a \<and> pageSpendSats t a < minExpandSats)"

definition isSubFloorReceiveFromPage :: "chain_tx option \<Rightarrow> address \<Rightarrow> int \<Rightarrow> bool" where
  "isSubFloorReceiveFromPage tx a minVictimIngestSats =
     (case tx of
        None \<Rightarrow> False
      | Some t \<Rightarrow>
          if vouts t = [] then False
          else 0 < pageReceiveSats t a \<and> pageReceiveSats t a < minVictimIngestSats)"

text \<open>\<open>s.toUpperCase().includes(t)\<close> on ASCII texts.\<close>

definition upper :: "char \<Rightarrow> char" where
  "upper c = (let n = of_char c :: nat in if 97 \<le> n \<and> n \<le> 122 then char_of (n - 32) else c)"

fun str_includes :: "string \<Rightarrow> string \<Rightarrow> bool" where
  "str_includes [] t = (t = [])"
| "str_includes (c # s) t = (take (length t) (c # s) = t \<or> str_includes s t)"

definition vout_is_op_return :: "chain_vout \<Rightarrow> bool" where
  "vout_is_op_return v =
     (out_type v = Some ''op_return'' \<or> out_type v = Some ''nulldata'' \<or>
      (case out_asm v of Some a \<Rightarrow> str_includes (map upper a) ''OP_RETURN'' | None \<Rightarrow> False))"

definition pageEntryHasOpReturnAsm :: "chain_tx \<Rightarrow> bool" where
  "pageEntryHasOpReturnAsm tx = (\<exists>v\<in>set (vouts tx). vout_is_op_return v)"

definition pageEntryToChainTxDetail :: "chain_tx \<Rightarrow> chain_tx" where
  "pageEntryToChainTxDetail e = e\<lparr>ctx_vin := Some (vins e), ctx_vout := Some (vouts e)\<rparr>"

end
