(* ===== verification/Config.thy ===== *)
theory Config
  imports Prelude
begin

text \<open>
  The configuration: \<open>loadConfig\<close> of \<open>packages/core/src/config.ts\<close> and the billing-tier presets
  of \<open>packages/core/src/quota/cfTier.ts\<close>.

  The environment is what the code reads of it: the text of a variable, and the number
  \<open>Number(text)\<close> of a variable that is set (the variables are set to integers). The fields that
  hold a URL, a path or inline JSON, and the two sweep-relay ratios, are left out. A field whose
  name a record of the store already has carries the prefix \<open>cfg_\<close>.
\<close>

record env =
  env_text :: "string \<Rightarrow> string option"
  env_number :: "string \<Rightarrow> int option"

definition num :: "env \<Rightarrow> string \<Rightarrow> int \<Rightarrow> int" where
  "num env k d = (case env_number env k of Some n \<Rightarrow> n | None \<Rightarrow> d)"

definition envIsSet :: "env \<Rightarrow> string \<Rightarrow> bool" where
  "envIsSet env k = (case env_text env k of Some t \<Rightarrow> t \<noteq> [] | None \<Rightarrow> False)"

section \<open>Job priorities\<close>

definition PROCESS_TX_REBUILD :: int where "PROCESS_TX_REBUILD = 11"
definition BACKFILL_HACKER :: int where "BACKFILL_HACKER = 10"
definition AUDIT_HACKER_BACKFILL :: int where "AUDIT_HACKER_BACKFILL = 7"
definition POLL_HACKER :: int where "POLL_HACKER = 6"
definition CRON_EXPAND :: int where "CRON_EXPAND = 5"
definition POLL_DOWNSTREAM :: int where "POLL_DOWNSTREAM = 5"
definition PROCESS_TX :: int where "PROCESS_TX = 4"
definition SYNC_COLDCARDWATCH :: int where "SYNC_COLDCARDWATCH = 3"
definition SYNC_VERCEL_TRACKERS :: int where "SYNC_VERCEL_TRACKERS = 3"
definition SYNC_BITQUERY_COLDCARD :: int where "SYNC_BITQUERY_COLDCARD = 3"
definition REFRESH_BALANCE :: int where "REFRESH_BALANCE = 2"
definition REFRESH_BTC_USD :: int where "REFRESH_BTC_USD = 1"

section \<open>Billing tiers\<close>

datatype cf_tier = Free | Paid

datatype provider = Esplora | Mempool

record tier_quota =
  q_tier :: cf_tier
  q_cron_pct :: int
  q_reads :: int
  q_writes :: int
  q_requests :: int
  q_subrequests :: int

fun CF_TIER_DEFAULTS :: "cf_tier \<Rightarrow> tier_quota" where
  "CF_TIER_DEFAULTS Free = \<lparr>q_tier = Free, q_cron_pct = 80, q_reads = 5000000, q_writes = 100000,
     q_requests = 100000, q_subrequests = 50\<rparr>"
| "CF_TIER_DEFAULTS Paid = \<lparr>q_tier = Paid, q_cron_pct = 100, q_reads = 833333333, q_writes = 1666666,
     q_requests = 10000000, q_subrequests = 1000\<rparr>"

text \<open>\<open>text.trim().toLowerCase()\<close> on ASCII texts.\<close>

definition is_blank :: "char \<Rightarrow> bool" where
  "is_blank c = (c = CHR '' '' \<or> (9 \<le> (of_char c :: nat) \<and> (of_char c :: nat) \<le> 13))"

definition trim :: "string \<Rightarrow> string" where
  "trim s = rev (dropWhile is_blank (rev (dropWhile is_blank s)))"

definition lower :: "char \<Rightarrow> char" where
  "lower c = (let n = of_char c :: nat in if 65 \<le> n \<and> n \<le> 90 then char_of (n + 32) else c)"

definition parseCfWorkersTier :: "env \<Rightarrow> cf_tier" where
  "parseCfWorkersTier env =
     (let raw = map lower (trim (case env_text env ''CF_WORKERS_TIER'' of Some t \<Rightarrow> t | None \<Rightarrow> ''free''))
      in if raw = ''paid'' then Paid else Free)"

definition clampPct :: "int \<Rightarrow> int" where
  "clampPct n = min 100 (max 0 n)"

definition resolvePositiveInt :: "env \<Rightarrow> string \<Rightarrow> int \<Rightarrow> int" where
  "resolvePositiveInt env k fallback =
     (if \<not> envIsSet env k then fallback
      else let n = num env k fallback in if n < 1 then fallback else n)"

definition resolveNonNegativeInt :: "env \<Rightarrow> string \<Rightarrow> int \<Rightarrow> int" where
  "resolveNonNegativeInt env k fallback =
     (if \<not> envIsSet env k then fallback
      else let n = num env k fallback in if n < 0 then fallback else n)"

definition resolveCronQuotaUtilizationPct :: "env \<Rightarrow> cf_tier \<Rightarrow> int" where
  "resolveCronQuotaUtilizationPct env tier =
     (let tierKey = (if tier = Paid then ''CRON_QUOTA_UTILIZATION_PCT_PAID''
                     else ''CRON_QUOTA_UTILIZATION_PCT_FREE'')
      in if envIsSet env ''CRON_QUOTA_UTILIZATION_PCT''
         then clampPct (num env ''CRON_QUOTA_UTILIZATION_PCT'' 100)
         else if envIsSet env tierKey then clampPct (num env tierKey 100)
         else q_cron_pct (CF_TIER_DEFAULTS tier))"

definition resolveCfTierQuotaConfig :: "env \<Rightarrow> tier_quota" where
  "resolveCfTierQuotaConfig env =
     (let tier = parseCfWorkersTier env; d = CF_TIER_DEFAULTS tier
      in \<lparr>q_tier = tier,
          q_cron_pct = resolveCronQuotaUtilizationPct env tier,
          q_reads = resolvePositiveInt env ''D1_READ_DAILY_LIMIT'' (q_reads d),
          q_writes = resolvePositiveInt env ''D1_WRITE_DAILY_LIMIT'' (q_writes d),
          q_requests = resolvePositiveInt env ''WORKERS_REQUEST_DAILY_LIMIT'' (q_requests d),
          q_subrequests = resolveNonNegativeInt env ''SUBREQUEST_LIMIT_PER_INVOCATION'' (q_subrequests d)\<rparr>)"

section \<open>The configuration record\<close>

record config =
  cfg_rateLimitMs :: int
  jobsPerTick :: int
  tickBudgetMs :: int
  runningJobStaleMs :: int
  cronIntervalSec :: int
  crawlEnqueuePerCron :: int
  pollHackerEnqueuePerCron :: int
  hackerMaintenanceEveryNCrons :: int
  cfg_downstreamPollIntervalSec :: int
  downstreamPollEnqueuePerCron :: int
  maxCrawlDepth :: int
  maxGraphDepth :: int
  minEdgeSats :: int
  minExpandSats :: int
  minVictimIngestSats :: int
  balanceRefreshIntervalSec :: int
  btcUsdPriceRefreshIntervalSec :: int
  coldcardwatchSyncIntervalSec :: int
  vercelTrackersSyncIntervalSec :: int
  bitqueryColdcardSyncIntervalSec :: int
  monitoringStaleSec :: int
  apiThresholdCooldownSec :: int
  apiThresholdMaxSec :: int
  backfillTxsPerJob :: int
  maxChainCallsPerJob :: int
  backfillMaxTxs :: int
  backfillHealAuditIntervalSec :: int
  backfillHealAuditPerCron :: int
  backfillHealTxSlack :: int
  indexerRebuildMode :: bool
  getRateLimit :: int
  getRateWindowSec :: int
  graphRateLimit :: int
  graphRateWindowSec :: int
  graphContinuationRateLimit :: int
  graphPageSizeDefault :: int
  graphPageSizeMax :: int
  maxGraphVictims :: int
  maxGraphDownstream :: int
  recentHackersLimit :: int
  hackersPollMs :: int
  hackersPollMsSidecar :: int
  cfg_maxQueueDepth :: int
  queueDrainFirstDepth :: int
  jobsPerTickMax :: int
  queueDepthPerExtraJob :: int
  queueSoftThrottleDepth :: int
  indexerJobDetails :: bool
  indexerLogColor :: bool
  sidecarHeartbeatSec :: int
  jobDeferAfterAttempts :: int
  jobDeferSec :: int
  scheduleSubrequestReserve :: int
  scheduleReserveMaintExtra :: int
  maxSubrequestsPerJob :: int
  maxEdgesPerJob :: int
  maxGraphEdgesPerTx :: int
  sweepRelayMinVoutCount :: int
  spendFanoutMinVoutCount :: int
  spendFanoutMinOutputAddresses :: int
  spendFanoutTopK :: int
  graphBundleMinEdges :: int
  jobReclaimDeferAfter :: int
  jobReclaimDeferSec :: int
  backfillSkipReceivesPerJob :: int
  traceFlaggedHackerReceives :: bool
  maxVoutCountSkipGetTx :: int
  cfg_d1BatchSize :: int
  syncAddressesPerJob :: int
  jobCpuGuardMs :: int
  cfg_maxPendingExpandPerAddress :: int
  cfg_maxPendingExpandGlobal :: int
  cfg_maxPendingBackfillGlobal :: int
  cfg_maxPendingAuditGlobal :: int
  pollSliceEveryNCrons :: int
  ageBoostEnabled :: bool
  ageBoostIntervalSec :: int
  ageBoostMax :: int
  maintSliceEveryNCrons :: int
  maintSliceMinWaitSec :: int
  opReturnBackfillPerJob :: int
  opReturnBackfillEveryNCrons :: int
  jobDoneRetentionDays :: int
  jobPruneIntervalDays :: int
  jobPruneBatchSize :: int
  jobPruneMaxBatchesPerRun :: int
  jobPruneMaxDeletesPerRun :: int
  jobPruneEnabled :: bool
  jobCompletedAtBackfillBatchSize :: int
  jobCompletedAtBackfillMaxBatchesPerTick :: int
  rateLimitPruneInactiveDays :: int
  rateLimitPruneBatchSize :: int
  rateLimitPruneMaxBatchesPerRun :: int
  syncStateOrphanPruneBatchSize :: int
  syncStateOrphanPruneMaxBatchesPerRun :: int
  maintenanceMaxBatchesPerTick :: int
  maintenanceMaxWritesPerTick :: int
  apiThresholdBaseSec :: int
  processTxRebuildPriority :: int
  cfg_queueSchedulingResumeDepth :: int
  syncSnapshotTtlSec :: "int option"
  chainPrimaryProvider :: provider
  cfWorkersTier :: cf_tier
  subrequestLimitPerInvocation :: int
  cronQuotaUtilizationPct :: int
  d1ReadDailyLimit :: int
  d1WriteDailyLimit :: int
  workersRequestDailyLimit :: int

definition loadConfig :: "env \<Rightarrow> config" where
  "loadConfig env = \<lparr>
     cfg_rateLimitMs = num env ''RATE_LIMIT_MS'' 8000,
     jobsPerTick = num env ''JOBS_PER_TICK'' 1,
     tickBudgetMs = num env ''TICK_BUDGET_MS'' 50000,
     runningJobStaleMs = num env ''RUNNING_JOB_STALE_MS'' 120000,
     cronIntervalSec = num env ''CRON_INTERVAL_SEC'' 60,
     crawlEnqueuePerCron = num env ''CRAWL_ENQUEUE_PER_CRON'' 3,
     pollHackerEnqueuePerCron = num env ''POLL_HACKER_ENQUEUE_PER_CRON'' 1,
     hackerMaintenanceEveryNCrons = num env ''HACKER_MAINTENANCE_EVERY_N_CRONS'' 10,
     cfg_downstreamPollIntervalSec = num env ''DOWNSTREAM_POLL_INTERVAL_SEC'' 600,
     downstreamPollEnqueuePerCron = num env ''DOWNSTREAM_POLL_ENQUEUE_PER_CRON'' 2,
     maxCrawlDepth = num env ''MAX_CRAWL_DEPTH'' 5,
     maxGraphDepth = num env ''MAX_GRAPH_DEPTH'' 2,
     minEdgeSats = num env ''MIN_EDGE_SATS'' 100000,
     minExpandSats = num env ''MIN_EXPAND_SATS'' 100000,
     minVictimIngestSats = num env ''MIN_VICTIM_INGEST_SATS'' 100000,
     balanceRefreshIntervalSec = num env ''BALANCE_REFRESH_INTERVAL_SEC'' 300,
     btcUsdPriceRefreshIntervalSec = num env ''BTC_USD_PRICE_REFRESH_INTERVAL_SEC'' 900,
     coldcardwatchSyncIntervalSec = num env ''COLDCARDWATCH_SYNC_INTERVAL_SEC'' 3600,
     vercelTrackersSyncIntervalSec = num env ''VERCEL_TRACKERS_SYNC_INTERVAL_SEC'' 3600,
     bitqueryColdcardSyncIntervalSec = num env ''BITQUERY_COLDCARD_SYNC_INTERVAL_SEC'' 3600,
     monitoringStaleSec = num env ''MONITORING_STALE_SEC'' 600,
     apiThresholdCooldownSec = num env ''API_THRESHOLD_COOLDOWN_SEC'' 300,
     apiThresholdMaxSec = num env ''API_THRESHOLD_MAX_SEC'' 3600,
     backfillTxsPerJob = num env ''BACKFILL_TXS_PER_JOB'' 5,
     maxChainCallsPerJob = num env ''MAX_CHAIN_CALLS_PER_JOB'' 0,
     backfillMaxTxs = num env ''BACKFILL_MAX_TXS'' 10000,
     backfillHealAuditIntervalSec = num env ''BACKFILL_HEAL_AUDIT_INTERVAL_SEC'' 86400,
     backfillHealAuditPerCron = num env ''BACKFILL_HEAL_AUDIT_PER_CRON'' 1,
     backfillHealTxSlack = num env ''BACKFILL_HEAL_TX_SLACK'' 5,
     indexerRebuildMode = env_text env ''INDEXER_REBUILD_MODE'' = Some ''1'',
     getRateLimit = num env ''GET_RATE_LIMIT'' 120,
     getRateWindowSec = num env ''GET_RATE_WINDOW_SEC'' 60,
     graphRateLimit = num env ''GRAPH_RATE_LIMIT'' 30,
     graphRateWindowSec = num env ''GRAPH_RATE_WINDOW_SEC'' 60,
     graphContinuationRateLimit = num env ''GRAPH_CONTINUATION_RATE_LIMIT'' 120,
     graphPageSizeDefault = num env ''GRAPH_PAGE_SIZE_DEFAULT'' 500,
     graphPageSizeMax = num env ''GRAPH_PAGE_SIZE_MAX'' 1000,
     maxGraphVictims = num env ''MAX_GRAPH_VICTIMS'' 10000,
     maxGraphDownstream = num env ''MAX_GRAPH_DOWNSTREAM'' 10000,
     recentHackersLimit = max 1 (num env ''RECENT_HACKERS_LIMIT'' 5),
     hackersPollMs = max 3600000 (num env ''HACKERS_POLL_MS'' 3600000),
     hackersPollMsSidecar = max 60000 (num env ''HACKERS_POLL_MS_SIDECAR'' 60000),
     cfg_maxQueueDepth = num env ''MAX_QUEUE_DEPTH'' 360,
     queueDrainFirstDepth = num env ''QUEUE_DRAIN_FIRST_DEPTH'' 1,
     jobsPerTickMax = num env ''JOBS_PER_TICK_MAX'' 3,
     queueDepthPerExtraJob = num env ''QUEUE_DEPTH_PER_EXTRA_JOB'' 40,
     queueSoftThrottleDepth = num env ''QUEUE_SOFT_THROTTLE_DEPTH'' 80,
     indexerJobDetails = env_text env ''INDEXER_JOB_DETAILS'' = Some ''1'',
     indexerLogColor = env_text env ''INDEXER_LOG_COLOR'' = Some ''1'',
     sidecarHeartbeatSec = max 5 (num env ''SIDECAR_HEARTBEAT_SEC'' 30),
     jobDeferAfterAttempts = num env ''JOB_DEFER_AFTER_ATTEMPTS'' 20,
     jobDeferSec = num env ''JOB_DEFER_SEC'' 86400,
     scheduleSubrequestReserve = num env ''SCHEDULE_SUBREQUEST_RESERVE'' 38,
     scheduleReserveMaintExtra = num env ''SCHEDULE_RESERVE_MAINT_EXTRA'' 10,
     maxSubrequestsPerJob = num env ''MAX_SUBREQUESTS_PER_JOB'' 0,
     maxEdgesPerJob = num env ''MAX_EDGES_PER_JOB'' 0,
     maxGraphEdgesPerTx = num env ''MAX_GRAPH_EDGES_PER_TX'' 0,
     sweepRelayMinVoutCount = num env ''SWEEP_RELAY_MIN_VOUT_COUNT'' 20,
     spendFanoutMinVoutCount = num env ''SPEND_FANOUT_MIN_VOUT_COUNT'' 20,
     spendFanoutMinOutputAddresses = num env ''SPEND_FANOUT_MIN_OUTPUT_ADDRESSES'' 10,
     spendFanoutTopK = num env ''SPEND_FANOUT_TOP_K'' 5,
     graphBundleMinEdges = num env ''GRAPH_BUNDLE_MIN_EDGES'' 2,
     jobReclaimDeferAfter = num env ''JOB_RECLAIM_DEFER_AFTER'' 3,
     jobReclaimDeferSec = num env ''JOB_RECLAIM_DEFER_SEC'' 86400,
     backfillSkipReceivesPerJob = num env ''BACKFILL_SKIP_RECEIVES_PER_JOB'' 25,
     traceFlaggedHackerReceives = env_text env ''TRACE_FLAGGED_HACKER_RECEIVES'' \<noteq> Some ''0'',
     maxVoutCountSkipGetTx = num env ''MAX_VOUT_COUNT_SKIP_GET_TX'' 20,
     cfg_d1BatchSize = num env ''D1_BATCH_SIZE'' 8,
     syncAddressesPerJob = num env ''SYNC_ADDRESSES_PER_JOB'' 5,
     jobCpuGuardMs = num env ''JOB_CPU_GUARD_MS'' 0,
     cfg_maxPendingExpandPerAddress = max 1 (num env ''MAX_PENDING_EXPAND_PER_ADDRESS'' 2),
     cfg_maxPendingExpandGlobal = max 1 (num env ''MAX_PENDING_EXPAND_GLOBAL'' 40),
     cfg_maxPendingBackfillGlobal = max 1 (num env ''MAX_PENDING_BACKFILL_GLOBAL'' 3),
     cfg_maxPendingAuditGlobal = max 1 (num env ''MAX_PENDING_AUDIT_GLOBAL'' 1),
     pollSliceEveryNCrons = max 1 (num env ''POLL_SLICE_EVERY_N_CRONS'' 4),
     ageBoostEnabled = env_text env ''AGE_BOOST_ENABLED'' \<noteq> Some ''0'',
     ageBoostIntervalSec = max 1 (num env ''AGE_BOOST_INTERVAL_SEC'' 900),
     ageBoostMax = max 0 (num env ''AGE_BOOST_MAX'' 4),
     maintSliceEveryNCrons = max 0 (num env ''MAINT_SLICE_EVERY_N_CRONS'' 10),
     maintSliceMinWaitSec = max 0 (num env ''MAINT_SLICE_MIN_WAIT_SEC'' 3600),
     opReturnBackfillPerJob = max 1 (num env ''OP_RETURN_BACKFILL_PER_JOB'' 3),
     opReturnBackfillEveryNCrons = max 1 (num env ''OP_RETURN_BACKFILL_EVERY_N_CRONS'' 10),
     jobDoneRetentionDays = max 1 (num env ''JOB_DONE_RETENTION_DAYS'' 3),
     jobPruneIntervalDays = max 1 (num env ''JOB_PRUNE_INTERVAL_DAYS'' 3),
     jobPruneBatchSize = max 1 (num env ''JOB_PRUNE_BATCH_SIZE'' 500),
     jobPruneMaxBatchesPerRun = max 1 (num env ''JOB_PRUNE_MAX_BATCHES_PER_RUN'' 20),
     jobPruneMaxDeletesPerRun = max 1 (num env ''JOB_PRUNE_MAX_DELETES_PER_RUN'' 10000),
     jobPruneEnabled = env_text env ''JOB_PRUNE_ENABLED'' \<noteq> Some ''0'',
     jobCompletedAtBackfillBatchSize = max 1 (num env ''JOB_COMPLETED_AT_BACKFILL_BATCH_SIZE'' 500),
     jobCompletedAtBackfillMaxBatchesPerTick = max 1 (num env ''JOB_COMPLETED_AT_BACKFILL_MAX_BATCHES_PER_TICK'' 5),
     rateLimitPruneInactiveDays = max 1 (num env ''RATE_LIMIT_PRUNE_INACTIVE_DAYS'' 7),
     rateLimitPruneBatchSize = max 1 (num env ''RATE_LIMIT_PRUNE_BATCH_SIZE'' 200),
     rateLimitPruneMaxBatchesPerRun = max 1 (num env ''RATE_LIMIT_PRUNE_MAX_BATCHES_PER_RUN'' 10),
     syncStateOrphanPruneBatchSize = max 1 (num env ''SYNC_STATE_ORPHAN_PRUNE_BATCH_SIZE'' 500),
     syncStateOrphanPruneMaxBatchesPerRun = max 1 (num env ''SYNC_STATE_ORPHAN_PRUNE_MAX_BATCHES_PER_RUN'' 10),
     maintenanceMaxBatchesPerTick = max 1 (num env ''MAINTENANCE_MAX_BATCHES_PER_TICK'' 25),
     maintenanceMaxWritesPerTick = max 1 (num env ''MAINTENANCE_MAX_WRITES_PER_TICK'' 12000),
     apiThresholdBaseSec = (case env_number env ''API_THRESHOLD_BASE_SEC'' of Some n \<Rightarrow> n | None \<Rightarrow> num env ''API_THRESHOLD_COOLDOWN_SEC'' 300),
     processTxRebuildPriority = num env ''PROCESS_TX_REBUILD_PRIORITY'' PROCESS_TX_REBUILD,
     cfg_queueSchedulingResumeDepth = (case env_number env ''QUEUE_SCHEDULING_RESUME_DEPTH'' of Some n \<Rightarrow> n | None \<Rightarrow> num env ''MAX_QUEUE_DEPTH'' 360 div 2),
     syncSnapshotTtlSec = (if envIsSet env ''SYNC_SNAPSHOT_TTL_SEC'' then env_number env ''SYNC_SNAPSHOT_TTL_SEC'' else None),
     chainPrimaryProvider = (if env_text env ''CHAIN_PRIMARY_PROVIDER'' = Some ''mempool'' then Mempool else Esplora),
     cfWorkersTier = q_tier (resolveCfTierQuotaConfig env),
     subrequestLimitPerInvocation = q_subrequests (resolveCfTierQuotaConfig env),
     cronQuotaUtilizationPct = q_cron_pct (resolveCfTierQuotaConfig env),
     d1ReadDailyLimit = q_reads (resolveCfTierQuotaConfig env),
     d1WriteDailyLimit = q_writes (resolveCfTierQuotaConfig env),
     workersRequestDailyLimit = q_requests (resolveCfTierQuotaConfig env)\<rparr>"

text \<open>Nothing set: the defaults.\<close>

definition empty_env :: env where
  "empty_env = \<lparr>env_text = (\<lambda>_. None), env_number = (\<lambda>_. None)\<rparr>"

definition default_config :: config where
  "default_config = loadConfig empty_env"

end
