(* ===== verification/PendingPayload.thy ===== *)
theory PendingPayload
  imports TxPage Config
begin

text \<open>
  What is decided about a pending transaction before a provider call is spent on it
  (\<open>shouldTraceHackerReceive\<close>, \<open>isSpendFanout\<close>, \<open>shouldSkipGetTx\<close> of \<open>txPage.ts\<close>), the gap
  filling of \<open>pollGap.ts\<close>, and the form in which the pending list is carried in a job's payload
  (\<open>serializePendingTxs\<close>, \<open>parsePendingTxs\<close>, \<open>pendingPayload.ts\<close>), with the round trip through
  JSON.
\<close>

section \<open>Decisions\<close>

record skip_opts =
  so_expandProfile :: "string option"
  so_pageEntry :: "chain_tx option"
  so_hop :: "int option"
  so_traceHackerReceives :: "bool option"
  so_address :: "address option"

text \<open>The \<open>voutCount\<close> of an entry, its page entry's, or the snapshot's.\<close>

definition trace_vout_count :: "classified_tx \<Rightarrow> chain_tx option \<Rightarrow> int" where
  "trace_vout_count e page =
     (case voutCount e of
        Some n \<Rightarrow> n
      | None \<Rightarrow> (case page of
          Some tx \<Rightarrow> txVoutCount tx
        | None \<Rightarrow> (case pageSnapshot e of Some sn \<Rightarrow> int (length (snap_vout sn)) | None \<Rightarrow> 0)))"

definition shouldTraceHackerReceive :: "classified_tx \<Rightarrow> config \<Rightarrow> skip_opts \<Rightarrow> bool" where
  "shouldTraceHackerReceive e cfg op =
     (let hop = (case so_hop op of Some h \<Rightarrow> h | None \<Rightarrow> 0);
          trace = (case so_traceHackerReceives op of Some b \<Rightarrow> b | None \<Rightarrow> traceFlaggedHackerReceives cfg)
      in if isSpend e \<noteq> Some False then False
         else if so_expandProfile op = Some ''sweep_relay'' then False
         else if hop > 0 then False
         else if \<not> trace \<or> hop \<noteq> 0 then False
         else if trace_vout_count e (so_pageEntry op) > maxVoutCountSkipGetTx cfg then False
         else if (case (so_pageEntry op, truthy (so_address op)) of
                    (Some p, Some a) \<Rightarrow> isSubFloorReceiveFromPage (Some p) a (minVictimIngestSats cfg)
                  | _ \<Rightarrow> False) then False
         else True)"

definition isSpendFanout :: "classified_tx \<Rightarrow> address \<Rightarrow> config \<Rightarrow> chain_tx option \<Rightarrow> bool" where
  "isSpendFanout e a cfg page =
     (if isSpend e = Some False then False
      else
        let vc = vout_count_of (voutCount e) page;
            oc = (case outputAddressCount e of
                    Some n \<Rightarrow> n
                  | None \<Rightarrow> (case page of Some tx \<Rightarrow> uniqueOutputAddresses tx | None \<Rightarrow> 0))
        in if vc < spendFanoutMinVoutCount cfg then False
           else if oc < spendFanoutMinOutputAddresses cfg then False
           else if isSpend e = Some True then True
           else (case page of Some tx \<Rightarrow> txInvolvesSpendFromPage tx a | None \<Rightarrow> False))"

definition shouldSkipGetTx :: "classified_tx \<Rightarrow> address \<Rightarrow> config \<Rightarrow> skip_opts \<Rightarrow> bool" where
  "shouldSkipGetTx e a cfg op =
     (if so_expandProfile op = Some ''sweep_relay'' \<and> isSpend e = Some False then True
      else if shouldTraceHackerReceive e cfg (op\<lparr>so_address := Some a\<rparr>) then False
      else if isSpend e = Some False then True
      else if (case so_pageEntry op of
                 Some p \<Rightarrow> isSubFloorSpendFromPage (Some p) a (minExpandSats cfg)
               | None \<Rightarrow> False) then True
      else if isSpend e = Some True then False
      else if vout_count_of (voutCount e) (so_pageEntry op) > maxVoutCountSkipGetTx cfg \<and>
              (case so_pageEntry op of Some p \<Rightarrow> \<not> txInvolvesSpendFromPage p a | None \<Rightarrow> False)
           then True
      else False)"

section \<open>Polling gaps\<close>

text \<open>\<open>(newer, lastSeenFound, lastSeenIndex)\<close>.\<close>

fun findIndex :: "('a \<Rightarrow> bool) \<Rightarrow> 'a list \<Rightarrow> nat option" where
  "findIndex P [] = None"
| "findIndex P (x # xs) = (if P x then Some 0 else map_option Suc (findIndex P xs))"

definition sliceNewerThanLastSeen :: "chain_tx list \<Rightarrow> txid option \<Rightarrow> chain_tx list \<times> bool \<times> int" where
  "sliceNewerThanLastSeen txs lastSeen =
     (case truthy lastSeen of
        None \<Rightarrow> (txs, True, - 1)
      | Some t \<Rightarrow>
          (case findIndex (\<lambda>x. ctx_txid x = t) txs of
             None \<Rightarrow> (txs, False, - 1)
           | Some i \<Rightarrow> (take i txs, True, int i)))"

definition pendingGapFillTxs :: "chain_tx list \<Rightarrow> address \<Rightarrow> pending_tx list" where
  "pendingGapFillTxs txs a =
     filter (\<lambda>e. isSpend e = Some True \<or>
                 (case pageEntry e of Some p \<Rightarrow> pageEntryHasOpReturnAsm p | None \<Rightarrow> False))
       (classifyPageTxs txs a)"

definition spendGapExceedsFloor :: "int \<Rightarrow> int \<Rightarrow> int \<Rightarrow> bool" where
  "spendGapExceedsFloor chainSpent indexedOut minExpand = (chainSpent - indexedOut \<ge> max 0 minExpand)"

section \<open>The payload\<close>

text \<open>
  \<open>JSON.stringify\<close> of the entries: an undefined field is left out. \<open>JSON.parse\<close> and the reads of
  \<open>parsePendingTxs\<close> on the way back; the snapshot is taken as it is, so its decoding is that of the
  fields the code reads from it.
\<close>

definition field :: "string \<Rightarrow> ('a \<Rightarrow> json) \<Rightarrow> 'a option \<Rightarrow> payload" where
  "field k enc v = (case v of Some x \<Rightarrow> [(k, enc x)] | None \<Rightarrow> [])"

definition prevout_json :: "prevout \<Rightarrow> json" where
  "prevout_json p = JObj (field ''scriptpubkey_address'' JStr (prev_address p) @
                          field ''value'' JNum (prev_value p))"

definition vout_json :: "chain_vout \<Rightarrow> json" where
  "vout_json v = JObj (field ''scriptpubkey_address'' JStr (out_address v) @
     field ''value'' JNum (out_value v) @ field ''scriptpubkey_type'' JStr (out_type v) @
     field ''scriptpubkey_asm'' JStr (out_asm v) @ field ''scriptpubkey'' JStr (out_script v))"

definition status_json :: "tx_status \<Rightarrow> json" where
  "status_json st = JObj (field ''block_height'' JNum (block_height st) @
                          field ''block_time'' JNum (block_time st))"

definition snapshot_json :: "page_snapshot \<Rightarrow> json" where
  "snapshot_json sn = JObj (field ''status'' status_json (snap_status sn) @
     field ''fee'' JNum (snap_fee sn) @
     [(''vin'', JArr (map (\<lambda>p. JObj (field ''prevout'' prevout_json p)) (snap_vin sn))),
      (''vout'', JArr (map vout_json (snap_vout sn)))])"

definition pending_json :: "classified_tx \<Rightarrow> json" where
  "pending_json e = JObj ([(''txid'', JStr (c_txid e))] @ field ''isSpend'' JBool (isSpend e) @
     field ''voutCount'' JNum (voutCount e) @ field ''outputAddressCount'' JNum (outputAddressCount e) @
     field ''pageSnapshot'' snapshot_json (pageSnapshot e))"

fun obj_fields :: "json \<Rightarrow> payload" where
  "obj_fields (JObj fs) = fs"
| "obj_fields _ = []"

fun as_bool :: "json option \<Rightarrow> bool option" where
  "as_bool (Some (JBool b)) = Some b"
| "as_bool _ = None"

fun as_obj :: "json option \<Rightarrow> payload option" where
  "as_obj (Some (JObj fs)) = Some fs"
| "as_obj _ = None"

definition read_prevout :: "payload \<Rightarrow> prevout" where
  "read_prevout fs = \<lparr>prev_address = as_str (jget fs ''scriptpubkey_address''),
     prev_value = as_num (jget fs ''value'')\<rparr>"

definition read_vout :: "json \<Rightarrow> chain_vout" where
  "read_vout j = (let fs = obj_fields j in
     \<lparr>out_address = as_str (jget fs ''scriptpubkey_address''), out_value = as_num (jget fs ''value''),
      out_type = as_str (jget fs ''scriptpubkey_type''), out_asm = as_str (jget fs ''scriptpubkey_asm''),
      out_script = as_str (jget fs ''scriptpubkey'')\<rparr>)"

definition read_status :: "payload \<Rightarrow> tx_status" where
  "read_status fs = \<lparr>block_height = as_num (jget fs ''block_height''),
     block_time = as_num (jget fs ''block_time'')\<rparr>"

definition arr_or_nil :: "json option \<Rightarrow> json list" where
  "arr_or_nil v = (case as_arr v of Some xs \<Rightarrow> xs | None \<Rightarrow> [])"

definition read_snapshot :: "payload \<Rightarrow> page_snapshot" where
  "read_snapshot fs =
     \<lparr>snap_status = map_option read_status (as_obj (jget fs ''status'')),
      snap_fee = as_num (jget fs ''fee''),
      snap_vin = map (\<lambda>j. map_option read_prevout (as_obj (jget (obj_fields j) ''prevout'')))
                   (arr_or_nil (jget fs ''vin'')),
      snap_vout = map read_vout (arr_or_nil (jget fs ''vout''))\<rparr>"

definition parse_pending_entry :: "json \<Rightarrow> classified_tx" where
  "parse_pending_entry j = (let e = obj_fields j in
     \<lparr>c_txid = (case jget e ''txid'' of Some v \<Rightarrow> js_string v | None \<Rightarrow> ''undefined''),
      isSpend = as_bool (jget e ''isSpend''),
      voutCount = as_num (jget e ''voutCount''),
      outputAddressCount = as_num (jget e ''outputAddressCount''),
      pageSnapshot = map_option read_snapshot (as_obj (jget e ''pageSnapshot''))\<rparr>)"

definition pendingFromLegacyTxids :: "txid list \<Rightarrow> classified_tx list" where
  "pendingFromLegacyTxids ts =
     map (\<lambda>t. \<lparr>c_txid = t, isSpend = None, voutCount = None, outputAddressCount = None,
               pageSnapshot = None\<rparr>) ts"

definition parsePendingTxs :: "payload \<Rightarrow> classified_tx list" where
  "parsePendingTxs raw =
     (case as_arr (jget raw ''pendingTxs'') of
        Some (x # xs) \<Rightarrow> map parse_pending_entry (x # xs)
      | _ \<Rightarrow> (case as_arr (jget raw ''pendingTxids'') of
               Some (t # ts) \<Rightarrow> pendingFromLegacyTxids (map js_string (t # ts))
             | _ \<Rightarrow> []))"

definition readPendingRuntime :: "payload \<Rightarrow> pending_tx list \<times> int" where
  "readPendingRuntime raw =
     (runtimeFromClassified (parsePendingTxs raw),
      case as_num (jget raw ''processedIndex'') of Some n \<Rightarrow> n | None \<Rightarrow> 0)"

text \<open>The fields that \<open>writePendingPayload\<close> contributes to a payload.\<close>

definition writePendingPayload :: "pending_tx list \<Rightarrow> int \<Rightarrow> config option \<Rightarrow> payload" where
  "writePendingPayload pending idx cfg =
     (let hasPending = idx < int (length pending);
          cs = (case cfg of
                  Some c \<Rightarrow> serializePendingTxs pending (traceFlaggedHackerReceives c)
                              (Some (maxVoutCountSkipGetTx c))
                | None \<Rightarrow> serializePendingTxs pending False None)
      in [(''pendingTxs'', JArr (if hasPending then map pending_json cs else [])),
          (''pendingTxids'', JArr (if hasPending then map JStr (map c_txid pending) else [])),
          (''processedIndex'', JNum (if hasPending then idx else 0))])"

definition collectSpendTargetsFromRuntime :: "pending_tx list \<Rightarrow> address list" where
  "collectSpendTargetsFromRuntime es =
     concat (map (\<lambda>e. if isSpend e \<noteq> Some True then []
                      else (case pageEntry e of
                              Some p \<Rightarrow> List.map_filter (\<lambda>v. truthy (out_address v)) (vouts p)
                            | None \<Rightarrow> [])) es)"

section \<open>The round trip\<close>

lemma jget_field [simp]:
  "(f ++ jget (field k enc v)) k' = (if k = k' \<and> v \<noteq> None then map_option enc v else f k')"
  by (cases v) (auto simp: field_def Map.map_add_def)

lemma jget_field_Nil [simp]:
  "jget (field k enc v) k' = (if k = k' then map_option enc v else None)"
  by (cases v) (auto simp: field_def)

lemma as_opt_simps [simp]:
  "as_str (map_option JStr x) = x" "as_num (map_option JNum y) = y" "as_bool (map_option JBool b) = b"
  by (cases x, simp, simp, cases y, simp, simp, cases b, simp, simp)

lemma read_prevout_json [simp]: "read_prevout (obj_fields (prevout_json p)) = p"
  by (cases p) (auto simp: prevout_json_def read_prevout_def)

lemma read_status_json [simp]: "read_status (obj_fields (status_json st)) = st"
  by (cases st) (auto simp: status_json_def read_status_def)

lemma read_vout_json [simp]: "read_vout (vout_json v) = v"
  by (cases v) (auto simp: vout_json_def read_vout_def Let_def)

lemma as_obj_enc:
  assumes "\<And>x. enc x = JObj (obj_fields (enc x))" and "\<And>x. dec (obj_fields (enc x)) = x"
  shows "map_option dec (as_obj (map_option enc v)) = v"
proof (cases v)
  case (Some x)
  obtain fs where "enc x = JObj fs" using assms(1) by blast
  then show ?thesis using Some assms(2)[of x] by simp
qed simp

lemma json_is_obj:
  "prevout_json p = JObj (obj_fields (prevout_json p))"
  "status_json st = JObj (obj_fields (status_json st))"
  "snapshot_json sn = JObj (obj_fields (snapshot_json sn))"
  by (simp_all add: prevout_json_def status_json_def snapshot_json_def)

lemma read_snapshot_json: "read_snapshot (obj_fields (snapshot_json sn)) = sn"
proof -
  have p: "map_option read_prevout (as_obj (map_option prevout_json v)) = v" for v
    by (rule as_obj_enc) (simp_all add: json_is_obj(1)[symmetric])
  have s: "map_option read_status (as_obj (map_option status_json v)) = v" for v
    by (rule as_obj_enc) (simp_all add: json_is_obj(2)[symmetric])
  have v: "map (\<lambda>j. map_option read_prevout (as_obj (jget (obj_fields j) ''prevout'')))
             (map (\<lambda>p. JObj (field ''prevout'' prevout_json p)) xs) = xs" for xs
    by (induction xs) (simp_all add: p)
  have o: "map read_vout (map vout_json ys) = ys" for ys by (induction ys) simp_all
  show ?thesis
    using v[of "snap_vin sn"] o[of "snap_vout sn"]
    by (cases sn) (simp add: snapshot_json_def read_snapshot_def arr_or_nil_def s)
qed

lemma parse_pending_json [simp]: "parse_pending_entry (pending_json e) = e"
proof -
  have "map_option read_snapshot (as_obj (map_option snapshot_json v)) = v" for v
    by (rule as_obj_enc) (simp_all add: json_is_obj(3)[symmetric] read_snapshot_json)
  then show ?thesis
    by (cases e) (simp add: pending_json_def parse_pending_entry_def Let_def)
qed

lemma parse_written:
  assumes "0 \<le> idx" and "idx < int (length pending)"
  shows "parsePendingTxs (writePendingPayload pending idx cfg @ rest)
       = (case cfg of
            Some c \<Rightarrow> serializePendingTxs pending (traceFlaggedHackerReceives c) (Some (maxVoutCountSkipGetTx c))
          | None \<Rightarrow> serializePendingTxs pending False None)"
proof -
  obtain x xs where "pending = x # xs" using assms by (cases pending) auto
  then show ?thesis
    using assms(2) by (auto simp: writePendingPayload_def parsePendingTxs_def Let_def
        serializePendingTxs_def comp_def split: option.splits)
qed

text \<open>
  C11: the pending list survives its trip through a job's payload. Reading back what
  \<open>writePendingPayload\<close> wrote gives the same index and, entry by entry in the same order, the same
  txid and classification; a receive kept with its page snapshot has a page entry again, with the
  same fee, outputs and input addresses and values.
\<close>

theorem pending_payload_roundtrip:
  assumes "0 \<le> idx" and "idx < int (length pending)"
  shows "\<exists>back. readPendingRuntime (writePendingPayload pending idx (Some cfg) @ rest) = (back, idx) \<and>
     map classified_tx.truncate back
       = serializePendingTxs pending (traceFlaggedHackerReceives cfg) (Some (maxVoutCountSkipGetTx cfg)) \<and>
     map c_txid back = map c_txid pending \<and> map isSpend back = map isSpend pending \<and>
     map voutCount back = map voutCount pending \<and>
     map outputAddressCount back = map outputAddressCount pending \<and>
     list_all2 (\<lambda>e b. \<forall>tx. traceFlaggedHackerReceives cfg \<longrightarrow> pageEntry e = Some tx \<longrightarrow>
        shouldSnapshotReceivePage e (Some (maxVoutCountSkipGetTx cfg)) \<longrightarrow>
        (\<exists>tx'. pageEntry b = Some tx' \<and> ctx_fee tx' = ctx_fee tx \<and> ctx_status tx' = ctx_status tx \<and>
               vouts tx' = vouts tx \<and> map vin_address (vins tx') = map vin_address (vins tx) \<and>
               map prevout_of (vins tx') = map prevout_of (vins tx))) pending back"
proof -
  let ?sn = "serialize_one (traceFlaggedHackerReceives cfg) (Some (maxVoutCountSkipGetTx cfg))"
  let ?bck = "runtimeFromClassified (map ?sn pending)"
  have idx: "as_num (jget (writePendingPayload pending idx (Some cfg) @ rest) ''processedIndex'') = Some idx"
    using assms by (simp add: writePendingPayload_def Let_def)
  have "readPendingRuntime (writePendingPayload pending idx (Some cfg) @ rest) = (?bck, idx)"
    unfolding readPendingRuntime_def parse_written[OF assms] idx by (simp add: serializePendingTxs_def)
  moreover have "map classified_tx.truncate ?bck = map ?sn pending"
    by (induction pending) (simp_all add: runtimeFromClassified_def to_pending_def classified_tx.defs serialize_one_def)
  moreover have "map c_txid ?bck = map c_txid pending" "map isSpend ?bck = map isSpend pending"
     "map voutCount ?bck = map voutCount pending"
     "map outputAddressCount ?bck = map outputAddressCount pending"
    by (simp_all add: runtimeFromClassified_def to_pending_def serialize_one_def)
  moreover have "list_all2 (\<lambda>e b. \<forall>tx. traceFlaggedHackerReceives cfg \<longrightarrow> pageEntry e = Some tx \<longrightarrow>
        shouldSnapshotReceivePage e (Some (maxVoutCountSkipGetTx cfg)) \<longrightarrow>
        (\<exists>tx'. pageEntry b = Some tx' \<and> ctx_fee tx' = ctx_fee tx \<and> ctx_status tx' = ctx_status tx \<and>
               vouts tx' = vouts tx \<and> map vin_address (vins tx') = map vin_address (vins tx) \<and>
               map prevout_of (vins tx') = map prevout_of (vins tx))) pending ?bck"
    by (auto simp: list_all2_conv_all_nth runtimeFromClassified_def to_pending_def serialize_one_def
        pageSnapshotToSummary_def compactPageSnapshot_def vins_def[of "_\<lparr>ctx_vin := _\<rparr>"]
        vins_def[where tx = "\<lparr>ctx_txid = _, ctx_status = _, ctx_fee = _, ctx_vin = _, ctx_vout = _\<rparr>"]
        vouts_def[where tx = "\<lparr>ctx_txid = _, ctx_status = _, ctx_fee = _, ctx_vin = _, ctx_vout = _\<rparr>"]
        comp_def vin_address_def)
  ultimately show ?thesis by (simp add: serializePendingTxs_def)
qed

definition demo_tx :: "txid \<Rightarrow> address \<Rightarrow> int \<Rightarrow> address \<Rightarrow> int \<Rightarrow> chain_tx" where
  "demo_tx t from v to w = \<lparr>ctx_txid = t, ctx_status = Some \<lparr>block_height = Some 7, block_time = Some 9\<rparr>,
     ctx_fee = Some (v - w),
     ctx_vin = Some [\<lparr>vin_txid = Some ''p'', vin_vout = Some 0,
        prevout_of = Some \<lparr>prev_address = Some from, prev_value = Some v\<rparr>, is_coinbase = None\<rparr>],
     ctx_vout = Some [\<lparr>out_address = Some to, out_value = Some w, out_type = None, out_asm = None,
        out_script = None\<rparr>]\<rparr>"

definition demo_pending :: "pending_tx list" where
  "demo_pending = classifyPageTxs
     [demo_tx ''t1'' ''victim'' 500000 ''h'' 499000, demo_tx ''t2'' ''h'' 800000 ''d'' 790000] ''h''"

theorem pending_payload_roundtrip_witness:
  "snd (readPendingRuntime (writePendingPayload demo_pending 1 (Some default_config) @ [])) = 1 \<and>
   map isSpend (fst (readPendingRuntime (writePendingPayload demo_pending 1 (Some default_config) @ [])))
     = [Some False, Some True]"
proof -
  have "length demo_pending = 2" and "map isSpend demo_pending = [Some False, Some True]" by code_simp+
  then show ?thesis
    using pending_payload_roundtrip[of 1 demo_pending default_config "[]"] by auto
qed

section \<open>Nothing wanted is skipped\<close>

text \<open>
  For a page entry classified for the address, the provider call is never saved on a transaction
  that matters: a spend of at least \<open>minExpandSats\<close> is not skipped, and neither is a hop-0 receive
  of at least \<open>minVictimIngestSats\<close> within the output limit when receives are traced and the
  address is not a sweep relay. A receive beyond hop 0, or by a sweep relay, is always skipped.
\<close>

lemma shouldSkipGetTx_keeps_wanted:
  assumes "vins tx \<noteq> []" and "so_pageEntry op = Some tx" and "a \<noteq> []"
    and "so_traceHackerReceives op = Some (traceFlaggedHackerReceives cfg)"
  shows "(txInvolvesSpendFromPage tx a \<and> minExpandSats cfg \<le> pageSpendSats tx a \<longrightarrow>
            \<not> shouldSkipGetTx (classifyPageTx tx a) a cfg op) \<and>
         (\<not> txInvolvesSpendFromPage tx a \<and> so_hop op = Some 0 \<and> so_expandProfile op \<noteq> Some ''sweep_relay'' \<and>
            traceFlaggedHackerReceives cfg \<and> txVoutCount tx \<le> maxVoutCountSkipGetTx cfg \<and>
            minVictimIngestSats cfg \<le> pageReceiveSats tx a \<longrightarrow>
            \<not> shouldSkipGetTx (classifyPageTx tx a) a cfg op) \<and>
         (\<not> txInvolvesSpendFromPage tx a \<and>
            (so_expandProfile op = Some ''sweep_relay'' \<or> (\<exists>h>0. so_hop op = Some h)) \<longrightarrow>
            shouldSkipGetTx (classifyPageTx tx a) a cfg op)"
  using assms
  by (auto simp: shouldSkipGetTx_def shouldTraceHackerReceive_def Let_def classifyPageTx_def
      trace_vout_count_def isSubFloorSpendFromPage_def isSubFloorReceiveFromPage_def truthy_def
      split: option.splits list.splits)

lemma shouldSkipGetTx_keeps_wanted_witness:
  "\<not> shouldSkipGetTx (classifyPageTx (demo_tx ''t2'' ''h'' 800000 ''d'' 790000) ''h'') ''h'' default_config
      \<lparr>so_expandProfile = None, so_pageEntry = Some (demo_tx ''t2'' ''h'' 800000 ''d'' 790000),
       so_hop = Some 0, so_traceHackerReceives = Some (traceFlaggedHackerReceives default_config),
       so_address = None\<rparr>"
proof -
  let ?tx = "demo_tx ''t2'' ''h'' 800000 ''d'' 790000"
  have "vins ?tx \<noteq> []" and "txInvolvesSpendFromPage ?tx ''h''"
    and "minExpandSats default_config \<le> pageSpendSats ?tx ''h''" by code_simp+
  then show ?thesis
    by (intro shouldSkipGetTx_keeps_wanted[THEN conjunct1, rule_format]) simp_all
qed

end
