(* ===== verification/JobPolicy.thy ===== *)
theory JobPolicy
  imports JobReach PendingPayload
begin

text \<open>
  How a tick decides what to work on: job classes (\<open>jobClass.ts\<close>), the weight of a job and the pick
  among ingest candidates (\<open>jobWeight.ts\<close>), the age boost (\<open>jobAge.ts\<close>), the number of jobs per tick
  (\<open>tickPolicy.ts\<close>), the budgets (\<open>subrequestBudget.ts\<close>, \<open>chainCallBudget.ts\<close>) and the priority of
  an expand job (\<open>expandPriority.ts\<close>), all under \<open>packages/core/src/indexer/\<close>.
\<close>

section \<open>Job classes\<close>

datatype job_class = Ingest | Maint | Cosmetic

definition MAINT_TYPES :: "job_type list" where
  "MAINT_TYPES = [Poll_hacker_address, Poll_downstream_address, Sync_coldcardwatch,
     Sync_vercel_trackers, Sync_bitquery_coldcard, Process_tx]"

definition COSMETIC_TYPES :: "job_type list" where
  "COSMETIC_TYPES = [Refresh_live_balance, Refresh_btc_usd_price, Backfill_op_return]"

definition BACKFILL_DEDUPE_TYPES :: "job_type list" where
  "BACKFILL_DEDUPE_TYPES = [Backfill_hacker_address, Audit_hacker_backfill]"

definition isIngestJobType :: "job_type \<Rightarrow> bool" where
  "isIngestJobType ty = (ty \<in> set INGEST_JOB_TYPES)"

definition jobClassForType :: "job_type \<Rightarrow> job_class" where
  "jobClassForType ty =
     (if isIngestJobType ty then Ingest else if ty \<in> set COSMETIC_TYPES then Cosmetic else Maint)"

definition jobNeedsHackersSet :: "job_type \<Rightarrow> bool" where
  "jobNeedsHackersSet ty = (isIngestJobType ty \<or> ty = Poll_hacker_address \<or>
     ty = Poll_downstream_address \<or> ty = Process_tx)"

definition isMaintCosmeticJobType :: "job_type \<Rightarrow> bool" where
  "isMaintCosmeticJobType ty = (ty \<in> set MAINT_TYPES \<or> ty \<in> set COSMETIC_TYPES)"

section \<open>Weight of a job\<close>

definition parseJobPayload :: "payload option \<Rightarrow> payload" where
  "parseJobPayload raw = (case raw of Some p \<Rightarrow> p | None \<Rightarrow> [])"

definition pendingLength :: "payload \<Rightarrow> int" where
  "pendingLength p = int (length (parsePendingTxs p))"

definition num_or_0 :: "json option \<Rightarrow> int" where
  "num_or_0 v = (case as_num v of Some n \<Rightarrow> n | None \<Rightarrow> 0)"

text \<open>\<open>Math.ceil(a / b)\<close> for \<open>b > 0\<close>.\<close>

definition ceil_div :: "int \<Rightarrow> int \<Rightarrow> int" where
  "ceil_div a b = - ((- a) div b)"

definition jobNeedsChainCallAtStart :: "job_type \<Rightarrow> payload \<Rightarrow> config option \<Rightarrow> bool" where
  "jobNeedsChainCallAtStart ty p cfg =
     (if ty = Poll_hacker_address \<or> ty = Poll_downstream_address then True
      else if ty = Audit_hacker_backfill then True
      else if ty = Refresh_live_balance \<or> ty = Refresh_btc_usd_price then True
      else if ty = Backfill_op_return then True
      else if \<not> isIngestJobType ty then False
      else if num_or_0 (jget p ''processedIndex'') < pendingLength p then False
      else if is_true (jget p ''pagesExhausted'') then False
      else if ty = Expand_downstream \<and>
              (case cfg of
                 Some c \<Rightarrow> num_or_0 (jget p ''pagesFetched'') \<ge> max 1 (ceil_div (backfillMaxTxs c) 25)
               | None \<Rightarrow> False) then False
      else True)"

definition estimateJobSubreq :: "job_type \<Rightarrow> payload \<Rightarrow> config \<Rightarrow> int" where
  "estimateJobSubreq ty p cfg =
     (if \<not> jobNeedsChainCallAtStart ty p (Some cfg) then backfillTxsPerJob cfg * 3
      else 8 + backfillTxsPerJob cfg * 4)"

text \<open>\<open>None\<close> is \<open>POSITIVE_INFINITY\<close>.\<close>

definition heavySubreqThreshold :: "config \<Rightarrow> int option" where
  "heavySubreqThreshold cfg =
     (if maxSubrequestsPerJob cfg > 0 then Some (maxSubrequestsPerJob cfg)
      else if subrequestLimitPerInvocation cfg > 0
           then Some (max 1 ((subrequestLimitPerInvocation cfg - scheduleSubrequestReserve cfg) div 2))
      else None)"

datatype job_weight = Heavy | Light

definition jobWeightTier :: "job_type \<Rightarrow> payload \<Rightarrow> config \<Rightarrow> job_weight" where
  "jobWeightTier ty p cfg =
     (if is_true (jget p ''traceEdgesPending'') then Heavy
      else if jobNeedsChainCallAtStart ty p (Some cfg) then Heavy
      else if (case heavySubreqThreshold cfg of
                 Some m \<Rightarrow> estimateJobSubreq ty p cfg > m | None \<Rightarrow> False) then Heavy
      else Light)"

datatype job_phase = Phase_process | Phase_fetch | Phase_poll | Phase_audit | Phase_sync | Phase_other

definition jobWorkPhase :: "job_type \<Rightarrow> payload \<Rightarrow> config option \<Rightarrow> job_phase" where
  "jobWorkPhase ty p cfg =
     (if ty = Poll_hacker_address \<or> ty = Poll_downstream_address then Phase_poll
      else if ty = Audit_hacker_backfill then Phase_audit
      else if ty = Sync_coldcardwatch \<or> ty = Sync_vercel_trackers \<or> ty = Sync_bitquery_coldcard
           then Phase_sync
      else if isIngestJobType ty
           then (if jobNeedsChainCallAtStart ty p cfg then Phase_fetch else Phase_process)
      else Phase_other)"

section \<open>The pick among ingest candidates\<close>

record pick_opts =
  preferContinuation :: bool
  requireNoChainAtStart :: bool
  preferProcessOnly :: bool
  excludeIds :: "int list"
  maxEstimatedSubreq :: "int option"

definition needs_chain :: "config \<Rightarrow> job \<Rightarrow> bool" where
  "needs_chain cfg j =
     jobNeedsChainCallAtStart (job_kind j) (parseJobPayload (payloadJson j)) (Some cfg)"

definition job_estimate :: "config \<Rightarrow> job \<Rightarrow> int" where
  "job_estimate cfg j = estimateJobSubreq (job_kind j) (parseJobPayload (payloadJson j)) cfg"

definition pick_pool :: "job list \<Rightarrow> config \<Rightarrow> pick_opts \<Rightarrow> job list" where
  "pick_pool cands cfg op =
     (let p0 = filter (\<lambda>j. job_id j \<notin> set (excludeIds op)) cands;
          p1 = (if requireNoChainAtStart op then filter (\<lambda>j. \<not> needs_chain cfg j) p0 else p0)
      in case maxEstimatedSubreq op of
           Some m \<Rightarrow> filter (\<lambda>j. job_estimate cfg j \<le> m) p1
         | None \<Rightarrow> p1)"

definition pickIngestCandidate :: "job list \<Rightarrow> config \<Rightarrow> pick_opts \<Rightarrow> job option" where
  "pickIngestCandidate cands cfg op =
     (let pool0 = pick_pool cands cfg op
      in if pool0 = [] then None
         else
           let po = filter (\<lambda>j. \<not> needs_chain cfg j) pool0;
               pool = (if preferProcessOnly op \<and> po \<noteq> [] then po else pool0);
               pick0 = hd pool;
               pick1 = (if preferContinuation op
                        then (case List.find (\<lambda>j. isIngestContinuation (payloadJson j) \<and> reclaimCount j = 0) pool of
                                Some j \<Rightarrow> j | None \<Rightarrow> pick0)
                        else pick0)
           in Some (if reclaimCount pick1 > 0 \<and> isIngestContinuation (payloadJson pick1)
                    then (case List.find (\<lambda>j. reclaimCount j = 0) pool of Some j \<Rightarrow> j | None \<Rightarrow> pick1)
                    else pick1))"

section \<open>Age boost\<close>

definition jobRunnableAtMs :: "job \<Rightarrow> time" where
  "jobRunnableAtMs j = max (createdAt j) (runAfter j)"

definition jobWaitMs :: "job \<Rightarrow> time \<Rightarrow> int" where
  "jobWaitMs j now = (if jobRunnableAtMs j \<le> 0 then 0 else max 0 (now - jobRunnableAtMs j))"

definition ageBoostForJob :: "job \<Rightarrow> config \<Rightarrow> time \<Rightarrow> int" where
  "ageBoostForJob j cfg now =
     (if \<not> ageBoostEnabled cfg \<or> \<not> isMaintCosmeticJobType (job_kind j) then 0
      else let intervalMs = ageBoostIntervalSec cfg * 1000
           in if intervalMs \<le> 0 then 0
              else min (ageBoostMax cfg) (jobWaitMs j now div intervalMs))"

definition effectiveJobPriority :: "job \<Rightarrow> config \<Rightarrow> time \<Rightarrow> int" where
  "effectiveJobPriority j cfg now = priority j + ageBoostForJob j cfg now"

definition toClaimAgeBoost :: "config \<Rightarrow> claim_age_boost" where
  "toClaimAgeBoost cfg = \<lparr>boost_enabled = ageBoostEnabled cfg, intervalSec = ageBoostIntervalSec cfg,
     maxBoost = ageBoostMax cfg, eligibleTypes = MAINT_TYPES @ COSMETIC_TYPES\<rparr>"

section \<open>Budgets\<close>

text \<open>\<open>createSubrequestBudget\<close>: the closure's \<open>cap\<close> and \<open>used\<close>.\<close>

record budget =
  b_cap :: int
  b_used :: int

definition createSubrequestBudget :: "int \<Rightarrow> budget" where
  "createSubrequestBudget limit = \<lparr>b_cap = max 0 limit, b_used = 0\<rparr>"

definition canConsume :: "int \<Rightarrow> budget \<Rightarrow> bool" where
  "canConsume n b = (if b_cap b \<le> 0 then True else b_used b + max 0 n \<le> b_cap b)"

definition consume :: "int \<Rightarrow> budget \<Rightarrow> budget" where
  "consume n b = (if b_cap b \<le> 0 then b else b\<lparr>b_used := b_used b + max 0 n\<rparr>)"

text \<open>\<open>None\<close> is \<open>POSITIVE_INFINITY\<close>.\<close>

definition remaining :: "budget \<Rightarrow> int option" where
  "remaining b = (if b_cap b \<le> 0 then None else Some (max 0 (b_cap b - b_used b)))"

definition exhausted :: "budget \<Rightarrow> bool" where
  "exhausted b = (if b_cap b \<le> 0 then False else b_used b \<ge> b_cap b)"

definition scheduleSubrequestReserveFor :: "config \<Rightarrow> int \<Rightarrow> int" where
  "scheduleSubrequestReserveFor cfg maintenanceCounter =
     scheduleSubrequestReserve cfg +
     (if hackerMaintenanceEveryNCrons cfg > 0 \<and>
         maintenanceCounter mod hackerMaintenanceEveryNCrons cfg = 0
      then scheduleReserveMaintExtra cfg else 0)"

text \<open>\<open>createJobSubrequestBudget\<close>: the cap of one job within the tick's budget.\<close>

record job_budget =
  jb_cap :: int
  jb_start :: int

definition job_unlimited :: "job_budget \<Rightarrow> budget option \<Rightarrow> bool" where
  "job_unlimited jb tb = (jb_cap jb \<le> 0 \<or> (case tb of None \<Rightarrow> True | Some b \<Rightarrow> b_cap b \<le> 0))"

definition job_canUse :: "int \<Rightarrow> job_budget \<Rightarrow> budget option \<Rightarrow> bool" where
  "job_canUse n jb tb =
     (if job_unlimited jb tb then True
      else (case tb of Some b \<Rightarrow> b_used b - jb_start jb + max 0 n \<le> jb_cap jb | None \<Rightarrow> True))"

definition job_exhausted :: "job_budget \<Rightarrow> budget option \<Rightarrow> bool" where
  "job_exhausted jb tb =
     (if job_unlimited jb tb then False
      else (case tb of Some b \<Rightarrow> b_used b - jb_start jb \<ge> jb_cap jb | None \<Rightarrow> False))"

text \<open>\<open>createChainCallBudget\<close>: \<open>max = 0\<close> is unlimited.\<close>

record chain_budget =
  cb_max :: int
  cb_used :: int

definition canCall :: "chain_budget \<Rightarrow> bool" where
  "canCall b = (cb_max b \<le> 0 \<or> cb_used b < cb_max b)"

definition consumeCall :: "chain_budget \<Rightarrow> chain_budget" where
  "consumeCall b = (if cb_max b \<le> 0 then b else b\<lparr>cb_used := cb_used b + 1\<rparr>)"

definition chain_exhausted :: "chain_budget \<Rightarrow> bool" where
  "chain_exhausted b = (\<not> cb_max b \<le> 0 \<and> cb_used b \<ge> cb_max b)"

definition processBatchLimit :: "int \<Rightarrow> chain_budget \<Rightarrow> int" where
  "processBatchLimit fallback b =
     (if cb_max b \<le> 0 then fallback else min fallback (max 0 (cb_max b - cb_used b)))"

section \<open>Jobs per tick\<close>

definition shouldDrainBeforeSchedule :: "bool \<Rightarrow> int \<Rightarrow> int \<Rightarrow> bool" where
  "shouldDrainBeforeSchedule continuationPending queueDepth drainFirstDepth =
     (if continuationPending then True else queueDepth \<ge> drainFirstDepth)"

definition effectiveJobsPerTick :: "config \<Rightarrow> int \<Rightarrow> int" where
  "effectiveJobsPerTick cfg queueDepth =
     (let base = jobsPerTick cfg;
          mx = max base (jobsPerTickMax cfg);
          step = max 1 (queueDepthPerExtraJob cfg);
          extra = max 0 (queueDepth - 1) div step
      in min mx (base + extra))"

datatype cap_reason = Heavy_head | Pair_light | No_pair

record tick_plan =
  jobsCap :: int
  plan_reason :: cap_reason
  headWeight :: "job_weight option"
  pairableCount :: int

definition pairable :: "config \<Rightarrow> int option \<Rightarrow> job \<Rightarrow> bool" where
  "pairable cfg maxEst j =
     (jobWeightTier (job_kind j) (parseJobPayload (payloadJson j)) cfg = Light \<and>
      \<not> needs_chain cfg j \<and>
      (case maxEst of Some m \<Rightarrow> \<not> job_estimate cfg j > m | None \<Rightarrow> True))"

definition countPairableLightCandidates :: "job list \<Rightarrow> config \<Rightarrow> int option \<Rightarrow> int" where
  "countPairableLightCandidates cands cfg maxEst = int (length (filter (pairable cfg maxEst) cands))"

definition max_estimate :: "config \<Rightarrow> budget option \<Rightarrow> int option" where
  "max_estimate cfg b =
     (case b of
        Some x \<Rightarrow> (if b_cap x > 0
                   then map_option (\<lambda>r. r - scheduleSubrequestReserve cfg - 2) (remaining x) else None)
      | None \<Rightarrow> None)"

definition planTickJobs :: "config \<Rightarrow> int \<Rightarrow> job list \<Rightarrow> budget option \<Rightarrow> tick_plan" where
  "planTickJobs cfg queueDepth cands b =
     (let configuredMax = effectiveJobsPerTick cfg queueDepth;
          n = countPairableLightCandidates cands cfg (max_estimate cfg b)
      in case pickIngestCandidate cands cfg \<lparr>preferContinuation = True, requireNoChainAtStart = False,
                preferProcessOnly = False, excludeIds = [], maxEstimatedSubreq = None\<rparr> of
           None \<Rightarrow> \<lparr>jobsCap = configuredMax, plan_reason = No_pair, headWeight = None, pairableCount = n\<rparr>
         | Some head \<Rightarrow>
             let w = jobWeightTier (job_kind head) (parseJobPayload (payloadJson head)) cfg
             in if w = Heavy
                then \<lparr>jobsCap = 1, plan_reason = Heavy_head, headWeight = Some w, pairableCount = n\<rparr>
                else if configuredMax > 1 \<and> n \<ge> 2
                then \<lparr>jobsCap = min (if subrequestLimitPerInvocation cfg \<le> 0 then configuredMax
                                    else min 2 configuredMax) n,
                      plan_reason = Pair_light, headWeight = Some w, pairableCount = n\<rparr>
                else \<lparr>jobsCap = 1, plan_reason = No_pair, headWeight = Some w, pairableCount = n\<rparr>)"

section \<open>Priority of an expand job\<close>

text \<open>\<open>(ops, opsPriority)\<close>.\<close>

definition expandOpsFields :: "payload \<Rightarrow> bool \<times> int option" where
  "expandOpsFields p =
     (if \<not> is_true (jget p ''ops'') then (False, None)
      else (case as_num (jget p ''opsPriority'') of
              Some n \<Rightarrow> if n < 1 then (True, None) else (True, Some n)
            | None \<Rightarrow> (True, None)))"

definition resolveExpandJobPriority :: "payload \<Rightarrow> int" where
  "resolveExpandJobPriority p =
     (case snd (expandOpsFields p) of Some n \<Rightarrow> n | None \<Rightarrow> CRON_EXPAND)"

section \<open>What the pick guarantees\<close>

lemma find_in: "List.find P xs = Some x \<Longrightarrow> x \<in> set xs \<and> P x"
  by (auto simp: find_Some_iff)

lemma pickIngestCandidate_None: "pickIngestCandidate cands cfg op = None \<longleftrightarrow> pick_pool cands cfg op = []"
  by (simp add: pickIngestCandidate_def Let_def)

lemma pickIngestCandidate_pool:
  assumes "pickIngestCandidate cands cfg op = Some j"
  shows "j \<in> set (pick_pool cands cfg op)"
    and "preferProcessOnly op \<Longrightarrow> (\<exists>x\<in>set (pick_pool cands cfg op). \<not> needs_chain cfg x) \<Longrightarrow> \<not> needs_chain cfg j"
    and "\<not> preferProcessOnly op \<Longrightarrow> 0 < reclaimCount j \<Longrightarrow> isIngestContinuation (payloadJson j) \<Longrightarrow>
           x \<in> set (pick_pool cands cfg op) \<Longrightarrow> reclaimCount x \<noteq> 0"
proof -
  define pool0 where "pool0 = pick_pool cands cfg op"
  define po where "po = filter (\<lambda>j. \<not> needs_chain cfg j) pool0"
  define pool where "pool = (if preferProcessOnly op \<and> po \<noteq> [] then po else pool0)"
  define pick1 where "pick1 = (if preferContinuation op
      then (case List.find (\<lambda>j. isIngestContinuation (payloadJson j) \<and> reclaimCount j = 0) pool of
              Some j \<Rightarrow> j | None \<Rightarrow> hd pool) else hd pool)"
  have ne: "pool0 \<noteq> []" using assms pickIngestCandidate_None[of cands cfg op] by (auto simp: pool0_def)
  have j: "j = (if reclaimCount pick1 > 0 \<and> isIngestContinuation (payloadJson pick1)
      then (case List.find (\<lambda>j. reclaimCount j = 0) pool of Some j \<Rightarrow> j | None \<Rightarrow> pick1) else pick1)"
    using assms ne unfolding pickIngestCandidate_def Let_def pool0_def[symmetric] po_def[symmetric]
      pool_def[symmetric] pick1_def[symmetric] by simp
  have pne: "pool \<noteq> []" using ne by (simp add: pool_def)
  have p1: "pick1 \<in> set pool"
    using pne by (auto simp: pick1_def dest: find_in split: option.splits)
  have jp: "j \<in> set pool" using p1 by (auto simp: j dest: find_in split: option.splits)
  show "j \<in> set (pick_pool cands cfg op)"
    using jp by (auto simp: pool_def po_def pool0_def[symmetric] split: if_splits)
  show "\<not> needs_chain cfg j" if "preferProcessOnly op" "\<exists>x\<in>set (pick_pool cands cfg op). \<not> needs_chain cfg x"
  proof -
    have "po \<noteq> []" using that(2) by (auto simp: po_def pool0_def filter_empty_conv)
    then show ?thesis using jp that(1) by (auto simp: pool_def po_def)
  qed
  show "reclaimCount x \<noteq> 0" if "\<not> preferProcessOnly op" "0 < reclaimCount j"
      "isIngestContinuation (payloadJson j)" "x \<in> set (pick_pool cands cfg op)"
  proof
    assume "reclaimCount x = 0"
    then have "List.find (\<lambda>j. reclaimCount j = 0) pool \<noteq> None"
      using that(1,4) by (auto simp: find_None_iff pool_def pool0_def)
    then obtain y where "List.find (\<lambda>j. reclaimCount j = 0) pool = Some y" by auto
    moreover from this have "reclaimCount y = 0" by (auto dest: find_in)
    ultimately show False using that(2,3) by (auto simp: j split: if_splits)
  qed
qed

text \<open>
  The pick returns nothing exactly when no candidate passes the filters. A picked candidate is
  not excluded, fits the subrequest estimate and, when required, starts without a provider call;
  with \<open>preferProcessOnly\<close> it starts without one whenever some eligible candidate does. A
  continuation that was already reclaimed is picked only when every eligible candidate has been.
\<close>

lemma pickIngestCandidate_spec:
  assumes "pickIngestCandidate cands cfg op = Some j"
  shows "j \<in> set cands \<and> job_id j \<notin> set (excludeIds op) \<and>
    (requireNoChainAtStart op \<longrightarrow> \<not> needs_chain cfg j) \<and>
    (\<forall>m. maxEstimatedSubreq op = Some m \<longrightarrow> job_estimate cfg j \<le> m) \<and>
    (preferProcessOnly op \<longrightarrow> needs_chain cfg j \<longrightarrow>
       (\<forall>x\<in>set (pick_pool cands cfg op). needs_chain cfg x)) \<and>
    (\<not> preferProcessOnly op \<longrightarrow> 0 < reclaimCount j \<longrightarrow> isIngestContinuation (payloadJson j) \<longrightarrow>
       (\<forall>x\<in>set (pick_pool cands cfg op). reclaimCount x \<noteq> 0))"
  using pickIngestCandidate_pool[OF assms]
  by (auto simp: pick_pool_def Let_def split: if_splits option.splits)

definition demo_cands :: "job list" where
  "demo_cands = [(new_job 1 Expand_downstream [(''chainCursor'', JStr ''x'')] 5 0 0)\<lparr>reclaimCount := 1\<rparr>,
     new_job 2 Expand_downstream [] 5 0 0]"

lemma pickIngestCandidate_spec_witness:
  "\<exists>j. pickIngestCandidate demo_cands default_config \<lparr>preferContinuation = True, requireNoChainAtStart = False,
      preferProcessOnly = False, excludeIds = [], maxEstimatedSubreq = None\<rparr> = Some j \<and>
    job_id j = 2 \<and> j \<in> set demo_cands"
proof -
  have "map_option job_id (pickIngestCandidate demo_cands default_config
      \<lparr>preferContinuation = True, requireNoChainAtStart = False,
      preferProcessOnly = False, excludeIds = [], maxEstimatedSubreq = None\<rparr>) = Some 2" by code_simp
  then obtain j where "pickIngestCandidate demo_cands default_config
      \<lparr>preferContinuation = True, requireNoChainAtStart = False,
      preferProcessOnly = False, excludeIds = [], maxEstimatedSubreq = None\<rparr> = Some j" "job_id j = 2" by auto
  then show ?thesis using pickIngestCandidate_spec by blast
qed

section \<open>Jobs per tick\<close>

lemma effectiveJobsPerTick_bounds:
  "jobsPerTick cfg \<le> effectiveJobsPerTick cfg q" "effectiveJobsPerTick cfg q \<le> max (jobsPerTick cfg) (jobsPerTickMax cfg)"
proof -
  have "0 \<le> max 0 (q - 1) div max 1 (queueDepthPerExtraJob cfg)"
    by (simp add: pos_imp_zdiv_nonneg_iff)
  then show "jobsPerTick cfg \<le> effectiveJobsPerTick cfg q"
    by (simp add: effectiveJobsPerTick_def Let_def)
  show "effectiveJobsPerTick cfg q \<le> max (jobsPerTick cfg) (jobsPerTickMax cfg)"
    by (simp add: effectiveJobsPerTick_def Let_def)
qed

text \<open>
  The plan of a tick allows at least one job and at most the configured burst; a heavy job at
  the head runs alone; more than one ingest job is planned only when at least two light candidates
  exist that need no provider call, and then no more jobs than such candidates, and at most two
  under a subrequest limit.
\<close>

lemma planTickJobs_bounds:
  assumes "1 \<le> jobsPerTick cfg"
  shows "1 \<le> jobsCap (planTickJobs cfg q cands b) \<and>
    jobsCap (planTickJobs cfg q cands b) \<le> max (jobsPerTick cfg) (jobsPerTickMax cfg) \<and>
    (headWeight (planTickJobs cfg q cands b) = Some Heavy \<longrightarrow> jobsCap (planTickJobs cfg q cands b) = 1) \<and>
    (headWeight (planTickJobs cfg q cands b) \<noteq> None \<longrightarrow> 1 < jobsCap (planTickJobs cfg q cands b) \<longrightarrow>
       jobsCap (planTickJobs cfg q cands b)
         \<le> int (length (filter (pairable cfg (max_estimate cfg b)) cands)) \<and>
       (0 < subrequestLimitPerInvocation cfg \<longrightarrow> jobsCap (planTickJobs cfg q cands b) \<le> 2))"
  using effectiveJobsPerTick_bounds[of cfg q] assms
  by (auto simp: planTickJobs_def Let_def countPairableLightCandidates_def split: option.splits)

lemma planTickJobs_bounds_witness:
  "jobsCap (planTickJobs default_config 200 demo_cands None) = 1"
proof -
  have "headWeight (planTickJobs default_config 200 demo_cands None) = Some Heavy"
    and "1 \<le> jobsPerTick default_config" by code_simp+
  then show ?thesis using planTickJobs_bounds[of default_config 200 demo_cands None] by blast
qed

end
