(* ===== verification/ChainRouter.thy ===== *)
theory ChainRouter
  imports Counters Config
begin

text \<open>
  The router over the two chain providers (\<open>packages/core/src/chain/router.ts\<close>, \<open>backoff.ts\<close>) and
  the provider columns of the scheduler row (\<open>store.ts\<close>: \<open>ensureApiThresholdDay\<close>,
  \<open>recordApiThreshold\<close>, \<open>clearProviderStrike\<close>, the backoff queries).

  The providers are outside: a call is a parameter \<open>net\<close> that says, for the provider called, what
  comes back. \<open>withProvider\<close> also returns the providers it called, in order, so that the properties
  can speak of the calls themselves.
\<close>

section \<open>Backoff of a provider\<close>

definition providerBackoffSec :: "int \<Rightarrow> int \<Rightarrow> int \<Rightarrow> int option \<Rightarrow> int" where
  "providerBackoffSec strikes baseSec maxSec retryAfterSec =
     (let n = max 1 strikes;
          exponential = min maxSec (baseSec * 2 ^ nat (n - 1));
          fromHeader = (case retryAfterSec of Some h \<Rightarrow> max 0 h | None \<Rightarrow> 0)
      in max fromHeader exponential)"

definition providerRetryAfterAt :: "sched \<Rightarrow> provider \<Rightarrow> time option" where
  "providerRetryAfterAt st p =
     (case p of Esplora \<Rightarrow> esploraRetryAfterAt st | Mempool \<Rightarrow> mempoolRetryAfterAt st)"

definition getProviderStrikeCount :: "sched \<Rightarrow> provider \<Rightarrow> int" where
  "getProviderStrikeCount st p =
     (case p of Esplora \<Rightarrow> esploraStrikeCount st | Mempool \<Rightarrow> mempoolStrikeCount st)"

text \<open>\<open>Math.max(0, Math.ceil(ms / 1000))\<close>.\<close>

definition retryAfterSecondsLeft :: "time \<Rightarrow> time option \<Rightarrow> int" where
  "retryAfterSecondsLeft now at = (case at of None \<Rightarrow> 0 | Some t \<Rightarrow> max 0 (- ((now - t) div 1000)))"

definition isProviderInBackoff :: "time \<Rightarrow> sched \<Rightarrow> provider \<Rightarrow> bool" where
  "isProviderInBackoff now st p = (retryAfterSecondsLeft now (providerRetryAfterAt st p) > 0)"

definition hasAvailableChainProvider :: "time \<Rightarrow> sched \<Rightarrow> bool" where
  "hasAvailableChainProvider now st =
     (\<not> isProviderInBackoff now st Esplora \<or> \<not> isProviderInBackoff now st Mempool)"

definition opt_list :: "'a option \<Rightarrow> 'a list" where
  "opt_list v = (case v of Some x \<Rightarrow> [x] | None \<Rightarrow> [])"

definition earliestProviderRetryAt :: "store \<Rightarrow> time option" where
  "earliestProviderRetryAt s =
     (let cands = opt_list (providerRetryAfterAt (sched s) Esplora) @
                  opt_list (providerRetryAfterAt (sched s) Mempool);
          future = filter (\<lambda>t. t > clock s) cands
      in case future of [] \<Rightarrow> None | t # ts \<Rightarrow> Some (foldl (\<lambda>a b. if a < b then a else b) t ts))"

definition MS_PER_DAY :: int where
  "MS_PER_DAY = 24 * 60 * 60 * 1000"

definition todayUtcDate :: "time \<Rightarrow> int" where
  "todayUtcDate now = now div MS_PER_DAY"

definition ensureApiThresholdDay :: "store \<Rightarrow> store" where
  "ensureApiThresholdDay s =
     (let today = todayUtcDate (clock s)
      in if apiThresholdDayUtc (sched s) = Some today then s
         else updateSchedulerState (\<lambda>r. r\<lparr>apiThresholdDayUtc := Some today, apiThresholdCount := 0,
                esploraThresholdCount := 0, mempoolThresholdCount := 0\<rparr>) s)"

definition recordApiThreshold :: "provider \<Rightarrow> time \<Rightarrow> int \<Rightarrow> store \<Rightarrow> store" where
  "recordApiThreshold p retryAt strikes s =
     (let s1 = ensureApiThresholdDay s; st = sched s1; ts = clock s
      in case p of
           Esplora \<Rightarrow> updateSchedulerState (\<lambda>r. r\<lparr>lastApiThresholdAt := Some ts,
             apiThresholdCount := apiThresholdCount st + 1, lastEsploraThresholdAt := Some ts,
             esploraThresholdCount := esploraThresholdCount st + 1, esploraStrikeCount := strikes,
             esploraRetryAfterAt := Some retryAt\<rparr>) s1
         | Mempool \<Rightarrow> updateSchedulerState (\<lambda>r. r\<lparr>lastApiThresholdAt := Some ts,
             apiThresholdCount := apiThresholdCount st + 1, lastMempoolThresholdAt := Some ts,
             mempoolThresholdCount := mempoolThresholdCount st + 1, mempoolStrikeCount := strikes,
             mempoolRetryAfterAt := Some retryAt\<rparr>) s1)"

definition clearProviderStrike :: "provider \<Rightarrow> store \<Rightarrow> store" where
  "clearProviderStrike p =
     (case p of
        Esplora \<Rightarrow> updateSchedulerState (\<lambda>r. r\<lparr>esploraStrikeCount := 0, esploraRetryAfterAt := None\<rparr>)
      | Mempool \<Rightarrow> updateSchedulerState (\<lambda>r. r\<lparr>mempoolStrikeCount := 0, mempoolRetryAfterAt := None\<rparr>))"

section \<open>The router\<close>

record router =
  r_sleepOnRateLimit :: bool
  r_rateLimitMs :: int
  r_baseSec :: int
  r_maxSec :: int
  r_primary :: provider

datatype not_ready = Pacing | Provider_backoff

text \<open>What a provider answers, and what the router's caller sees.\<close>

datatype 'a answer = Answer 'a | Rate_limited "int option" | Failed string

datatype 'a routed =
    Routed 'a
  | Not_ready time not_ready
  | Rate_limit_error
  | Route_failed string

definition providers :: "provider list" where
  "providers = [Esplora, Mempool]"

definition provider_name :: "provider \<Rightarrow> string" where
  "provider_name p = (case p of Esplora \<Rightarrow> ''esplora'' | Mempool \<Rightarrow> ''mempool'')"

definition startIndex :: "router \<Rightarrow> string option \<Rightarrow> nat" where
  "startIndex rt lastUsed =
     (if lastUsed = Some ''esplora'' then 1
      else if lastUsed = Some ''mempool'' then 0
      else if r_primary rt = Mempool then 1 else 0)"

text \<open>\<open>Inl\<close>: the wait that may not be slept through; \<open>Inr\<close>: the state after the wait.\<close>

definition waitForRateLimit :: "router \<Rightarrow> store \<Rightarrow> time + store" where
  "waitForRateLimit rt s =
     (case nextProviderCallAt (sched s) of
        None \<Rightarrow> Inr s
      | Some at \<Rightarrow>
          if max 0 (at - clock s) \<le> 0 then Inr s
          else if \<not> r_sleepOnRateLimit rt then Inl at
          else Inr (s\<lparr>clock := at\<rparr>))"

definition orderedProviders :: "router \<Rightarrow> time \<Rightarrow> sched \<Rightarrow> provider list" where
  "orderedProviders rt now st =
     (let available = filter (\<lambda>p. \<not> isProviderInBackoff now st p) providers
      in if length available \<le> 1 then available
         else let start = startIndex rt (lastProviderUsed st)
              in filter (\<lambda>p. p \<in> set available)
                   (map (\<lambda>i. providers ! ((start + i) mod length providers)) [0..<length providers]))"

definition markCalled :: "router \<Rightarrow> provider \<Rightarrow> bool \<Rightarrow> store \<Rightarrow> store" where
  "markCalled rt p success s =
     updateSchedulerState (\<lambda>r. r\<lparr>nextProviderCallAt := Some (clock s + r_rateLimitMs rt),
       lastProviderUsed := Some (provider_name p), rateLimitMs := r_rateLimitMs rt,
       lastProviderSuccessAt := (if success then Some (clock s) else lastProviderSuccessAt r)\<rparr>) s"

definition recordProviderRateLimit :: "router \<Rightarrow> sched \<Rightarrow> provider \<Rightarrow> int option \<Rightarrow> store \<Rightarrow> store" where
  "recordProviderRateLimit rt st p header s =
     (let strikes = getProviderStrikeCount st p + 1;
          backoffSec = providerBackoffSec strikes (r_baseSec rt) (r_maxSec rt) header
      in recordApiThreshold p (clock s + backoffSec * 1000) strikes s)"

text \<open>The loop over the providers in order, on the state read before each call.\<close>

fun try_providers ::
  "router \<Rightarrow> (provider \<Rightarrow> 'a answer) \<Rightarrow> provider list \<Rightarrow> provider option \<Rightarrow> store
   \<Rightarrow> 'a routed \<times> provider list \<times> store" where
  "try_providers rt net [] lastTried s =
     (case lastTried of
        Some p \<Rightarrow> (Rate_limit_error, [], markCalled rt p False s)
      | None \<Rightarrow> (Rate_limit_error, [], s))"
| "try_providers rt net (p # ps) lastTried s =
     (case net p of
        Answer x \<Rightarrow> (Routed x, [p], markCalled rt p True (clearProviderStrike p s))
      | Rate_limited h \<Rightarrow>
          (case try_providers rt net ps (Some p) (recordProviderRateLimit rt (sched s) p h s) of
             (r, called, s') \<Rightarrow> (r, p # called, s'))
      | Failed e \<Rightarrow> (Route_failed e, [p], markCalled rt p False s))"

definition withProvider ::
  "router \<Rightarrow> (provider \<Rightarrow> 'a answer) \<Rightarrow> store \<Rightarrow> 'a routed \<times> provider list \<times> store" where
  "withProvider rt net s =
     (case waitForRateLimit rt s of
        Inl at \<Rightarrow> (Not_ready at Pacing, [], s)
      | Inr s1 \<Rightarrow>
          (case orderedProviders rt (clock s1) (sched s1) of
             [] \<Rightarrow> (Not_ready (case earliestProviderRetryAt s1 of Some t \<Rightarrow> t | None \<Rightarrow> clock s1 + 60000)
                      Provider_backoff, [], s1)
           | ps \<Rightarrow> try_providers rt net ps None s1))"

definition router_of_config :: "config \<Rightarrow> bool \<Rightarrow> router" where
  "router_of_config cfg sleeps = \<lparr>r_sleepOnRateLimit = sleeps, r_rateLimitMs = cfg_rateLimitMs cfg,
     r_baseSec = apiThresholdBaseSec cfg, r_maxSec = apiThresholdMaxSec cfg,
     r_primary = chainPrimaryProvider cfg\<rparr>"

section \<open>Backoff bounds\<close>

lemma in_backoff_iff:
  "isProviderInBackoff now st p \<longleftrightarrow> (\<exists>t. providerRetryAfterAt st p = Some t \<and> now < t)"
proof -
  have "(max 0 (- ((now - t) div 1000)) > 0) = (now < t)" for t :: int
  proof -
    have "(- ((now - t) div 1000) > 0) = ((now - t) div 1000 < 0)" by simp
    also have "\<dots> = (now - t < 0)" by (simp add: pos_imp_zdiv_neg_iff)
    finally show ?thesis by auto
  qed
  then show ?thesis
    by (auto simp: isProviderInBackoff_def retryAfterSecondsLeft_def split: option.splits)
qed

lemma providerBackoffSec_ge:
  assumes "0 < base" and "base \<le> mx"
  shows "base \<le> providerBackoffSec k base mx h"
proof -
  have "(1::int) \<le> 2 ^ n" for n by simp
  then have "base \<le> base * 2 ^ n" for n using assms(1) by simp
  then show ?thesis
    using assms by (auto simp: providerBackoffSec_def Let_def le_max_iff_disj)
qed

text \<open>
  The backoff after a rate limit is at least what the provider's header asks for, never exceeds
  the larger of the header and the configured maximum, doubles with every strike below the maximum,
  and never shrinks as strikes accumulate.
\<close>

lemma providerBackoffSec_bounds:
  assumes "0 < base" and "base \<le> mx" and "1 \<le> k"
  shows "base \<le> providerBackoffSec k base mx h \<and>
         (case h of Some x \<Rightarrow> x \<le> providerBackoffSec k base mx h | None \<Rightarrow> True) \<and>
         providerBackoffSec k base mx h \<le> max mx (case h of Some x \<Rightarrow> x | None \<Rightarrow> 0) \<and>
         providerBackoffSec k base mx h \<le> providerBackoffSec (k + 1) base mx h \<and>
         (h = None \<and> base * 2 ^ nat k \<le> mx \<longrightarrow>
            providerBackoffSec (k + 1) base mx h = 2 * providerBackoffSec k base mx h)"
proof -
  define A f where "A = base * 2 ^ nat (k - 1)" and "f = (case h of Some x \<Rightarrow> max 0 x | None \<Rightarrow> 0)"
  have "(1::int) \<le> 2 ^ nat (k - 1)" by simp
  then have A: "base \<le> A" using assms(1) by (simp add: A_def)
  have "nat k = Suc (nat (k - 1))" using assms(3) by simp
  then have d: "base * 2 ^ nat k = 2 * A" by (simp add: A_def)
  have v: "providerBackoffSec k base mx h = max f (min mx A)"
    using assms(3) by (simp add: providerBackoffSec_def Let_def A_def f_def max_absorb2)
  have v': "providerBackoffSec (k + 1) base mx h = max f (min mx (2 * A))"
    using assms(3) by (simp add: providerBackoffSec_def Let_def f_def d)
  show ?thesis
    unfolding v v' d using A assms(1,2) by (cases h) (auto simp: f_def)
qed

lemma providerBackoffSec_bounds_witness:
  "providerBackoffSec 2 300 3600 None = 600 \<and> providerBackoffSec 3 300 3600 None = 2 * 600"
proof -
  have "providerBackoffSec 2 300 3600 None = 600" by code_simp
  then show ?thesis
    using providerBackoffSec_bounds[of 300 3600 2 None] by simp
qed

section \<open>Which providers are called\<close>

lemma providers_cases: "p = Esplora \<or> p = Mempool"
  by (cases p) auto

lemma orderedProviders_set:
  "set (orderedProviders rt now st) = {p. \<not> isProviderInBackoff now st p} \<and>
   distinct (orderedProviders rt now st)"
proof -
  have u: "[0..<length providers] = [0, 1]" by (simp add: providers_def)
  have "startIndex rt lu = 0 \<or> startIndex rt lu = 1" for lu by (simp add: startIndex_def)
  moreover have "providers ! (0 mod length providers) = Esplora" "providers ! (1 mod length providers) = Mempool"
    "providers ! ((1 + 0) mod length providers) = Mempool" "providers ! ((1 + 1) mod length providers) = Esplora"
    by (simp_all add: providers_def)
  ultimately have m: "map (\<lambda>i. providers ! ((startIndex rt lu + i) mod length providers)) [0..<length providers]
        \<in> {[Esplora, Mempool], [Mempool, Esplora]}" for lu
    unfolding u by (metis (no_types, lifting) insertCI list.simps(8,9) add.right_neutral add_0)
  define L where "L = map (\<lambda>i. providers ! ((startIndex rt (lastProviderUsed st) + i) mod length providers))
     [0..<length providers]"
  have L: "L = [Esplora, Mempool] \<or> L = [Mempool, Esplora]"
    using m[of "lastProviderUsed st"] by (simp add: L_def)
  have o: "orderedProviders rt now st =
      (let available = filter (\<lambda>p. \<not> isProviderInBackoff now st p) providers
       in if length available \<le> 1 then available else filter (\<lambda>p. p \<in> set available) L)"
    by (simp add: orderedProviders_def L_def Let_def)
  have "x \<in> set (orderedProviders rt now st) \<longleftrightarrow> \<not> isProviderInBackoff now st x" for x
    using L by (cases x) (auto simp: o Let_def providers_def)
  moreover have "distinct (orderedProviders rt now st)"
    using L by (auto simp: o Let_def providers_def)
  ultimately show ?thesis by auto
qed

lemma try_providers_called:
  assumes "try_providers rt net ps l s = (r, called, s')"
  shows "\<exists>n\<le>length ps. called = take n ps \<and>
     (r = Rate_limit_error \<longrightarrow> n = length ps \<and> (\<forall>p\<in>set ps. \<exists>h. net p = Rate_limited h)) \<and>
     (r \<noteq> Rate_limit_error \<longrightarrow> 0 < n \<and> (\<forall>p\<in>set (take (n - 1) ps). \<exists>h. net p = Rate_limited h) \<and>
        (case r of Routed x \<Rightarrow> net (ps ! (n - 1)) = Answer x
         | Route_failed e \<Rightarrow> net (ps ! (n - 1)) = Failed e | _ \<Rightarrow> False))"
  using assms
proof (induction rt net ps l s arbitrary: r called s' rule: try_providers.induct)
  case (1 rt net l s)
  then show ?case by (auto split: option.splits)
next
  case (2 rt net p ps l s)
  show ?case
  proof (cases "net p")
    case (Rate_limited h)
    obtain r1 c1 s1 where rec: "try_providers rt net ps (Some p) (recordProviderRateLimit rt (sched s) p h s) = (r1, c1, s1)"
      by (cases "try_providers rt net ps (Some p) (recordProviderRateLimit rt (sched s) p h s)") auto
    then have eq: "r = r1" "called = p # c1" using "2.prems" Rate_limited by auto
    obtain n where n: "n \<le> length ps" "c1 = take n ps"
      "r1 = Rate_limit_error \<longrightarrow> n = length ps \<and> (\<forall>p\<in>set ps. \<exists>h. net p = Rate_limited h)"
      "r1 \<noteq> Rate_limit_error \<longrightarrow> 0 < n \<and> (\<forall>p\<in>set (take (n - 1) ps). \<exists>h. net p = Rate_limited h) \<and>
        (case r1 of Routed x \<Rightarrow> net (ps ! (n - 1)) = Answer x
         | Route_failed e \<Rightarrow> net (ps ! (n - 1)) = Failed e | _ \<Rightarrow> False)"
      using "2.IH"[OF Rate_limited rec] by blast
    show ?thesis
    proof (rule exI[of _ "Suc n"], intro conjI)
      show "r \<noteq> Rate_limit_error \<longrightarrow> 0 < Suc n \<and>
          (\<forall>q\<in>set (take (Suc n - 1) (p # ps)). \<exists>h. net q = Rate_limited h) \<and>
          (case r of Routed x \<Rightarrow> net ((p # ps) ! (Suc n - 1)) = Answer x
           | Route_failed e \<Rightarrow> net ((p # ps) ! (Suc n - 1)) = Failed e | _ \<Rightarrow> False)"
        using n(4) eq Rate_limited by (cases n) (auto split: routed.splits)
    qed (use n eq Rate_limited in auto)
  next
    case (Answer x)
    then show ?thesis using "2.prems" by (intro exI[of _ 1]) auto
  next
    case (Failed e)
    then show ?thesis using "2.prems" by (intro exI[of _ 1]) auto
  qed
qed

text \<open>
  The moment at which a routed call looks at the providers: now, or the end of the pacing interval when
  the router sleeps until then. A provider is free at a time when no retry time lies after it.
\<close>

definition paced :: "store \<Rightarrow> bool" where
  "paced s \<longleftrightarrow> (case nextProviderCallAt (sched s) of Some t \<Rightarrow> clock s < t | None \<Rightarrow> False)"

definition call_time :: "store \<Rightarrow> time" where
  "call_time s = (case nextProviderCallAt (sched s) of Some t \<Rightarrow> max (clock s) t | None \<Rightarrow> clock s)"

definition provider_free :: "time \<Rightarrow> store \<Rightarrow> provider \<Rightarrow> bool" where
  "provider_free now s p \<longleftrightarrow> (case providerRetryAfterAt (sched s) p of Some t \<Rightarrow> t \<le> now | None \<Rightarrow> True)"

lemma provider_free_iff: "provider_free now s p \<longleftrightarrow> \<not> isProviderInBackoff now (sched s) p"
  by (auto simp: provider_free_def in_backoff_iff split: option.splits)

lemma wait_cases:
  "waitForRateLimit rt s = (if paced s \<and> \<not> r_sleepOnRateLimit rt then Inl (the (nextProviderCallAt (sched s)))
     else Inr (s\<lparr>clock := call_time s\<rparr>))"
  by (auto simp: waitForRateLimit_def paced_def call_time_def max_def split: option.splits)

text \<open>
  C10: a routed call respects the backoff of both providers. While the pacing interval runs and the router
  does not sleep, it calls nobody and says so. Otherwise it looks at the providers at \<open>call_time\<close>: it
  calls only providers whose retry time has come by then, each at most once; it reports a backoff
  exactly when there is none; it moves on to the other provider only after a rate limit, returns what
  the provider called last answered, and reports a rate limit only after every free provider has
  answered with one.
\<close>

theorem withProvider_respects_backoff:
  assumes "withProvider rt net s = (r, called, s')"
  shows "distinct called \<and> (\<forall>p\<in>set called. provider_free (call_time s) s p) \<and>
    ((\<exists>t. r = Not_ready t Pacing) \<longleftrightarrow> paced s \<and> \<not> r_sleepOnRateLimit rt) \<and>
    ((\<exists>t. r = Not_ready t Provider_backoff) \<longleftrightarrow>
       \<not> (paced s \<and> \<not> r_sleepOnRateLimit rt) \<and> (\<forall>p. \<not> provider_free (call_time s) s p)) \<and>
    (called = [] \<longleftrightarrow> (\<exists>t why. r = Not_ready t why)) \<and>
    (\<forall>p\<in>set (butlast called). \<exists>h. net p = Rate_limited h) \<and>
    (\<forall>x. r = Routed x \<longrightarrow> net (last called) = Answer x) \<and>
    (\<forall>e. r = Route_failed e \<longrightarrow> net (last called) = Failed e) \<and>
    (r = Rate_limit_error \<longrightarrow> set called = {p. provider_free (call_time s) s p} \<and>
       (\<forall>p\<in>set called. \<exists>h. net p = Rate_limited h))"
proof (cases "paced s \<and> \<not> r_sleepOnRateLimit rt")
  case True
  then show ?thesis using assms by (auto simp: withProvider_def wait_cases)
next
  case False
  let ?s1 = "s\<lparr>clock := call_time s\<rparr>" and ?ps = "orderedProviders rt (call_time s) (sched s)"
  have os: "set ?ps = {p. provider_free (call_time s) s p}" "distinct ?ps"
    using orderedProviders_set[of rt "call_time s" "sched s"] by (auto simp: provider_free_iff)
  show ?thesis
  proof (cases "?ps = []")
    case True
    then have "\<forall>p. \<not> provider_free (call_time s) s p" using os(1) by auto
    then show ?thesis using assms False True by (auto simp: withProvider_def wait_cases)
  next
    case nonempty: False
    then have tr: "try_providers rt net ?ps None ?s1 = (r, called, s')"
      using assms False by (cases ?ps) (auto simp: withProvider_def wait_cases)
    obtain n where n: "n \<le> length ?ps" "called = take n ?ps"
      "r = Rate_limit_error \<longrightarrow> n = length ?ps \<and> (\<forall>p\<in>set ?ps. \<exists>h. net p = Rate_limited h)"
      "r \<noteq> Rate_limit_error \<longrightarrow> 0 < n \<and> (\<forall>p\<in>set (take (n - 1) ?ps). \<exists>h. net p = Rate_limited h) \<and>
        (case r of Routed x \<Rightarrow> net (?ps ! (n - 1)) = Answer x
         | Route_failed e \<Rightarrow> net (?ps ! (n - 1)) = Failed e | _ \<Rightarrow> False)"
      using try_providers_called[OF tr] by blast
    have npos: "0 < n" using n(3,4) nonempty by (cases "r = Rate_limit_error") auto
    have nr: "r \<noteq> Not_ready t why" for t why using n(4) by auto
    have sub: "set called \<subseteq> set ?ps" using n(2) by (auto dest: in_set_takeD)
    have ne: "called \<noteq> []" and lst: "last called = ?ps ! (n - 1)" and bl: "butlast called = take (n - 1) ?ps"
      using n(1,2) npos nonempty by (auto simp: butlast_take last_conv_nth)
    have some: "\<exists>p. provider_free (call_time s) s p" using os(1) nonempty by (metis mem_Collect_eq list.set_intros(1) neq_Nil_conv)
    have rl: "\<forall>p\<in>set (butlast called). \<exists>h. net p = Rate_limited h"
      using n(3,4) unfolding bl by (cases "r = Rate_limit_error") (auto dest: in_set_takeD)
    have ans: "(\<forall>x. r = Routed x \<longrightarrow> net (last called) = Answer x) \<and> (\<forall>e. r = Route_failed e \<longrightarrow> net (last called) = Failed e)"
      using n(4) unfolding lst by auto
    have all: "r = Rate_limit_error \<longrightarrow> set called = {p. provider_free (call_time s) s p} \<and> (\<forall>p\<in>set called. \<exists>h. net p = Rate_limited h)"
      using n(2,3) os(1) by auto
    have "distinct called" "\<forall>p\<in>set called. provider_free (call_time s) s p" using os n(2) sub by auto
    then show ?thesis using nr ne rl ans all some False by blast
  qed
qed

definition demo_net :: "provider \<Rightarrow> int answer" where
  "demo_net p = (case p of Esplora \<Rightarrow> Rate_limited None | Mempool \<Rightarrow> Answer 42)"

definition demo_router :: router where
  "demo_router = router_of_config default_config False"

text \<open>With Esplora in backoff until 5000 only Mempool is called; the first time both are.\<close>

theorem withProvider_respects_backoff_witness:
  "(let s = init_store default_options 1000
    in fst (withProvider demo_router demo_net s) = Routed 42 \<and> fst (snd (withProvider demo_router demo_net s)) = [Esplora, Mempool]) \<and>
   Esplora \<notin> set (fst (snd (withProvider demo_router demo_net (recordApiThreshold Esplora 5000 1 (init_store default_options 1000)))))"
proof -
  let ?s = "recordApiThreshold Esplora 5000 1 (init_store default_options 1000)"
  obtain r c s' where w: "withProvider demo_router demo_net ?s = (r, c, s')" by (metis prod.exhaust)
  have "\<not> provider_free (call_time ?s) ?s Esplora" by code_simp
  then have "Esplora \<notin> set c" using withProvider_respects_backoff[OF w] by blast
  moreover have "let s = init_store default_options 1000
    in fst (withProvider demo_router demo_net s) = Routed 42 \<and> fst (snd (withProvider demo_router demo_net s)) = [Esplora, Mempool]"
    by code_simp
  ultimately show ?thesis using w by simp
qed

section \<open>What a rate limit leaves behind\<close>

lemma recordProviderRateLimit_effect:
  "providerRetryAfterAt (sched (recordProviderRateLimit rt (sched s) p h s)) q =
     (if q = p then Some (clock s + providerBackoffSec (getProviderStrikeCount (sched s) p + 1)
                            (r_baseSec rt) (r_maxSec rt) h * 1000)
      else providerRetryAfterAt (sched s) q)"
  "getProviderStrikeCount (sched (recordProviderRateLimit rt (sched s) p h s)) q =
     (if q = p then getProviderStrikeCount (sched s) p + 1 else getProviderStrikeCount (sched s) q)"
  "clock (recordProviderRateLimit rt (sched s) p h s) = clock s"
  by (cases p; cases q; simp add: recordProviderRateLimit_def recordApiThreshold_def Let_def
      ensureApiThresholdDay_def providerRetryAfterAt_def getProviderStrikeCount_def)+

lemma markCalled_effect [simp]:
  "providerRetryAfterAt (sched (markCalled rt p b s)) q = providerRetryAfterAt (sched s) q"
  "getProviderStrikeCount (sched (markCalled rt p b s)) q = getProviderStrikeCount (sched s) q"
  "nextProviderCallAt (sched (markCalled rt p b s)) = Some (clock s + r_rateLimitMs rt)"
  "lastProviderUsed (sched (markCalled rt p b s)) = Some (provider_name p)"
  "clock (markCalled rt p b s) = clock s"
  by (cases q; simp add: markCalled_def providerRetryAfterAt_def getProviderStrikeCount_def)+

lemma clearProviderStrike_effect [simp]:
  "providerRetryAfterAt (sched (clearProviderStrike p s)) q =
     (if q = p then None else providerRetryAfterAt (sched s) q)"
  "getProviderStrikeCount (sched (clearProviderStrike p s)) q =
     (if q = p then 0 else getProviderStrikeCount (sched s) q)"
  "clock (clearProviderStrike p s) = clock s"
  by (cases p; cases q; simp add: clearProviderStrike_def providerRetryAfterAt_def getProviderStrikeCount_def)+

lemma try_providers_clock: "clock (snd (snd (try_providers rt net ps l s))) = clock s"
  by (induction rt net ps l s rule: try_providers.induct)
     (simp_all add: recordProviderRateLimit_effect split_beta split: option.splits answer.splits)

lemma try_providers_effect:
  assumes "try_providers rt net ps l s = (r, called, s')" and "distinct ps"
    and "0 < r_baseSec rt" and "r_baseSec rt \<le> r_maxSec rt"
  shows "(\<forall>x. r = Routed x \<longrightarrow> called \<noteq> [] \<and> lastProviderUsed (sched s') = Some (provider_name (last called)) \<and>
            nextProviderCallAt (sched s') = Some (clock s + r_rateLimitMs rt) \<and>
            getProviderStrikeCount (sched s') (last called) = 0 \<and>
            providerRetryAfterAt (sched s') (last called) = None) \<and>
         (r = Rate_limit_error \<longrightarrow> (\<forall>p\<in>set ps. isProviderInBackoff (clock s) (sched s') p \<and>
            getProviderStrikeCount (sched s') p = getProviderStrikeCount (sched s) p + 1)) \<and>
         (r = Rate_limit_error \<longrightarrow> (\<forall>p. p \<notin> set ps \<longrightarrow>
            providerRetryAfterAt (sched s') p = providerRetryAfterAt (sched s) p \<and>
            getProviderStrikeCount (sched s') p = getProviderStrikeCount (sched s) p))"
  using assms
proof (induction rt net ps l s arbitrary: r called s' rule: try_providers.induct)
  case (1 rt net l s)
  then show ?case by (auto split: option.splits)
next
  case (2 rt net p ps l s)
  show ?case
  proof (cases "net p")
    case (Rate_limited h)
    let ?s1 = "recordProviderRateLimit rt (sched s) p h s"
    obtain r1 c1 s2 where rec: "try_providers rt net ps (Some p) ?s1 = (r1, c1, s2)"
      by (cases "try_providers rt net ps (Some p) ?s1") auto
    have eq: "r = r1" "called = p # c1" "s' = s2" using "2.prems"(1) Rate_limited rec by auto
    have ih: "(\<forall>x. r1 = Routed x \<longrightarrow> c1 \<noteq> [] \<and> lastProviderUsed (sched s2) = Some (provider_name (last c1)) \<and>
            nextProviderCallAt (sched s2) = Some (clock ?s1 + r_rateLimitMs rt) \<and>
            getProviderStrikeCount (sched s2) (last c1) = 0 \<and>
            providerRetryAfterAt (sched s2) (last c1) = None) \<and>
         (r1 = Rate_limit_error \<longrightarrow> (\<forall>p\<in>set ps. isProviderInBackoff (clock ?s1) (sched s2) p \<and>
            getProviderStrikeCount (sched s2) p = getProviderStrikeCount (sched ?s1) p + 1)) \<and>
         (r1 = Rate_limit_error \<longrightarrow> (\<forall>p. p \<notin> set ps \<longrightarrow>
            providerRetryAfterAt (sched s2) p = providerRetryAfterAt (sched ?s1) p \<and>
            getProviderStrikeCount (sched s2) p = getProviderStrikeCount (sched ?s1) p))"
      using "2.prems"(2-4) by (intro "2.IH"[OF Rate_limited rec]) (auto simp: recordProviderRateLimit_effect)
    have "0 < providerBackoffSec (getProviderStrikeCount (sched s) p + 1) (r_baseSec rt) (r_maxSec rt) h"
      using providerBackoffSec_ge[OF "2.prems"(3,4)] "2.prems"(3) by (meson less_le_trans)
    then show ?thesis
      using ih eq "2.prems"(2)
      by (auto simp: recordProviderRateLimit_effect in_backoff_iff)
  next
    case (Answer x)
    then show ?thesis using "2.prems" by auto
  next
    case (Failed e)
    then show ?thesis using "2.prems" by auto
  qed
qed

text \<open>
  The pacing and the strikes after a call. When a provider answers, its strikes are cleared,
  it is recorded as the last one used and the next call is allowed \<open>rateLimitMs\<close> later; when every
  called provider was rate limited, each has one strike more and is in backoff from now on.
\<close>

lemma withProvider_effect:
  assumes "withProvider rt net s = (r, called, s')"
    and "0 < r_baseSec rt" and "r_baseSec rt \<le> r_maxSec rt"
  shows "(\<forall>x. r = Routed x \<longrightarrow>
            lastProviderUsed (sched s') = Some (provider_name (last called)) \<and>
            nextProviderCallAt (sched s') = Some (clock s' + r_rateLimitMs rt) \<and>
            getProviderStrikeCount (sched s') (last called) = 0 \<and>
            \<not> isProviderInBackoff (clock s') (sched s') (last called)) \<and>
         (r = Rate_limit_error \<longrightarrow> \<not> hasAvailableChainProvider (clock s') (sched s') \<and>
            (\<forall>p\<in>set called. getProviderStrikeCount (sched s') p = getProviderStrikeCount (sched s) p + 1))"
proof (cases "waitForRateLimit rt s")
  case (Inl at)
  then show ?thesis using assms(1) by (auto simp: withProvider_def)
next
  case (Inr s1)
  then have s1: "sched s1 = sched s"
    by (auto simp: waitForRateLimit_def split: option.splits if_splits)
  let ?ps = "orderedProviders rt (clock s1) (sched s1)"
  note os = orderedProviders_set[of rt "clock s1" "sched s1"]
  show ?thesis
  proof (cases "?ps = []")
    case True
    then show ?thesis using assms(1) Inr by (auto simp: withProvider_def)
  next
    case False
    then obtain q qs where q: "?ps = q # qs" by (cases ?ps) auto
    then have tr: "try_providers rt net ?ps None s1 = (r, called, s')"
      using assms(1) Inr by (simp add: withProvider_def)
    have ck: "clock s' = clock s1" using try_providers_clock[of rt net ?ps None s1] by (simp add: tr)
    have sub: "set called \<subseteq> set ?ps"
      using try_providers_called[OF tr] by (auto dest: in_set_takeD)
    note ef = try_providers_effect[OF tr conjunct2[OF os] assms(2,3)]
    have "\<not> hasAvailableChainProvider (clock s') (sched s')" if "r = Rate_limit_error"
    proof -
      have "isProviderInBackoff (clock s1) (sched s') p" for p
        using ef that os by (cases "p \<in> set ?ps") (auto simp: in_backoff_iff)
      then show ?thesis by (simp add: hasAvailableChainProvider_def ck)
    qed
    then show ?thesis using ef sub by (auto simp: ck s1 in_backoff_iff)
  qed
qed

lemma withProvider_effect_witness:
  "lastProviderUsed (sched (snd (snd (withProvider demo_router demo_net (init_store default_options 1000)))))
     = Some ''mempool''"
proof -
  obtain r c s' where w: "withProvider demo_router demo_net (init_store default_options 1000) = (r, c, s')"
    by (cases "withProvider demo_router demo_net (init_store default_options 1000)") auto
  have "fst (withProvider demo_router demo_net (init_store default_options 1000)) = Routed 42"
    and "fst (snd (withProvider demo_router demo_net (init_store default_options 1000))) = [Esplora, Mempool]"
    and "0 < r_baseSec demo_router" and "r_baseSec demo_router \<le> r_maxSec demo_router"
    by code_simp+
  then show ?thesis using withProvider_effect[OF w] w by (simp add: provider_name_def)
qed

end
