(* ===== verification/ProcessJobs.thy ===== *)
theory ProcessJobs
  imports QueueRules JobPolicy ChainRouter
begin

text \<open>
  The job loop of a tick (\<open>packages/core/src/indexer/processor.ts\<close>: \<open>isPacingBlocked\<close>,
  \<open>ingestCandidatesForPick\<close>, \<open>claimJobForSlot\<close>, \<open>markChainSlotAfterJob\<close>, \<open>handleJobFailure\<close>,
  \<open>processJobs\<close>).

  What a job does once it is claimed is the parameter \<open>run\<close>: from the claimed row, the store and the
  tick's budget to the outcome (returned, or the error thrown) with the new store and budget. It
  covers the dispatch on the job's type and the loading of the hacker set. The store's own
  subrequest budget is the tick's budget, as \<open>attachSubrequestBudget\<close> sets it up.
\<close>

section \<open>Outcomes\<close>

datatype d1_kind = D1_read | D1_write

datatype block_reason = Queue_paused | Expand_cap

datatype job_error =
    Enqueue_blocked block_reason
  | Rate_limit_not_ready string time
  | D1_quota string d1_kind time
  | Rate_limit string
  | Other_error string

datatype job_outcome = Returned | Threw job_error

fun error_message :: "job_error \<Rightarrow> string" where
  "error_message (Enqueue_blocked r) = ''enqueue blocked''"
| "error_message (Rate_limit_not_ready m t) = m"
| "error_message (D1_quota m k t) = m"
| "error_message (Rate_limit m) = m"
| "error_message (Other_error m) = m"

datatype stop_reason = Idle | Deadline | Subreq | Jobs_cap | Stop_pacing | Pair_wait_stop

section \<open>Claiming for a slot\<close>

definition isPacingBlocked :: "time option \<Rightarrow> store \<Rightarrow> bool" where
  "isPacingBlocked deadlineMs s =
     (case nextProviderCallAt (sched s) of
        None \<Rightarrow> False
      | Some nextAt \<Rightarrow>
          if nextAt \<le> clock s then False
          else if (case deadlineMs of Some d \<Rightarrow> nextAt \<ge> d | None \<Rightarrow> False) then True
          else nextAt > clock s)"

text \<open>The cache of candidates: \<open>None\<close> is not loaded. Returns the usable rows and the new cache.\<close>

definition ingestCandidatesForPick ::
  "job list option \<Rightarrow> int list \<Rightarrow> store \<Rightarrow> job list \<times> job list option" where
  "ingestCandidatesForPick cache claimed s =
     (let rows = (case cache of Some r \<Rightarrow> r | None \<Rightarrow> []);
          usable = filter (\<lambda>j. job_id j \<notin> set claimed) rows
      in if usable \<noteq> [] then (usable, cache)
         else if cache \<noteq> None \<and> claimed = [] then ([], cache)
         else let fresh = listPendingIngestCandidates 32 s
              in (filter (\<lambda>j. job_id j \<notin> set claimed) fresh, Some fresh))"

datatype claim_slot = Claimed job | No_claim | Pair_wait

definition to_slot :: "job option \<Rightarrow> claim_slot" where
  "to_slot r = (case r of Some j \<Rightarrow> Claimed j | None \<Rightarrow> No_claim)"

record slot_ctx =
  chainSlotUsed :: bool
  pacingBlocked :: bool
  claimedIds :: "int list"
  ctx_budget :: "budget option"

definition slot_pick_opts :: "config \<Rightarrow> slot_ctx \<Rightarrow> pick_opts" where
  "slot_pick_opts cfg ctx = \<lparr>preferContinuation = False, requireNoChainAtStart = False,
     preferProcessOnly = False, excludeIds = claimedIds ctx,
     maxEstimatedSubreq = max_estimate cfg (ctx_budget ctx)\<rparr>"

text \<open>The claim of slot 0 after the maintenance slice: ingest first, except on a poll slice.\<close>

definition claim_slot0 ::
  "config \<Rightarrow> slot_ctx \<Rightarrow> job list option \<Rightarrow> store \<Rightarrow> claim_slot \<times> job list option \<times> store" where
  "claim_slot0 cfg ctx cache s =
     (let counter = maintenanceCronCounter (sched s);
          pollSlice = (pollSliceEveryNCrons cfg > 0 \<and> counter mod pollSliceEveryNCrons cfg = 0)
      in if pollSlice
         then (let (r, s') = claimNextJob (Some (toClaimAgeBoost cfg)) s in (to_slot r, cache, s'))
         else
           let (cands, cache') = ingestCandidatesForPick cache (claimedIds ctx) s
           in case pickIngestCandidate cands cfg ((slot_pick_opts cfg ctx)\<lparr>preferContinuation := True\<rparr>) of
                Some j \<Rightarrow> (let (r, s') = claimIngestJobById (job_id j) s in (to_slot r, cache', s'))
              | None \<Rightarrow> (let (r, s') = claimNextJob (Some (toClaimAgeBoost cfg)) s
                         in (to_slot r, cache', s')))"

definition claimJobForSlot ::
  "config \<Rightarrow> nat \<Rightarrow> slot_ctx \<Rightarrow> job list option \<Rightarrow> store \<Rightarrow> claim_slot \<times> job list option \<times> store" where
  "claimJobForSlot cfg slot ctx cache s =
     (if slot = 0 then
        let counter = maintenanceCronCounter (sched s);
            maintSlice = (maintSliceEveryNCrons cfg > 0 \<and> maintSliceMinWaitSec cfg > 0 \<and>
                          counter mod maintSliceEveryNCrons cfg = 0)
        in if maintSlice
           then (case claimOldestMaintCosmeticJob (maintSliceMinWaitSec cfg) (claimedIds ctx)
                        (Some (MAINT_TYPES @ COSMETIC_TYPES)) s of
                   (Some j, s') \<Rightarrow> (Claimed j, cache, s')
                 | (None, s') \<Rightarrow> claim_slot0 cfg ctx cache s')
           else claim_slot0 cfg ctx cache s
      else
        let (cands, cache') = ingestCandidatesForPick cache (claimedIds ctx) s
        in if chainSlotUsed ctx \<or> pacingBlocked ctx
           then (case pickIngestCandidate cands cfg ((slot_pick_opts cfg ctx)
                        \<lparr>requireNoChainAtStart := True, preferProcessOnly := True\<rparr>) of
                   None \<Rightarrow> (Pair_wait, cache', s)
                 | Some j \<Rightarrow> (let (r, s') = claimIngestJobById (job_id j) s in (to_slot r, cache', s')))
           else (case pickIngestCandidate cands cfg ((slot_pick_opts cfg ctx)\<lparr>preferProcessOnly := True\<rparr>) of
                   Some j \<Rightarrow> (let (r, s') = claimIngestJobById (job_id j) s in (to_slot r, cache', s'))
                 | None \<Rightarrow> (let (r, s') = claimNextJob (Some (toClaimAgeBoost cfg)) s
                            in (to_slot r, cache', s'))))"

definition markChainSlotAfterJob :: "config \<Rightarrow> job \<Rightarrow> store \<Rightarrow> bool" where
  "markChainSlotAfterJob cfg j s =
     (if needs_chain cfg j then True
      else case nextProviderCallAt (sched s) of None \<Rightarrow> False | Some t \<Rightarrow> t > clock s)"

section \<open>Failure\<close>

definition setD1QuotaPaused :: "d1_kind \<Rightarrow> time \<Rightarrow> store \<Rightarrow> store" where
  "setD1QuotaPaused k at =
     (case k of
        D1_read \<Rightarrow> updateSchedulerState (\<lambda>r. r\<lparr>d1ReadRetryAfterAt := Some at\<rparr>)
      | D1_write \<Rightarrow> updateSchedulerState (\<lambda>r. r\<lparr>d1WriteRetryAfterAt := Some at\<rparr>))"

text \<open>Returns whether to stop claiming in this tick.\<close>

definition handleJobFailure :: "config \<Rightarrow> job \<Rightarrow> job_error \<Rightarrow> store \<Rightarrow> bool \<times> store" where
  "handleJobFailure cfg j err s =
     (let attempt = attempts j + 1; msg = error_message err
      in case err of
           Rate_limit_not_ready m retryAt \<Rightarrow>
             (if isIngestJobType (job_kind j) \<and> attempt \<ge> jobDeferAfterAttempts cfg
              then (True, deferJob (job_id j) msg (clock s + jobDeferSec cfg * 1000) s)
              else (True, failJob (job_id j) msg (Some retryAt) s))
         | D1_quota m k retryAt \<Rightarrow>
             (True, failJob (job_id j) msg (Some retryAt) (setD1QuotaPaused k retryAt s))
         | Rate_limit m \<Rightarrow>
             (let other = hasAvailableChainProvider (clock s) (sched s);
                  retryAt =
                    (if other
                     then (case nextProviderCallAt (sched s) of
                             Some t \<Rightarrow> t | None \<Rightarrow> clock s + cfg_rateLimitMs cfg)
                     else (case earliestProviderRetryAt s of
                             Some t \<Rightarrow> t | None \<Rightarrow> clock s + apiThresholdBaseSec cfg * 1000))
              in (\<not> other, failJob (job_id j) msg (Some retryAt) s))
         | _ \<Rightarrow>
             (False, failJob (job_id j) msg (Some (clock s + min 300 (30 * attempt) * 1000)) s))"

section \<open>The loop\<close>

type_synonym job_body = "job \<Rightarrow> store \<Rightarrow> budget option \<Rightarrow> job_outcome \<times> store \<times> budget option"

record loop_state =
  ls_store :: store
  ls_budget :: "budget option"
  ls_processed :: int
  ls_chainSlot :: bool
  ls_claimed :: "int list"
  ls_cache :: "job list option"

definition low_budget :: "config \<Rightarrow> budget option \<Rightarrow> bool" where
  "low_budget cfg b =
     (case b of
        Some x \<Rightarrow> b_cap x > 0 \<and>
          (case remaining x of Some r \<Rightarrow> r \<le> scheduleSubrequestReserve cfg + 2 | None \<Rightarrow> False)
      | None \<Rightarrow> False)"

text \<open>
  What one claimed job does to the loop: \<open>Inl\<close> stops with a reason, \<open>Inr\<close> goes on to the next slot.
\<close>

definition run_claimed ::
  "config \<Rightarrow> job_body \<Rightarrow> job \<Rightarrow> loop_state \<Rightarrow> (stop_reason \<times> loop_state) + loop_state" where
  "run_claimed cfg run j ls =
     (case run j (ls_store ls) (ls_budget ls) of
        (Returned, s1, b1) \<Rightarrow>
          (let s2 = maybeClearQueueSchedulingPause (completeJob (job_id j) s1);
               ls2 = ls\<lparr>ls_store := s2, ls_budget := b1, ls_processed := ls_processed ls + 1\<rparr>
           in if low_budget cfg b1 then Inl (Subreq, ls2)
              else Inr (if markChainSlotAfterJob cfg j s2 then ls2\<lparr>ls_chainSlot := True\<rparr> else ls2))
      | (Threw (Enqueue_blocked r), s1, b1) \<Rightarrow>
          (let msg = (if r = Queue_paused then ''queue_scheduling_paused'' else ''expand_enqueue_cap'')
           in Inr (ls\<lparr>ls_store := deferJob (job_id j) msg (clock s1 + 90 * 1000) s1, ls_budget := b1\<rparr>))
      | (Threw err, s1, b1) \<Rightarrow>
          (let (stop, s2) = handleJobFailure cfg j err s1;
               ls2 = ls\<lparr>ls_store := s2, ls_budget := b1\<rparr>
           in if stop
              then (case err of
                      Rate_limit_not_ready m t \<Rightarrow> Inl (Stop_pacing, ls2\<lparr>ls_chainSlot := True\<rparr>)
                    | _ \<Rightarrow> Inl (Subreq, ls2))
              else Inr ls2))"

fun process_loop ::
  "config \<Rightarrow> job_body \<Rightarrow> time option \<Rightarrow> nat \<Rightarrow> nat \<Rightarrow> loop_state \<Rightarrow> stop_reason \<times> loop_state" where
  "process_loop cfg run deadlineMs 0 slot ls = (Jobs_cap, ls)"
| "process_loop cfg run deadlineMs (Suc n) slot ls =
     (if (case deadlineMs of Some d \<Rightarrow> clock (ls_store ls) \<ge> d | None \<Rightarrow> False) then (Deadline, ls)
      else if low_budget cfg (ls_budget ls) then (Subreq, ls)
      else if (case ls_budget ls of Some b \<Rightarrow> \<not> canConsume 1 b | None \<Rightarrow> False) then (Subreq, ls)
      else
        let ctx = \<lparr>chainSlotUsed = ls_chainSlot ls,
                   pacingBlocked = isPacingBlocked deadlineMs (ls_store ls),
                   claimedIds = ls_claimed ls, ctx_budget = ls_budget ls\<rparr>
        in case claimJobForSlot cfg slot ctx (ls_cache ls) (ls_store ls) of
             (Pair_wait, cache', s') \<Rightarrow> (Pair_wait_stop, ls\<lparr>ls_store := s', ls_cache := cache'\<rparr>)
           | (No_claim, cache', s') \<Rightarrow> (Idle, ls\<lparr>ls_store := s', ls_cache := cache'\<rparr>)
           | (Claimed j, cache', s') \<Rightarrow>
               (case run_claimed cfg run j (ls\<lparr>ls_store := s', ls_cache := cache',
                        ls_claimed := ls_claimed ls @ [job_id j]\<rparr>) of
                  Inl (why, ls2) \<Rightarrow> (why, ls2)
                | Inr ls2 \<Rightarrow> process_loop cfg run deadlineMs n (Suc slot) ls2))"

definition processJobs ::
  "config \<Rightarrow> job_body \<Rightarrow> time option \<Rightarrow> int option \<Rightarrow> job list option \<Rightarrow> budget option \<Rightarrow> store
   \<Rightarrow> (int \<times> stop_reason) \<times> loop_state" where
  "processJobs cfg run deadlineMs perTick cands b s =
     (let n = (case perTick of Some k \<Rightarrow> k | None \<Rightarrow> jobsPerTick cfg);
          (why, ls) = process_loop cfg run deadlineMs (nat n) 0
             \<lparr>ls_store = s, ls_budget = b, ls_processed = 0,
              ls_chainSlot = isPacingBlocked deadlineMs s, ls_claimed = [], ls_cache = cands\<rparr>
      in ((ls_processed ls, why), ls))"

end
