(* ===== verification/ProcessSafety.thy ===== *)
theory ProcessSafety
  imports ProcessJobs
begin

text \<open>
  Properties of the job loop of \<open>ProcessJobs\<close>: whatever the jobs do, no claimed job is left running
  and the queue's counters stay exact; slot 0 claims a job whenever one is runnable; a failed job
  comes back later, not at once.
\<close>

section \<open>Which jobs are running\<close>

definition running_ids :: "store \<Rightarrow> int set" where
  "running_ids s = job_id ` {j \<in> set (jobs s). is_running j}"

lemma running_ids_cong: "jobs s' = jobs s \<Longrightarrow> running_ids s' = running_ids s"
  by (simp add: running_ids_def)

lemma running_ids_update:
  assumes "\<And>x. job_id (f x) = job_id x"
  shows "running_ids (s\<lparr>jobs := update_where (\<lambda>x. job_id x = i) f (jobs s)\<rparr>) - {i} = running_ids s - {i}"
  using assms by (auto simp: running_ids_def update_where_def image_iff)

lemma update_job_running:
  assumes "\<And>x. job_id (f x) = job_id x" and "\<And>x. \<not> is_running (f x)"
  shows "running_ids (update_job i f s) = running_ids s - {i}"
proof -
  have "i \<notin> running_ids (update_job i f s)"
    using assms by (auto simp: running_ids_def update_job_def update_where_def)
  then show ?thesis using running_ids_update[OF assms(1)] by (auto simp: update_job_def)
qed

lemma completeJob_jobs: "jobs (completeJob i s) = jobs (update_job i (set_done (clock s)) s)"
  by (auto simp: completeJob_def Let_def markJobSnapshotDirty_def maybeUpdateLastCompletedJobCache_def
      set_last_completed_def split: option.splits)

lemma completeJob_running: "running_ids (completeJob i s) = running_ids s - {i}"
  unfolding running_ids_cong[OF completeJob_jobs]
  by (rule update_job_running) (auto simp: set_done_def is_running_def)

lemma requeue_jobs: "jobs (requeue i n e ra s) = jobs (update_job i (set_failed n e ra) s)"
  by (auto simp: requeue_def Let_def split: option.splits)

lemma requeue_running: "running_ids (requeue i n e ra s) = running_ids s - {i}"
  unfolding running_ids_cong[OF requeue_jobs]
  by (rule update_job_running) (auto simp: set_failed_def is_running_def)

lemma failJob_running [simp]: "running_ids (failJob i e ra s) = running_ids s - {i}"
  by (simp add: failJob_def requeue_running)

lemma deferJob_running [simp]: "running_ids (deferJob i e ra s) = running_ids s - {i}"
  by (simp add: deferJob_def requeue_running)

lemma maybeClear_jobs [simp]: "jobs (maybeClearQueueSchedulingPause s) = jobs s"
  by (simp add: maybeClearQueueSchedulingPause_def setQueueSchedulingPaused_def)

section \<open>Claims\<close>

text \<open>What every claim does: nothing, or one more running job that is not done.\<close>

definition claim_ok :: "store \<Rightarrow> job option \<Rightarrow> store \<Rightarrow> bool" where
  "claim_ok s r s' \<longleftrightarrow> jobs_inv s' \<and>
     (case r of
        None \<Rightarrow> s' = s
      | Some j \<Rightarrow> running_ids s' = insert (job_id j) (running_ids s) \<and> not_done (job_id j) s' \<and>
                  clock s' = clock s)"

lemma markJobRunning_ok:
  assumes "jobs_inv s" and "markJobRunning i ts s = (r, s')"
  shows "claim_ok s r s'"
proof (cases "count_rows (\<lambda>j. job_id j = i \<and> is_pending j) (jobs s) = 0")
  case True
  then show ?thesis using assms by (simp add: markJobRunning_def claim_ok_def)
next
  case False
  then obtain j where j: "j \<in> set (jobs s)" "job_id j = i" "is_pending j"
    by (auto simp: count_rows_zero)
  note sp = markJobRunning_spec[OF assms(1) j(1,3), of ts]
  have r: "r = Some (set_running ts j)" and js: "jobs s' = update_where (\<lambda>x. job_id x = i) (set_running ts) (jobs s)"
    and ck: "clock s' = clock s"
    using sp assms(2) j(2) by auto
  have inv: "jobs_inv s'" using markJobRunning_inv[OF assms(1), of i ts] assms(2) by simp
  have "set_running ts j \<in> set (jobs s')" using j by (auto simp: js update_where_def)
  then have "getJob i s' = Some (set_running ts j)"
    using find_key_eq[OF jobs_invD(1)[OF inv], of "set_running ts j"] j(2)
    by (simp add: getJob_def set_running_def)
  then have "not_done i s'" by (simp add: not_done_def is_active_def set_running_def)
  moreover have "running_ids s' = insert i (running_ids s)"
  proof -
    have "running_ids s' - {i} = running_ids s - {i}"
      using running_ids_update[where f = "set_running ts" and s = s and i = i] by (simp add: set_running_def js running_ids_def)
    moreover have "i \<in> running_ids s'"
      using \<open>set_running ts j \<in> set (jobs s')\<close> j(2)
      by (auto simp: running_ids_def is_running_def set_running_def image_iff intro!: bexI)
    ultimately show ?thesis by auto
  qed
  ultimately show ?thesis using r inv ck j(2) by (simp add: claim_ok_def set_running_def)
qed

lemma claim_none_ok: "jobs_inv s \<Longrightarrow> claim_ok s None s"
  by (simp add: claim_ok_def)

lemma claim_head_ok: "jobs_inv s \<Longrightarrow> claim_head h s = (r, s') \<Longrightarrow> claim_ok s r s'"
  by (auto simp: claim_head_def claim_none_ok intro: markJobRunning_ok split: option.splits)

lemma claims_ok:
  assumes "jobs_inv s"
  shows "claimNextJob ab s = (r, s') \<Longrightarrow> claim_ok s r s'"
    and "claimIngestJobById i s = (r, s') \<Longrightarrow> claim_ok s r s'"
    and "claimOldestMaintCosmeticJob w ex el s = (r, s') \<Longrightarrow> claim_ok s r s'"
  using assms by (auto simp: claimNextJob_def claimIngestJobById_def claimOldestMaintCosmeticJob_def Let_def
      claim_none_ok intro: claim_head_ok split: if_splits)

definition slot_ok :: "store \<Rightarrow> claim_slot \<Rightarrow> store \<Rightarrow> bool" where
  "slot_ok s r s' \<longleftrightarrow> claim_ok s (case r of Claimed j \<Rightarrow> Some j | _ \<Rightarrow> None) s'"

lemma to_slot_ok: "claim_ok s r s' \<Longrightarrow> slot_ok s (to_slot r) s'"
  by (cases r) (auto simp: slot_ok_def to_slot_def)

lemma claim_slot0_ok:
  assumes "jobs_inv s" and "claim_slot0 cfg ctx cache s = (r, cache', s')"
  shows "slot_ok s r s'"
  using assms claims_ok(1,2)[OF assms(1)]
  by (auto simp: claim_slot0_def Let_def to_slot_ok split: prod.splits if_splits option.splits)

lemma claimOldest_None_state:
  assumes "jobs_inv s" and "claimOldestMaintCosmeticJob w ex el s = (None, s')"
  shows "s' = s"
  using claims_ok(3)[OF assms] by (simp add: claim_ok_def)

lemma pair_wait_ok: "jobs_inv s \<Longrightarrow> slot_ok s Pair_wait s"
  by (simp add: slot_ok_def claim_none_ok)

lemma claimJobForSlot_ok:
  assumes "jobs_inv s" and "claimJobForSlot cfg slot ctx cache s = (r, cache', s')"
  shows "slot_ok s r s'"
proof (cases "slot = 0")
  case True
  show ?thesis
  proof (cases "maintSliceEveryNCrons cfg > 0 \<and> maintSliceMinWaitSec cfg > 0 \<and>
                 maintenanceCronCounter (sched s) mod maintSliceEveryNCrons cfg = 0")
    case m: True
    obtain o1 s1 where c: "claimOldestMaintCosmeticJob (maintSliceMinWaitSec cfg) (claimedIds ctx)
         (Some (MAINT_TYPES @ COSMETIC_TYPES)) s = (o1, s1)" by fastforce
    show ?thesis
    proof (cases o1)
      case None
      then have "s1 = s" using claimOldest_None_state[OF assms(1)] c by blast
      then show ?thesis
        using assms True m c None by (auto simp: claimJobForSlot_def Let_def intro: claim_slot0_ok)
    next
      case (Some j)
      then have "r = Claimed j \<and> s' = s1"
        using assms(2) True m c by (auto simp: claimJobForSlot_def Let_def)
      then show ?thesis using claims_ok(3)[OF assms(1) c] Some by (simp add: slot_ok_def)
    qed
  next
    case False
    then show ?thesis
      using assms True by (auto simp: claimJobForSlot_def Let_def intro: claim_slot0_ok)
  qed
next
  case False
  then show ?thesis
    using assms claims_ok(1,2)[OF assms(1)]
    by (auto simp: claimJobForSlot_def Let_def to_slot_ok pair_wait_ok
        split: prod.splits if_splits option.splits)
qed

section \<open>The loop\<close>

text \<open>
  The contract of a job body: it keeps the queue's invariant, starts no job itself and makes no job
  done (completion is the loop's business).
\<close>

definition body_ok :: "job_body \<Rightarrow> bool" where
  "body_ok run \<longleftrightarrow> (\<forall>j s b out s' b'. run j s b = (out, s', b') \<longrightarrow> jobs_inv s \<longrightarrow>
     jobs_inv s' \<and> running_ids s' \<subseteq> running_ids s \<and> (\<forall>i. not_done i s \<longrightarrow> not_done i s'))"

lemma body_okD:
  assumes "body_ok run" and "run j s b = (out, s', b')" and "jobs_inv s"
  shows "jobs_inv s'" and "running_ids s' \<subseteq> running_ids s" and "not_done i s \<Longrightarrow> not_done i s'"
  using assms unfolding body_ok_def by blast+

lemma not_done_inv: "not_done i s \<Longrightarrow> getJob i s = Some j \<Longrightarrow> is_active j"
  by (simp add: not_done_def)

lemma setD1QuotaPaused_frame [simp]:
  "jobs (setD1QuotaPaused k at s) = jobs s" "clock (setD1QuotaPaused k at s) = clock s"
  by (cases k; simp add: setD1QuotaPaused_def)+

lemma setD1QuotaPaused_inv: "jobs_inv s \<Longrightarrow> jobs_inv (setD1QuotaPaused k at s)"
  by (rule jobs_inv_frame) (cases k; auto simp: setD1QuotaPaused_def job_counters_def)+

lemma fails_ok:
  assumes "jobs_inv s" and "not_done i s"
  shows "jobs_inv (failJob i e ra s)" and "jobs_inv (deferJob i e ra' s)"
  using assms by (auto intro!: inv_intros dest: not_done_inv)

lemma handleJobFailure_ok:
  assumes "jobs_inv s" and "not_done (job_id j) s" and "handleJobFailure cfg j err s = (stop, s')"
  shows "jobs_inv s' \<and> running_ids s' = running_ids s - {job_id j}"
proof -
  have d1: "jobs_inv (failJob (job_id j) e ra (setD1QuotaPaused k at s))" for e ra k at
    using fails_ok(1)[OF setD1QuotaPaused_inv[OF assms(1)]] assms(2)
    by (simp add: not_done_def getJob_def)
  have rd: "running_ids (setD1QuotaPaused k at s) = running_ids s" for k at
    by (simp add: running_ids_def)
  show ?thesis
    using assms(3) fails_ok[OF assms(1,2)] d1 rd
    by (cases err) (auto simp: handleJobFailure_def Let_def split: if_splits)
qed

lemma run_claimed_ok:
  assumes "body_ok run" and "jobs_inv (ls_store ls)" and "not_done (job_id j) (ls_store ls)"
    and "run_claimed cfg run j ls = res"
    and "ls' = (case res of Inl (why, l) \<Rightarrow> l | Inr l \<Rightarrow> l)"
  shows "jobs_inv (ls_store ls')" and "running_ids (ls_store ls') \<subseteq> running_ids (ls_store ls) - {job_id j}"
    and "ls_processed ls \<le> ls_processed ls'" and "ls_processed ls' \<le> ls_processed ls + 1"
proof -
  obtain out s1 b1 where run: "run j (ls_store ls) (ls_budget ls) = (out, s1, b1)"
    by (cases "run j (ls_store ls) (ls_budget ls)") auto
  note b = body_okD[OF assms(1) run assms(2)]
  have nd: "not_done (job_id j) s1" using b(3) assms(3) by blast
  have "jobs_inv (ls_store ls') \<and> running_ids (ls_store ls') \<subseteq> running_ids s1 - {job_id j} \<and>
        ls_processed ls \<le> ls_processed ls' \<and> ls_processed ls' \<le> ls_processed ls + 1"
  proof (cases out)
    case Returned
    have "jobs_inv (maybeClearQueueSchedulingPause (completeJob (job_id j) s1))"
      by (intro inv_intros b(1))
    moreover have "running_ids (maybeClearQueueSchedulingPause (completeJob (job_id j) s1))
        = running_ids s1 - {job_id j}"
      using completeJob_running by (simp add: running_ids_def)
    ultimately show ?thesis
      unfolding assms(5) assms(4)[symmetric] by (simp add: run_claimed_def run Returned Let_def)
  next
    case (Threw err)
    show ?thesis
    proof (cases "\<exists>r. err = Enqueue_blocked r")
      case True
      then show ?thesis
        using assms(4,5) run Threw fails_ok(2)[OF b(1) nd] by (auto simp: run_claimed_def Let_def)
    next
      case False
      obtain stop s2 where h: "handleJobFailure cfg j err s1 = (stop, s2)" by fastforce
      have "ls_store ls' = s2 \<and> ls_processed ls' = ls_processed ls"
        unfolding assms(5) assms(4)[symmetric] using False h
        by (cases err; cases stop; simp add: run_claimed_def run Threw Let_def)
      then show ?thesis using handleJobFailure_ok[OF b(1) nd h] by auto
    qed
  qed
  then show "jobs_inv (ls_store ls')" and "running_ids (ls_store ls') \<subseteq> running_ids (ls_store ls) - {job_id j}"
    and "ls_processed ls \<le> ls_processed ls'" and "ls_processed ls' \<le> ls_processed ls + 1"
    using b(2) by auto
qed

lemma process_loop_ok:
  assumes "body_ok run" and "jobs_inv (ls_store ls)"
    and "process_loop cfg run d n slot ls = (why, ls')"
  shows "jobs_inv (ls_store ls') \<and> running_ids (ls_store ls') \<subseteq> running_ids (ls_store ls) \<and>
         ls_processed ls \<le> ls_processed ls' \<and> ls_processed ls' \<le> ls_processed ls + int n"
  using assms(2,3)
proof (induction n arbitrary: slot ls)
  case 0
  then show ?case by simp
next
  case (Suc n)
  let ?ctx = "\<lparr>chainSlotUsed = ls_chainSlot ls, pacingBlocked = isPacingBlocked d (ls_store ls),
                claimedIds = ls_claimed ls, ctx_budget = ls_budget ls\<rparr>"
  obtain r cache' s' where cl: "claimJobForSlot cfg slot ?ctx (ls_cache ls) (ls_store ls) = (r, cache', s')"
    by (cases "claimJobForSlot cfg slot ?ctx (ls_cache ls) (ls_store ls)") auto
  note so = claimJobForSlot_ok[OF Suc.prems(1) cl]
  show ?case
  proof (cases "ls' = ls")
    case True
    then show ?thesis using Suc.prems(1) by simp
  next
    case False
    show ?thesis
    proof (cases r)
      case (Claimed j)
      let ?ls1 = "ls\<lparr>ls_store := s', ls_cache := cache', ls_claimed := ls_claimed ls @ [job_id j]\<rparr>"
      let ?ls2 = "case run_claimed cfg run j ?ls1 of Inl (why, l) \<Rightarrow> l | Inr l \<Rightarrow> l"
      have inv: "jobs_inv (ls_store ?ls1)" and nd: "not_done (job_id j) (ls_store ?ls1)"
        and ri: "running_ids (ls_store ?ls1) = insert (job_id j) (running_ids (ls_store ls))"
        using so Claimed by (auto simp: slot_ok_def claim_ok_def)
      note rc = run_claimed_ok[where cfg = cfg, OF assms(1) inv nd refl refl]
      have sub: "running_ids (ls_store ?ls2) \<subseteq> running_ids (ls_store ls)" using rc(2) ri by auto
      have step: "process_loop cfg run d (Suc n) slot ls =
          (case run_claimed cfg run j ?ls1 of Inl (why, l) \<Rightarrow> (why, l)
           | Inr l \<Rightarrow> process_loop cfg run d n (Suc slot) l)"
        using False Suc.prems(2) cl Claimed by (auto simp: Let_def split: if_splits)
      show ?thesis
      proof (cases "run_claimed cfg run j ?ls1")
        case (Inl x)
        then have "ls' = ?ls2" using step Suc.prems(2) by (cases x) simp
        then show ?thesis using rc sub by simp
      next
        case (Inr l)
        then have l: "?ls2 = l" and "process_loop cfg run d n (Suc slot) l = (why, ls')"
          using step Suc.prems(2) by simp_all
        moreover have "jobs_inv (ls_store l)" using rc(1) l by simp
        ultimately have "jobs_inv (ls_store ls') \<and> running_ids (ls_store ls') \<subseteq> running_ids (ls_store l) \<and>
            ls_processed l \<le> ls_processed ls' \<and> ls_processed ls' \<le> ls_processed l + int n"
          by (intro Suc.IH) auto
        then show ?thesis using rc(3,4) sub l by auto
      qed
    next
      case No_claim
      then have "jobs_inv s' \<and> running_ids s' = running_ids (ls_store ls)"
        using so by (auto simp: slot_ok_def claim_ok_def)
      moreover have "ls_store ls' = s' \<and> ls_processed ls' = ls_processed ls"
        using False Suc.prems(2) by (simp add: cl No_claim Let_def split: if_splits) auto
      ultimately show ?thesis by simp
    next
      case Pair_wait
      then have "jobs_inv s' \<and> running_ids s' = running_ids (ls_store ls)"
        using so by (auto simp: slot_ok_def claim_ok_def)
      moreover have "ls_store ls' = s' \<and> ls_processed ls' = ls_processed ls"
        using False Suc.prems(2) by (simp add: cl Pair_wait Let_def split: if_splits) auto
      ultimately show ?thesis by simp
    qed
  qed
qed

lemma processJobs_ok:
  assumes "jobs_inv s" and "body_ok run"
    and "processJobs cfg run d (Some n) cands b s = ((processed, why), ls)"
  shows "jobs_inv (ls_store ls)" and "running_ids (ls_store ls) \<subseteq> running_ids s"
    and "0 \<le> processed" and "processed \<le> max 0 n"
proof -
  let ?ls0 = "\<lparr>ls_store = s, ls_budget = b, ls_processed = 0, ls_chainSlot = isPacingBlocked d s,
     ls_claimed = [], ls_cache = cands\<rparr>"
  obtain w l where pl: "process_loop cfg run d (nat n) 0 ?ls0 = (w, l)" by fastforce
  then have eq: "processed = ls_processed l" "ls = l" using assms(3) by (auto simp: processJobs_def)
  have "jobs_inv (ls_store ?ls0)" using assms(1) by simp
  note ok = process_loop_ok[OF assms(2) this pl]
  show "jobs_inv (ls_store ls)" "running_ids (ls_store ls) \<subseteq> running_ids s" "0 \<le> processed" "processed \<le> max 0 n"
    using ok eq by (auto simp: max_def split: if_splits)
qed

text \<open>
  C6: the job loop leaves nothing behind. Whatever the claimed jobs do within the contract of a job
  body (return, or throw any of the errors), after \<open>processJobs\<close> every job that is running was
  running before (each claimed job has been completed, failed or deferred), the counters are still
  exact, and at most the allowed number of jobs was processed.
\<close>

theorem processJobs_leaves_no_claim:
  assumes "job_reach opt t s" and "body_ok run"
    and "processJobs cfg run d (Some n) cands b s = ((processed, why), ls)"
  shows "running_ids (ls_store ls) \<subseteq> running_ids s \<and>
    pendingJobCount (sched (ls_store ls)) = count_rows is_pending (jobs (ls_store ls)) \<and>
    0 \<le> processed \<and> processed \<le> max 0 n"
proof -
  note ok = processJobs_ok[OF job_reach_inv[OF assms(1)] assms(2,3)]
  have "pendingJobCount (sched (ls_store ls)) = count_rows is_pending (jobs (ls_store ls))"
    using ok(1) jobs_invD(4)[of "ls_store ls" PendingJob] by (simp add: job_counters_def job_counted_fun)
  then show ?thesis using ok by simp
qed

text \<open>A body that schedules a follow-up job and returns, or throws for job 1.\<close>

definition demo_body :: job_body where
  "demo_body j s b =
     (if job_id j = 1 then (Threw (Other_error ''boom''), s, b)
      else (Returned, snd (enqueueJob Refresh_btc_usd_price [] 1 None False s), b))"

lemma insert_job_running: "running_ids (snd (insert_job ty p pr ra s)) = running_ids s"
  by (auto simp: running_ids_def insert_job_def Let_def new_job_def is_running_def)

lemma enqueueJob_running: "running_ids (snd (enqueueJob ty p pr ra b s)) = running_ids s"
proof -
  obtain r s' where e: "enqueueJob ty p pr ra b s = (r, s')" by fastforce
  show ?thesis
    using enqueueJob_cases[OF e] e by (auto simp: running_ids_def new_job_def is_running_def)
qed

lemma enqueueJob_not_done:
  assumes "jobs_inv s" and "not_done i s"
  shows "not_done i (snd (enqueueJob ty p pr ra b s))"
proof -
  obtain r s' where e: "enqueueJob ty p pr ra b s = (r, s')" by fastforce
  have f: "List.find P (xs @ [y]) = (case List.find P xs of Some x \<Rightarrow> Some x | None \<Rightarrow> if P y then Some y else None)"
    for P :: "job \<Rightarrow> bool" and xs y by (induction xs) auto
  show ?thesis
    using enqueueJob_cases[OF e] e assms(2)
    by (auto simp: not_done_def getJob_def f new_job_def is_active_def split: option.splits if_splits)
qed

lemma demo_body_ok: "body_ok demo_body"
  unfolding body_ok_def demo_body_def
  by (auto simp: enqueueJob_running enqueueJob_not_done intro: inv_intros split: if_splits)

theorem processJobs_leaves_no_claim_witness:
  "running_ids (ls_store (snd (processJobs default_config demo_body None (Some 2) None None two_pending))) = {} \<and>
   fst (fst (processJobs default_config demo_body None (Some 2) None None two_pending)) \<le> 2"
proof -
  obtain pr w ls where e: "processJobs default_config demo_body None (Some 2) None None two_pending = ((pr, w), ls)"
    by (cases "processJobs default_config demo_body None (Some 2) None None two_pending") auto
  have "list_all (\<lambda>j. \<not> is_running j) (jobs two_pending)" by code_simp
  then have "running_ids two_pending = {}" by (auto simp: running_ids_def list_all_iff)
  then show ?thesis
    using processJobs_leaves_no_claim[OF two_pending_reach demo_body_ok e] e by auto
qed

section \<open>Slot 0 never idles\<close>

lemma claimNextJob_some:
  assumes "jobs_inv s" and "x \<in> set (jobs s)" and "runnable (clock s) x"
  shows "fst (claimNextJob ab s) \<noteq> None"
  using claimNextJob_head[OF assms(1), of ab "fst (claimNextJob ab s)" "snd (claimNextJob ab s)"] assms(2,3)
  by auto

lemma claimIngestJobById_some:
  assumes "jobs_inv s" and "j \<in> set (jobs s)" and "runnable (clock s) j" and "job_kind j \<in> set INGEST_JOB_TYPES"
  shows "fst (claimIngestJobById (job_id j) s) \<noteq> None"
proof -
  obtain h where h: "List.find (\<lambda>x. job_id x = job_id j \<and> runnable (clock s) x \<and>
      job_kind x \<in> set INGEST_JOB_TYPES) (jobs s) = Some h"
    using assms(2-4) by (cases "List.find (\<lambda>x. job_id x = job_id j \<and> runnable (clock s) x \<and>
      job_kind x \<in> set INGEST_JOB_TYPES) (jobs s)") (auto simp: find_None_iff)
  then have "h \<in> set (jobs s)" "is_pending h" "job_id h = job_id j"
    by (auto simp: find_Some_iff runnable_def)
  then show ?thesis
    using markJobRunning_spec(1)[OF assms(1), of h "clock s"] h
    by (simp add: claimIngestJobById_def claim_head_def)
qed

lemma candidates_in:
  assumes "c \<in> set (listPendingIngestCandidates n s)"
  shows "\<exists>j\<in>set (jobs s). job_id c = job_id j \<and> runnable (clock s) j \<and> job_kind j \<in> set INGEST_JOB_TYPES"
  using assms by (auto simp: listPendingIngestCandidates_def strip_candidate_def dest!: in_set_takeD)

lemma to_slot_Claimed: "r \<noteq> None \<Longrightarrow> \<exists>j. to_slot r = Claimed j"
  by (auto simp: to_slot_def)

lemma claim_slot0_claims:
  assumes "jobs_inv s" and "x \<in> set (jobs s)" and "runnable (clock s) x"
  shows "\<exists>j. fst (claim_slot0 cfg ctx None s) = Claimed j"
proof -
  have next_claims: "\<exists>j. to_slot (fst (claimNextJob ab s)) = Claimed j" for ab
    by (rule to_slot_Claimed[OF claimNextJob_some[OF assms]])
  show ?thesis
  proof (cases "pollSliceEveryNCrons cfg > 0 \<and> maintenanceCronCounter (sched s) mod pollSliceEveryNCrons cfg = 0")
    case True
    then show ?thesis using next_claims by (simp add: claim_slot0_def Let_def split_beta)
  next
    case False
    obtain cands cache' where ic: "ingestCandidatesForPick None (claimedIds ctx) s = (cands, cache')" by fastforce
    then have cs: "set cands \<subseteq> set (listPendingIngestCandidates 32 s)"
      by (auto simp: ingestCandidatesForPick_def Let_def)
    let ?op = "(slot_pick_opts cfg ctx)\<lparr>preferContinuation := True\<rparr>"
    show ?thesis
    proof (cases "pickIngestCandidate cands cfg ?op")
      case None
      then show ?thesis using False ic next_claims
        by (auto simp: claim_slot0_def Let_def split_beta)
    next
      case (Some c)
      then have "c \<in> set cands"
        using pickIngestCandidate_pool(1)[OF Some]
        by (auto simp: pick_pool_def Let_def split: if_splits option.splits)
      then obtain j where j: "j \<in> set (jobs s)" "job_id c = job_id j" "runnable (clock s) j"
          "job_kind j \<in> set INGEST_JOB_TYPES"
        using cs candidates_in by blast
      have "\<exists>y. to_slot (fst (claimIngestJobById (job_id c) s)) = Claimed y"
        using to_slot_Claimed[OF claimIngestJobById_some[OF assms(1) j(1,3,4)]] j(2) by simp
      then show ?thesis using False ic Some
        by (auto simp: claim_slot0_def Let_def split_beta)
    qed
  qed
qed

text \<open>
  C7: the first slot of a tick never idles while there is work: if some pending job is runnable and
  the candidates are read fresh, slot 0 claims a job, whatever the maintenance and poll slices, the
  exclusions and the subrequest estimate say.
\<close>

theorem slot0_claims_when_runnable:
  assumes "job_reach opt t s" and "x \<in> set (jobs s)" and "runnable (clock s) x"
  shows "\<exists>j. fst (claimJobForSlot cfg 0 ctx None s) = Claimed j"
proof -
  note inv = job_reach_inv[OF assms(1)]
  have c0: "\<exists>j. fst (claim_slot0 cfg ctx None s) = Claimed j"
    by (rule claim_slot0_claims[OF inv assms(2,3)])
  obtain r s1 where c: "claimOldestMaintCosmeticJob (maintSliceMinWaitSec cfg) (claimedIds ctx)
         (Some (MAINT_TYPES @ COSMETIC_TYPES)) s = (r, s1)" by fastforce
  have "r = None \<Longrightarrow> s1 = s" using claimOldest_None_state[OF inv] c by blast
  then show ?thesis
    using c0 c by (cases r) (auto simp: claimJobForSlot_def Let_def)
qed

theorem slot0_claims_when_runnable_witness:
  "\<exists>j. fst (claimJobForSlot default_config 0 \<lparr>chainSlotUsed = True, pacingBlocked = True,
      claimedIds = [], ctx_budget = None\<rparr> None two_pending) = Claimed j"
proof -
  have "list_ex (runnable (clock two_pending)) (jobs two_pending)" by code_simp
  then obtain x where "x \<in> set (jobs two_pending)" "runnable (clock two_pending) x"
    by (auto simp: list_ex_iff)
  then show ?thesis by (rule slot0_claims_when_runnable[OF two_pending_reach])
qed

section \<open>A failed job waits\<close>

lemma getJob_requeue:
  assumes "getJob i s = Some j"
  shows "getJob i (requeue i n e ra s) = Some (set_failed n e ra j)"
  using assms find_update_key[of job_id "set_failed n e ra" i i "jobs s"]
  by (simp add: getJob_def requeue_jobs update_job_def set_failed_def)

lemma foldl_min_gt:
  "b < x \<Longrightarrow> \<forall>y\<in>set xs. b < y \<Longrightarrow> b < foldl (\<lambda>a b. if a < b then a else b) x xs" for b :: time
  by (induction xs arbitrary: x) auto

lemma earliestProviderRetryAt_future:
  assumes "earliestProviderRetryAt s = Some t"
  shows "clock s < t"
proof -
  define f where "f = filter (\<lambda>t. t > clock s) (opt_list (providerRetryAfterAt (sched s) Esplora) @
      opt_list (providerRetryAfterAt (sched s) Mempool))"
  have f: "\<forall>y\<in>set f. clock s < y" by (auto simp: f_def)
  have e: "(case f of [] \<Rightarrow> None | x # xs \<Rightarrow> Some (foldl (\<lambda>a b. if a < b then a else b) x xs)) = Some t"
    using assms unfolding earliestProviderRetryAt_def Let_def f_def .
  then obtain x xs where "f = x # xs" by (cases f) auto
  then show ?thesis using e f foldl_min_gt[of "clock s" x xs] by auto
qed

lemma getJob_d1 [simp]: "getJob i (setD1QuotaPaused k at s) = getJob i s"
  by (simp add: getJob_def)

text \<open>
  A job that fails goes back to pending with the error recorded and never becomes runnable at
  once: an ordinary failure waits \<open>30 * attempt\<close> seconds, at most 300; a rate limit waits for the
  retry time of the providers; an ingest job that has been turned away too often is deferred for
  \<open>jobDeferSec\<close> with its attempts reset. Claiming stops for pacing, a D1 quota, or when no provider
  is left.
\<close>

lemma handleJobFailure_requeues:
  assumes "getJob (job_id j) s = Some row" and "attempts row = attempts j"
    and "handleJobFailure cfg j err s = (stop, s')"
  shows "\<exists>row'. getJob (job_id j) s' = Some row' \<and> job_status row' = Pending \<and>
    lastError row' = Some (error_message err) \<and> startedAt row' = None \<and>
    payloadJson row' = payloadJson row \<and>
    (case err of
       Rate_limit_not_ready m at \<Rightarrow> stop \<and>
         (if isIngestJobType (job_kind j) \<and> jobDeferAfterAttempts cfg \<le> attempts j + 1
          then runAfter row' = clock s + jobDeferSec cfg * 1000 \<and> attempts row' = 0
          else runAfter row' = at \<and> attempts row' = attempts j + 1)
     | D1_quota m k at \<Rightarrow> stop \<and> runAfter row' = at \<and> attempts row' = attempts j + 1 \<and>
         (case k of D1_read \<Rightarrow> d1ReadRetryAfterAt (sched s') = Some at
          | D1_write \<Rightarrow> d1WriteRetryAfterAt (sched s') = Some at)
     | Rate_limit m \<Rightarrow> stop = (\<not> hasAvailableChainProvider (clock s) (sched s)) \<and>
         attempts row' = attempts j + 1 \<and>
         (stop \<longrightarrow> 0 < apiThresholdBaseSec cfg \<longrightarrow> clock s < runAfter row')
     | _ \<Rightarrow> \<not> stop \<and> attempts row' = attempts j + 1 \<and>
         runAfter row' = clock s + min 300 (30 * (attempts j + 1)) * 1000)"
proof -
  note ear = earliestProviderRetryAt_future
  have fj: "getJob (job_id j) (failJob (job_id j) e ra s0) = Some (set_failed (attempts j + 1) e
      (case ra of Some t \<Rightarrow> t | None \<Rightarrow> clock s0) row)"
    if "getJob (job_id j) s0 = Some row" for e ra s0
    using getJob_requeue[OF that] that assms(2) by (simp add: failJob_def)
  have dj: "getJob (job_id j) (deferJob (job_id j) e ra s) = Some (set_failed 0 e ra row)" for e ra
    using getJob_requeue[OF assms(1)] by (simp add: deferJob_def)
  have d1: "d1ReadRetryAfterAt (sched (failJob i e ra s0)) = d1ReadRetryAfterAt (sched s0)"
    "d1WriteRetryAfterAt (sched (failJob i e ra s0)) = d1WriteRetryAfterAt (sched s0)" for i e ra s0
    by (auto simp: failJob_def requeue_def Let_def adjustPendingJobCount_def adjust_def split: option.splits)
  show ?thesis
  proof (cases err)
    case (Enqueue_blocked r)
    then show ?thesis
      using assms(3) fj[OF assms(1)] by (simp add: handleJobFailure_def Let_def) (auto simp: set_failed_def)
  next
    case (Other_error m)
    then show ?thesis
      using assms(3) fj[OF assms(1)] by (simp add: handleJobFailure_def Let_def) (auto simp: set_failed_def)
  next
    case (Rate_limit_not_ready m at)
    then show ?thesis
      using assms(3) fj[OF assms(1)] dj
      by (simp add: handleJobFailure_def Let_def split: if_splits) (auto simp: set_failed_def)
  next
    case (D1_quota m k at)
    have "getJob (job_id j) (setD1QuotaPaused k at s) = Some row" by (simp add: assms(1))
    from fj[OF this] show ?thesis
      using assms(3) D1_quota
      by (cases k) (simp_all add: handleJobFailure_def Let_def set_failed_def d1 setD1QuotaPaused_def
          del: getJob_d1, auto simp: d1)
  next
    case (Rate_limit m)
    then show ?thesis
      using assms(3) fj[OF assms(1)] ear
      by (cases "hasAvailableChainProvider (clock s) (sched s)"; cases "earliestProviderRetryAt s")
         (simp add: handleJobFailure_def Let_def, auto simp: set_failed_def)+
  qed
qed

definition failed_once :: "bool \<times> store" where
  "failed_once = handleJobFailure default_config (hd (jobs two_pending)) (Other_error ''x'') two_pending"

lemma handleJobFailure_requeues_witness:
  "map_option runAfter (getJob 1 (snd failed_once)) = Some (1000 + 30 * 1000)"
proof -
  let ?j = "hd (jobs two_pending)"
  have c: "job_id ?j = 1" "attempts ?j = 0" "clock two_pending = 1000" by code_simp+
  have "getJob (job_id ?j) two_pending = Some ?j" by code_simp
  moreover obtain stop s' where h: "handleJobFailure default_config ?j (Other_error ''x'') two_pending = (stop, s')"
    by fastforce
  ultimately show ?thesis
    using handleJobFailure_requeues[of ?j two_pending ?j default_config "Other_error ''x''" stop s'] c
    by (auto simp: failed_once_def)
qed

end
