(* ===== verification/AddressStore.thy ===== *)
theory AddressStore
  imports Counters
begin

text \<open>
  The address rows of \<open>packages/db/src/store.ts\<close>: insertion and upsert (\<open>upsertAddress\<close>,
  \<open>insertAddressIfMissing\<close>, \<open>upsertAddressesBatch\<close>), the expand status, and what each write does
  to the maintained counters: the crawl, victim, expanded, tree and active-hacker counts of
  \<open>scheduler_state\<close>, the per-hack totals of \<open>hack_stats\<close>, the cached poll-due count, and the cache
  of flagged hackers.
\<close>

section \<open>What a row counts as\<close>

definition isCrawlPendingEligible :: "role \<Rightarrow> expand_status \<Rightarrow> bool" where
  "isCrawlPendingEligible r x \<longleftrightarrow> x = XPending \<and> (r = Downstream \<or> r = Hacker)"

definition isExpandedStatus :: "expand_status \<Rightarrow> bool" where
  "isExpandedStatus x \<longleftrightarrow> x = XExpanded"

definition isHackerActive :: "bool \<Rightarrow> int \<Rightarrow> bool" where
  "isHackerActive flagged received \<longleftrightarrow> flagged \<and> received > 0"

definition isDownstreamTreeNode :: "role \<Rightarrow> int option \<Rightarrow> int \<Rightarrow> bool" where
  "isDownstreamTreeNode r hop maxDepth \<longleftrightarrow>
     r = Downstream \<and> (case hop of Some h \<Rightarrow> h < maxDepth | None \<Rightarrow> False)"

definition crossedMinExpandThreshold :: "int \<Rightarrow> int \<Rightarrow> int \<Rightarrow> bool" where
  "crossedMinExpandThreshold before after floor \<longleftrightarrow>
     (if floor \<le> 0 then False else (before \<ge> floor) \<noteq> (after \<ge> floor))"

definition isDownstreamPollEligibleAddress ::
  "role \<Rightarrow> expand_status \<Rightarrow> int option \<Rightarrow> int \<Rightarrow> int \<Rightarrow> int \<Rightarrow> bool" where
  "isDownstreamPollEligibleAddress r x hop maxDepth inbound minExpand \<longleftrightarrow>
     (let floor = max 0 minExpand
      in r = Downstream \<and> (x = XExpanded \<or> x = XPending) \<and>
         (case hop of Some h \<Rightarrow> h < maxDepth | None \<Rightarrow> False) \<and>
         (floor \<le> 0 \<or> max 0 inbound \<ge> floor))"

definition isCacheFresh :: "time option \<Rightarrow> int \<Rightarrow> time \<Rightarrow> bool" where
  "isCacheFresh at maxAgeSec nowMs =
     (case at of None \<Rightarrow> False | Some t \<Rightarrow> nowMs - t \<le> maxAgeSec * 1000)"

definition pollDueCacheTtlSec :: "int \<Rightarrow> int" where
  "pollDueCacheTtlSec interval = max 0 interval"

section \<open>Reading rows\<close>

definition getAddress :: "address \<Rightarrow> store \<Rightarrow> addr_row option" where
  "getAddress a s = List.find (\<lambda>r. address_of r = a) (addresses s)"

text \<open>
  \<open>loadAddressesByList\<close>: the map of the rows found; the empty text is left out
  (\<open>filter(Boolean)\<close>). Chunking the \<open>IN\<close> list does not change what is found.
\<close>

definition loadAddressesByList :: "address list \<Rightarrow> store \<Rightarrow> address \<Rightarrow> addr_row option" where
  "loadAddressesByList as s a = (if a \<in> set as \<and> a \<noteq> [] then getAddress a s else None)"

definition getExistingAddressSet :: "address list \<Rightarrow> store \<Rightarrow> address list" where
  "getExistingAddressSet as s = filter (\<lambda>a. a \<noteq> [] \<and> getAddress a s \<noteq> None) (uniq as)"

definition getDownstreamExpandContext ::
  "address list \<Rightarrow> store \<Rightarrow> address \<Rightarrow> (expand_status \<times> int) option" where
  "getDownstreamExpandContext as s a =
     map_option (\<lambda>r. (expandStatus r, inboundSats r)) (loadAddressesByList as s a)"

section \<open>Upserting a row\<close>

text \<open>
  \<open>AddressUpsertData\<close>: \<open>None\<close> is \<open>undefined\<close>; for a nullable column \<open>Some None\<close> is \<open>null\<close>. The
  fields that no statement reads (\<open>expandProfile\<close>, the meta texts) are left out.
\<close>

record addr_upsert =
  u_address :: address
  u_role :: "role option"
  u_label :: "string option option"
  u_source :: "string option"
  u_hackId :: "string option"
  u_flagged :: "bool option"
  u_hop :: "int option option"
  u_expandStatus :: "expand_status option"
  u_totalReceived :: "int option"
  u_liveBalance :: "int option option"
  u_liveBalanceAt :: "time option option"
  u_forceRole :: bool

definition plain_upsert :: "address \<Rightarrow> addr_upsert" where
  "plain_upsert a = \<lparr>u_address = a, u_role = None, u_label = None, u_source = None, u_hackId = None,
     u_flagged = None, u_hop = None, u_expandStatus = None, u_totalReceived = None,
     u_liveBalance = None, u_liveBalanceAt = None, u_forceRole = False\<rparr>"

definition or_else :: "'a option \<Rightarrow> 'a \<Rightarrow> 'a" where
  "or_else v d = (case v of Some x \<Rightarrow> x | None \<Rightarrow> d)"

lemma or_else_simps [simp]: "or_else None d = d" "or_else (Some x) d = x"
  by (simp_all add: or_else_def)

text \<open>The row the \<open>INSERT\<close> proposes (\<open>excluded\<close>).\<close>

definition new_address :: "time \<Rightarrow> addr_upsert \<Rightarrow> addr_row" where
  "new_address ts u = \<lparr>address_of = u_address u, role_of = or_else (u_role u) Unknown_role,
     label_of = or_else (u_label u) None, source_of = or_else (u_source u) ''derived'',
     hackId = or_else (u_hackId u) ''coldcard'', isFlaggedHacker = or_else (u_flagged u) False,
     notes_of = None, firstSeenAt = Some ts, lastSeenAt = Some ts, addrCreatedAt = ts,
     hopFromHacker = or_else (u_hop u) None, expandStatus = or_else (u_expandStatus u) XPending,
     lastExpandedAt = None, expandProfile = None, relayMeta = None, fanoutMeta = None,
     totalReceivedSats = or_else (u_totalReceived u) 0, inboundSats = 0,
     liveBalanceSats = or_else (u_liveBalance u) None, liveBalanceAt = or_else (u_liveBalanceAt u) None,
     lastGraphActivityAt = None\<rparr>"

text \<open>A hacker or downstream row is not turned into a victim, unless \<open>forceRole\<close>.\<close>

definition role_protected :: "addr_upsert \<Rightarrow> addr_row \<Rightarrow> bool" where
  "role_protected u r \<longleftrightarrow>
     \<not> u_forceRole u \<and> role_of r \<in> {Hacker, Downstream} \<and> or_else (u_role u) Unknown_role = Victim"

definition merge_address :: "time \<Rightarrow> addr_upsert \<Rightarrow> addr_row \<Rightarrow> addr_row" where
  "merge_address ts u r = r\<lparr>
     role_of := (if role_protected u r then role_of r else or_else (u_role u) (role_of r)),
     label_of := or_else (u_label u) (label_of r),
     source_of := or_else (u_source u) (source_of r),
     hackId := or_else (u_hackId u) (hackId r),
     isFlaggedHacker := or_else (u_flagged u) (isFlaggedHacker r),
     hopFromHacker := (if role_protected u r then hopFromHacker r else or_else (u_hop u) (hopFromHacker r)),
     expandStatus := or_else (u_expandStatus u) (expandStatus r),
     totalReceivedSats := or_else (u_totalReceived u) (totalReceivedSats r),
     liveBalanceSats := or_else (u_liveBalance u) (liveBalanceSats r),
     liveBalanceAt := or_else (u_liveBalanceAt u) (liveBalanceAt r),
     lastSeenAt := Some ts\<rparr>"

definition put_address :: "time \<Rightarrow> addr_upsert \<Rightarrow> addr_row list \<Rightarrow> addr_row list" where
  "put_address ts u rows =
     (if \<exists>r\<in>set rows. address_of r = u_address u
      then update_where (\<lambda>r. address_of r = u_address u) (merge_address ts u) rows
      else rows @ [new_address ts u])"

section \<open>Counters of the writes\<close>

datatype hack_field = HS_victims | HS_hackers | HS_totalIn

definition empty_hack_stats :: hack_stats_row where
  "empty_hack_stats = \<lparr>hs_victimCount = 0, hs_hackerCount = 0, hs_totalInSats = 0\<rparr>"

text \<open>\<open>ensureHackStatsRow\<close> and the update of one row, created first if absent.\<close>

definition ensureHackStatsRow ::
  "string \<Rightarrow> (string \<times> hack_stats_row) list \<Rightarrow> (string \<times> hack_stats_row) list" where
  "ensureHackStatsRow h m = (if map_of m h = None then m @ [(h, empty_hack_stats)] else m)"

fun bump_hack_field :: "hack_field \<Rightarrow> int \<Rightarrow> hack_stats_row \<Rightarrow> hack_stats_row" where
  "bump_hack_field HS_victims d r = r\<lparr>hs_victimCount := bump d (hs_victimCount r)\<rparr>"
| "bump_hack_field HS_hackers d r = r\<lparr>hs_hackerCount := bump d (hs_hackerCount r)\<rparr>"
| "bump_hack_field HS_totalIn d r = r\<lparr>hs_totalInSats := bump d (hs_totalInSats r)\<rparr>"

definition adjustHackStatsCounter :: "string \<Rightarrow> hack_field \<Rightarrow> int \<Rightarrow> store \<Rightarrow> store" where
  "adjustHackStatsCounter h k delta s =
     (if delta = 0 then s
      else s\<lparr>hack_stats := map (\<lambda>(h', r). (h', if h' = h then bump_hack_field k delta r else r))
               (ensureHackStatsRow h (hack_stats s))\<rparr>)"

definition reconcileHackStatsForAddress :: "addr_row option \<Rightarrow> addr_row \<Rightarrow> store \<Rightarrow> store" where
  "reconcileHackStatsForAddress before after s =
     (let wasFlagged = (case before of Some b \<Rightarrow> isFlaggedHacker b | None \<Rightarrow> False);
          oldHack = (case before of Some b \<Rightarrow> hackId b | None \<Rightarrow> ''coldcard'');
          flagChanged = (wasFlagged \<noteq> isFlaggedHacker after);
          hackIdChanged = (oldHack \<noteq> hackId after)
      in if \<not> flagChanged \<and> \<not> hackIdChanged then s
         else
           let s1 = (case before of
                       Some b \<Rightarrow>
                         if isFlaggedHacker b
                         then (let s0 = adjustHackStatsCounter (hackId b) HS_totalIn (- totalReceivedSats b) s
                               in if isHackerActive (isFlaggedHacker b) (totalReceivedSats b) \<and>
                                     hackIdChanged \<and> \<not> flagChanged
                                  then adjustHackStatsCounter (hackId b) HS_hackers (- 1) s0 else s0)
                         else s
                     | None \<Rightarrow> s)
           in if isFlaggedHacker after
              then (let s2 = adjustHackStatsCounter (hackId after) HS_totalIn (totalReceivedSats after) s1
                    in if isHackerActive (isFlaggedHacker after) (totalReceivedSats after) \<and>
                          hackIdChanged \<and> \<not> flagChanged
                       then adjustHackStatsCounter (hackId after) HS_hackers 1 s2 else s2)
              else s1)"

definition adjustCrawlPendingCount :: "int \<Rightarrow> store \<Rightarrow> store" where
  "adjustCrawlPendingCount = adjust CrawlPending"

definition adjustSchedulerCounter :: "counter \<Rightarrow> int \<Rightarrow> store \<Rightarrow> store" where
  "adjustSchedulerCounter = adjust"

text \<open>The recurring shape \<open>if (was !== is) await this.adjustSchedulerCounter(k, is ? 1 : -1)\<close>.\<close>

definition flip_counter :: "counter \<Rightarrow> bool \<Rightarrow> bool \<Rightarrow> store \<Rightarrow> store" where
  "flip_counter k was now s =
     (if was \<noteq> now then adjustSchedulerCounter k (if now then 1 else - 1) s else s)"

definition row_holds :: "(addr_row \<Rightarrow> bool) \<Rightarrow> addr_row option \<Rightarrow> bool" where
  "row_holds P v = (case v of Some r \<Rightarrow> P r | None \<Rightarrow> False)"

definition is_active_row :: "addr_row \<Rightarrow> bool" where
  "is_active_row r = isHackerActive (isFlaggedHacker r) (totalReceivedSats r)"

text \<open>The scheduler counters, in the order of the code.\<close>

definition flip_address_counters :: "addr_row option \<Rightarrow> addr_row \<Rightarrow> store \<Rightarrow> store" where
  "flip_address_counters before a s =
     (let maxDepth = downstreamTreeMaxDepth (sched s);
          isTree = (\<lambda>r. isDownstreamTreeNode (role_of r) (hopFromHacker r) maxDepth);
          s1 = flip_counter VictimC (row_holds (\<lambda>b. role_of b = Victim) before) (role_of a = Victim) s;
          s2 = flip_counter CrawlExpanded (row_holds (\<lambda>b. isExpandedStatus (expandStatus b)) before)
                 (isExpandedStatus (expandStatus a)) s1;
          s3 = (if maxDepth > 0 then flip_counter DownstreamTree (row_holds isTree before) (isTree a) s2 else s2)
      in flip_counter HackerActive (row_holds is_active_row before) (is_active_row a) s3)"

text \<open>The hacker count of the hack, when the hacker becomes active or inactive.\<close>

definition flip_hack_hackers :: "addr_row option \<Rightarrow> addr_row \<Rightarrow> store \<Rightarrow> store" where
  "flip_hack_hackers before a s =
     (let was = row_holds is_active_row before; now = is_active_row a;
          h = (if now then hackId a else case before of Some b \<Rightarrow> hackId b | None \<Rightarrow> ''coldcard'')
      in if was \<noteq> now \<and> (if now then isFlaggedHacker a else row_holds isFlaggedHacker before)
         then adjustHackStatsCounter h HS_hackers (if now then 1 else - 1) s else s)"

definition raise_max_hop :: "int \<Rightarrow> addr_row \<Rightarrow> store \<Rightarrow> store" where
  "raise_max_hop currentMax a s =
     (case hopFromHacker a of
        Some h \<Rightarrow> if role_of a = Downstream \<and> h > currentMax
                  then updateSchedulerState (\<lambda>r. r\<lparr>crawlMaxHopReached := h\<rparr>) s else s
      | None \<Rightarrow> s)"

definition applyAddressStatsDelta :: "addr_row option \<Rightarrow> addr_row option \<Rightarrow> store \<Rightarrow> store" where
  "applyAddressStatsDelta before after s =
     (case after of
        None \<Rightarrow> s
      | Some a \<Rightarrow>
          raise_max_hop (crawlMaxHopReached (sched s)) a
            (reconcileHackStatsForAddress before a
              (flip_hack_hackers before a (flip_address_counters before a s))))"

text \<open>\<open>invalidateFlaggedHackersCache\<close> and \<open>markMonitorSnapshotDirty\<close>.\<close>

definition invalidateFlaggedHackersCache :: "store \<Rightarrow> store" where
  "invalidateFlaggedHackersCache =
     updateSchedulerState (\<lambda>r. r\<lparr>flaggedHackersCache := None, flaggedHackersCacheAt := None\<rparr>)"

definition markMonitorSnapshotDirty :: "store \<Rightarrow> store" where
  "markMonitorSnapshotDirty = updateSchedulerState (\<lambda>r. r\<lparr>monitorSnapshotDirty := True\<rparr>)"

text \<open>Whether the cached poll-due count is current for the parameters, and its adjustment.\<close>

definition poll_cache_fresh :: "int \<Rightarrow> int \<Rightarrow> int \<Rightarrow> store \<Rightarrow> bool" where
  "poll_cache_fresh maxDepth interval floor s \<longleftrightarrow>
     downstreamPollMaxDepth (sched s) = maxDepth \<and> downstreamPollIntervalSec (sched s) = interval \<and>
     downstreamPollMinExpandSats (sched s) = floor \<and>
     isCacheFresh (downstreamPollDueAt (sched s)) (pollDueCacheTtlSec interval) (clock s) \<and>
     \<not> monitorSnapshotDirty (sched s)"

definition adjustPollDueCountDelta :: "int \<Rightarrow> int \<Rightarrow> int \<Rightarrow> int \<Rightarrow> store \<Rightarrow> bool \<times> store" where
  "adjustPollDueCountDelta delta maxDepth interval floor s =
     (if delta = 0 then (True, s)
      else if \<not> poll_cache_fresh maxDepth interval floor s then (False, s)
      else (True, updateSchedulerState (\<lambda>r. (counter_upd PollDue (bump delta) r)
                     \<lparr>downstreamPollDueAt := Some (clock s)\<rparr>) s))"

definition poll_eligible_row :: "store \<Rightarrow> addr_row \<Rightarrow> bool" where
  "poll_eligible_row s r =
     isDownstreamPollEligibleAddress (role_of r) (expandStatus r) (hopFromHacker r)
       (downstreamTreeMaxDepth (sched s)) (inboundSats r) (downstreamPollMinExpandSats (sched s))"

definition maybeMarkMonitorSnapshotDirty :: "addr_row option \<Rightarrow> addr_row option \<Rightarrow> store \<Rightarrow> store" where
  "maybeMarkMonitorSnapshotDirty before after s =
     (let maxDepth = downstreamTreeMaxDepth (sched s);
          interval = downstreamPollIntervalSec (sched s);
          floor = downstreamPollMinExpandSats (sched s);
          was = (case before of Some b \<Rightarrow> poll_eligible_row s b | None \<Rightarrow> False);
          now = (case after of Some a \<Rightarrow> poll_eligible_row s a | None \<Rightarrow> False)
      in if maxDepth \<le> 0 then s
         else if was = now \<or> interval \<le> 0 then s
         else (case adjustPollDueCountDelta (if now then 1 else - 1) maxDepth interval floor s of
                 (True, s1) \<Rightarrow> s1
               | (False, s1) \<Rightarrow> markMonitorSnapshotDirty s1))"

section \<open>The operations\<close>

definition set_addresses :: "addr_row list \<Rightarrow> store \<Rightarrow> store" where
  "set_addresses rows s = s\<lparr>addresses := rows\<rparr>"

definition crawl_pending :: "addr_row option \<Rightarrow> bool" where
  "crawl_pending v = (case v of Some r \<Rightarrow> isCrawlPendingEligible (role_of r) (expandStatus r) | None \<Rightarrow> False)"

definition was_flagged :: "addr_row option \<Rightarrow> bool" where
  "was_flagged v = (case v of Some r \<Rightarrow> isFlaggedHacker r | None \<Rightarrow> False)"

definition upsertAddress :: "addr_upsert \<Rightarrow> store \<Rightarrow> store" where
  "upsertAddress u s =
     (let existing = getAddress (u_address u) s;
          s1 = set_addresses (put_address (clock s) u (addresses s)) s;
          s2 = (case u_flagged u of
                  Some f \<Rightarrow> if was_flagged existing \<noteq> f then invalidateFlaggedHackersCache s1 else s1
                | None \<Rightarrow> s1);
          updated = getAddress (u_address u) s2
      in if updated = None then s2
         else
           maybeMarkMonitorSnapshotDirty existing updated
             (applyAddressStatsDelta existing updated
               (adjustCrawlPendingCount (b2i (crawl_pending updated) - b2i (crawl_pending existing)) s2)))"

definition insertAddressIfMissing :: "addr_upsert \<Rightarrow> store \<Rightarrow> bool \<times> store" where
  "insertAddressIfMissing u s =
     (if getAddress (u_address u) s \<noteq> None then (False, s)
      else
        let s1 = set_addresses (addresses s @ [new_address (clock s) u]) s;
            s2 = (if isCrawlPendingEligible (or_else (u_role u) Unknown_role)
                       (or_else (u_expandStatus u) XPending)
                  then adjustCrawlPendingCount 1 s1 else s1)
        in case getAddress (u_address u) s2 of
             None \<Rightarrow> (True, s2)
           | Some r \<Rightarrow> (True, maybeMarkMonitorSnapshotDirty None (Some r)
                                (applyAddressStatsDelta None (Some r) s2)))"

text \<open>
  The batch. The statements run in chunks of \<open>d1BatchSize\<close> (at least one), in order; the
  statistics follow, once per address, from the last row to the first.
\<close>

definition batch_chunks :: "store \<Rightarrow> 'a list \<Rightarrow> 'a list list" where
  "batch_chunks s xs = chunks_of (nat (d1BatchSize (opts s)) - 1) xs"

definition put_addresses :: "time \<Rightarrow> addr_upsert list \<Rightarrow> addr_row list \<Rightarrow> addr_row list" where
  "put_addresses ts us rows = fold (put_address ts) us rows"

definition flag_changes :: "(address \<Rightarrow> addr_row option) \<Rightarrow> addr_upsert \<Rightarrow> bool" where
  "flag_changes before u =
     (case u_flagged u of Some f \<Rightarrow> was_flagged (before (u_address u)) \<noteq> f | None \<Rightarrow> False)"

definition apply_batch_stats ::
  "(address \<Rightarrow> addr_row option) \<Rightarrow> (address \<Rightarrow> addr_row option) \<Rightarrow> address list \<Rightarrow> store \<Rightarrow> store" where
  "apply_batch_stats before after as s =
     fold (\<lambda>a s. maybeMarkMonitorSnapshotDirty (before a) (after a)
                    (applyAddressStatsDelta (before a) (after a) s)) as s"

definition upsertAddressesBatch :: "addr_upsert list \<Rightarrow> store \<Rightarrow> store" where
  "upsertAddressesBatch us s =
     (if us = [] then s
      else
        let as = map u_address us;
            before = loadAddressesByList as s;
            s1 = set_addresses (fold (put_addresses (clock s)) (batch_chunks s us) (addresses s)) s;
            s2 = (if list_ex (flag_changes before) us then invalidateFlaggedHackersCache s1 else s1);
            after = loadAddressesByList as s2;
            order = uniq (rev as);
            s3 = apply_batch_stats before after order s2;
            delta = (\<Sum>a\<leftarrow>order. b2i (crawl_pending (after a)) - b2i (crawl_pending (before a)))
        in adjustCrawlPendingCount delta s3)"

definition setExpandStatus :: "address \<Rightarrow> expand_status \<Rightarrow> store \<Rightarrow> store" where
  "setExpandStatus a st s =
     (let existing = getAddress a s;
          s1 = set_addresses (update_where (\<lambda>r. address_of r = a)
                 (\<lambda>r. r\<lparr>expandStatus := st, lastExpandedAt := Some (clock s)\<rparr>) (addresses s)) s
      in case existing of
           None \<Rightarrow> s1
         | Some e \<Rightarrow>
             (let s2 = adjustCrawlPendingCount
                         (b2i (isCrawlPendingEligible (role_of e) st)
                          - b2i (isCrawlPendingEligible (role_of e) (expandStatus e))) s1;
                  s3 = flip_counter CrawlExpanded (isExpandedStatus (expandStatus e)) (isExpandedStatus st) s2
              in case getAddress a s3 of
                   None \<Rightarrow> s3
                 | Some r \<Rightarrow> maybeMarkMonitorSnapshotDirty (Some e) (Some r) s3))"

text \<open>Returns the number of rows changed.\<close>

definition resetStuckExpandStatuses :: "store \<Rightarrow> int \<times> store" where
  "resetStuckExpandStatuses s =
     (let stuck = (\<lambda>r. expandStatus r = XQueued \<or> expandStatus r = XExpanding);
          delta = count_rows (\<lambda>r. isCrawlPendingEligible (role_of r) XPending) (filter stuck (addresses s));
          s1 = set_addresses (update_where stuck (\<lambda>r. r\<lparr>expandStatus := XPending\<rparr>) (addresses s)) s
      in (count_rows stuck (addresses s), adjustCrawlPendingCount delta s1))"

definition setExpandProfile ::
  "address \<Rightarrow> string \<Rightarrow> json option option \<Rightarrow> json option option \<Rightarrow> store \<Rightarrow> store" where
  "setExpandProfile a profile relay fanout s =
     set_addresses (update_where (\<lambda>r. address_of r = a)
       (\<lambda>r. r\<lparr>expandProfile := Some profile, relayMeta := or_else relay (relayMeta r),
              fanoutMeta := or_else fanout (fanoutMeta r)\<rparr>) (addresses s)) s"

section \<open>Recounting\<close>

definition reconcileCrawlPendingCount :: "store \<Rightarrow> int \<times> store" where
  "reconcileCrawlPendingCount s =
     (let n = count_rows (\<lambda>r. expandStatus r = XPending \<and> (role_of r = Downstream \<or> role_of r = Hacker))
                (addresses s)
      in (n, updateSchedulerState (\<lambda>r. r\<lparr>crawlPendingCount := n\<rparr>) s))"

definition count_tree :: "int \<Rightarrow> store \<Rightarrow> int" where
  "count_tree maxDepth s =
     count_rows (\<lambda>r. role_of r = Downstream \<and> (case hopFromHacker r of Some h \<Rightarrow> h < maxDepth | None \<Rightarrow> False))
       (addresses s)"

definition reconcileDownstreamTreeCount :: "int \<Rightarrow> store \<Rightarrow> int \<times> store" where
  "reconcileDownstreamTreeCount maxDepth s =
     (count_tree maxDepth s,
      updateSchedulerState (\<lambda>r. r\<lparr>downstreamTreeCount := count_tree maxDepth s,
        downstreamTreeMaxDepth := maxDepth\<rparr>) s)"

definition ensureDownstreamTreeDepth :: "int \<Rightarrow> store \<Rightarrow> store" where
  "ensureDownstreamTreeDepth maxDepth s =
     (if downstreamTreeMaxDepth (sched s) \<noteq> maxDepth then snd (reconcileDownstreamTreeCount maxDepth s) else s)"

definition ensurePollDueCacheParams :: "int \<Rightarrow> int \<Rightarrow> int \<Rightarrow> store \<Rightarrow> store" where
  "ensurePollDueCacheParams maxDepth interval minExpand s =
     (let floor = max 0 minExpand
      in if downstreamPollMaxDepth (sched s) = maxDepth \<and> downstreamPollIntervalSec (sched s) = interval \<and>
            downstreamPollMinExpandSats (sched s) = floor
         then s
         else markMonitorSnapshotDirty (updateSchedulerState (\<lambda>r. r\<lparr>downstreamPollMaxDepth := maxDepth,
                downstreamPollIntervalSec := interval, downstreamPollMinExpandSats := floor\<rparr>) s))"

section \<open>The cache of flagged hackers\<close>

text \<open>
  \<open>listHackers\<close> without a search text, largest total first (\<open>ORDER BY\<close> does not fix the order of
  equal totals; insertion order is kept). A cached entry is the row it was taken from.
\<close>

definition listHackers :: "bool \<Rightarrow> store \<Rightarrow> addr_row list" where
  "listHackers activeOnly s =
     sort_key (\<lambda>r. - totalReceivedSats r)
       (filter (\<lambda>r. isFlaggedHacker r \<and> (activeOnly \<longrightarrow> totalReceivedSats r > 0)) (addresses s))"

definition refreshFlaggedHackersCache :: "store \<Rightarrow> addr_row list \<times> store" where
  "refreshFlaggedHackersCache s =
     (let rows = listHackers False s
      in (rows, updateSchedulerState (\<lambda>r. r\<lparr>flaggedHackersCache := Some rows,
            flaggedHackersCacheAt := Some (clock s)\<rparr>) s))"

definition filterFlaggedHackersCache :: "bool \<Rightarrow> addr_row list \<Rightarrow> addr_row list" where
  "filterFlaggedHackersCache activeOnly rows =
     (if activeOnly then filter (\<lambda>r. totalReceivedSats r > 0) rows else rows)"

definition listHackersCached :: "int option \<Rightarrow> bool \<Rightarrow> store \<Rightarrow> addr_row list \<times> store" where
  "listHackersCached maxAgeSec activeOnly s =
     (let age = or_else maxAgeSec 120
      in if isCacheFresh (flaggedHackersCacheAt (sched s)) age (clock s)
         then (filterFlaggedHackersCache activeOnly (or_else (flaggedHackersCache (sched s)) []), s)
         else (let (rows, s1) = refreshFlaggedHackersCache s
               in (filterFlaggedHackersCache activeOnly rows, s1)))"

definition getHackerAddressSet :: "store \<Rightarrow> address list \<times> store" where
  "getHackerAddressSet s = (let (rows, s1) = listHackersCached None False s in (uniq (map address_of rows), s1))"

end
