(* ===== verification/EdgeStore.thy ===== *)
theory EdgeStore
  imports AddressStore
begin

text \<open>
  Edges and transactions in \<open>packages/db/src/store.ts\<close>: the batched upsert of edges with the sums it
  maintains (\<open>total_received_sats\<close> of a hacker, \<open>inbound_sats\<close> of a downstream address, the totals
  of \<open>scheduler_state\<close>, the victims of a hack, the largest payment of each victim), the
  recalculations from the edges, and the upsert of a transaction.

  The code keys an edge by the text \<open>from|to|txid\<close>; addresses and transaction ids do not contain the
  separator, so the key is the triple.
\<close>

type_synonym edge_key = "address \<times> address \<times> txid"

definition edge_key :: "edge_row \<Rightarrow> edge_key" where
  "edge_key e = (fromAddress e, toAddress e, edge_txid e)"

text \<open>\<open>EdgeUpsertData\<close>.\<close>

record edge_upsert =
  eu_from :: address
  eu_to :: address
  eu_txid :: txid
  eu_amount :: int
  eu_blockTime :: "time option"
  eu_hop :: "int option"
  eu_direction :: direction
  eu_edgeKind :: "string option"
  eu_fanoutMeta :: "json option"

definition eu_key :: "edge_upsert \<Rightarrow> edge_key" where
  "eu_key u = (eu_from u, eu_to u, eu_txid u)"

definition new_edge :: "edge_upsert \<Rightarrow> edge_row" where
  "new_edge u = \<lparr>fromAddress = eu_from u, toAddress = eu_to u, edge_txid = eu_txid u,
     amountSats = eu_amount u, edge_blockTime = eu_blockTime u, edge_hop = eu_hop u,
     direction_of = eu_direction u, edgeKind = eu_edgeKind u, edge_fanoutMeta = eu_fanoutMeta u\<rparr>"

text \<open>SQL's \<open>COALESCE(x, y)\<close>.\<close>

definition coalesce :: "'a option \<Rightarrow> 'a option \<Rightarrow> 'a option" where
  "coalesce x y = (case x of None \<Rightarrow> y | Some _ \<Rightarrow> x)"

definition merge_edge :: "edge_upsert \<Rightarrow> edge_row \<Rightarrow> edge_row" where
  "merge_edge u e = e\<lparr>amountSats := eu_amount u,
     edge_blockTime := coalesce (eu_blockTime u) (edge_blockTime e),
     edge_hop := coalesce (eu_hop u) (edge_hop e),
     direction_of := eu_direction u,
     edgeKind := coalesce (eu_edgeKind u) (edgeKind e),
     edge_fanoutMeta := coalesce (eu_fanoutMeta u) (edge_fanoutMeta e)\<rparr>"

definition put_edge :: "edge_upsert \<Rightarrow> edge_row list \<Rightarrow> edge_row list" where
  "put_edge u rows =
     (if \<exists>e\<in>set rows. edge_key e = eu_key u
      then update_where (\<lambda>e. edge_key e = eu_key u) (merge_edge u) rows
      else rows @ [new_edge u])"

section \<open>What a chunk finds before it is written\<close>

definition tracked :: "edge_upsert \<Rightarrow> bool" where
  "tracked u \<longleftrightarrow> eu_direction u = In_to_hacker \<or> eu_direction u = Out_from_hacker"

text \<open>
  \<open>oldEdgeByKey\<close>: the stored edges of the chunk's transactions whose direction occurs among the
  tracked rows of the chunk.
\<close>

definition old_edge :: "edge_upsert list \<Rightarrow> edge_row list \<Rightarrow> edge_key \<Rightarrow> edge_row option" where
  "old_edge chunk rows k =
     (let t = filter tracked chunk
      in List.find (\<lambda>e. edge_key e = k \<and> edge_txid e \<in> eu_txid ` set t \<and>
                        direction_of e \<in> eu_direction ` set t) rows)"

definition old_amount :: "edge_upsert list \<Rightarrow> edge_row list \<Rightarrow> edge_upsert \<Rightarrow> int" where
  "old_amount chunk rows u = (case old_edge chunk rows (eu_key u) of Some e \<Rightarrow> amountSats e | None \<Rightarrow> 0)"

text \<open>\<open>deltaByHacker\<close> and \<open>deltaByInbound\<close>: the non-zero deltas of a direction, by target.\<close>

definition chunk_deltas ::
  "direction \<Rightarrow> edge_upsert list \<Rightarrow> edge_row list \<Rightarrow> (address \<times> int) list" where
  "chunk_deltas d chunk rows =
     fold (\<lambda>u m. let delta = eu_amount u - old_amount chunk rows u
                 in if eu_direction u = d \<and> delta \<noteq> 0 then map_add (eu_to u) delta m else m) chunk []"

section \<open>The sums on the address rows\<close>

definition applyTotalReceivedDelta :: "address \<Rightarrow> int \<Rightarrow> store \<Rightarrow> store" where
  "applyTotalReceivedDelta a delta s =
     (if delta = 0 then s
      else
        let before = getAddress a s;
            was = row_holds is_active_row before;
            now = row_holds (\<lambda>r. isHackerActive (isFlaggedHacker r) (totalReceivedSats r + delta)) before;
            s1 = set_addresses (update_where (\<lambda>r. address_of r = a)
                   (\<lambda>r. r\<lparr>totalReceivedSats := totalReceivedSats r + delta\<rparr>) (addresses s)) s;
            s2 = flip_counter HackerActive was now s1
        in case before of
             None \<Rightarrow> s2
           | Some b \<Rightarrow>
               if isFlaggedHacker b
               then adjustHackStatsCounter (hackId b) HS_totalIn delta
                      (if was \<noteq> now then adjustHackStatsCounter (hackId b) HS_hackers (if now then 1 else - 1) s2
                       else s2)
               else s2)"

definition getSyncState :: "address \<Rightarrow> store \<Rightarrow> sync_row option" where
  "getSyncState a s = List.find (\<lambda>r. sync_address r = a) (sync_state s)"

text \<open>Whether the address counts as due for polling: never polled, or not since the cutoff.\<close>

definition counts_as_due :: "int \<Rightarrow> sync_row option \<Rightarrow> time \<Rightarrow> bool" where
  "counts_as_due interval sync t =
     (case sync of
        None \<Rightarrow> True
      | Some r \<Rightarrow> (case lastPolledAt r of None \<Rightarrow> True | Some p \<Rightarrow> p \<le> t - interval * 1000))"

definition applyInboundSatsDelta :: "address \<Rightarrow> int \<Rightarrow> store \<Rightarrow> store" where
  "applyInboundSatsDelta a delta s =
     (if delta = 0 then s
      else
        let maxDepth = downstreamTreeMaxDepth (sched s);
            floor = downstreamPollMinExpandSats (sched s);
            interval = downstreamPollIntervalSec (sched s);
            s1 = set_addresses (update_where (\<lambda>r. address_of r = a)
                   (\<lambda>r. r\<lparr>inboundSats := inboundSats r + delta\<rparr>) (addresses s)) s
        in case getAddress a s of
             None \<Rightarrow> s1
           | Some e \<Rightarrow>
               (let before = inboundSats e; after = before + delta
                in if maxDepth \<le> 0 \<or> interval \<le> 0 then s1
                   else if \<not> crossedMinExpandThreshold before after floor then s1
                   else if \<not> isDownstreamPollEligibleAddress (role_of e) (expandStatus e) (hopFromHacker e)
                               maxDepth before 0 then s1
                   else if \<not> counts_as_due interval (getSyncState a s1) (clock s) then s1
                   else (case adjustPollDueCountDelta (if after \<ge> floor then 1 else - 1) maxDepth interval floor s1 of
                           (True, s2) \<Rightarrow> s2
                         | (False, s2) \<Rightarrow> markMonitorSnapshotDirty s2)))"

definition addInboundSats :: "address \<Rightarrow> int \<Rightarrow> store \<Rightarrow> store" where
  "addInboundSats = applyInboundSatsDelta"

section \<open>Victims and their largest payment\<close>

definition tryInsertHackVictim :: "string \<Rightarrow> address \<Rightarrow> store \<Rightarrow> bool \<times> store" where
  "tryInsertHackVictim h a s =
     (if (h, a) \<in> set (hack_victims s) then (False, s)
      else (True, s\<lparr>hack_victims := hack_victims s @ [(h, a)]\<rparr>))"

text \<open>The victims of the new in-edges of a chunk; the hacker rows are read before the loop.\<close>

definition count_new_victim :: "(address \<Rightarrow> addr_row option) \<Rightarrow> edge_upsert \<Rightarrow> store \<Rightarrow> store" where
  "count_new_victim hackerByAddress u s =
     (case hackerByAddress (eu_to u) of
        None \<Rightarrow> s
      | Some h \<Rightarrow>
          if \<not> isFlaggedHacker h then s
          else (case tryInsertHackVictim (hackId h) (eu_from u) s of
                  (True, s1) \<Rightarrow> adjustHackStatsCounter (hackId h) HS_victims 1 s1
                | (False, s1) \<Rightarrow> s1))"

definition put_peak ::
  "(address \<times> address) \<Rightarrow> int \<Rightarrow> ((address \<times> address) \<times> int) list \<Rightarrow> ((address \<times> address) \<times> int) list" where
  "put_peak k v m = (case map_of m k of None \<Rightarrow> m @ [(k, v)] | Some x \<Rightarrow> map_put k (max x v) m)"

definition in_edges_between :: "address \<Rightarrow> address \<Rightarrow> edge_row list \<Rightarrow> edge_row list" where
  "in_edges_between hacker victim rows =
     filter (\<lambda>e. toAddress e = hacker \<and> fromAddress e = victim \<and> direction_of e = In_to_hacker) rows"

text \<open>\<open>MAX(amount_sats)\<close>, 0 on no rows (\<open>row?.maxAmount ?? 0\<close>).\<close>

definition max_amount :: "edge_row list \<Rightarrow> int" where
  "max_amount es = (case map amountSats es of [] \<Rightarrow> 0 | x # xs \<Rightarrow> foldl max x xs)"

definition applyHackerVictimPeakDelta :: "address \<Rightarrow> address \<Rightarrow> int \<Rightarrow> int \<Rightarrow> store \<Rightarrow> store" where
  "applyHackerVictimPeakDelta hacker victim newAmount oldAmount s =
     (if newAmount \<le> 0 \<and> oldAmount \<le> 0 then s
      else if newAmount \<ge> oldAmount
      then s\<lparr>hacker_victim_peaks := put_peak (hacker, victim) newAmount (hacker_victim_peaks s)\<rparr>
      else (case map_of (hacker_victim_peaks s) (hacker, victim) of
              None \<Rightarrow> s
            | Some peak \<Rightarrow>
                if oldAmount < peak then s
                else
                  let recomputed = max_amount (in_edges_between hacker victim (edges s))
                  in if recomputed \<le> 0
                     then s\<lparr>hacker_victim_peaks :=
                              filter (\<lambda>(k, v). k \<noteq> (hacker, victim)) (hacker_victim_peaks s)\<rparr>
                     else s\<lparr>hacker_victim_peaks :=
                              map_put (hacker, victim) recomputed (hacker_victim_peaks s)\<rparr>))"

section \<open>The batch\<close>

definition adjustEdgeTotalsCounters :: "int \<Rightarrow> int \<Rightarrow> store \<Rightarrow> store" where
  "adjustEdgeTotalsCounters din dout s =
     (if din = 0 \<and> dout = 0 then s
      else updateSchedulerState (counter_upd TotalOut (bump dout) \<circ> counter_upd TotalIn (bump din)) s)"

text \<open>
  The totals that a chunk adds. An in-edge counts by how much it exceeds the stored amount; an
  out-edge counts in full.
\<close>

definition chunk_total_in :: "edge_upsert list \<Rightarrow> edge_row list \<Rightarrow> int" where
  "chunk_total_in chunk rows =
     (\<Sum>u\<leftarrow>chunk. if eu_direction u = In_to_hacker then eu_amount u - old_amount chunk rows u else 0)"

definition chunk_total_out :: "edge_upsert list \<Rightarrow> int" where
  "chunk_total_out chunk = (\<Sum>u\<leftarrow>chunk. if eu_direction u = Out_from_hacker then eu_amount u else 0)"

definition upsert_edge_chunk :: "edge_upsert list \<Rightarrow> store \<Rightarrow> store" where
  "upsert_edge_chunk chunk s =
     (let rows = edges s;
          s1 = s\<lparr>edges := fold put_edge chunk rows\<rparr>;
          s2 = fold (\<lambda>(a, d). applyTotalReceivedDelta a d) (chunk_deltas In_to_hacker chunk rows) s1;
          s3 = fold (\<lambda>(a, d). applyInboundSatsDelta a d) (chunk_deltas Out_from_hacker chunk rows) s2;
          fresh = filter (\<lambda>u. eu_direction u = In_to_hacker \<and> old_edge chunk rows (eu_key u) = None) chunk;
          hackers = (\<lambda>a. if a \<in> eu_to ` set fresh then getAddress a s3 else None);
          s4 = fold (count_new_victim hackers) fresh s3
      in fold (\<lambda>u. applyHackerVictimPeakDelta (eu_to u) (eu_from u) (eu_amount u) (old_amount chunk rows u))
           (filter (\<lambda>u. eu_direction u = In_to_hacker) chunk) s4)"

fun upsert_edge_chunks :: "edge_upsert list list \<Rightarrow> int \<Rightarrow> int \<Rightarrow> store \<Rightarrow> store" where
  "upsert_edge_chunks [] din dout s = adjustEdgeTotalsCounters din dout s"
| "upsert_edge_chunks (c # cs) din dout s =
     upsert_edge_chunks cs (din + chunk_total_in c (edges s)) (dout + chunk_total_out c) (upsert_edge_chunk c s)"

definition upsertEdgesBatch :: "edge_upsert list \<Rightarrow> store \<Rightarrow> store" where
  "upsertEdgesBatch us s = (if us = [] then s else upsert_edge_chunks (batch_chunks s us) 0 0 s)"

definition upsertEdge :: "edge_upsert \<Rightarrow> store \<Rightarrow> store" where
  "upsertEdge u = upsertEdgesBatch [u]"

section \<open>Sums from the edges\<close>

definition in_sum :: "address \<Rightarrow> edge_row list \<Rightarrow> int" where
  "in_sum a es = (\<Sum>e\<leftarrow>es. if toAddress e = a \<and> direction_of e = In_to_hacker then amountSats e else 0)"

definition out_sum :: "address \<Rightarrow> edge_row list \<Rightarrow> int" where
  "out_sum a es = (\<Sum>e\<leftarrow>es. if toAddress e = a \<and> direction_of e = Out_from_hacker then amountSats e else 0)"

definition sumOutFromHacker :: "address \<Rightarrow> store \<Rightarrow> int" where
  "sumOutFromHacker a s =
     (\<Sum>e\<leftarrow>edges s. if fromAddress e = a \<and> direction_of e = Out_from_hacker then amountSats e else 0)"

definition recalcTotalReceived :: "address \<Rightarrow> store \<Rightarrow> store" where
  "recalcTotalReceived a s =
     (let before = getAddress a s;
          nextTotal = in_sum a (edges s);
          s1 = set_addresses (update_where (\<lambda>r. address_of r = a)
                 (\<lambda>r. r\<lparr>totalReceivedSats := nextTotal\<rparr>) (addresses s)) s
      in case before of
           None \<Rightarrow> s1
         | Some b \<Rightarrow>
             if isFlaggedHacker b
             then (let s2 = adjustHackStatsCounter (hackId b) HS_totalIn (nextTotal - totalReceivedSats b) s1;
                       was = isHackerActive (isFlaggedHacker b) (totalReceivedSats b);
                       now = isHackerActive (isFlaggedHacker b) nextTotal
                   in if was \<noteq> now then adjustHackStatsCounter (hackId b) HS_hackers (if now then 1 else - 1) s2
                      else s2)
             else s1)"

definition recalcTotalReceivedFor :: "address list \<Rightarrow> store \<Rightarrow> store" where
  "recalcTotalReceivedFor as s = fold recalcTotalReceived (uniq as) s"

definition recalcInboundSats :: "address \<Rightarrow> store \<Rightarrow> store" where
  "recalcInboundSats a s =
     set_addresses (update_where (\<lambda>r. address_of r = a)
       (\<lambda>r. r\<lparr>inboundSats := out_sum a (edges s)\<rparr>) (addresses s)) s"

definition recalcInboundSatsFor :: "address list \<Rightarrow> store \<Rightarrow> store" where
  "recalcInboundSatsFor as s = fold recalcInboundSats (filter (\<lambda>a. a \<noteq> []) (uniq as)) s"

definition recalcAllTotalReceived :: "store \<Rightarrow> store" where
  "recalcAllTotalReceived s =
     (let (hackers, s1) = listHackersCached None False s
      in fold (\<lambda>h. recalcTotalReceived (address_of h)) hackers s1)"

definition deleteHackTraceEdges :: "store \<Rightarrow> store" where
  "deleteHackTraceEdges s =
     set_addresses (map (\<lambda>r. r\<lparr>inboundSats := 0\<rparr>) (addresses s))
       (s\<lparr>edges := filter (\<lambda>e. \<not> (direction_of e = In_to_hacker \<or> direction_of e = Out_from_hacker)) (edges s)\<rparr>)"

definition resetHackerTotalReceived :: "store \<Rightarrow> store" where
  "resetHackerTotalReceived s =
     set_addresses (update_where isFlaggedHacker (\<lambda>r. r\<lparr>totalReceivedSats := 0\<rparr>) (addresses s)) s"

section \<open>Transactions\<close>

text \<open>\<open>tu_opReturn\<close> distinguishes \<open>undefined\<close> (\<open>None\<close>) from \<open>null\<close> (\<open>Some None\<close>).\<close>

record tx_upsert =
  tu_txid :: txid
  tu_blockHeight :: "int option"
  tu_blockTime :: "time option"
  tu_fee :: "int option"
  tu_opReturn :: "string option option"

definition getTransaction :: "txid \<Rightarrow> store \<Rightarrow> tx_row option" where
  "getTransaction t s = List.find (\<lambda>r. tx_id r = t) (transactions s)"

definition merge_tx :: "tx_upsert \<Rightarrow> tx_row \<Rightarrow> tx_row" where
  "merge_tx u r = r\<lparr>
     blockHeight := coalesce (tu_blockHeight u) (blockHeight r),
     blockTime := coalesce (tu_blockTime u) (blockTime r),
     feeSats := coalesce (tu_fee u) (feeSats r),
     opReturnDisplay :=
       (if (case opReturnDisplay r of None \<Rightarrow> False | Some d \<Rightarrow> d \<noteq> []) then opReturnDisplay r
        else or_else (tu_opReturn u) (opReturnDisplay r))\<rparr>"

definition upsertTransaction :: "tx_upsert \<Rightarrow> store \<Rightarrow> store" where
  "upsertTransaction u s =
     s\<lparr>transactions :=
        (if \<exists>r\<in>set (transactions s). tx_id r = tu_txid u
         then update_where (\<lambda>r. tx_id r = tu_txid u) (merge_tx u) (transactions s)
         else transactions s @ [\<lparr>tx_id = tu_txid u, blockHeight = tu_blockHeight u,
                blockTime = tu_blockTime u, feeSats = tu_fee u, opReturnDisplay = or_else (tu_opReturn u) None\<rparr>])\<rparr>"

definition listIndexedTxids :: "store \<Rightarrow> txid list" where
  "listIndexedTxids s = map tx_id (transactions s)"

text \<open>\<open>getExistingInToHackerEdgeKeys\<close>: the keys of the stored in-edges of the rows' transactions.\<close>

definition getExistingInToHackerEdgeKeys :: "txid list \<Rightarrow> store \<Rightarrow> edge_key list" where
  "getExistingInToHackerEdgeKeys txids s =
     map edge_key (filter (\<lambda>e. edge_txid e \<in> set txids \<and> direction_of e = In_to_hacker) (edges s))"

end
