(* ===== verification/RootHackers.thy ===== *)
theory RootHackers
  imports EdgeStore
begin

text \<open>
  \<open>findRootHackersForSpenders\<close> of \<open>packages/db/src/store.ts\<close>: from each seed a breadth-first walk
  back along the out-edges of hackers, stopping at flagged hackers. The caches of rows and inbound
  edges only save queries: one run reads one state.

  The walk ends because every step shortens the queue or adds one of the finitely many addresses to
  the visited ones; what it returns is characterised by reachability.
\<close>

definition flagged_address :: "store \<Rightarrow> address \<Rightarrow> bool" where
  "flagged_address s a = (case getAddress a s of Some r \<Rightarrow> isFlaggedHacker r | None \<Rightarrow> False)"

definition inbound_from :: "store \<Rightarrow> address \<Rightarrow> address list" where
  "inbound_from s a =
     map fromAddress (filter (\<lambda>e. toAddress e = a \<and> direction_of e = Out_from_hacker) (edges s))"

function root_search :: "store \<Rightarrow> address list \<Rightarrow> address list \<Rightarrow> address list \<Rightarrow> address list" where
  "root_search s [] seen roots = roots"
| "root_search s (cur # queue) seen roots =
     (if cur \<in> set seen then root_search s queue seen roots
      else if flagged_address s cur then root_search s queue (cur # seen) (roots @ [cur])
      else root_search s (queue @ filter (\<lambda>a. a \<notin> set (cur # seen)) (inbound_from s cur)) (cur # seen) roots)"
  by pat_completeness auto

definition unvisited :: "store \<Rightarrow> address list \<Rightarrow> address list \<Rightarrow> address set" where
  "unvisited s queue seen = (set queue \<union> fromAddress ` set (edges s)) - set seen"

lemma finite_unvisited [simp]: "finite (unvisited s q seen)"
  by (simp add: unvisited_def)

lemma unvisited_visit:
  assumes "cur \<notin> set seen" and "set queue' \<subseteq> set queue \<union> fromAddress ` set (edges s)"
  shows "card (unvisited s queue' (cur # seen)) < card (unvisited s (cur # queue) seen)"
  by (rule psubset_card_mono) (use assms in \<open>auto simp: unvisited_def\<close>)

lemma unvisited_skip: "card (unvisited s queue seen) \<le> card (unvisited s (cur # queue) seen)"
  by (rule card_mono) (auto simp: unvisited_def)

termination root_search
proof (relation "measures [\<lambda>(s, queue, seen, roots). card (unvisited s queue seen), \<lambda>(s, queue, seen, roots). length queue]", goal_cases)
  case (2 s cur queue seen roots)
  then show ?case using unvisited_skip[of s queue seen cur] by (auto simp: le_less)
next
  case (3 s cur queue seen roots)
  then show ?case using unvisited_visit[of cur seen queue queue s] by auto
next
  case (4 s cur queue seen roots)
  then show ?case
    using unvisited_visit[of cur seen "queue @ filter (\<lambda>a. a \<notin> set (cur # seen)) (inbound_from s cur)" queue s]
    by (auto simp: inbound_from_def)
qed simp

definition findRootHackersForSpenders :: "address list \<Rightarrow> store \<Rightarrow> (address \<times> address list) list" where
  "findRootHackersForSpenders as s =
     map (\<lambda>seed. (seed, root_search s [seed] [] [])) (uniq (filter (\<lambda>a. a \<noteq> []) as))"

definition findRootHackersForSpender :: "address \<Rightarrow> store \<Rightarrow> address list" where
  "findRootHackersForSpender a s =
     (case map_of (findRootHackersForSpenders [a] s) a of Some r \<Rightarrow> r | None \<Rightarrow> [])"

section \<open>What the walk finds\<close>

text \<open>The addresses the money of \<open>a\<close> passed through, up to the first flagged hacker on each way.\<close>

inductive traces_back :: "store \<Rightarrow> address \<Rightarrow> address \<Rightarrow> bool" for s a where
  trace_start: "traces_back s a a"
| trace_step: "traces_back s a x \<Longrightarrow> \<not> flagged_address s x \<Longrightarrow> y \<in> set (inbound_from s x) \<Longrightarrow> traces_back s a y"

definition walk_inv :: "store \<Rightarrow> address \<Rightarrow> address list \<Rightarrow> address list \<Rightarrow> address list \<Rightarrow> bool" where
  "walk_inv s a queue seen roots \<longleftrightarrow>
     a \<in> set queue \<union> set seen \<and> (\<forall>x\<in>set queue \<union> set seen. traces_back s a x) \<and>
     (\<forall>x\<in>set seen. \<not> flagged_address s x \<longrightarrow> set (inbound_from s x) \<subseteq> set queue \<union> set seen) \<and>
     set roots = {x \<in> set seen. flagged_address s x} \<and> distinct roots"

lemma walk_inv_result:
  "walk_inv s a queue seen roots \<Longrightarrow>
     set (root_search s queue seen roots) = {h. traces_back s a h \<and> flagged_address s h} \<and>
     distinct (root_search s queue seen roots)"
proof (induction s queue seen roots rule: root_search.induct)
  case (1 s seen roots)
  have "x \<in> set seen" if "traces_back s a x" for x
    using that 1 by induction (auto simp: walk_inv_def)
  then show ?case using 1 by (auto simp: walk_inv_def)
next
  case (2 s cur queue seen roots)
  consider (old) "cur \<in> set seen" | (hacker) "cur \<notin> set seen" "flagged_address s cur"
    | (new) "cur \<notin> set seen" "\<not> flagged_address s cur" by blast
  then show ?case
  proof cases
    case old
    then have "walk_inv s a queue seen roots" using 2(4) by (auto simp: walk_inv_def)
    then show ?thesis using 2(1) old by simp
  next
    case hacker
    then have "walk_inv s a queue (cur # seen) (roots @ [cur])"
      using 2(4) unfolding walk_inv_def by auto
    then show ?thesis using 2(2) hacker by simp
  next
    case new
    let ?q = "queue @ filter (\<lambda>a. a \<notin> set (cur # seen)) (inbound_from s cur)"
    have "traces_back s a y" if "y \<in> set (inbound_from s cur)" for y
      using 2(4) new that by (auto simp: walk_inv_def intro: trace_step)
    then have "walk_inv s a ?q (cur # seen) roots"
      using 2(4) new unfolding walk_inv_def by auto
    then show ?thesis using 2(3) new by simp
  qed
qed

lemma root_search_spec:
  "set (root_search s [a] [] []) = {h. traces_back s a h \<and> flagged_address s h} \<and> distinct (root_search s [a] [] [])"
  by (rule walk_inv_result) (simp add: walk_inv_def trace_start)

text \<open>
  C14: the walk ends on every database, cyclic ones included, and returns for every non-empty seed,
  without repetition, exactly the flagged hackers from which its money came along a chain of
  out-edges with no other flagged hacker in between.
\<close>

theorem findRootHackers_spec:
  "(a, roots) \<in> set (findRootHackersForSpenders as s) \<longleftrightarrow>
     a \<in> set as \<and> a \<noteq> [] \<and> roots = root_search s [a] [] [] \<and> distinct roots \<and>
     set roots = {h. traces_back s a h \<and> flagged_address s h}"
proof -
  have "(a, roots) \<in> set (findRootHackersForSpenders as s) \<longleftrightarrow> a \<in> set as \<and> a \<noteq> [] \<and> roots = root_search s [a] [] []"
    by (auto simp: findRootHackersForSpenders_def)
  with root_search_spec[of s a] show ?thesis by metis
qed

end
