(* ===== verification/JsDouble.thy ===== *)
theory JsDouble
  imports Complex_Main
begin

text \<open>
  The part of IEEE double arithmetic that the code's amounts go through: rounding of a non-negative
  rational to 53 significant bits, to nearest with ties to even. The amounts stay far inside the
  exponent range, so that neither overflow nor gradual underflow occurs. A product or quotient of
  two doubles is the rounding of the exact product or quotient.
\<close>

function bit_length :: "nat \<Rightarrow> nat" where
  "bit_length n = (if n = 0 then 0 else Suc (bit_length (n div 2)))"
  by pat_completeness auto
termination
  by (relation "measure id") auto

declare bit_length.simps [simp del]

text \<open>Powers of two with an integer exponent.\<close>

definition two_pow :: "int \<Rightarrow> rat" where
  "two_pow e = (if 0 \<le> e then 2 ^ nat e else 1 / 2 ^ nat (- e))"

text \<open>The exponent of the leading bit: \<open>2 ^ e \<le> x < 2 ^ (e + 1)\<close>.\<close>

definition lead_exp :: "rat \<Rightarrow> int" where
  "lead_exp x =
     (let (n, d) = quotient_of x;
          l = int (bit_length (nat n)) - int (bit_length (nat d))
      in if two_pow l \<le> x then l else l - 1)"

definition round_half_even :: "rat \<Rightarrow> int" where
  "round_half_even x =
     (let f = \<lfloor>x\<rfloor>; r = x - of_int f
      in if r < 1 / 2 then f else if r > 1 / 2 then f + 1 else if even f then f else f + 1)"

definition fl :: "rat \<Rightarrow> rat" where
  "fl x =
     (if x \<le> 0 then 0
      else let e = lead_exp x - 52 in of_int (round_half_even (x / two_pow e)) * two_pow e)"

section \<open>The error of rounding\<close>

lemma bit_length_bounds: "0 < n \<Longrightarrow> 2 ^ (bit_length n - 1) \<le> n \<and> n < 2 ^ bit_length n"
proof (induction n rule: bit_length.induct)
  case (1 n)
  show ?case
  proof (cases "n = 1")
    case True
    have "bit_length 0 = 0" "bit_length 1 = 1" by code_simp+
    then show ?thesis using True by simp
  next
    case False
    define m where "m = n div 2"
    have m: "n = 2 * m \<or> n = 2 * m + 1" unfolding m_def by presburger
    with False "1.prems" have pos: "0 < m" by auto
    with "1.IH" "1.prems" have ih: "2 ^ (bit_length m - 1) \<le> m" "m < 2 ^ bit_length m"
      by (auto simp: m_def)
    have b: "bit_length n = Suc (bit_length m)" using "1.prems" by (simp add: bit_length.simps[of n] m_def)
    have "0 < bit_length m" using pos by (subst bit_length.simps) simp
    then obtain k where k: "bit_length m = Suc k" by (cases "bit_length m") auto
    show ?thesis using ih m unfolding b k by auto
  qed
qed

lemma two_pow_pos [simp]: "0 < two_pow e"
  by (simp add: two_pow_def)

lemma two_pow_diff: "two_pow (int a - int b) = 2 ^ a / 2 ^ b"
proof (cases "b \<le> a")
  case True
  then show ?thesis by (simp add: two_pow_def power_diff nat_diff_distrib)
next
  case False
  then have "nat (- (int a - int b)) = b - a" by simp
  with False show ?thesis by (simp add: two_pow_def power_diff)
qed

lemma two_pow_minus_52: "two_pow (e - 52) = two_pow e / 2 ^ 52"
proof (cases "0 \<le> e")
  case True
  then have "two_pow (e - 52) = two_pow (int (nat e) - int 52)" by simp
  also have "\<dots> = two_pow e / 2 ^ 52" using True by (simp only: two_pow_diff) (simp add: two_pow_def)
  finally show ?thesis .
next
  case False
  then have "two_pow (e - 52) = two_pow (int 0 - int (nat (- e) + 52))" by simp
  also have "\<dots> = two_pow e / 2 ^ 52"
    using False by (simp only: two_pow_diff) (simp add: two_pow_def power_add)
  finally show ?thesis .
qed

lemma lead_exp_le:
  assumes "0 < x"
  shows "two_pow (lead_exp x) \<le> x"
proof -
  obtain n d where q: "quotient_of x = (n, d)" by fastforce
  have d: "0 < d" and x: "x = of_int n / of_int d"
    using quotient_of_denom_pos[OF q] quotient_of_div[OF q] by auto
  have n: "0 < n" using assms d by (simp add: x zero_less_divide_iff)
  let ?l = "int (bit_length (nat n)) - int (bit_length (nat d))"
  have bn: "2 ^ (bit_length (nat n) - 1) \<le> nat n" and bd: "nat d < 2 ^ bit_length (nat d)"
    using bit_length_bounds[of "nat n"] bit_length_bounds[of "nat d"] n d by auto
  have ln: "0 < bit_length (nat n)" using n by (subst bit_length.simps) simp
  have rn: "(2::rat) ^ (bit_length (nat n) - 1) \<le> of_int n"
    using of_nat_mono[OF bn, where 'a = rat] n by simp
  have rd: "(of_int d :: rat) \<le> 2 ^ bit_length (nat d)"
    using of_nat_mono[OF less_imp_le[OF bd], where 'a = rat] d by simp
  have "two_pow (?l - 1) = two_pow (int (bit_length (nat n) - 1) - int (bit_length (nat d)))"
    using ln by (intro arg_cong[of _ _ two_pow]) (simp add: of_nat_diff)
  also have "\<dots> = 2 ^ (bit_length (nat n) - 1) / 2 ^ bit_length (nat d)" by (rule two_pow_diff)
  also have "\<dots> \<le> of_int n / of_int d"
    using rn rd d n by (intro frac_le) auto
  finally have "two_pow (?l - 1) \<le> x" by (simp add: x)
  then show ?thesis by (simp add: lead_exp_def q Let_def)
qed

lemma round_half_even_error: "\<bar>of_int (round_half_even x) - x\<bar> \<le> 1 / 2"
proof -
  have "of_int \<lfloor>x\<rfloor> \<le> x" "x < of_int \<lfloor>x\<rfloor> + 1" by linarith+
  then show ?thesis unfolding round_half_even_def Let_def by (auto simp: abs_le_iff split: if_splits)
qed

text \<open>The relative error of rounding is at most \<open>2 ^ -53\<close>.\<close>

lemma fl_error:
  assumes "0 \<le> x"
  shows "\<bar>fl x - x\<bar> \<le> x / 2 ^ 53"
proof (cases "x = 0")
  case True
  then show ?thesis by (simp add: fl_def)
next
  case False
  with assms have pos: "0 < x" by simp
  define p where "p = two_pow (lead_exp x - 52)"
  have p: "0 < p" by (simp add: p_def)
  have "p * 2 ^ 52 \<le> x"
    using lead_exp_le[OF pos] by (simp add: p_def two_pow_minus_52)
  then have pl: "p / 2 \<le> x / 2 ^ 53" by simp
  have "fl x - x = (of_int (round_half_even (x / p)) - x / p) * p"
    using pos p by (simp add: fl_def Let_def p_def[symmetric] left_diff_distrib)
  then have "\<bar>fl x - x\<bar> = \<bar>of_int (round_half_even (x / p)) - x / p\<bar> * p"
    using p by (simp add: abs_mult)
  also have "\<dots> \<le> 1 / 2 * p" using round_half_even_error p by (intro mult_right_mono) auto
  finally show ?thesis using pl by simp
qed

lemma fl_le: "0 \<le> x \<Longrightarrow> fl x \<le> x * (1 + 1 / 2 ^ 53)"
proof -
  assume "0 \<le> x"
  then have "fl x - x \<le> x / 2 ^ 53" using fl_error[of x] by (meson abs_le_D1)
  then show ?thesis by (simp add: field_simps)
qed

lemma fl_nonneg: "0 \<le> x \<Longrightarrow> 0 \<le> fl x"
proof -
  assume x: "0 \<le> x"
  then have "- (fl x - x) \<le> x / 2 ^ 53" using fl_error[of x] by (meson abs_le_D2)
  moreover have "x / 2 ^ 53 \<le> x" using x by simp
  ultimately show ?thesis by linarith
qed

end
