(* ===== verification/HackTrace.thy ===== *)
theory HackTrace
  imports StoreState TxPage JsDouble
begin

text \<open>
  The pure half of the hack trace (\<open>packages/core/src/graph/builder.ts\<close>): which edges a transaction
  contributes to the graph. Victims' inputs are attributed to the hacker outputs in proportion
  (\<open>splitProportionally\<close>), and each spender gets an edge to each other output
  (\<open>computeHackTraceEdges\<close>, \<open>collectSpenders\<close>).

  Sums of amounts are exact (they stay below \<open>2 ^ 53\<close>); the product and the quotient in the
  proportional split are rounded as doubles are. The set of hacker addresses is a list, in the order
  it was loaded.
\<close>

record edge_draft =
  d_from :: address
  d_to :: address
  d_amount :: int
  d_hop :: int
  d_direction :: direction

record trace_opts =
  t_spendingAddress :: "address option"
  t_spendingHop :: "int option"
  t_maxEdges :: "int option" \<comment> \<open>absent: \<open>POSITIVE_INFINITY\<close>\<close>

record trace_edges =
  inToHacker :: "edge_draft list"
  outFromHacker :: "edge_draft list"
  victimAddresses :: "address list"

section \<open>Aggregation\<close>

definition aggregateInputsByAddress :: "chain_tx \<Rightarrow> address list \<Rightarrow> (address \<times> int) list" where
  "aggregateInputsByAddress tx hackers =
     fold (\<lambda>i m.
       if is_coinbase i = Some True then m
       else case (truthy (vin_address i), case prevout_of i of Some p \<Rightarrow> prev_value p | None \<Rightarrow> None) of
         (Some a, Some v) \<Rightarrow> if v \<le> 0 \<or> a \<in> set hackers then m else map_add a v m
       | _ \<Rightarrow> m) (vins tx) []"

definition aggregateHackerOutputs :: "chain_tx \<Rightarrow> address list \<Rightarrow> (address \<times> int) list" where
  "aggregateHackerOutputs tx hackers =
     fold (\<lambda>o' m.
       let v = (case out_value o' of Some x \<Rightarrow> x | None \<Rightarrow> 0)
       in case truthy (out_address o') of
         Some a \<Rightarrow> if v \<le> 0 then m else if a \<notin> set hackers then m else map_add a v m
       | None \<Rightarrow> m) (vouts tx) []"

definition outputAmounts :: "chain_tx \<Rightarrow> (address \<times> int) list" where
  "outputAmounts tx =
     fold (\<lambda>o' m. case truthy (out_address o') of
         Some a \<Rightarrow> map_add a (case out_value o' of Some x \<Rightarrow> x | None \<Rightarrow> 0) m
       | None \<Rightarrow> m) (vouts tx) []"

section \<open>The proportional split\<close>

text \<open>\<open>(total * w) / weightSum\<close>.\<close>

definition share :: "int \<Rightarrow> int \<Rightarrow> int \<Rightarrow> rat" where
  "share tot weightSum w = fl (fl (of_int (tot * w)) / of_int weightSum)"

definition bump_at :: "nat \<Rightarrow> int list \<Rightarrow> int list" where
  "bump_at i xs = xs[i := xs ! i + 1]"

definition splitProportionally :: "int \<Rightarrow> int list \<Rightarrow> int list" where
  "splitProportionally tot weights =
     (if weights = [] then []
      else
        let weightSum = sum_list weights
        in if weightSum \<le> 0 \<or> tot \<le> 0 then map (\<lambda>_. 0) weights
           else
             let amounts = map (\<lambda>w. \<lfloor>share tot weightSum w\<rfloor>) weights;
                 remainder = tot - sum_list amounts;
                 ranked = map fst (sort_key (\<lambda>(i, f). - f)
                   (map (\<lambda>i. (i, share tot weightSum (weights ! i) - of_int (amounts ! i)))
                      [0..<length weights]))
             in fold (\<lambda>k am. bump_at (ranked ! (k mod length ranked)) am) [0..<nat remainder] amounts)"

section \<open>Edges of a transaction\<close>

definition input_addresses :: "chain_tx \<Rightarrow> address list" where
  "input_addresses tx = List.map_filter (\<lambda>i. truthy (vin_address i)) (vins tx)"

text \<open>\<open>(address, hop)\<close> in order of first appearance.\<close>

definition collectSpenders ::
  "address list \<Rightarrow> address list \<Rightarrow> trace_opts \<Rightarrow> (address \<times> int) list" where
  "collectSpenders inputs hackers op =
     (let hs = uniq (filter (\<lambda>a. a \<in> set hackers) inputs)
      in map (\<lambda>a. (a, 0)) hs @
         (case truthy (t_spendingAddress op) of
            Some a \<Rightarrow> if a \<in> set inputs \<and> a \<notin> set hs
                      then [(a, case t_spendingHop op of Some h \<Rightarrow> h | None \<Rightarrow> 0)] else []
          | None \<Rightarrow> []))"

definition victim_edges :: "(address \<times> int) list \<Rightarrow> address \<times> int \<Rightarrow> edge_draft list" where
  "victim_edges outs vi =
     (case vi of (victim, inputValue) \<Rightarrow>
        if inputValue \<le> 0 \<or> outs = [] then []
        else
          let split = (if length outs = 1 then [inputValue]
                       else splitProportionally inputValue (map snd outs))
          in map (\<lambda>(out, amount). \<lparr>d_from = victim, d_to = fst out, d_amount = amount, d_hop = 0,
                    d_direction = In_to_hacker\<rparr>)
               (filter (\<lambda>(out, amount). amount > 0) (zip outs split)))"

text \<open>
  The nested loop over spenders and outputs, with the break out of both when \<open>maxEdges\<close> is reached:
  the pairs that pass the \<open>continue\<close> test, cut where the count reaches the maximum.
\<close>

definition spend_pairs ::
  "(address \<times> int) list \<Rightarrow> (address \<times> int) list \<Rightarrow> edge_draft list" where
  "spend_pairs spenders outs =
     concat (map (\<lambda>(inAddr, hop).
       map (\<lambda>(outAddr, amount). \<lparr>d_from = inAddr, d_to = outAddr, d_amount = amount,
              d_hop = hop + 1, d_direction = Out_from_hacker\<rparr>)
         (filter (\<lambda>(outAddr, amount). \<not> (outAddr = inAddr \<or> amount \<le> 0)) outs)) spenders)"

definition cut_edges :: "int option \<Rightarrow> int \<Rightarrow> 'a list \<Rightarrow> 'a list" where
  "cut_edges maxEdges n xs =
     (case maxEdges of None \<Rightarrow> xs | Some m \<Rightarrow> take (nat (m - n)) xs)"

definition computeHackTraceEdges :: "chain_tx \<Rightarrow> address list \<Rightarrow> trace_opts \<Rightarrow> trace_edges" where
  "computeHackTraceEdges tx hackers op =
     (let victimInputs = aggregateInputsByAddress tx hackers;
          outs = filter (\<lambda>(a, n). n > 0) (aggregateHackerOutputs tx hackers);
          ins = concat (map (victim_edges outs) victimInputs);
          spenders = collectSpenders (input_addresses tx) hackers op
      in \<lparr>inToHacker = ins,
          outFromHacker = cut_edges (t_maxEdges op) (int (length ins))
                            (spend_pairs spenders (outputAmounts tx)),
          victimAddresses = map fst victimInputs\<rparr>)"

definition flattenHackTraceEdges :: "trace_edges \<Rightarrow> edge_draft list" where
  "flattenHackTraceEdges e = inToHacker e @ outFromHacker e"

section \<open>The split conserves the total\<close>

lemma length_bump_at [simp]: "length (bump_at i xs) = length xs"
  by (simp add: bump_at_def)

lemma sum_bump_at: "i < length xs \<Longrightarrow> sum_list (bump_at i xs) = sum_list xs + 1"
  unfolding bump_at_def
proof (induction xs arbitrary: i)
  case (Cons x xs)
  then show ?case by (cases i) auto
qed simp

lemma bump_at_nonneg: "\<forall>x\<in>set xs. 0 \<le> x \<Longrightarrow> i < length xs \<Longrightarrow> \<forall>x\<in>set (bump_at i xs). 0 \<le> (x::int)"
  unfolding bump_at_def by (metis in_set_conv_nth insert_iff nth_mem set_update_subset_insert subsetD
      zero_le_one add_nonneg_nonneg)

lemma fold_bump:
  assumes "\<And>k. f k < length xs"
  shows "sum_list (fold (\<lambda>k. bump_at (f k)) ks xs) = sum_list xs + int (length ks)"
    and "length (fold (\<lambda>k. bump_at (f k)) ks xs) = length xs"
    and "\<forall>x\<in>set xs. 0 \<le> x \<Longrightarrow> \<forall>x\<in>set (fold (\<lambda>k. bump_at (f k)) ks xs). 0 \<le> x"
proof -
  have "sum_list (fold (\<lambda>k. bump_at (f k)) ks ys) = sum_list ys + int (length ks) \<and>
        length (fold (\<lambda>k. bump_at (f k)) ks ys) = length ys \<and>
        ((\<forall>x\<in>set ys. 0 \<le> x) \<longrightarrow> (\<forall>x\<in>set (fold (\<lambda>k. bump_at (f k)) ks ys). 0 \<le> x))"
    if "length ys = length xs" for ys
    using that
  proof (induction ks arbitrary: ys)
    case (Cons k ks)
    have l: "f k < length ys" using assms Cons.prems by simp
    show ?case using Cons.IH[of "bump_at (f k) ys"] Cons.prems sum_bump_at[OF l] bump_at_nonneg[OF _ l]
      by auto
  qed simp
  then show "sum_list (fold (\<lambda>k. bump_at (f k)) ks xs) = sum_list xs + int (length ks)"
    and "length (fold (\<lambda>k. bump_at (f k)) ks xs) = length xs"
    and "\<forall>x\<in>set xs. 0 \<le> x \<Longrightarrow> \<forall>x\<in>set (fold (\<lambda>k. bump_at (f k)) ks xs). 0 \<le> x"
    by auto
qed

lemma share_bounds:
  assumes "0 \<le> tot" and "0 < W" and "0 \<le> w"
  shows "0 \<le> share tot W w"
    and "share tot W w \<le> of_int tot * of_int w / of_int W * (1 + 1 / 2 ^ 53) ^ 2"
proof -
  have t: "(0::rat) \<le> of_int (tot * w)" using assms by simp
  have W: "(0::rat) < of_int W" using assms by simp
  have f: "fl (of_int (tot * w)) \<le> of_int (tot * w) * (1 + 1 / 2 ^ 53)" by (rule fl_le[OF t])
  have p: "0 \<le> fl (of_int (tot * w)) / of_int W" using fl_nonneg[OF t] W by simp
  show "0 \<le> share tot W w" unfolding share_def by (rule fl_nonneg[OF p])
  have "share tot W w \<le> fl (of_int (tot * w)) / of_int W * (1 + 1 / 2 ^ 53)"
    unfolding share_def by (rule fl_le[OF p])
  also have "\<dots> \<le> of_int (tot * w) * (1 + 1 / 2 ^ 53) / of_int W * (1 + 1 / 2 ^ 53)"
    using f W by (intro mult_right_mono divide_right_mono) auto
  also have "\<dots> = of_int tot * of_int w / of_int W * (1 + 1 / 2 ^ 53) ^ 2"
    by (simp add: power2_eq_square)
  finally show "share tot W w \<le> of_int tot * of_int w / of_int W * (1 + 1 / 2 ^ 53) ^ 2" .
qed

lemma sum_floor_shares:
  assumes "0 < tot" and "tot \<le> 2 ^ 51" and "0 < W" and "\<forall>w\<in>set ws. 0 \<le> w" and "sum_list ws = W"
  shows "sum_list (map (\<lambda>w. \<lfloor>share tot W w\<rfloor>) ws) \<le> tot"
proof -
  let ?c = "of_int tot / of_int W * (1 + 1 / 2 ^ 53) ^ 2 :: rat"
  have "of_int (sum_list (map (\<lambda>w. \<lfloor>share tot W w\<rfloor>) vs)) \<le> ?c * of_int (sum_list vs)"
    if "\<forall>w\<in>set vs. 0 \<le> w" for vs
    using that
  proof (induction vs)
    case (Cons w vs)
    have "of_int \<lfloor>share tot W w\<rfloor> \<le> share tot W w" by linarith
    also have "\<dots> \<le> ?c * of_int w"
      using share_bounds(2)[of tot W w] assms(1,3) Cons.prems by (simp add: field_simps)
    finally show ?case using Cons by (simp add: distrib_left)
  qed simp
  from this[OF assms(4)] have "of_int (sum_list (map (\<lambda>w. \<lfloor>share tot W w\<rfloor>) ws)) \<le> ?c * of_int W"
    using assms(5) by simp
  also have "\<dots> = of_int tot * (1 + 1 / 2 ^ 53) ^ 2" using assms(3) by simp
  also have "\<dots> < of_int tot + 1"
  proof -
    have e: "(1 + 1 / 2 ^ 53) ^ 2 = (1::rat) + (2 / 2 ^ 53 + 1 / 2 ^ 106)" by (simp add: power2_eq_square)
    have t: "(of_int tot :: rat) \<le> 2 ^ 51" using assms(2) by (metis of_int_le_iff of_int_numeral of_int_power)
    have "of_int tot * (2 / 2 ^ 53 + 1 / 2 ^ 106) \<le> 2 ^ 51 * (2 / 2 ^ 53 + 1 / 2 ^ 106 :: rat)"
      using t by (intro mult_right_mono) auto
    also have "\<dots> < 1" by simp
    finally show ?thesis unfolding e by (simp only: distrib_left)
  qed
  finally have "(of_int (sum_list (map (\<lambda>w. \<lfloor>share tot W w\<rfloor>) ws)) :: rat) < of_int (tot + 1)" by simp
  then show ?thesis by (simp only: of_int_less_iff)
qed

lemma split_conserves:
  assumes "0 < tot" and "tot \<le> 2 ^ 51" and "\<forall>w\<in>set ws. 0 \<le> w" and "0 < sum_list ws"
  shows "sum_list (splitProportionally tot ws) = tot \<and> length (splitProportionally tot ws) = length ws \<and>
         (\<forall>x\<in>set (splitProportionally tot ws). 0 \<le> x)"
proof -
  let ?W = "sum_list ws"
  let ?am = "map (\<lambda>w. \<lfloor>share tot ?W w\<rfloor>) ws"
  let ?pairs = "map (\<lambda>i. (i, share tot ?W (ws ! i) - of_int (?am ! i))) [0..<length ws]"
  let ?r = "map fst (sort_key (\<lambda>(i, f). - f) ?pairs)"
  have ne: "ws \<noteq> []" using assms(4) by auto
  have rl: "length ?r = length ws" by simp
  have rs: "set ?r = {0..<length ws}" by (simp add: image_image)
  have lt: "?r ! (k mod length ?r) < length ?am" for k
  proof -
    have "k mod length ?r < length ?r" using rl ne by (intro mod_less_divisor) simp
    then have "?r ! (k mod length ?r) \<in> set ?r" by (rule nth_mem)
    then show ?thesis using rs by (simp only: atLeastLessThan_iff length_map) 
  qed
  have nn: "\<forall>x\<in>set ?am. 0 \<le> x" using share_bounds(1) assms(1,3,4) by auto
  have le: "sum_list ?am \<le> tot" by (rule sum_floor_shares[OF assms(1,2,4,3) refl])
  have sp: "splitProportionally tot ws =
      fold (\<lambda>k. bump_at (?r ! (k mod length ?r))) [0..<nat (tot - sum_list ?am)] ?am"
    using ne assms(1,4) by (simp add: splitProportionally_def Let_def)
  note fb = fold_bump[of "\<lambda>k. ?r ! (k mod length ?r)" ?am, OF lt]
  show ?thesis
    unfolding sp using fb(1,2) fb(3)[OF nn] le by auto
qed

text \<open>
  C8: the proportional split of an amount conserves it exactly, in spite of the roundings of double
  arithmetic, for every amount up to \<open>2 ^ 51\<close> satoshis (more than all bitcoin there will be): the
  parts are non-negative, one per weight, and add up to the total.
\<close>

theorem splitProportionally_conserves:
  assumes "0 < tot" and "tot \<le> 2 ^ 51" and "\<forall>w\<in>set ws. 0 \<le> w" and "0 < sum_list ws"
  shows "sum_list (splitProportionally tot ws) = tot \<and> length (splitProportionally tot ws) = length ws \<and>
         (\<forall>x\<in>set (splitProportionally tot ws). 0 \<le> x)"
  by (rule split_conserves[OF assms])

theorem splitProportionally_conserves_witness:
  "sum_list (splitProportionally 2099999999999999 [3, 7, 1000003]) = 2099999999999999"
  using splitProportionally_conserves[of 2099999999999999 "[3, 7, 1000003]"] by simp

section \<open>The edges of a transaction\<close>

lemma aggregate_fold_inv:
  assumes "\<And>x m. P m \<Longrightarrow> P (f x m)" and "P m"
  shows "P (fold f xs m)"
  using assms(2) by (induction xs arbitrary: m) (auto intro: assms(1))

text \<open>The victims: distinct, no hackers, positive amounts.\<close>

definition pos_map :: "(address \<times> int) list \<Rightarrow> bool" where
  "pos_map m \<longleftrightarrow> distinct (map fst m) \<and> (\<forall>(a, v)\<in>set m. 0 < v)"

lemma set_map_put: "distinct (map fst m) \<Longrightarrow> set (map_put k v m) = {(k, v)} \<union> {(a, x) \<in> set m. a \<noteq> k}"
proof (induction m)
  case (Cons a m)
  then show ?case by (cases a) (auto simp: image_iff)
qed simp

lemma pos_map_add: "pos_map m \<Longrightarrow> 0 < v \<Longrightarrow> pos_map (map_add a v m)"
  unfolding pos_map_def
  by (auto simp: distinct_map_put map_add_def set_map_put split: option.splits dest!: map_of_SomeD)

lemma aggregateInputs_inv:
  "pos_map (aggregateInputsByAddress tx hackers) \<and>
   fst ` set (aggregateInputsByAddress tx hackers) \<inter> set hackers = {}"
  unfolding aggregateInputsByAddress_def
  by (rule aggregate_fold_inv[where P = "\<lambda>m. pos_map m \<and> fst ` set m \<inter> set hackers = {}"])
     (auto simp: pos_map_add keys_map_add pos_map_def[of "[]"] split: option.splits)

lemma aggregateOutputs_inv:
  "pos_map (aggregateHackerOutputs tx hackers) \<and> fst ` set (aggregateHackerOutputs tx hackers) \<subseteq> set hackers"
  unfolding aggregateHackerOutputs_def
  by (rule aggregate_fold_inv[where P = "\<lambda>m. pos_map m \<and> fst ` set m \<subseteq> set hackers"])
     (auto simp: pos_map_add keys_map_add pos_map_def[of "[]"] Let_def split: option.splits)

lemma filter_pos_map: "pos_map m \<Longrightarrow> filter (\<lambda>(a, n). n > 0) m = m"
  by (auto simp: pos_map_def filter_id_conv)

lemma sum_filter_pos:
  assumes "\<forall>x\<in>set ys. 0 \<le> x" and "length ys = length outs"
  shows "sum_list (map (\<lambda>(out, amount). amount) (filter (\<lambda>(out, amount). amount > 0) (zip outs ys))) = sum_list (ys :: int list)"
  using assms(2,1)
proof (induction ys outs rule: list_induct2)
  case (Cons y ys x outs)
  then show ?case by (cases "0 < y") auto
qed simp

lemma victim_edges_facts:
  assumes "0 < v" and "v \<le> 2 ^ 51" and "outs \<noteq> []" and "pos_map outs"
  shows "sum_list (map d_amount (victim_edges outs (a, v))) = v"
    and "\<forall>e\<in>set (victim_edges outs (a, v)). d_from e = a \<and> d_to e \<in> fst ` set outs \<and> 0 < d_amount e \<and>
           d_hop e = 0 \<and> d_direction e = In_to_hacker"
proof -
  let ?split = "if length outs = 1 then [v] else splitProportionally v (map snd outs)"
  have pos: "\<forall>w\<in>set (map snd outs). 0 < w" using assms(4) by (auto simp: pos_map_def)
  have s: "0 < sum_list (map snd outs)"
  proof (cases outs)
    case Nil
    with assms(3) show ?thesis by simp
  next
    case (Cons x xs)
    have "0 \<le> sum_list (map snd xs)" using pos Cons by (intro sum_list_nonneg) (auto simp: less_imp_le)
    with pos Cons show ?thesis by simp
  qed
  have "sum_list ?split = v \<and> length ?split = length outs \<and> (\<forall>x\<in>set ?split. 0 \<le> x)"
    using split_conserves[OF assms(1,2) _ s] pos assms(1) by (auto simp: less_imp_le)
  then have "sum_list (map (\<lambda>(out, amount). amount) (filter (\<lambda>(out, amount). amount > 0) (zip outs ?split))) = v"
    using sum_filter_pos[of ?split outs] by auto
  moreover have "victim_edges outs (a, v) = map (\<lambda>(out, amount). \<lparr>d_from = a, d_to = fst out, d_amount = amount,
       d_hop = 0, d_direction = In_to_hacker\<rparr>) (filter (\<lambda>(out, amount). amount > 0) (zip outs ?split))"
    using assms(1,3) by (simp add: victim_edges_def Let_def)
  ultimately show "sum_list (map d_amount (victim_edges outs (a, v))) = v"
    by (simp add: comp_def case_prod_unfold)
  show "\<forall>e\<in>set (victim_edges outs (a, v)). d_from e = a \<and> d_to e \<in> fst ` set outs \<and> 0 < d_amount e \<and>
           d_hop e = 0 \<and> d_direction e = In_to_hacker"
    by (auto simp: victim_edges_def Let_def image_iff dest!: set_zip_leftD split: if_splits) force+
qed

lemma spend_pairs_facts:
  "e \<in> set (spend_pairs spenders outs) \<Longrightarrow> d_from e \<noteq> d_to e \<and> 0 < d_amount e \<and>
     d_direction e = Out_from_hacker \<and> d_from e \<in> fst ` set spenders \<and> (d_to e, d_amount e) \<in> set outs"
  by (force simp: spend_pairs_def)

text \<open>The in-edges of one victim among the edges of all.\<close>

lemma concat_victim_edges_sum:
  assumes "distinct (map fst vs)" and "\<forall>(a, v)\<in>set vs. \<forall>e\<in>set (f (a, v)). d_from e = a" and "(a, v) \<in> set vs"
  shows "sum_list (map d_amount (filter (\<lambda>e. d_from e = a) (concat (map f vs)))) = sum_list (map d_amount (f (a, v)))"
  using assms
proof (induction vs)
  case (Cons x vs)
  obtain b w where x: "x = (b, w)" by (cases x)
  show ?case
  proof (cases "b = a")
    case True
    then have "w = v" "\<forall>y\<in>set vs. fst y \<noteq> a" using Cons.prems x by (auto simp: image_iff)
    moreover from this have "filter (\<lambda>e. d_from e = a) (concat (map f vs)) = []"
      using Cons.prems(2) x by (force simp: filter_empty_conv)
    moreover have "filter (\<lambda>e. d_from e = a) (f (a, v)) = f (a, v)"
      using Cons.prems(2) x True \<open>w = v\<close> by (auto simp: filter_id_conv)
    ultimately show ?thesis using x True by simp
  next
    case False
    have "filter (\<lambda>e. d_from e = a) (f (b, w)) = []"
      using Cons.prems(2) x False by (force simp: filter_empty_conv)
    then show ?thesis using Cons x False by auto
  qed
qed simp

text \<open>
  C9: the edges computed for a transaction account for the money. Every victim's whole input goes
  to the hacker outputs: when the transaction pays a hacker, the in-edges of each victim add up to
  what the victim put in. Every edge has a positive amount; in-edges lead from an address that is no
  hacker to a hacker, out-edges never lead from an address to itself; and with a limit on the edges
  of a transaction the out-edges never push the count beyond it.
\<close>

theorem computeHackTraceEdges_conserves:
  assumes "\<forall>(a, v)\<in>set (aggregateInputsByAddress tx hackers). v \<le> 2 ^ 51"
    and "aggregateHackerOutputs tx hackers \<noteq> []"
  shows "(\<forall>(a, v)\<in>set (aggregateInputsByAddress tx hackers).
            sum_list (map d_amount (filter (\<lambda>e. d_from e = a) (inToHacker (computeHackTraceEdges tx hackers op)))) = v) \<and>
    (\<forall>e\<in>set (inToHacker (computeHackTraceEdges tx hackers op)).
       0 < d_amount e \<and> d_from e \<notin> set hackers \<and> d_to e \<in> set hackers \<and> d_direction e = In_to_hacker) \<and>
    (\<forall>e\<in>set (outFromHacker (computeHackTraceEdges tx hackers op)).
       0 < d_amount e \<and> d_from e \<noteq> d_to e \<and> d_direction e = Out_from_hacker) \<and>
    (\<forall>m. t_maxEdges op = Some m \<longrightarrow>
       int (length (flattenHackTraceEdges (computeHackTraceEdges tx hackers op)))
         \<le> max m (int (length (inToHacker (computeHackTraceEdges tx hackers op)))))"
proof -
  let ?vs = "aggregateInputsByAddress tx hackers"
  let ?outs = "aggregateHackerOutputs tx hackers"
  have pv: "pos_map ?vs" "fst ` set ?vs \<inter> set hackers = {}" using aggregateInputs_inv by auto
  have po: "pos_map ?outs" "fst ` set ?outs \<subseteq> set hackers" using aggregateOutputs_inv by auto
  have ins: "inToHacker (computeHackTraceEdges tx hackers op) = concat (map (victim_edges ?outs) ?vs)"
    by (simp add: computeHackTraceEdges_def Let_def filter_pos_map[OF po(1)])
  have out: "set (outFromHacker (computeHackTraceEdges tx hackers op))
      \<subseteq> set (spend_pairs (collectSpenders (input_addresses tx) hackers op) (outputAmounts tx))"
    by (auto simp: computeHackTraceEdges_def Let_def cut_edges_def split: option.splits dest: in_set_takeD)
  have vb: "0 < v \<and> v \<le> 2 ^ 51" if "(a, v) \<in> set ?vs" for a v
    using assms(1) pv(1) that unfolding pos_map_def by blast
  have ve: "sum_list (map d_amount (victim_edges ?outs (a, v))) = v"
    "\<forall>e\<in>set (victim_edges ?outs (a, v)). d_from e = a \<and> d_to e \<in> fst ` set ?outs \<and> 0 < d_amount e \<and>
           d_hop e = 0 \<and> d_direction e = In_to_hacker" if "(a, v) \<in> set ?vs" for a v
    using victim_edges_facts[of v ?outs a] vb[OF that] assms(2) po(1) by blast+
  show ?thesis
  proof (intro conjI)
    show "\<forall>(a, v)\<in>set ?vs. sum_list (map d_amount (filter (\<lambda>e. d_from e = a)
        (inToHacker (computeHackTraceEdges tx hackers op)))) = v"
    proof safe
      fix a v assume av: "(a, v) \<in> set ?vs"
      have "\<forall>(b, w)\<in>set ?vs. \<forall>e\<in>set (victim_edges ?outs (b, w)). d_from e = b" using ve(2) by fast
      then show "sum_list (map d_amount (filter (\<lambda>e. d_from e = a)
          (inToHacker (computeHackTraceEdges tx hackers op)))) = v"
        unfolding ins using pv(1) av ve(1)[OF av]
        by (subst concat_victim_edges_sum) (auto simp: pos_map_def)
    qed
    show "\<forall>e\<in>set (inToHacker (computeHackTraceEdges tx hackers op)).
       0 < d_amount e \<and> d_from e \<notin> set hackers \<and> d_to e \<in> set hackers \<and> d_direction e = In_to_hacker"
    proof
      fix e assume "e \<in> set (inToHacker (computeHackTraceEdges tx hackers op))"
      then obtain a v where av: "(a, v) \<in> set ?vs" "e \<in> set (victim_edges ?outs (a, v))"
        unfolding ins by auto
      moreover have "a \<notin> set hackers" using pv(2) av(1) by force
      ultimately show "0 < d_amount e \<and> d_from e \<notin> set hackers \<and> d_to e \<in> set hackers \<and> d_direction e = In_to_hacker"
        using bspec[OF ve(2)[OF av(1)] av(2)] po(2) by auto
    qed
    show "\<forall>e\<in>set (outFromHacker (computeHackTraceEdges tx hackers op)).
       0 < d_amount e \<and> d_from e \<noteq> d_to e \<and> d_direction e = Out_from_hacker"
      using out spend_pairs_facts by blast
    show "\<forall>m. t_maxEdges op = Some m \<longrightarrow>
       int (length (flattenHackTraceEdges (computeHackTraceEdges tx hackers op)))
         \<le> max m (int (length (inToHacker (computeHackTraceEdges tx hackers op))))"
      by (auto simp: flattenHackTraceEdges_def computeHackTraceEdges_def Let_def cut_edges_def)
  qed
qed

text \<open>Two victims pay two hackers; a hacker and an address being polled spend in the same transaction.\<close>

definition demo_trace_tx :: chain_tx where
  "demo_trace_tx = \<lparr>ctx_txid = ''t'', ctx_status = None, ctx_fee = None,
     ctx_vin = Some (map (\<lambda>(a, v). \<lparr>vin_txid = None, vin_vout = None,
        prevout_of = Some \<lparr>prev_address = Some a, prev_value = Some v\<rparr>, is_coinbase = None\<rparr>)
        [(''v1'', 1000), (''v2'', 701), (''v1'', 1), (''h3'', 5000)]),
     ctx_vout = Some (map (\<lambda>(a, v). \<lparr>out_address = Some a, out_value = Some v, out_type = None,
        out_asm = None, out_script = None\<rparr>) [(''h1'', 900), (''h2'', 800), (''x'', 4000), (''h3'', 1002)])\<rparr>"

theorem computeHackTraceEdges_conserves_witness:
  "sum_list (map d_amount (filter (\<lambda>e. d_from e = ''v1'')
     (inToHacker (computeHackTraceEdges demo_trace_tx [''h1'', ''h2'', ''h3'']
        \<lparr>t_spendingAddress = None, t_spendingHop = None, t_maxEdges = None\<rparr>)))) = 1001"
proof -
  have a: "aggregateInputsByAddress demo_trace_tx [''h1'', ''h2'', ''h3''] = [(''v1'', 1001), (''v2'', 701)]"
    and "aggregateHackerOutputs demo_trace_tx [''h1'', ''h2'', ''h3''] \<noteq> []" by code_simp+
  then show ?thesis
    using computeHackTraceEdges_conserves[of demo_trace_tx "[''h1'', ''h2'', ''h3'']"
        "\<lparr>t_spendingAddress = None, t_spendingHop = None, t_maxEdges = None\<rparr>"] by simp
qed

end
