(* ===== verification/AddressInv.thy ===== *)
theory AddressInv
  imports AddressStore
begin

text \<open>
  The maintained address counters are exact: every write of \<open>AddressStore\<close> keeps, for each counter
  column, the value that the \<open>COUNT(*)\<close> over \<open>addresses\<close> would return. The counting is done once,
  for an arbitrary write to the rows of some addresses (\<open>count_rows_write\<close>), and the step from the
  count to the counter is the contract \<open>row_counter\<close>.
\<close>

fun addr_pred :: "int \<Rightarrow> counter \<Rightarrow> addr_row \<Rightarrow> bool" where
  "addr_pred d CrawlPending r = isCrawlPendingEligible (role_of r) (expandStatus r)"
| "addr_pred d VictimC r = (role_of r = Victim)"
| "addr_pred d CrawlExpanded r = isExpandedStatus (expandStatus r)"
| "addr_pred d HackerActive r = isHackerActive (isFlaggedHacker r) (totalReceivedSats r)"
| "addr_pred d DownstreamTree r = isDownstreamTreeNode (role_of r) (hopFromHacker r) d"
| "addr_pred d _ r = False"

definition tree_depth :: "store \<Rightarrow> int" where
  "tree_depth s = downstreamTreeMaxDepth (sched s)"

lemma tree_depth_adjust [simp]: "tree_depth (adjust k d s) = tree_depth s"
  by (simp add: tree_depth_def)

text \<open>The tree count is maintained once a depth has been set.\<close>

definition addr_counted :: "store \<Rightarrow> counter set" where
  "addr_counted s = {CrawlPending, VictimC, CrawlExpanded, HackerActive} \<union>
     (if tree_depth s > 0 then {DownstreamTree} else {})"

abbreviation cv :: "counter \<Rightarrow> store \<Rightarrow> int" where
  "cv k s \<equiv> counter_val k (sched s)"

definition addr_inv :: "store \<Rightarrow> bool" where
  "addr_inv s \<longleftrightarrow> distinct (map address_of (addresses s)) \<and>
     (\<forall>k\<in>addr_counted s. exact_count (cv k) addresses (addr_pred (tree_depth s) k) s)"

section \<open>What the statistics change\<close>

lemma flip_counter_adjust: "flip_counter k was now s = adjust k (b2i now - b2i was) s"
  by (cases was; cases now) (simp_all add: flip_counter_def adjustSchedulerCounter_def)

lemma adjustHackStats_frame [simp, store_simps]:
  "sched (adjustHackStatsCounter h f d s) = sched s"
  "addresses (adjustHackStatsCounter h f d s) = addresses s"
  "clock (adjustHackStatsCounter h f d s) = clock s"
  "opts (adjustHackStatsCounter h f d s) = opts s"
  "jobs (adjustHackStatsCounter h f d s) = jobs s"
  "job_seq (adjustHackStatsCounter h f d s) = job_seq s"
  "edges (adjustHackStatsCounter h f d s) = edges s"
  "sync_state (adjustHackStatsCounter h f d s) = sync_state s"
  "transactions (adjustHackStatsCounter h f d s) = transactions s"
  "recent_buffer (adjustHackStatsCounter h f d s) = recent_buffer s"
  "tree_depth (adjustHackStatsCounter h f d s) = tree_depth s"
  by (simp_all add: adjustHackStatsCounter_def tree_depth_def)

lemma reconcileHackStats_frame [simp, store_simps]:
  "sched (reconcileHackStatsForAddress b a s) = sched s"
  "addresses (reconcileHackStatsForAddress b a s) = addresses s"
  "clock (reconcileHackStatsForAddress b a s) = clock s"
  "opts (reconcileHackStatsForAddress b a s) = opts s"
  "jobs (reconcileHackStatsForAddress b a s) = jobs s"
  "job_seq (reconcileHackStatsForAddress b a s) = job_seq s"
  "edges (reconcileHackStatsForAddress b a s) = edges s"
  "sync_state (reconcileHackStatsForAddress b a s) = sync_state s"
  "transactions (reconcileHackStatsForAddress b a s) = transactions s"
  "recent_buffer (reconcileHackStatsForAddress b a s) = recent_buffer s"
  by (simp_all add: reconcileHackStatsForAddress_def Let_def split: option.split)

text \<open>
  What the address statistics leave alone: every table but \<open>hack_stats\<close>, and every job counter.
\<close>

definition stats_frame :: "store \<Rightarrow> store \<Rightarrow> bool" where
  "stats_frame s s' \<longleftrightarrow> addresses s' = addresses s \<and> clock s' = clock s \<and> opts s' = opts s \<and>
     jobs s' = jobs s \<and> job_seq s' = job_seq s \<and> edges s' = edges s \<and> sync_state s' = sync_state s \<and>
     transactions s' = transactions s \<and> recent_buffer s' = recent_buffer s \<and>
     tree_depth s' = tree_depth s \<and>
     queueSchedulingPaused (sched s') = queueSchedulingPaused (sched s) \<and>
     (\<forall>k. k \<notin> {CrawlPending, VictimC, CrawlExpanded, HackerActive, DownstreamTree, PollDue} \<longrightarrow>
        cv k s' = cv k s)"

lemma stats_frame_refl [simp]: "stats_frame s s"
  by (simp add: stats_frame_def)

lemma stats_frame_trans [trans]: "stats_frame s t \<Longrightarrow> stats_frame t u \<Longrightarrow> stats_frame s u"
  by (simp add: stats_frame_def)

lemma stats_frame_adjust:
  "k \<in> {CrawlPending, VictimC, CrawlExpanded, HackerActive, DownstreamTree, PollDue} \<Longrightarrow> stats_frame s (adjust k d s)"
  by (auto simp: stats_frame_def tree_depth_def)

lemma counter_val_maxHop [simp]: "counter_val k (r\<lparr>crawlMaxHopReached := n\<rparr>) = counter_val k r"
  by (cases k) simp_all

lemma counter_val_dirty [simp]: "counter_val k (r\<lparr>monitorSnapshotDirty := n\<rparr>) = counter_val k r"
  by (cases k) simp_all

lemma counter_val_dueAt [simp]: "counter_val k (r\<lparr>downstreamPollDueAt := n\<rparr>) = counter_val k r"
  by (cases k) simp_all

lemma counter_val_hackers_cache [simp]:
  "counter_val k (r\<lparr>flaggedHackersCache := x, flaggedHackersCacheAt := y\<rparr>) = counter_val k r"
  by (cases k) simp_all

lemma row_holds_holds: "row_holds P v = holds P v"
  by (simp add: row_holds_def holds_def)

lemma flip_hack_frame [simp]:
  "sched (flip_hack_hackers b a s) = sched s"
  "stats_frame s (flip_hack_hackers b a s)"
  by (simp_all add: flip_hack_hackers_def Let_def stats_frame_def tree_depth_def)

lemma reconcile_stats_frame [simp]: "stats_frame s (reconcileHackStatsForAddress b a s)"
  by (simp add: stats_frame_def tree_depth_def)

lemma raise_max_hop_frame [simp]: "stats_frame s (raise_max_hop m a s)"
  by (simp add: raise_max_hop_def stats_frame_def tree_depth_def split: option.split)

lemma raise_max_hop_val [simp]: "cv k (raise_max_hop m a s) = cv k s"
  by (simp add: raise_max_hop_def split: option.split)

lemma flip_address_counters_eq:
  "flip_address_counters b a s =
     (let \<delta> = (\<lambda>k. b2i (addr_pred (tree_depth s) k a) - b2i (holds (addr_pred (tree_depth s) k) b))
      in adjust HackerActive (\<delta> HackerActive)
       ((if tree_depth s > 0 then adjust DownstreamTree (\<delta> DownstreamTree) else id)
         (adjust CrawlExpanded (\<delta> CrawlExpanded) (adjust VictimC (\<delta> VictimC) s))))"
proof -
  have "addr_pred (tree_depth s) HackerActive = is_active_row"
    "addr_pred (tree_depth s) VictimC = (\<lambda>b. role_of b = Victim)"
    "addr_pred (tree_depth s) CrawlExpanded = (\<lambda>b. isExpandedStatus (expandStatus b))"
    "addr_pred (tree_depth s) DownstreamTree =
       (\<lambda>r. isDownstreamTreeNode (role_of r) (hopFromHacker r) (downstreamTreeMaxDepth (sched s)))"
    by (auto simp: is_active_row_def tree_depth_def)
  then show ?thesis
    by (simp add: flip_address_counters_def flip_counter_adjust row_holds_holds Let_def tree_depth_def)
qed

lemma flip_address_frame: "stats_frame s (flip_address_counters b a s)"
proof (cases "tree_depth s > 0")
  case True
  then show ?thesis
    by (simp add: flip_address_counters_eq Let_def)
       (intro stats_frame_trans[OF _ stats_frame_adjust] stats_frame_adjust; simp)
next
  case False
  then show ?thesis
    by (simp add: flip_address_counters_eq Let_def)
       (intro stats_frame_trans[OF _ stats_frame_adjust] stats_frame_adjust; simp)
qed

lemma apply_stats_frame: "stats_frame s (applyAddressStatsDelta b a s)"
proof (cases a)
  case (Some r)
  have "stats_frame s (flip_hack_hackers b r (flip_address_counters b r s))"
    by (rule stats_frame_trans[OF flip_address_frame[of s b r]]) simp
  then have "stats_frame s (reconcileHackStatsForAddress b r (flip_hack_hackers b r (flip_address_counters b r s)))"
    by (rule stats_frame_trans) simp
  then show ?thesis
    unfolding Some applyAddressStatsDelta_def option.case by (rule stats_frame_trans) simp
qed (simp add: applyAddressStatsDelta_def)

lemma cv_adjust: "cv k (adjust k' d t) = (if k = k' \<and> d \<noteq> 0 then bump d (cv k t) else cv k t)"
  by (simp add: adjust_def)

lemma apply_stats_cv:
  "cv k (applyAddressStatsDelta b (Some a) s) = cv k (flip_address_counters b a s)"
  by (simp add: applyAddressStatsDelta_def)

lemma apply_stats_val:
  assumes "k \<in> {VictimC, CrawlExpanded, HackerActive} \<union> (if tree_depth s > 0 then {DownstreamTree} else {})"
  shows "cv k (applyAddressStatsDelta b (Some a) s)
       = cv k (adjust k (b2i (addr_pred (tree_depth s) k a) - b2i (holds (addr_pred (tree_depth s) k) b)) s)"
  using assms
  by (auto simp: apply_stats_cv flip_address_counters_eq Let_def cv_adjust simp del: counter_val.simps addr_pred.simps split: if_splits)

lemma apply_stats_other:
  "k \<notin> {VictimC, CrawlExpanded, HackerActive, DownstreamTree} \<Longrightarrow>
     cv k (applyAddressStatsDelta b a s) = cv k s"
  by (cases a) (auto simp: apply_stats_cv flip_address_counters_eq Let_def cv_adjust applyAddressStatsDelta_def[of _ None]
        simp del: counter_val.simps addr_pred.simps)

lemma maybeMark_frame:
  shows "stats_frame s (maybeMarkMonitorSnapshotDirty b a s)"
    and "k \<noteq> PollDue \<Longrightarrow> cv k (maybeMarkMonitorSnapshotDirty b a s) = cv k s"
proof -
  let ?n = "maybeMarkMonitorSnapshotDirty b a s"
  have "?n = s \<or> ?n = markMonitorSnapshotDirty s \<or>
        (\<exists>d t. ?n = updateSchedulerState (\<lambda>r. (counter_upd PollDue (bump d) r)\<lparr>downstreamPollDueAt := t\<rparr>) s)"
    by (auto simp: maybeMarkMonitorSnapshotDirty_def Let_def adjustPollDueCountDelta_def split: prod.splits bool.splits if_splits)
  then show "stats_frame s ?n" and "k \<noteq> PollDue \<Longrightarrow> cv k ?n = cv k s"
    by (auto simp: stats_frame_def tree_depth_def markMonitorSnapshotDirty_def simp del: counter_val.simps counter_upd.simps)
qed

section \<open>Writes to rows\<close>

lemma exact_write:
  assumes "exact_count (cv k) addresses P s" and "cv k s' = cv k (adjust k d s)"
    and "count_rows P (addresses s') = count_rows P (addresses s) + d"
  shows "exact_count (cv k) addresses P s'"
proof -
  have "exact_count (cv k) addresses P (adjust k d (set_addresses (addresses s') s))"
    using assms(1) by (rule addr_counter.exact_adj) (simp_all add: set_addresses_def assms(3))
  then show ?thesis
    using assms(2) by (cases "d = 0") (simp_all add: exact_count_def set_addresses_def adjust_def)
qed

lemma addr_inv_write:
  assumes "addr_inv s" and "distinct (map address_of (addresses s'))" and "tree_depth s' = tree_depth s"
    and "distinct as"
    and "filter (\<lambda>r. address_of r \<notin> set as) (addresses s') = filter (\<lambda>r. address_of r \<notin> set as) (addresses s)"
    and "\<And>k. k \<in> addr_counted s \<Longrightarrow> cv k s' = cv k (adjust k
       (\<Sum>a\<leftarrow>as. b2i (holds (addr_pred (tree_depth s) k) (getAddress a s'))
              - b2i (holds (addr_pred (tree_depth s) k) (getAddress a s))) s)"
  shows "addr_inv s'"
proof -
  have "exact_count (cv k) addresses (addr_pred (tree_depth s) k) s'" if "k \<in> addr_counted s" for k
    using exact_write[OF _ assms(6)[OF that]] assms(1) that
      count_rows_write[OF _ assms(2,4,5), of "addr_pred (tree_depth s) k"]
    by (simp add: addr_inv_def getAddress_def)
  then show ?thesis
    using assms(2,3) by (simp add: addr_inv_def addr_counted_def)
qed

lemma addr_inv_frame: "addr_inv s \<Longrightarrow> addresses s' = addresses s \<Longrightarrow> tree_depth s' = tree_depth s \<Longrightarrow>
   (\<And>k. k \<in> addr_counted s \<Longrightarrow> cv k s' = cv k s) \<Longrightarrow> addr_inv s'"
  by (auto simp: addr_inv_def addr_counted_def exact_count_def)

lemma new_address_key [simp]: "address_of (new_address ts u) = u_address u"
  by (simp add: new_address_def)

lemma merge_address_key [simp]: "address_of (merge_address ts u r) = address_of r"
  by (simp add: merge_address_def)

lemma put_address_distinct:
  "distinct (map address_of rows) \<Longrightarrow> distinct (map address_of (put_address ts u rows))"
  by (auto simp: put_address_def map_key_update_where image_iff)

lemma filter_update_where:
  assumes "\<And>r. P r \<Longrightarrow> \<not> Q r" and "\<And>r. P r \<Longrightarrow> \<not> Q (f r)"
  shows "filter Q (update_where P f rows) = filter Q rows"
  using assms by (induction rows) auto

lemma put_address_others:
  "u_address u \<in> K \<Longrightarrow> filter (\<lambda>r. address_of r \<notin> K) (put_address ts u rows) = filter (\<lambda>r. address_of r \<notin> K) rows"
  by (auto simp: put_address_def intro!: filter_update_where)

lemma find_put_address:
  "List.find (\<lambda>r. address_of r = a) (put_address ts u rows) =
     (if a = u_address u
      then Some (case List.find (\<lambda>r. address_of r = a) rows of
                   None \<Rightarrow> new_address ts u | Some r \<Rightarrow> merge_address ts u r)
      else List.find (\<lambda>r. address_of r = a) rows)"
proof (cases "\<exists>r\<in>set rows. address_of r = u_address u")
  case True
  then have "List.find (\<lambda>r. address_of r = u_address u) rows \<noteq> None"
    by (auto simp: find_None_iff)
  with True show ?thesis
    by (auto simp: put_address_def find_update_key)
next
  case False
  then have n: "List.find (\<lambda>r. address_of r = u_address u) rows = None"
    by (auto simp: find_None_iff)
  have "List.find P (rows @ [y]) = (case List.find P rows of None \<Rightarrow> if P y then Some y else None | Some x \<Rightarrow> Some x)"
    for P and y :: addr_row
    by (induction rows) auto
  with False n show ?thesis
    by (auto simp: put_address_def split: option.split)
qed

lemma getAddress_set [simp]: "getAddress a (set_addresses rows s) = List.find (\<lambda>r. address_of r = a) rows"
  by (simp add: getAddress_def set_addresses_def)

lemma getAddress_cong: "addresses s' = addresses s \<Longrightarrow> getAddress a s' = getAddress a s"
  by (simp add: getAddress_def)

lemma set_addresses_simps [simp, store_simps]:
  "addresses (set_addresses rows s) = rows"
  "sched (set_addresses rows s) = sched s"
  "clock (set_addresses rows s) = clock s"
  "opts (set_addresses rows s) = opts s"
  "jobs (set_addresses rows s) = jobs s"
  "job_seq (set_addresses rows s) = job_seq s"
  "edges (set_addresses rows s) = edges s"
  "sync_state (set_addresses rows s) = sync_state s"
  "transactions (set_addresses rows s) = transactions s"
  "recent_buffer (set_addresses rows s) = recent_buffer s"
  "hack_stats (set_addresses rows s) = hack_stats s"
  "tree_depth (set_addresses rows s) = tree_depth s"
  by (simp_all add: set_addresses_def tree_depth_def)

lemma invalidate_simps [simp, store_simps]:
  "addresses (invalidateFlaggedHackersCache s) = addresses s"
  "getAddress a (invalidateFlaggedHackersCache s) = getAddress a s"
  "tree_depth (invalidateFlaggedHackersCache s) = tree_depth s"
  "cv k (invalidateFlaggedHackersCache s) = cv k s"
  by (simp_all add: invalidateFlaggedHackersCache_def getAddress_def tree_depth_def)

section \<open>The statistics after a write\<close>

text \<open>
  One row's statistics after the rows have been written: each counter moves by the difference the
  row makes.
\<close>

lemma cv_adjust_cong: "cv k s = cv k t \<Longrightarrow> cv k (adjust k d s) = cv k (adjust k d t)"
  by (simp add: adjust_def)

lemma row_stats_val:
  assumes "k \<in> addr_counted s"
  shows "cv k (maybeMarkMonitorSnapshotDirty b (Some a) (applyAddressStatsDelta b (Some a)
           (adjustCrawlPendingCount (b2i (crawl_pending (Some a)) - b2i (crawl_pending b)) s)))
       = cv k (adjust k (b2i (addr_pred (tree_depth s) k a) - b2i (holds (addr_pred (tree_depth s) k) b)) s)"
proof (cases "k = CrawlPending")
  case True
  have "crawl_pending b = holds (addr_pred d CrawlPending) b" for d
    by (simp add: crawl_pending_def holds_def split: option.split)
  then show ?thesis
    unfolding True by (simp add: maybeMark_frame(2) apply_stats_other adjustCrawlPendingCount_def
        crawl_pending_def[of "Some a"] del: counter_val.simps)
next
  case False
  let ?t = "adjustCrawlPendingCount (b2i (crawl_pending (Some a)) - b2i (crawl_pending b)) s"
  have d: "tree_depth ?t = tree_depth s" by (simp add: adjustCrawlPendingCount_def tree_depth_def)
  have "k \<noteq> PollDue" and "k \<in> {VictimC, CrawlExpanded, HackerActive} \<union> (if tree_depth ?t > 0 then {DownstreamTree} else {})"
    using assms False d by (auto simp: addr_counted_def split: if_splits)
  then show ?thesis
    using apply_stats_val[of k ?t b a] False
    by (simp add: maybeMark_frame(2) d adjustCrawlPendingCount_def cv_adjust del: counter_val.simps)
qed

section \<open>The operations keep the counters exact\<close>

lemma stats_frameD:
  assumes "stats_frame s s'"
  shows "addresses s' = addresses s" and "tree_depth s' = tree_depth s" and "clock s' = clock s"
    and "opts s' = opts s" and "jobs s' = jobs s" and "edges s' = edges s"
    and "getAddress a s' = getAddress a s"
  using assms by (simp_all add: stats_frame_def getAddress_def)

text \<open>The write of one row with its statistics.\<close>

lemma one_row_inv:
  fixes s rows a r
  defines "s1 \<equiv> set_addresses rows s"
  assumes "addr_inv s" and "distinct (map address_of rows)"
    and "filter (\<lambda>r. address_of r \<notin> {a}) rows = filter (\<lambda>r. address_of r \<notin> {a}) (addresses s)"
    and "List.find (\<lambda>r. address_of r = a) rows = Some r"
    and t: "addresses t = addresses s1" "tree_depth t = tree_depth s" "\<And>k. cv k t = cv k s"
  shows "addr_inv (maybeMarkMonitorSnapshotDirty (getAddress a s) (Some r)
           (applyAddressStatsDelta (getAddress a s) (Some r)
             (adjustCrawlPendingCount (b2i (crawl_pending (Some r)) - b2i (crawl_pending (getAddress a s))) t)))"
    (is "addr_inv ?s'")
proof -
  have f: "stats_frame t ?s'"
    by (rule stats_frame_trans[OF _ maybeMark_frame(1)], rule stats_frame_trans[OF _ apply_stats_frame])
       (simp add: adjustCrawlPendingCount_def stats_frame_adjust)
  note fr = stats_frameD[OF f]
  show ?thesis
  proof (rule addr_inv_write[OF assms(2), where as = "[a]"])
    show "distinct (map address_of (addresses ?s'))" using assms(3) fr(1) t(1) by (simp add: s1_def)
    show "tree_depth ?s' = tree_depth s" using fr(2) t(2) by simp
    show "filter (\<lambda>r. address_of r \<notin> set [a]) (addresses ?s') = filter (\<lambda>r. address_of r \<notin> set [a]) (addresses s)"
      using assms(4) fr(1) t(1) by (simp add: s1_def)
    fix k assume k: "k \<in> addr_counted s"
    then have "k \<in> addr_counted t" using t(2) by (simp add: addr_counted_def)
    note rs = row_stats_val[OF this, of "getAddress a s" r]
    have "getAddress a ?s' = Some r" using fr(7) t(1) assms(5) by (simp add: getAddress_def s1_def)
    then show "cv k ?s' = cv k (adjust k (\<Sum>a\<leftarrow>[a]. b2i (holds (addr_pred (tree_depth s) k) (getAddress a ?s'))
         - b2i (holds (addr_pred (tree_depth s) k) (getAddress a s))) s)"
      unfolding rs t(2) using cv_adjust_cong[OF t(3), of k] by (simp del: counter_val.simps)
  qed simp
qed

lemma upsertAddress_inv: "addr_inv s \<Longrightarrow> addr_inv (upsertAddress u s)"
proof -
  assume inv: "addr_inv s"
  let ?a = "u_address u" and ?rows = "put_address (clock s) u (addresses s)"
  let ?s1 = "set_addresses ?rows s"
  define t where "t = (case u_flagged u of
                  Some f \<Rightarrow> if was_flagged (getAddress ?a s) \<noteq> f then invalidateFlaggedHackersCache ?s1 else ?s1
                | None \<Rightarrow> ?s1)"
  obtain r where r: "List.find (\<lambda>r. address_of r = ?a) ?rows = Some r" by (simp add: find_put_address)
  have t: "addresses t = addresses ?s1" "tree_depth t = tree_depth s" "cv k t = cv k s" for k
    by (simp_all add: t_def split: option.split)
  then have "getAddress ?a t = Some r" using r by (simp add: getAddress_def)
  then have "upsertAddress u s = maybeMarkMonitorSnapshotDirty (getAddress ?a s) (Some r)
           (applyAddressStatsDelta (getAddress ?a s) (Some r)
             (adjustCrawlPendingCount (b2i (crawl_pending (Some r)) - b2i (crawl_pending (getAddress ?a s))) t))"
    by (simp add: upsertAddress_def Let_def t_def[symmetric])
  moreover have "distinct (map address_of ?rows)" using inv by (simp add: addr_inv_def put_address_distinct)
  ultimately show ?thesis
    using one_row_inv[OF inv _ put_address_others r t] by simp
qed

lemma insertAddressIfMissing_inv: "addr_inv s \<Longrightarrow> addr_inv (snd (insertAddressIfMissing u s))"
proof (cases "getAddress (u_address u) s")
  case None
  assume inv: "addr_inv s"
  let ?r = "new_address (clock s) u"
  let ?rows = "addresses s @ [?r]"
  have n: "\<forall>r\<in>set (addresses s). address_of r \<noteq> u_address u"
    using None by (auto simp: getAddress_def find_None_iff)
  then have p: "put_address (clock s) u (addresses s) = ?rows" by (auto simp: put_address_def)
  have d: "distinct (map address_of ?rows)" using inv n by (auto simp: addr_inv_def)
  have f: "List.find (\<lambda>r. address_of r = u_address u) ?rows = Some ?r"
    using find_put_address[of "u_address u" "clock s" u "addresses s"] None p by (simp add: getAddress_def)
  have c: "crawl_pending (Some ?r) = isCrawlPendingEligible (or_else (u_role u) Unknown_role) (or_else (u_expandStatus u) XPending)"
    by (simp add: crawl_pending_def new_address_def)
  have "snd (insertAddressIfMissing u s) = maybeMarkMonitorSnapshotDirty None (Some ?r)
           (applyAddressStatsDelta None (Some ?r)
             (adjustCrawlPendingCount (b2i (crawl_pending (Some ?r)) - b2i (crawl_pending None)) (set_addresses ?rows s)))"
    using None f
    by (simp add: insertAddressIfMissing_def Let_def c crawl_pending_def[of None] adjustCrawlPendingCount_def getAddress_def)
  then show ?thesis
    using one_row_inv[OF inv d, of "u_address u" ?r "set_addresses ?rows s"] f None n by simp
qed (simp add: insertAddressIfMissing_def)

text \<open>The batch: the statistics go through states whose counters never fall below zero.\<close>

lemma fold_put_facts:
  "distinct (map address_of rows) \<Longrightarrow> distinct (map address_of (fold (put_address ts) us rows))"
  "u_address ` set us \<subseteq> K \<Longrightarrow>
     filter (\<lambda>r. address_of r \<notin> K) (fold (put_address ts) us rows) = filter (\<lambda>r. address_of r \<notin> K) rows"
  by (induction us arbitrary: rows) (auto simp: put_address_distinct put_address_others)

lemma fold_put_present:
  "a \<in> u_address ` set us \<or> List.find (\<lambda>r. address_of r = a) rows \<noteq> None \<Longrightarrow>
     List.find (\<lambda>r. address_of r = a) (fold (put_address ts) us rows) \<noteq> None"
proof (induction us arbitrary: rows)
  case (Cons u us)
  have "a \<in> u_address ` set us \<or> List.find (\<lambda>r. address_of r = a) (put_address ts u rows) \<noteq> None"
    using Cons.prems by (auto simp: find_put_address)
  then show ?case using Cons.IH by simp
qed simp

lemma fold_fold_concat: "fold (\<lambda>xs. fold f xs) xss s = fold f (concat xss) s"
  by (induction xss arbitrary: s) simp_all

lemma batch_rows: "fold (put_addresses ts) (batch_chunks s us) rows = fold (put_address ts) us rows"
proof -
  have "fold (put_addresses ts) (batch_chunks s us) rows = fold (\<lambda>xs. fold (put_address ts) xs) (batch_chunks s us) rows"
    by (simp add: put_addresses_def[abs_def])
  then show ?thesis
    by (simp add: fold_fold_concat batch_chunks_def concat_chunks_of)
qed

lemma batch_stats_frame: "stats_frame s (apply_batch_stats before after as s)"
  unfolding apply_batch_stats_def
proof (induction as arbitrary: s)
  case (Cons a as)
  have "stats_frame s (maybeMarkMonitorSnapshotDirty (before a) (after a) (applyAddressStatsDelta (before a) (after a) s))"
    by (rule stats_frame_trans[OF apply_stats_frame maybeMark_frame(1)])
  then show ?case using Cons.IH stats_frame_trans by (fastforce simp del: stats_frame_refl)
qed simp

lemma batch_stats_crawl: "cv CrawlPending (apply_batch_stats before after as s) = cv CrawlPending s"
  unfolding apply_batch_stats_def
  by (induction as arbitrary: s) (simp_all add: maybeMark_frame(2) apply_stats_other del: counter_val.simps)

lemma batch_stats_val:
  assumes "k \<in> {VictimC, CrawlExpanded, HackerActive} \<union> (if tree_depth s > 0 then {DownstreamTree} else {})"
    and "\<forall>a\<in>set as. after a \<noteq> None"
    and "(\<Sum>a\<leftarrow>as. b2i (holds (addr_pred (tree_depth s) k) (before a))) \<le> cv k s"
  shows "cv k (apply_batch_stats before after as s) = cv k s +
     (\<Sum>a\<leftarrow>as. b2i (holds (addr_pred (tree_depth s) k) (after a)) - b2i (holds (addr_pred (tree_depth s) k) (before a)))"
  using assms
proof (induction as arbitrary: s)
  case Nil
  show ?case by (simp add: apply_batch_stats_def)
next
  case (Cons a as)
  let ?P = "addr_pred (tree_depth s) k"
  let ?t = "maybeMarkMonitorSnapshotDirty (before a) (after a) (applyAddressStatsDelta (before a) (after a) s)"
  obtain r where r: "after a = Some r" using Cons.prems(2) by auto
  have d: "tree_depth ?t = tree_depth s"
    using stats_frameD(2)[OF stats_frame_trans[OF apply_stats_frame maybeMark_frame(1)]] .
  have nn: "0 \<le> (\<Sum>a\<leftarrow>as. b2i (holds ?P (before a)))" by (intro sum_list_nonneg) (auto simp: b2i_def)
  have c0: "0 \<le> cv k s" and le: "b2i (holds ?P (before a)) + (\<Sum>a\<leftarrow>as. b2i (holds ?P (before a))) \<le> cv k s"
    using Cons.prems(3) nn by (auto simp: b2i_def split: if_splits)
  have "0 \<le> b2i (?P r)" by (simp add: b2i_def)
  with le nn have p: "0 \<le> cv k s + (b2i (?P r) - b2i (holds ?P (before a)))" by linarith
  have "k \<noteq> PollDue" using Cons.prems(1) by (auto split: if_splits)
  then have "cv k ?t = cv k (adjust k (b2i (?P r) - b2i (holds ?P (before a))) s)"
    using apply_stats_val[OF Cons.prems(1)] r by (simp add: maybeMark_frame(2))
  also have "\<dots> = cv k s + (b2i (holds ?P (after a)) - b2i (holds ?P (before a)))"
    using p r by (simp add: adjust_val[OF c0])
  finally have v: "cv k ?t = cv k s + (b2i (holds ?P (after a)) - b2i (holds ?P (before a)))" .
  have "(\<Sum>a\<leftarrow>as. b2i (holds (addr_pred (tree_depth ?t) k) (before a))) \<le> cv k ?t"
    unfolding d v using le by (simp add: b2i_def split: if_splits)
  then have "cv k (apply_batch_stats before after as ?t) = cv k ?t +
     (\<Sum>a\<leftarrow>as. b2i (holds ?P (after a)) - b2i (holds ?P (before a)))"
    using Cons.IH[of ?t] Cons.prems(1,2) unfolding d by simp
  moreover have "apply_batch_stats before after (a # as) s = apply_batch_stats before after as ?t"
    by (simp add: apply_batch_stats_def)
  ultimately show ?case using v by simp
qed

lemma keys_le_count:
  assumes "exact_count (cv k) addresses P s" and "distinct (map address_of (addresses s))" and "distinct as"
  shows "(\<Sum>a\<leftarrow>as. b2i (holds P (getAddress a s))) \<le> cv k s"
  using assms(1) count_rows_keys[OF assms(2,3), of P]
    count_rows_mono[of "addresses s" "\<lambda>r. P r \<and> address_of r \<in> set as" P]
  by (simp add: exact_count_def getAddress_def)

lemma set_uniq_rev [simp]: "set (uniq (rev xs)) = set xs"
  by simp

lemma upsertAddressesBatch_inv:
  assumes inv: "addr_inv s" and ne: "[] \<notin> u_address ` set us"
  shows "addr_inv (upsertAddressesBatch us s)"
proof (cases "us = []")
  case False
  define as where "as = map u_address us"
  define rows where "rows = fold (put_address (clock s)) us (addresses s)"
  define before where "before = loadAddressesByList as s"
  define t where "t = (if list_ex (flag_changes before) us then invalidateFlaggedHackersCache (set_addresses rows s)
                       else set_addresses rows s)"
  define after where "after = loadAddressesByList as t"
  define order where "order = uniq (rev as)"
  define u where "u = apply_batch_stats before after order t"
  let ?\<delta> = "\<Sum>a\<leftarrow>order. b2i (crawl_pending (after a)) - b2i (crawl_pending (before a))"
  let ?s' = "adjustCrawlPendingCount ?\<delta> u"
  have eq: "upsertAddressesBatch us s = ?s'"
    using False by (simp add: upsertAddressesBatch_def Let_def batch_rows as_def rows_def before_def t_def after_def
        order_def u_def)
  have t: "addresses t = rows" "tree_depth t = tree_depth s" "cv k t = cv k s" for k
    by (simp_all add: t_def)
  have uf: "stats_frame t u" unfolding u_def by (rule batch_stats_frame)
  have sf: "stats_frame t ?s'"
    unfolding adjustCrawlPendingCount_def by (rule stats_frame_trans[OF uf]) (simp add: stats_frame_adjust)
  have oas: "set order = set as" "distinct order" by (simp_all add: order_def)
  have nn: "a \<noteq> []" if "a \<in> set order" for a
  proof -
    from that have "a \<in> u_address ` set us" using oas(1) by (simp add: as_def)
    with ne show ?thesis by metis
  qed
  have ba: "before a = getAddress a s" "after a = getAddress a ?s'" if "a \<in> set order" for a
    using that nn[OF that] oas stats_frameD(7)[OF sf] by (simp_all add: before_def after_def loadAddressesByList_def)
  have pres: "after a \<noteq> None" if "a \<in> set order" for a
  proof -
    have "List.find (\<lambda>r. address_of r = a) rows \<noteq> None"
      unfolding rows_def by (rule fold_put_present) (use that oas in \<open>auto simp: as_def\<close>)
    then show ?thesis using ba(2)[OF that] stats_frameD(1)[OF sf] t(1) by (simp add: getAddress_def)
  qed
  have dist: "distinct (map address_of (addresses s))" using inv by (simp add: addr_inv_def)
  have ex: "exact_count (cv k) addresses (addr_pred (tree_depth s) k) s" if "k \<in> addr_counted s" for k
    using inv that by (simp add: addr_inv_def)
  have crawl: "crawl_pending v = holds (addr_pred d CrawlPending) v" for v d
    by (simp add: crawl_pending_def holds_def split: option.split)
  show ?thesis unfolding eq
  proof (rule addr_inv_write[OF inv, where as = order])
    show "distinct (map address_of (addresses ?s'))"
      using fold_put_facts(1)[OF dist] stats_frameD(1)[OF sf] t(1) by (simp add: rows_def)
    show "tree_depth ?s' = tree_depth s" using stats_frameD(2)[OF sf] t(2) by simp
    show "distinct order" by fact
    show "filter (\<lambda>r. address_of r \<notin> set order) (addresses ?s') = filter (\<lambda>r. address_of r \<notin> set order) (addresses s)"
      using fold_put_facts(2)[of us "set order"] oas stats_frameD(1)[OF sf] t(1) by (simp add: rows_def as_def)
    fix k assume k: "k \<in> addr_counted s"
    let ?P = "addr_pred (tree_depth s) k"
    let ?\<sigma> = "\<Sum>a\<leftarrow>order. b2i (holds ?P (after a)) - b2i (holds ?P (before a))"
    have sig: "?\<sigma> = (\<Sum>a\<leftarrow>order. b2i (holds ?P (getAddress a ?s')) - b2i (holds ?P (getAddress a s)))"
      by (rule arg_cong[where f = sum_list], rule map_cong[OF refl]) (simp add: ba)
    have le: "(\<Sum>a\<leftarrow>order. b2i (holds ?P (before a))) \<le> cv k s"
    proof -
      have "(\<Sum>a\<leftarrow>order. b2i (holds ?P (before a))) = (\<Sum>a\<leftarrow>order. b2i (holds ?P (getAddress a s)))"
        by (rule arg_cong[where f = sum_list], rule map_cong[OF refl]) (simp add: ba)
      then show ?thesis using keys_le_count[OF ex[OF k] dist oas(2)] by simp
    qed
    have "0 \<le> (\<Sum>a\<leftarrow>order. b2i (holds ?P (after a)))" by (intro sum_list_nonneg) (auto simp: b2i_def)
    with le have pos: "0 \<le> cv k s + ?\<sigma>" by (simp add: sum_list_subtractf)
    have "0 \<le> (\<Sum>a\<leftarrow>order. b2i (holds ?P (before a)))" by (intro sum_list_nonneg) (auto simp: b2i_def)
    with le have c0: "0 \<le> cv k s" by simp
    have "cv k ?s' = cv k s + ?\<sigma>"
    proof (cases "k = CrawlPending")
      case True
      have "cv k u = cv k s" using True batch_stats_crawl t(3) by (simp add: u_def del: counter_val.simps)
      then show ?thesis
        using pos c0 True adjust_val[of k u ?\<delta>]
        by (simp add: adjustCrawlPendingCount_def crawl[symmetric] del: counter_val.simps addr_pred.simps)
    next
      case False
      then have "k \<in> {VictimC, CrawlExpanded, HackerActive} \<union> (if tree_depth t > 0 then {DownstreamTree} else {})"
        using k t(2) by (auto simp: addr_counted_def)
      then have "cv k u = cv k t + ?\<sigma>"
        unfolding u_def using batch_stats_val[of k t order after before] pres le t(2,3) by simp
      then show ?thesis using False t(3) by (simp add: adjustCrawlPendingCount_def del: counter_val.simps)
    qed
    then show "cv k ?s' = cv k (adjust k (\<Sum>a\<leftarrow>order. b2i (holds ?P (getAddress a ?s')) - b2i (holds ?P (getAddress a s))) s)"
      unfolding sig[symmetric] using pos by (simp add: adjust_val[OF c0])
  qed
qed (simp add: upsertAddressesBatch_def inv)

lemma exact_others:
  assumes "addr_inv s" and "tree_depth s' = tree_depth s" and "distinct (map address_of (addresses s'))"
    and "\<And>k. k \<in> addr_counted s \<Longrightarrow> \<exists>d. cv k s' = cv k (adjust k d s) \<and>
       count_rows (addr_pred (tree_depth s) k) (addresses s') = count_rows (addr_pred (tree_depth s) k) (addresses s) + d"
  shows "addr_inv s'"
proof -
  have "exact_count (cv k) addresses (addr_pred (tree_depth s) k) s'" if k: "k \<in> addr_counted s" for k
  proof -
    obtain d where "cv k s' = cv k (adjust k d s)"
      "count_rows (addr_pred (tree_depth s) k) (addresses s') = count_rows (addr_pred (tree_depth s) k) (addresses s) + d"
      using assms(4)[OF k] by blast
    moreover have "exact_count (cv k) addresses (addr_pred (tree_depth s) k) s"
      using assms(1) k by (simp add: addr_inv_def)
    ultimately show ?thesis using exact_write by blast
  qed
  then show ?thesis using assms(2,3) by (simp add: addr_inv_def addr_counted_def)
qed

lemma setExpandStatus_inv: "addr_inv s \<Longrightarrow> addr_inv (setExpandStatus a st s)"
proof (cases "getAddress a s")
  case None
  assume inv: "addr_inv s"
  from None have "update_where (\<lambda>r. address_of r = a) f (addresses s) = addresses s" for f
    by (intro update_where_none) (auto simp: getAddress_def find_None_iff)
  then have "setExpandStatus a st s = s"
    using None by (simp add: setExpandStatus_def Let_def set_addresses_def)
  with inv show ?thesis by simp
next
  case (Some e)
  assume inv: "addr_inv s"
  let ?f = "\<lambda>r. r\<lparr>expandStatus := st, lastExpandedAt := Some (clock s)\<rparr>"
  let ?rows = "update_where (\<lambda>r. address_of r = a) ?f (addresses s)"
  have dist: "distinct (map address_of (addresses s))" using inv by (simp add: addr_inv_def)
  have e: "e \<in> set (addresses s)" "address_of e = a"
    using Some find_key_Some[of address_of a "addresses s" e] by (auto simp: getAddress_def)
  define t where "t = flip_counter CrawlExpanded (isExpandedStatus (expandStatus e)) (isExpandedStatus st)
     (adjustCrawlPendingCount (b2i (isCrawlPendingEligible (role_of e) st)
        - b2i (isCrawlPendingEligible (role_of e) (expandStatus e))) (set_addresses ?rows s))"
  have ta: "addresses t = ?rows" "tree_depth t = tree_depth s"
    by (simp_all add: t_def flip_counter_adjust adjustCrawlPendingCount_def)
  have "getAddress a t = Some (?f e)"
    using Some find_update_key[of address_of ?f a a "addresses s"] ta(1) by (simp add: getAddress_def)
  then have eq: "setExpandStatus a st s = maybeMarkMonitorSnapshotDirty (Some e) (Some (?f e)) t" (is "_ = ?s'")
    using Some by (simp add: setExpandStatus_def Let_def t_def)
  note fr = stats_frameD[OF maybeMark_frame(1)[of t "Some e" "Some (?f e)"]]
  have v: "cv k t = cv k (adjust k (b2i (addr_pred (tree_depth s) k (?f e)) - b2i (addr_pred (tree_depth s) k e)) s)"
    if "k \<in> addr_counted s" for k
    using that by (auto simp: addr_counted_def t_def flip_counter_adjust adjustCrawlPendingCount_def cv_adjust
        simp del: counter_val.simps split: if_splits)
  show ?thesis unfolding eq
  proof (rule exact_others[OF inv])
    show "tree_depth ?s' = tree_depth s" using fr(2) ta(2) by simp
    show "distinct (map address_of (addresses ?s'))" using dist fr(1) ta(1) by (simp add: map_key_update_where)
    fix k assume k: "k \<in> addr_counted s"
    then have "k \<noteq> PollDue" by (auto simp: addr_counted_def split: if_splits)
    then have "cv k ?s' = cv k t" by (rule maybeMark_frame(2))
    moreover have "count_rows (addr_pred (tree_depth s) k) ?rows = count_rows (addr_pred (tree_depth s) k) (addresses s)
       + (b2i (addr_pred (tree_depth s) k (?f e)) - b2i (addr_pred (tree_depth s) k e))"
      using count_rows_update_key[OF dist e(1), of "addr_pred (tree_depth s) k" ?f] e(2) by simp
    ultimately show "\<exists>d. cv k ?s' = cv k (adjust k d s) \<and> count_rows (addr_pred (tree_depth s) k) (addresses ?s')
        = count_rows (addr_pred (tree_depth s) k) (addresses s) + d"
      using v[OF k] fr(1) ta(1) by auto
  qed
qed

lemma count_rows_update_all:
  "count_rows P (update_where Q f rows) = count_rows P rows
     + (count_rows (\<lambda>r. P (f r)) (filter Q rows) - count_rows P (filter Q rows))"
  by (induction rows) auto

lemma resetStuck_inv: "addr_inv s \<Longrightarrow> addr_inv (snd (resetStuckExpandStatuses s))"
proof -
  assume inv: "addr_inv s"
  let ?stuck = "\<lambda>r. expandStatus r = XQueued \<or> expandStatus r = XExpanding"
  let ?f = "\<lambda>r. r\<lparr>expandStatus := XPending\<rparr>"
  let ?d = "count_rows (\<lambda>r. isCrawlPendingEligible (role_of r) XPending) (filter ?stuck (addresses s))"
  have eq: "snd (resetStuckExpandStatuses s) = adjust CrawlPending ?d (set_addresses (update_where ?stuck ?f (addresses s)) s)"
    by (simp add: resetStuckExpandStatuses_def Let_def adjustCrawlPendingCount_def)
  have c: "count_rows (addr_pred d k) (update_where ?stuck ?f (addresses s)) = count_rows (addr_pred d k) (addresses s)
      + (if k = CrawlPending then ?d else 0)" for d k
  proof -
    have z: "count_rows (\<lambda>r. addr_pred d CrawlPending r) (filter ?stuck (addresses s)) = 0"
      by (auto simp: count_rows_zero isCrawlPendingEligible_def)
    show ?thesis
      using z by (cases k) (simp_all add: count_rows_update_all count_rows_zero, auto simp: isExpandedStatus_def count_rows_zero
          intro!: count_rows_cong)
  qed
  show ?thesis unfolding eq
    by (rule exact_others[OF inv])
       (use inv c in \<open>auto simp: addr_inv_def map_key_update_where cv_adjust simp del: counter_val.simps\<close>)
qed

lemma addr_inv_set_sched:
  assumes "addr_inv s" and "addresses s' = addresses s"
    and "\<forall>k\<in>addr_counted s'. cv k s' = count_rows (addr_pred (tree_depth s') k) (addresses s)"
  shows "addr_inv s'"
  using assms by (auto simp: addr_inv_def exact_count_def)

lemma counter_val_reconcile [simp]:
  "counter_val k (r\<lparr>crawlPendingCount := n\<rparr>) = (if k = CrawlPending then n else counter_val k r)"
  "counter_val k (r\<lparr>downstreamTreeCount := n, downstreamTreeMaxDepth := m\<rparr>) = (if k = DownstreamTree then n else counter_val k r)"
  "counter_val k (r\<lparr>downstreamPollMaxDepth := x, downstreamPollIntervalSec := y, downstreamPollMinExpandSats := z\<rparr>) = counter_val k r"
  by (cases k; simp)+

lemma addr_pred_depth: "k \<noteq> DownstreamTree \<Longrightarrow> addr_pred d k r = addr_pred d' k r"
  by (cases k) simp_all

lemma addr_invD: "addr_inv s \<Longrightarrow> k \<in> addr_counted s \<Longrightarrow> cv k s = count_rows (addr_pred (tree_depth s) k) (addresses s)"
  by (simp add: addr_inv_def exact_count_def)

lemma reconcileCrawl_inv: "addr_inv s \<Longrightarrow> addr_inv (snd (reconcileCrawlPendingCount s))"
proof (rule addr_inv_set_sched)
  assume inv: "addr_inv s"
  let ?s' = "snd (reconcileCrawlPendingCount s)"
  have p: "count_rows (\<lambda>r. expandStatus r = XPending \<and> (role_of r = Downstream \<or> role_of r = Hacker)) (addresses s)
      = count_rows (addr_pred d CrawlPending) (addresses s)" for d
    by (rule count_rows_cong) (simp add: isCrawlPendingEligible_def)
  have "tree_depth ?s' = tree_depth s" "addr_counted ?s' = addr_counted s"
    by (simp_all add: reconcileCrawlPendingCount_def Let_def tree_depth_def addr_counted_def)
  then show "\<forall>k\<in>addr_counted ?s'. cv k ?s' = count_rows (addr_pred (tree_depth ?s') k) (addresses s)"
    using addr_invD[OF inv] p by (auto simp: reconcileCrawlPendingCount_def Let_def simp del: counter_val.simps addr_pred.simps)
qed (simp_all add: reconcileCrawlPendingCount_def Let_def)

lemma reconcileTree_inv: "addr_inv s \<Longrightarrow> addr_inv (snd (reconcileDownstreamTreeCount d s))"
proof (rule addr_inv_set_sched)
  assume inv: "addr_inv s"
  let ?s' = "snd (reconcileDownstreamTreeCount d s)"
  have td: "tree_depth ?s' = d" by (simp add: reconcileDownstreamTreeCount_def tree_depth_def)
  have p: "count_tree d s = count_rows (addr_pred d DownstreamTree) (addresses s)"
    unfolding count_tree_def by (rule count_rows_cong) (simp add: isDownstreamTreeNode_def)
  show "\<forall>k\<in>addr_counted ?s'. cv k ?s' = count_rows (addr_pred (tree_depth ?s') k) (addresses s)"
  proof
    fix k assume k: "k \<in> addr_counted ?s'"
    show "cv k ?s' = count_rows (addr_pred (tree_depth ?s') k) (addresses s)"
    proof (cases "k = DownstreamTree")
      case True
      then show ?thesis using td p by (simp add: reconcileDownstreamTreeCount_def del: addr_pred.simps)
    next
      case False
      then have "k \<in> addr_counted s" using k by (auto simp: addr_counted_def split: if_splits)
      moreover have "addr_pred d k = addr_pred (tree_depth s) k" using addr_pred_depth[OF False] by blast
      ultimately show ?thesis
        using addr_invD[OF inv] False td by (simp add: reconcileDownstreamTreeCount_def del: counter_val.simps addr_pred.simps)
    qed
  qed
qed (simp_all add: reconcileDownstreamTreeCount_def)

lemma ensureTree_inv: "addr_inv s \<Longrightarrow> addr_inv (ensureDownstreamTreeDepth d s)"
  by (simp add: ensureDownstreamTreeDepth_def reconcileTree_inv)

lemma ensurePoll_inv: "addr_inv s \<Longrightarrow> addr_inv (ensurePollDueCacheParams d i m s)"
proof (rule addr_inv_frame[of s])
  let ?s' = "ensurePollDueCacheParams d i m s"
  show "addresses ?s' = addresses s" "tree_depth ?s' = tree_depth s" "cv k ?s' = cv k s" for k
    by (simp_all add: ensurePollDueCacheParams_def Let_def markMonitorSnapshotDirty_def tree_depth_def)
qed

lemma setExpandProfile_inv: "addr_inv s \<Longrightarrow> addr_inv (setExpandProfile a p r f s)"
proof -
  assume inv: "addr_inv s"
  let ?g = "\<lambda>x. x\<lparr>expandProfile := Some p, relayMeta := or_else r (relayMeta x), fanoutMeta := or_else f (fanoutMeta x)\<rparr>"
  have same: "addr_pred d k (?g x) = addr_pred d k x" for d k x by (cases k) simp_all
  have c: "count_rows (addr_pred d k) (update_where (\<lambda>r. address_of r = a) ?g (addresses s)) = count_rows (addr_pred d k) (addresses s)" for d k
    by (simp add: count_rows_update_all same)
  show ?thesis
    by (rule exact_others[OF inv])
       (use inv c in \<open>auto simp: addr_inv_def setExpandProfile_def map_key_update_where cv_adjust
          intro!: exI[of _ 0]\<close>)
qed

end
