(* ===== verification/EdgeInv.thy ===== *)
theory EdgeInv
  imports EdgeStore AddressInv
begin

text \<open>
  The batched upsert of edges: the address counters stay exact, and the maintained sums follow the
  stored edges.
\<close>

section \<open>The statistics of an edge write\<close>

lemma update_where_find_None:
  "List.find (\<lambda>r. key r = a) rows = None \<Longrightarrow> update_where (\<lambda>r. key r = a) f rows = rows"
  by (rule update_where_none) (auto simp: find_None_iff)

text \<open>Everything an edge write leaves alone: all tables but the address sums and the victim tables.\<close>

definition edge_frame :: "store \<Rightarrow> store \<Rightarrow> bool" where
  "edge_frame s s' \<longleftrightarrow> map address_of (addresses s') = map address_of (addresses s) \<and> clock s' = clock s \<and>
     opts s' = opts s \<and> jobs s' = jobs s \<and> job_seq s' = job_seq s \<and> sync_state s' = sync_state s \<and>
     transactions s' = transactions s \<and> recent_buffer s' = recent_buffer s \<and> edges s' = edges s \<and>
     tree_depth s' = tree_depth s \<and>
     queueSchedulingPaused (sched s') = queueSchedulingPaused (sched s) \<and>
     (\<forall>k. k \<notin> {HackerActive, PollDue} \<longrightarrow> cv k s' = cv k s)"

lemma edge_frame_refl [simp]: "edge_frame s s"
  by (simp add: edge_frame_def)

lemma edge_frame_trans: "edge_frame s t \<Longrightarrow> edge_frame t u \<Longrightarrow> edge_frame s u"
  by (simp add: edge_frame_def)

lemma edge_frame_fold: "(\<And>x s. edge_frame s (f x s)) \<Longrightarrow> edge_frame s (fold f xs s)"
  by (induction xs arbitrary: s) (auto intro: edge_frame_trans)

lemma row_holds_pred:
  "row_holds (\<lambda>r. isHackerActive (isFlaggedHacker r) (totalReceivedSats r + d)) v
     = holds (\<lambda>r. addr_pred m HackerActive (r\<lparr>totalReceivedSats := totalReceivedSats r + d\<rparr>)) v"
  by (simp add: row_holds_def holds_def)

lemma row_holds_active: "row_holds is_active_row v = holds (addr_pred m HackerActive) v"
  by (simp add: row_holds_def holds_def is_active_row_def split: option.split)

lemma applyTotalReceived_facts:
  fixes a d s
  defines "s' \<equiv> applyTotalReceivedDelta a d s"
  shows "edge_frame s s'" and "hack_victims s' = hack_victims s"
    and "hacker_victim_peaks s' = hacker_victim_peaks s"
    and "addresses s' = update_where (\<lambda>r. address_of r = a)
           (\<lambda>r. r\<lparr>totalReceivedSats := totalReceivedSats r + d\<rparr>) (addresses s)"
    and "cv HackerActive s' = cv HackerActive (adjust HackerActive
           (b2i (holds (\<lambda>r. addr_pred 0 HackerActive (r\<lparr>totalReceivedSats := totalReceivedSats r + d\<rparr>)) (getAddress a s))
            - b2i (holds (addr_pred 0 HackerActive) (getAddress a s))) s)"
proof -
  have h: "holds (\<lambda>r. addr_pred 0 HackerActive (r\<lparr>totalReceivedSats := totalReceivedSats r + 0\<rparr>)) v = holds (addr_pred 0 HackerActive) v" for v
    by (simp add: holds_def split: option.split)
  show "addresses s' = update_where (\<lambda>r. address_of r = a)
           (\<lambda>r. r\<lparr>totalReceivedSats := totalReceivedSats r + d\<rparr>) (addresses s)"
    by (auto simp: s'_def applyTotalReceivedDelta_def Let_def flip_counter_adjust split: option.split)
  then have m: "map address_of (addresses s') = map address_of (addresses s)"
    by (simp add: map_key_update_where)
  show "edge_frame s s'" using m
    by (auto simp: s'_def edge_frame_def applyTotalReceivedDelta_def Let_def flip_counter_adjust
        simp del: counter_val.simps split: option.split)
  have f: "hack_victims (adjustHackStatsCounter h k n t) = hack_victims t"
    "hacker_victim_peaks (adjustHackStatsCounter h k n t) = hacker_victim_peaks t"
    "hack_victims (set_addresses rows t) = hack_victims t"
    "hacker_victim_peaks (set_addresses rows t) = hacker_victim_peaks t" for h k n t rows
    by (simp_all add: adjustHackStatsCounter_def set_addresses_def)
  show "hack_victims s' = hack_victims s" "hacker_victim_peaks s' = hacker_victim_peaks s"
    by (auto simp: s'_def applyTotalReceivedDelta_def Let_def flip_counter_adjust f split: option.split)
  show "cv HackerActive s' = cv HackerActive (adjust HackerActive
           (b2i (holds (\<lambda>r. addr_pred 0 HackerActive (r\<lparr>totalReceivedSats := totalReceivedSats r + d\<rparr>)) (getAddress a s))
            - b2i (holds (addr_pred 0 HackerActive) (getAddress a s))) s)"
    unfolding s'_def applyTotalReceivedDelta_def Let_def flip_counter_adjust row_holds_pred[where m = 0] row_holds_active[where m = 0]
    by (auto simp: h cv_adjust simp del: counter_val.simps addr_pred.simps split: option.split)
qed

lemma applyTotalReceived_inv: "addr_inv s \<Longrightarrow> addr_inv (applyTotalReceivedDelta a d s)"
proof -
  assume inv: "addr_inv s"
  let ?f = "\<lambda>r. r\<lparr>totalReceivedSats := totalReceivedSats r + d\<rparr>" and ?s' = "applyTotalReceivedDelta a d s"
  note fs = applyTotalReceived_facts[where s = s and a = a and d = d]
  have dist: "distinct (map address_of (addresses s))" using inv by (simp add: addr_inv_def)
  have others: "addr_pred m k (?f r) = addr_pred m k r" if "k \<noteq> HackerActive" for m k r
    using that by (cases k) simp_all
  have act: "addr_pred m HackerActive = addr_pred 0 HackerActive" for m by auto
  show ?thesis
  proof (rule exact_others[OF inv])
    show "tree_depth ?s' = tree_depth s" using fs(1) by (simp add: edge_frame_def)
    show "distinct (map address_of (addresses ?s'))" using dist fs(1) by (simp add: edge_frame_def)
    fix k assume k: "k \<in> addr_counted s"
    then have kp: "k \<noteq> PollDue" by (auto simp: addr_counted_def split: if_splits)
    show "\<exists>d. cv k ?s' = cv k (adjust k d s) \<and> count_rows (addr_pred (tree_depth s) k) (addresses ?s')
        = count_rows (addr_pred (tree_depth s) k) (addresses s) + d"
    proof (cases "k = HackerActive")
      case False
      then have "cv k ?s' = cv k s" using fs(1) kp by (simp add: edge_frame_def)
      moreover have "count_rows (addr_pred (tree_depth s) k) (addresses ?s') = count_rows (addr_pred (tree_depth s) k) (addresses s)"
        by (simp add: fs(4) count_rows_update_all others[OF False])
      ultimately show ?thesis by (intro exI[of _ 0]) simp
    next
      case True
      have "count_rows (addr_pred 0 HackerActive) (addresses ?s') = count_rows (addr_pred 0 HackerActive) (addresses s)
          + (b2i (holds (\<lambda>r. addr_pred 0 HackerActive (?f r)) (getAddress a s)) - b2i (holds (addr_pred 0 HackerActive) (getAddress a s)))"
      proof (cases "getAddress a s")
        case None
        then show ?thesis unfolding fs(4) using update_where_find_None[of address_of a "addresses s"] by (simp add: getAddress_def)
      next
        case (Some r)
        then have r: "r \<in> set (addresses s)" "address_of r = a"
          using find_key_Some[of address_of a "addresses s" r] by (auto simp: getAddress_def)
        show ?thesis
          unfolding fs(4) Some holds_simps
          using count_rows_update_key[OF dist r(1), of "addr_pred 0 HackerActive" ?f, unfolded r(2)] by linarith
      qed
      then show ?thesis unfolding True act[of "tree_depth s"] by (intro exI conjI) (rule fs(5))
    qed
  qed
qed

lemma applyInbound_facts:
  fixes a d s
  defines "s' \<equiv> applyInboundSatsDelta a d s"
  shows "edge_frame s s'" and "hack_victims s' = hack_victims s"
    and "hacker_victim_peaks s' = hacker_victim_peaks s"
    and "addresses s' = update_where (\<lambda>r. address_of r = a) (\<lambda>r. r\<lparr>inboundSats := inboundSats r + d\<rparr>) (addresses s)"
    and "cv HackerActive s' = cv HackerActive s" and "hack_stats s' = hack_stats s"
proof -
  let ?s1 = "set_addresses (update_where (\<lambda>r. address_of r = a) (\<lambda>r. r\<lparr>inboundSats := inboundSats r + d\<rparr>) (addresses s)) s"
  have c: "s' = s \<and> d = 0 \<or> s' = ?s1 \<or> s' = markMonitorSnapshotDirty ?s1 \<or>
      (\<exists>n t. s' = updateSchedulerState (\<lambda>r. (counter_upd PollDue (bump n) r)\<lparr>downstreamPollDueAt := t\<rparr>) ?s1)"
    by (auto simp: s'_def applyInboundSatsDelta_def Let_def adjustPollDueCountDelta_def simp del: counter_upd.simps
        split: option.split prod.splits bool.splits if_splits)
  have f: "hack_victims ?s1 = hack_victims s" "hacker_victim_peaks ?s1 = hacker_victim_peaks s"
    by (simp_all add: set_addresses_def)
  show "addresses s' = update_where (\<lambda>r. address_of r = a) (\<lambda>r. r\<lparr>inboundSats := inboundSats r + d\<rparr>) (addresses s)"
    using c by (auto simp: markMonitorSnapshotDirty_def)
  then have "map address_of (addresses s') = map address_of (addresses s)" by (simp add: map_key_update_where)
  then show "edge_frame s s'" using c
    by (auto simp: edge_frame_def markMonitorSnapshotDirty_def tree_depth_def simp del: counter_val.simps counter_upd.simps)
  show "hack_victims s' = hack_victims s" "hacker_victim_peaks s' = hacker_victim_peaks s"
     "cv HackerActive s' = cv HackerActive s" "hack_stats s' = hack_stats s"
    using c f by (auto simp: markMonitorSnapshotDirty_def)
qed

lemma applyInbound_inv: "addr_inv s \<Longrightarrow> addr_inv (applyInboundSatsDelta a d s)"
proof -
  assume inv: "addr_inv s"
  note fs = applyInbound_facts[where s = s and a = a and d = d]
  have "addr_pred m k (r\<lparr>inboundSats := inboundSats r + d\<rparr>) = addr_pred m k r" for m k r
    by (cases k) simp_all
  then have c: "count_rows (addr_pred m k) (addresses (applyInboundSatsDelta a d s)) = count_rows (addr_pred m k) (addresses s)" for m k
    by (simp add: fs(4) count_rows_update_all)
  have v: "cv k (applyInboundSatsDelta a d s) = cv k s" if "k \<in> addr_counted s" for k
    using fs(1,5) that by (auto simp: edge_frame_def addr_counted_def simp del: counter_val.simps split: if_splits)
  show ?thesis
    by (rule exact_others[OF inv])
       (use inv fs(1) v c in \<open>auto simp: addr_inv_def edge_frame_def simp del: counter_val.simps intro!: exI[of _ 0]\<close>)
qed

lemma count_victim_facts:
  "edge_frame s (count_new_victim h u s)" "addresses (count_new_victim h u s) = addresses s"
  "sched (count_new_victim h u s) = sched s"
  by (auto simp: count_new_victim_def tryInsertHackVictim_def edge_frame_def tree_depth_def split: option.split)

lemma peak_facts:
  "edge_frame s (applyHackerVictimPeakDelta h v n m s)" "addresses (applyHackerVictimPeakDelta h v n m s) = addresses s"
  "sched (applyHackerVictimPeakDelta h v n m s) = sched s" "hack_stats (applyHackerVictimPeakDelta h v n m s) = hack_stats s"
  "hack_victims (applyHackerVictimPeakDelta h v n m s) = hack_victims s"
  by (auto simp: applyHackerVictimPeakDelta_def edge_frame_def tree_depth_def Let_def split: option.split)

section \<open>The counters after a batch\<close>

lemma fold_inv: "(\<And>x s. P s \<Longrightarrow> P (f x s)) \<Longrightarrow> P s \<Longrightarrow> P (fold f xs s)"
  by (induction xs arbitrary: s) auto

lemma addr_inv_same: "addr_inv s \<Longrightarrow> addresses s' = addresses s \<Longrightarrow> sched s' = sched s \<Longrightarrow> addr_inv s'"
  by (rule addr_inv_frame) (simp_all add: tree_depth_def)

lemma count_victim_inv: "addr_inv s \<Longrightarrow> addr_inv (count_new_victim h u s)"
  by (rule addr_inv_same) (simp_all add: count_victim_facts)

lemma peak_inv: "addr_inv s \<Longrightarrow> addr_inv (applyHackerVictimPeakDelta h v n m s)"
  by (rule addr_inv_same) (simp_all add: peak_facts)

lemma upsert_edge_chunk_inv: "addr_inv s \<Longrightarrow> addr_inv (upsert_edge_chunk c s)"
  unfolding upsert_edge_chunk_def Let_def
  by (intro fold_inv[where P = addr_inv])
     (auto intro: applyTotalReceived_inv applyInbound_inv count_victim_inv peak_inv addr_inv_same)

lemma counter_val_edge_totals [simp]:
  "counter_val k (r\<lparr>totalInSats := i, totalOutSats := j\<rparr>) =
     (if k = TotalOut then j else if k = TotalIn then i else counter_val k r)"
  by (cases k) simp_all

lemma edge_totals_inv: "addr_inv s \<Longrightarrow> addr_inv (adjustEdgeTotalsCounters i j s)"
proof (rule addr_inv_frame[of s])
  let ?s' = "adjustEdgeTotalsCounters i j s"
  show "addresses ?s' = addresses s" "tree_depth ?s' = tree_depth s"
    by (simp_all add: adjustEdgeTotalsCounters_def tree_depth_def)
  show "k \<in> addr_counted s \<Longrightarrow> cv k ?s' = cv k s" for k
    by (auto simp: adjustEdgeTotalsCounters_def addr_counted_def split: if_splits)
qed

lemma upsertEdgesBatch_inv: "addr_inv s \<Longrightarrow> addr_inv (upsertEdgesBatch us s)"
proof -
  have "addr_inv s \<Longrightarrow> addr_inv (upsert_edge_chunks cs i j s)" for cs i j
    by (induction cs i j s rule: upsert_edge_chunks.induct) (simp_all add: edge_totals_inv upsert_edge_chunk_inv)
  then show "addr_inv s \<Longrightarrow> addr_inv (upsertEdgesBatch us s)"
    by (simp add: upsertEdgesBatch_def)
qed

section \<open>Sums over the stored edges\<close>

text \<open>
  A sum over the edges that depends on an edge's ends, direction and amount: what writing a row with
  a new or an old key adds.
\<close>

lemma new_edge_key [simp]: "edge_key (new_edge u) = eu_key u"
  by (simp add: edge_key_def new_edge_def eu_key_def)

lemma merge_edge_key [simp]: "edge_key (merge_edge u e) = edge_key e"
  by (simp add: edge_key_def merge_edge_def)

definition edge_at :: "edge_key \<Rightarrow> edge_row list \<Rightarrow> edge_row option" where
  "edge_at k rows = List.find (\<lambda>e. edge_key e = k) rows"

definition weight_at :: "(edge_row \<Rightarrow> int) \<Rightarrow> edge_row option \<Rightarrow> int" where
  "weight_at w v = (case v of None \<Rightarrow> 0 | Some e \<Rightarrow> w e)"

lemma edge_at_put:
  "edge_at k (put_edge u rows) =
     (if k = eu_key u then Some (case edge_at k rows of None \<Rightarrow> new_edge u | Some e \<Rightarrow> merge_edge u e)
      else edge_at k rows)"
proof (cases "\<exists>e\<in>set rows. edge_key e = eu_key u")
  case True
  then have "List.find (\<lambda>e. edge_key e = eu_key u) rows \<noteq> None" by (auto simp: find_None_iff)
  with True show ?thesis by (auto simp: edge_at_def put_edge_def find_update_key)
next
  case False
  then have n: "List.find (\<lambda>e. edge_key e = eu_key u) rows = None" by (auto simp: find_None_iff)
  have "List.find P (rows @ [y]) = (case List.find P rows of None \<Rightarrow> if P y then Some y else None | Some x \<Rightarrow> Some x)"
    for P and y :: edge_row
    by (induction rows) auto
  with False n show ?thesis by (auto simp: edge_at_def put_edge_def split: option.split)
qed

lemma put_edge_distinct: "distinct (map edge_key rows) \<Longrightarrow> distinct (map edge_key (put_edge u rows))"
  by (auto simp: put_edge_def map_key_update_where image_iff)

lemma sum_update_key:
  assumes "distinct (map key rows)" and "r \<in> set rows"
  shows "(\<Sum>x\<leftarrow>update_where (\<lambda>x. key x = key r) f rows. w x) = (\<Sum>x\<leftarrow>rows. w x) - w r + (w (f r) :: int)"
  using assms
proof (induction rows)
  case (Cons a rows)
  show ?case
  proof (cases "key a = key r")
    case True
    with Cons.prems have "a = r" by (auto simp: image_iff)
    moreover from this Cons.prems have "update_where (\<lambda>x. key x = key r) f rows = rows"
      by (intro update_where_none) (auto simp: image_iff)
    ultimately show ?thesis by simp
  next
    case False
    with Cons.prems have "r \<in> set rows" by auto
    with Cons False show ?thesis by simp
  qed
qed simp

definition by_content :: "(edge_row \<Rightarrow> int) \<Rightarrow> bool" where
  "by_content w \<longleftrightarrow> (\<forall>u e. edge_key e = eu_key u \<longrightarrow> w (merge_edge u e) = w (new_edge u))"

lemma sum_put_edge:
  assumes "distinct (map edge_key rows)" and "by_content w"
  shows "(\<Sum>e\<leftarrow>put_edge u rows. w e) = (\<Sum>e\<leftarrow>rows. w e) + w (new_edge u) - weight_at w (edge_at (eu_key u) rows)"
proof (cases "edge_at (eu_key u) rows")
  case None
  then have "\<forall>e\<in>set rows. edge_key e \<noteq> eu_key u" by (auto simp: edge_at_def find_None_iff)
  then have "put_edge u rows = rows @ [new_edge u]" by (auto simp: put_edge_def)
  then show ?thesis using None by (simp add: weight_at_def)
next
  case (Some e)
  then have e: "e \<in> set rows" "edge_key e = eu_key u"
    using find_key_Some[of edge_key "eu_key u" rows e] by (auto simp: edge_at_def)
  then have "put_edge u rows = update_where (\<lambda>x. edge_key x = edge_key e) (merge_edge u) rows"
    by (auto simp: put_edge_def)
  then show ?thesis
    using sum_update_key[OF assms(1) e(1), of w "merge_edge u"] assms(2) e(2) Some
    by (simp add: by_content_def weight_at_def)
qed

lemma sum_fold_put_edge:
  assumes "distinct (map edge_key rows)" and "by_content w" and "distinct (map eu_key us)"
  shows "(\<Sum>e\<leftarrow>fold put_edge us rows. w e) =
     (\<Sum>e\<leftarrow>rows. w e) + (\<Sum>u\<leftarrow>us. w (new_edge u) - weight_at w (edge_at (eu_key u) rows))"
  using assms
proof (induction us arbitrary: rows)
  case (Cons u us)
  have m: "map (\<lambda>v. w (new_edge v) - weight_at w (edge_at (eu_key v) (put_edge u rows))) us
      = map (\<lambda>v. w (new_edge v) - weight_at w (edge_at (eu_key v) rows)) us"
  proof (intro map_cong refl)
    fix v assume "v \<in> set us"
    then have "eu_key v \<noteq> eu_key u" using Cons.prems(3) by (metis distinct.simps(2) image_eqI list.simps(9) set_map)
    then show "w (new_edge v) - weight_at w (edge_at (eu_key v) (put_edge u rows))
        = w (new_edge v) - weight_at w (edge_at (eu_key v) rows)"
      by (simp add: edge_at_put)
  qed
  show ?case
    using Cons.IH[OF put_edge_distinct[OF Cons.prems(1)] Cons.prems(2)] Cons.prems(3)
      sum_put_edge[OF Cons.prems(1,2), of u] arg_cong[OF m, of sum_list] by simp
qed simp

lemma edge_at_fold:
  "edge_at k (fold put_edge us rows) =
     (if k \<in> eu_key ` set us then edge_at k (fold put_edge us rows) else edge_at k rows)"
  by (induction us arbitrary: rows) (auto simp: edge_at_put)

end
