(* ===== verification/EdgeSums.thy ===== *)
theory EdgeSums
  imports EdgeInv
begin

text \<open>
  The maintained sums after a batch of edges: what a hacker has received, what a downstream address
  got from hackers, and the two totals of \<open>scheduler_state\<close>, against the sums over the stored edges.
\<close>

definition recv :: "address \<Rightarrow> store \<Rightarrow> int" where
  "recv a s = (case getAddress a s of None \<Rightarrow> 0 | Some r \<Rightarrow> totalReceivedSats r)"

definition inb :: "address \<Rightarrow> store \<Rightarrow> int" where
  "inb a s = (case getAddress a s of None \<Rightarrow> 0 | Some r \<Rightarrow> inboundSats r)"

definition known :: "address \<Rightarrow> store \<Rightarrow> bool" where
  "known a s \<longleftrightarrow> getAddress a s \<noteq> None"

text \<open>
  A batch whose keys are distinct and which keeps the direction of the edges it overwrites, as the
  edges of one transaction do.
\<close>

definition batch_ok :: "edge_upsert list \<Rightarrow> edge_row list \<Rightarrow> bool" where
  "batch_ok us rows \<longleftrightarrow> distinct (map eu_key us) \<and>
     (\<forall>u\<in>set us. case edge_at (eu_key u) rows of None \<Rightarrow> True | Some e \<Rightarrow> direction_of e = eu_direction u)"

definition in_total :: "edge_row list \<Rightarrow> int" where
  "in_total es = (\<Sum>e\<leftarrow>es. if direction_of e = In_to_hacker then amountSats e else 0)"

definition out_total :: "edge_row list \<Rightarrow> int" where
  "out_total es = (\<Sum>e\<leftarrow>es. if direction_of e = Out_from_hacker then amountSats e else 0)"

section \<open>Deltas\<close>

lemma sum_alist: "distinct (map fst m) \<Longrightarrow> (\<Sum>(a, x)\<leftarrow>m. if a = b then x else (0::int)) = get_or_0 m b"
proof (induction m)
  case (Cons p m)
  have "(\<Sum>(a, x)\<leftarrow>m. if a = b then x else (0::int)) = 0" if "b \<notin> fst ` set m"
    using that by (induction m) auto
  with Cons show ?case by (cases p) (auto simp: get_or_0_def)
qed (simp add: get_or_0_def)

definition delta_to :: "direction \<Rightarrow> edge_upsert list \<Rightarrow> edge_row list \<Rightarrow> address \<Rightarrow> edge_upsert list \<Rightarrow> int" where
  "delta_to d chunk rows b us =
     (\<Sum>u\<leftarrow>us. if eu_direction u = d \<and> eu_to u = b then eu_amount u - old_amount chunk rows u else 0)"

lemma chunk_deltas_sum:
  "(\<Sum>(a, x)\<leftarrow>chunk_deltas d chunk rows. if a = b then x else 0) = delta_to d chunk rows b chunk"
proof -
  let ?f = "\<lambda>u m. let delta = eu_amount u - old_amount chunk rows u
                 in if eu_direction u = d \<and> delta \<noteq> 0 then map_add (eu_to u) delta m else m"
  have "distinct (map fst m) \<Longrightarrow> distinct (map fst (fold ?f us m)) \<and>
      get_or_0 (fold ?f us m) b = get_or_0 m b + delta_to d chunk rows b us" for us m
  proof (induction us arbitrary: m)
    case Nil
    then show ?case by (simp add: delta_to_def)
  next
    case (Cons u us)
    let ?m = "?f u m"
    have d: "distinct (map fst ?m)" using Cons.prems by (simp add: Let_def distinct_map_add)
    have g: "get_or_0 ?m b = get_or_0 m b + delta_to d chunk rows b [u]"
      by (simp add: Let_def get_or_0_map_add delta_to_def)
    have "fold ?f (u # us) m = fold ?f us ?m" by simp
    moreover have "delta_to d chunk rows b (u # us) = delta_to d chunk rows b [u] + delta_to d chunk rows b us"
      by (simp add: delta_to_def)
    ultimately show ?case using Cons.IH[OF d] g by presburger
  qed
  from this[of "[]" chunk] show ?thesis
    using sum_alist[of "chunk_deltas d chunk rows" b] by (simp add: chunk_deltas_def get_or_0_def)
qed

lemma recv_step:
  "recv b (applyTotalReceivedDelta a d s) = recv b s + (if known b s \<and> a = b then d else 0)"
  "inb b (applyTotalReceivedDelta a d s) = inb b s"
  "known b (applyTotalReceivedDelta a d s) = known b s"
  using find_update_key[of address_of "\<lambda>r. r\<lparr>totalReceivedSats := totalReceivedSats r + d\<rparr>" b a "addresses s"]
  by (auto simp: recv_def inb_def known_def getAddress_def applyTotalReceived_facts(4) split: option.split)

lemma inb_step:
  "inb b (applyInboundSatsDelta a d s) = inb b s + (if known b s \<and> a = b then d else 0)"
  "recv b (applyInboundSatsDelta a d s) = recv b s"
  "known b (applyInboundSatsDelta a d s) = known b s"
  using find_update_key[of address_of "\<lambda>r. r\<lparr>inboundSats := inboundSats r + d\<rparr>" b a "addresses s"]
  by (auto simp: recv_def inb_def known_def getAddress_def applyInbound_facts(4) split: option.split)

lemma recv_fold:
  "recv b (fold (\<lambda>(a, d). applyTotalReceivedDelta a d) m s)
     = recv b s + (if known b s then \<Sum>(a, x)\<leftarrow>m. if a = b then x else 0 else 0) \<and>
   inb b (fold (\<lambda>(a, d). applyTotalReceivedDelta a d) m s) = inb b s \<and>
   known b (fold (\<lambda>(a, d). applyTotalReceivedDelta a d) m s) = known b s"
proof (induction m arbitrary: s)
  case (Cons p m)
  obtain a d where p: "p = (a, d)" by (cases p)
  note ih = Cons.IH[of "applyTotalReceivedDelta a d s"]
  show ?case
    unfolding p fold.simps comp_def prod.case using ih by (simp add: recv_step)
qed simp

lemma inb_fold:
  "inb b (fold (\<lambda>(a, d). applyInboundSatsDelta a d) m s)
     = inb b s + (if known b s then \<Sum>(a, x)\<leftarrow>m. if a = b then x else 0 else 0) \<and>
   recv b (fold (\<lambda>(a, d). applyInboundSatsDelta a d) m s) = recv b s \<and>
   known b (fold (\<lambda>(a, d). applyInboundSatsDelta a d) m s) = known b s"
proof (induction m arbitrary: s)
  case (Cons p m)
  obtain a d where p: "p = (a, d)" by (cases p)
  note ih = Cons.IH[of "applyInboundSatsDelta a d s"]
  show ?case
    unfolding p fold.simps comp_def prod.case using ih by (simp add: inb_step)
qed simp

lemma same_addresses:
  "addresses s' = addresses s \<Longrightarrow> recv b s' = recv b s \<and> inb b s' = inb b s \<and> known b s' = known b s"
  by (simp add: recv_def inb_def known_def getAddress_def)

section \<open>One chunk\<close>

lemma chunk_edge_frame: "edge_frame (s\<lparr>edges := fold put_edge c (edges s)\<rparr>) (upsert_edge_chunk c s)"
proof -
  have 1: "edge_frame t (fold (\<lambda>(a, d). applyTotalReceivedDelta a d) m t)" for m t
    by (rule edge_frame_fold) (auto simp: applyTotalReceived_facts(1))
  have 2: "edge_frame t (fold (\<lambda>(a, d). applyInboundSatsDelta a d) m t)" for m t
    by (rule edge_frame_fold) (auto simp: applyInbound_facts(1))
  have 3: "edge_frame t (fold (count_new_victim h) us t)" for h us t
    by (rule edge_frame_fold) (rule count_victim_facts(1))
  have 4: "edge_frame t (fold (\<lambda>u. applyHackerVictimPeakDelta (f u) (g u) (h u) (i u)) us t)" for f g h i us t
    by (rule edge_frame_fold) (rule peak_facts(1))
  show ?thesis
    unfolding upsert_edge_chunk_def Let_def
    by (rule edge_frame_trans[OF 1], rule edge_frame_trans[OF 2], rule edge_frame_trans[OF 3], rule 4)
qed

lemma edge_frame_cv: "edge_frame s s' \<Longrightarrow> k \<notin> {HackerActive, PollDue} \<Longrightarrow> cv k s' = cv k s"
  by (simp add: edge_frame_def)

lemma chunk_edges [simp]: "edges (upsert_edge_chunk c s) = fold put_edge c (edges s)"
  using chunk_edge_frame[of c s] by (simp add: edge_frame_def)

lemma chunk_totals: "totalInSats (sched (upsert_edge_chunk c s)) = totalInSats (sched s) \<and>
    totalOutSats (sched (upsert_edge_chunk c s)) = totalOutSats (sched s) \<and> opts (upsert_edge_chunk c s) = opts s"
  using edge_frame_cv[OF chunk_edge_frame[of c s], of TotalIn] edge_frame_cv[OF chunk_edge_frame[of c s], of TotalOut]
    chunk_edge_frame[of c s]
  by (simp add: edge_frame_def)

lemma chunk_sums_raw:
  "recv b (upsert_edge_chunk c s) = recv b s + (if known b s then delta_to In_to_hacker c (edges s) b c else 0)"
  "inb b (upsert_edge_chunk c s) = inb b s + (if known b s then delta_to Out_from_hacker c (edges s) b c else 0)"
  "known b (upsert_edge_chunk c s) = known b s"
proof -
  let ?rows = "edges s"
  let ?s1 = "s\<lparr>edges := fold put_edge c ?rows\<rparr>"
  let ?s2 = "fold (\<lambda>(a, d). applyTotalReceivedDelta a d) (chunk_deltas In_to_hacker c ?rows) ?s1"
  let ?s3 = "fold (\<lambda>(a, d). applyInboundSatsDelta a d) (chunk_deltas Out_from_hacker c ?rows) ?s2"
  have v: "addresses (fold (count_new_victim h) xs t) = addresses t" for h xs t
    by (induction xs arbitrary: t) (simp_all add: count_victim_facts)
  have p: "addresses (fold (\<lambda>u. applyHackerVictimPeakDelta (eu_to u) (eu_from u) (eu_amount u) (old_amount c ?rows u)) xs t)
      = addresses t" for xs t
    by (induction xs arbitrary: t) (simp_all add: peak_facts)
  have "addresses (upsert_edge_chunk c s) = addresses ?s3"
    by (simp add: upsert_edge_chunk_def Let_def v p)
  note e = same_addresses[OF this, of b] and s0 = same_addresses[of ?s1 s b]
  show "recv b (upsert_edge_chunk c s) = recv b s + (if known b s then delta_to In_to_hacker c ?rows b c else 0)"
    "inb b (upsert_edge_chunk c s) = inb b s + (if known b s then delta_to Out_from_hacker c ?rows b c else 0)"
    "known b (upsert_edge_chunk c s) = known b s"
    using e s0 recv_fold[of b "chunk_deltas In_to_hacker c ?rows" ?s1]
      inb_fold[of b "chunk_deltas Out_from_hacker c ?rows" ?s2] chunk_deltas_sum[where d = In_to_hacker and chunk = c and rows = ?rows and b = b]
      chunk_deltas_sum[where d = Out_from_hacker and chunk = c and rows = ?rows and b = b]
    by auto
qed

lemma old_amount_stable:
  assumes "batch_ok c rows" and "u \<in> set c" and "tracked u"
  shows "old_amount c rows u = weight_at amountSats (edge_at (eu_key u) rows)"
proof -
  have "old_edge c rows (eu_key u) = edge_at (eu_key u) rows"
  proof (cases "edge_at (eu_key u) rows")
    case None
    then have "\<forall>e\<in>set rows. edge_key e \<noteq> eu_key u" by (auto simp: edge_at_def find_None_iff)
    then have "old_edge c rows (eu_key u) = None" by (auto simp: old_edge_def Let_def find_None_iff)
    with None show ?thesis by simp
  next
    case (Some e)
    then have d: "direction_of e = eu_direction u" using assms(1,2) by (force simp: batch_ok_def)
    have k: "edge_key e = eu_key u" using Some find_key_Some[of edge_key "eu_key u" rows e] by (simp add: edge_at_def)
    have "edge_txid e = eu_txid u" using k by (simp add: edge_key_def eu_key_def)
    with d assms(2,3) have ok: "edge_txid e \<in> eu_txid ` set (filter tracked c) \<and> direction_of e \<in> eu_direction ` set (filter tracked c)"
      by auto
    have g: "List.find P rows = Some e \<Longrightarrow> Q e \<Longrightarrow> List.find (\<lambda>e. P e \<and> Q e) rows = Some e" for P Q
      by (induction rows) (auto split: if_splits)
    have f: "List.find (\<lambda>e. edge_key e = eu_key u) rows = Some e" using Some by (simp add: edge_at_def)
    show ?thesis
      unfolding edge_at_def old_edge_def Let_def using g[of "\<lambda>e. edge_key e = eu_key u" "\<lambda>e. edge_txid e \<in> eu_txid ` set (filter tracked c) \<and> direction_of e \<in> eu_direction ` set (filter tracked c)", OF f ok] f by simp
  qed
  then show ?thesis by (simp add: old_amount_def weight_at_def)
qed

text \<open>The sum over edges with a direction and a property of the target.\<close>

definition dir_weight :: "direction \<Rightarrow> (address \<Rightarrow> bool) \<Rightarrow> edge_row \<Rightarrow> int" where
  "dir_weight d P e = (if P (toAddress e) \<and> direction_of e = d then amountSats e else 0)"

lemma dir_weight_content: "by_content (dir_weight d P)"
  by (auto simp: by_content_def dir_weight_def merge_edge_def new_edge_def edge_key_def eu_key_def)

lemma chunk_weight:
  assumes "batch_ok c rows" and "distinct (map edge_key rows)" and "d = In_to_hacker \<or> d = Out_from_hacker"
  shows "(\<Sum>e\<leftarrow>fold put_edge c rows. dir_weight d P e) = (\<Sum>e\<leftarrow>rows. dir_weight d P e) +
     (\<Sum>u\<leftarrow>c. if eu_direction u = d \<and> P (eu_to u) then eu_amount u - old_amount c rows u else 0)"
proof -
  have "map (\<lambda>u. dir_weight d P (new_edge u) - weight_at (dir_weight d P) (edge_at (eu_key u) rows)) c
      = map (\<lambda>u. if eu_direction u = d \<and> P (eu_to u) then eu_amount u - old_amount c rows u else 0) c"
  proof (intro map_cong refl)
    fix u assume u: "u \<in> set c"
    have n: "dir_weight d P (new_edge u) = (if eu_direction u = d \<and> P (eu_to u) then eu_amount u else 0)"
      by (auto simp: dir_weight_def new_edge_def)
    have o1: "weight_at (dir_weight d P) (edge_at (eu_key u) rows) =
        (if eu_direction u = d \<and> P (eu_to u) then weight_at amountSats (edge_at (eu_key u) rows) else 0)"
    proof (cases "edge_at (eu_key u) rows")
      case None
      then show ?thesis by (simp add: weight_at_def)
    next
      case (Some e)
      then have "direction_of e = eu_direction u" using assms(1) u by (force simp: batch_ok_def)
      moreover have "toAddress e = eu_to u" using Some find_key_Some[of edge_key "eu_key u" rows e]
        by (simp add: edge_at_def edge_key_def eu_key_def)
      ultimately show ?thesis using Some by (auto simp: weight_at_def dir_weight_def)
    qed
    show "dir_weight d P (new_edge u) - weight_at (dir_weight d P) (edge_at (eu_key u) rows)
        = (if eu_direction u = d \<and> P (eu_to u) then eu_amount u - old_amount c rows u else 0)"
      using old_amount_stable[OF assms(1) u] assms(3) by (auto simp: n o1 tracked_def)
  qed
  from arg_cong[OF this, of sum_list] show ?thesis
    using sum_fold_put_edge[OF assms(2) dir_weight_content, of c] assms(1) by (simp add: batch_ok_def)
qed

section \<open>The batch\<close>

lemma dir_weight_sums:
  "(\<Sum>e\<leftarrow>es. dir_weight In_to_hacker (\<lambda>a. a = b) e) = in_sum b es"
  "(\<Sum>e\<leftarrow>es. dir_weight Out_from_hacker (\<lambda>a. a = b) e) = out_sum b es"
  "(\<Sum>e\<leftarrow>es. dir_weight In_to_hacker (\<lambda>a. True) e) = in_total es"
  "(\<Sum>e\<leftarrow>es. dir_weight Out_from_hacker (\<lambda>a. True) e) = out_total es"
  by (simp_all add: dir_weight_def in_sum_def out_sum_def in_total_def out_total_def)

lemma chunk_sums:
  assumes "batch_ok c (edges s)" and "distinct (map edge_key (edges s))" and "known b s"
  shows "recv b (upsert_edge_chunk c s) - recv b s = in_sum b (fold put_edge c (edges s)) - in_sum b (edges s)"
    and "inb b (upsert_edge_chunk c s) - inb b s = out_sum b (fold put_edge c (edges s)) - out_sum b (edges s)"
    and "chunk_total_in c (edges s) = in_total (fold put_edge c (edges s)) - in_total (edges s)"
  using chunk_weight[OF assms(1,2), of In_to_hacker "\<lambda>a. a = b", unfolded dir_weight_sums]
    chunk_weight[OF assms(1,2), of Out_from_hacker "\<lambda>a. a = b", unfolded dir_weight_sums]
    chunk_weight[OF assms(1,2), of In_to_hacker "\<lambda>a. True", unfolded dir_weight_sums]
  by (simp_all add: chunk_sums_raw assms(3) delta_to_def chunk_total_in_def)

lemma chunk_total_in_eq:
  assumes "batch_ok c (edges s)" and "distinct (map edge_key (edges s))"
  shows "chunk_total_in c (edges s) = in_total (fold put_edge c (edges s)) - in_total (edges s)"
  using chunk_weight[OF assms, of In_to_hacker "\<lambda>a. True", unfolded dir_weight_sums]
  by (simp add: chunk_total_in_def)

lemma batch_ok_append:
  assumes "batch_ok (c @ us) rows"
  shows "batch_ok c rows" and "batch_ok us (fold put_edge c rows)"
proof -
  show "batch_ok c rows" using assms by (auto simp: batch_ok_def)
  have "edge_at (eu_key u) (fold put_edge c rows) = edge_at (eu_key u) rows" if "u \<in> set us" for u
  proof -
    have n: "eu_key u \<notin> eu_key ` set c" using that assms by (auto simp: batch_ok_def)
    show ?thesis using edge_at_fold[of "eu_key u" c rows] unfolding if_not_P[OF n] .
  qed
  then show "batch_ok us (fold put_edge c rows)" using assms by (auto simp: batch_ok_def)
qed

lemma fold_put_distinct: "distinct (map edge_key rows) \<Longrightarrow> distinct (map edge_key (fold put_edge us rows))"
  by (induction us arbitrary: rows) (auto simp: put_edge_distinct)

lemma edge_totals_facts:
  "recv b (adjustEdgeTotalsCounters i j s) = recv b s" "inb b (adjustEdgeTotalsCounters i j s) = inb b s"
  "known b (adjustEdgeTotalsCounters i j s) = known b s" "edges (adjustEdgeTotalsCounters i j s) = edges s"
  "0 \<le> totalInSats (sched s) \<Longrightarrow> totalInSats (sched (adjustEdgeTotalsCounters i j s)) = max 0 (totalInSats (sched s) + i)"
  "0 \<le> totalOutSats (sched s) \<Longrightarrow> totalOutSats (sched (adjustEdgeTotalsCounters i j s)) = max 0 (totalOutSats (sched s) + j)"
  by (simp_all add: adjustEdgeTotalsCounters_def recv_def inb_def known_def getAddress_def bump_def)

lemma chunks_sums:
  assumes "batch_ok (concat cs) (edges s)" and "distinct (map edge_key (edges s))"
    and "0 \<le> totalInSats (sched s)" and "0 \<le> totalOutSats (sched s)"
  shows "edges (upsert_edge_chunks cs i j s) = fold put_edge (concat cs) (edges s) \<and>
    known b (upsert_edge_chunks cs i j s) = known b s \<and>
    (known b s \<longrightarrow>
      recv b (upsert_edge_chunks cs i j s) - recv b s = in_sum b (fold put_edge (concat cs) (edges s)) - in_sum b (edges s) \<and>
      inb b (upsert_edge_chunks cs i j s) - inb b s = out_sum b (fold put_edge (concat cs) (edges s)) - out_sum b (edges s)) \<and>
    totalInSats (sched (upsert_edge_chunks cs i j s)) =
      max 0 (totalInSats (sched s) + i + in_total (fold put_edge (concat cs) (edges s)) - in_total (edges s)) \<and>
    totalOutSats (sched (upsert_edge_chunks cs i j s)) = max 0 (totalOutSats (sched s) + j + chunk_total_out (concat cs))"
  using assms
proof (induction cs i j s rule: upsert_edge_chunks.induct)
  case (1 i j s)
  then show ?case by (simp add: edge_totals_facts chunk_total_out_def)
next
  case (2 c cs i j s)
  let ?t = "upsert_edge_chunk c s"
  have ok: "batch_ok c (edges s)" "batch_ok (concat cs) (edges ?t)"
    using batch_ok_append[of c "concat cs" "edges s"] 2(2) by simp_all
  have d: "distinct (map edge_key (edges ?t))" using fold_put_distinct[OF 2(3)] by simp
  have t: "totalInSats (sched ?t) = totalInSats (sched s)" "totalOutSats (sched ?t) = totalOutSats (sched s)"
    using chunk_totals by auto
  have out: "chunk_total_out (c @ xs) = chunk_total_out c + chunk_total_out xs" for xs
    by (simp add: chunk_total_out_def)
  have eq: "upsert_edge_chunks (c # cs) i j s = upsert_edge_chunks cs
      (i + chunk_total_in c (edges s)) (j + chunk_total_out c) ?t" by simp
  have f: "fold put_edge (concat (c # cs)) (edges s) = fold put_edge (concat cs) (edges ?t)" by simp
  have k: "known b ?t = known b s" by (rule chunk_sums_raw(3))
  have e: "edges ?t = fold put_edge c (edges s)" by simp
  note ih = 2(1)[OF ok(2) d, unfolded t k]
  show ?case
    unfolding eq f
    using ih 2(4,5) chunk_sums[OF ok(1) 2(3), of b, folded e] chunk_total_in_eq[OF ok(1) 2(3), folded e]
      out[of "concat cs"] by auto
qed

lemma batch_sums:
  assumes "batch_ok us (edges s)" and "distinct (map edge_key (edges s))"
    and "0 \<le> totalInSats (sched s)" and "0 \<le> totalOutSats (sched s)"
  shows "edges (upsertEdgesBatch us s) = fold put_edge us (edges s) \<and>
    (known b s \<longrightarrow>
      recv b (upsertEdgesBatch us s) - recv b s = in_sum b (fold put_edge us (edges s)) - in_sum b (edges s) \<and>
      inb b (upsertEdgesBatch us s) - inb b s = out_sum b (fold put_edge us (edges s)) - out_sum b (edges s)) \<and>
    totalInSats (sched (upsertEdgesBatch us s)) =
      max 0 (totalInSats (sched s) + in_total (fold put_edge us (edges s)) - in_total (edges s)) \<and>
    totalOutSats (sched (upsertEdgesBatch us s)) = max 0 (totalOutSats (sched s) + chunk_total_out us)"
proof (cases "us = []")
  case True
  then show ?thesis using assms by (simp add: upsertEdgesBatch_def chunk_total_out_def)
next
  case False
  have "concat (batch_chunks s us) = us" by (simp add: batch_chunks_def concat_chunks_of)
  then show ?thesis
    using chunks_sums[of "batch_chunks s us" s 0 0 b] assms False by (simp add: upsertEdgesBatch_def)
qed

lemma in_total_nonneg: "(\<And>e. e \<in> set es \<Longrightarrow> 0 \<le> amountSats e) \<Longrightarrow> 0 \<le> in_total es"
  unfolding in_total_def by (rule sum_list_nonneg) auto

lemma fold_put_amounts:
  "(\<And>e. e \<in> set rows \<Longrightarrow> 0 \<le> amountSats e) \<Longrightarrow> (\<And>u. u \<in> set us \<Longrightarrow> 0 \<le> eu_amount u) \<Longrightarrow>
     e \<in> set (fold put_edge us rows) \<Longrightarrow> 0 \<le> amountSats e"
proof (induction us arbitrary: rows)
  case (Cons u us)
  have "0 \<le> amountSats e" if "e \<in> set (put_edge u rows)" for e
    using that Cons.prems(1,2) by (auto simp: put_edge_def update_where_def merge_edge_def new_edge_def split: if_splits)
  then show ?case using Cons.IH[of "put_edge u rows"] Cons.prems(2,3) by simp
qed simp

lemma new_direction_amount: "direction_of (new_edge u) = eu_direction u" "amountSats (new_edge u) = eu_amount u"
  by (simp_all add: new_edge_def)

lemma out_total_fresh:
  assumes "distinct (map eu_key us)" and "\<And>u. u \<in> set us \<Longrightarrow> edge_at (eu_key u) rows = None"
  shows "out_total (fold put_edge us rows) = out_total rows + (\<Sum>u\<leftarrow>us. if eu_direction u = Out_from_hacker then eu_amount u else 0)"
  using assms
proof (induction us arbitrary: rows)
  case (Cons u us)
  have n: "\<forall>e\<in>set rows. edge_key e \<noteq> eu_key u" using Cons.prems(2)[of u] by (auto simp: edge_at_def find_None_iff)
  then have p: "put_edge u rows = rows @ [new_edge u]" by (auto simp: put_edge_def)
  have "edge_at (eu_key v) (put_edge u rows) = None" if "v \<in> set us" for v
    using Cons.prems that by (auto simp: edge_at_put image_iff)
  then show ?case using Cons.IH[of "put_edge u rows"] Cons.prems(1)
    by (simp add: p out_total_def new_direction_amount)
qed simp

text \<open>
  C13: a batch of edges whose keys are distinct and whose directions agree with the stored edges, in
  chunks of any size, is stored row by row, and the maintained sums follow it: what a known address
  has received from victims, and from hackers, changes by the change of the sum over the stored
  edges; a total of in-edges that was exact stays exact. The total of out-edges grows by the whole
  amounts of the out-edges of the batch, stored before or not: it stays exact when none of the batch
  was stored before.
\<close>

theorem upsertEdgesBatch_sums:
  assumes "batch_ok us (edges s)" and "distinct (map edge_key (edges s))"
    and "\<forall>e\<in>set (edges s). 0 \<le> amountSats e" and "\<forall>u\<in>set us. 0 \<le> eu_amount u"
    and "totalInSats (sched s) = in_total (edges s)" and "0 \<le> totalOutSats (sched s)"
  shows "edges (upsertEdgesBatch us s) = fold put_edge us (edges s) \<and>
    (\<forall>a. known a s \<longrightarrow>
      recv a (upsertEdgesBatch us s) - recv a s = in_sum a (edges (upsertEdgesBatch us s)) - in_sum a (edges s) \<and>
      inb a (upsertEdgesBatch us s) - inb a s = out_sum a (edges (upsertEdgesBatch us s)) - out_sum a (edges s)) \<and>
    totalInSats (sched (upsertEdgesBatch us s)) = in_total (edges (upsertEdgesBatch us s)) \<and>
    totalOutSats (sched (upsertEdgesBatch us s)) =
      totalOutSats (sched s) + (\<Sum>u\<leftarrow>us. if eu_direction u = Out_from_hacker then eu_amount u else 0) \<and>
    (totalOutSats (sched s) = out_total (edges s) \<and> (\<forall>u\<in>set us. edge_at (eu_key u) (edges s) = None) \<longrightarrow>
      totalOutSats (sched (upsertEdgesBatch us s)) = out_total (edges (upsertEdgesBatch us s)))"
proof -
  have n: "0 \<le> totalInSats (sched s)" using assms(3,5) in_total_nonneg by simp
  note b = batch_sums[OF assms(1,2) n assms(6)]
  have "0 \<le> in_total (fold put_edge us (edges s))"
    by (rule in_total_nonneg) (use fold_put_amounts assms(3,4) in blast)
  moreover have "0 \<le> (\<Sum>u\<leftarrow>us. if eu_direction u = Out_from_hacker then eu_amount u else 0)"
    by (rule sum_list_nonneg) (use assms(4) in auto)
  moreover have "chunk_total_out us = (\<Sum>u\<leftarrow>us. if eu_direction u = Out_from_hacker then eu_amount u else 0)"
    by (simp add: chunk_total_out_def)
  moreover have "distinct (map eu_key us)" using assms(1) by (simp add: batch_ok_def)
  ultimately show ?thesis using b assms(5,6) out_total_fresh[of us "edges s"] by auto
qed

text \<open>A hacker, a victim and a downstream address; an in-edge of 500 is stored.\<close>

definition demo_edge_store :: store where
  "demo_edge_store =
     upsertEdge \<lparr>eu_from = ''v'', eu_to = ''h'', eu_txid = ''t1'', eu_amount = 500, eu_blockTime = None,
        eu_hop = Some 0, eu_direction = In_to_hacker, eu_edgeKind = None, eu_fanoutMeta = None\<rparr>
      (upsertAddressesBatch
        [(plain_upsert ''h'')\<lparr>u_role := Some Hacker, u_flagged := Some True\<rparr>,
         (plain_upsert ''v'')\<lparr>u_role := Some Victim\<rparr>,
         (plain_upsert ''d'')\<lparr>u_role := Some Downstream, u_hop := Some (Some 1)\<rparr>]
        (init_store default_options 1000000))"

definition demo_edges :: "edge_upsert list" where
  "demo_edges = map (\<lambda>(f, t, x, n, d). \<lparr>eu_from = f, eu_to = t, eu_txid = x, eu_amount = n, eu_blockTime = None,
        eu_hop = None, eu_direction = d, eu_edgeKind = None, eu_fanoutMeta = None\<rparr>)
     [(''v'', ''h'', ''t1'', 700, In_to_hacker), (''v'', ''h'', ''t2'', 40, In_to_hacker), (''h'', ''d'', ''t2'', 9, Out_from_hacker)]"

theorem upsertEdgesBatch_sums_witness:
  "totalInSats (sched (upsertEdgesBatch demo_edges demo_edge_store)) = 740 \<and>
   recv ''h'' (upsertEdgesBatch demo_edges demo_edge_store) = 740"
proof -
  have p: "batch_ok demo_edges (edges demo_edge_store)" "distinct (map edge_key (edges demo_edge_store))"
    "totalInSats (sched demo_edge_store) = in_total (edges demo_edge_store)"
    "0 \<le> totalOutSats (sched demo_edge_store)" "known ''h'' demo_edge_store" "recv ''h'' demo_edge_store = 500"
    "in_sum ''h'' (edges demo_edge_store) = 500"
    "in_sum ''h'' (fold put_edge demo_edges (edges demo_edge_store)) = 740"
    "in_total (fold put_edge demo_edges (edges demo_edge_store)) = 740"
    by code_simp+
  have "list_all (\<lambda>e. 0 \<le> amountSats e) (edges demo_edge_store)" "list_all (\<lambda>u. 0 \<le> eu_amount u) demo_edges"
    by code_simp+
  then have "\<forall>e\<in>set (edges demo_edge_store). 0 \<le> amountSats e" "\<forall>u\<in>set demo_edges. 0 \<le> eu_amount u"
    by (simp_all add: list_all_iff)
  from upsertEdgesBatch_sums[OF p(1,2) this p(3,4)] p(5-9) show ?thesis by auto
qed

text \<open>
  Storing an out-edge again inflates the total of what hackers spent: the edges and the sum on
  the target address do not change, and \<open>totalOutSats\<close> still grows by the full amount (the in-edges
  subtract the stored amount, the out-edges do not).
\<close>

lemma upsertEdge_again_inflates:
  assumes "edge_at (eu_key u) (edges s) = Some e" and "merge_edge u e = e"
    and "eu_direction u = Out_from_hacker" and "0 < eu_amount u"
    and "distinct (map edge_key (edges s))" and "0 \<le> totalInSats (sched s)" and "0 \<le> totalOutSats (sched s)"
  shows "edges (upsertEdge u s) = edges s \<and> inb (eu_to u) (upsertEdge u s) = inb (eu_to u) s \<and>
    totalOutSats (sched (upsertEdge u s)) = totalOutSats (sched s) + eu_amount u"
proof -
  have e: "e \<in> set (edges s)" "edge_key e = eu_key u"
    using assms(1) find_key_Some[of edge_key "eu_key u" "edges s" e] by (auto simp: edge_at_def)
  have dir: "direction_of e = eu_direction u"
    using arg_cong[OF assms(2), of direction_of] by (simp add: merge_edge_def)
  have ok: "batch_ok [u] (edges s)" using assms(1) dir by (simp add: batch_ok_def)
  have "(if edge_key x = eu_key u then merge_edge u x else x) = x" if "x \<in> set (edges s)" for x
    using distinct_key_unique[OF assms(5) that e(1)] e(2) assms(2) by auto
  then have same: "put_edge u (edges s) = edges s"
    using e by (auto simp: put_edge_def update_where_def intro!: map_idI)
  note b = batch_sums[OF ok assms(5-7), of "eu_to u"]
  have "\<not> known (eu_to u) s \<Longrightarrow> inb (eu_to u) (upsertEdge u s) = inb (eu_to u) s"
    using assms(3) by (simp add: upsertEdge_def upsertEdgesBatch_def batch_chunks_def chunks_of.simps[of _ "[u]"]
        chunks_of.simps[of _ "[]"] edge_totals_facts chunk_sums_raw)
  with b show ?thesis
    using assms(3,4,7) same by (auto simp: upsertEdge_def chunk_total_out_def)
qed

lemma upsertEdge_again_inflates_witness:
  "totalOutSats (sched (upsertEdge (demo_edges ! 2) (upsertEdgesBatch demo_edges demo_edge_store))) = 18 \<and>
   out_total (edges (upsertEdgesBatch demo_edges demo_edge_store)) = 9"
proof -
  let ?s = "upsertEdgesBatch demo_edges demo_edge_store" and ?u = "demo_edges ! 2"
  have "edge_at (eu_key ?u) (edges ?s) = Some (new_edge ?u)" "merge_edge ?u (new_edge ?u) = new_edge ?u"
    "eu_direction ?u = Out_from_hacker" "0 < eu_amount ?u" "distinct (map edge_key (edges ?s))"
    "0 \<le> totalInSats (sched ?s)" "0 \<le> totalOutSats (sched ?s)"
    "totalOutSats (sched ?s) = 9" "eu_amount ?u = 9" "out_total (edges ?s) = 9"
    by code_simp+
  then show ?thesis using upsertEdge_again_inflates[of ?u ?s "new_edge ?u"] by simp
qed

end
