(* ===== verification/ApplyTrace.thy ===== *)
theory ApplyTrace
  imports RootHackers HackTrace EdgeSums
begin

text \<open>
  Writing the edges of a transaction to the store: \<open>applyHackTraceEdgesChunk\<close> of
  \<open>packages/core/src/graph/builder.ts\<close> with \<open>expandSkip.ts\<close> and \<open>victimReturnEdgeKind\<close>, and the
  recent-activity buffer of \<open>store.ts\<close> that it feeds.
\<close>

section \<open>Thresholds\<close>

definition qualifiesForExpand :: "int \<Rightarrow> int \<Rightarrow> bool" where
  "qualifiesForExpand inbound minExpand \<longleftrightarrow> minExpand \<le> 0 \<or> inbound \<ge> minExpand"

definition expandStatusToWrite :: "expand_status option \<Rightarrow> int \<Rightarrow> int \<Rightarrow> expand_status option" where
  "expandStatusToWrite existing inbound minExpand =
     (let q = qualifiesForExpand inbound minExpand
      in case existing of
           None \<Rightarrow> Some (if q then XPending else XSkippedMin)
         | Some x \<Rightarrow> if x = XSkippedMin \<and> q then Some XPending else None)"

definition victimReturnEdgeKind :: "int \<Rightarrow> int \<Rightarrow> string" where
  "victimReturnEdgeKind amount minSats = (if amount \<ge> minSats then ''victim_refund'' else ''victim_dust'')"

section \<open>Recent activity\<close>

definition max_time :: "time option \<Rightarrow> time option \<Rightarrow> time option" where
  "max_time x y = (case (x, y) of (Some a, Some b) \<Rightarrow> Some (max a b) | (None, _) \<Rightarrow> y | (_, None) \<Rightarrow> x)"

definition recordRecentHackerActivity :: "address \<Rightarrow> activity \<Rightarrow> store \<Rightarrow> store" where
  "recordRecentHackerActivity a delta s =
     (if a = [] then s
      else
        let prev = or_else (map_of (recent_buffer s) a) \<lparr>act_victims = 0, act_downstream = 0, act_at = None\<rparr>
        in s\<lparr>recent_buffer := map_put a
               \<lparr>act_victims = act_victims prev + act_victims delta,
                act_downstream = act_downstream prev + act_downstream delta,
                act_at = max_time (act_at prev) (act_at delta)\<rparr> (recent_buffer s)\<rparr>)"

definition victim_activity :: "time \<Rightarrow> activity" where
  "victim_activity tm = \<lparr>act_victims = 1, act_downstream = 0, act_at = Some tm\<rparr>"

definition downstream_activity :: "time \<Rightarrow> activity" where
  "downstream_activity tm = \<lparr>act_victims = 0, act_downstream = 1, act_at = Some tm\<rparr>"

section \<open>Slices\<close>

text \<open>\<open>Array.prototype.slice\<close>: a negative index counts from the end, both are cut to the range.\<close>

definition js_index :: "'a list \<Rightarrow> int \<Rightarrow> nat" where
  "js_index xs i = nat (if i < 0 then max 0 (int (length xs) + i) else min i (int (length xs)))"

definition js_slice :: "'a list \<Rightarrow> int \<Rightarrow> int \<Rightarrow> 'a list" where
  "js_slice xs b e = take (js_index xs e - js_index xs b) (drop (js_index xs b) xs)"

section \<open>One chunk of edges\<close>

text \<open>
  What the CPU guard answers when it is asked: at the start of the chunk, and at its end. Its clock
  is outside the model.
\<close>

record cpu_guard =
  g_exceeded :: bool
  g_tripped :: bool

record apply_opts =
  ap_start :: "int option"
  ap_maxEdges :: "int option"
  ap_guard :: "cpu_guard option"
  ap_flagged :: "address list option"
  ap_minExpand :: "int option"
  ap_minVictim :: "int option"

record apply_result =
  complete :: bool
  nextEdgeIndex :: int
  edgesApplied :: int
  traceEdgeTotal :: int
  cpuGuardTripped :: "bool option"

text \<open>The victims registered with the first chunk: those whose whole payment qualifies.\<close>

definition victim_totals :: "edge_draft list \<Rightarrow> (address \<times> int) list" where
  "victim_totals flat =
     fold (\<lambda>e m. if d_direction e = In_to_hacker then map_add (d_from e) (d_amount e) m else m) flat []"

definition qualifying_victims :: "edge_draft list \<Rightarrow> address list \<Rightarrow> int \<Rightarrow> address list" where
  "qualifying_victims flat victims minVictim =
     filter (\<lambda>a. qualifiesForExpand (get_or_0 (victim_totals flat) a) minVictim) victims"

definition victim_upsert :: "address \<Rightarrow> addr_upsert" where
  "victim_upsert a = (plain_upsert a)\<lparr>u_role := Some Victim, u_source := Some ''derived''\<rparr>"

definition register_victims ::
  "int \<Rightarrow> edge_draft list \<Rightarrow> address list \<Rightarrow> int \<Rightarrow> store \<Rightarrow> address list \<times> store" where
  "register_victims start flat victims minVictim s =
     (if start = 0 \<and> victims \<noteq> []
      then (let q = qualifying_victims flat victims minVictim;
                existing = getExistingAddressSet q s
            in (filter (\<lambda>a. a \<notin> set existing) q,
                if q \<noteq> [] then upsertAddressesBatch (map victim_upsert q) s else s))
      else ([], s))"

text \<open>\<open>filterVictimsAmong\<close>: those of the addresses that paid one of the hackers.\<close>

definition filterVictimsAmong :: "address list \<Rightarrow> address list \<Rightarrow> store \<Rightarrow> address list" where
  "filterVictimsAmong as hackers s =
     filter (\<lambda>a. \<exists>e\<in>set (edges s). fromAddress e = a \<and> direction_of e = In_to_hacker \<and> toAddress e \<in> set hackers)
       (uniq as)"

definition out_targets :: "edge_draft list \<Rightarrow> address list" where
  "out_targets es = map d_to (filter (\<lambda>e. d_direction e = Out_from_hacker) es)"

definition is_downstream_draft :: "address list \<Rightarrow> edge_draft \<Rightarrow> bool" where
  "is_downstream_draft victimTargets e \<longleftrightarrow> d_direction e = Out_from_hacker \<and> d_to e \<notin> set victimTargets"

definition inbound_sums :: "address list \<Rightarrow> edge_draft list \<Rightarrow> (address \<times> int) list" where
  "inbound_sums vt es = fold (\<lambda>e m. if is_downstream_draft vt e then map_add (d_to e) (d_amount e) m else m) es []"

definition below_floor :: "int \<Rightarrow> int \<Rightarrow> edge_draft \<Rightarrow> bool" where
  "below_floor minExpand minVictim e \<longleftrightarrow>
     d_amount e < (if d_direction e = In_to_hacker then minVictim else minExpand)"

text \<open>The rows of the downstream addresses, one per out-edge that is no payment back to a victim.\<close>

definition downstream_upsert ::
  "(address \<Rightarrow> (expand_status \<times> int) option) \<Rightarrow> (address \<times> int) list \<Rightarrow> int \<Rightarrow> edge_draft \<Rightarrow> addr_upsert" where
  "downstream_upsert ctx sliceInbound minExpand e =
     (let existing = ctx (d_to e);
          inbound = (case existing of Some (_, n) \<Rightarrow> n | None \<Rightarrow> 0) + get_or_0 sliceInbound (d_to e)
      in (plain_upsert (d_to e))\<lparr>u_role := Some Downstream, u_source := Some ''derived'',
           u_hop := Some (Some (d_hop e)),
           u_expandStatus := expandStatusToWrite (map_option fst existing) inbound minExpand\<rparr>)"

text \<open>What is below the floor is not stored; a downstream one still counts as inbound.\<close>

definition skipped_sums :: "int \<Rightarrow> int \<Rightarrow> address list \<Rightarrow> edge_draft list \<Rightarrow> (address \<times> int) list" where
  "skipped_sums minExpand minVictim vt es =
     inbound_sums vt (filter (below_floor minExpand minVictim) es)"

definition draft_upsert :: "txid \<Rightarrow> time option \<Rightarrow> int \<Rightarrow> address list \<Rightarrow> edge_draft \<Rightarrow> edge_upsert" where
  "draft_upsert t bt minExpand vt e =
     \<lparr>eu_from = d_from e, eu_to = d_to e, eu_txid = t, eu_amount = d_amount e, eu_blockTime = bt,
      eu_hop = Some (d_hop e), eu_direction = d_direction e,
      eu_edgeKind = (if d_direction e = Out_from_hacker \<and> d_to e \<in> set vt
                     then Some (victimReturnEdgeKind (d_amount e) minExpand) else None),
      eu_fanoutMeta = None\<rparr>"

definition edge_rows_of ::
  "txid \<Rightarrow> time option \<Rightarrow> int \<Rightarrow> int \<Rightarrow> address list \<Rightarrow> edge_draft list \<Rightarrow> edge_upsert list" where
  "edge_rows_of t bt minExpand minVictim vt es =
     map (draft_upsert t bt minExpand vt) (filter (\<lambda>e. \<not> below_floor minExpand minVictim e) es)"

text \<open>The activity of the hackers: new victims first, then known victims with a new edge.\<close>

definition record_victims ::
  "address list \<Rightarrow> edge_key list \<Rightarrow> time \<Rightarrow> edge_upsert list \<Rightarrow> store \<Rightarrow> store" where
  "record_victims newVictims oldKeys tm rows s =
     (let s1 = fold (\<lambda>u s. if eu_direction u = In_to_hacker \<and> eu_from u \<in> set newVictims
                          then recordRecentHackerActivity (eu_to u) (victim_activity tm) s else s) rows s
      in fold (\<lambda>u s. if eu_direction u \<noteq> In_to_hacker \<or> eu_from u \<in> set newVictims then s
                     else if eu_key u \<notin> set oldKeys
                          then recordRecentHackerActivity (eu_to u) (victim_activity tm) s else s) rows s1)"

definition record_downstream :: "address list \<Rightarrow> time \<Rightarrow> store \<Rightarrow> store" where
  "record_downstream spenders tm s =
     fold (\<lambda>(seed, roots) s. fold (\<lambda>r s. recordRecentHackerActivity r (downstream_activity tm) s) roots s)
       (findRootHackersForSpenders spenders s) s"

definition victim_targets :: "apply_opts \<Rightarrow> edge_draft list \<Rightarrow> store \<Rightarrow> address list" where
  "victim_targets op es s =
     (case ap_flagged op of
        Some (h # hs) \<Rightarrow> filterVictimsAmong (out_targets es) (h # hs) s
      | _ \<Rightarrow> [])"

text \<open>The writes of one slice, in the order of the code.\<close>

definition apply_slice ::
  "txid \<Rightarrow> time option \<Rightarrow> apply_opts \<Rightarrow> address list \<Rightarrow> edge_draft list \<Rightarrow> store \<Rightarrow> store" where
  "apply_slice t bt op newVictims es s =
     (let minExpand = or_else (ap_minExpand op) 100000;
          minVictim = or_else (ap_minVictim op) 100000;
          vt = victim_targets op es s;
          sliceInbound = inbound_sums vt es;
          ctx = getDownstreamExpandContext (map fst sliceInbound) s;
          down = filter (is_downstream_draft vt) es;
          targets = map d_to down;
          rows = edge_rows_of t bt minExpand minVictim vt es;
          existing = getExistingAddressSet targets s;
          fresh = filter (\<lambda>a. a \<notin> set existing) targets;
          s1 = (if down \<noteq> []
                then upsertAddressesBatch (map (downstream_upsert ctx sliceInbound minExpand) down) s else s);
          s2 = fold (\<lambda>(a, d). addInboundSats a d) (skipped_sums minExpand minVictim vt es) s1;
          tm = or_else bt (clock s2);
          s3 = (if rows \<noteq> []
                then (let ins = filter (\<lambda>u. eu_direction u = In_to_hacker) rows;
                          oldKeys = getExistingInToHackerEdgeKeys (map eu_txid ins) s2
                      in record_victims newVictims oldKeys tm rows (upsertEdgesBatch rows s2))
                else s2);
          spenders = uniq (map d_from (filter (\<lambda>e. d_direction e = Out_from_hacker \<and> d_to e \<in> set fresh) es))
      in if spenders \<noteq> [] then record_downstream spenders tm s3 else s3)"

definition applyHackTraceEdgesChunk ::
  "txid \<Rightarrow> time option \<Rightarrow> edge_draft list \<Rightarrow> address list \<Rightarrow> apply_opts \<Rightarrow> store \<Rightarrow> apply_result \<times> store" where
  "applyHackTraceEdgesChunk t bt flat victims op s =
     (let start = or_else (ap_start op) 0;
          total = int (length flat)
      in if (case ap_guard op of Some g \<Rightarrow> g_exceeded g | None \<Rightarrow> False)
         then (\<lparr>complete = (start \<ge> total), nextEdgeIndex = start, edgesApplied = 0,
                traceEdgeTotal = total, cpuGuardTripped = Some True\<rparr>, s)
         else
           let (newVictims, s1) = register_victims start flat victims (or_else (ap_minVictim op) 100000) s;
               endIndex = (case ap_maxEdges op of Some m \<Rightarrow> min total (start + m) | None \<Rightarrow> total);
               es = js_slice flat start endIndex
           in (\<lparr>complete = (endIndex \<ge> total), nextEdgeIndex = endIndex, edgesApplied = int (length es),
                traceEdgeTotal = total, cpuGuardTripped = map_option g_tripped (ap_guard op)\<rparr>,
               apply_slice t bt op newVictims es s1))"

end
