(* ===== verification/AddrReach.thy ===== *)
theory AddrReach
  imports EdgeInv
begin

text \<open>
  The writes to addresses and edges that maintain the counters, as operations: each keeps every counter
  exact, a hacker or downstream address is not demoted to a victim, and the deletion of an address
  leaves its counters behind. \<open>TableReach\<close> puts them together with the other writes.
\<close>

text \<open>\<open>deleteAddress\<close>: the sync row and the address row, nothing else.\<close>

definition deleteAddress :: "address \<Rightarrow> store \<Rightarrow> store" where
  "deleteAddress a s =
     set_addresses (filter (\<lambda>r. address_of r \<noteq> a) (addresses s))
       (s\<lparr>sync_state := filter (\<lambda>r. sync_address r \<noteq> a) (sync_state s)\<rparr>)"

datatype addr_op =
    A_upsert addr_upsert
  | A_insert addr_upsert
  | A_batch "addr_upsert list"
  | A_status address expand_status
  | A_reset_stuck
  | A_profile address string "json option option" "json option option"
  | A_edges "edge_upsert list"
  | A_inbound address int
  | A_recount_crawl
  | A_tree_depth int
  | A_recount_tree int
  | A_poll_params int int int
  | A_clock time

fun exec_addr_op :: "addr_op \<Rightarrow> store \<Rightarrow> store" where
  "exec_addr_op (A_upsert u) s = upsertAddress u s"
| "exec_addr_op (A_insert u) s = snd (insertAddressIfMissing u s)"
| "exec_addr_op (A_batch us) s = upsertAddressesBatch us s"
| "exec_addr_op (A_status a x) s = setExpandStatus a x s"
| "exec_addr_op A_reset_stuck s = snd (resetStuckExpandStatuses s)"
| "exec_addr_op (A_profile a p r f) s = setExpandProfile a p r f s"
| "exec_addr_op (A_edges us) s = upsertEdgesBatch us s"
| "exec_addr_op (A_inbound a d) s = addInboundSats a d s"
| "exec_addr_op A_recount_crawl s = snd (reconcileCrawlPendingCount s)"
| "exec_addr_op (A_tree_depth d) s = ensureDownstreamTreeDepth d s"
| "exec_addr_op (A_recount_tree d) s = snd (reconcileDownstreamTreeCount d s)"
| "exec_addr_op (A_poll_params d i m) s = ensurePollDueCacheParams d i m s"
| "exec_addr_op (A_clock t) s = s\<lparr>clock := t\<rparr>"

text \<open>A batch does not contain the empty text as an address.\<close>

fun addr_op_enabled :: "addr_op \<Rightarrow> bool" where
  "addr_op_enabled (A_batch us) = list_all (\<lambda>u. u_address u \<noteq> []) us"
| "addr_op_enabled _ = True"

lemma exec_addr_op_inv:
  assumes "addr_inv s" and "addr_op_enabled op"
  shows "addr_inv (exec_addr_op op s)"
proof (cases op)
  case (A_batch us)
  then have "[] \<notin> u_address ` set us" using assms(2) by (auto simp: list_all_iff)
  then show ?thesis using A_batch upsertAddressesBatch_inv[OF assms(1)] by simp
next
  case (A_clock t)
  then show ?thesis by (auto intro: addr_inv_same[OF assms(1)])
qed (simp_all add: assms(1) upsertAddress_inv insertAddressIfMissing_inv setExpandStatus_inv resetStuck_inv
      setExpandProfile_inv upsertEdgesBatch_inv addInboundSats_def applyInbound_inv reconcileCrawl_inv
      ensureTree_inv reconcileTree_inv ensurePoll_inv)

lemma init_addr_inv: "addr_inv (init_store opt t)"
  by (auto simp: addr_inv_def init_store_def init_sched_def addr_counted_def tree_depth_def exact_count_def)

lemma run_addr_ops_inv: "addr_inv s \<Longrightarrow> list_all addr_op_enabled ops \<Longrightarrow> addr_inv (fold exec_addr_op ops s)"
  by (induction ops arbitrary: s) (auto intro: exec_addr_op_inv)

definition demo_addr_ops :: "addr_op list" where
  "demo_addr_ops = [A_tree_depth 3,
     A_batch [(plain_upsert ''h'')\<lparr>u_role := Some Hacker, u_flagged := Some True\<rparr>,
              (plain_upsert ''v'')\<lparr>u_role := Some Victim\<rparr>,
              (plain_upsert ''d'')\<lparr>u_role := Some Downstream, u_hop := Some (Some 1)\<rparr>,
              (plain_upsert ''d'')\<lparr>u_role := Some Victim\<rparr>],
     A_edges [\<lparr>eu_from = ''v'', eu_to = ''h'', eu_txid = ''t1'', eu_amount = 500, eu_blockTime = None,
        eu_hop = Some 0, eu_direction = In_to_hacker, eu_edgeKind = None, eu_fanoutMeta = None\<rparr>],
     A_status ''d'' XExpanded]"

definition demo_addr_store :: store where
  "demo_addr_store = fold exec_addr_op demo_addr_ops (init_store default_options 1000)"

lemma demo_addr_inv: "addr_inv demo_addr_store"
  unfolding demo_addr_store_def
  by (rule run_addr_ops_inv[OF init_addr_inv]) (simp add: demo_addr_ops_def plain_upsert_def)

section \<open>Roles\<close>

lemma put_role:
  assumes "List.find (\<lambda>r. address_of r = a) rows = Some r" and "role_of r \<in> {Hacker, Downstream}"
    and "\<not> u_forceRole u" and "u_role u \<noteq> Some Unknown_role"
  shows "\<exists>r'. List.find (\<lambda>r. address_of r = a) (put_address ts u rows) = Some r' \<and> role_of r' \<in> {Hacker, Downstream} \<and>
     ((u_address u = a \<longrightarrow> u_role u = Some Victim) \<longrightarrow> role_of r' = role_of r \<and> hopFromHacker r' = hopFromHacker r)"
proof -
  consider "u_role u = None" | "u_role u = Some Victim" | "u_role u = Some Hacker" | "u_role u = Some Downstream"
    using assms(4) by (cases "u_role u") (auto intro: role.exhaust)
  then show ?thesis
    using assms(1-3) by cases (auto simp: find_put_address merge_address_def role_protected_def)
qed

lemma fold_put_role:
  assumes "List.find (\<lambda>r. address_of r = a) rows = Some r" and "role_of r \<in> {Hacker, Downstream}"
    and "\<forall>u\<in>set us. \<not> u_forceRole u \<and> u_role u \<noteq> Some Unknown_role"
  shows "\<exists>r'. List.find (\<lambda>r. address_of r = a) (fold (put_address ts) us rows) = Some r' \<and>
     role_of r' \<in> {Hacker, Downstream} \<and>
     ((\<forall>u\<in>set us. u_address u = a \<longrightarrow> u_role u = Some Victim) \<longrightarrow> role_of r' = role_of r \<and> hopFromHacker r' = hopFromHacker r)"
  using assms
proof (induction us arbitrary: rows r)
  case (Cons u us)
  obtain r1 where r1: "List.find (\<lambda>r. address_of r = a) (put_address ts u rows) = Some r1"
    "role_of r1 \<in> {Hacker, Downstream}"
    "(u_address u = a \<longrightarrow> u_role u = Some Victim) \<longrightarrow> role_of r1 = role_of r \<and> hopFromHacker r1 = hopFromHacker r"
    using put_role[OF Cons.prems(1,2), of u] Cons.prems(3) by auto
  show ?case using Cons.IH[OF r1(1,2)] Cons.prems(3) r1(3) by fastforce
qed auto

lemma batch_addresses: "addresses (upsertAddressesBatch us s) = fold (put_address (clock s)) us (addresses s)"
proof (cases "us = []")
  case False
  let ?s1 = "set_addresses (fold (put_address (clock s)) us (addresses s)) s"
  have "stats_frame t (adjustCrawlPendingCount n (apply_batch_stats b a as t))" for n b a as t
    unfolding adjustCrawlPendingCount_def
    by (rule stats_frame_trans[OF batch_stats_frame stats_frame_adjust]) simp
  from stats_frameD(1)[OF this] show ?thesis
    using False by (simp add: upsertAddressesBatch_def Let_def batch_rows)
qed (simp add: upsertAddressesBatch_def)

text \<open>
  Tracing never demotes a known address. Without the operator's \<open>forceRole\<close>, a batch of upserts
  leaves a hacker or downstream address a hacker or downstream address, in whatever order its rows
  come; when the batch only reports it as a victim, its role and its hop stay as they were.
\<close>

lemma upsert_role_protected:
  assumes "getAddress a s = Some r" and "role_of r \<in> {Hacker, Downstream}"
    and "\<forall>u\<in>set us. \<not> u_forceRole u \<and> u_role u \<noteq> Some Unknown_role"
  shows "\<exists>r'. getAddress a (upsertAddressesBatch us s) = Some r' \<and> role_of r' \<in> {Hacker, Downstream} \<and>
     ((\<forall>u\<in>set us. u_address u = a \<longrightarrow> u_role u = Some Victim) \<longrightarrow>
        role_of r' = role_of r \<and> hopFromHacker r' = hopFromHacker r)"
  using fold_put_role[of a "addresses s" r us "clock s"] assms by (simp add: getAddress_def batch_addresses)

lemma upsert_role_protected_witness:
  "\<exists>r'. getAddress ''d'' (upsertAddressesBatch [(plain_upsert ''d'')\<lparr>u_role := Some Victim, u_hop := Some None\<rparr>]
     demo_addr_store) = Some r' \<and> role_of r' = Downstream \<and> hopFromHacker r' = Some 1"
proof -
  let ?us = "[(plain_upsert ''d'')\<lparr>u_role := Some Victim, u_hop := Some None\<rparr>]"
  obtain r where r: "getAddress ''d'' demo_addr_store = Some r" "role_of r = Downstream" "hopFromHacker r = Some 1"
  proof -
    have "map_option (\<lambda>r. (role_of r, hopFromHacker r)) (getAddress ''d'' demo_addr_store) = Some (Downstream, Some 1)"
      by code_simp
    then show ?thesis using that by auto
  qed
  then show ?thesis
    using upsert_role_protected[of "''d''" demo_addr_store r ?us] by (auto simp: plain_upsert_def)
qed

section \<open>Deletion\<close>

text \<open>
  Deleting an address leaves its counters behind: after the deletion of a crawl candidate the
  crawl counter exceeds the number of candidates by one, until a recount.
\<close>

lemma deleteAddress_drifts:
  assumes "addr_inv s" and "getAddress a s = Some r"
    and "isCrawlPendingEligible (role_of r) (expandStatus r)"
  shows "crawlPendingCount (sched (deleteAddress a s)) =
           count_rows (\<lambda>r. isCrawlPendingEligible (role_of r) (expandStatus r)) (addresses (deleteAddress a s)) + 1 \<and>
         crawlPendingCount (sched (snd (reconcileCrawlPendingCount (deleteAddress a s)))) =
           count_rows (\<lambda>r. isCrawlPendingEligible (role_of r) (expandStatus r)) (addresses (deleteAddress a s))"
proof -
  let ?P = "\<lambda>r. isCrawlPendingEligible (role_of r) (expandStatus r)"
  note inv = assms(1)
  have c: "crawlPendingCount (sched s) = count_rows ?P (addresses s)"
    using addr_invD[OF inv, of CrawlPending] count_rows_cong[of "addresses s" "addr_pred (tree_depth s) CrawlPending" ?P]
    by (simp add: addr_counted_def)
  have d: "distinct (map address_of (addresses s))" using inv by (simp add: addr_inv_def)
  have "count_rows (\<lambda>r. ?P r \<and> address_of r = a) (addresses s) = 1"
    using count_rows_key[OF d, of ?P a] assms(2,3) by (simp add: getAddress_def)
  moreover have "count_rows ?P (filter (\<lambda>r. address_of r \<noteq> a) (addresses s))
      = count_rows (\<lambda>r. ?P r \<and> address_of r \<noteq> a) (addresses s)" by (rule count_rows_filter)
  moreover have "count_rows (\<lambda>r. expandStatus r = XPending \<and> (role_of r = Downstream \<or> role_of r = Hacker)) rows
      = count_rows ?P rows" if "rows = filter (\<lambda>r. address_of r \<noteq> a) (addresses s)" for rows
    by (rule count_rows_cong) (simp add: isCrawlPendingEligible_def)
  ultimately show ?thesis
    using c count_rows_split[of ?P "addresses s" "\<lambda>r. address_of r = a"]
    by (simp add: deleteAddress_def set_addresses_def reconcileCrawlPendingCount_def Let_def)
qed

lemma deleteAddress_drifts_witness:
  "crawlPendingCount (sched (deleteAddress ''h'' demo_addr_store)) = 1 \<and>
   count_rows (\<lambda>r. isCrawlPendingEligible (role_of r) (expandStatus r)) (addresses (deleteAddress ''h'' demo_addr_store)) = 0"
proof -
  obtain h where h: "getAddress ''h'' demo_addr_store = Some h" "isCrawlPendingEligible (role_of h) (expandStatus h)"
  proof -
    have "map_option (\<lambda>r. isCrawlPendingEligible (role_of r) (expandStatus r)) (getAddress ''h'' demo_addr_store) = Some True"
      by code_simp
    then show ?thesis using that by auto
  qed
  have "crawlPendingCount (sched (deleteAddress ''h'' demo_addr_store)) = 1" by code_simp
  with deleteAddress_drifts[OF demo_addr_inv h] show ?thesis by simp
qed

end
