(* ===== verification/TraceProps.thy ===== *)
theory TraceProps
  imports ApplyTrace AddrReach
begin

text \<open>
  The chunks of a trace: they advance and cover the edges of the transaction; what is stored, and
  what the downstream addresses are credited with.
\<close>

section \<open>Progress\<close>

lemma js_slice_prefix:
  assumes "0 \<le> i" and "i \<le> j" and "j \<le> int (length xs)"
  shows "js_slice xs 0 i @ js_slice xs i j = js_slice xs 0 j" and "length (js_slice xs i j) = nat (j - i)"
proof -
  have "js_slice xs i j = take (nat j - nat i) (drop (nat i) xs)" "js_slice xs 0 i = take (nat i) xs"
    "js_slice xs 0 j = take (nat j) xs"
    using assms by (auto simp: js_slice_def js_index_def min_def)
  moreover have "take (nat i) xs @ take (nat j - nat i) (drop (nat i) xs) = take (nat i + (nat j - nat i)) xs"
    by (simp add: take_add)
  moreover have "nat i + (nat j - nat i) = nat j" using assms by simp
  ultimately show "js_slice xs 0 i @ js_slice xs i j = js_slice xs 0 j" "length (js_slice xs i j) = nat (j - i)"
    using assms by (simp_all add: nat_diff_distrib)
qed

lemma js_slice_all: "js_slice xs 0 (int (length xs)) = xs"
  by (simp add: js_slice_def js_index_def)

lemma chunk_progress:
  assumes "ap_start op = Some i" and "0 \<le> i" and "i \<le> int (length flat)"
    and "case ap_maxEdges op of Some m \<Rightarrow> 1 \<le> m | None \<Rightarrow> True"
    and "applyHackTraceEdgesChunk t bt flat victims op s = (r, s')"
  shows "js_slice flat 0 i @ js_slice flat i (nextEdgeIndex r) = js_slice flat 0 (nextEdgeIndex r) \<and>
    edgesApplied r = nextEdgeIndex r - i \<and> i \<le> nextEdgeIndex r \<and> nextEdgeIndex r \<le> int (length flat) \<and>
    (complete r \<longleftrightarrow> nextEdgeIndex r = int (length flat)) \<and>
    (complete r \<longrightarrow> js_slice flat 0 i @ js_slice flat i (nextEdgeIndex r) = flat) \<and>
    (case ap_maxEdges op of Some m \<Rightarrow> edgesApplied r \<le> m | None \<Rightarrow> True) \<and>
    (if (case ap_guard op of Some g \<Rightarrow> g_exceeded g | None \<Rightarrow> False)
     then nextEdgeIndex r = i \<and> s' = s
     else i < int (length flat) \<longrightarrow> i < nextEdgeIndex r)"
proof (cases "case ap_guard op of Some g \<Rightarrow> g_exceeded g | None \<Rightarrow> False")
  case True
  then have r: "r = \<lparr>complete = (i \<ge> int (length flat)), nextEdgeIndex = i, edgesApplied = 0,
                traceEdgeTotal = int (length flat), cpuGuardTripped = Some True\<rparr>" "s' = s"
    using assms(1,5) by (simp_all add: applyHackTraceEdgesChunk_def Let_def)
  then show ?thesis
    using js_slice_prefix[of i i flat] True assms(2-4) js_slice_all[of flat] by (auto split: option.splits)
next
  case False
  let ?j = "case ap_maxEdges op of Some m \<Rightarrow> min (int (length flat)) (i + m) | None \<Rightarrow> int (length flat)"
  obtain nv s1 where rv: "register_victims i flat victims (or_else (ap_minVictim op) 100000) s = (nv, s1)"
    by (cases "register_victims i flat victims (or_else (ap_minVictim op) 100000) s")
  have r: "nextEdgeIndex r = ?j" "edgesApplied r = int (length (js_slice flat i ?j))"
    "complete r = (?j \<ge> int (length flat))"
    using False assms(1,5) rv by (auto simp: applyHackTraceEdgesChunk_def Let_def)
  have j: "i \<le> ?j" "?j \<le> int (length flat)" using assms(2-4) by (auto split: option.splits)
  note sl = js_slice_prefix[OF assms(2) j]
  show ?thesis
    unfolding r(1,2,3) using sl j js_slice_all[of flat] assms(2,4) False by (auto split: option.splits)
qed

lemma js_slice_take: "0 \<le> i \<Longrightarrow> i \<le> j \<Longrightarrow> j \<le> int (length xs) \<Longrightarrow> js_slice xs i j = take (nat (j - i)) (drop (nat i) xs)"
  by (simp add: js_slice_def js_index_def min_def nat_diff_distrib)

lemma chunk_writes:
  assumes "ap_start op = Some i" and "0 \<le> i" and "i \<le> int (length flat)"
    and "case ap_maxEdges op of Some m \<Rightarrow> 1 \<le> m | None \<Rightarrow> True"
    and "applyHackTraceEdgesChunk t bt flat victims op s = (r, s')"
  shows "(complete r \<longleftrightarrow> nextEdgeIndex r = int (length flat)) \<and>
    (if case ap_guard op of Some g \<Rightarrow> g_exceeded g | None \<Rightarrow> False
     then nextEdgeIndex r = i \<and> edgesApplied r = 0 \<and> s' = s
     else \<exists>n nv s1. n = (case ap_maxEdges op of Some m \<Rightarrow> min (nat m) (length flat - nat i) | None \<Rightarrow> length flat - nat i) \<and>
       register_victims i flat victims (or_else (ap_minVictim op) 100000) s = (nv, s1) \<and>
       s' = apply_slice t bt op nv (take n (drop (nat i) flat)) s1 \<and>
       edgesApplied r = int n \<and> nextEdgeIndex r = i + int n \<and> (i < int (length flat) \<longrightarrow> 0 < n))"
proof (cases "case ap_guard op of Some g \<Rightarrow> g_exceeded g | None \<Rightarrow> False")
  case True
  then show ?thesis using assms by (auto simp: applyHackTraceEdgesChunk_def Let_def)
next
  case False
  obtain nv s1 where rv: "register_victims i flat victims (or_else (ap_minVictim op) 100000) s = (nv, s1)" by fastforce
  let ?j = "case ap_maxEdges op of Some m \<Rightarrow> min (int (length flat)) (i + m) | None \<Rightarrow> int (length flat)"
  let ?n = "case ap_maxEdges op of Some m \<Rightarrow> min (nat m) (length flat - nat i) | None \<Rightarrow> length flat - nat i"
  have j: "i \<le> ?j" "?j \<le> int (length flat)" "?j = i + int ?n" "i < int (length flat) \<longrightarrow> 0 < ?n"
    using assms(2-4) by (auto split: option.splits)
  have sl: "js_slice flat i ?j = take ?n (drop (nat i) flat)" "length (take ?n (drop (nat i) flat)) = ?n"
    using js_slice_take[OF assms(2) j(1,2)] j(3) assms(2,3) by (auto split: option.splits)
  have r: "r = \<lparr>complete = (?j \<ge> int (length flat)), nextEdgeIndex = ?j, edgesApplied = int ?n,
      traceEdgeTotal = int (length flat), cpuGuardTripped = map_option g_tripped (ap_guard op)\<rparr>"
    "s' = apply_slice t bt op nv (take ?n (drop (nat i) flat)) s1"
    using False assms(1,5) rv sl by (auto simp: applyHackTraceEdgesChunk_def Let_def)
  show ?thesis using False rv r j by auto
qed

text \<open>
  C15: a chunk of a trace. When the CPU guard has run out before it starts, nothing is written and the
  index stays. Otherwise a chunk that starts at index \<open>i\<close> inside the list registers the victims, writes
  the slice of exactly the next edges of the list, as many as the limit allows, and returns the index
  behind them: the chunk after it starts where this one stopped. It reports completion exactly at the
  end of the list, and with a limit of at least one it does not return the index it was given before that.
\<close>

theorem trace_chunk_progress:
  assumes "ap_start op = Some i" and "0 \<le> i" and "i \<le> int (length flat)"
    and "case ap_maxEdges op of Some m \<Rightarrow> 1 \<le> m | None \<Rightarrow> True"
    and "applyHackTraceEdgesChunk t bt flat victims op s = (r, s')"
  shows "(complete r \<longleftrightarrow> nextEdgeIndex r = int (length flat)) \<and>
    (if case ap_guard op of Some g \<Rightarrow> g_exceeded g | None \<Rightarrow> False
     then nextEdgeIndex r = i \<and> edgesApplied r = 0 \<and> s' = s
     else \<exists>n nv s1. n = (case ap_maxEdges op of Some m \<Rightarrow> min (nat m) (length flat - nat i) | None \<Rightarrow> length flat - nat i) \<and>
       register_victims i flat victims (or_else (ap_minVictim op) 100000) s = (nv, s1) \<and>
       s' = apply_slice t bt op nv (take n (drop (nat i) flat)) s1 \<and>
       edgesApplied r = int n \<and> nextEdgeIndex r = i + int n \<and> (i < int (length flat) \<longrightarrow> 0 < n))"
  using assms by (rule chunk_writes)

text \<open>A chunk of one edge from index 1 writes the second edge, and not the first.\<close>

definition demo_flat :: "edge_draft list" where
  "demo_flat = map (\<lambda>(x, n). \<lparr>d_from = ''h'', d_to = x, d_amount = n, d_hop = 1, d_direction = Out_from_hacker\<rparr>)
     [(''x'', 5), (''y'', 6), (''z'', 7)]"

definition one_edge :: apply_opts where
  "one_edge = \<lparr>ap_start = Some 1, ap_maxEdges = Some 1, ap_guard = None, ap_flagged = None, ap_minExpand = Some 6, ap_minVictim = None\<rparr>"

theorem trace_chunk_progress_witness:
  "nextEdgeIndex (fst (applyHackTraceEdgesChunk ''t'' None demo_flat [] one_edge demo_addr_store)) = 2 \<and>
   snd (applyHackTraceEdgesChunk ''t'' None demo_flat [] one_edge demo_addr_store) =
     apply_slice ''t'' None one_edge [] [demo_flat ! 1] demo_addr_store"
proof -
  obtain r s' where e: "applyHackTraceEdgesChunk ''t'' None demo_flat [] one_edge demo_addr_store = (r, s')"
    by (metis prod.exhaust)
  show ?thesis
    using trace_chunk_progress[OF _ _ _ _ e, of 1] e by (auto simp: one_edge_def demo_flat_def register_victims_def)
qed

section \<open>What a slice leaves alone\<close>

lemma sum_fold_map_add:
  "(\<Sum>(a, x)\<leftarrow>fold (\<lambda>e m. if P e then map_add (k e) (n e) m else m) es []. if a = b then x else 0)
     = (\<Sum>e\<leftarrow>es. if P e \<and> k e = b then n e else (0::int))"
proof -
  let ?f = "\<lambda>e m. if P e then map_add (k e) (n e) m else m"
  have "distinct (map fst m) \<Longrightarrow> distinct (map fst (fold ?f es m)) \<and>
      get_or_0 (fold ?f es m) b = get_or_0 m b + (\<Sum>e\<leftarrow>es. if P e \<and> k e = b then n e else (0::int))" for m
  proof (induction es arbitrary: m)
    case (Cons e es)
    have d: "distinct (map fst (?f e m))" using Cons.prems by (simp add: distinct_map_add)
    have "get_or_0 (?f e m) b = get_or_0 m b + (if P e \<and> k e = b then n e else 0)"
      by (auto simp: get_or_0_map_add)
    then show ?case using Cons.IH[OF d] by simp
  qed simp
  from this[of "[]"] show ?thesis
    using sum_alist[of "fold ?f es []" b] by (simp add: get_or_0_def)
qed

lemma record_activity_frame:
  "addresses (recordRecentHackerActivity a d s) = addresses s" "edges (recordRecentHackerActivity a d s) = edges s"
  "sched (recordRecentHackerActivity a d s) = sched s"
  by (simp_all add: recordRecentHackerActivity_def Let_def)

lemma fold_frame: "(\<And>x s. f (g x s) = f s) \<Longrightarrow> f (fold g xs s) = f s"
  by (induction xs arbitrary: s) simp_all

lemma record_victims_frame:
  "addresses (record_victims nv ok tm rows s) = addresses s" "edges (record_victims nv ok tm rows s) = edges s"
  "sched (record_victims nv ok tm rows s) = sched s"
  by (simp_all add: record_victims_def Let_def fold_frame record_activity_frame)

lemma record_downstream_frame:
  "addresses (record_downstream sp tm s) = addresses s" "edges (record_downstream sp tm s) = edges s"
  "sched (record_downstream sp tm s) = sched s"
  by (simp_all add: record_downstream_def fold_frame record_activity_frame split_beta)

lemma batch_other_tables:
  "edges (upsertAddressesBatch us s) = edges s"
  "totalInSats (sched (upsertAddressesBatch us s)) = totalInSats (sched s)"
  "totalOutSats (sched (upsertAddressesBatch us s)) = totalOutSats (sched s)"
proof -
  have f: "stats_frame t (adjustCrawlPendingCount n (apply_batch_stats b a as t))" for n b a as t
    unfolding adjustCrawlPendingCount_def
    by (rule stats_frame_trans[OF batch_stats_frame stats_frame_adjust]) simp
  have e: "edges (adjustCrawlPendingCount n (apply_batch_stats b a as t)) = edges t"
    "cv TotalIn (adjustCrawlPendingCount n (apply_batch_stats b a as t)) = cv TotalIn t"
    "cv TotalOut (adjustCrawlPendingCount n (apply_batch_stats b a as t)) = cv TotalOut t" for n b a as t
    using f[of t n b a as] by (simp_all add: stats_frame_def del: counter_val.simps)
  have v: "edges (invalidateFlaggedHackersCache t) = edges t"
    "cv TotalIn (invalidateFlaggedHackersCache t) = cv TotalIn t"
    "cv TotalOut (invalidateFlaggedHackersCache t) = cv TotalOut t" for t
    by (simp_all add: invalidateFlaggedHackersCache_def)
  show "edges (upsertAddressesBatch us s) = edges s"
    by (simp add: upsertAddressesBatch_def Let_def e v)
  have "cv TotalIn (upsertAddressesBatch us s) = cv TotalIn s" "cv TotalOut (upsertAddressesBatch us s) = cv TotalOut s"
    by (simp_all add: upsertAddressesBatch_def Let_def e v del: counter_val.simps)
  then show "totalInSats (sched (upsertAddressesBatch us s)) = totalInSats (sched s)"
    "totalOutSats (sched (upsertAddressesBatch us s)) = totalOutSats (sched s)" by simp_all
qed

lemma put_inb:
  "(case List.find (\<lambda>r. address_of r = b) (put_address ts u rows) of None \<Rightarrow> 0 | Some r \<Rightarrow> inboundSats r)
     = (case List.find (\<lambda>r. address_of r = b) rows of None \<Rightarrow> 0 | Some r \<Rightarrow> inboundSats r)"
  by (auto simp: find_put_address new_address_def merge_address_def split: option.split)

lemma batch_inb: "inb b (upsertAddressesBatch us s) = inb b s"
proof -
  have "(case List.find (\<lambda>r. address_of r = b) (fold (put_address ts) us rows) of None \<Rightarrow> 0 | Some r \<Rightarrow> inboundSats r)
      = (case List.find (\<lambda>r. address_of r = b) rows of None \<Rightarrow> 0 | Some r \<Rightarrow> inboundSats r)" for ts rows
    by (induction us arbitrary: rows) (simp_all add: put_inb)
  then show ?thesis by (simp add: inb_def getAddress_def batch_addresses)
qed

lemma batch_known: "known b (upsertAddressesBatch us s) \<longleftrightarrow> known b s \<or> b \<in> u_address ` set us"
proof -
  have "List.find (\<lambda>r. address_of r = b) (fold (put_address ts) us rows) \<noteq> None \<longleftrightarrow>
      List.find (\<lambda>r. address_of r = b) rows \<noteq> None \<or> b \<in> u_address ` set us" for ts rows
    by (induction us arbitrary: rows) (auto simp: find_put_address)
  then show ?thesis by (simp add: known_def getAddress_def batch_addresses)
qed

lemma add_inbound_fold_frame:
  fixes m s
  defines "s' \<equiv> fold (\<lambda>(a, d). addInboundSats a d) m s"
  shows "edges s' = edges s" and "totalInSats (sched s') = totalInSats (sched s)"
    and "totalOutSats (sched s') = totalOutSats (sched s)"
proof -
  have f: "edge_frame s s'"
    unfolding s'_def addInboundSats_def by (rule edge_frame_fold) (auto simp: applyInbound_facts(1))
  then show "edges s' = edges s" by (simp add: edge_frame_def)
  show "totalInSats (sched s') = totalInSats (sched s)" "totalOutSats (sched s') = totalOutSats (sched s)"
    using edge_frame_cv[OF f, of TotalIn] edge_frame_cv[OF f, of TotalOut] by simp_all
qed


section \<open>What a slice adds\<close>

lemma inbound_sums_get:
  "(\<Sum>(a, x)\<leftarrow>inbound_sums vt es. if a = b then x else 0)
     = (\<Sum>e\<leftarrow>es. if is_downstream_draft vt e \<and> d_to e = b then d_amount e else 0)"
  unfolding inbound_sums_def by (rule sum_fold_map_add)

definition out_to :: "address \<Rightarrow> edge_draft \<Rightarrow> int" where
  "out_to b e = (if d_direction e = Out_from_hacker \<and> d_to e = b then d_amount e else 0)"

lemma skipped_get:
  assumes "b \<notin> set vt"
  shows "(\<Sum>(a, x)\<leftarrow>skipped_sums m v vt es. if a = b then x else 0) = (\<Sum>e\<leftarrow>filter (below_floor m v) es. out_to b e)"
proof -
  have "map (\<lambda>e. if is_downstream_draft vt e \<and> d_to e = b then d_amount e else 0) es = map (out_to b) es" for es
    using assms by (auto simp: is_downstream_draft_def out_to_def)
  from this[of "filter (below_floor m v) es"] show ?thesis
    unfolding skipped_sums_def inbound_sums_get by (metis (no_types, lifting))
qed

lemma put_edge_fresh:
  "distinct (map eu_key us) \<Longrightarrow> (\<And>u. u \<in> set us \<Longrightarrow> edge_at (eu_key u) rows = None) \<Longrightarrow>
     fold put_edge us rows = rows @ map new_edge us"
proof (induction us arbitrary: rows)
  case (Cons u us)
  have n: "\<forall>e\<in>set rows. edge_key e \<noteq> eu_key u" using Cons.prems(2)[of u] by (auto simp: edge_at_def find_None_iff)
  then have p: "put_edge u rows = rows @ [new_edge u]" by (auto simp: put_edge_def)
  have "edge_at (eu_key v) (put_edge u rows) = None" if "v \<in> set us" for v
    using Cons.prems that by (auto simp: edge_at_put image_iff)
  then show ?case using Cons.IH[of "put_edge u rows"] Cons.prems(1) p by simp
qed simp

definition draft_key :: "txid \<Rightarrow> edge_draft \<Rightarrow> edge_key" where
  "draft_key t e = (d_from e, d_to e, t)"

lemma eu_key_draft [simp]: "eu_key (draft_upsert t bt m vt e) = draft_key t e"
  by (simp add: eu_key_def draft_upsert_def draft_key_def)

lemma edge_rows_fresh:
  fixes es :: "edge_draft list"
  assumes "distinct (map (draft_key t) es)" and "\<And>e. e \<in> set es \<Longrightarrow> edge_at (draft_key t e) rows = None"
  shows "batch_ok (edge_rows_of t bt m v vt es) rows"
    and "fold put_edge (edge_rows_of t bt m v vt es) rows = rows @ map new_edge (edge_rows_of t bt m v vt es)"
proof -
  have "distinct (map (draft_key t) (filter (\<lambda>e. \<not> below_floor m v e) es))"
    using assms(1) by (rule distinct_map_filter)
  then have d: "distinct (map eu_key (edge_rows_of t bt m v vt es))"
    by (simp add: edge_rows_of_def comp_def)
  have n: "edge_at (eu_key u) rows = None" if "u \<in> set (edge_rows_of t bt m v vt es)" for u
    using that assms(2) by (auto simp: edge_rows_of_def)
  show "batch_ok (edge_rows_of t bt m v vt es) rows" using d n by (simp add: batch_ok_def)
  show "fold put_edge (edge_rows_of t bt m v vt es) rows = rows @ map new_edge (edge_rows_of t bt m v vt es)"
    using d n by (rule put_edge_fresh)
qed

lemma out_sum_rows:
  "out_sum b (rows @ map new_edge (edge_rows_of t bt m v vt es)) - out_sum b rows
     = (\<Sum>e\<leftarrow>filter (\<lambda>e. \<not> below_floor m v e) es. out_to b e)"
proof -
  have "map (\<lambda>e. if toAddress e = b \<and> direction_of e = Out_from_hacker then amountSats e else 0)
      (map new_edge (edge_rows_of t bt m v vt es)) = map (out_to b) (filter (\<lambda>e. \<not> below_floor m v e) es)"
    by (auto simp: edge_rows_of_def new_edge_def draft_upsert_def out_to_def)
  then show ?thesis by (simp add: out_sum_def)
qed

text \<open>The state after the addresses and the amounts below the floor have been written.\<close>

definition after_skipped :: "apply_opts \<Rightarrow> edge_draft list \<Rightarrow> store \<Rightarrow> store" where
  "after_skipped op es s =
     (let m = or_else (ap_minExpand op) 100000; v = or_else (ap_minVictim op) 100000;
          vt = victim_targets op es s; sl = inbound_sums vt es;
          down = filter (is_downstream_draft vt) es;
          s1 = (if down \<noteq> []
                then upsertAddressesBatch
                  (map (downstream_upsert (getDownstreamExpandContext (map fst sl) s) sl m) down) s else s)
      in fold (\<lambda>(a, d). addInboundSats a d) (skipped_sums m v vt es) s1)"

lemma apply_slice_frame:
  fixes t bt op nv es s
  defines "rows \<equiv> edge_rows_of t bt (or_else (ap_minExpand op) 100000) (or_else (ap_minVictim op) 100000) (victim_targets op es s) es"
  defines "s' \<equiv> apply_slice t bt op nv es s" and "s3 \<equiv> upsertEdgesBatch rows (after_skipped op es s)"
  shows "addresses s' = addresses s3" and "edges s' = edges s3" and "sched s' = sched s3"
proof -
  have "upsertEdgesBatch [] x = x" for x by (simp add: upsertEdgesBatch_def)
  then show "addresses s' = addresses s3" "edges s' = edges s3" "sched s' = sched s3"
    unfolding s'_def s3_def apply_slice_def rows_def after_skipped_def Let_def
    by (auto simp: record_downstream_frame record_victims_frame)
qed

lemma after_skipped_facts:
  fixes op es s
  defines "s2 \<equiv> after_skipped op es s"
  shows "edges s2 = edges s" and "totalInSats (sched s2) = totalInSats (sched s)"
    and "totalOutSats (sched s2) = totalOutSats (sched s)"
    and "e \<in> set es \<Longrightarrow> is_downstream_draft (victim_targets op es s) e \<Longrightarrow> known (d_to e) s2"
    and "known b s2 \<Longrightarrow> b \<notin> set (victim_targets op es s) \<Longrightarrow>
      inb b s2 = inb b s +
        (\<Sum>e\<leftarrow>filter (below_floor (or_else (ap_minExpand op) 100000) (or_else (ap_minVictim op) 100000)) es. out_to b e)"
proof -
  let ?m = "or_else (ap_minExpand op) 100000" and ?v = "or_else (ap_minVictim op) 100000"
  let ?vt = "victim_targets op es s"
  let ?sl = "inbound_sums ?vt es"
  let ?down = "filter (is_downstream_draft ?vt) es"
  let ?us = "map (downstream_upsert (getDownstreamExpandContext (map fst ?sl) s) ?sl ?m) ?down"
  let ?s1 = "upsertAddressesBatch ?us s"
  have "upsertAddressesBatch [] s = s" by (simp add: upsertAddressesBatch_def)
  then have s2: "s2 = fold (\<lambda>(a, d). addInboundSats a d) (skipped_sums ?m ?v ?vt es) ?s1"
    by (simp add: s2_def after_skipped_def Let_def)
  show "edges s2 = edges s" "totalInSats (sched s2) = totalInSats (sched s)" "totalOutSats (sched s2) = totalOutSats (sched s)"
    by (simp_all add: s2 add_inbound_fold_frame batch_other_tables)
  have k: "known b s2 = known b ?s1" for b unfolding s2 addInboundSats_def by (simp add: inb_fold)
  show "known (d_to e) s2" if "e \<in> set es" "is_downstream_draft ?vt e"
    unfolding k batch_known using that by (auto simp: downstream_upsert_def Let_def image_iff plain_upsert_def intro!: exI[of _ e])
  show "inb b s2 = inb b s + (\<Sum>e\<leftarrow>filter (below_floor ?m ?v) es. out_to b e)" if "known b s2" "b \<notin> set ?vt"
    using that(1) k inb_fold[of b "skipped_sums ?m ?v ?vt es" ?s1] skipped_get[OF that(2), of ?m ?v es]
    by (simp add: s2 addInboundSats_def batch_inb)
qed

lemma slice_effect:
  assumes "distinct (map (draft_key t) es)" and "\<forall>e\<in>set es. edge_at (draft_key t e) (edges s) = None"
    and "distinct (map edge_key (edges s))" and "0 \<le> totalInSats (sched s)" and "0 \<le> totalOutSats (sched s)"
  shows "edges (apply_slice t bt op nv es s) = edges s @ map new_edge (edge_rows_of t bt
      (or_else (ap_minExpand op) 100000) (or_else (ap_minVictim op) 100000) (victim_targets op es s) es)"
    and "b \<notin> set (victim_targets op es s) \<Longrightarrow> e \<in> set es \<Longrightarrow> d_direction e = Out_from_hacker \<Longrightarrow> d_to e = b \<Longrightarrow>
      inb b (apply_slice t bt op nv es s) = inb b s + (\<Sum>e\<leftarrow>es. out_to b e)"
proof -
  let ?m = "or_else (ap_minExpand op) 100000" and ?v = "or_else (ap_minVictim op) 100000"
  let ?vt = "victim_targets op es s" and ?s2 = "after_skipped op es s"
  let ?rows = "edge_rows_of t bt ?m ?v ?vt es"
  note f = apply_slice_frame[where t = t and bt = bt and op = op and nv = nv and es = es and s = s] and g = after_skipped_facts[where op = op and es = es and s = s]
  have fresh: "\<And>e. e \<in> set es \<Longrightarrow> edge_at (draft_key t e) (edges s) = None" using assms(2) by blast
  note ef = edge_rows_fresh[OF assms(1) fresh, where bt = bt and m = ?m and v = ?v and vt = ?vt]
  have bs: "batch_ok ?rows (edges ?s2)" "distinct (map edge_key (edges ?s2))"
    "0 \<le> totalInSats (sched ?s2)" "0 \<le> totalOutSats (sched ?s2)"
    using ef(1) assms(3-5) by (simp_all add: g)
  note b = batch_sums[OF bs, of b, unfolded g(1)]
  show "edges (apply_slice t bt op nv es s) = edges s @ map new_edge ?rows" using f(2) b ef(2) by simp
  assume h: "b \<notin> set ?vt" "e \<in> set es" "d_direction e = Out_from_hacker" "d_to e = b"
  then have k: "known b ?s2" using g(4)[of e] by (auto simp: is_downstream_draft_def)
  have part: "(\<Sum>e\<leftarrow>filter P es. out_to b e) + (\<Sum>e\<leftarrow>filter (\<lambda>e. \<not> P e) es. out_to b e) = (\<Sum>e\<leftarrow>es. out_to b e)" for P
    by (induction es) auto
  have "inb b (apply_slice t bt op nv es s) = inb b (upsertEdgesBatch ?rows ?s2)"
    using f(1) by (simp add: inb_def getAddress_def)
  then show "inb b (apply_slice t bt op nv es s) = inb b s + (\<Sum>e\<leftarrow>es. out_to b e)"
    using b k ef(2) g(5)[OF k h(1)] out_sum_rows[of b "edges s" t bt ?m ?v ?vt es] part[of "below_floor ?m ?v"] by simp
qed

lemma skipped_get_victim:
  assumes "b \<in> set vt"
  shows "(\<Sum>(a, x)\<leftarrow>skipped_sums m v vt es. if a = b then x else 0) = 0"
proof -
  have "(\<Sum>e\<leftarrow>es. if is_downstream_draft vt e \<and> d_to e = b then d_amount e else 0) = 0" for es
    using assms by (induction es) (auto simp: is_downstream_draft_def)
  then show ?thesis unfolding skipped_sums_def inbound_sums_get by blast
qed

text \<open>What the payments of a slice credit to an address.\<close>

definition credited :: "apply_opts \<Rightarrow> edge_draft list \<Rightarrow> store \<Rightarrow> address \<Rightarrow> edge_draft \<Rightarrow> bool" where
  "credited op es s b e \<longleftrightarrow> d_direction e = Out_from_hacker \<and> d_to e = b \<and>
     (b \<in> set (victim_targets op es s) \<longrightarrow>
        \<not> below_floor (or_else (ap_minExpand op) 100000) (or_else (ap_minVictim op) 100000) e)"

lemma slice_inbound:
  assumes "distinct (map (draft_key t) es)" and "\<forall>e\<in>set es. edge_at (draft_key t e) (edges s) = None"
    and "distinct (map edge_key (edges s))" and "0 \<le> totalInSats (sched s)" and "0 \<le> totalOutSats (sched s)"
    and "known b s \<or> b \<in> set (out_targets es) - set (victim_targets op es s)"
  shows "inb b (apply_slice t bt op nv es s) = inb b s + (\<Sum>e\<leftarrow>es. if credited op es s b e then d_amount e else 0)"
proof -
  let ?m = "or_else (ap_minExpand op) 100000" and ?v = "or_else (ap_minVictim op) 100000"
  let ?vt = "victim_targets op es s" and ?s2 = "after_skipped op es s"
  let ?rows = "edge_rows_of t bt ?m ?v ?vt es"
  note f = apply_slice_frame[where t = t and bt = bt and op = op and nv = nv and es = es and s = s]
    and g = after_skipped_facts[where op = op and es = es and s = s]
  have fresh: "\<And>e. e \<in> set es \<Longrightarrow> edge_at (draft_key t e) (edges s) = None" using assms(2) by blast
  note ef = edge_rows_fresh[OF assms(1) fresh, where bt = bt and m = ?m and v = ?v and vt = ?vt]
  have bs: "batch_ok ?rows (edges ?s2)" "distinct (map edge_key (edges ?s2))"
    "0 \<le> totalInSats (sched ?s2)" "0 \<le> totalOutSats (sched ?s2)"
    using ef(1) assms(3-5) by (simp_all add: g)
  note bsum = batch_sums[OF bs, of b, unfolded g(1)]
  have i: "inb b (apply_slice t bt op nv es s) = inb b (upsertEdgesBatch ?rows ?s2)"
    using f(1) by (simp add: inb_def getAddress_def)
  let ?down = "filter (is_downstream_draft ?vt) es"
  let ?us = "map (downstream_upsert (getDownstreamExpandContext (map fst (inbound_sums ?vt es)) s) (inbound_sums ?vt es) ?m) ?down"
  have "upsertAddressesBatch [] s = s" by (simp add: upsertAddressesBatch_def)
  then have s2: "?s2 = fold (\<lambda>(a, d). addInboundSats a d) (skipped_sums ?m ?v ?vt es) (upsertAddressesBatch ?us s)"
    by (simp add: after_skipped_def Let_def)
  show ?thesis
  proof (cases "b \<in> set ?vt")
    case True
    have k: "known b ?s2" unfolding s2 addInboundSats_def by (use True assms(6) in \<open>auto simp: inb_fold batch_known\<close>)
    then have "known b (upsertAddressesBatch ?us s)" unfolding s2 addInboundSats_def by (simp add: inb_fold)
    then have "inb b ?s2 = inb b s"
      using inb_fold[of b "skipped_sums ?m ?v ?vt es" "upsertAddressesBatch ?us s"] skipped_get_victim[OF True, of ?m ?v es]
      by (simp add: s2 addInboundSats_def batch_inb)
    moreover have "(\<Sum>e\<leftarrow>filter (\<lambda>e. \<not> below_floor ?m ?v e) es. out_to b e) = (\<Sum>e\<leftarrow>es. if credited op es s b e then d_amount e else 0)"
      using True by (simp add: sum_list_map_filter' credited_def out_to_def cong: if_cong) (auto intro!: arg_cong[of _ _ sum_list])
    ultimately show ?thesis using i bsum k ef(2) out_sum_rows[of b "edges s" t bt ?m ?v ?vt es] by simp
  next
    case False
    have c: "(\<Sum>e\<leftarrow>es. if credited op es s b e then d_amount e else 0) = (\<Sum>e\<leftarrow>es. out_to b e)"
      using False by (auto simp: credited_def out_to_def intro!: arg_cong[of _ _ sum_list])
    show ?thesis
    proof (cases "\<exists>e\<in>set es. d_direction e = Out_from_hacker \<and> d_to e = b")
      case True
      then show ?thesis using slice_effect(2)[OF assms(1-5) False] c by auto
    next
      case no: False
      then have z: "out_to b e = 0" if "e \<in> set es" for e using that by (auto simp: out_to_def)
      have zs: "(\<Sum>e\<leftarrow>xs. out_to b e) = 0" if "set xs \<subseteq> set es" for xs
        using that z by (induction xs) auto
      then have kb: "known b s" using assms(6) no by (auto simp: out_targets_def)
      then have k: "known b ?s2" unfolding s2 addInboundSats_def by (simp add: inb_fold batch_known)
      have "inb b (upsertEdgesBatch ?rows ?s2) = inb b s"
        using k bsum ef(2) out_sum_rows[of b "edges s" t bt ?m ?v ?vt es] g(5)[OF k False]
          zs[of "filter (\<lambda>e. \<not> below_floor ?m ?v e) es"] zs[of "filter (below_floor ?m ?v) es"] by auto
      then show ?thesis using i c zs[of es] by simp
    qed
  qed
qed

text \<open>
  C18: what a slice of a new trace writes. When none of its edges is stored yet, exactly the edges at
  or above their floor (one floor for the payments of victims, one for the money hackers pass on)
  are appended, in order. An address that has a row, or gets one because the slice pays it and it is no
  victim of a flagged hacker, is credited with the payments of the slice to it: with all of them,
  those below the floor included, when it is no such victim, and with the stored ones alone when it is.
\<close>

theorem trace_slice_writes:
  assumes "distinct (map (draft_key t) es)" and "\<forall>e\<in>set es. edge_at (draft_key t e) (edges s) = None"
    and "distinct (map edge_key (edges s))" and "0 \<le> totalInSats (sched s)" and "0 \<le> totalOutSats (sched s)"
  shows "edges (apply_slice t bt op nv es s) = edges s @ map (new_edge \<circ> draft_upsert t bt
      (or_else (ap_minExpand op) 100000) (victim_targets op es s))
      (filter (\<lambda>e. \<not> below_floor (or_else (ap_minExpand op) 100000) (or_else (ap_minVictim op) 100000) e) es) \<and>
    (\<forall>b. known b s \<or> b \<in> set (out_targets es) - set (victim_targets op es s) \<longrightarrow>
      inb b (apply_slice t bt op nv es s) = inb b s + (\<Sum>e\<leftarrow>es.
        if d_direction e = Out_from_hacker \<and> d_to e = b \<and>
           (b \<in> set (victim_targets op es s) \<longrightarrow>
              \<not> below_floor (or_else (ap_minExpand op) 100000) (or_else (ap_minVictim op) 100000) e)
        then d_amount e else 0))"
  using slice_effect(1)[OF assms, of bt op nv] slice_inbound[OF assms, of _ op bt nv]
  unfolding edge_rows_of_def credited_def by simp

definition demo_drafts :: "edge_draft list" where
  "demo_drafts = map (\<lambda>(f, t, n, d). \<lparr>d_from = f, d_to = t, d_amount = n, d_hop = 1, d_direction = d\<rparr>)
     [(''v'', ''h'', 9, In_to_hacker), (''h'', ''x'', 7, Out_from_hacker), (''h'', ''y'', 3, Out_from_hacker)]"

definition demo_apply_opts :: apply_opts where
  "demo_apply_opts = \<lparr>ap_start = None, ap_maxEdges = None, ap_guard = None, ap_flagged = Some [''h''],
     ap_minExpand = Some 5, ap_minVictim = Some 5\<rparr>"

theorem trace_slice_writes_witness:
  "inb ''y'' (apply_slice ''t'' None demo_apply_opts [] demo_drafts (init_store default_options 1000)) = 3"
proof -
  let ?s = "init_store default_options 1000"
  have d: "distinct (map (draft_key ''t'') demo_drafts)" "distinct (map edge_key (edges ?s))"
    "0 \<le> totalInSats (sched ?s)" "0 \<le> totalOutSats (sched ?s)" "''y'' \<in> set (out_targets demo_drafts)"
    "inb ''y'' ?s = 0" "victim_targets demo_apply_opts demo_drafts ?s = []"
    "(\<Sum>e\<leftarrow>demo_drafts. if d_direction e = Out_from_hacker \<and> d_to e = ''y'' then d_amount e else 0) = 3"
    by code_simp+
  have n: "\<forall>e\<in>set demo_drafts. edge_at (draft_key ''t'' e) (edges ?s) = None"
    by (simp add: init_store_def edge_at_def)
  from trace_slice_writes[OF d(1) n d(2-4), of None demo_apply_opts "[]"] d(5-8) show ?thesis by auto
qed

text \<open>
  C19: the amounts below the floor have no memory. Tracing again a slice in which every edge is below
  its floor stores nothing, and credits every payment to its target a second time.
\<close>

theorem trace_again_counts_skipped:
  assumes "distinct (map (draft_key t) es)" and "\<forall>e\<in>set es. edge_at (draft_key t e) (edges s) = None"
    and "distinct (map edge_key (edges s))" and "0 \<le> totalInSats (sched s)" and "0 \<le> totalOutSats (sched s)"
    and "\<forall>e\<in>set es. below_floor (or_else (ap_minExpand op) 100000) (or_else (ap_minVictim op) 100000) e"
    and "b \<in> set (out_targets es)" and "b \<notin> set (victim_targets op es s)"
  shows "edges (apply_slice t bt op nv es (apply_slice t bt op nv es s)) = edges s \<and>
    inb b (apply_slice t bt op nv es (apply_slice t bt op nv es s)) = inb b s +
      2 * (\<Sum>e\<leftarrow>es. if d_direction e = Out_from_hacker \<and> d_to e = b then d_amount e else 0)"
proof -
  let ?m = "or_else (ap_minExpand op) 100000" and ?v = "or_else (ap_minVictim op) 100000"
  let ?s1 = "apply_slice t bt op nv es s"
  have none: "edge_rows_of t bt ?m ?v vt es = []" for vt using assms(6) by (simp add: edge_rows_of_def)
  have e1: "edges ?s1 = edges s" using slice_effect(1)[OF assms(1-5), of bt op nv] none by simp
  have vt: "victim_targets op es ?s1 = victim_targets op es s"
    by (simp add: victim_targets_def filterVictimsAmong_def e1 split: option.split list.split)
  have tot: "totalInSats (sched ?s1) = totalInSats (sched s)" "totalOutSats (sched ?s1) = totalOutSats (sched s)"
    using apply_slice_frame(3)[where t = t and bt = bt and op = op and nv = nv and es = es and s = s] none
    by (simp_all add: upsertEdgesBatch_def after_skipped_facts)
  obtain e where e: "e \<in> set es" "d_direction e = Out_from_hacker" "d_to e = b"
    using assms(7) by (auto simp: out_targets_def)
  note again = assms(1) assms(2-5)[folded e1 tot]
  show ?thesis
    using slice_effect(1)[OF again, of bt op nv] slice_effect(2)[OF again, of b op e bt nv]
      slice_effect(2)[OF assms(1-5), of b op e bt nv] none e1 vt assms(8) e
    by (simp add: out_to_def[abs_def])
qed

theorem trace_again_counts_skipped_witness:
  "inb ''y'' (apply_slice ''t'' None demo_apply_opts [] (drop 2 demo_drafts)
     (apply_slice ''t'' None demo_apply_opts [] (drop 2 demo_drafts) (init_store default_options 1000))) = 6"
proof -
  let ?s = "init_store default_options 1000" and ?es = "drop 2 demo_drafts"
  have d: "distinct (map (draft_key ''t'') ?es)" "distinct (map edge_key (edges ?s))"
    "0 \<le> totalInSats (sched ?s)" "0 \<le> totalOutSats (sched ?s)" "''y'' \<in> set (out_targets ?es)"
    "inb ''y'' ?s = 0" "victim_targets demo_apply_opts ?es ?s = []"
    "(\<Sum>e\<leftarrow>?es. if d_direction e = Out_from_hacker \<and> d_to e = ''y'' then d_amount e else 0) = 3"
    "list_all (below_floor (or_else (ap_minExpand demo_apply_opts) 100000) (or_else (ap_minVictim demo_apply_opts) 100000)) ?es"
    by code_simp+
  have n: "\<forall>e\<in>set ?es. edge_at (draft_key ''t'' e) (edges ?s) = None"
    by (simp add: init_store_def edge_at_def)
  have l: "\<forall>e\<in>set ?es. below_floor (or_else (ap_minExpand demo_apply_opts) 100000) (or_else (ap_minVictim demo_apply_opts) 100000) e"
    using d(9) by (simp add: list_all_iff)
  from trace_again_counts_skipped[OF d(1) n d(2-4) l d(5), of None "[]"] d(6-8) show ?thesis by simp
qed

section \<open>A whole trace in chunks\<close>










section \<open>Transactions\<close>

lemma chunk_transactions:
  assumes "applyHackTraceEdgesChunk t bt flat victims op s = (r, s')"
  shows "transactions s' = transactions s"
proof -
  have b: "transactions (upsertAddressesBatch us x) = transactions x" for us x
  proof -
    have "stats_frame y (adjustCrawlPendingCount n (apply_batch_stats b a as y))" for n b a as y
      unfolding adjustCrawlPendingCount_def
      by (rule stats_frame_trans[OF batch_stats_frame stats_frame_adjust]) simp
    then have "transactions (adjustCrawlPendingCount n (apply_batch_stats b a as y)) = transactions y" for n b a as y
      by (simp add: stats_frame_def)
    then show ?thesis by (simp add: upsertAddressesBatch_def Let_def invalidateFlaggedHackersCache_def)
  qed
  have i: "transactions (fold (\<lambda>(a, d). addInboundSats a d) m x) = transactions x" for m x
  proof -
    have "edge_frame x (fold (\<lambda>(a, d). addInboundSats a d) m x)"
      unfolding addInboundSats_def by (rule edge_frame_fold) (auto simp: applyInbound_facts(1))
    then show ?thesis by (simp add: edge_frame_def)
  qed
  have e: "transactions (upsertEdgesBatch us x) = transactions x" for us x
  proof -
    have "transactions (upsert_edge_chunks cs i j x) = transactions x" for cs i j
      by (induction cs i j x rule: upsert_edge_chunks.induct)
         (use chunk_edge_frame in \<open>auto simp: edge_frame_def adjustEdgeTotalsCounters_def\<close>)
    then show ?thesis by (simp add: upsertEdgesBatch_def)
  qed
  have a: "transactions (recordRecentHackerActivity h d x) = transactions x" for h d x
    by (simp add: recordRecentHackerActivity_def Let_def)
  have v: "transactions (record_victims nv ok tm rows x) = transactions x"
    "transactions (record_downstream sp tm x) = transactions x" for nv ok tm rows sp x
    by (simp_all add: record_victims_def record_downstream_def Let_def fold_frame a split_beta)
  have sl: "transactions (apply_slice t bt op nv es x) = transactions x" for nv es x
    by (simp add: apply_slice_def Let_def b i e v)
  have "transactions (snd (register_victims i flat victims mv x)) = transactions x" for i mv x
    by (simp add: register_victims_def Let_def b)
  then have rv: "register_victims i flat victims mv x = (nv, y) \<Longrightarrow> transactions y = transactions x" for i mv x nv y
    by (metis snd_conv)
  show ?thesis using assms by (auto simp: applyHackTraceEdgesChunk_def Let_def sl dest!: rv split: prod.splits if_splits)
qed


end
