(* ===== verification/Refinement.thy ===== *)
theory Refinement
  imports Prelude
begin

text \<open>
  Running a sequence of operations that each return a result, and the contract under which one
  implementation of the operations may stand for another: forward simulation.
\<close>

fun run_ops :: "('op \<Rightarrow> 's \<Rightarrow> 's \<times> 'r) \<Rightarrow> 'op list \<Rightarrow> 's \<Rightarrow> 's \<times> 'r list" where
  "run_ops step [] s = (s, [])"
| "run_ops step (x # xs) s =
     (let (s1, r) = step x s; (s2, rs) = run_ops step xs s1 in (s2, r # rs))"

lemma run_ops_append:
  "run_ops step (xs @ ys) s =
     (let (s1, rs) = run_ops step xs s; (s2, rs') = run_ops step ys s1 in (s2, rs @ rs'))"
  by (induction xs arbitrary: s) (simp_all add: split_beta Let_def)

lemma run_ops_length: "length (snd (run_ops step xs s)) = length xs"
  by (induction xs arbitrary: s) (simp_all add: split_beta Let_def)

locale simulation =
  fixes conc :: "'op \<Rightarrow> 'c \<Rightarrow> 'c \<times> 'r"
    and abst :: "'op \<Rightarrow> 'a \<Rightarrow> 'a \<times> 'r"
    and rel :: "'c \<Rightarrow> 'a \<Rightarrow> bool"
    and allowed :: "'op \<Rightarrow> bool"
  assumes step_rel: "rel c a \<Longrightarrow> allowed x \<Longrightarrow> rel (fst (conc x c)) (fst (abst x a))"
    and step_result: "rel c a \<Longrightarrow> allowed x \<Longrightarrow> snd (conc x c) = snd (abst x a)"
begin

lemma run_simulates:
  assumes "rel c a" and "list_all allowed xs"
  shows "rel (fst (run_ops conc xs c)) (fst (run_ops abst xs a)) \<and>
    snd (run_ops conc xs c) = snd (run_ops abst xs a)"
  using assms
proof (induction xs arbitrary: c a)
  case (Cons x xs)
  then have "rel (fst (conc x c)) (fst (abst x a))" "snd (conc x c) = snd (abst x a)"
    using step_rel step_result by simp_all
  with Cons show ?case by (simp add: split_beta Let_def)
qed simp

lemma run_rel: "rel c a \<Longrightarrow> list_all allowed xs \<Longrightarrow> rel (fst (run_ops conc xs c)) (fst (run_ops abst xs a))"
  and run_results: "rel c a \<Longrightarrow> list_all allowed xs \<Longrightarrow> snd (run_ops conc xs c) = snd (run_ops abst xs a)"
  using run_simulates by simp_all

end

end
