(* ===== verification/SchedulerRefine.thy ===== *)
theory SchedulerRefine
  imports SchedulerCache Refinement
begin

text \<open>
  The cached scheduler row refines the plain row: whatever sequence of operations one store object
  performs, a reader of the cache sees what a reader of the database would see.
\<close>

section \<open>The operations, with the cache and without\<close>

datatype cache_op =
    Op_get
  | Op_clear
  | Op_update "sched \<Rightarrow> sched"
  | Op_adjust counter int
  | Op_edge_totals int int
  | Op_cron_counter
  | Op_poll_index int
  | Op_acquire time int
  | Op_release

datatype cache_result = R_unit | R_row "sched option" | R_num int | R_bool bool

fun cached_step :: "cache_op \<Rightarrow> cstore \<Rightarrow> cstore \<times> cache_result" where
  "cached_step Op_get c = (let (c', r) = getSchedulerState c in (c', R_row r))"
| "cached_step Op_clear c = (clearSchedulerStateCache c, R_unit)"
| "cached_step (Op_update p) c = (updateSchedulerRow p c, R_unit)"
| "cached_step (Op_adjust k d) c = (adjustCounter k d c, R_unit)"
| "cached_step (Op_edge_totals i t) c = (adjustEdgeTotals i t c, R_unit)"
| "cached_step Op_cron_counter c = (let (c', n) = incrementMaintenanceCronCounter c in (c', R_num n))"
| "cached_step (Op_poll_index n) c = (let (c', i) = claimNextHackerPollIndex n c in (c', R_num i))"
| "cached_step (Op_acquire t ms) c = (let (c', b) = tryAcquireTickLease_c t ms c in (c', R_bool b))"
| "cached_step Op_release c = (clearTickLease_c c, R_unit)"

text \<open>The same operations on the row alone: no cache, every read goes to the database.\<close>

definition lease_free :: "time \<Rightarrow> sched \<Rightarrow> bool" where
  "lease_free t r = (case tickLeaseUntil r of None \<Rightarrow> True | Some u \<Rightarrow> u < t)"

fun row_step :: "cache_op \<Rightarrow> sched option \<Rightarrow> sched option \<times> cache_result" where
  "row_step Op_get r = (r, R_row r)"
| "row_step Op_clear r = (r, R_unit)"
| "row_step (Op_update p) r = (map_option p r, R_unit)"
| "row_step (Op_adjust k d) r =
     (map_option (\<lambda>x. if d = 0 then x else counter_upd k (bump d) x) r, R_unit)"
| "row_step (Op_edge_totals i t) r =
     (map_option (\<lambda>x. if i = 0 \<and> t = 0 then x
                      else counter_upd TotalOut (bump t) (counter_upd TotalIn (bump i) x)) r, R_unit)"
| "row_step Op_cron_counter r =
     (map_option (\<lambda>x. x\<lparr>maintenanceCronCounter := maintenanceCronCounter x + 1\<rparr>) r,
      R_num (case r of None \<Rightarrow> 0 | Some x \<Rightarrow> maintenanceCronCounter x + 1))"
| "row_step (Op_poll_index n) r =
     (if n \<le> 0 then (r, R_num 0)
      else (map_option (\<lambda>x. x\<lparr>hackerPollIndex := (hackerPollIndex x + 1) mod n\<rparr>) r,
            R_num (case r of None \<Rightarrow> 0 | Some x \<Rightarrow> hackerPollIndex x mod n)))"
| "row_step (Op_acquire t ms) r =
     (case r of
        Some x \<Rightarrow> if lease_free t x then (Some (x\<lparr>tickLeaseUntil := Some (t + max 1 ms)\<rparr>), R_bool True)
                  else (r, R_bool False)
      | None \<Rightarrow> (r, R_bool False))"
| "row_step Op_release r = (map_option (\<lambda>x. x\<lparr>tickLeaseUntil := None\<rparr>) r, R_unit)"

text \<open>No update writes a negative total: the callers of \<open>updateSchedulerState\<close> write sums.\<close>

definition totals_ok :: "sched \<Rightarrow> bool" where
  "totals_ok r \<longleftrightarrow> 0 \<le> totalInSats r \<and> 0 \<le> totalOutSats r"

fun cache_op_ok :: "cache_op \<Rightarrow> bool" where
  "cache_op_ok (Op_update p) \<longleftrightarrow> (\<forall>r. totals_ok r \<longrightarrow> totals_ok (p r))"
| "cache_op_ok _ \<longleftrightarrow> True"

definition caches :: "cstore \<Rightarrow> sched option \<Rightarrow> bool" where
  "caches c r \<longleftrightarrow> coherent c \<and> srow c = r \<and> (\<forall>x. r = Some x \<longrightarrow> totals_ok x)"

section \<open>The simulation\<close>

lemma totals_ok_counter: "totals_ok r \<Longrightarrow> totals_ok (counter_upd k (bump d) r)"
  by (cases k) (simp_all add: totals_ok_def)

lemma caches_cases:
  assumes "caches c r"
  obtains (missing) "srow c = None" "r = None" "scache c = None \<or> scache c = Some None"
  | (row) x where "srow c = Some x" "r = Some x" "totals_ok x" "scache c = None \<or> scache c = Some (Some x)"
  using assms by (cases r) (auto simp: caches_def coherent_def)

lemmas cache_defs = caches_def coherent_def getSchedulerState_def clearSchedulerStateCache_def
  updateSchedulerRow_def patchSchedulerCache_def bumpSchedulerCache_def adjustCounter_def
  adjustEdgeTotals_def incrementMaintenanceCronCounter_def tryAcquireTickLease_c_def
  clearTickLease_c_def

lemma cached_step_sim:
  assumes "caches c r" and "cache_op_ok x"
  shows "caches (fst (cached_step x c)) (fst (row_step x r)) \<and> snd (cached_step x c) = snd (row_step x r)"
  using assms(1)
proof (cases rule: caches_cases)
  case missing
  then show ?thesis
    by (cases x) (auto simp: cache_defs claimNextHackerPollIndex_def Let_def)
next
  case (row s)
  show ?thesis
  proof (cases x)
    case (Op_update p)
    then have "totals_ok (p s)" using row assms(2) by simp
    then show ?thesis using Op_update row by (auto simp: cache_defs)
  next
    case (Op_adjust k d)
    then show ?thesis using row totals_ok_counter[of s k d] by (auto simp: cache_defs)
  next
    case (Op_edge_totals i t)
    have "scache c = None \<or> scache c = Some (Some s)" using row by blast
    then show ?thesis
    proof
      assume "scache c = None"
      then show ?thesis using Op_edge_totals row by (simp add: cache_defs totals_ok_def)
    next
      assume "scache c = Some (Some s)"
      then show ?thesis using Op_edge_totals row
        by (cases "i = 0"; cases "t = 0") (simp_all add: cache_defs totals_ok_def bump_0)
    qed
  next
    case (Op_poll_index n)
    show ?thesis
    proof (cases "0 < n")
      case True
      have "coherent c" "srow c = Some s" using row by (auto simp: coherent_def)
      note spec = claimNextHackerPollIndex_spec[OF this True]
      show ?thesis using Op_poll_index True row spec by (auto simp: caches_def totals_ok_def split_beta)
    next
      case False
      then show ?thesis using Op_poll_index row by (auto simp: cache_defs claimNextHackerPollIndex_def)
    qed
  next
    case (Op_acquire t ms)
    then show ?thesis using row
      by (cases "lease_free t s") (auto simp: cache_defs lease_free_def totals_ok_def Let_def split: option.splits)
  qed (use row in \<open>auto simp: cache_defs totals_ok_def Let_def\<close>)
qed

interpretation cached_row: simulation cached_step row_step caches cache_op_ok
  using cached_step_sim by unfold_locales blast+

text \<open>
  C17: the cached row is transparent. From a coherent cache, any sequence of reads, updates, counter
  adjustments, claims of the poll index and attempts on the tick lease returns, operation by
  operation, what it would return without a cache, leaves the same row in the database and leaves
  the cache coherent, wherever in the sequence the cache is dropped.
\<close>

theorem scheduler_cache_transparent:
  assumes "coherent c" and "\<forall>r. srow c = Some r \<longrightarrow> totals_ok r" and "list_all cache_op_ok xs"
  shows "snd (run_ops cached_step xs c) = snd (run_ops row_step xs (srow c)) \<and>
    srow (fst (run_ops cached_step xs c)) = fst (run_ops row_step xs (srow c)) \<and>
    coherent (fst (run_ops cached_step xs c))"
proof -
  have "caches c (srow c)" using assms(1,2) by (simp add: caches_def)
  then show ?thesis using cached_row.run_simulates[OF _ assms(3)] by (auto simp: caches_def)
qed

theorem scheduler_cache_transparent_witness:
  "snd (run_ops cached_step [Op_get, Op_adjust PendingJob 2, Op_poll_index 3, Op_acquire 10 5, Op_acquire 12 5, Op_clear, Op_cron_counter]
     \<lparr>srow = Some init_sched, scache = None\<rparr>)
   = snd (run_ops row_step [Op_get, Op_adjust PendingJob 2, Op_poll_index 3, Op_acquire 10 5, Op_acquire 12 5, Op_clear, Op_cron_counter]
       (Some init_sched))"
  using scheduler_cache_transparent[of "\<lparr>srow = Some init_sched, scache = None\<rparr>"
      "[Op_get, Op_adjust PendingJob 2, Op_poll_index 3, Op_acquire 10 5, Op_acquire 12 5, Op_clear, Op_cron_counter]"]
  by (simp add: coherent_def totals_ok_def init_sched_def)

section \<open>The round robin over the hackers\<close>

lemma poll_claims:
  assumes "0 < n"
  shows "snd (run_ops row_step (replicate k (Op_poll_index n)) (Some r))
     = map (\<lambda>i. R_num ((hackerPollIndex r + int i) mod n)) [0..<k]"
proof (induction k arbitrary: r)
  case (Suc k)
  have "map (\<lambda>i. R_num (((hackerPollIndex r + 1) mod n + int i) mod n)) [0..<k]
      = map (\<lambda>i. R_num ((hackerPollIndex r + int i) mod n)) [Suc 0..<Suc k]"
    by (simp add: mod_add_left_eq add.assoc map_Suc_upt[symmetric] del: upt_Suc)
  then show ?case
    using Suc.IH[of "r\<lparr>hackerPollIndex := (hackerPollIndex r + 1) mod n\<rparr>"] assms
    by (simp add: split_beta Let_def upt_conv_Cons del: upt_Suc)
qed simp

lemma rotation_covers:
  assumes "0 < (n::int)"
  shows "(\<lambda>i. (k + int i) mod n) ` {0..<nat n} = {0..<n}"
proof
  show "(\<lambda>i. (k + int i) mod n) ` {0..<nat n} \<subseteq> {0..<n}" using assms by auto
  show "{0..<n} \<subseteq> (\<lambda>i. (k + int i) mod n) ` {0..<nat n}"
  proof
    fix j assume j: "j \<in> {0..<n}"
    have "(k + int (nat ((j - k) mod n))) mod n = j"
      using assms j by (simp add: mod_add_right_eq)
    moreover have "nat ((j - k) mod n) \<in> {0..<nat n}" using assms by simp
    ultimately show "j \<in> (\<lambda>i. (k + int i) mod n) ` {0..<nat n}" by (metis imageI)
  qed
qed

text \<open>
  The poll of the hackers is fair. With \<open>n\<close> hackers, \<open>n\<close> consecutive claims of the poll index
  through the cache return each of the indices 0 to \<open>n - 1\<close> exactly once, in cyclic order from the
  stored index.
\<close>

lemma poll_index_round_robin:
  assumes "coherent c" and "srow c = Some r" and "totals_ok r" and "0 < n"
  shows "snd (run_ops cached_step (replicate (nat n) (Op_poll_index n)) c)
      = map (\<lambda>i. R_num ((hackerPollIndex r + int i) mod n)) [0..<nat n] \<and>
    set (snd (run_ops cached_step (replicate (nat n) (Op_poll_index n)) c)) = R_num ` {0..<n} \<and>
    distinct (snd (run_ops cached_step (replicate (nat n) (Op_poll_index n)) c))"
proof -
  have "caches c (Some r)" using assms(1-3) by (simp add: caches_def)
  then have e: "snd (run_ops cached_step (replicate (nat n) (Op_poll_index n)) c)
      = map (\<lambda>i. R_num ((hackerPollIndex r + int i) mod n)) [0..<nat n]" (is "?xs = _")
    using cached_row.run_results[of c "Some r" "replicate (nat n) (Op_poll_index n)"] poll_claims[OF assms(4)]
    by (simp add: list_all_iff)
  have s: "set ?xs = R_num ` {0..<n}"
    unfolding e using rotation_covers[OF assms(4), of "hackerPollIndex r"] by (force simp: image_image)
  have "card (set ?xs) = nat n" unfolding s by (simp add: card_image inj_on_def)
  then have "distinct ?xs" by (intro card_distinct) (simp add: run_ops_length)
  with e s show ?thesis by blast
qed

lemma poll_index_round_robin_witness:
  "snd (run_ops cached_step (replicate 3 (Op_poll_index 3)) \<lparr>srow = Some (init_sched\<lparr>hackerPollIndex := 4\<rparr>), scache = None\<rparr>)
     = [R_num 1, R_num 2, R_num 0]"
  using poll_index_round_robin[of "\<lparr>srow = Some (init_sched\<lparr>hackerPollIndex := 4\<rparr>), scache = None\<rparr>"
      "init_sched\<lparr>hackerPollIndex := 4\<rparr>" 3]
  by (simp add: coherent_def totals_ok_def init_sched_def upt_conv_Cons)

end
