(* ===== verification/OpReturn.thy ===== *)
theory OpReturn
  imports TxPage "HOL-Library.Word"
begin

unbundle bit_operations_syntax

text \<open>
  The texts that transactions carry in their data outputs (\<open>packages/core/src/chain/opReturn.ts\<close>):
  the payload of a script, its decoding as UTF-8, UTF-16 or Windows-1252, the test for readable
  text, and the text that is stored.

  A byte is an \<open>8 word\<close>; a JavaScript string is the list of its UTF-16 code units, \<open>16 word\<close>.
  Scripts and their disassembly come from the provider as ASCII texts. \<open>TextDecoder\<close> and
  \<open>TextEncoder\<close> are the platform's: the encoding standard's UTF-8 with the byte order mark removed
  on decoding.
\<close>

type_synonym byte = "8 word"
type_synonym js_text = "16 word list"

section \<open>Hexadecimal texts\<close>

text \<open>The ASCII part of \<open>\\s\<close> and of what \<open>trim\<close> removes.\<close>

definition is_space :: "char \<Rightarrow> bool" where
  "is_space c \<longleftrightarrow> (let n = of_char c :: nat in n = 32 \<or> (9 \<le> n \<and> n \<le> 13))"

definition trim_text :: "string \<Rightarrow> string" where
  "trim_text s = rev (dropWhile is_space (rev (dropWhile is_space s)))"

definition hex_digit :: "char \<Rightarrow> nat option" where
  "hex_digit c =
     (let n = of_char c :: nat
      in if 48 \<le> n \<and> n \<le> 57 then Some (n - 48)
         else if 97 \<le> n \<and> n \<le> 102 then Some (n - 87)
         else if 65 \<le> n \<and> n \<le> 70 then Some (n - 55)
         else None)"

fun hex_pairs :: "string \<Rightarrow> byte list option" where
  "hex_pairs [] = Some []"
| "hex_pairs [c] = None"
| "hex_pairs (c # d # s) =
     (case (hex_digit c, hex_digit d, hex_pairs s) of
        (Some x, Some y, Some bs) \<Rightarrow> Some (of_nat (16 * x + y) # bs)
      | _ \<Rightarrow> None)"

definition bytesFromHex :: "string \<Rightarrow> byte list option" where
  "bytesFromHex hex =
     (let normalized = filter (\<lambda>c. \<not> is_space c) hex
      in if normalized = [] then None else hex_pairs normalized)"

section \<open>The payload of a script\<close>

definition is_word_char :: "char \<Rightarrow> bool" where
  "is_word_char c \<longleftrightarrow> (let n = of_char c :: nat
     in (48 \<le> n \<and> n \<le> 57) \<or> (65 \<le> n \<and> n \<le> 90) \<or> (97 \<le> n \<and> n \<le> 122) \<or> n = 95)"

text \<open>\<open>/^OP_RETURN\\b/i\<close>.\<close>

definition starts_op_return :: "string \<Rightarrow> bool" where
  "starts_op_return s \<longleftrightarrow> map upper (take 9 s) = ''OP_RETURN'' \<and>
     (case drop 9 s of [] \<Rightarrow> True | c # r \<Rightarrow> \<not> is_word_char c)"

definition parseOpReturnPayloadFromAsm :: "string \<Rightarrow> byte list option" where
  "parseOpReturnPayloadFromAsm asm =
     (let trimmed = trim_text asm
      in if \<not> starts_op_return trimmed then None
         else let rest = trim_text (drop 9 trimmed)
              in if rest = [] then Some [] else bytesFromHex rest)"

text \<open>
  The four-byte length is put together with 32-bit operators: from \<open>0x80000000\<close> on it is negative.
\<close>

definition le32 :: "byte \<Rightarrow> byte \<Rightarrow> byte \<Rightarrow> byte \<Rightarrow> int" where
  "le32 a b c d = sint ((((ucast a :: 32 word) OR push_bit 8 ((ucast b :: 32 word))) OR
     push_bit 16 ((ucast c :: 32 word))) OR push_bit 24 ((ucast d :: 32 word)))"

definition le16 :: "byte \<Rightarrow> byte \<Rightarrow> int" where
  "le16 a b = sint ((ucast a :: 32 word) OR push_bit 8 ((ucast b :: 32 word)))"

text \<open>\<open>Inl\<close>: the early return; \<open>Inr\<close>: the length of the data and where it starts.\<close>

definition push_length :: "byte list \<Rightarrow> byte list option + int \<times> nat" where
  "push_length script =
     (let op = script ! 1
      in if 1 \<le> op \<and> op \<le> 0x4b then Inr (uint op, 2)
         else if op = 0x4c then
           (if 2 \<ge> length script then Inl None else Inr (uint (script ! 2), 3))
         else if op = 0x4d then
           (if 3 \<ge> length script then Inl None else Inr (le16 (script ! 2) (script ! 3), 4))
         else if op = 0x4e then
           (if 5 \<ge> length script then Inl None
            else Inr (le32 (script ! 2) (script ! 3) (script ! 4) (script ! 5), 6))
         else Inl (Some []))"

definition script_payload :: "byte list \<Rightarrow> byte list option" where
  "script_payload script =
     (if length script < 1 \<or> script ! 0 \<noteq> 0x6a then None
      else if 1 \<ge> length script then Some []
      else case push_length script of
             Inl r \<Rightarrow> r
           | Inr (dataLen, offset) \<Rightarrow>
               if dataLen < 0 \<or> int offset + dataLen > int (length script) then None
               else Some (take (nat dataLen) (drop offset script)))"

definition parseOpReturnPayloadFromScript :: "string \<Rightarrow> byte list option" where
  "parseOpReturnPayloadFromScript scriptHex =
     (case bytesFromHex scriptHex of None \<Rightarrow> None | Some script \<Rightarrow> script_payload script)"

definition capPayloadBytes :: "byte list \<Rightarrow> byte list" where
  "capPayloadBytes bytes = (if length bytes \<le> 80 then bytes else take 80 bytes)"

definition payloadBytesFromVout :: "chain_vout \<Rightarrow> byte list option" where
  "payloadBytesFromVout v =
     (if out_type v \<noteq> Some ''op_return'' \<and> out_type v \<noteq> Some ''nulldata'' then None
      else
        let fromAsm = (case truthy (out_asm v) of
                         Some a \<Rightarrow> parseOpReturnPayloadFromAsm a | None \<Rightarrow> None);
            fromScript = (case truthy (out_script v) of
                            Some h \<Rightarrow> parseOpReturnPayloadFromScript h | None \<Rightarrow> None)
        in case fromAsm of
             Some b \<Rightarrow> Some (capPayloadBytes b)
           | None \<Rightarrow> (case fromScript of
                        Some b \<Rightarrow> Some (capPayloadBytes b)
                      | None \<Rightarrow> Some []))"

section \<open>Encodings\<close>

definition is_cont :: "byte \<Rightarrow> bool" where
  "is_cont b \<longleftrightarrow> b AND 0xc0 = 0x80"

definition between :: "byte \<Rightarrow> byte \<Rightarrow> byte \<Rightarrow> bool" where
  "between l b h \<longleftrightarrow> l \<le> b \<and> b \<le> h"

text \<open>
  The UTF-8 decoder of the encoding standard in fatal mode, without the byte order mark: the code
  points, or \<open>None\<close> where it throws (overlong forms, surrogates, values above 0x10FFFF, truncation).
\<close>

fun utf8_points :: "byte list \<Rightarrow> nat list option" where
  "utf8_points [] = Some []"
| "utf8_points (b # bs) =
     (if b \<le> 0x7f then map_option (Cons (unat b)) (utf8_points bs)
      else if between 0xc2 b 0xdf then
        (case bs of
           b1 # r \<Rightarrow> if between 0x80 b1 0xbf
             then map_option (Cons ((unat b - 0xc0) * 64 + (unat b1 - 0x80))) (utf8_points r) else None
         | _ \<Rightarrow> None)
      else if between 0xe0 b 0xef then
        (case bs of
           b1 # b2 # r \<Rightarrow>
             if between (if b = 0xe0 then 0xa0 else 0x80) b1 (if b = 0xed then 0x9f else 0xbf) \<and> between 0x80 b2 0xbf
             then map_option (Cons ((unat b - 0xe0) * 4096 + (unat b1 - 0x80) * 64 + (unat b2 - 0x80))) (utf8_points r)
             else None
         | _ \<Rightarrow> None)
      else if between 0xf0 b 0xf4 then
        (case bs of
           b1 # b2 # b3 # r \<Rightarrow>
             if between (if b = 0xf0 then 0x90 else 0x80) b1 (if b = 0xf4 then 0x8f else 0xbf) \<and>
                between 0x80 b2 0xbf \<and> between 0x80 b3 0xbf
             then map_option (Cons ((unat b - 0xf0) * 262144 + (unat b1 - 0x80) * 4096 +
                    (unat b2 - 0x80) * 64 + (unat b3 - 0x80))) (utf8_points r)
             else None
         | _ \<Rightarrow> None)
      else None)"

text \<open>A code point as UTF-16 code units, and the code points of a string (a lone half stays one).\<close>

definition utf16_of :: "nat \<Rightarrow> js_text" where
  "utf16_of p =
     (if p < 0x10000 then [of_nat p]
      else [of_nat (0xd800 + (p - 0x10000) div 1024), of_nat (0xdc00 + (p - 0x10000) mod 1024)])"

definition high_half :: "16 word \<Rightarrow> bool" where
  "high_half u \<longleftrightarrow> 0xd800 \<le> u \<and> u \<le> 0xdbff"

definition low_half :: "16 word \<Rightarrow> bool" where
  "low_half u \<longleftrightarrow> 0xdc00 \<le> u \<and> u \<le> 0xdfff"

fun code_points :: "js_text \<Rightarrow> nat list" where
  "code_points [] = []"
| "code_points [u] = [unat u]"
| "code_points (u # v # t) =
     (if high_half u \<and> low_half v
      then (0x10000 + (unat u - 0xd800) * 1024 + (unat v - 0xdc00)) # code_points t
      else unat u # code_points (v # t))"

text \<open>\<open>TextEncoder\<close>: a lone half becomes U+FFFD.\<close>

definition utf8_of :: "nat \<Rightarrow> byte list" where
  "utf8_of p0 =
     (let p = (if 0xd800 \<le> p0 \<and> p0 \<le> 0xdfff then 0xfffd else p0)
      in if p < 0x80 then [of_nat p]
         else if p < 0x800 then [of_nat (0xc0 + p div 64), of_nat (0x80 + p mod 64)]
         else if p < 0x10000 then
           [of_nat (0xe0 + p div 4096), of_nat (0x80 + p div 64 mod 64), of_nat (0x80 + p mod 64)]
         else [of_nat (0xf0 + p div 262144), of_nat (0x80 + p div 4096 mod 64),
               of_nat (0x80 + p div 64 mod 64), of_nat (0x80 + p mod 64)])"

definition utf8_encode :: "js_text \<Rightarrow> byte list" where
  "utf8_encode t = concat (map utf8_of (code_points t))"

text \<open>\<open>TextDecoder\<close> removes one byte order mark; the code removes one before it.\<close>

definition stripUtf8Bom :: "byte list \<Rightarrow> byte list" where
  "stripUtf8Bom bytes =
     (if length bytes \<ge> 3 \<and> bytes ! 0 = 0xef \<and> bytes ! 1 = 0xbb \<and> bytes ! 2 = 0xbf
      then drop 3 bytes else bytes)"

definition decodeUtf8 :: "byte list \<Rightarrow> js_text option" where
  "decodeUtf8 bytes = map_option (\<lambda>ps. concat (map utf16_of ps)) (utf8_points (stripUtf8Bom bytes))"

fun units16 :: "bool \<Rightarrow> byte list \<Rightarrow> js_text" where
  "units16 le (a # b # r) =
     (if le then (ucast a :: 16 word) OR push_bit 8 ((ucast b :: 16 word))
      else (ucast b :: 16 word) OR push_bit 8 ((ucast a :: 16 word))) # units16 le r"
| "units16 le _ = []"

definition decodeUtf16 :: "byte list \<Rightarrow> bool \<Rightarrow> js_text option" where
  "decodeUtf16 bytes le =
     (if length bytes < 2 \<or> length bytes mod 2 \<noteq> 0 then None
      else if 0xfffd \<in> set (units16 le bytes) then None
      else Some (units16 le bytes))"

definition WIN1252_SPECIAL :: "(byte \<times> 16 word) list" where
  "WIN1252_SPECIAL =
     [(0x80, 0x20AC), (0x82, 0x201A), (0x83, 0x0192), (0x84, 0x201E), (0x85, 0x2026), (0x86, 0x2020),
      (0x87, 0x2021), (0x88, 0x02C6), (0x89, 0x2030), (0x8a, 0x0160), (0x8b, 0x2039), (0x8c, 0x0152),
      (0x8e, 0x017D), (0x91, 0x2018), (0x92, 0x2019), (0x93, 0x201C), (0x94, 0x201D), (0x95, 0x2022),
      (0x96, 0x2013), (0x97, 0x2014), (0x98, 0x02DC), (0x99, 0x2122), (0x9a, 0x0161), (0x9b, 0x203A),
      (0x9c, 0x0153), (0x9e, 0x017E), (0x9f, 0x0178)]"

definition decodeWindows1252 :: "byte list \<Rightarrow> js_text" where
  "decodeWindows1252 bytes =
     map (\<lambda>b. if b \<le> 0x7f \<or> 0xa0 \<le> b then (ucast b :: 16 word)
              else case map_of WIN1252_SPECIAL b of Some u \<Rightarrow> u | None \<Rightarrow> (ucast b :: 16 word)) bytes"

section \<open>Readable text\<close>

definition js_space :: "16 word \<Rightarrow> bool" where
  "js_space u \<longleftrightarrow> u \<in> {9, 10, 11, 12, 13, 32, 0xa0, 0x1680, 0x2028, 0x2029, 0x202f, 0x205f, 0x3000, 0xfeff} \<or>
     (0x2000 \<le> u \<and> u \<le> 0x200a)"

definition js_trim :: "js_text \<Rightarrow> js_text" where
  "js_trim t = rev (dropWhile js_space (rev (dropWhile js_space t)))"

definition printable_unit :: "16 word \<Rightarrow> bool" where
  "printable_unit u \<longleftrightarrow> u = 9 \<or> u = 10 \<or> u = 13 \<or> (0x20 \<le> u \<and> u \<le> 0x7e) \<or>
     (0xa0 \<le> u \<and> u \<le> 0xd7ff) \<or> (0xe000 \<le> u \<and> u \<le> 0xfffd)"

definition hex_unit :: "16 word \<Rightarrow> bool" where
  "hex_unit u \<longleftrightarrow> (0x30 \<le> u \<and> u \<le> 0x39) \<or> (0x61 \<le> u \<and> u \<le> 0x66) \<or> (0x41 \<le> u \<and> u \<le> 0x46)"

definition printable_points :: "js_text \<Rightarrow> nat" where
  "printable_points t = length (filter (\<lambda>p. (p = 9 \<or> p = 10 \<or> p = 13 \<or> 32 \<le> p) \<and> p \<noteq> 0xfffd) (code_points t))"

text \<open>The ratio against 0.85, as integers: the quotient of two lengths is never that close to it.\<close>

definition passesHumanReadableQuality :: "js_text \<Rightarrow> bool" where
  "passesHumanReadableQuality text =
     (let trimmed = js_trim text
      in if length trimmed < 2 then False
         else if 0xfffd \<in> set trimmed then False
         else if \<not> list_all printable_unit trimmed then False
         else if 20 * printable_points trimmed < 17 * length trimmed then False
         else
           let compact = filter (\<lambda>u. \<not> js_space u) trimmed
           in \<not> (length compact \<ge> 32 \<and> list_all hex_unit compact))"

text \<open>The pairs that look like ASCII, low byte first and, as the code has it, high byte first.\<close>

fun ascii_pairs_le :: "byte list \<Rightarrow> nat" where
  "ascii_pairs_le (lo # hi # r) =
     (if hi = 0 \<and> 0x20 \<le> lo \<and> lo \<le> 0x7e then 1 else 0) + ascii_pairs_le r"
| "ascii_pairs_le _ = 0"

fun ascii_pairs_be :: "byte list \<Rightarrow> nat" where
  "ascii_pairs_be (hi # lo # r) =
     (if lo = 0 \<and> 0x20 \<le> hi \<and> hi \<le> 0x7e then 1 else 0) + ascii_pairs_be r"
| "ascii_pairs_be _ = 0"

definition looksLikeUtf16LeText :: "byte list \<Rightarrow> bool" where
  "looksLikeUtf16LeText bytes \<longleftrightarrow> \<not> (length bytes < 4 \<or> length bytes mod 2 \<noteq> 0) \<and>
     5 * ascii_pairs_le bytes \<ge> 4 * (length bytes div 2)"

definition looksLikeUtf16BeText :: "byte list \<Rightarrow> bool" where
  "looksLikeUtf16BeText bytes \<longleftrightarrow> \<not> (length bytes < 4 \<or> length bytes mod 2 \<noteq> 0) \<and>
     5 * ascii_pairs_be bytes \<ge> 4 * (length bytes div 2)"

text \<open>A decoded text, trimmed, if it is readable.\<close>

definition readable :: "js_text option \<Rightarrow> js_text option" where
  "readable t = (case t of
     Some x \<Rightarrow> if passesHumanReadableQuality x then Some (js_trim x) else None
   | None \<Rightarrow> None)"

definition or_try :: "'a option \<Rightarrow> 'a option \<Rightarrow> 'a option" where
  "or_try x y = (case x of Some v \<Rightarrow> Some v | None \<Rightarrow> y)"

definition utf16_attempt :: "byte list \<Rightarrow> js_text option" where
  "utf16_attempt bytes =
     (let leBom = (bytes ! 0 = 0xff \<and> bytes ! 1 = 0xfe); beBom = (bytes ! 0 = 0xfe \<and> bytes ! 1 = 0xff)
      in if length bytes < 2 then None
         else if leBom \<or> beBom then readable (decodeUtf16 (drop 2 bytes) leBom)
         else if length bytes mod 2 = 0 \<and> length bytes \<ge> 4 then
           or_try (if looksLikeUtf16LeText bytes then readable (decodeUtf16 bytes True) else None)
                  (if looksLikeUtf16BeText bytes then readable (decodeUtf16 bytes False) else None)
         else None)"

definition decodeHumanReadableFromBytes :: "byte list \<Rightarrow> js_text option" where
  "decodeHumanReadableFromBytes bytes =
     (if bytes = [] then None
      else or_try (readable (decodeUtf8 (stripUtf8Bom bytes)))
             (or_try (utf16_attempt bytes) (readable (Some (decodeWindows1252 bytes)))))"

definition decodeOpReturnPayload :: "byte list \<Rightarrow> js_text option" where
  "decodeOpReturnPayload bytes = decodeHumanReadableFromBytes (capPayloadBytes bytes)"

section \<open>What is stored\<close>

text \<open>The cut goes back from byte 512 to a byte that starts a character.\<close>

fun cut_point :: "byte list \<Rightarrow> nat \<Rightarrow> nat" where
  "cut_point bytes 0 = 0"
| "cut_point bytes (Suc n) = (if is_cont (bytes ! Suc n) then cut_point bytes n else Suc n)"

definition capStoredDisplay :: "js_text \<Rightarrow> js_text" where
  "capStoredDisplay text =
     (let bytes = utf8_encode text
      in if length bytes \<le> 512 then text
         else case decodeUtf8 (take (cut_point bytes 512) bytes) of Some t \<Rightarrow> t | None \<Rightarrow> [])"

definition js_join :: "js_text \<Rightarrow> js_text list \<Rightarrow> js_text" where
  "js_join sep ts = (case ts of [] \<Rightarrow> [] | t # r \<Rightarrow> t @ concat (map (\<lambda>x. sep @ x) r))"

definition vout_segment :: "chain_vout \<Rightarrow> js_text option" where
  "vout_segment v =
     (case payloadBytesFromVout v of
        None \<Rightarrow> None
      | Some payload \<Rightarrow>
          (case decodeOpReturnPayload payload of
             Some (c # cs) \<Rightarrow> Some (c # cs)
           | _ \<Rightarrow> None))"

definition extractOpReturnDisplay :: "chain_tx \<Rightarrow> js_text" where
  "extractOpReturnDisplay tx =
     (let segments = List.map_filter vout_segment (vouts tx)
      in if segments = [] then [] else capStoredDisplay (js_join [0x20, 0xb7, 0x20] segments))"

text \<open>The label of a node, with the default width; the ellipsis is one code unit.\<close>

definition truncateOpReturnGraphLabel :: "js_text \<Rightarrow> js_text" where
  "truncateOpReturnGraphLabel text =
     (if length text \<le> 48 then text else take (48 - 1) text @ [0x2026])"

definition txHasOpReturnScriptFields :: "chain_tx \<Rightarrow> bool" where
  "txHasOpReturnScriptFields tx =
     (\<exists>v\<in>set (vouts tx). vout_is_op_return v \<or>
        (case out_script v of Some h \<Rightarrow> take 2 h = ''6a'' | None \<Rightarrow> False))"

text \<open>The column \<open>op_return_display\<close> holds the UTF-8 bytes of the text.\<close>

definition column_text :: "js_text \<Rightarrow> string" where
  "column_text t = map (\<lambda>b. char_of (unat b)) (utf8_encode t)"

end
