(* ===== verification/OpReturnText.thy ===== *)
theory OpReturnText
  imports OpReturnProps
begin

text \<open>
  The texts: UTF-8 round trips on the characters that a readable text can have, the stored text is a
  bounded prefix, and what is displayed is readable.
\<close>

section \<open>UTF-8\<close>

definition bmp :: "nat \<Rightarrow> bool" where
  "bmp p \<longleftrightarrow> p < 0x10000 \<and> \<not> (0xd800 \<le> p \<and> p \<le> 0xdfff)"

lemma byte_cmp:
  assumes "n < 256"
  shows "((of_nat n :: byte) \<le> c) = (n \<le> unat c)" and "(c \<le> (of_nat n :: byte)) = (unat c \<le> n)"
    and "((of_nat n :: byte) = c) = (n = unat c)"
  using unat_of_nat8[OF assms] by (auto simp: word_le_nat_alt)

lemma cont_byte: "n < 64 \<Longrightarrow> between 0x80 (of_nat (0x80 + n)) 0xbf \<and> unat (of_nat (0x80 + n) :: byte) - 0x80 = n"
  using byte_cmp[of "0x80 + n"] unat_of_nat8[of "0x80 + n"] by (simp add: between_def del: of_nat_add)

lemma utf8_of_bmp:
  assumes "bmp p"
  shows "utf8_of p =
    (if p < 0x80 then [of_nat p]
     else if p < 0x800 then [of_nat (0xc0 + p div 64), of_nat (0x80 + p mod 64)]
     else [of_nat (0xe0 + p div 4096), of_nat (0x80 + p div 64 mod 64), of_nat (0x80 + p mod 64)])"
proof -
  have s: "\<not> (0xd800 \<le> p \<and> p \<le> 0xdfff)" and l: "p < 0x10000" using assms by (auto simp: bmp_def)
  from s have "(if 0xd800 \<le> p \<and> p \<le> 0xdfff then 0xfffd else p) = p" by (rule if_not_P)
  then show ?thesis using l unfolding utf8_of_def Let_def by (simp only: if_True)
qed

lemma second_byte:
  assumes "h < 256" and "m < 256" and "h = 0xe0 \<Longrightarrow> 0xa0 \<le> m" and "h = 0xed \<Longrightarrow> m \<le> 0x9f" and "0x80 \<le> m" and "m \<le> 0xbf"
  shows "between (if (of_nat h :: byte) = 0xe0 then 0xa0 else 0x80) (of_nat m) (if (of_nat h :: byte) = 0xed then 0x9f else 0xbf)"
  using byte_cmp[OF assms(1)] byte_cmp[OF assms(2)] assms(3-6) by (simp add: between_def)

lemma base64_digits: "p div 4096 * 4096 + p div 64 mod 64 * 64 + p mod 64 = (p::nat)"
proof -
  have "p div 64 div 64 = p div 4096" by (simp add: div_mult2_eq[symmetric])
  then show ?thesis using div_mult_mod_eq[of p 64] div_mult_mod_eq[of "p div 64" 64] by linarith
qed

lemma utf8_points_of:
  assumes "bmp p"
  shows "utf8_points (utf8_of p @ bs) = map_option (Cons p) (utf8_points bs)"
proof -
  have s: "\<not> (0xd800 \<le> p \<and> p \<le> 0xdfff)" "p < 0x10000" using assms by (auto simp: bmp_def)
  consider (a) "p < 0x80" | (b) "0x80 \<le> p" "p < 0x800" | (c) "0x800 \<le> p" by linarith
  then show ?thesis
  proof cases
    case a
    then show ?thesis using byte_cmp[of p] unat_of_nat8[of p] s by (simp add: utf8_of_def)
  next
    case b
    let ?h = "0xc0 + p div 64" and ?l = "0x80 + p mod 64"
    have n: "?h < 256" "?h \<le> 0xdf" "0xc2 \<le> ?h" "p mod 64 < 64" using b by auto
    have h: "\<not> (of_nat ?h :: byte) \<le> 0x7f" "between 0xc2 (of_nat ?h) 0xdf" "unat (of_nat ?h :: byte) - 0xc0 = p div 64"
      using byte_cmp[OF n(1)] unat_of_nat8[OF n(1)] n by (simp_all add: between_def del: of_nat_add)
    have u: "utf8_of p = [of_nat ?h, of_nat ?l]" using b by (simp add: utf8_of_bmp[OF assms] del: of_nat_add)
    show ?thesis using h cont_byte[OF n(4)] by (simp add: u del: of_nat_add)
  next
    case c
    let ?h = "0xe0 + p div 4096" and ?m = "0x80 + p div 64 mod 64" and ?l = "0x80 + p mod 64"
    have n: "?h < 256" "?h \<le> 0xef" "0xe0 \<le> ?h" "p mod 64 < 64" "p div 64 mod 64 < 64" "?m < 256"
      using c s(2) by auto
    have h: "\<not> (of_nat ?h :: byte) \<le> 0x7f" "\<not> between 0xc2 (of_nat ?h) 0xdf" "between 0xe0 (of_nat ?h) 0xef"
      "unat (of_nat ?h :: byte) - 0xe0 = p div 4096"
      using byte_cmp[OF n(1)] unat_of_nat8[OF n(1)] n by (simp_all add: between_def del: of_nat_add)
    note v = base64_digits[of p]
    have lo: "0xa0 \<le> ?m" if "?h = 0xe0" using that c v n(4) by simp
    have hi: "?m \<le> 0x9f" if "?h = 0xed"
    proof -
      have "p < 0xd800" using that v s(1) by linarith
      then show ?thesis using that v by linarith
    qed
    have m: "between (if (of_nat ?h :: byte) = 0xe0 then 0xa0 else 0x80) (of_nat ?m) (if (of_nat ?h :: byte) = 0xed then 0x9f else 0xbf)"
      by (rule second_byte) (use n lo hi in auto)
    have u: "utf8_of p = [of_nat ?h, of_nat ?m, of_nat ?l]" using c by (simp add: utf8_of_bmp[OF assms] del: of_nat_add)
    show ?thesis
      using h m cont_byte[OF n(4)] cont_byte[OF n(5)] v by (simp add: u del: of_nat_add)
  qed
qed

lemma utf8_points_concat: "list_all bmp ps \<Longrightarrow> utf8_points (concat (map utf8_of ps)) = Some ps"
  by (induction ps) (simp_all add: utf8_points_of)

text \<open>Where a character starts.\<close>

lemma is_cont_of_nat: "k < 256 \<Longrightarrow> is_cont (of_nat k) = (k div 64 = 2)"
proof -
  have "list_all (\<lambda>k. is_cont (of_nat k) = (k div 64 = 2)) [0..<256]" by code_simp
  then show "k < 256 \<Longrightarrow> is_cont (of_nat k) = (k div 64 = 2)" by (simp add: list_all_iff)
qed

lemma utf8_of_cont:
  assumes "bmp p"
  shows "utf8_of p \<noteq> []" and "i < length (utf8_of p) \<Longrightarrow> is_cont (utf8_of p ! i) \<longleftrightarrow> i \<noteq> 0"
proof -
  have s: "\<not> (0xd800 \<le> p \<and> p \<le> 0xdfff)" "p < 0x10000" using assms by (auto simp: bmp_def)
  show "utf8_of p \<noteq> []" by (simp add: utf8_of_def Let_def)
  have tail: "is_cont (of_nat (0x80 + n mod 64))" for n by (subst is_cont_of_nat) simp_all
  have h: "\<not> is_cont (of_nat k)" if "k < 256" "k div 64 \<noteq> 2" for k using is_cont_of_nat that by blast
  consider (a) "p < 0x80" | (b) "0x80 \<le> p" "p < 0x800" | (c) "0x800 \<le> p" by linarith
  then show "is_cont (utf8_of p ! i) \<longleftrightarrow> i \<noteq> 0" if "i < length (utf8_of p)"
  proof cases
    case a
    then have "p div 64 \<noteq> 2" by linarith
    then show ?thesis using a that h[of p] s by (simp add: utf8_of_def)
  next
    case b
    have k: "0xc0 + p div 64 < 256" "(0xc0 + p div 64) div 64 \<noteq> 2" using b by auto
    have u: "utf8_of p = [of_nat (0xc0 + p div 64), of_nat (0x80 + p mod 64)]"
      using b by (simp add: utf8_of_bmp[OF assms] del: of_nat_add)
    show ?thesis using that tail[of p] h[OF k] by (auto simp: u less_Suc_eq simp del: of_nat_add)
  next
    case c
    have k: "0xe0 + p div 4096 < 256" "(0xe0 + p div 4096) div 64 \<noteq> 2" using c s(2) by auto
    have u: "utf8_of p = [of_nat (0xe0 + p div 4096), of_nat (0x80 + p div 64 mod 64), of_nat (0x80 + p mod 64)]"
      using c by (simp add: utf8_of_bmp[OF assms] del: of_nat_add)
    show ?thesis using that tail[of p] tail[of "p div 64"] h[OF k] by (auto simp: u less_Suc_eq simp del: of_nat_add)
  qed
qed

abbreviation enc :: "nat list \<Rightarrow> byte list" where
  "enc ps \<equiv> concat (map utf8_of ps)"

lemma boundary:
  assumes "list_all bmp ps" and "k < length (enc ps)" and "\<not> is_cont (enc ps ! k)"
  shows "\<exists>m. take k (enc ps) = enc (take m ps) \<and> k = length (enc (take m ps))"
  using assms
proof (induction ps arbitrary: k)
  case (Cons p ps)
  let ?l = "length (utf8_of p)"
  show ?case
  proof (cases "k < ?l")
    case True
    then have "k = 0" using Cons.prems utf8_of_cont(2)[of p k] by (simp add: nth_append)
    then show ?thesis by (intro exI[of _ 0]) simp
  next
    case False
    then have "list_all bmp ps" "k - ?l < length (enc ps)" "\<not> is_cont (enc ps ! (k - ?l))"
      using Cons.prems by (auto simp: nth_append)
    from Cons.IH[OF this] obtain m where "take (k - ?l) (enc ps) = enc (take m ps)" "k - ?l = length (enc (take m ps))"
      by blast
    then show ?thesis using False by (intro exI[of _ "Suc m"]) simp
  qed
qed simp

lemma cut_point_le: "cut_point bs n \<le> n \<and> (cut_point bs n = 0 \<or> \<not> is_cont (bs ! cut_point bs n))"
  by (induction n) auto

lemma cut_enc:
  assumes "list_all bmp ps" and "512 < length (enc ps)"
  shows "\<exists>m. take (cut_point (enc ps) 512) (enc ps) = enc (take m ps) \<and> length (enc (take m ps)) \<le> 512"
proof -
  let ?k = "cut_point (enc ps) 512"
  note c = cut_point_le[of "enc ps" 512]
  show ?thesis
  proof (cases "?k = 0")
    case True
    then show ?thesis by (intro exI[of _ 0]) simp
  next
    case False
    then show ?thesis using boundary[OF assms(1), of ?k] c assms(2) by fastforce
  qed
qed

section \<open>Readable units\<close>

definition plain_unit :: "16 word \<Rightarrow> bool" where
  "plain_unit u \<longleftrightarrow> printable_unit u \<and> u \<noteq> 0xfffd"

lemma printable_no_half:
  assumes "printable_unit u"
  shows "\<not> high_half u" and "\<not> low_half u" and "bmp (unat u)"
proof -
  have "unat u < 2 ^ LENGTH(16)" by (rule unsigned_less)
  then show "\<not> high_half u" "\<not> low_half u" "bmp (unat u)"
    using assms by (auto simp: printable_unit_def high_half_def low_half_def bmp_def word_le_nat_alt)
qed

lemma code_points_printable: "list_all printable_unit t \<Longrightarrow> code_points t = map unat t"
proof (induction t rule: code_points.induct)
  case (3 u v t)
  then show ?case using printable_no_half(1)[of u] by simp
qed simp_all

lemma utf16_points: "list_all printable_unit t \<Longrightarrow> concat (map utf16_of (map unat t)) = t"
proof (induction t)
  case (Cons u t)
  then have "unat u < 0x10000" using printable_no_half(3)[of u] by (simp add: bmp_def)
  with Cons show ?case by (simp add: utf16_of_def)
qed simp

lemma encode_printable: "list_all printable_unit t \<Longrightarrow> utf8_encode t = enc (map unat t)"
  by (simp add: utf8_encode_def code_points_printable)

lemma list_all_take: "list_all P xs \<Longrightarrow> list_all P (take n xs)"
  by (auto simp: list_all_iff dest: in_set_takeD)

text \<open>A text without a leading byte order mark survives the encoder and the decoder.\<close>

lemma no_bom:
  assumes "list_all printable_unit t" and "t = [] \<or> hd t \<noteq> 0xfeff"
  shows "stripUtf8Bom (utf8_encode t) = utf8_encode t"
proof (cases t)
  case Nil
  then show ?thesis by (simp add: utf8_encode_def stripUtf8Bom_def)
next
  case (Cons u r)
  let ?bs = "utf8_encode t"
  have b: "list_all bmp (map unat t)" using assms(1) printable_no_half(3) by (simp add: list_all_iff)
  show ?thesis
  proof (rule ccontr)
    assume "stripUtf8Bom ?bs \<noteq> ?bs"
    then have "length ?bs \<ge> 3" "?bs ! 0 = 0xef" "?bs ! 1 = 0xbb" "?bs ! 2 = 0xbf"
      by (auto simp: stripUtf8Bom_def split: if_splits)
    then have "\<exists>rs. ?bs = 0xef # 0xbb # 0xbf # rs"
      by (cases ?bs; cases "tl ?bs"; cases "tl (tl ?bs)") (auto simp: numeral_2_eq_2)
    then obtain rs where rs: "?bs = 0xef # 0xbb # 0xbf # rs" by blast
    have "utf8_points ?bs = map_option (Cons 0xfeff) (utf8_points rs)" by (simp add: rs between_def word_le_nat_alt)
    moreover have "utf8_points ?bs = Some (map unat t)"
      using encode_printable[OF assms(1)] utf8_points_concat[OF b] by simp
    ultimately have "unat u = 0xfeff" using Cons by auto
    then have "u = 0xfeff" by (simp add: word_unat_eq_iff)
    with assms(2) Cons show False by simp
  qed
qed

lemma utf8_text_roundtrip:
  assumes "list_all printable_unit t" and "t = [] \<or> hd t \<noteq> 0xfeff"
  shows "decodeUtf8 (utf8_encode t) = Some t"
proof -
  have "list_all bmp (map unat t)" using assms(1) printable_no_half(3) by (simp add: list_all_iff)
  then show ?thesis
    unfolding decodeUtf8_def no_bom[OF assms] unfolding encode_printable[OF assms(1)]
    by (simp only: utf8_points_concat option.map utf16_points[OF assms(1)])
qed

lemma cap_prefix:
  assumes "list_all printable_unit t" and "t = [] \<or> hd t \<noteq> 0xfeff"
  shows "\<exists>m. capStoredDisplay t = take m t \<and> length (utf8_encode (take m t)) \<le> 512"
proof (cases "length (utf8_encode t) \<le> 512")
  case True
  then show ?thesis by (intro exI[of _ "length t"]) (simp add: capStoredDisplay_def)
next
  case False
  have b: "list_all bmp (map unat t)" using assms(1) printable_no_half(3) by (simp add: list_all_iff)
  obtain m where m: "take (cut_point (utf8_encode t) 512) (utf8_encode t) = enc (take m (map unat t))"
    "length (enc (take m (map unat t))) \<le> 512"
    using cut_enc[OF b] False encode_printable[OF assms(1)] by (metis not_le)
  have p: "list_all printable_unit (take m t)" using assms(1) by (rule list_all_take)
  have e: "enc (take m (map unat t)) = utf8_encode (take m t)" using encode_printable[OF p] by (simp add: take_map)
  have "take m t = [] \<or> hd (take m t) \<noteq> 0xfeff" using assms(2) by (cases t; cases m) auto
  with p have "decodeUtf8 (utf8_encode (take m t)) = Some (take m t)" by (rule utf8_text_roundtrip)
  then show ?thesis using False m e by (intro exI[of _ m]) (simp add: capStoredDisplay_def)
qed

section \<open>What is decoded\<close>

lemma js_trim_ends:
  assumes "js_trim t \<noteq> []"
  shows "\<not> js_space (hd (js_trim t))" and "\<not> js_space (last (js_trim t))"
proof -
  let ?a = "dropWhile js_space t" and ?b = "dropWhile js_space (rev (dropWhile js_space t))"
  have b: "?b \<noteq> []" using assms by (simp add: js_trim_def)
  then have "\<not> js_space (hd ?b)" by (rule hd_dropWhile)
  then show "\<not> js_space (last (js_trim t))" by (simp add: js_trim_def last_rev)
  have a: "?a \<noteq> []" using b by (metis dropWhile.simps(1) rev.simps(1))
  then have h: "\<not> js_space (hd ?a)" by (rule hd_dropWhile)
  have "rev ?a = takeWhile js_space (rev ?a) @ ?b" by simp
  then have "?a = rev ?b @ rev (takeWhile js_space (rev ?a))" by (metis rev_append rev_rev_ident)
  then have "hd ?a = hd (rev ?b)" using b by (metis hd_append2 rev_is_Nil_conv)
  with h show "\<not> js_space (hd (js_trim t))" by (simp add: js_trim_def)
qed

definition display_ok :: "js_text \<Rightarrow> bool" where
  "display_ok t \<longleftrightarrow> 2 \<le> length t \<and> list_all plain_unit t \<and> \<not> js_space (hd t) \<and> \<not> js_space (last t)"

lemma readable_ok: "readable x = Some t \<Longrightarrow> display_ok t"
proof -
  assume "readable x = Some t"
  then obtain y where q: "passesHumanReadableQuality y" "t = js_trim y"
    by (auto simp: readable_def split: option.splits if_splits)
  then have p: "2 \<le> length t" "0xfffd \<notin> set t" "list_all printable_unit t"
    by (auto simp: passesHumanReadableQuality_def Let_def split: if_splits)
  then have "t \<noteq> []" by auto
  with p show ?thesis using js_trim_ends[of y] q(2) by (auto simp: display_ok_def plain_unit_def list_all_iff)
qed

lemma decode_ok: "decodeOpReturnPayload bs = Some t \<Longrightarrow> display_ok t"
proof -
  have o: "or_try x y = Some t \<Longrightarrow> x = Some t \<or> y = Some t" for x y :: "js_text option"
    by (cases x) (simp_all add: or_try_def)
  have u: "utf16_attempt cs = Some t \<Longrightarrow> display_ok t" for cs
    unfolding utf16_attempt_def Let_def by (auto dest!: o readable_ok split: if_splits)
  assume "decodeOpReturnPayload bs = Some t"
  then show ?thesis
    unfolding decodeOpReturnPayload_def decodeHumanReadableFromBytes_def
    by (auto dest!: o readable_ok u split: if_splits)
qed

lemma join_ok:
  assumes "ts \<noteq> []" and "\<And>t. t \<in> set ts \<Longrightarrow> display_ok t"
  shows "list_all plain_unit (js_join [0x20, 0xb7, 0x20] ts) \<and> hd (js_join [0x20, 0xb7, 0x20] ts) \<noteq> 0xfeff"
proof -
  obtain t r where ts: "ts = t # r" using assms(1) by (cases ts) auto
  have t: "display_ok t" "\<And>x. x \<in> set r \<Longrightarrow> display_ok x" using assms(2) ts by auto
  then have "t \<noteq> []" by (auto simp: display_ok_def)
  moreover have "js_space 0xfeff" by (simp add: js_space_def)
  ultimately have "hd t \<noteq> 0xfeff" using t(1) by (auto simp: display_ok_def)
  moreover have "plain_unit 0x20" "plain_unit 0xb7" by (simp_all add: plain_unit_def printable_unit_def word_le_nat_alt)
  ultimately show ?thesis using t \<open>t \<noteq> []\<close>
    by (auto simp: ts js_join_def display_ok_def list_all_iff)
qed

text \<open>
  C21: whatever the data outputs of a transaction contain, the text stored for it is printable (no
  control characters other than tab and line ends, no surrogates, no replacement characters) and has
  at most 512 bytes of UTF-8, cut between characters: it is a prefix of the joined segments.
\<close>

theorem extractOpReturnDisplay_safe:
  "list_all plain_unit (extractOpReturnDisplay tx) \<and>
   length (utf8_encode (extractOpReturnDisplay tx)) \<le> 512 \<and>
   decodeUtf8 (utf8_encode (extractOpReturnDisplay tx)) = Some (extractOpReturnDisplay tx) \<and>
   (\<exists>m. extractOpReturnDisplay tx = take m (js_join [0x20, 0xb7, 0x20] (List.map_filter vout_segment (vouts tx))))"
proof -
  let ?ts = "List.map_filter vout_segment (vouts tx)" let ?j = "js_join [0x20, 0xb7, 0x20] ?ts"
  show ?thesis
  proof (cases "?ts = []")
    case True
    then show ?thesis
      by (auto simp: extractOpReturnDisplay_def utf8_encode_def decodeUtf8_def stripUtf8Bom_def intro: exI[of _ 0])
  next
    case False
    have "display_ok t" if "t \<in> set ?ts" for t
      using that decode_ok by (auto simp: map_filter_def vout_segment_def split: option.splits list.splits)
    note j = join_ok[OF False this]
    have p: "list_all printable_unit ?j" using j by (auto simp: plain_unit_def list_all_iff)
    have h: "?j = [] \<or> hd ?j \<noteq> 0xfeff" using j by blast
    obtain m where m: "capStoredDisplay ?j = take m ?j" "length (utf8_encode (take m ?j)) \<le> 512"
      using cap_prefix[OF p h] by blast
    have "list_all printable_unit (take m ?j)" using p by (rule list_all_take)
    moreover have "take m ?j = [] \<or> hd (take m ?j) \<noteq> 0xfeff" using h by (cases ?j; cases m) auto
    ultimately have "decodeUtf8 (utf8_encode (take m ?j)) = Some (take m ?j)" by (rule utf8_text_roundtrip)
    moreover have "list_all plain_unit (take m ?j)" using j list_all_take by blast
    ultimately show ?thesis using False m by (auto simp: extractOpReturnDisplay_def)
  qed
qed

section \<open>ASCII payloads\<close>

definition ascii_byte :: "byte \<Rightarrow> bool" where
  "ascii_byte b \<longleftrightarrow> 0x20 \<le> b \<and> b \<le> 0x7e"

definition ascii_text :: "byte list \<Rightarrow> js_text" where
  "ascii_text bs = map ucast bs"

lemma ascii_unit:
  assumes "ascii_byte b"
  shows "unat (ucast b :: 16 word) = unat b" and "32 \<le> unat b" and "unat b \<le> 126"
proof -
  show b: "32 \<le> unat b" "unat b \<le> 126" using assms by (simp_all add: ascii_byte_def word_le_nat_alt)
  then show "unat (ucast b :: 16 word) = unat b" by (simp add: unsigned_ucast_eq take_bit_nat_eq_self)
qed

lemma ascii_points: "list_all ascii_byte bs \<Longrightarrow> utf8_points bs = Some (map unat bs)"
proof (induction bs)
  case (Cons b bs)
  then have "b \<le> 0x7f" using ascii_unit(3)[of b] by (simp add: word_le_nat_alt)
  with Cons show ?case by simp
qed simp

lemma ascii_decode:
  assumes "list_all ascii_byte bs"
  shows "decodeUtf8 (stripUtf8Bom bs) = Some (ascii_text bs)"
proof -
  have "stripUtf8Bom bs = bs"
    using assms by (cases bs) (auto simp: stripUtf8Bom_def ascii_byte_def)
  moreover have m: "map (\<lambda>b. utf16_of (unat b)) bs = map (\<lambda>b. [ucast b]) bs"
  proof (intro map_cong refl)
    fix b assume "b \<in> set bs"
    then have "ascii_byte b" using assms by (simp add: list_all_iff)
    then show "utf16_of (unat b) = [ucast b]" using ascii_unit(3)[of b] by (simp add: utf16_of_def)
  qed
  moreover have "concat (map (\<lambda>b. utf16_of (unat b)) bs) = ascii_text bs"
    unfolding m by (simp only: ascii_text_def concat_map_singleton)
  ultimately show ?thesis
    using ascii_points[OF assms] by (simp add: decodeUtf8_def comp_def)
qed

lemma js_trim_id:
  assumes "t \<noteq> []" and "\<not> js_space (hd t)" and "\<not> js_space (last t)"
  shows "js_trim t = t"
proof -
  have "dropWhile js_space t = t" using assms by (cases t) auto
  moreover have "dropWhile js_space (rev t) = rev t" using assms by (cases t rule: rev_cases) auto
  ultimately show ?thesis by (simp add: js_trim_def)
qed

text \<open>
  Readable payloads are displayed as they are. An ASCII payload of 2 to 80 printable bytes that
  does not begin or end with a blank and is no hexadecimal dump of 32 digits or more decodes to
  exactly its characters.
\<close>

lemma ascii_payload_displayed:
  assumes "list_all ascii_byte bs" and "2 \<le> length bs" and "length bs \<le> 80"
    and "hd bs \<noteq> 0x20" and "last bs \<noteq> 0x20"
    and "\<exists>u\<in>set (ascii_text bs). \<not> js_space u \<and> \<not> hex_unit u"
  shows "decodeOpReturnPayload bs = Some (ascii_text bs)"
proof -
  let ?t = "ascii_text bs"
  have ne: "bs \<noteq> []" using assms(2) by auto
  have units: "printable_unit u \<and> u \<noteq> 0xfffd \<and> (js_space u \<longrightarrow> u = 0x20) \<and> unat u \<le> 126 \<and> 32 \<le> unat u" if u: "u \<in> set ?t" for u
  proof -
    obtain b where b: "b \<in> set bs" "u = ucast b" using u by (auto simp: ascii_text_def)
    then have "ascii_byte b" using assms(1) by (simp add: list_all_iff)
    then have n: "32 \<le> unat u" "unat u \<le> 126" using ascii_unit[of b] b(2) by simp_all
    then show ?thesis by (auto simp: printable_unit_def js_space_def word_le_nat_alt word_unat_eq_iff)
  qed
  have uc: "(ucast b :: 16 word) = 0x20 \<longleftrightarrow> b = 0x20" if "b \<in> set bs" for b
    using ascii_unit(1)[of b] that assms(1) by (simp add: list_all_iff word_unat_eq_iff)
  have "?t \<noteq> []" using ne by (simp add: ascii_text_def)
  then have "hd ?t \<in> set ?t" "last ?t \<in> set ?t" by simp_all
  moreover have "hd ?t \<noteq> 0x20" "last ?t \<noteq> 0x20"
    using uc[of "hd bs"] uc[of "last bs"] ne assms(4,5) by (simp_all add: ascii_text_def hd_map last_map)
  ultimately have "\<not> js_space (hd ?t)" "\<not> js_space (last ?t)" using units by blast+
  then have trim: "js_trim ?t = ?t" using ne by (intro js_trim_id) (simp_all add: ascii_text_def)
  have pr: "list_all printable_unit ?t" using units by (simp add: list_all_iff)
  have "filter (\<lambda>p. (p = 9 \<or> p = 10 \<or> p = 13 \<or> 32 \<le> p) \<and> p \<noteq> 0xfffd) (map unat ?t) = map unat ?t"
    by (intro filter_True) (use units in fastforce)
  then have pts: "printable_points ?t = length ?t"
    unfolding printable_points_def code_points_printable[OF pr] by simp
  have "passesHumanReadableQuality ?t"
    unfolding passesHumanReadableQuality_def Let_def trim
    using units pr pts assms(2,6) by (auto simp: ascii_text_def list_all_iff)
  then have "readable (decodeUtf8 (stripUtf8Bom (capPayloadBytes bs))) = Some ?t"
    using assms(3) by (simp add: capPayloadBytes_def ascii_decode[OF assms(1)] readable_def trim)
  then show ?thesis
    using ne assms(3) by (simp add: decodeOpReturnPayload_def decodeHumanReadableFromBytes_def or_try_def capPayloadBytes_def)
qed

lemma ascii_payload_displayed_witness:
  "decodeOpReturnPayload [0x68, 0x69, 0x20, 0x21] = Some (ascii_text [0x68, 0x69, 0x20, 0x21])"
  by (rule ascii_payload_displayed) (simp_all add: ascii_byte_def ascii_text_def js_space_def hex_unit_def)

section \<open>The big-endian test\<close>

definition utf16be_bytes :: "byte list \<Rightarrow> byte list" where
  "utf16be_bytes bs = concat (map (\<lambda>b. [0, b]) bs)"

lemma ascii_pairs_same: "ascii_pairs_be bs = ascii_pairs_le bs"
  by (induction bs rule: ascii_pairs_be.induct) auto

text \<open>A dump of hexadecimal digits in little-endian UTF-16.\<close>

definition dump :: "nat \<Rightarrow> byte list" where
  "dump n = concat (replicate n [0x61, 0])"

lemma dump_facts:
  "length (dump n) = 2 * n" "utf8_points (dump n) = Some (concat (replicate n [0x61, 0]))"
  "ascii_pairs_le (dump n) = n" "units16 True (dump n) = replicate n 0x61" "units16 False (dump n) = replicate n 0x6100"
  by (induction n) (simp_all add: dump_def word_le_nat_alt)

lemma replicate_ends: "0 < n \<Longrightarrow> \<not> js_space u \<Longrightarrow> js_trim (replicate n u) = replicate n u"
  by (rule js_trim_id) simp_all

lemma dump_utf8: "0 < n \<Longrightarrow> readable (decodeUtf8 (stripUtf8Bom (dump n))) = None"
proof -
  assume n: "0 < n"
  let ?t = "concat (replicate n [0x61, 0]) :: js_text"
  have "stripUtf8Bom (dump n) = dump n" using n by (cases n) (simp_all add: stripUtf8Bom_def dump_def)
  moreover have "concat (map utf16_of (concat (replicate n [0x61, 0]))) = ?t" by (induction n) (simp_all add: utf16_of_def)
  ultimately have d: "decodeUtf8 (stripUtf8Bom (dump n)) = Some ?t" by (simp add: decodeUtf8_def dump_facts)
  obtain k where k: "n = Suc k" using n by (cases n) auto
  have "hd ?t = 0x61" by (simp add: k)
  moreover have "last ?t = 0" unfolding k by (induction k) simp_all
  moreover have "?t \<noteq> []" by (simp add: k)
  ultimately have "js_trim ?t = ?t" by (intro js_trim_id) (simp_all add: js_space_def word_le_nat_alt)
  moreover have "\<not> list_all printable_unit ?t" by (simp add: k printable_unit_def word_le_nat_alt)
  ultimately have "\<not> passesHumanReadableQuality ?t" by (auto simp: passesHumanReadableQuality_def Let_def)
  then show ?thesis by (simp add: d readable_def)
qed

lemma dump_shown: "32 \<le> n \<Longrightarrow> n \<le> 40 \<Longrightarrow> decodeOpReturnPayload (dump n) = Some (replicate n 0x6100)"
proof -
  assume n: "32 \<le> n" "n \<le> 40"
  have s: "\<not> js_space 0x61" "\<not> js_space 0x6100" by (simp_all add: js_space_def word_le_nat_alt)
  have le: "\<not> passesHumanReadableQuality (replicate n 0x61)"
    using n by (simp add: passesHumanReadableQuality_def Let_def replicate_ends s list_all_iff hex_unit_def word_le_nat_alt)
  have p: "list_all printable_unit (replicate n 0x6100)" by (simp add: list_all_iff printable_unit_def word_le_nat_alt)
  have "printable_points (replicate n 0x6100) = n"
    unfolding printable_points_def code_points_printable[OF p] by simp
  moreover have "\<not> hex_unit 0x6100" by (simp add: hex_unit_def word_le_nat_alt)
  ultimately have be: "passesHumanReadableQuality (replicate n 0x6100)"
    using n p by (simp add: passesHumanReadableQuality_def Let_def replicate_ends s list_all_iff)
  obtain k where k: "n = Suc k" using n by (cases n) auto
  have b: "dump n ! 0 = 0x61" by (simp add: k dump_def)
  have l: "looksLikeUtf16LeText (dump n)" "looksLikeUtf16BeText (dump n)"
    using n by (simp_all add: looksLikeUtf16LeText_def looksLikeUtf16BeText_def ascii_pairs_same dump_facts)
  have u: "utf16_attempt (dump n) = Some (replicate n 0x6100)"
    using n l b le be by (simp add: utf16_attempt_def Let_def dump_facts decodeUtf16_def readable_def or_try_def replicate_ends s)
  have c: "capPayloadBytes (dump n) = dump n" "dump n \<noteq> []" using n by (simp_all add: capPayloadBytes_def dump_facts flip: length_0_conv)
  show ?thesis
    unfolding decodeOpReturnPayload_def decodeHumanReadableFromBytes_def c(1)
    using c(2) dump_utf8[of n] n u by (simp add: or_try_def)
qed

text \<open>
  The test for big-endian UTF-16 is the test for little-endian UTF-16. Both look for a printable
  first byte and a zero second byte, so a one-byte text in big-endian order is never recognised, and a
  little-endian text that is not readable as such is decoded once more with its bytes swapped: the
  hexadecimal digits of a dump are displayed as ideographs.
\<close>

lemma looksLikeUtf16Be_is_Le:
  "looksLikeUtf16BeText bs = looksLikeUtf16LeText bs \<and>
   \<not> looksLikeUtf16BeText (utf16be_bytes cs) \<and>
   decodeOpReturnPayload (dump 32) = Some (replicate 32 0x6100)"
proof (intro conjI)
  show "looksLikeUtf16BeText bs = looksLikeUtf16LeText bs"
    by (simp add: looksLikeUtf16BeText_def looksLikeUtf16LeText_def ascii_pairs_same)
  have z: "ascii_pairs_be (utf16be_bytes cs) = 0"
    by (induction cs) (simp_all add: utf16be_bytes_def word_le_nat_alt)
  have "length (utf16be_bytes cs) = 2 * length cs" by (induction cs) (simp_all add: utf16be_bytes_def)
  then show "\<not> looksLikeUtf16BeText (utf16be_bytes cs)"
    using z by (auto simp: looksLikeUtf16BeText_def)
  show "decodeOpReturnPayload (dump 32) = Some (replicate 32 0x6100)" by (rule dump_shown) simp_all
qed

end
