(* ===== verification/TxProcess.thy ===== *)
theory TxProcess
  imports ApplyTrace OpReturn PendingPayload ProcessJobs
begin

text \<open>
  What a job does with one transaction: \<open>processTxForHackTrace\<close> of
  \<open>packages/core/src/graph/builder.ts\<close>, and of \<open>packages/core/src/indexer\<close> the files
  \<open>opReturnCapture.ts\<close>, \<open>spendFanout.ts\<close>, \<open>cpuGuard.ts\<close> and \<open>txProcess.ts\<close>.

  The state of a running job is a \<open>world\<close>: the store, the job's budget of chain calls, its CPU guard
  and the number of questions it has asked the environment so far. The environment answers by that
  number, so that equal questions may be answered differently: what a provider returns, how long a
  guarded computation takes, whether the subrequest budget has room (the database driver consumes it
  behind the code's back). An operation that can throw returns \<open>job_error + result\<close> with the state.
\<close>

section \<open>The environment\<close>

record addr_stats =
  as_chainFunded :: int
  as_chainSpent :: int
  as_chainTxCount :: int
  as_mempool :: "(int \<times> int \<times> int option) option" \<comment> \<open>\<open>mempool_stats\<close>: funded, spent, count\<close>

record chain_env =
  ce_router :: router
  ce_quota :: "nat \<Rightarrow> (string \<times> d1_kind \<times> time) option" \<comment> \<open>the database is over its daily quota\<close>
  ce_stats :: "nat \<Rightarrow> address \<Rightarrow> provider \<Rightarrow> addr_stats answer"
  ce_getTx :: "nat \<Rightarrow> txid \<Rightarrow> provider \<Rightarrow> chain_tx answer"
  ce_page :: "nat \<Rightarrow> address \<Rightarrow> txid option \<Rightarrow> provider \<Rightarrow> chain_tx list answer"
  ce_cpu :: "nat \<Rightarrow> int" \<comment> \<open>time of a guarded computation\<close>
  ce_canUse :: "nat \<Rightarrow> bool" \<comment> \<open>\<open>jobSubreq.canUse()\<close>\<close>
  ce_subreqExhausted :: "nat \<Rightarrow> bool" \<comment> \<open>\<open>jobSubreq.exhausted()\<close>\<close>

text \<open>\<open>createCpuGuard\<close>, in units of the clock.\<close>

record guard =
  gu_cap :: int
  gu_used :: int
  gu_tripped :: bool

definition createCpuGuard :: "int \<Rightarrow> guard" where
  "createCpuGuard maxMs = \<lparr>gu_cap = max 0 maxMs, gu_used = 0, gu_tripped = False\<rparr>"

definition createCpuGuardFromConfig :: "int \<Rightarrow> guard option" where
  "createCpuGuardFromConfig maxMs = (if maxMs > 0 then Some (createCpuGuard maxMs) else None)"

definition guard_run :: "int \<Rightarrow> guard \<Rightarrow> guard" where
  "guard_run elapsed g =
     (if gu_cap g \<le> 0 then g
      else let used = gu_used g + elapsed
           in g\<lparr>gu_used := used, gu_tripped := gu_tripped g \<or> used \<ge> gu_cap g\<rparr>)"

definition guard_exceeded :: "guard \<Rightarrow> bool" where
  "guard_exceeded g \<longleftrightarrow> gu_cap g > 0 \<and> gu_used g \<ge> gu_cap g"

record world =
  w_store :: store
  w_asked :: nat
  w_budget :: chain_budget
  w_guard :: "guard option"

definition on_store :: "(store \<Rightarrow> store) \<Rightarrow> world \<Rightarrow> world" where
  "on_store f w = w\<lparr>w_store := f (w_store w)\<rparr>"

definition cpu_exceeded :: "world \<Rightarrow> bool" where
  "cpu_exceeded w = (case w_guard w of Some g \<Rightarrow> guard_exceeded g | None \<Rightarrow> False)"

text \<open>The answers of a guard to \<open>applyHackTraceEdgesChunk\<close>, which runs nothing under it.\<close>

definition guard_answers :: "guard \<Rightarrow> cpu_guard" where
  "guard_answers g = \<lparr>g_exceeded = guard_exceeded g, g_tripped = gu_tripped g\<rparr>"

definition ask_canUse :: "chain_env \<Rightarrow> world \<Rightarrow> bool \<times> world" where
  "ask_canUse env w = (ce_canUse env (w_asked w), w\<lparr>w_asked := Suc (w_asked w)\<rparr>)"

definition ask_exhausted :: "chain_env \<Rightarrow> world \<Rightarrow> bool \<times> world" where
  "ask_exhausted env w = (ce_subreqExhausted env (w_asked w), w\<lparr>w_asked := Suc (w_asked w)\<rparr>)"

definition not_ready_message :: "not_ready \<Rightarrow> string" where
  "not_ready_message r = (case r of
     Pacing \<Rightarrow> ''Provider pacing: next call allowed at ''
   | Provider_backoff \<Rightarrow> ''All providers in backoff until '')"

text \<open>The router's result as a value or a thrown error; the text of an instant is left out.\<close>

fun routed_result :: "'a routed \<Rightarrow> job_error + 'a" where
  "routed_result (Routed x) = Inr x"
| "routed_result (Not_ready t r) = Inl (Rate_limit_not_ready (not_ready_message r) t)"
| "routed_result Rate_limit_error = Inl (Rate_limit ''rate limit'')"
| "routed_result (Route_failed m) = Inl (Other_error m)"

text \<open>
  The router reads the scheduler's row first; that read is where the model lets the database refuse
  for the day (\<open>D1QuotaExceededError\<close>). Every other database operation succeeds.
\<close>

definition call_provider ::
  "chain_env \<Rightarrow> (provider \<Rightarrow> 'a answer) \<Rightarrow> world \<Rightarrow> (job_error + 'a) \<times> world" where
  "call_provider env net w =
     (case ce_quota env (w_asked w) of
        Some (m, k, t) \<Rightarrow> (Inl (D1_quota m k t), w\<lparr>w_asked := Suc (w_asked w)\<rparr>)
      | None \<Rightarrow>
          (case withProvider (ce_router env) net (w_store w) of
             (r, called, s) \<Rightarrow> (routed_result r, w\<lparr>w_store := s, w_asked := Suc (w_asked w)\<rparr>)))"

definition getTx :: "chain_env \<Rightarrow> txid \<Rightarrow> world \<Rightarrow> (job_error + chain_tx) \<times> world" where
  "getTx env t w = call_provider env (ce_getTx env (w_asked w) t) w"

definition getAddressStats :: "chain_env \<Rightarrow> address \<Rightarrow> world \<Rightarrow> (job_error + addr_stats) \<times> world" where
  "getAddressStats env a w = call_provider env (ce_stats env (w_asked w) a) w"

definition fetchAddressTxPage ::
  "chain_env \<Rightarrow> address \<Rightarrow> txid option \<Rightarrow> world \<Rightarrow> (job_error + chain_tx list) \<times> world" where
  "fetchAddressTxPage env a cursor w = call_provider env (ce_page env (w_asked w) a (truthy cursor)) w"

section \<open>Capturing the text of a transaction\<close>

definition blockTimeIso :: "chain_tx \<Rightarrow> time option" where
  "blockTimeIso tx =
     (case ctx_status tx of
        None \<Rightarrow> None
      | Some st \<Rightarrow> (case block_time st of
                      Some t \<Rightarrow> if t = 0 then None else Some (t * 1000)
                    | None \<Rightarrow> None))"

definition blockHeightOf :: "chain_tx \<Rightarrow> int option" where
  "blockHeightOf tx = (case ctx_status tx of None \<Rightarrow> None | Some st \<Rightarrow> block_height st)"

text \<open>
  \<open>CaptureOpReturnOpts\<close> without the transaction; the budget and the guard are those of the job when
  they are passed at all.
\<close>

record capture_opts =
  co_allowGetTx :: "bool option"
  co_budget :: bool
  co_subreq :: bool
  co_guard :: bool

definition no_capture_opts :: capture_opts where
  "no_capture_opts = \<lparr>co_allowGetTx = None, co_budget = False, co_subreq = False, co_guard = False\<rparr>"

text \<open>The conditions of \<open>canFetch\<close> are asked in order.\<close>

definition can_fetch :: "chain_env \<Rightarrow> capture_opts \<Rightarrow> world \<Rightarrow> bool \<times> world" where
  "can_fetch env c w =
     (if co_allowGetTx c \<noteq> Some True \<or> (co_budget c \<and> \<not> canCall (w_budget w)) then (False, w)
      else
        let (ok, w1) = (if co_subreq c then ask_canUse env w else (True, w))
        in (ok \<and> \<not> (co_guard c \<and> cpu_exceeded w1), w1))"

text \<open>The transaction to read: the given one, or the provider's when there is a reason and room.\<close>

definition capture_source ::
  "chain_env \<Rightarrow> txid \<Rightarrow> capture_opts \<Rightarrow> chain_tx option \<Rightarrow> world
   \<Rightarrow> (job_error + chain_tx option \<times> int) \<times> world" where
  "capture_source env t c tx w =
     (if (case tx of None \<Rightarrow> True | Some x \<Rightarrow> \<not> txHasOpReturnScriptFields x \<and> co_allowGetTx c = Some True)
      then
        let (ok, w1) = can_fetch env c w
        in if ok
           then (case getTx env t w1 of
                   (Inl e, w2) \<Rightarrow> (Inl e, w2)
                 | (Inr x, w2) \<Rightarrow>
                     (Inr (Some x, 1),
                      if co_budget c then w2\<lparr>w_budget := consumeCall (w_budget w2)\<rparr> else w2))
           else (Inr (tx, 0), w1)
      else (Inr (tx, 0), w))"

definition capture_upsert :: "txid \<Rightarrow> chain_tx \<Rightarrow> tx_row option \<Rightarrow> tx_upsert" where
  "capture_upsert t tx existing =
     \<lparr>tu_txid = t,
      tu_blockHeight = coalesce (blockHeightOf tx) (case existing of Some r \<Rightarrow> blockHeight r | None \<Rightarrow> None),
      tu_blockTime = coalesce (case existing of Some r \<Rightarrow> blockTime r | None \<Rightarrow> None) (blockTimeIso tx),
      tu_fee = coalesce (ctx_fee tx) (case existing of Some r \<Rightarrow> feeSats r | None \<Rightarrow> None),
      tu_opReturn = Some (Some (column_text (extractOpReturnDisplay tx)))\<rparr>"

definition has_display :: "tx_row option \<Rightarrow> bool" where
  "has_display r = (case r of Some x \<Rightarrow> opReturnDisplay x \<noteq> None | None \<Rightarrow> False)"

definition captureOpReturnForTx ::
  "chain_env \<Rightarrow> txid \<Rightarrow> capture_opts \<Rightarrow> chain_tx option \<Rightarrow> world \<Rightarrow> (job_error + bool \<times> int) \<times> world" where
  "captureOpReturnForTx env t c tx0 w =
     (let existing = getTransaction t (w_store w)
      in if has_display existing then (Inr (False, 0), w)
         else
           (case capture_source env t c tx0 w of
              (Inl e, w1) \<Rightarrow> (Inl e, w1)
            | (Inr (None, n), w1) \<Rightarrow> (Inr (False, n), w1)
            | (Inr (Some tx, n), w1) \<Rightarrow>
                (Inr (True, n), on_store (upsertTransaction (capture_upsert t tx existing)) w1)))"

section \<open>Tracing a transaction\<close>

record proc_opts =
  po_tx :: "chain_tx option"
  po_spendingAddress :: "address option"
  po_spendingHop :: "int option"
  po_capture :: capture_opts
  po_index :: "int option"
  po_total :: "int option"
  po_flat :: "edge_draft list option"
  po_maxGraphEdges :: "int option"
  po_maxEdgesPerJob :: "int option"
  po_minExpand :: "int option"
  po_minVictim :: "int option"
  po_guarded :: bool

record trace_result =
  tr_complete :: bool
  tr_nextIndex :: int
  tr_applied :: int
  tr_total :: int
  tr_flat :: "edge_draft list option"
  tr_cpuTripped :: "bool option"
  tr_captureCalls :: int

definition positive :: "int option \<Rightarrow> int option" where
  "positive v = (case v of Some n \<Rightarrow> if n > 0 then Some n else None | None \<Rightarrow> None)"

definition tx_row_of :: "txid \<Rightarrow> chain_tx \<Rightarrow> tx_upsert" where
  "tx_row_of t tx = \<lparr>tu_txid = t, tu_blockHeight = blockHeightOf tx, tu_blockTime = blockTimeIso tx,
     tu_fee = ctx_fee tx, tu_opReturn = None\<rparr>"

text \<open>
  The edges to apply: computed under the guard, or those cached with a trace in progress. The third
  component is the total that stands in for an empty list.
\<close>

definition trace_compute ::
  "chain_env \<Rightarrow> chain_tx \<Rightarrow> address list \<Rightarrow> proc_opts \<Rightarrow> world
   \<Rightarrow> (edge_draft list \<times> address list \<times> int) \<times> world" where
  "trace_compute env tx hackers op w =
     (let computed = computeHackTraceEdges tx hackers
            \<lparr>t_spendingAddress = po_spendingAddress op, t_spendingHop = po_spendingHop op,
             t_maxEdges = positive (po_maxGraphEdges op)\<rparr>;
          flat = flattenHackTraceEdges computed;
          w1 = (case (po_guarded op, w_guard w) of
                  (True, Some g) \<Rightarrow> w\<lparr>w_guard := Some (guard_run (ce_cpu env (w_asked w)) g), w_asked := Suc (w_asked w)\<rparr>
                | _ \<Rightarrow> w)
      in ((flat, victimAddresses computed, int (length flat)), w1))"

definition trace_input ::
  "chain_env \<Rightarrow> chain_tx \<Rightarrow> address list \<Rightarrow> proc_opts \<Rightarrow> world
   \<Rightarrow> (edge_draft list \<times> address list \<times> int) \<times> world" where
  "trace_input env tx hackers op w =
     (if or_else (po_index op) 0 > 0 \<and> or_else (po_flat op) [] \<noteq> []
      then (let flat = or_else (po_flat op) []
            in ((flat, [], or_else (po_total op) (int (length flat))), w))
      else trace_compute env tx hackers op w)"

definition chunk_opts :: "address list \<Rightarrow> proc_opts \<Rightarrow> guard option \<Rightarrow> apply_opts" where
  "chunk_opts hackers op g =
     \<lparr>ap_start = Some (or_else (po_index op) 0), ap_maxEdges = positive (po_maxEdgesPerJob op),
      ap_guard = (if po_guarded op then map_option guard_answers g else None), ap_flagged = Some hackers,
      ap_minExpand = Some (or_else (po_minExpand op) 100000),
      ap_minVictim = Some (or_else (po_minVictim op) 100000)\<rparr>"

definition trace_tx ::
  "chain_env \<Rightarrow> txid \<Rightarrow> chain_tx \<Rightarrow> address list \<Rightarrow> proc_opts \<Rightarrow> world \<Rightarrow> (job_error + trace_result) \<times> world" where
  "trace_tx env t tx hackers op w =
     (let w1 = on_store (upsertTransaction (tx_row_of t tx)) w;
          ((flat, victims, total0), w2) = trace_input env tx hackers op w1;
          (r, s3) = applyHackTraceEdgesChunk t (blockTimeIso tx) flat victims
                      (chunk_opts hackers op (w_guard w2)) (w_store w2)
      in case captureOpReturnForTx env t
                ((po_capture op)\<lparr>co_guard := co_guard (po_capture op) \<or> po_guarded op\<rparr>) (Some tx) (w2\<lparr>w_store := s3\<rparr>) of
           (Inl e, w4) \<Rightarrow> (Inl e, w4)
         | (Inr (captured, n), w4) \<Rightarrow>
             (Inr \<lparr>tr_complete = complete r, tr_nextIndex = nextEdgeIndex r, tr_applied = edgesApplied r,
                   tr_total = (if traceEdgeTotal r = 0 then total0 else traceEdgeTotal r),
                   tr_flat = (if complete r then None else Some flat),
                   tr_cpuTripped = cpuGuardTripped r, tr_captureCalls = n\<rparr>, w4))"

definition processTxForHackTrace ::
  "chain_env \<Rightarrow> txid \<Rightarrow> address list \<Rightarrow> proc_opts \<Rightarrow> world \<Rightarrow> (job_error + trace_result) \<times> world" where
  "processTxForHackTrace env t hackers op w =
     (case po_tx op of
        Some tx \<Rightarrow> trace_tx env t tx hackers op w
      | None \<Rightarrow> (case getTx env t w of
                   (Inl e, w1) \<Rightarrow> (Inl e, w1)
                 | (Inr tx, w1) \<Rightarrow> trace_tx env t tx hackers op w1))"

section \<open>Spends with many outputs\<close>

record fanout_meta =
  fm_txid :: txid
  fm_outputCount :: int
  fm_totalOut :: int
  fm_topOutputs :: "(address \<times> int) list"

definition aggregateFanoutOutputs :: "chain_tx \<Rightarrow> address \<Rightarrow> int \<times> int \<times> (address \<times> int) list" where
  "aggregateFanoutOutputs tx spender =
     (let byAddress = fold (\<lambda>v m.
            let value = or_else (out_value v) 0
            in case truthy (out_address v) of
                 Some a \<Rightarrow> if a = spender \<or> value \<le> 0 then m else map_add a value m
               | None \<Rightarrow> m) (vouts tx) []
      in (uniqueOutputAddresses tx, sum_list (map snd byAddress), sort_key (\<lambda>p. - snd p) byAddress))"

definition buildFanoutMeta :: "chain_tx \<Rightarrow> address \<Rightarrow> config \<Rightarrow> fanout_meta" where
  "buildFanoutMeta tx spender cfg =
     (case aggregateFanoutOutputs tx spender of (n, tot, outs) \<Rightarrow>
        \<lparr>fm_txid = ctx_txid tx, fm_outputCount = n, fm_totalOut = tot,
         fm_topOutputs = js_slice outs 0 (spendFanoutTopK cfg)\<rparr>)"

definition fanout_json :: "fanout_meta \<Rightarrow> json" where
  "fanout_json m = JObj [(''txid'', JStr (fm_txid m)), (''outputCount'', JNum (fm_outputCount m)),
     (''totalOutSats'', JNum (fm_totalOut m)),
     (''topOutputs'', JArr (map (\<lambda>(a, n). JObj [(''address'', JStr a), (''sats'', JNum n)]) (fm_topOutputs m)))]"

definition applySpendFanoutSummary ::
  "chain_tx \<Rightarrow> address \<Rightarrow> int \<Rightarrow> config \<Rightarrow> store \<Rightarrow> fanout_meta \<times> store" where
  "applySpendFanoutSummary tx spender hop cfg s =
     (let meta = buildFanoutMeta tx spender cfg;
          s1 = upsertTransaction (tx_row_of (ctx_txid tx) tx) s
      in case fm_topOutputs meta of
           [] \<Rightarrow> (meta, s1)
         | (primary, n) # rest \<Rightarrow>
             let existing = getDownstreamExpandContext [primary] s1 primary;
                 inbound = (case existing of Some (x, i) \<Rightarrow> i | None \<Rightarrow> 0) + fm_totalOut meta;
                 s2 = upsertAddress ((plain_upsert primary)\<lparr>u_role := Some Downstream,
                        u_source := Some ''derived'', u_hop := Some (Some (hop + 1)),
                        u_expandStatus := expandStatusToWrite (map_option fst existing) inbound (minExpandSats cfg)\<rparr>) s1;
                 s3 = (if fm_totalOut meta < minExpandSats cfg then addInboundSats primary (fm_totalOut meta) s2
                       else upsertEdge \<lparr>eu_from = spender, eu_to = primary, eu_txid = ctx_txid tx,
                              eu_amount = fm_totalOut meta, eu_blockTime = blockTimeIso tx,
                              eu_hop = Some (hop + 1), eu_direction = Out_from_hacker,
                              eu_edgeKind = Some ''spend_fanout'', eu_fanoutMeta = Some (fanout_json meta)\<rparr> s2)
             in (meta, setExpandProfile spender ''spend_fanout'' None (Some (Some (fanout_json meta))) s3))"

definition spendFanoutTxFromPage :: "pending_tx \<Rightarrow> chain_tx option" where
  "spendFanoutTxFromPage entry =
     (case pageEntry entry of
        Some p \<Rightarrow> if hasPageVinVout p then Some (pageEntryToChainTxDetail p) else None
      | None \<Rightarrow> None)"

section \<open>A classified transaction\<close>

record trace_state =
  ts_txid :: "txid option"
  ts_index :: "int option"
  ts_pending :: "bool option"
  ts_total :: "int option"
  ts_flat :: "edge_draft list option"

definition no_trace :: trace_state where
  "no_trace = \<lparr>ts_txid = None, ts_index = None, ts_pending = None, ts_total = None, ts_flat = None\<rparr>"

record classified_opts =
  cl_expandProfile :: "string option"
  cl_skipIfIndexed :: "bool option"
  cl_guarded :: bool
  cl_capture :: "capture_opts option"

record classified_result =
  pr_state :: trace_state
  pr_continued :: bool
  pr_calls :: int
  pr_cpuTripped :: "bool option"

definition finished :: "int \<Rightarrow> classified_result" where
  "finished n = \<lparr>pr_state = no_trace, pr_continued = False, pr_calls = n, pr_cpuTripped = None\<rparr>"

definition trace_active :: "trace_state \<Rightarrow> txid \<Rightarrow> bool" where
  "trace_active st t \<longleftrightarrow> ts_pending st = Some True \<and> ts_txid st = Some t"

text \<open>
  \<open>{ allowGetTx: false, ...opts?.captureOpReturn }\<close>: the fields of the job's options win, its
  \<open>allowGetTx\<close> included.
\<close>

definition page_capture_opts :: "classified_opts \<Rightarrow> capture_opts" where
  "page_capture_opts cl =
     (case cl_capture cl of Some c \<Rightarrow> c | None \<Rightarrow> no_capture_opts\<lparr>co_allowGetTx := Some False\<rparr>)"

text \<open>The options with which a fan-out and a trace capture: the guard is the caller's.\<close>

definition tx_capture_opts :: "classified_opts \<Rightarrow> bool option \<Rightarrow> capture_opts" where
  "tx_capture_opts cl def =
     (let c = or_else (cl_capture cl) no_capture_opts
      in c\<lparr>co_allowGetTx := (case co_allowGetTx c of Some b \<Rightarrow> Some b | None \<Rightarrow> def), co_guard := cl_guarded cl\<rparr>)"

definition traceOptions ::
  "config \<Rightarrow> trace_state \<Rightarrow> txid \<Rightarrow> chain_tx \<Rightarrow> address \<Rightarrow> int \<Rightarrow> classified_opts \<Rightarrow> proc_opts" where
  "traceOptions cfg st t tx a hop cl =
     (let active = trace_active st t
      in \<lparr>po_tx = Some tx, po_spendingAddress = Some a, po_spendingHop = Some hop,
          po_capture = tx_capture_opts cl None,
          po_index = Some (if active then or_else (ts_index st) 0 else 0),
          po_total = (if active then ts_total st else None),
          po_flat = (if active then ts_flat st else None),
          po_maxGraphEdges = (if maxGraphEdgesPerTx cfg > 0 then Some (maxGraphEdgesPerTx cfg) else None),
          po_maxEdgesPerJob = (if maxEdgesPerJob cfg > 0 then Some (maxEdgesPerJob cfg) else None),
          po_minExpand = Some (minExpandSats cfg), po_minVictim = Some (minVictimIngestSats cfg),
          po_guarded = cl_guarded cl\<rparr>)"

definition skipGetTxOpts :: "int \<Rightarrow> address \<Rightarrow> config \<Rightarrow> classified_opts \<Rightarrow> pending_tx \<Rightarrow> skip_opts" where
  "skipGetTxOpts hop a cfg cl entry =
     \<lparr>so_expandProfile = cl_expandProfile cl, so_pageEntry = pageEntry entry, so_hop = Some hop,
      so_traceHackerReceives = Some (traceFlaggedHackerReceives cfg), so_address = Some a\<rparr>"

definition page_has_asm :: "pending_tx \<Rightarrow> bool" where
  "page_has_asm entry = (case pageEntry entry of Some p \<Rightarrow> pageEntryHasOpReturnAsm p | None \<Rightarrow> False)"

definition patchOpReturnFromPageIfNeeded ::
  "chain_env \<Rightarrow> txid \<Rightarrow> pending_tx \<Rightarrow> classified_opts \<Rightarrow> world \<Rightarrow> (job_error + unit) \<times> world" where
  "patchOpReturnFromPageIfNeeded env t entry cl w =
     (if \<not> page_has_asm entry \<or> has_display (getTransaction t (w_store w)) then (Inr (), w)
      else case captureOpReturnForTx env t (page_capture_opts cl)
                  (map_option pageEntryToChainTxDetail (pageEntry entry)) w of
             (Inl e, w1) \<Rightarrow> (Inl e, w1)
           | (Inr x, w1) \<Rightarrow> (Inr (), w1))"

definition txInvolvesSpend :: "chain_tx \<Rightarrow> address \<Rightarrow> bool" where
  "txInvolvesSpend tx a = (\<exists>i\<in>set (vins tx). vin_address i = Some a)"

text \<open>The capture from a page or a fetched transaction that ends the processing of an entry.\<close>

definition capture_and_finish ::
  "chain_env \<Rightarrow> txid \<Rightarrow> capture_opts \<Rightarrow> chain_tx option \<Rightarrow> int \<Rightarrow> world \<Rightarrow> (job_error + classified_result) \<times> world" where
  "capture_and_finish env t c tx calls w =
     (case captureOpReturnForTx env t c tx w of
        (Inl e, w1) \<Rightarrow> (Inl e, w1)
      | (Inr x, w1) \<Rightarrow> (Inr (finished calls), w1))"

text \<open>The trace itself and what the caller is told of it.\<close>

definition trace_stage ::
  "chain_env \<Rightarrow> config \<Rightarrow> address \<Rightarrow> int \<Rightarrow> pending_tx \<Rightarrow> address list \<Rightarrow> trace_state \<Rightarrow> classified_opts
   \<Rightarrow> chain_tx \<Rightarrow> int \<Rightarrow> world \<Rightarrow> (job_error + classified_result) \<times> world" where
  "trace_stage env cfg a hop entry hackers st cl tx calls w =
     (let t = c_txid entry; active = trace_active st t;
          deposit = shouldTraceHackerReceive (classified_tx.truncate entry) cfg (skipGetTxOpts hop a cfg cl entry)
      in if \<not> active \<and> isSubFloorSpendFromPage (Some tx) a (minExpandSats cfg)
         then capture_and_finish env t (page_capture_opts cl) (Some tx) calls w
         else if \<not> active \<and> hop = 0 \<and> isSubFloorReceiveFromPage (Some tx) a (minVictimIngestSats cfg)
         then capture_and_finish env t (page_capture_opts cl) (Some tx) calls w
         else if \<not> active \<and> \<not> deposit \<and> \<not> txInvolvesSpend tx a then (Inr (finished calls), w)
         else
           case processTxForHackTrace env t hackers (traceOptions cfg st t tx a hop cl) w of
             (Inl e, w1) \<Rightarrow> (Inl e, w1)
           | (Inr r, w1) \<Rightarrow>
               if \<not> tr_complete r
               then (Inr \<lparr>pr_state = \<lparr>ts_txid = Some t, ts_index = Some (tr_nextIndex r), ts_pending = Some True,
                             ts_total = Some (tr_total r), ts_flat = tr_flat r\<rparr>,
                          pr_continued = True, pr_calls = calls, pr_cpuTripped = tr_cpuTripped r\<rparr>, w1)
               else (Inr \<lparr>pr_state = no_trace, pr_continued = False, pr_calls = calls + tr_captureCalls r,
                          pr_cpuTripped = tr_cpuTripped r\<rparr>, w1))"

definition fanout_spend :: "config \<Rightarrow> address \<Rightarrow> classified_tx \<Rightarrow> chain_tx option \<Rightarrow> bool" where
  "fanout_spend cfg a e page \<longleftrightarrow>
     isSpendFanout e a cfg page \<and> \<not> isSubFloorSpendFromPage page a (minExpandSats cfg)"

text \<open>The transaction from the page, or from a provider, with the fan-out test on what it returned.\<close>

definition detail_stage ::
  "chain_env \<Rightarrow> config \<Rightarrow> address \<Rightarrow> int \<Rightarrow> pending_tx \<Rightarrow> address list \<Rightarrow> trace_state \<Rightarrow> classified_opts
   \<Rightarrow> world \<Rightarrow> (job_error + classified_result) \<times> world" where
  "detail_stage env cfg a hop entry hackers st cl w =
     (case (case pageEntry entry of Some p \<Rightarrow> if hasPageVinVout p then Some (pageEntryToChainTxDetail p) else None
            | None \<Rightarrow> None) of
        Some tx \<Rightarrow> trace_stage env cfg a hop entry hackers st cl tx 0 w
      | None \<Rightarrow>
          (case getTx env (c_txid entry) w of
             (Inl e, w1) \<Rightarrow> (Inl e, w1)
           | (Inr tx, w1) \<Rightarrow>
               let fe = (classified_tx.truncate entry)\<lparr>isSpend := Some (txInvolvesSpend tx a),
                          voutCount := Some (int (length (vouts tx))),
                          outputAddressCount := Some (uniqueOutputAddresses tx)\<rparr>
               in if fanout_spend cfg a fe (Some tx)
                  then (Inr (finished 1), on_store (\<lambda>s. snd (applySpendFanoutSummary tx a hop cfg s)) w1)
                  else trace_stage env cfg a hop entry hackers st cl tx 1 w1))"

definition fetch_stage ::
  "chain_env \<Rightarrow> config \<Rightarrow> address \<Rightarrow> int \<Rightarrow> pending_tx \<Rightarrow> address list \<Rightarrow> trace_state \<Rightarrow> classified_opts
   \<Rightarrow> world \<Rightarrow> (job_error + classified_result) \<times> world" where
  "fetch_stage env cfg a hop entry hackers st cl w =
     (let t = c_txid entry; e = classified_tx.truncate entry
      in if shouldSkipGetTx e a cfg (skipGetTxOpts hop a cfg cl entry)
         then (case patchOpReturnFromPageIfNeeded env t entry cl w of
                 (Inl er, w1) \<Rightarrow> (Inl er, w1)
               | (Inr u, w1) \<Rightarrow> (Inr (finished 0), w1))
         else
           case (if fanout_spend cfg a e (pageEntry entry) then spendFanoutTxFromPage entry else None) of
             Some pageTx \<Rightarrow>
               capture_and_finish env t (tx_capture_opts cl (Some False)) (Some pageTx) 0
                 (on_store (\<lambda>s. snd (applySpendFanoutSummary pageTx a hop cfg s)) w)
           | None \<Rightarrow> detail_stage env cfg a hop entry hackers st cl w)"

text \<open>An indexed transaction is left alone, but for a text that its page shows and its row lacks.\<close>

definition indexed_stage ::
  "chain_env \<Rightarrow> pending_tx \<Rightarrow> classified_opts \<Rightarrow> tx_row \<Rightarrow> world \<Rightarrow> (job_error + classified_result) \<times> world" where
  "indexed_stage env entry cl row w =
     (if page_has_asm entry \<and> opReturnDisplay row = None
      then capture_and_finish env (c_txid entry) (page_capture_opts cl)
             (map_option pageEntryToChainTxDetail (pageEntry entry)) 0 w
      else (Inr (finished 0), w))"

definition processClassifiedPendingTx ::
  "chain_env \<Rightarrow> config \<Rightarrow> address \<Rightarrow> int \<Rightarrow> pending_tx \<Rightarrow> address list \<Rightarrow> trace_state \<Rightarrow> classified_opts
   \<Rightarrow> world \<Rightarrow> (job_error + classified_result) \<times> world" where
  "processClassifiedPendingTx env cfg a hop entry hackers st cl w =
     (let t = c_txid entry; active = trace_active st t; receive = (\<not> active \<and> isSpend entry = Some False)
      in case (if receive then patchOpReturnFromPageIfNeeded env t entry cl w else (Inr (), w)) of
           (Inl e, w1) \<Rightarrow> (Inl e, w1)
         | (Inr u, w1) \<Rightarrow>
             if receive \<and> shouldSkipGetTx (classified_tx.truncate entry) a cfg (skipGetTxOpts hop a cfg cl entry)
             then (Inr (finished 0), w1)
             else
               case (if \<not> active \<and> cl_skipIfIndexed cl \<noteq> Some False then getTransaction t (w_store w1) else None) of
                 Some row \<Rightarrow> indexed_stage env entry cl row w1
               | None \<Rightarrow> fetch_stage env cfg a hop entry hackers st cl w1)"

end
