(* ===== verification/TxProcessProps.thy ===== *)
theory TxProcessProps
  imports TxProcess TraceProps
begin

text \<open>
  A transaction is traced in chunks over several jobs: the state between the jobs carries the whole
  list of edges and the index, every job goes on where the last one stopped, and an error after the
  transaction has been indexed loses the rest.
\<close>

section \<open>What a call leaves alone\<close>

definition graph_of :: "world \<Rightarrow> edge_row list \<times> addr_row list \<times> job list" where
  "graph_of w = (edges (w_store w), addresses (w_store w), jobs (w_store w))"

lemma upsertTransaction_frame [simp]:
  "edges (upsertTransaction u s) = edges s" "addresses (upsertTransaction u s) = addresses s"
  "jobs (upsertTransaction u s) = jobs s" "sched (upsertTransaction u s) = sched s"
  by (simp_all add: upsertTransaction_def)

lemma recordApi_frame:
  "edges (recordApiThreshold p t n s) = edges s" "addresses (recordApiThreshold p t n s) = addresses s"
  "jobs (recordApiThreshold p t n s) = jobs s" "transactions (recordApiThreshold p t n s) = transactions s"
  by (cases p; simp add: recordApiThreshold_def ensureApiThresholdDay_def Let_def)+

lemma markCalled_frame:
  "edges (markCalled rt p b s) = edges s" "addresses (markCalled rt p b s) = addresses s"
  "jobs (markCalled rt p b s) = jobs s" "transactions (markCalled rt p b s) = transactions s"
  by (simp_all add: markCalled_def)

lemma clearStrike_frame:
  "edges (clearProviderStrike p s) = edges s" "addresses (clearProviderStrike p s) = addresses s"
  "jobs (clearProviderStrike p s) = jobs s" "transactions (clearProviderStrike p s) = transactions s"
  by (cases p; simp add: clearProviderStrike_def)+

lemma try_providers_frame:
  "try_providers rt net ps l s = (r, c, s') \<Longrightarrow>
     edges s' = edges s \<and> addresses s' = addresses s \<and> jobs s' = jobs s \<and> transactions s' = transactions s"
proof (induction ps arbitrary: l s r c s')
  case Nil
  then show ?case by (auto simp: markCalled_frame split: option.splits)
next
  case (Cons p ps)
  show ?case
  proof (cases "net p")
    case (Rate_limited h)
    obtain r2 c2 s2 where e: "try_providers rt net ps (Some p) (recordProviderRateLimit rt (sched s) p h s) = (r2, c2, s2)"
      by (metis prod.exhaust)
    then show ?thesis using Cons.IH[OF e] Cons.prems Rate_limited
      by (simp add: recordProviderRateLimit_def recordApi_frame Let_def)
  qed (use Cons.prems in \<open>auto simp: markCalled_frame clearStrike_frame\<close>)
qed

lemma withProvider_frame:
  "withProvider rt net s = (r, c, s') \<Longrightarrow>
     edges s' = edges s \<and> addresses s' = addresses s \<and> jobs s' = jobs s \<and> transactions s' = transactions s"
  by (auto simp: withProvider_def waitForRateLimit_def simp del: try_providers.simps dest!: try_providers_frame
      split: sum.splits list.splits option.splits if_splits)

lemma getTx_frame:
  assumes "getTx env t w = (r, w')"
  shows "graph_of w' = graph_of w" and "transactions (w_store w') = transactions (w_store w)"
proof -
  obtain a b s where p: "withProvider (ce_router env) (ce_getTx env (w_asked w) t) (w_store w) = (a, b, s)"
    by (metis prod.exhaust)
  then have "w_store w' = s \<or> w_store w' = w_store w"
    using assms by (auto simp: getTx_def call_provider_def split: option.splits prod.splits)
  then show "graph_of w' = graph_of w" "transactions (w_store w') = transactions (w_store w)"
    using withProvider_frame[OF p] by (auto simp: graph_of_def)
qed

lemma can_fetch_store: "can_fetch env c w = (b, w') \<Longrightarrow> w_store w' = w_store w"
  by (auto simp: can_fetch_def ask_canUse_def split: if_splits)

lemma capture_source_frame:
  assumes "capture_source env t c tx w = (r, w')"
  shows "graph_of w' = graph_of w \<and> transactions (w_store w') = transactions (w_store w)"
proof -
  obtain b w1 where f: "can_fetch env c w = (b, w1)" by (metis prod.exhaust)
  obtain r2 w2 where g: "getTx env t w1 = (r2, w2)" by (metis prod.exhaust)
  have "graph_of (w2\<lparr>w_budget := x\<rparr>) = graph_of w2" for x by (simp add: graph_of_def)
  then show ?thesis
    using assms getTx_frame[OF g] can_fetch_store[OF f] f g
    by (auto simp: capture_source_def graph_of_def split: if_splits sum.splits)
qed

lemma indexed_iff: "getTransaction t s \<noteq> None \<longleftrightarrow> t \<in> tx_id ` set (transactions s)"
  by (auto simp: getTransaction_def find_None_iff)

lemma indexed_upsert:
  "tx_id ` set (transactions (upsertTransaction u s)) = insert (tu_txid u) (tx_id ` set (transactions s))"
proof -
  have "map tx_id (update_where P (merge_tx u) rows) = map tx_id rows" for P rows
    by (induction rows) (auto simp: merge_tx_def)
  from arg_cong[OF this, of set] have i: "tx_id ` set (update_where P (merge_tx u) rows) = tx_id ` set rows" for P rows
    by simp
  show ?thesis
  proof (cases "\<exists>r\<in>set (transactions s). tx_id r = tu_txid u")
    case True
    then have "tu_txid u \<in> tx_id ` set (transactions s)" by force
    then show ?thesis using True i by (auto simp: upsertTransaction_def)
  qed (auto simp: upsertTransaction_def)
qed

lemma capture_frame:
  assumes "captureOpReturnForTx env t c tx w = (r, w')"
  shows "graph_of w' = graph_of w"
    and "getTransaction t' (w_store w) \<noteq> None \<Longrightarrow> getTransaction t' (w_store w') \<noteq> None"
proof -
  obtain r1 w1 where c: "capture_source env t c tx w = (r1, w1)" by (metis prod.exhaust)
  note f = capture_source_frame[OF c]
  have k: "getTransaction t' (upsertTransaction u s) \<noteq> None" if "getTransaction t' s \<noteq> None" for u s
    using that unfolding indexed_iff indexed_upsert by blast
  have cases: "w' = w \<or> w' = w1 \<or> (\<exists>u. w' = on_store (upsertTransaction u) w1)"
    using assms c by (auto simp: captureOpReturnForTx_def Let_def split: if_splits sum.splits option.splits prod.splits)
  then show "graph_of w' = graph_of w" using f by (auto simp: graph_of_def on_store_def)
  show "getTransaction t' (w_store w') \<noteq> None" if "getTransaction t' (w_store w) \<noteq> None"
    using cases f that k[of "w_store w1"] unfolding indexed_iff by (auto simp: on_store_def)
qed

section \<open>An indexed transaction\<close>




section \<open>A trace in chunks\<close>

text \<open>What the chunk of one call works on: the edges, the victims and the index it starts from.\<close>

definition chunk_input ::
  "chain_env \<Rightarrow> config \<Rightarrow> address \<Rightarrow> int \<Rightarrow> txid \<Rightarrow> address list \<Rightarrow> trace_state \<Rightarrow> classified_opts \<Rightarrow> chain_tx
   \<Rightarrow> world \<Rightarrow> (edge_draft list \<times> address list) \<times> world" where
  "chunk_input env cfg a hop t hackers st cl tx w =
     (case trace_input env tx hackers (traceOptions cfg st t tx a hop cl) (on_store (upsertTransaction (tx_row_of t tx)) w) of
        ((flat, victims, n), w2) \<Rightarrow> ((flat, victims), w2))"

definition chunk_start :: "trace_state \<Rightarrow> txid \<Rightarrow> int" where
  "chunk_start st t = (if trace_active st t then or_else (ts_index st) 0 else 0)"

definition chunk_end :: "config \<Rightarrow> trace_state \<Rightarrow> txid \<Rightarrow> edge_draft list \<Rightarrow> int" where
  "chunk_end cfg st t flat =
     (if maxEdgesPerJob cfg > 0 then min (int (length flat)) (chunk_start st t + maxEdgesPerJob cfg)
      else int (length flat))"

lemma trace_tx_result:
  assumes "trace_tx env t tx hackers op w = (Inr r, w')"
    and "trace_input env tx hackers op (on_store (upsertTransaction (tx_row_of t tx)) w) = ((flat, victims, n), w2)"
    and "applyHackTraceEdgesChunk t (blockTimeIso tx) flat victims (chunk_opts hackers op (w_guard w2)) (w_store w2) = (q, s3)"
  shows "tr_complete r = complete q" and "tr_nextIndex r = nextEdgeIndex q"
    and "tr_flat r = (if complete q then None else Some flat)" and "graph_of w' = graph_of (w2\<lparr>w_store := s3\<rparr>)"
    and "tr_cpuTripped r = cpuGuardTripped q"
proof -
  let ?c = "(po_capture op)\<lparr>co_guard := co_guard (po_capture op) \<or> po_guarded op\<rparr>"
  obtain x w4 where c: "captureOpReturnForTx env t ?c (Some tx) (w2\<lparr>w_store := s3\<rparr>) = (x, w4)" by (metis prod.exhaust)
  show "tr_complete r = complete q" "tr_nextIndex r = nextEdgeIndex q"
    "tr_flat r = (if complete q then None else Some flat)" "graph_of w' = graph_of (w2\<lparr>w_store := s3\<rparr>)"
    "tr_cpuTripped r = cpuGuardTripped q"
    using assms c capture_frame(1)[OF c] by (auto simp: trace_tx_def Let_def split: sum.splits prod.splits)
qed

lemma traceOptions_simps [simp]:
  "or_else (po_index (traceOptions cfg st t tx a hop cl)) 0 = chunk_start st t"
  "po_guarded (traceOptions cfg st t tx a hop cl) = cl_guarded cl"
  "positive (po_maxEdgesPerJob (traceOptions cfg st t tx a hop cl)) =
     (if maxEdgesPerJob cfg > 0 then Some (maxEdgesPerJob cfg) else None)"
  "po_tx (traceOptions cfg st t tx a hop cl) = Some tx"
  by (simp_all add: traceOptions_def chunk_start_def Let_def or_else_def positive_def)

text \<open>The trace is not cut short before its chunk: by the floors, or because it is no spend or deposit.\<close>

definition reaches_trace ::
  "config \<Rightarrow> address \<Rightarrow> int \<Rightarrow> pending_tx \<Rightarrow> trace_state \<Rightarrow> classified_opts \<Rightarrow> chain_tx \<Rightarrow> bool" where
  "reaches_trace cfg a hop entry st cl tx \<longleftrightarrow>
     trace_active st (c_txid entry) \<or>
     (\<not> isSubFloorSpendFromPage (Some tx) a (minExpandSats cfg) \<and>
      \<not> (hop = 0 \<and> isSubFloorReceiveFromPage (Some tx) a (minVictimIngestSats cfg)) \<and>
      (shouldTraceHackerReceive (classified_tx.truncate entry) cfg (skipGetTxOpts hop a cfg cl entry) \<or> txInvolvesSpend tx a))"

text \<open>The chunk of one call, in terms of the state it is given.\<close>

lemma stage_chunk:
  assumes "trace_stage env cfg a hop entry hackers st cl tx n w = (Inr r, w')"
    and "reaches_trace cfg a hop entry st cl tx"
    and "chunk_input env cfg a hop (c_txid entry) hackers st cl tx w = ((flat, victims), w2)"
    and "0 \<le> chunk_start st (c_txid entry)" and "chunk_start st (c_txid entry) \<le> int (length flat)"
  defines "t \<equiv> c_txid entry"
  defines "tripped \<equiv> cl_guarded cl \<and> cpu_exceeded w2"
  defines "j \<equiv> (if tripped then chunk_start st t else chunk_end cfg st t flat)"
  shows "pr_continued r \<longleftrightarrow> j < int (length flat)"
    and "\<exists>k. pr_state r = (if j < int (length flat)
           then \<lparr>ts_txid = Some t, ts_index = Some j, ts_pending = Some True, ts_total = k, ts_flat = Some flat\<rparr>
           else no_trace)"
    and "js_slice flat 0 (chunk_start st t) @ js_slice flat (chunk_start st t) j = js_slice flat 0 j"
    and "chunk_start st t \<le> j" and "j \<le> int (length flat)"
    and "\<not> tripped \<Longrightarrow> chunk_start st t < int (length flat) \<Longrightarrow> chunk_start st t < j"
proof -
  let ?op = "traceOptions cfg st t tx a hop cl"
  obtain m where ti: "trace_input env tx hackers ?op (on_store (upsertTransaction (tx_row_of t tx)) w) = ((flat, victims, m), w2)"
    using assms(3) by (auto simp: chunk_input_def t_def split: prod.splits)
  obtain q s3 where q: "applyHackTraceEdgesChunk t (blockTimeIso tx) flat victims (chunk_opts hackers ?op (w_guard w2)) (w_store w2) = (q, s3)"
    by (metis prod.exhaust)
  obtain tr where tr: "trace_tx env t tx hackers ?op w = (Inr tr, w')"
    and r: "r = (if tr_complete tr then \<lparr>pr_state = no_trace, pr_continued = False, pr_calls = n + tr_captureCalls tr, pr_cpuTripped = tr_cpuTripped tr\<rparr>
      else \<lparr>pr_state = \<lparr>ts_txid = Some t, ts_index = Some (tr_nextIndex tr), ts_pending = Some True, ts_total = Some (tr_total tr), ts_flat = tr_flat tr\<rparr>,
            pr_continued = True, pr_calls = n, pr_cpuTripped = tr_cpuTripped tr\<rparr>)"
  proof -
    let ?res = "\<lambda>tr. if \<not> tr_complete tr
               then \<lparr>pr_state = \<lparr>ts_txid = Some t, ts_index = Some (tr_nextIndex tr), ts_pending = Some True,
                             ts_total = Some (tr_total tr), ts_flat = tr_flat tr\<rparr>,
                          pr_continued = True, pr_calls = n, pr_cpuTripped = tr_cpuTripped tr\<rparr>
               else \<lparr>pr_state = no_trace, pr_continued = False, pr_calls = n + tr_captureCalls tr,
                          pr_cpuTripped = tr_cpuTripped tr\<rparr>"
    obtain x w4 where x: "trace_tx env t tx hackers ?op w = (x, w4)" by (metis prod.exhaust)
    have "trace_stage env cfg a hop entry hackers st cl tx n w = (case x of Inl e \<Rightarrow> (Inl e, w4) | Inr tr \<Rightarrow> (Inr (?res tr), w4))"
      using assms(2) x unfolding trace_stage_def processTxForHackTrace_def reaches_trace_def Let_def t_def
      by (cases x) auto
    then obtain tr where "x = Inr tr" "r = ?res tr" "w4 = w'" using assms(1) by (cases x) auto
    then show ?thesis using that x by auto
  qed
  note f = trace_tx_result[OF tr ti q]
  let ?c = "chunk_opts hackers ?op (w_guard w2)"
  have start: "ap_start ?c = Some (chunk_start st t)" by (simp add: chunk_opts_def)
  have mx: "ap_maxEdges ?c = (if maxEdgesPerJob cfg > 0 then Some (maxEdgesPerJob cfg) else None)" by (simp add: chunk_opts_def)
  have g: "(case ap_guard ?c of Some g \<Rightarrow> g_exceeded g | None \<Rightarrow> False) = tripped"
    by (auto simp: chunk_opts_def tripped_def cpu_exceeded_def guard_answers_def split: option.splits)
  have m1: "case ap_maxEdges ?c of Some m \<Rightarrow> 1 \<le> m | None \<Rightarrow> True" by (simp add: mx)
  have i: "0 \<le> chunk_start st t" "chunk_start st t \<le> int (length flat)" using assms(4,5) by (simp_all add: t_def)
  note p = chunk_progress[OF start i m1 q, unfolded g]
  have "nextEdgeIndex q = chunk_end cfg st t flat" if "\<not> tripped"
    using q that g start by (auto simp: applyHackTraceEdgesChunk_def Let_def mx chunk_end_def split: prod.splits)
  then have j: "nextEdgeIndex q = j" using p by (auto simp: j_def split: if_splits)
  have c: "complete q \<longleftrightarrow> \<not> j < int (length flat)" using p j by auto
  show "pr_continued r \<longleftrightarrow> j < int (length flat)" using r f(1) c by simp
  show "\<exists>k. pr_state r = (if j < int (length flat)
           then \<lparr>ts_txid = Some t, ts_index = Some j, ts_pending = Some True, ts_total = k, ts_flat = Some flat\<rparr>
           else no_trace)"
    using r f c j by simp
  show "js_slice flat 0 (chunk_start st t) @ js_slice flat (chunk_start st t) j = js_slice flat 0 j"
    "chunk_start st t \<le> j" "j \<le> int (length flat)" using p j by simp_all
  show "chunk_start st t < j" if "\<not> tripped" "chunk_start st t < int (length flat)" using p j that by simp
qed

text \<open>A call whose CPU guard has run out before its chunk.\<close>

definition tripped :: "classified_opts \<Rightarrow> world \<Rightarrow> bool" where
  "tripped cl w \<longleftrightarrow> cl_guarded cl \<and> cpu_exceeded w"

text \<open>What a call writes, whether its capture then throws or not, and what the capture decides.\<close>

lemma stage_outcome:
  assumes "trace_stage env cfg a hop entry hackers st cl tx n w = (x, w')"
    and "reaches_trace cfg a hop entry st cl tx"
    and "chunk_input env cfg a hop (c_txid entry) hackers st cl tx w = ((flat, victims), w2)"
    and "applyHackTraceEdgesChunk (c_txid entry) (blockTimeIso tx) flat victims
           (chunk_opts hackers (traceOptions cfg st (c_txid entry) tx a hop cl) (w_guard w2)) (w_store w2) = (q, s3)"
  shows "\<exists>cx. captureOpReturnForTx env (c_txid entry) (tx_capture_opts cl None) (Some tx) (w2\<lparr>w_store := s3\<rparr>) = (cx, w') \<and>
    (case cx of Inl e \<Rightarrow> x = Inl e | Inr y \<Rightarrow> (\<exists>r. x = Inr r))"
    and "graph_of w' = graph_of (w2\<lparr>w_store := s3\<rparr>)"
    and "getTransaction (c_txid entry) (w_store w') \<noteq> None"
proof -
  let ?t = "c_txid entry" let ?op = "traceOptions cfg st ?t tx a hop cl"
  obtain m where ti: "trace_input env tx hackers ?op (on_store (upsertTransaction (tx_row_of ?t tx)) w) = ((flat, victims, m), w2)"
    using assms(3) by (auto simp: chunk_input_def split: prod.splits)
  have co: "(po_capture ?op)\<lparr>co_guard := co_guard (po_capture ?op) \<or> po_guarded ?op\<rparr> = tx_capture_opts cl None"
    by (simp add: traceOptions_def Let_def tx_capture_opts_def)
  obtain cx w4 where c: "captureOpReturnForTx env ?t (tx_capture_opts cl None) (Some tx) (w2\<lparr>w_store := s3\<rparr>) = (cx, w4)"
    by (metis prod.exhaust)
  have tt: "trace_tx env ?t tx hackers ?op w = (case cx of Inl e \<Rightarrow> (Inl e, w4) | Inr (captured, k) \<Rightarrow>
             (Inr \<lparr>tr_complete = complete q, tr_nextIndex = nextEdgeIndex q, tr_applied = edgesApplied q,
                   tr_total = (if traceEdgeTotal q = 0 then m else traceEdgeTotal q),
                   tr_flat = (if complete q then None else Some flat),
                   tr_cpuTripped = cpuGuardTripped q, tr_captureCalls = k\<rparr>, w4))"
    using ti assms(4) c unfolding trace_tx_def co by (simp add: Let_def)
  let ?res = "\<lambda>tr. if \<not> tr_complete tr
               then \<lparr>pr_state = \<lparr>ts_txid = Some ?t, ts_index = Some (tr_nextIndex tr), ts_pending = Some True,
                             ts_total = Some (tr_total tr), ts_flat = tr_flat tr\<rparr>,
                          pr_continued = True, pr_calls = n, pr_cpuTripped = tr_cpuTripped tr\<rparr>
               else \<lparr>pr_state = no_trace, pr_continued = False, pr_calls = n + tr_captureCalls tr,
                          pr_cpuTripped = tr_cpuTripped tr\<rparr>"
  obtain y w5 where y: "trace_tx env ?t tx hackers ?op w = (y, w5)" by (metis prod.exhaust)
  have s: "trace_stage env cfg a hop entry hackers st cl tx n w = (case y of Inl e \<Rightarrow> (Inl e, w5) | Inr tr \<Rightarrow> (Inr (?res tr), w5))"
    using assms(2) y unfolding trace_stage_def processTxForHackTrace_def reaches_trace_def Let_def
    by (cases y) auto
  have "w5 = w4 \<and> (case cx of Inl e \<Rightarrow> y = Inl e | Inr z \<Rightarrow> (\<exists>tr. y = Inr tr))"
    using tt y by (cases cx) auto
  then have w4: "w4 = w' \<and> (case cx of Inl e \<Rightarrow> x = Inl e | Inr y \<Rightarrow> (\<exists>r. x = Inr r))"
    using s assms(1) by (cases cx) auto
  then show "\<exists>cx. captureOpReturnForTx env ?t (tx_capture_opts cl None) (Some tx) (w2\<lparr>w_store := s3\<rparr>) = (cx, w') \<and>
    (case cx of Inl e \<Rightarrow> x = Inl e | Inr y \<Rightarrow> (\<exists>r. x = Inr r))" using c by blast
  show "graph_of w' = graph_of (w2\<lparr>w_store := s3\<rparr>)" using capture_frame(1)[OF c] w4 by simp
  have "w_store w2 = upsertTransaction (tx_row_of ?t tx) (w_store w)"
    using ti by (auto simp: trace_input_def trace_compute_def Let_def on_store_def split: if_splits option.splits bool.splits)
  then have "getTransaction ?t s3 \<noteq> None"
    using chunk_transactions[OF assms(4)] indexed_upsert[of "tx_row_of ?t tx" "w_store w"]
    by (simp add: indexed_iff tx_row_of_def del: not_None_eq)
  then show "getTransaction ?t (w_store w') \<noteq> None"
    using capture_frame(2)[OF c, of ?t] w4 by simp
qed

text \<open>The edges of a call: those of the setting, or all.\<close>

definition edges_per_call :: "config \<Rightarrow> edge_draft list \<Rightarrow> int" where
  "edges_per_call cfg flat = (if maxEdgesPerJob cfg > 0 then maxEdgesPerJob cfg else int (length flat))"

text \<open>One call of a trace, in whatever environment and world the job finds.\<close>

record trace_call =
  rc_env :: chain_env
  rc_hackers :: "address list"
  rc_opts :: classified_opts
  rc_tx :: chain_tx
  rc_calls :: int
  rc_world :: world

definition run_call ::
  "config \<Rightarrow> address \<Rightarrow> int \<Rightarrow> pending_tx \<Rightarrow> trace_state \<Rightarrow> trace_call \<Rightarrow> (job_error + classified_result) \<times> world" where
  "run_call cfg a hop entry st c =
     trace_stage (rc_env c) cfg a hop entry (rc_hackers c) st (rc_opts c) (rc_tx c) (rc_calls c) (rc_world c)"

text \<open>The store of a call with a list of edges of the transaction written to it.\<close>

definition with_edges ::
  "config \<Rightarrow> address \<Rightarrow> int \<Rightarrow> txid \<Rightarrow> trace_state \<Rightarrow> trace_call \<Rightarrow> edge_draft list \<Rightarrow> world" where
  "with_edges cfg a hop t st c es =
     on_store (\<lambda>s. apply_slice t (blockTimeIso (rc_tx c))
         (chunk_opts (rc_hackers c) (traceOptions cfg st t (rc_tx c) a hop (rc_opts c)) (w_guard (rc_world c))) [] es
         (upsertTransaction (tx_row_of t (rc_tx c)) s)) (rc_world c)"

definition call_tripped :: "trace_call \<Rightarrow> bool" where
  "call_tripped c \<longleftrightarrow> tripped (rc_opts c) (rc_world c)"

text \<open>
  Successive calls for one transaction, one per job: each in whatever world the job finds, with the
  state that the call before left. The result is the state after the last one, if all of them
  succeeded and asked to be continued.
\<close>

fun retrace :: "config \<Rightarrow> address \<Rightarrow> int \<Rightarrow> pending_tx \<Rightarrow> trace_call list \<Rightarrow> trace_state \<Rightarrow> trace_state option" where
  "retrace cfg a hop entry [] st = Some st"
| "retrace cfg a hop entry (c # calls) st =
     (case fst (run_call cfg a hop entry st c) of
        Inr r \<Rightarrow> if pr_continued r then retrace cfg a hop entry calls (pr_state r) else None
      | Inl e \<Rightarrow> None)"

definition resumes :: "trace_state \<Rightarrow> txid \<Rightarrow> edge_draft list \<Rightarrow> int \<Rightarrow> bool" where
  "resumes st t flat i \<longleftrightarrow> trace_active st t \<and> ts_flat st = Some flat \<and> ts_index st = Some i \<and>
     0 < i \<and> i < int (length flat)"

lemma resumes_input:
  assumes "resumes st t flat i"
  shows "chunk_input env cfg a hop t hackers st cl tx w = ((flat, []), on_store (upsertTransaction (tx_row_of t tx)) w)"
    and "chunk_start st t = i"
proof -
  show s: "chunk_start st t = i" using assms by (simp add: resumes_def chunk_start_def or_else_def)
  have "flat \<noteq> []" using assms by (auto simp: resumes_def)
  moreover have "or_else (po_flat (traceOptions cfg st t tx a hop cl)) [] = flat"
    using assms by (simp add: resumes_def traceOptions_def Let_def or_else_def)
  moreover have "0 < i" using assms by (simp add: resumes_def)
  ultimately show "chunk_input env cfg a hop t hackers st cl tx w = ((flat, []), on_store (upsertTransaction (tx_row_of t tx)) w)"
    using s by (simp add: chunk_input_def trace_input_def Let_def)
qed

lemma resumes_step:
  assumes "resumes st (c_txid entry) flat i" and "run_call cfg a hop entry st c = (x, w')"
  shows "call_tripped c \<Longrightarrow> graph_of w' = graph_of (rc_world c)"
    and "\<not> call_tripped c \<Longrightarrow> graph_of w' = graph_of (with_edges cfg a hop (c_txid entry) st c
           (take (nat (edges_per_call cfg flat)) (drop (nat i) flat)))"
    and "x = Inr r \<Longrightarrow> pr_continued r \<longleftrightarrow> call_tripped c \<or> i + edges_per_call cfg flat < int (length flat)"
    and "x = Inr r \<Longrightarrow> pr_continued r \<Longrightarrow> resumes (pr_state r) (c_txid entry) flat (if call_tripped c then i else i + edges_per_call cfg flat)"
    and "x = Inr r \<Longrightarrow> \<not> pr_continued r \<Longrightarrow> pr_state r = no_trace"
proof -
  let ?t = "c_txid entry" and ?w2 = "on_store (upsertTransaction (tx_row_of (c_txid entry) (rc_tx c))) (rc_world c)"
  let ?op = "chunk_opts (rc_hackers c) (traceOptions cfg st ?t (rc_tx c) a hop (rc_opts c)) (w_guard ?w2)"
  note inp = resumes_input[OF assms(1)]
  have reach: "reaches_trace cfg a hop entry st (rc_opts c) (rc_tx c)" using assms(1) by (simp add: reaches_trace_def resumes_def)
  have i: "0 < i" "i < int (length flat)" using assms(1) by (simp_all add: resumes_def)
  then have b: "0 \<le> chunk_start st ?t" "chunk_start st ?t \<le> int (length flat)" using inp(2) by simp_all
  have tr: "tripped (rc_opts c) ?w2 = call_tripped c"
    by (simp add: tripped_def call_tripped_def cpu_exceeded_def on_store_def)
  have run: "trace_stage (rc_env c) cfg a hop entry (rc_hackers c) st (rc_opts c) (rc_tx c) (rc_calls c) (rc_world c) = (x, w')"
    using assms(2) by (simp add: run_call_def)
  obtain q s3 where q: "applyHackTraceEdgesChunk ?t (blockTimeIso (rc_tx c)) flat [] ?op (w_store ?w2) = (q, s3)"
    by (metis prod.exhaust)
  have g: "graph_of w' = graph_of (?w2\<lparr>w_store := s3\<rparr>)" using stage_outcome(2)[OF run reach inp(1) q] .
  have st: "ap_start ?op = Some i" using inp(2) by (simp add: chunk_opts_def)
  have mx: "ap_maxEdges ?op = (if maxEdgesPerJob cfg > 0 then Some (maxEdgesPerJob cfg) else None)" by (simp add: chunk_opts_def)
  have gd: "(case ap_guard ?op of Some g \<Rightarrow> g_exceeded g | None \<Rightarrow> False) = call_tripped c"
    by (auto simp: chunk_opts_def tr[symmetric] tripped_def cpu_exceeded_def guard_answers_def split: option.splits)
  have m1: "case ap_maxEdges ?op of Some m \<Rightarrow> 1 \<le> m | None \<Rightarrow> True" by (simp add: mx)
  have i0: "0 \<le> i" "i \<le> int (length flat)" using i by simp_all
  note cw = conjunct2[OF chunk_writes[OF st i0 m1 q, unfolded gd]]
  show "graph_of w' = graph_of (rc_world c)" if "call_tripped c"
    using cw that g i by (simp add: graph_of_def on_store_def)
  show "graph_of w' = graph_of (with_edges cfg a hop ?t st c (take (nat (edges_per_call cfg flat)) (drop (nat i) flat)))"
    if "\<not> call_tripped c"
  proof -
    have r: "register_victims i flat [] v s = ([], s)" for v s by (simp add: register_victims_def)
    note cx = cw[unfolded r if_not_P[OF that]]
    define op u where "op = ?op" and "u = w_store ?w2"
    obtain k where k: "k = (case ap_maxEdges ?op of Some m \<Rightarrow> min (nat m) (length flat - nat i) | None \<Rightarrow> length flat - nat i)"
      "s3 = apply_slice ?t (blockTimeIso (rc_tx c)) ?op [] (take k (drop (nat i) flat)) (w_store ?w2)"
      using cx unfolding op_def[symmetric] u_def[symmetric] by (elim exE conjE) simp
    have "take k (drop (nat i) flat) = take (nat (edges_per_call cfg flat)) (drop (nat i) flat)"
      by (simp add: k(1) mx edges_per_call_def min_def)
    then have "s3 = w_store (with_edges cfg a hop ?t st c (take (nat (edges_per_call cfg flat)) (drop (nat i) flat)))"
      unfolding k(2) with_edges_def on_store_def by simp
    then show ?thesis using g unfolding graph_of_def by simp
  qed
  assume r: "x = Inr r"
  let ?j = "if call_tripped c then chunk_start st ?t else chunk_end cfg st ?t flat"
  note sc = stage_chunk[OF run[unfolded r] reach inp(1) b, folded tripped_def, unfolded tr]
  have e: "chunk_end cfg st ?t flat = min (int (length flat)) (i + edges_per_call cfg flat)"
    using i by (auto simp: chunk_end_def edges_per_call_def inp(2))
  show c: "pr_continued r \<longleftrightarrow> call_tripped c \<or> i + edges_per_call cfg flat < int (length flat)"
    using sc(1) i e inp(2) by auto
  have pos: "0 < edges_per_call cfg flat" using i by (auto simp: edges_per_call_def)
  have jj: "?j = (if call_tripped c then i else i + edges_per_call cfg flat)" if "pr_continued r"
    using sc(1) that e inp(2) by (simp add: min_def split: if_splits)
  show "resumes (pr_state r) ?t flat (if call_tripped c then i else i + edges_per_call cfg flat)" if p: "pr_continued r"
    using sc(1,2) p i pos unfolding jj[OF p] by (auto simp: resumes_def trace_active_def)
  show "pr_state r = no_trace" if "\<not> pr_continued r" using sc(1,2) that by auto
qed

text \<open>
  C22: a trace that is carried over from job to job ends and loses no edge. Every call continues with
  the list and the index of the call before, whatever happened to the database in between: a call
  whose CPU guard has run out writes nothing and leaves the trace where it was; any other writes exactly
  the next edges of the list to the store it finds, as many as the setting allows, and moves on behind
  them. So \<open>k\<close> calls that are not cut off by the guard have written the edges up to index \<open>i + k * limit\<close>,
  less than \<open>(length flat - i) / limit\<close> of them can ask to be continued, and the one that does not has
  written the rest of the list and clears the state.
\<close>

theorem trace_resumes_and_ends:
  assumes "resumes st (c_txid entry) flat i" and "retrace cfg a hop entry calls st = Some st'"
  shows "\<exists>j. resumes st' (c_txid entry) flat j \<and>
    j = i + int (length (filter (\<lambda>c. \<not> call_tripped c) calls)) * edges_per_call cfg flat \<and> j < int (length flat) \<and>
    (\<forall>c x w'. run_call cfg a hop entry st' c = (x, w') \<longrightarrow>
       (if call_tripped c
        then graph_of w' = graph_of (rc_world c) \<and> (\<forall>r. x = Inr r \<longrightarrow> pr_continued r \<and> resumes (pr_state r) (c_txid entry) flat j)
        else graph_of w' = graph_of (with_edges cfg a hop (c_txid entry) st' c (take (nat (edges_per_call cfg flat)) (drop (nat j) flat))) \<and>
          (\<forall>r. x = Inr r \<longrightarrow> (if j + edges_per_call cfg flat < int (length flat)
             then pr_continued r \<and> resumes (pr_state r) (c_txid entry) flat (j + edges_per_call cfg flat)
             else \<not> pr_continued r \<and> pr_state r = no_trace))))"
proof -
  let ?t = "c_txid entry" and ?n = "\<lambda>cs. int (length (filter (\<lambda>c. \<not> call_tripped c) cs))"
  have run: "resumes st ?t flat i \<Longrightarrow> retrace cfg a hop entry calls st = Some st' \<Longrightarrow>
      resumes st' ?t flat (i + ?n calls * edges_per_call cfg flat)" for st i calls
  proof (induction calls arbitrary: st i)
    case (Cons c calls)
    obtain x w where x: "run_call cfg a hop entry st c = (x, w)" by (metis prod.exhaust)
    then obtain r where r: "x = Inr r" "pr_continued r" "retrace cfg a hop entry calls (pr_state r) = Some st'"
      using Cons.prems(2) by (cases x) (auto split: if_splits)
    from Cons.IH[OF resumes_step(4)[OF Cons.prems(1) x r(1,2)] r(3)] show ?case
      by (cases "call_tripped c") (simp_all add: algebra_simps)
  qed simp
  obtain j where j: "j = i + ?n calls * edges_per_call cfg flat" "resumes st' ?t flat j" using run[OF assms] by blast
  have "if call_tripped c
        then graph_of w' = graph_of (rc_world c) \<and> (\<forall>r. x = Inr r \<longrightarrow> pr_continued r \<and> resumes (pr_state r) ?t flat j)
        else graph_of w' = graph_of (with_edges cfg a hop ?t st' c (take (nat (edges_per_call cfg flat)) (drop (nat j) flat))) \<and>
          (\<forall>r. x = Inr r \<longrightarrow> (if j + edges_per_call cfg flat < int (length flat)
             then pr_continued r \<and> resumes (pr_state r) ?t flat (j + edges_per_call cfg flat)
             else \<not> pr_continued r \<and> pr_state r = no_trace))"
    if "run_call cfg a hop entry st' c = (x, w')" for c x w'
    using resumes_step[OF j(2) that] by (cases "call_tripped c") simp_all
  moreover have "j < int (length flat)" using j(2) by (simp add: resumes_def)
  ultimately show ?thesis using j by blast
qed

section \<open>Concrete runs\<close>

definition demo_spend_tx :: chain_tx where
  "demo_spend_tx = \<lparr>ctx_txid = ''t'', ctx_status = None, ctx_fee = None,
     ctx_vin = Some [\<lparr>vin_txid = None, vin_vout = None, prevout_of = Some \<lparr>prev_address = Some ''h'', prev_value = Some 500000\<rparr>, is_coinbase = None\<rparr>],
     ctx_vout = Some (map (\<lambda>(a, n). \<lparr>out_address = Some a, out_value = Some n, out_type = None, out_asm = None, out_script = None\<rparr>)
       [(''x'', 200000), (''y'', 300000)])\<rparr>"

definition demo_spend :: pending_tx where
  "demo_spend = to_pending (classifyPageTx demo_spend_tx ''h'') (Some demo_spend_tx)"

definition failing_env :: chain_env where
  "failing_env = \<lparr>ce_router = \<lparr>r_sleepOnRateLimit = False, r_rateLimitMs = 3000, r_baseSec = 300, r_maxSec = 3600, r_primary = Esplora\<rparr>,
     ce_quota = (\<lambda>n. None), ce_stats = (\<lambda>n a p. Failed ''timeout''),
     ce_getTx = (\<lambda>n t p. Failed ''timeout''), ce_page = (\<lambda>n a c p. Answer []), ce_cpu = (\<lambda>n. 0),
     ce_canUse = (\<lambda>n. True), ce_subreqExhausted = (\<lambda>n. False)\<rparr>"

definition job_capture_opts :: classified_opts where
  "job_capture_opts = \<lparr>cl_expandProfile = None, cl_skipIfIndexed = None, cl_guarded = False,
     cl_capture = Some \<lparr>co_allowGetTx = Some True, co_budget = True, co_subreq = False, co_guard = False\<rparr>\<rparr>"

definition demo_world :: world where
  "demo_world = \<lparr>w_store = init_store default_options 1000000, w_asked = 0,
     w_budget = \<lparr>cb_max = 0, cb_used = 0\<rparr>, w_guard = None\<rparr>"

section \<open>An error after the first chunk\<close>




text \<open>With one edge per job, the second of two edges is never stored.\<close>

definition one_per_job :: config where
  "one_per_job = default_config\<lparr>maxEdgesPerJob := 1\<rparr>"


text \<open>The guard cuts the first call off; the second writes the second edge.\<close>

definition demo_resume :: trace_state where
  "demo_resume = \<lparr>ts_txid = Some ''t'', ts_index = Some 1, ts_pending = Some True, ts_total = Some 3,
     ts_flat = Some demo_drafts\<rparr>"

definition guarded_opts :: classified_opts where
  "guarded_opts = job_capture_opts\<lparr>cl_guarded := True\<rparr>"

definition free_call :: trace_call where
  "free_call = \<lparr>rc_env = failing_env\<lparr>ce_getTx := (\<lambda>n t p. Answer demo_spend_tx)\<rparr>, rc_hackers = [''h''], rc_opts = guarded_opts,
     rc_tx = demo_spend_tx, rc_calls = 0, rc_world = demo_world\<rparr>"

definition cut_call :: trace_call where
  "cut_call = free_call\<lparr>rc_world := demo_world\<lparr>w_guard := Some \<lparr>gu_cap = 10, gu_used = 10, gu_tripped = False\<rparr>\<rparr>\<rparr>"

theorem trace_resumes_and_ends_witness:
  "\<exists>st'. retrace one_per_job ''h'' 0 demo_spend [cut_call, free_call] demo_resume = Some st' \<and> resumes st' ''t'' demo_drafts 2 \<and>
     graph_of (snd (run_call one_per_job ''h'' 0 demo_spend st' free_call)) =
       graph_of (with_edges one_per_job ''h'' 0 ''t'' st' free_call [demo_drafts ! 2])"
proof -
  have c: "c_txid demo_spend = ''t''" by (simp add: demo_spend_def to_pending_def classifyPageTx_def demo_spend_tx_def)
  have s: "resumes demo_resume (c_txid demo_spend) demo_drafts 1"
    by (simp add: c resumes_def demo_resume_def trace_active_def demo_drafts_def)
  have "retrace one_per_job ''h'' 0 demo_spend [cut_call, free_call] demo_resume \<noteq> None" by code_simp
  then obtain st' where r: "retrace one_per_job ''h'' 0 demo_spend [cut_call, free_call] demo_resume = Some st'" by blast
  have t: "call_tripped cut_call" "\<not> call_tripped free_call" "edges_per_call one_per_job demo_drafts = 1"
    "take 1 (drop 2 demo_drafts) = [demo_drafts ! 2]" by code_simp+
  obtain x w' where n: "run_call one_per_job ''h'' 0 demo_spend st' free_call = (x, w')" by (metis prod.exhaust)
  show ?thesis using trace_resumes_and_ends[OF s r] r n t unfolding c by (auto simp: t)
qed

end
