(* ===== verification/SyncStore.thy ===== *)
theory SyncStore
  imports EdgeStore "HOL-Library.Char_ord" "HOL-Library.List_Lexorder"
begin

text \<open>
  The \<open>sync_state\<close> table of \<open>packages/db/src/store.ts\<close>: the last transaction seen and the last poll
  of an address (\<open>recordSyncPoll\<close>), the saved state of a backfill, the audit of a backfill, and the
  read-only queries on edges and transactions that the jobs use.

  The column \<open>backfill_state_json\<close> is only ever written with \<open>JSON.stringify\<close> of an object, so its
  parse never fails.
\<close>

section \<open>Polls\<close>

text \<open>\<open>None\<close> is an absent field; \<open>sp_observed = Some None\<close> is \<open>null\<close>.\<close>

record sync_patch =
  sp_lastSeenTxid :: "txid option"
  sp_lastBlockHeight :: "int option"
  sp_observed :: "int option option"

definition new_sync_row :: "address \<Rightarrow> sync_row" where
  "new_sync_row a = \<lparr>sync_address = a, lastSeenTxid = None, lastBlockHeight = None, lastPolledAt = None,
     backfillStateJson = None, backfillComplete = False, lastBackfillAuditAt = None,
     chainTxCountAtAudit = None, lastObservedTxCount = None\<rparr>"

definition polled_row :: "time \<Rightarrow> sync_patch option \<Rightarrow> sync_row \<Rightarrow> sync_row" where
  "polled_row ts data r =
     (case data of
        None \<Rightarrow> r\<lparr>lastPolledAt := Some ts\<rparr>
      | Some d \<Rightarrow> r\<lparr>lastSeenTxid := coalesce (sp_lastSeenTxid d) (lastSeenTxid r),
                    lastBlockHeight := coalesce (sp_lastBlockHeight d) (lastBlockHeight r),
                    lastPolledAt := Some ts,
                    lastObservedTxCount := or_else (sp_observed d) (lastObservedTxCount r)\<rparr>)"

text \<open>A write to the row of an address that inserts the row when it is missing.\<close>

definition put_sync :: "address \<Rightarrow> (sync_row \<Rightarrow> sync_row) \<Rightarrow> store \<Rightarrow> store" where
  "put_sync a f s =
     s\<lparr>sync_state :=
         (if getSyncState a s \<noteq> None then update_where (\<lambda>r. sync_address r = a) f (sync_state s)
          else sync_state s @ [f (new_sync_row a)])\<rparr>"

definition was_poll_due :: "address \<Rightarrow> store \<Rightarrow> bool" where
  "was_poll_due a s =
     (case getAddress a s of
        None \<Rightarrow> False
      | Some r \<Rightarrow>
          downstreamTreeMaxDepth (sched s) > 0 \<and> downstreamPollIntervalSec (sched s) > 0 \<and>
          poll_eligible_row s r \<and> counts_as_due (downstreamPollIntervalSec (sched s)) (getSyncState a s) (clock s))"

definition recordSyncPoll :: "address \<Rightarrow> sync_patch option \<Rightarrow> store \<Rightarrow> store" where
  "recordSyncPoll a data s =
     (let s1 = put_sync a (polled_row (clock s) data) s
      in if was_poll_due a s
         then (case adjustPollDueCountDelta (- 1) (downstreamTreeMaxDepth (sched s))
                      (downstreamPollIntervalSec (sched s)) (downstreamPollMinExpandSats (sched s)) s1 of
                 (True, s2) \<Rightarrow> s2
               | (False, s2) \<Rightarrow> markMonitorSnapshotDirty s2)
         else s1)"

definition upsertSyncState :: "address \<Rightarrow> sync_patch \<Rightarrow> store \<Rightarrow> store" where
  "upsertSyncState a d = recordSyncPoll a (Some d)"

text \<open>\<open>touchSyncPoll(address)\<close> and \<open>touchSyncPoll(address, { lastObservedTxCount })\<close>.\<close>

definition touchSyncPoll :: "address \<Rightarrow> int option option option \<Rightarrow> store \<Rightarrow> store" where
  "touchSyncPoll a observed =
     recordSyncPoll a (map_option (\<lambda>v. \<lparr>sp_lastSeenTxid = None, sp_lastBlockHeight = None, sp_observed = v\<rparr>) observed)"

definition countIndexedTxsForHacker :: "address \<Rightarrow> store \<Rightarrow> int" where
  "countIndexedTxsForHacker a s =
     int (length (uniq (map edge_txid (filter (\<lambda>e. toAddress e = a \<or> fromAddress e = a) (edges s)))))"

section \<open>Backfill\<close>

record backfill_state =
  bs_payload :: "payload option"
  bs_complete :: bool
  bs_auditAt :: "time option"
  bs_chainTxCount :: "int option"

definition getBackfillState :: "address \<Rightarrow> store \<Rightarrow> backfill_state option" where
  "getBackfillState a s =
     map_option (\<lambda>r. \<lparr>bs_payload = backfillStateJson r, bs_complete = backfillComplete r,
        bs_auditAt = lastBackfillAuditAt r, bs_chainTxCount = chainTxCountAtAudit r\<rparr>) (getSyncState a s)"

text \<open>Every caller says whether the backfill is complete.\<close>

definition backfill_row :: "payload option \<Rightarrow> bool \<Rightarrow> sync_row \<Rightarrow> sync_row" where
  "backfill_row p done_now r =
     (if done_now then r\<lparr>backfillStateJson := None, backfillComplete := True\<rparr>
      else r\<lparr>backfillStateJson := (case p of Some x \<Rightarrow> Some x | None \<Rightarrow> backfillStateJson r),
             backfillComplete := False\<rparr>)"

definition upsertBackfillState :: "address \<Rightarrow> payload option \<Rightarrow> bool \<Rightarrow> store \<Rightarrow> store" where
  "upsertBackfillState a p done_now = put_sync a (backfill_row p done_now)"

definition updateBackfillAudit :: "address \<Rightarrow> int \<Rightarrow> store \<Rightarrow> store" where
  "updateBackfillAudit a n s =
     put_sync a (\<lambda>r. r\<lparr>lastBackfillAuditAt := Some (clock s), chainTxCountAtAudit := Some n\<rparr>) s"

section \<open>Queries of the jobs\<close>

text \<open>
  \<open>ORDER BY\<close> on several columns is the lexicographic order of the columns; addresses and ids are
  compared bytewise, and a null height comes first.
\<close>

definition order_by :: "('a \<Rightarrow> 'b::linorder) \<Rightarrow> ('a \<Rightarrow> string) \<Rightarrow> 'a list \<Rightarrow> 'a list" where
  "order_by f g rows = sort_key f (sort_key g rows)"

definition getOutEdgesFromAddress :: "address \<Rightarrow> int \<Rightarrow> nat \<Rightarrow> store \<Rightarrow> edge_row list" where
  "getOutEdgesFromAddress a minEdge n s =
     take n (order_by (\<lambda>e. - amountSats e) toAddress
       (filter (\<lambda>e. fromAddress e = a \<and> direction_of e = Out_from_hacker \<and>
                    (minEdge > 0 \<longrightarrow> amountSats e \<ge> minEdge)) (edges s)))"

definition countOutEdgesFromAddress :: "address \<Rightarrow> int \<Rightarrow> store \<Rightarrow> int" where
  "countOutEdgesFromAddress a minEdge s =
     count_rows (\<lambda>e. fromAddress e = a \<and> direction_of e = Out_from_hacker \<and>
                     (minEdge > 0 \<longrightarrow> amountSats e \<ge> minEdge)) (edges s)"

definition missing_text :: "tx_row \<Rightarrow> bool" where
  "missing_text r \<longleftrightarrow> opReturnDisplay r = None"

text \<open>A negative limit is none.\<close>

definition listTxidsMissingOpReturn :: "int \<Rightarrow> store \<Rightarrow> txid list" where
  "listTxidsMissingOpReturn limit s =
     (let rows = order_by (\<lambda>r. case blockHeight r of None \<Rightarrow> (False, 0) | Some h \<Rightarrow> (True, h)) tx_id
                   (filter missing_text (transactions s))
      in map tx_id (if limit < 0 then rows else take (nat limit) rows))"

definition countTransactionsMissingOpReturn :: "store \<Rightarrow> int" where
  "countTransactionsMissingOpReturn s = count_rows missing_text (transactions s)"

definition hasTransactionsMissingOpReturn :: "store \<Rightarrow> bool" where
  "hasTransactionsMissingOpReturn s = (\<exists>r\<in>set (transactions s). missing_text r)"

end
