(* ===== verification/RecentHackers.thy ===== *)
theory RecentHackers
  imports ApplyTrace
begin

text \<open>
  The ring of recently active hackers: \<open>packages/db/src/recentHackers.ts\<close> and the flush of the
  buffered activity in \<open>packages/db/src/store.ts\<close>. The column holds the entries that
  \<open>serializeRecentHackers\<close> writes; what the parser does to an entry is kept, what it does to a text
  that is no such list is not.
\<close>

definition parseRecentHackers :: "recent_entry list \<Rightarrow> recent_entry list" where
  "parseRecentHackers es =
     map (\<lambda>e. e\<lparr>re_victims := max 0 (re_victims e), re_downstream := max 0 (re_downstream e)\<rparr>)
       (filter (\<lambda>e. re_address e \<noteq> []) es)"

text \<open>One delta, over the entry of its address when there is one.\<close>

definition merged_entry :: "time \<Rightarrow> address \<Rightarrow> activity \<Rightarrow> recent_entry option \<Rightarrow> recent_entry" where
  "merged_entry tm a d prev =
     \<lparr>re_address = a, re_at = or_else (max_time (map_option re_at prev) (act_at d)) tm,
      re_victims = (case prev of Some e \<Rightarrow> re_victims e | None \<Rightarrow> 0) + act_victims d,
      re_downstream = (case prev of Some e \<Rightarrow> re_downstream e | None \<Rightarrow> 0) + act_downstream d\<rparr>"

definition merge_delta ::
  "time \<Rightarrow> address \<times> activity \<Rightarrow> (address \<times> recent_entry) list \<Rightarrow> (address \<times> recent_entry) list" where
  "merge_delta tm u m =
     (case u of (a, d) \<Rightarrow> if a = [] then m else map_put a (merged_entry tm a d (map_of m a)) m)"

definition mergeRecentHackerActivity ::
  "time \<Rightarrow> recent_entry list \<Rightarrow> (address \<times> activity) list \<Rightarrow> int \<Rightarrow> recent_entry list" where
  "mergeRecentHackerActivity tm existing updates limit =
     (let m0 = fold (\<lambda>e. map_put (re_address e) e) existing [];
          m = fold (merge_delta tm) updates m0
      in take (nat (max 1 limit)) (sort_key (\<lambda>e. - re_at e) (map snd m)))"

definition clearRecentHackerActivityBuffer :: "store \<Rightarrow> store" where
  "clearRecentHackerActivityBuffer s = s\<lparr>recent_buffer := []\<rparr>"

definition getRecentHackersActivity :: "store \<Rightarrow> recent_entry list" where
  "getRecentHackersActivity s = parseRecentHackers (recentHackers (sched s))"

definition flushRecentHackerActivity :: "int \<Rightarrow> store \<Rightarrow> bool \<times> store" where
  "flushRecentHackerActivity limit s =
     (if recent_buffer s = [] then (False, clearRecentHackerActivityBuffer s)
      else
        let existing = getRecentHackersActivity s;
            merged = mergeRecentHackerActivity (clock s) existing (recent_buffer s) limit;
            s1 = clearRecentHackerActivityBuffer s
        in if existing = merged then (False, s1)
           else (True, updateSchedulerState (\<lambda>r. r\<lparr>recentHackers := merged\<rparr>) s1))"

section \<open>What a flush leaves\<close>

definition entry_keyed :: "(address \<times> recent_entry) list \<Rightarrow> bool" where
  "entry_keyed m \<longleftrightarrow> distinct (map fst m) \<and> (\<forall>(a, e)\<in>set m. re_address e = a)"

lemma in_map_put: "x \<in> set (map_put k v m) \<Longrightarrow> x = (k, v) \<or> x \<in> set m"
  by (induction m) (auto split: if_splits)

lemma entry_keyed_put: "entry_keyed m \<Longrightarrow> re_address e = a \<Longrightarrow> entry_keyed (map_put a e m)"
  by (auto simp: entry_keyed_def distinct_map_put dest!: in_map_put)

lemma merge_delta_keyed: "entry_keyed m \<Longrightarrow> entry_keyed (merge_delta tm u m)"
  by (auto simp: merge_delta_def merged_entry_def entry_keyed_put split: prod.splits)

lemma fold_keyed: "(\<And>x m. entry_keyed m \<Longrightarrow> entry_keyed (f x m)) \<Longrightarrow> entry_keyed m \<Longrightarrow> entry_keyed (fold f xs m)"
  by (induction xs arbitrary: m) auto

lemma keyed_addresses: "entry_keyed m \<Longrightarrow> map re_address (map snd m) = map fst m"
  by (auto simp: entry_keyed_def)

definition all_entries :: "time \<Rightarrow> recent_entry list \<Rightarrow> (address \<times> activity) list \<Rightarrow> (address \<times> recent_entry) list" where
  "all_entries tm existing updates = fold (merge_delta tm) updates (fold (\<lambda>e. map_put (re_address e) e) existing [])"

lemma all_entries_keyed: "entry_keyed (all_entries tm existing updates)"
  unfolding all_entries_def
  by (intro fold_keyed merge_delta_keyed entry_keyed_put) (simp_all add: entry_keyed_def)

lemma merged_map:
  "distinct (map fst us) \<Longrightarrow> [] \<notin> fst ` set us \<Longrightarrow>
     map_of (fold (merge_delta tm) us m) a =
       (case map_of us a of Some d \<Rightarrow> Some (merged_entry tm a d (map_of m a)) | None \<Rightarrow> map_of m a)"
proof (induction us arbitrary: m)
  case (Cons u us)
  obtain b d where u: "u = (b, d)" by (cases u)
  then have m: "merge_delta tm u m = map_put b (merged_entry tm b d (map_of m b)) m"
    using Cons.prems(2) by (auto simp: merge_delta_def)
  have "map_of us b = None" using Cons.prems(1) u by (simp add: map_of_eq_None_iff)
  then show ?case using Cons.IH[of "map_put b (merged_entry tm b d (map_of m b)) m"] Cons.prems
    by (auto simp: u m[unfolded u] split: option.splits)
qed simp

lemma parse_idem [simp]: "parseRecentHackers (parseRecentHackers es) = parseRecentHackers es"
  by (induction es) (simp_all add: parseRecentHackers_def)

lemma take_sorted_top:
  assumes "x \<in> set (take n (sort_key f ys))" and "y \<in> set ys" and "y \<notin> set (take n (sort_key f ys))"
  shows "f x \<le> f y"
proof -
  have "y \<in> set (drop n (sort_key f ys))"
    using assms(2,3) by (metis Un_iff append_take_drop_id set_append set_sort)
  moreover have "sorted (map f (take n (sort_key f ys)) @ map f (drop n (sort_key f ys)))"
    by (metis append_take_drop_id map_append sorted_sort_key)
  ultimately show ?thesis using assms(1) by (auto simp: sorted_append)
qed

text \<open>
  The ring holds the most recently active hackers, once each, latest first, at most as many as the
  limit (and at least one is allowed). A candidate that was left out is not later than one that was
  kept; the candidate of an address with buffered activity has the sums of its old counts and the
  buffered ones.
\<close>

lemma recent_ring_spec:
  fixes s limit
  defines "ring \<equiv> mergeRecentHackerActivity (clock s) (getRecentHackersActivity s) (recent_buffer s) limit"
    and "candidates \<equiv> all_entries (clock s) (getRecentHackersActivity s) (recent_buffer s)"
  shows "distinct (map re_address ring)" and "sorted (map (\<lambda>e. - re_at e) ring)"
    and "int (length ring) \<le> max 1 limit"
    and "set ring \<subseteq> snd ` set candidates"
    and "e \<in> set ring \<Longrightarrow> d \<in> snd ` set candidates \<Longrightarrow> d \<notin> set ring \<Longrightarrow> re_at d \<le> re_at e"
    and "distinct (map fst (recent_buffer s)) \<Longrightarrow> [] \<notin> fst ` set (recent_buffer s) \<Longrightarrow>
      map_of (recent_buffer s) a = Some act \<Longrightarrow>
      map_of candidates a = Some (merged_entry (clock s) a act
        (map_of (fold (\<lambda>e. map_put (re_address e) e) (getRecentHackersActivity s) []) a))"
    and "recent_buffer s \<noteq> [] \<Longrightarrow>
      getRecentHackersActivity (snd (flushRecentHackerActivity limit s)) = parseRecentHackers ring"
proof -
  let ?cs = "map snd candidates"
  have ring: "ring = take (nat (max 1 limit)) (sort_key (\<lambda>e. - re_at e) ?cs)"
    by (simp add: ring_def candidates_def mergeRecentHackerActivity_def all_entries_def Let_def)
  have "distinct (map re_address ?cs)"
    unfolding candidates_def keyed_addresses[OF all_entries_keyed]
    using all_entries_keyed by (auto simp: entry_keyed_def)
  then have d: "distinct (map re_address (sort_key (\<lambda>e. - re_at e) ?cs))"
    by (simp only: distinct_map set_sort distinct_sort)
  show "distinct (map re_address ring)"
    unfolding ring take_map[symmetric] using d by (rule distinct_take)
  show "sorted (map (\<lambda>e. - re_at e) ring)"
    unfolding ring take_map[symmetric] by (intro sorted_wrt_take sorted_sort_key)
  show "int (length ring) \<le> max 1 limit" unfolding ring by simp
  show "set ring \<subseteq> snd ` set candidates"
    unfolding ring using set_take_subset[of "nat (max 1 limit)" "sort_key (\<lambda>e. - re_at e) ?cs"] by simp
  show "e \<in> set ring \<Longrightarrow> d \<in> snd ` set candidates \<Longrightarrow> d \<notin> set ring \<Longrightarrow> re_at d \<le> re_at e"
    using take_sorted_top[of e _ "\<lambda>e. - re_at e" ?cs d] unfolding ring by simp
  show "distinct (map fst (recent_buffer s)) \<Longrightarrow> [] \<notin> fst ` set (recent_buffer s) \<Longrightarrow>
      map_of (recent_buffer s) a = Some act \<Longrightarrow>
      map_of candidates a = Some (merged_entry (clock s) a act
        (map_of (fold (\<lambda>e. map_put (re_address e) e) (getRecentHackersActivity s) []) a))"
    by (simp add: candidates_def all_entries_def merged_map)
  show "recent_buffer s \<noteq> [] \<Longrightarrow>
      getRecentHackersActivity (snd (flushRecentHackerActivity limit s)) = parseRecentHackers ring"
  proof -
    assume b: "recent_buffer s \<noteq> []"
    show ?thesis
    proof (cases "getRecentHackersActivity s = ring")
      case True
      then have "mergeRecentHackerActivity (clock s) (getRecentHackersActivity s) (recent_buffer s) limit
          = getRecentHackersActivity s" by (simp add: ring_def)
      then have "snd (flushRecentHackerActivity limit s) = clearRecentHackerActivityBuffer s"
        using b by (simp add: flushRecentHackerActivity_def Let_def)
      then have "getRecentHackersActivity (snd (flushRecentHackerActivity limit s)) = getRecentHackersActivity s"
        by (simp add: getRecentHackersActivity_def clearRecentHackerActivityBuffer_def)
      then show ?thesis unfolding True[symmetric] by (simp add: getRecentHackersActivity_def)
    qed (use b in \<open>simp add: flushRecentHackerActivity_def Let_def ring_def getRecentHackersActivity_def
        clearRecentHackerActivityBuffer_def\<close>)
  qed
qed

end
