(* ===== verification/JobPayload.thy ===== *)
theory JobPayload
  imports TxProcess SyncStore RecentHackers
begin

text \<open>
  What the bodies of the jobs share: the address statistics of a provider
  (\<open>packages/core/src/indexer/addressStats.ts\<close>), the detection of relay addresses
  (\<open>sweepRelay.ts\<close>), and the payloads that carry a backfill or a poll from run to run
  (\<open>processor.ts\<close>).

  A field whose type the code does not check is read as its declared type. Every payload that the
  code writes has an address; one without is read as the empty address.
\<close>

section \<open>Address statistics\<close>

definition mempool_part :: "addr_stats \<Rightarrow> int \<times> int \<times> int option" where
  "mempool_part st = (case as_mempool st of Some m \<Rightarrow> m | None \<Rightarrow> (0, 0, None))"

definition liveBalanceSatsFromStats :: "addr_stats \<Rightarrow> int" where
  "liveBalanceSatsFromStats st =
     (case mempool_part st of (funded, spent, n) \<Rightarrow> (as_chainFunded st + funded) - (as_chainSpent st + spent))"

definition observedTxCountFromStats :: "addr_stats \<Rightarrow> int" where
  "observedTxCountFromStats st =
     (case mempool_part st of (funded, spent, n) \<Rightarrow> as_chainTxCount st + or_else n 0)"

definition applyAddressStats :: "address \<Rightarrow> addr_stats \<Rightarrow> store \<Rightarrow> store" where
  "applyAddressStats a st s =
     upsertAddress ((plain_upsert a)\<lparr>u_liveBalance := Some (Some (liveBalanceSatsFromStats st)),
        u_liveBalanceAt := Some (Some (clock s))\<rparr>) s"

definition canSkipAddressTxsPoll :: "txid option \<Rightarrow> int option \<Rightarrow> int \<Rightarrow> bool" where
  "canSkipAddressTxsPoll lastSeen lastObserved observed \<longleftrightarrow>
     truthy lastSeen \<noteq> None \<and> lastObserved = Some observed"

text \<open>\<open>(observedTxCount, skipTxs)\<close>.\<close>

definition probePollAddressStats ::
  "chain_env \<Rightarrow> address \<Rightarrow> world \<Rightarrow> (job_error + int \<times> bool) \<times> world" where
  "probePollAddressStats env a w =
     (case getAddressStats env a w of
        (Inl e, w1) \<Rightarrow> (Inl e, w1)
      | (Inr st, w1) \<Rightarrow>
          (let w2 = on_store (applyAddressStats a st) w1;
               sync = getSyncState a (w_store w2);
               n = observedTxCountFromStats st
           in (Inr (n, canSkipAddressTxsPoll (case sync of Some r \<Rightarrow> lastSeenTxid r | None \<Rightarrow> None)
                         (case sync of Some r \<Rightarrow> lastObservedTxCount r | None \<Rightarrow> None) n), w2)))"

text \<open>\<open>lastObservedTxCountPatch\<close> as the field of a \<open>sync_patch\<close>.\<close>

definition lastObservedTxCountPatch :: "int option \<Rightarrow> int option option" where
  "lastObservedTxCountPatch n = (case n of Some k \<Rightarrow> Some (Some k) | None \<Rightarrow> None)"

definition shouldEnqueueRefreshLiveBalance :: "bool \<Rightarrow> bool \<Rightarrow> bool \<Rightarrow> bool" where
  "shouldEnqueueRefreshLiveBalance balanceStale pollDue auditDue \<longleftrightarrow> balanceStale \<and> \<not> pollDue \<and> \<not> auditDue"

section \<open>Relay addresses\<close>

text \<open>
  The two ratio thresholds are decimals of a few digits, given as fractions; the counts are small, so
  that comparing the rounded quotients is comparing the fractions. \<open>median\<close> is returned twice its
  value.
\<close>

record sweep_config =
  sw_minReceiveRatio :: "int \<times> int"
  sw_minVoutCount :: int
  sw_minSpendTargetShare :: "int \<times> int"

record relay_meta =
  receiveTxCount :: int
  spendTxCount :: int
  primarySweepTarget :: address

definition median2 :: "int list \<Rightarrow> int" where
  "median2 values =
     (if values = [] then 0
      else let sorted = sort values; mid = length sorted div 2
           in if length sorted mod 2 = 0 then sorted ! (mid - 1) + sorted ! mid else 2 * sorted ! mid)"

text \<open>The most frequent target, the first one on a tie, with its count.\<close>

definition primaryTargetShare :: "address list \<Rightarrow> (address \<times> int) option" where
  "primaryTargetShare targets =
     (if targets = [] then None
      else Some (foldl (\<lambda>best (t, n). if n > snd best then (t, n) else best) ([], 0)
                  (fold (\<lambda>t m. map_add t 1 m) targets [])))"

definition ratio_below :: "int \<Rightarrow> int \<Rightarrow> int \<times> int \<Rightarrow> bool" where
  "ratio_below n m t \<longleftrightarrow> n * snd t < fst t * m"

definition detectSweepRelay :: "classified_tx list \<Rightarrow> address list \<Rightarrow> sweep_config \<Rightarrow> relay_meta option" where
  "detectSweepRelay entries spendTargets cfg =
     (let receives = filter (\<lambda>e. isSpend e = Some False) entries;
          spends = filter (\<lambda>e. isSpend e = Some True) entries;
          classified = length receives + length spends;
          vouts = filter (\<lambda>n. n > 0) (map (\<lambda>e. or_else (voutCount e) 0) receives)
      in if classified = 0 then None
         else if ratio_below (int (length receives)) (int classified) (sw_minReceiveRatio cfg) then None
         else if vouts = [] then None
         else if median2 vouts < 2 * sw_minVoutCount cfg then None
         else (case primaryTargetShare spendTargets of
                 None \<Rightarrow> None
               | Some (t, n) \<Rightarrow>
                   if ratio_below n (int (length spendTargets)) (sw_minSpendTargetShare cfg) then None
                   else Some \<lparr>receiveTxCount = int (length receives), spendTxCount = int (length spends),
                              primarySweepTarget = t\<rparr>))"

definition relay_json :: "relay_meta \<Rightarrow> json" where
  "relay_json m = JObj [(''receiveTxCount'', JNum (receiveTxCount m)), (''spendTxCount'', JNum (spendTxCount m)),
     (''primarySweepTarget'', JStr (primarySweepTarget m))]"

section \<open>A trace in progress as JSON\<close>

fun direction_json :: "direction \<Rightarrow> json" where
  "direction_json In_to_hacker = JStr ''in_to_hacker''"
| "direction_json Out_from_hacker = JStr ''out_from_hacker''"
| "direction_json (Other_direction d) = JStr d"

definition read_direction :: "string \<Rightarrow> direction" where
  "read_direction d = (if d = ''in_to_hacker'' then In_to_hacker
     else if d = ''out_from_hacker'' then Out_from_hacker else Other_direction d)"

definition draft_json :: "edge_draft \<Rightarrow> json" where
  "draft_json e = JObj [(''fromAddress'', JStr (d_from e)), (''toAddress'', JStr (d_to e)),
     (''amountSats'', JNum (d_amount e)), (''hopFromHacker'', JNum (d_hop e)),
     (''direction'', direction_json (d_direction e))]"

definition read_draft :: "json \<Rightarrow> edge_draft" where
  "read_draft j = (let fs = obj_fields j in
     \<lparr>d_from = or_else (as_str (jget fs ''fromAddress'')) [], d_to = or_else (as_str (jget fs ''toAddress'')) [],
      d_amount = or_else (as_num (jget fs ''amountSats'')) 0, d_hop = or_else (as_num (jget fs ''hopFromHacker'')) 0,
      d_direction = read_direction (or_else (as_str (jget fs ''direction'')) [])\<rparr>)"

definition trace_json :: "trace_state \<Rightarrow> payload" where
  "trace_json st = field ''traceTxid'' JStr (ts_txid st) @ field ''traceEdgeIndex'' JNum (ts_index st) @
     field ''traceEdgesPending'' JBool (ts_pending st) @ field ''traceEdgeTotal'' JNum (ts_total st) @
     field ''traceEdgesFlat'' (\<lambda>es. JArr (map draft_json es)) (ts_flat st)"

definition read_trace :: "payload \<Rightarrow> trace_state" where
  "read_trace raw = \<lparr>ts_txid = as_str (jget raw ''traceTxid''), ts_index = as_num (jget raw ''traceEdgeIndex''),
     ts_pending = as_bool (jget raw ''traceEdgesPending''), ts_total = as_num (jget raw ''traceEdgeTotal''),
     ts_flat = map_option (map read_draft) (as_arr (jget raw ''traceEdgesFlat''))\<rparr>"

section \<open>The payload of a backfill\<close>

text \<open>\<open>bp_pending\<close> holds the three fields of \<open>writePendingPayload\<close>.\<close>

record backfill_payload =
  bp_address :: address
  bp_chainCursor :: "txid option"
  bp_pending :: payload
  bp_pagesExhausted :: "bool option"
  bp_newestTxid :: "txid option"
  bp_newestBlockHeight :: "int option"
  bp_trace :: trace_state

definition payload_address :: "payload \<Rightarrow> address" where
  "payload_address raw = or_else (as_str (jget raw ''address'')) []"

definition nullable :: "int option \<Rightarrow> json" where
  "nullable v = (case v of Some n \<Rightarrow> JNum n | None \<Rightarrow> JNull)"

text \<open>\<open>{ ...base, ...over }\<close>; the order of the keys is not observed.\<close>

definition obj_spread :: "payload \<Rightarrow> payload \<Rightarrow> payload" where
  "obj_spread base over = filter (\<lambda>(k, v). k \<notin> fst ` set over) base @ over"

definition parseBackfillPayload :: "payload \<Rightarrow> backfill_payload" where
  "parseBackfillPayload raw =
     (let (pending, idx) = readPendingRuntime raw
      in \<lparr>bp_address = payload_address raw, bp_chainCursor = as_str (jget raw ''chainCursor''),
          bp_pending = writePendingPayload pending idx None,
          bp_pagesExhausted = as_bool (jget raw ''pagesExhausted''),
          bp_newestTxid = as_str (jget raw ''newestTxid''),
          bp_newestBlockHeight = as_num (jget raw ''newestBlockHeight''),
          bp_trace = read_trace raw\<rparr>)"

definition toPersistedPayload :: "backfill_payload \<Rightarrow> payload" where
  "toPersistedPayload p =
     [(''address'', JStr (bp_address p))] @ field ''chainCursor'' JStr (bp_chainCursor p) @ bp_pending p @
     field ''pagesExhausted'' JBool (bp_pagesExhausted p) @ field ''newestTxid'' JStr (bp_newestTxid p) @
     [(''newestBlockHeight'', nullable (bp_newestBlockHeight p))] @ trace_json (bp_trace p)"

definition clearTraceFields :: "backfill_payload \<Rightarrow> backfill_payload" where
  "clearTraceFields p = p\<lparr>bp_trace := no_trace\<rparr>"

text \<open>The fields that make a saved payload worth resuming, on the object itself.\<close>

definition resumable_payload :: "payload \<Rightarrow> bool" where
  "resumable_payload p \<longleftrightarrow>
     non_null (jget p ''chainCursor'') \<or> nonempty_arr (jget p ''pendingTxids'') \<or>
     nonempty_arr (jget p ''pendingTxs'') \<or> is_true (jget p ''pagesExhausted'') \<or>
     non_null (jget p ''newestTxid'') \<or> is_true (jget p ''traceEdgesPending'')"

definition hasResumableBackfillState :: "backfill_state option \<Rightarrow> bool" where
  "hasResumableBackfillState saved =
     (case saved of
        None \<Rightarrow> False
      | Some b \<Rightarrow> \<not> bs_complete b \<and> (case bs_payload b of Some p \<Rightarrow> resumable_payload p | None \<Rightarrow> False))"

definition has_continuation :: "backfill_payload \<Rightarrow> bool" where
  "has_continuation p \<longleftrightarrow>
     bp_chainCursor p \<noteq> None \<or> nonempty_arr (jget (bp_pending p) ''pendingTxids'') \<or>
     nonempty_arr (jget (bp_pending p) ''pendingTxs'') \<or> bp_pagesExhausted p = Some True \<or>
     bp_newestTxid p \<noteq> None \<or> ts_pending (bp_trace p) = Some True"

definition hydrateBackfillPayload :: "payload \<Rightarrow> store \<Rightarrow> backfill_payload" where
  "hydrateBackfillPayload raw s =
     (let parsed = parseBackfillPayload raw
      in if has_continuation parsed then parsed
         else (case Option.bind (getBackfillState (bp_address parsed) s) bs_payload of
                 Some saved \<Rightarrow> parseBackfillPayload (obj_spread [(''address'', JStr (bp_address parsed))] saved)
               | None \<Rightarrow> parsed))"

definition buildBackfillJobPayload :: "address \<Rightarrow> store \<Rightarrow> payload" where
  "buildBackfillJobPayload a s =
     (case Option.bind (getBackfillState a s) bs_payload of
        Some saved \<Rightarrow> obj_spread [(''address'', JStr a)] saved
      | None \<Rightarrow> [(''address'', JStr a)])"

section \<open>The payload of a poll\<close>

record poll_payload =
  pp_address :: address
  pp_pending :: payload
  pp_pollFetched :: "bool option"
  pp_statsFetched :: bool
  pp_observed :: "int option"
  pp_newestTxid :: "txid option"
  pp_newestBlockHeight :: "int option"
  pp_cursorMiss :: bool
  pp_gapChecked :: bool
  pp_gapFill :: bool
  pp_chainCursor :: "txid option"
  pp_pagesExhausted :: bool
  pp_pagesFetched :: "int option"
  pp_fillUntil :: "txid option"

definition parsePollPayload :: "payload \<Rightarrow> poll_payload" where
  "parsePollPayload raw =
     (let (pending, idx) = readPendingRuntime raw
      in \<lparr>pp_address = payload_address raw, pp_pending = writePendingPayload pending idx None,
          pp_pollFetched = as_bool (jget raw ''pollFetched''),
          pp_statsFetched = is_true (jget raw ''statsFetched''),
          pp_observed = as_num (jget raw ''observedTxCount''),
          pp_newestTxid = as_str (jget raw ''newestTxid''),
          pp_newestBlockHeight = as_num (jget raw ''newestBlockHeight''),
          pp_cursorMiss = is_true (jget raw ''cursorMiss''), pp_gapChecked = is_true (jget raw ''gapChecked''),
          pp_gapFill = is_true (jget raw ''gapFill''), pp_chainCursor = as_str (jget raw ''chainCursor''),
          pp_pagesExhausted = is_true (jget raw ''pagesExhausted''),
          pp_pagesFetched = as_num (jget raw ''pagesFetched''),
          pp_fillUntil = as_str (jget raw ''fillUntilTxid'')\<rparr>)"

text \<open>\<open>...(flag ? { k: true } : {})\<close>.\<close>

definition flag_field :: "string \<Rightarrow> bool \<Rightarrow> payload" where
  "flag_field k b = (if b then [(k, JBool True)] else [])"

definition toPollJobPayload :: "poll_payload \<Rightarrow> payload" where
  "toPollJobPayload p =
     [(''address'', JStr (pp_address p))] @ pp_pending p @ field ''pollFetched'' JBool (pp_pollFetched p) @
     flag_field ''statsFetched'' (pp_statsFetched p) @ field ''observedTxCount'' JNum (pp_observed p) @
     field ''newestTxid'' JStr (pp_newestTxid p) @ [(''newestBlockHeight'', nullable (pp_newestBlockHeight p))] @
     flag_field ''cursorMiss'' (pp_cursorMiss p) @ flag_field ''gapChecked'' (pp_gapChecked p) @
     flag_field ''gapFill'' (pp_gapFill p) @ field ''chainCursor'' JStr (truthy (pp_chainCursor p)) @
     flag_field ''pagesExhausted'' (pp_pagesExhausted p) @ field ''pagesFetched'' JNum (pp_pagesFetched p) @
     field ''fillUntilTxid'' JStr (truthy (pp_fillUntil p))"

end
