(* ===== verification/BackfillJob.thy ===== *)
theory BackfillJob
  imports JobPayload
begin

text \<open>
  The body of \<open>backfill_hacker_address\<close> and \<open>audit_hacker_backfill\<close>
  (\<open>packages/core/src/indexer/processor.ts\<close>: \<open>backfillHacker\<close>, \<open>enqueueBackfillContinuation\<close>,
  \<open>withD1QuotaContinuationSave\<close>, \<open>auditHackerBackfill\<close>) and the operator's restarts.
\<close>

section \<open>Shared by the bodies\<close>

text \<open>
  What the loop hands to a body: whether there is a subrequest budget, and the hacker set when it was
  loaded before. The CPU guard is the world's.
\<close>

record job_opts =
  jo_subreq :: bool
  jo_hackers :: "address list option"

text \<open>\<open>JobRunStats\<close>, which the loop only logs; \<open>None\<close> is an absent field.\<close>

record job_stats =
  js_continued :: bool
  js_traceEdgeIndex :: "int option"
  js_traceEdgeTotal :: "int option"
  js_edgesApplied :: "int option"
  js_cpuGuard :: "bool option"

definition plain_stats :: "bool \<Rightarrow> job_stats" where
  "plain_stats b = \<lparr>js_continued = b, js_traceEdgeIndex = None, js_traceEdgeTotal = None,
     js_edgesApplied = None, js_cpuGuard = None\<rparr>"

definition jobStatsFromTrace :: "classified_result \<Rightarrow> job_stats" where
  "jobStatsFromTrace r = \<lparr>js_continued = True,
     js_traceEdgeIndex = Some (or_else (ts_index (pr_state r)) 0),
     js_traceEdgeTotal = Some (or_else (ts_total (pr_state r)) 0), js_edgesApplied = Some 0,
     js_cpuGuard = (if pr_cpuTripped r = Some True then Some True else None)\<rparr>"

type_synonym 'a act = "world \<Rightarrow> (job_error + 'a) \<times> world"

definition start_budget :: "config \<Rightarrow> world \<Rightarrow> world" where
  "start_budget cfg w = w\<lparr>w_budget := \<lparr>cb_max = maxChainCallsPerJob cfg, cb_used = 0\<rparr>\<rparr>"

definition spend_call :: "world \<Rightarrow> world" where
  "spend_call w = w\<lparr>w_budget := consumeCall (w_budget w)\<rparr>"

definition limited :: "config \<Rightarrow> bool" where
  "limited cfg \<longleftrightarrow> maxChainCallsPerJob cfg > 0"

text \<open>\<open>!jobSubreq || jobSubreq.canUse()\<close> and \<open>jobSubreq?.exhausted()\<close>.\<close>

definition subreq_room :: "chain_env \<Rightarrow> job_opts \<Rightarrow> world \<Rightarrow> bool \<times> world" where
  "subreq_room env jo w = (if jo_subreq jo then ask_canUse env w else (True, w))"

definition subreq_spent :: "chain_env \<Rightarrow> job_opts \<Rightarrow> world \<Rightarrow> bool \<times> world" where
  "subreq_spent env jo w = (if jo_subreq jo then ask_exhausted env w else (False, w))"

definition out_of_room :: "chain_env \<Rightarrow> config \<Rightarrow> job_opts \<Rightarrow> world \<Rightarrow> bool \<times> world" where
  "out_of_room env cfg jo w =
     (if limited cfg \<and> chain_exhausted (w_budget w) then (True, w) else subreq_spent env jo w)"

definition withD1QuotaContinuationSave :: "'b act \<Rightarrow> 'a act \<Rightarrow> 'a act" where
  "withD1QuotaContinuationSave save fn w =
     (case fn w of
        (Inl (D1_quota m k t), w1) \<Rightarrow>
          (case save w1 of
             (Inl e, w2) \<Rightarrow> (Inl e, w2)
           | (Inr x, w2) \<Rightarrow> (Inl (D1_quota m k t), w2))
      | r \<Rightarrow> r)"

definition captureOpReturnJobOpts :: "job_opts \<Rightarrow> world \<Rightarrow> capture_opts" where
  "captureOpReturnJobOpts jo w =
     \<lparr>co_allowGetTx = Some True, co_budget = True, co_subreq = jo_subreq jo, co_guard = (w_guard w \<noteq> None)\<rparr>"

definition hacker_set :: "job_opts \<Rightarrow> world \<Rightarrow> address list \<times> world" where
  "hacker_set jo w =
     (case jo_hackers jo of
        Some hs \<Rightarrow> (hs, w)
      | None \<Rightarrow> (let (hs, s) = getHackerAddressSet (w_store w) in (hs, w\<lparr>w_store := s\<rparr>)))"

text \<open>
  \<open>pending[i]\<close> for the indices from \<open>i\<close> on; below 0 the access is \<open>undefined\<close>, and reading a field
  of it throws.
\<close>

definition entries_from :: "int \<Rightarrow> pending_tx list \<Rightarrow> pending_tx option list" where
  "entries_from i ps = (if i < 0 then [None] else map Some (drop (nat i) ps))"

definition undefined_entry :: job_error where
  "undefined_entry = Other_error ''Cannot read properties of undefined''"

section \<open>Backfill\<close>

record backfill_vars =
  bv_pending :: "pending_tx list"
  bv_index :: int
  bv_cursor :: "txid option"
  bv_exhausted :: bool
  bv_newest :: "txid option"
  bv_height :: "int option"
  bv_trace :: trace_state

definition backfill_payload_of :: "config \<Rightarrow> address \<Rightarrow> trace_state \<Rightarrow> backfill_vars \<Rightarrow> backfill_payload" where
  "backfill_payload_of cfg a tr v =
     \<lparr>bp_address = a, bp_chainCursor = bv_cursor v,
      bp_pending = writePendingPayload (bv_pending v) (bv_index v) (Some cfg),
      bp_pagesExhausted = Some (bv_exhausted v), bp_newestTxid = bv_newest v,
      bp_newestBlockHeight = bv_height v, bp_trace = tr\<rparr>"

definition enqueueBackfillContinuation :: "backfill_payload \<Rightarrow> bool \<Rightarrow> store \<Rightarrow> store" where
  "enqueueBackfillContinuation p enqueue s =
     (let s1 = upsertBackfillState (bp_address p) (Some (toPersistedPayload p)) False s
      in if enqueue
         then snd (enqueueJob Backfill_hacker_address (toPersistedPayload p) BACKFILL_HACKER None False s1)
         else s1)"

definition save_backfill :: "backfill_payload \<Rightarrow> bool \<Rightarrow> unit act" where
  "save_backfill p enqueue w = (Inr (), on_store (enqueueBackfillContinuation p enqueue) w)"

definition backfill_vars_of :: "backfill_payload \<Rightarrow> backfill_vars" where
  "backfill_vars_of p =
     \<lparr>bv_pending = fst (readPendingRuntime (bp_pending p)),
      bv_index = or_else (as_num (jget (bp_pending p) ''processedIndex'')) 0,
      bv_cursor = bp_chainCursor p, bv_exhausted = or_else (bp_pagesExhausted p) False,
      bv_newest = bp_newestTxid p, bv_height = bp_newestBlockHeight p, bv_trace = bp_trace p\<rparr>"

text \<open>The page, oldest transaction first.\<close>

definition take_page :: "address \<Rightarrow> chain_tx list \<Rightarrow> backfill_vars \<Rightarrow> backfill_vars" where
  "take_page a txs v =
     (case txs of
        [] \<Rightarrow> v\<lparr>bv_exhausted := True\<rparr>
      | tx # _ \<Rightarrow>
          (let v1 = (if truthy (bv_newest v) = None
                     then v\<lparr>bv_newest := Some (ctx_txid tx), bv_height := blockHeightOf tx\<rparr> else v)
           in v1\<lparr>bv_pending := classifyPageTxs (rev txs) a, bv_index := 0,
                 bv_cursor := Some (ctx_txid (last txs))\<rparr>))"

definition has_pending :: "backfill_vars \<Rightarrow> bool" where
  "has_pending v \<longleftrightarrow> bv_index v < int (length (bv_pending v))"

text \<open>The fetch of a page. \<open>Inr (v, True)\<close>: the run ends here, with its continuation saved.\<close>

definition backfill_fetch ::
  "chain_env \<Rightarrow> config \<Rightarrow> address \<Rightarrow> job_opts \<Rightarrow> bool \<Rightarrow> backfill_vars \<Rightarrow> (backfill_vars \<times> bool) act" where
  "backfill_fetch env cfg a jo enqueue v w =
     (if \<not> ((\<not> limited cfg \<or> \<not> has_pending v) \<and> (\<not> has_pending v \<and> \<not> bv_exhausted v) \<and> canCall (w_budget w))
      then (Inr (v, False), w)
      else
        let (room, w0) = subreq_room env jo w
        in if \<not> room then (Inr (v, False), w0)
           else
             case fetchAddressTxPage env a (bv_cursor v) w0 of
               (Inl e, w1) \<Rightarrow> (Inl e, w1)
             | (Inr txs, w1) \<Rightarrow>
                 (let w2 = spend_call w1; v1 = take_page a txs v; (out, w3) = out_of_room env cfg jo w2
                  in if out \<and> (has_pending v1 \<or> \<not> bv_exhausted v1)
                     then (Inr (v1, True),
                           on_store (enqueueBackfillContinuation (backfill_payload_of cfg a no_trace v1) enqueue) w3)
                     else (Inr (v1, False), w3)))"

record loop_counts =
  lc_limit :: int
  lc_processed :: int
  lc_skipped :: int

definition skippable :: "config \<Rightarrow> backfill_vars \<Rightarrow> loop_counts \<Rightarrow> pending_tx \<Rightarrow> bool" where
  "skippable cfg v n e \<longleftrightarrow>
     \<not> traceFlaggedHackerReceives cfg \<and> \<not> trace_active (bv_trace v) (c_txid e) \<and> isSpend e = Some False \<and>
     lc_skipped n < backfillSkipReceivesPerJob cfg"

definition may_process :: "chain_env \<Rightarrow> job_opts \<Rightarrow> loop_counts \<Rightarrow> world \<Rightarrow> bool \<times> world" where
  "may_process env jo n w =
     (if lc_processed n < lc_limit n \<and> canCall (w_budget w)
      then let (room, w1) = subreq_room env jo w in (room \<and> \<not> cpu_exceeded w1, w1)
      else (False, w))"

definition classified_job_opts :: "string option \<Rightarrow> job_opts \<Rightarrow> world \<Rightarrow> classified_opts" where
  "classified_job_opts profile jo w =
     \<lparr>cl_expandProfile = profile, cl_skipIfIndexed = None, cl_guarded = (w_guard w \<noteq> None),
      cl_capture = Some (captureOpReturnJobOpts jo w)\<rparr>"

definition step_entry ::
  "chain_env \<Rightarrow> config \<Rightarrow> address \<Rightarrow> int \<Rightarrow> string option \<Rightarrow> job_opts \<Rightarrow> address list \<Rightarrow> unit act
   \<Rightarrow> trace_state \<Rightarrow> pending_tx \<Rightarrow> classified_result act" where
  "step_entry env cfg a hop profile jo hackers save tr e w =
     withD1QuotaContinuationSave save
       (processClassifiedPendingTx env cfg a hop e hackers tr (classified_job_opts profile jo w)) w"

definition charge_calls :: "classified_result \<Rightarrow> world \<Rightarrow> world" where
  "charge_calls r w = (if pr_calls r > 0 then spend_call w else w)"

definition stop_now :: "chain_env \<Rightarrow> config \<Rightarrow> job_opts \<Rightarrow> world \<Rightarrow> bool \<times> world" where
  "stop_now env cfg jo w =
     (let (out, w1) = out_of_room env cfg jo w in (out \<or> cpu_exceeded w1, w1))"

text \<open>
  The loop over the pending entries; \<open>Some r\<close> is a trace that asks to be continued, on the entry the
  index points to.
\<close>

fun backfill_loop ::
  "chain_env \<Rightarrow> config \<Rightarrow> address \<Rightarrow> string option \<Rightarrow> job_opts \<Rightarrow> address list \<Rightarrow> bool \<Rightarrow> loop_counts
   \<Rightarrow> pending_tx option list \<Rightarrow> backfill_vars \<Rightarrow> (backfill_vars \<times> classified_result option) act" where
  "backfill_loop env cfg a profile jo hackers enqueue n [] v w = (Inr (v, None), w)"
| "backfill_loop env cfg a profile jo hackers enqueue n (x # xs) v w =
     (let (go, w0) = may_process env jo n w
      in if \<not> go then (Inr (v, None), w0)
         else case x of
           None \<Rightarrow> (Inl undefined_entry, w0)
         | Some e \<Rightarrow>
             if skippable cfg v n e
             then backfill_loop env cfg a profile jo hackers enqueue (n\<lparr>lc_skipped := lc_skipped n + 1\<rparr>) xs
                    (v\<lparr>bv_index := bv_index v + 1\<rparr>) w0
             else
               case step_entry env cfg a 0 profile jo hackers
                      (save_backfill (clearTraceFields (backfill_payload_of cfg a (bv_trace v) v)) enqueue)
                      (bv_trace v) e w0 of
                 (Inl er, w1) \<Rightarrow> (Inl er, w1)
               | (Inr r, w1) \<Rightarrow>
                   let w2 = charge_calls r w1
                   in if pr_continued r then (Inr (v, Some r), w2)
                      else
                        let v1 = v\<lparr>bv_index := bv_index v + 1, bv_trace := pr_state r\<rparr>;
                            (stop, w3) = stop_now env cfg jo w2
                        in if stop then (Inr (v1, None), w3)
                           else backfill_loop env cfg a profile jo hackers enqueue
                                  (n\<lparr>lc_processed := lc_processed n + 1\<rparr>) xs v1 w3)"

text \<open>The end of a run: the continuation, or the completion of the backfill.\<close>

definition backfill_finish :: "config \<Rightarrow> address \<Rightarrow> bool \<Rightarrow> backfill_vars \<Rightarrow> store \<Rightarrow> job_stats \<times> store" where
  "backfill_finish cfg a enqueue v s =
     (if has_pending v \<or> \<not> bv_exhausted v \<or> ts_pending (bv_trace v) = Some True
      then (plain_stats True,
            enqueueBackfillContinuation (clearTraceFields (backfill_payload_of cfg a (bv_trace v) v)) enqueue s)
      else
        let s1 = (case truthy (bv_newest v) of
                    Some t \<Rightarrow> upsertSyncState a \<lparr>sp_lastSeenTxid = Some t, sp_lastBlockHeight = bv_height v,
                                sp_observed = None\<rparr> s
                  | None \<Rightarrow> s)
        in (plain_stats False, setExpandStatus a XExpanded (upsertBackfillState a None True s1)))"

definition backfill_process ::
  "chain_env \<Rightarrow> config \<Rightarrow> address \<Rightarrow> job_opts \<Rightarrow> address list \<Rightarrow> bool \<Rightarrow> backfill_vars \<Rightarrow> job_stats act" where
  "backfill_process env cfg a jo hackers enqueue v w =
     (let profile = (case getAddress a (w_store w) of Some r \<Rightarrow> expandProfile r | None \<Rightarrow> None);
          n = \<lparr>lc_limit = processBatchLimit (backfillTxsPerJob cfg) (w_budget w), lc_processed = 0, lc_skipped = 0\<rparr>
      in case backfill_loop env cfg a profile jo hackers enqueue n (entries_from (bv_index v) (bv_pending v)) v w of
           (Inl e, w1) \<Rightarrow> (Inl e, w1)
         | (Inr (v1, Some r), w1) \<Rightarrow>
             (Inr (jobStatsFromTrace r),
              on_store (enqueueBackfillContinuation (backfill_payload_of cfg a (pr_state r) v1) enqueue) w1)
         | (Inr (v1, None), w1) \<Rightarrow>
             (let (st, s) = backfill_finish cfg a enqueue v1 (w_store w1) in (Inr st, w1\<lparr>w_store := s\<rparr>)))"

definition backfillHacker ::
  "chain_env \<Rightarrow> config \<Rightarrow> payload \<Rightarrow> bool \<Rightarrow> job_opts \<Rightarrow> job_stats act" where
  "backfillHacker env cfg raw enqueue jo w =
     (let p = hydrateBackfillPayload raw (w_store w); a = bp_address p;
          (hackers, w1) = hacker_set jo w;
          w2 = start_budget cfg (on_store (setExpandStatus a XBackfilling) w1)
      in case backfill_fetch env cfg a jo enqueue (backfill_vars_of p) w2 of
           (Inl e, w3) \<Rightarrow> (Inl e, w3)
         | (Inr (v, True), w3) \<Rightarrow> (Inr (plain_stats True), w3)
         | (Inr (v, False), w3) \<Rightarrow> backfill_process env cfg a jo hackers enqueue v w3)"

section \<open>Audit and restarts\<close>

definition auditHackerBackfill :: "chain_env \<Rightarrow> config \<Rightarrow> address \<Rightarrow> unit act" where
  "auditHackerBackfill env cfg a w =
     (case getAddressStats env a w of
        (Inl e, w1) \<Rightarrow> (Inl e, w1)
      | (Inr st, w1) \<Rightarrow>
          (let s1 = applyAddressStats a st (w_store w1);
               n = as_chainTxCount st;
               indexed = countIndexedTxsForHacker a s1;
               s2 = updateBackfillAudit a n s1;
               s3 = (if n > indexed + backfillHealTxSlack cfg
                     then (let s = upsertBackfillState a None False (setExpandStatus a XBackfilling s2)
                           in snd (enqueueJobIfAbsent Backfill_hacker_address (buildBackfillJobPayload a s)
                                     BACKFILL_HACKER None (Some BACKFILL_DEDUPE_TYPES) (Some a) False s))
                     else upsertBackfillState a None True s2)
           in (Inr (), w1\<lparr>w_store := s3\<rparr>)))"

definition runReBackfillHacker :: "address \<Rightarrow> store \<Rightarrow> store" where
  "runReBackfillHacker a s = upsertBackfillState a None False (setExpandStatus a XPending s)"

definition rebackfill_one :: "bool \<Rightarrow> addr_row \<Rightarrow> int \<times> int \<times> store \<Rightarrow> int \<times> int \<times> store" where
  "rebackfill_one fresh h st =
     (case st of (delay, queued, s) \<Rightarrow>
        let a = address_of h; saved = getBackfillState a s
        in if \<not> fresh \<and> (case saved of Some b \<Rightarrow> bs_complete b | None \<Rightarrow> False) then st
           else
             let (p, s1) =
               (if fresh then ([(''address'', JStr a)], runReBackfillHacker a s)
                else if hasResumableBackfillState saved
                then (buildBackfillJobPayload a s, setExpandStatus a XBackfilling s)
                else ([(''address'', JStr a)], runReBackfillHacker a s))
             in (delay + 5, queued + 1,
                 snd (enqueueJob Backfill_hacker_address p BACKFILL_HACKER (Some (clock s + delay * 1000)) False s1)))"

definition runReBackfillHackers :: "bool \<Rightarrow> store \<Rightarrow> int \<times> store" where
  "runReBackfillHackers fresh s =
     (let (hackers, s0) = listHackersCached None False s;
          (d, queued, s1) = fold (rebackfill_one fresh) hackers (0, 0, s0)
      in (queued, s1))"

end
