(* ===== verification/PollJob.thy ===== *)
theory PollJob
  imports BackfillJob
begin

text \<open>
  The bodies of \<open>poll_hacker_address\<close> and \<open>poll_downstream_address\<close>
  (\<open>packages/core/src/indexer/processor.ts\<close>: \<open>pollHacker\<close>, \<open>processAddressTxs\<close>,
  \<open>pollDownstream\<close>). A stage that can return early gives \<open>None\<close> when it did.
\<close>

record poll_vars =
  pv_pending :: "pending_tx list"
  pv_index :: int
  pv_fetched :: bool
  pv_stats :: bool
  pv_observed :: "int option"
  pv_newest :: "txid option"
  pv_height :: "int option"
  pv_miss :: bool
  pv_gapChecked :: bool
  pv_gapFill :: bool
  pv_cursor :: "txid option"
  pv_exhausted :: bool
  pv_pages :: int
  pv_fill :: "txid option"

definition poll_vars_of :: "poll_payload \<Rightarrow> poll_vars" where
  "poll_vars_of p =
     \<lparr>pv_pending = fst (readPendingRuntime (pp_pending p)),
      pv_index = or_else (as_num (jget (pp_pending p) ''processedIndex'')) 0,
      pv_fetched = or_else (pp_pollFetched p) False, pv_stats = pp_statsFetched p,
      pv_observed = pp_observed p, pv_newest = pp_newestTxid p, pv_height = pp_newestBlockHeight p,
      pv_miss = pp_cursorMiss p, pv_gapChecked = pp_gapChecked p, pv_gapFill = pp_gapFill p,
      pv_cursor = pp_chainCursor p, pv_exhausted = pp_pagesExhausted p,
      pv_pages = or_else (pp_pagesFetched p) 0, pv_fill = pp_fillUntil p\<rparr>"

definition poll_pending :: "poll_vars \<Rightarrow> bool" where
  "poll_pending v \<longleftrightarrow> pv_index v < int (length (pv_pending v))"

definition poll_limit :: "config \<Rightarrow> poll_vars \<Rightarrow> world \<Rightarrow> int" where
  "poll_limit cfg v w =
     (if limited cfg then processBatchLimit 1 (w_budget w) else int (length (pv_pending v)) - pv_index v)"

definition enqueue_poll :: "job_type \<Rightarrow> int \<Rightarrow> poll_payload \<Rightarrow> world \<Rightarrow> world" where
  "enqueue_poll ty prio p = on_store (\<lambda>s. snd (enqueueJob ty (toPollJobPayload p) prio None False s))"

section \<open>Polling a hacker\<close>

definition hacker_poll_payload :: "config \<Rightarrow> address \<Rightarrow> bool \<Rightarrow> poll_vars \<Rightarrow> poll_payload" where
  "hacker_poll_payload cfg a fetched v =
     \<lparr>pp_address = a, pp_pending = writePendingPayload (pv_pending v) (pv_index v) (Some cfg),
      pp_pollFetched = Some fetched, pp_statsFetched = True, pp_observed = pv_observed v,
      pp_newestTxid = pv_newest v, pp_newestBlockHeight = pv_height v, pp_cursorMiss = False,
      pp_gapChecked = False, pp_gapFill = False, pp_chainCursor = None, pp_pagesExhausted = False,
      pp_pagesFetched = None, pp_fillUntil = None\<rparr>"

definition stats_only_payload :: "address \<Rightarrow> int option \<Rightarrow> poll_payload" where
  "stats_only_payload a observed =
     \<lparr>pp_address = a, pp_pending = [], pp_pollFetched = Some False, pp_statsFetched = True,
      pp_observed = observed, pp_newestTxid = None, pp_newestBlockHeight = None, pp_cursorMiss = False,
      pp_gapChecked = False, pp_gapFill = False, pp_chainCursor = None, pp_pagesExhausted = False,
      pp_pagesFetched = None, pp_fillUntil = None\<rparr>"

definition touch_observed :: "address \<Rightarrow> int option \<Rightarrow> world \<Rightarrow> world" where
  "touch_observed a observed = on_store (touchSyncPoll a (Some (lastObservedTxCountPatch observed)))"

definition last_seen :: "address \<Rightarrow> store \<Rightarrow> txid option" where
  "last_seen a s = (case getSyncState a s of Some r \<Rightarrow> lastSeenTxid r | None \<Rightarrow> None)"

text \<open>
  The statistics of the address, unless an earlier run fetched them. The continuation is what is
  enqueued when the budget allows no second call.
\<close>

definition poll_stats ::
  "chain_env \<Rightarrow> config \<Rightarrow> address \<Rightarrow> job_type \<Rightarrow> int \<Rightarrow> (poll_vars \<Rightarrow> poll_payload) \<Rightarrow> poll_vars
   \<Rightarrow> poll_vars option act" where
  "poll_stats env cfg a ty prio cont v w =
     (if pv_stats v then (Inr (Some v), w)
      else
        case probePollAddressStats env a w of
          (Inl e, w1) \<Rightarrow> (Inl e, w1)
        | (Inr (n, skip), w1) \<Rightarrow>
            (let w2 = spend_call w1; v1 = v\<lparr>pv_observed := Some n, pv_stats := True\<rparr>
             in if skip then (Inr None, touch_observed a (Some n) w2)
                else if limited cfg \<and> chain_exhausted (w_budget w2)
                then (Inr None, enqueue_poll ty prio (cont v1) w2)
                else (Inr (Some v1), w2)))"

definition hacker_page :: "config \<Rightarrow> address \<Rightarrow> chain_tx list \<Rightarrow> poll_vars \<Rightarrow> poll_vars option act" where
  "hacker_page cfg a page v w =
     (case page of
        [] \<Rightarrow> (Inr None, touch_observed a (pv_observed v) w)
      | tx # _ \<Rightarrow>
          (case sliceNewerThanLastSeen page (last_seen a (w_store w)) of
             (newer, found, i) \<Rightarrow>
               if \<not> found then (Inr None, on_store (touchSyncPoll a None) w)
               else
                 let v1 = v\<lparr>pv_newest := Some (ctx_txid tx), pv_height := blockHeightOf tx,
                             pv_pending := classifyPageTxs (rev newer) a, pv_index := 0,
                             pv_fetched := True, pv_miss := False\<rparr>
                 in if limited cfg \<and> chain_exhausted (w_budget w)
                    then (Inr None, enqueue_poll Poll_hacker_address POLL_HACKER (hacker_poll_payload cfg a True v1) w)
                    else (Inr (Some v1), w)))"

definition hacker_fetch :: "chain_env \<Rightarrow> config \<Rightarrow> address \<Rightarrow> poll_vars \<Rightarrow> poll_vars option act" where
  "hacker_fetch env cfg a v w =
     (if \<not> (\<not> pv_fetched v \<and> \<not> poll_pending v \<and> canCall (w_budget w)) then (Inr (Some v), w)
      else
        case poll_stats env cfg a Poll_hacker_address POLL_HACKER (\<lambda>v1. stats_only_payload a (pv_observed v1)) v w of
          (Inl e, w1) \<Rightarrow> (Inl e, w1)
        | (Inr None, w1) \<Rightarrow> (Inr None, w1)
        | (Inr (Some v1), w1) \<Rightarrow>
            (case fetchAddressTxPage env a None w1 of
               (Inl e, w2) \<Rightarrow> (Inl e, w2)
             | (Inr page, w2) \<Rightarrow> hacker_page cfg a page v1 (spend_call w2)))"

text \<open>The result of the trace is not looked at: a trace to be continued counts as processed.\<close>

fun hacker_loop ::
  "chain_env \<Rightarrow> config \<Rightarrow> address \<Rightarrow> job_opts \<Rightarrow> address list \<Rightarrow> nat \<Rightarrow> pending_tx option list \<Rightarrow> poll_vars
   \<Rightarrow> poll_vars act" where
  "hacker_loop env cfg a jo hackers 0 xs v w = (Inr v, w)"
| "hacker_loop env cfg a jo hackers n [] v w = (Inr v, w)"
| "hacker_loop env cfg a jo hackers (Suc n) (x # xs) v w =
     (if \<not> canCall (w_budget w) \<or> cpu_exceeded w then (Inr v, w)
      else case x of
        None \<Rightarrow> (Inl undefined_entry, w)
      | Some e \<Rightarrow>
          case withD1QuotaContinuationSave
                 (\<lambda>w. (Inr (), enqueue_poll Poll_hacker_address POLL_HACKER (hacker_poll_payload cfg a True v) w))
                 (processClassifiedPendingTx env cfg a 0 e hackers no_trace
                    ((classified_job_opts None jo w)\<lparr>cl_skipIfIndexed := Some False\<rparr>)) w of
            (Inl er, w1) \<Rightarrow> (Inl er, w1)
          | (Inr r, w1) \<Rightarrow>
              let w2 = charge_calls r w1; v1 = v\<lparr>pv_index := pv_index v + 1\<rparr>
              in if limited cfg \<and> chain_exhausted (w_budget w2) then (Inr v1, w2)
                 else hacker_loop env cfg a jo hackers n xs v1 w2)"

definition observed_sync :: "poll_vars \<Rightarrow> sync_patch" where
  "observed_sync v = \<lparr>sp_lastSeenTxid = pv_newest v, sp_lastBlockHeight = pv_height v,
     sp_observed = lastObservedTxCountPatch (pv_observed v)\<rparr>"

definition hacker_finish :: "config \<Rightarrow> address \<Rightarrow> poll_vars \<Rightarrow> world \<Rightarrow> world" where
  "hacker_finish cfg a v w =
     (if poll_pending v
      then enqueue_poll Poll_hacker_address POLL_HACKER (hacker_poll_payload cfg a True v) w
      else if pv_fetched v \<and> truthy (pv_newest v) \<noteq> None \<and> \<not> pv_miss v
      then on_store (upsertSyncState a (observed_sync v)) w
      else if \<not> pv_fetched v then on_store (touchSyncPoll a None) w
      else w)"

definition pollHacker :: "chain_env \<Rightarrow> config \<Rightarrow> payload \<Rightarrow> job_opts \<Rightarrow> unit act" where
  "pollHacker env cfg raw jo w =
     (let p = parsePollPayload raw; a = pp_address p
      in case hacker_fetch env cfg a (poll_vars_of p) (start_budget cfg w) of
           (Inl e, w1) \<Rightarrow> (Inl e, w1)
         | (Inr None, w1) \<Rightarrow> (Inr (), w1)
         | (Inr (Some v), w1) \<Rightarrow>
             (let (hackers, w2) = hacker_set jo w1
              in case hacker_loop env cfg a jo hackers (nat (poll_limit cfg v w2))
                        (entries_from (pv_index v) (pv_pending v)) v w2 of
                   (Inl e, w3) \<Rightarrow> (Inl e, w3)
                 | (Inr v1, w3) \<Rightarrow> (Inr (), hacker_finish cfg a v1 w3)))"

section \<open>Polling a downstream address\<close>

text \<open>\<open>processAddressTxs\<close>; the result is the trace to continue, if one is.\<close>

fun processAddressTxs ::
  "chain_env \<Rightarrow> config \<Rightarrow> address \<Rightarrow> pending_tx option list \<Rightarrow> address list \<Rightarrow> int \<Rightarrow> int option \<Rightarrow> int
   \<Rightarrow> trace_state \<Rightarrow> string option \<Rightarrow> trace_state option act" where
  "processAddressTxs env cfg a [] hackers hop maxCalls calls tr profile w = (Inr None, w)"
| "processAddressTxs env cfg a (x # xs) hackers hop maxCalls calls tr profile w =
     (if (case maxCalls of Some m \<Rightarrow> calls \<ge> m | None \<Rightarrow> False) \<or> cpu_exceeded w then (Inr None, w)
      else case x of
        None \<Rightarrow> (Inl undefined_entry, w)
      | Some e \<Rightarrow>
          case processClassifiedPendingTx env cfg a hop e hackers tr
                 (classified_job_opts profile \<lparr>jo_subreq = False, jo_hackers = None\<rparr> w) w of
            (Inl er, w1) \<Rightarrow> (Inl er, w1)
          | (Inr r, w1) \<Rightarrow>
              if pr_continued r then (Inr (Some (pr_state r)), w1)
              else processAddressTxs env cfg a xs hackers hop maxCalls (calls + pr_calls r) (pr_state r) profile w1)"

definition poll_fields :: "config \<Rightarrow> address \<Rightarrow> poll_vars \<Rightarrow> poll_payload" where
  "poll_fields cfg a v =
     \<lparr>pp_address = a, pp_pending = writePendingPayload (pv_pending v) (pv_index v) (Some cfg),
      pp_pollFetched = Some (pv_fetched v), pp_statsFetched = pv_stats v, pp_observed = pv_observed v,
      pp_newestTxid = pv_newest v, pp_newestBlockHeight = pv_height v, pp_cursorMiss = pv_miss v,
      pp_gapChecked = pv_gapChecked v, pp_gapFill = pv_gapFill v, pp_chainCursor = pv_cursor v,
      pp_pagesExhausted = pv_exhausted v, pp_pagesFetched = Some (pv_pages v), pp_fillUntil = pv_fill v\<rparr>"

definition enqueue_down :: "config \<Rightarrow> address \<Rightarrow> poll_vars \<Rightarrow> world \<Rightarrow> world" where
  "enqueue_down cfg a v = enqueue_poll Poll_downstream_address POLL_DOWNSTREAM (poll_fields cfg a v)"

definition max_pages :: "config \<Rightarrow> int" where
  "max_pages cfg = max 1 (- ((- backfillMaxTxs cfg) div 25))"

definition down_page :: "config \<Rightarrow> address \<Rightarrow> chain_tx list \<Rightarrow> poll_vars \<Rightarrow> poll_vars option act" where
  "down_page cfg a page v w =
     (case page of
        [] \<Rightarrow> (Inr None, touch_observed a (pv_observed v) w)
      | tx # _ \<Rightarrow>
          (case sliceNewerThanLastSeen page (last_seen a (w_store w)) of
             (newer, found, i) \<Rightarrow>
               (let v0 = v\<lparr>pv_newest := Some (ctx_txid tx), pv_height := blockHeightOf tx,
                            pv_fetched := True, pv_pages := 1, pv_index := 0\<rparr>;
                    v1 = (if found then v0\<lparr>pv_pending := classifyPageTxs newer a, pv_miss := False\<rparr>
                          else v0\<lparr>pv_miss := True, pv_fill := last_seen a (w_store w),
                                   pv_cursor := Some (ctx_txid (last page)),
                                   pv_pending := pendingGapFillTxs page a\<rparr>)
                in if limited cfg \<and> chain_exhausted (w_budget w) then (Inr None, enqueue_down cfg a v1 w)
                   else (Inr (Some v1), w))))"

definition down_fetch :: "chain_env \<Rightarrow> config \<Rightarrow> address \<Rightarrow> poll_vars \<Rightarrow> poll_vars option act" where
  "down_fetch env cfg a v w =
     (if \<not> (\<not> pv_fetched v \<and> \<not> poll_pending v \<and> canCall (w_budget w)) then (Inr (Some v), w)
      else
        case poll_stats env cfg a Poll_downstream_address POLL_DOWNSTREAM (poll_fields cfg a) v w of
          (Inl e, w1) \<Rightarrow> (Inl e, w1)
        | (Inr None, w1) \<Rightarrow> (Inr None, w1)
        | (Inr (Some v1), w1) \<Rightarrow>
            (case fetchAddressTxPage env a None w1 of
               (Inl e, w2) \<Rightarrow> (Inl e, w2)
             | (Inr page, w2) \<Rightarrow> down_page cfg a page v1 (spend_call w2)))"

definition chain_spent :: "addr_stats \<Rightarrow> int" where
  "chain_spent st = as_chainSpent st + (case mempool_part st of (f, spent, n) \<Rightarrow> spent)"

text \<open>Whether more was spent than the edges show; \<open>needs\<close> is \<open>needsProcess\<close> of the start of the run.\<close>

definition gap_check :: "chain_env \<Rightarrow> config \<Rightarrow> address \<Rightarrow> bool \<Rightarrow> poll_vars \<Rightarrow> poll_vars option act" where
  "gap_check env cfg a needs v w =
     (if \<not> (pv_fetched v \<and> pv_miss v \<and> \<not> pv_gapChecked v \<and> \<not> needs \<and> \<not> poll_pending v \<and> canCall (w_budget w))
      then (Inr (Some v), w)
      else
        case getAddressStats env a w of
          (Inl e, w1) \<Rightarrow> (Inl e, w1)
        | (Inr st, w1) \<Rightarrow>
            (let w2 = on_store (applyAddressStats a st) (spend_call w1);
                 v1 = v\<lparr>pv_observed := Some (observedTxCountFromStats st), pv_gapChecked := True\<rparr>
             in if \<not> spendGapExceedsFloor (chain_spent st) (sumOutFromHacker a (w_store w2)) (minExpandSats cfg)
                then (Inr None,
                      if truthy (pv_newest v1) \<noteq> None then on_store (upsertSyncState a (observed_sync v1)) w2
                      else touch_observed a (pv_observed v1) w2)
                else
                  let v2 = v1\<lparr>pv_gapFill := True\<rparr>
                  in if limited cfg \<and> chain_exhausted (w_budget w2) then (Inr None, enqueue_down cfg a v2 w2)
                     else (Inr (Some v2), w2)))"

definition gap_page :: "config \<Rightarrow> address \<Rightarrow> chain_tx list \<Rightarrow> poll_vars \<Rightarrow> poll_vars" where
  "gap_page cfg a txs v =
     (let v0 = v\<lparr>pv_pages := pv_pages v + 1, pv_index := 0\<rparr>
      in case txs of
           [] \<Rightarrow> v0\<lparr>pv_exhausted := True, pv_pending := []\<rparr>
         | _ \<Rightarrow>
             (case sliceNewerThanLastSeen txs (pv_fill v) of
                (newer, found, i) \<Rightarrow>
                  v0\<lparr>pv_cursor := Some (ctx_txid (last txs)), pv_pending := pendingGapFillTxs newer a,
                      pv_exhausted := pv_exhausted v \<or> found \<or> pv_pages v0 \<ge> max_pages cfg\<rparr>))"

definition gap_fill :: "chain_env \<Rightarrow> config \<Rightarrow> address \<Rightarrow> poll_vars \<Rightarrow> poll_vars option act" where
  "gap_fill env cfg a v w =
     (if pv_fetched v \<and> pv_gapFill v \<and> \<not> pv_exhausted v \<and> \<not> poll_pending v \<and> pv_pages v < max_pages cfg \<and>
         canCall (w_budget w) \<and> truthy (pv_cursor v) \<noteq> None
      then
        case fetchAddressTxPage env a (pv_cursor v) w of
          (Inl e, w1) \<Rightarrow> (Inl e, w1)
        | (Inr txs, w1) \<Rightarrow>
            (let w2 = spend_call w1; v1 = gap_page cfg a txs v
             in if limited cfg \<and> chain_exhausted (w_budget w2) \<and> (poll_pending v1 \<or> \<not> pv_exhausted v1)
                then (Inr None, enqueue_down cfg a v1 w2) else (Inr (Some v1), w2))
      else if pv_gapFill v \<and> pv_pages v \<ge> max_pages cfg then (Inr (Some (v\<lparr>pv_exhausted := True\<rparr>)), w)
      else (Inr (Some v), w))"

text \<open>The batch is taken off the pending list before it is processed.\<close>

definition down_process ::
  "chain_env \<Rightarrow> config \<Rightarrow> address \<Rightarrow> job_opts \<Rightarrow> int \<Rightarrow> string option \<Rightarrow> poll_vars \<Rightarrow> poll_vars act" where
  "down_process env cfg a jo hop profile v w0 =
     (let (hackers, w) = hacker_set jo w0;
          batch = (if canCall (w_budget w) \<and> \<not> cpu_exceeded w
                   then take (nat (poll_limit cfg v w)) (entries_from (pv_index v) (pv_pending v)) else []);
          v1 = v\<lparr>pv_index := pv_index v + int (length batch)\<rparr>
      in if batch = [] then (Inr v1, w)
         else
           case withD1QuotaContinuationSave (\<lambda>w. (Inr (), enqueue_down cfg a v1 w))
                  (processAddressTxs env cfg a batch hackers hop (if limited cfg then Some 1 else None) 0
                     no_trace profile) w of
             (Inl e, w1) \<Rightarrow> (Inl e, w1)
           | (Inr tr, w1) \<Rightarrow> (Inr v1, if limited cfg then spend_call w1 else w1))"

definition down_finish :: "config \<Rightarrow> address \<Rightarrow> poll_vars \<Rightarrow> world \<Rightarrow> world" where
  "down_finish cfg a v w =
     (let pend = poll_pending v;
          needsGapCheck = (pv_miss v \<and> \<not> pv_gapChecked v \<and> \<not> pend);
          needsGapFill = (pv_gapFill v \<and> \<not> pv_exhausted v \<and> \<not> pend)
      in if pend \<or> needsGapCheck \<or> needsGapFill then enqueue_down cfg a v w
         else if pv_fetched v \<and> truthy (pv_newest v) \<noteq> None \<and> (\<not> pv_miss v \<or> pv_gapChecked v)
         then on_store (upsertSyncState a (observed_sync v)) w
         else if \<not> pv_fetched v then on_store (touchSyncPoll a None) w
         else w)"

definition pollDownstream :: "chain_env \<Rightarrow> config \<Rightarrow> payload \<Rightarrow> job_opts \<Rightarrow> unit act" where
  "pollDownstream env cfg raw jo w =
     (let p = parsePollPayload raw; a = pp_address p; row = getAddress a (w_store w);
          v = poll_vars_of p; needs = poll_pending v;
          hop = (case row of Some r \<Rightarrow> or_else (hopFromHacker r) 0 | None \<Rightarrow> 0);
          profile = (case row of Some r \<Rightarrow> expandProfile r | None \<Rightarrow> None)
      in if \<not> qualifiesForExpand (case row of Some r \<Rightarrow> inboundSats r | None \<Rightarrow> 0) (minExpandSats cfg)
         then (Inr (), w)
         else
           case down_fetch env cfg a v (start_budget cfg w) of
             (Inl e, w1) \<Rightarrow> (Inl e, w1)
           | (Inr None, w1) \<Rightarrow> (Inr (), w1)
           | (Inr (Some v1), w1) \<Rightarrow>
               (case gap_check env cfg a needs v1 w1 of
                  (Inl e, w2) \<Rightarrow> (Inl e, w2)
                | (Inr None, w2) \<Rightarrow> (Inr (), w2)
                | (Inr (Some v2), w2) \<Rightarrow>
                    (case gap_fill env cfg a v2 w2 of
                       (Inl e, w3) \<Rightarrow> (Inl e, w3)
                     | (Inr None, w3) \<Rightarrow> (Inr (), w3)
                     | (Inr (Some v3), w3) \<Rightarrow>
                         (case down_process env cfg a jo hop profile v3 w3 of
                            (Inl e, w4) \<Rightarrow> (Inl e, w4)
                          | (Inr v4, w4) \<Rightarrow> (Inr (), down_finish cfg a v4 w4)))))"

end
