(* ===== verification/ExpandJob.thy ===== *)
theory ExpandJob
  imports PollJob
begin

text \<open>
  The body of \<open>expand_downstream\<close> (\<open>packages/core/src/indexer/processor.ts\<close>:
  \<open>enqueueExpandContinuation\<close>, \<open>expandDownstream\<close>): the pages of a downstream address are traced
  forward, until the depth limit.
\<close>

definition enqueueExpandContinuation :: "payload \<Rightarrow> unit act" where
  "enqueueExpandContinuation p w =
     (case enqueueJob Expand_downstream p (resolveExpandJobPriority p) None False (w_store w) of
        (Some i, s) \<Rightarrow> (Inr (), w\<lparr>w_store := s\<rparr>)
      | (None, s) \<Rightarrow> (Inl (Enqueue_blocked (if isQueueSchedulingPaused s then Queue_paused else Expand_cap)),
                       w\<lparr>w_store := s\<rparr>))"

record expand_vars =
  ev_base :: backfill_vars
  ev_pages :: int
  ev_ops :: "bool \<times> int option" \<comment> \<open>\<open>expandOpsFields\<close>\<close>

definition ops_json :: "bool \<times> int option \<Rightarrow> payload" where
  "ops_json f = flag_field ''ops'' (fst f) @ field ''opsPriority'' JNum (snd f)"

definition expand_payload :: "config option \<Rightarrow> address \<Rightarrow> trace_state \<Rightarrow> expand_vars \<Rightarrow> payload" where
  "expand_payload cfg a tr x =
     (let v = ev_base x
      in [(''address'', JStr a)] @ ops_json (ev_ops x) @ field ''chainCursor'' JStr (bv_cursor v) @
         writePendingPayload (bv_pending v) (bv_index v) cfg @
         [(''pagesExhausted'', JBool (bv_exhausted v))] @ field ''newestTxid'' JStr (bv_newest v) @
         [(''newestBlockHeight'', nullable (bv_height v)), (''pagesFetched'', JNum (ev_pages x))] @ trace_json tr)"

definition expand_vars_of :: "payload \<Rightarrow> expand_vars" where
  "expand_vars_of raw =
     \<lparr>ev_base = \<lparr>bv_pending = fst (readPendingRuntime raw),
                  bv_index = or_else (as_num (jget raw ''processedIndex'')) 0,
                  bv_cursor = as_str (jget raw ''chainCursor''),
                  bv_exhausted = or_else (as_bool (jget raw ''pagesExhausted'')) False,
                  bv_newest = as_str (jget raw ''newestTxid''), bv_height = as_num (jget raw ''newestBlockHeight''),
                  bv_trace = read_trace raw\<rparr>,
      ev_pages = or_else (as_num (jget raw ''pagesFetched'')) 0, ev_ops = expandOpsFields raw\<rparr>"

text \<open>A page in the provider's order.\<close>

definition take_expand_page :: "config \<Rightarrow> address \<Rightarrow> chain_tx list \<Rightarrow> expand_vars \<Rightarrow> expand_vars" where
  "take_expand_page cfg a txs x =
     (let x0 = x\<lparr>ev_pages := ev_pages x + 1\<rparr>; v = ev_base x
      in case txs of
           [] \<Rightarrow> x0\<lparr>ev_base := v\<lparr>bv_exhausted := True\<rparr>\<rparr>
         | tx # _ \<Rightarrow>
             (let v1 = (if truthy (bv_newest v) = None
                        then v\<lparr>bv_newest := Some (ctx_txid tx), bv_height := blockHeightOf tx\<rparr> else v)
              in x0\<lparr>ev_base := v1\<lparr>bv_pending := classifyPageTxs txs a, bv_index := 0,
                       bv_cursor := Some (ctx_txid (last txs)),
                       bv_exhausted := bv_exhausted v \<or> ev_pages x0 * 25 \<ge> backfillMaxTxs cfg\<rparr>\<rparr>))"

definition mark_relay :: "sweep_config \<Rightarrow> address \<Rightarrow> pending_tx list \<Rightarrow> store \<Rightarrow> store" where
  "mark_relay sw a pending s =
     (case detectSweepRelay (map classified_tx.truncate pending) (collectSpendTargetsFromRuntime pending) sw of
        Some m \<Rightarrow> setExpandProfile a ''sweep_relay'' (Some (Some (relay_json m))) None s
      | None \<Rightarrow> s)"

definition expand_fetch ::
  "chain_env \<Rightarrow> config \<Rightarrow> sweep_config \<Rightarrow> address \<Rightarrow> job_opts \<Rightarrow> expand_vars \<Rightarrow> (expand_vars \<times> bool) act" where
  "expand_fetch env cfg sw a jo x w =
     (let v = ev_base x;
          needsFetch = (\<not> has_pending v \<and> \<not> bv_exhausted v \<and> ev_pages x < max_pages cfg);
          (room, w0) = (if (\<not> limited cfg \<or> \<not> has_pending v) \<and> needsFetch \<and> canCall (w_budget w)
                        then subreq_room env jo w else (False, w))
      in if \<not> room
         then (Inr (if ev_pages x \<ge> max_pages cfg then x\<lparr>ev_base := v\<lparr>bv_exhausted := True\<rparr>\<rparr> else x, False), w0)
         else
           case fetchAddressTxPage env a (bv_cursor v) w0 of
             (Inl e, w1) \<Rightarrow> (Inl e, w1)
           | (Inr txs, w1) \<Rightarrow>
               (let x1 = take_expand_page cfg a txs x;
                    w2 = spend_call w1;
                    w3 = (if txs \<noteq> [] \<and> ev_pages x1 = 1
                          then on_store (mark_relay sw a (bv_pending (ev_base x1))) w2 else w2);
                    (out, w4) = out_of_room env cfg jo w3
                in if out \<and> (has_pending (ev_base x1) \<or> \<not> bv_exhausted (ev_base x1))
                   then (case enqueueExpandContinuation (expand_payload None a no_trace x1) w4 of
                           (Inl e, w5) \<Rightarrow> (Inl e, w5)
                         | (Inr u, w5) \<Rightarrow> (Inr (x1, True), w5))
                   else (Inr (x1, False), w4)))"

fun expand_loop ::
  "chain_env \<Rightarrow> config \<Rightarrow> address \<Rightarrow> int \<Rightarrow> string option \<Rightarrow> job_opts \<Rightarrow> address list \<Rightarrow> loop_counts
   \<Rightarrow> pending_tx option list \<Rightarrow> expand_vars \<Rightarrow> (expand_vars \<times> classified_result option) act" where
  "expand_loop env cfg a hop profile jo hackers n [] x w = (Inr (x, None), w)"
| "expand_loop env cfg a hop profile jo hackers n (y # ys) x w =
     (let (go, w0) = may_process env jo n w
      in if \<not> go then (Inr (x, None), w0)
         else case y of
           None \<Rightarrow> (Inl undefined_entry, w0)
         | Some e \<Rightarrow>
             let v = ev_base x
             in case step_entry env cfg a hop profile jo hackers
                       (enqueueExpandContinuation (expand_payload None a (bv_trace v) x)) (bv_trace v) e w0 of
                  (Inl er, w1) \<Rightarrow> (Inl er, w1)
                | (Inr r, w1) \<Rightarrow>
                    let w2 = charge_calls r w1
                    in if pr_continued r then (Inr (x, Some r), w2)
                       else
                         let x1 = x\<lparr>ev_base := v\<lparr>bv_index := bv_index v + 1, bv_trace := pr_state r\<rparr>\<rparr>;
                             (stop, w3) = stop_now env cfg jo w2
                         in if stop then (Inr (x1, None), w3)
                            else expand_loop env cfg a hop profile jo hackers
                                   (n\<lparr>lc_processed := lc_processed n + 1\<rparr>) ys x1 w3)"

definition mark_max_depth :: "config \<Rightarrow> address \<Rightarrow> int \<Rightarrow> store \<Rightarrow> store" where
  "mark_max_depth cfg a hop s =
     (if hop + 1 \<ge> maxCrawlDepth cfg
      then fold (\<lambda>e. upsertAddress ((plain_upsert (toAddress e))\<lparr>u_expandStatus := Some XMaxDepth\<rparr>))
             (getOutEdgesFromAddress a (minExpandSats cfg) 10000 s) s
      else s)"

definition expand_done :: "config \<Rightarrow> address \<Rightarrow> int \<Rightarrow> backfill_vars \<Rightarrow> store \<Rightarrow> store" where
  "expand_done cfg a hop v s =
     (let s1 = setExpandStatus a XExpanded s;
          s2 = (case truthy (bv_newest v) of
                  Some t \<Rightarrow> upsertSyncState a \<lparr>sp_lastSeenTxid = Some t, sp_lastBlockHeight = bv_height v,
                              sp_observed = None\<rparr> s1
                | None \<Rightarrow> s1)
      in mark_max_depth cfg a hop s2)"

definition expand_process ::
  "chain_env \<Rightarrow> config \<Rightarrow> address \<Rightarrow> int \<Rightarrow> string option \<Rightarrow> job_opts \<Rightarrow> address list \<Rightarrow> expand_vars \<Rightarrow> job_stats act" where
  "expand_process env cfg a hop profile jo hackers x w =
     (let n = \<lparr>lc_limit = processBatchLimit (backfillTxsPerJob cfg) (w_budget w), lc_processed = 0, lc_skipped = 0\<rparr>
      in case expand_loop env cfg a hop profile jo hackers n
                (entries_from (bv_index (ev_base x)) (bv_pending (ev_base x))) x w of
           (Inl e, w1) \<Rightarrow> (Inl e, w1)
         | (Inr (x1, Some r), w1) \<Rightarrow>
             (case enqueueExpandContinuation (expand_payload None a (pr_state r) x1) w1 of
                (Inl e, w2) \<Rightarrow> (Inl e, w2)
              | (Inr u, w2) \<Rightarrow> (Inr (jobStatsFromTrace r), w2))
         | (Inr (x1, None), w1) \<Rightarrow>
             (let v = ev_base x1
              in if has_pending v \<or> \<not> bv_exhausted v \<or> ts_pending (bv_trace v) = Some True
                 then (case enqueueExpandContinuation (expand_payload (Some cfg) a (bv_trace v) x1) w1 of
                         (Inl e, w2) \<Rightarrow> (Inl e, w2)
                       | (Inr u, w2) \<Rightarrow> (Inr (plain_stats True), w2))
                 else (Inr (plain_stats False), on_store (expand_done cfg a hop v) w1)))"

definition expandDownstream ::
  "chain_env \<Rightarrow> config \<Rightarrow> sweep_config \<Rightarrow> payload \<Rightarrow> job_opts \<Rightarrow> job_stats option act" where
  "expandDownstream env cfg sw raw jo w =
     (let a = payload_address raw; row = getAddress a (w_store w);
          hop = (case row of Some r \<Rightarrow> or_else (hopFromHacker r) 0 | None \<Rightarrow> 0);
          profile = (case row of Some r \<Rightarrow> expandProfile r | None \<Rightarrow> None)
      in if \<not> qualifiesForExpand (case row of Some r \<Rightarrow> inboundSats r | None \<Rightarrow> 0) (minExpandSats cfg)
         then (Inr None, on_store (setExpandStatus a XSkippedMin) w)
         else
           let (hackers, w1) = hacker_set jo w;
               w2 = start_budget cfg (on_store (setExpandStatus a XExpanding) w1)
           in case expand_fetch env cfg sw a jo (expand_vars_of raw) w2 of
                (Inl e, w3) \<Rightarrow> (Inl e, w3)
              | (Inr (x, True), w3) \<Rightarrow> (Inr (Some (plain_stats True)), w3)
              | (Inr (x, False), w3) \<Rightarrow>
                  (case expand_process env cfg a hop profile jo hackers x w3 of
                     (Inl e, w4) \<Rightarrow> (Inl e, w4)
                   | (Inr st, w4) \<Rightarrow> (Inr (Some st), w4)))"

end
