(* ===== verification/JobBody.thy ===== *)
theory JobBody
  imports ExpandJob
begin

text \<open>
  The dispatch of a claimed job on its type (\<open>packages/core/src/indexer/processor.ts\<close>:
  \<open>backfillOpReturn\<close>, \<open>processJob\<close>, and the call of a body in \<open>processJobs\<close>), as a \<open>job_body\<close> of the
  loop.

  The feeds (\<open>sync_coldcardwatch\<close>, \<open>sync_vercel_trackers\<close>, \<open>sync_bitquery_coldcard\<close>) and the price
  are fetched from services; their bodies are a parameter here, which \<open>SourceSync\<close> defines. Parameters are
  also the answers of the providers, the
  hacker set that an earlier job of the same tick has loaded, and the use of the subrequest budget.
\<close>

fun op_return_loop ::
  "chain_env \<Rightarrow> job_opts \<Rightarrow> txid list \<Rightarrow> int \<Rightarrow> int act" where
  "op_return_loop env jo [] n w = (Inr n, w)"
| "op_return_loop env jo (t # ts) n w =
     (if \<not> canCall (w_budget w) then (Inr n, w)
      else
        let (spent, w1) = subreq_spent env jo w
        in if spent \<or> cpu_exceeded w1 then (Inr n, w1)
           else case captureOpReturnForTx env t (captureOpReturnJobOpts jo w1) None w1 of
                  (Inl e, w2) \<Rightarrow> (Inl e, w2)
                | (Inr x, w2) \<Rightarrow> op_return_loop env jo ts (n + 1) w2)"

definition backfillOpReturn :: "chain_env \<Rightarrow> config \<Rightarrow> job_opts \<Rightarrow> job_stats option act" where
  "backfillOpReturn env cfg jo w0 =
     (let w = start_budget cfg w0
      in case op_return_loop env jo (listTxidsMissingOpReturn (opReturnBackfillPerJob cfg) (w_store w)) 0 w of
           (Inl e, w1) \<Rightarrow> (Inl e, w1)
         | (Inr n, w1) \<Rightarrow>
             (let remaining = hasTransactionsMissingOpReturn (w_store w1);
                  (spent, w2) = (if remaining then subreq_spent env jo w1 else (False, w1));
                  w3 = (if remaining \<and> \<not> spent \<and> \<not> cpu_exceeded w2
                        then on_store (\<lambda>s. snd (enqueueJobIfAbsent Backfill_op_return [] REFRESH_BALANCE None
                               (Some [Backfill_op_return]) None False s)) w2
                        else w2)
              in (Inr (if n > 0 then Some (plain_stats remaining) else None), w3)))"

text \<open>\<open>process_tx\<close>: one call of the trace from the first edge; its result is not looked at.\<close>

definition process_tx_opts :: "config \<Rightarrow> world \<Rightarrow> proc_opts" where
  "process_tx_opts cfg w =
     \<lparr>po_tx = None, po_spendingAddress = None, po_spendingHop = None, po_capture = no_capture_opts,
      po_index = None, po_total = None, po_flat = None,
      po_maxGraphEdges = positive (Some (maxGraphEdgesPerTx cfg)),
      po_maxEdgesPerJob = positive (Some (maxEdgesPerJob cfg)), po_minExpand = Some (minExpandSats cfg),
      po_minVictim = Some (minVictimIngestSats cfg), po_guarded = (w_guard w \<noteq> None)\<rparr>"

definition process_tx_body :: "chain_env \<Rightarrow> config \<Rightarrow> payload \<Rightarrow> job_opts \<Rightarrow> trace_result act" where
  "process_tx_body env cfg p jo w =
     (let (hackers, w1) = hacker_set jo w
      in processTxForHackTrace env (or_else (as_str (jget p ''txid'')) []) hackers (process_tx_opts cfg w1) w1)"

definition refreshBalance :: "chain_env \<Rightarrow> address \<Rightarrow> unit act" where
  "refreshBalance env a w =
     (case getAddressStats env a w of
        (Inl e, w1) \<Rightarrow> (Inl e, w1)
      | (Inr st, w1) \<Rightarrow> (Inr (), on_store (applyAddressStats a st) w1))"

type_synonym external_body = "job_type \<Rightarrow> payload \<Rightarrow> store \<Rightarrow> (job_error + unit) \<times> store"

definition external_act :: "external_body \<Rightarrow> job_type \<Rightarrow> payload \<Rightarrow> unit act" where
  "external_act ext ty p w = (let (r, s) = ext ty p (w_store w) in (r, w\<lparr>w_store := s\<rparr>))"

definition no_stats :: "'a act \<Rightarrow> job_stats option act" where
  "no_stats f w = (case f w of (Inl e, w1) \<Rightarrow> (Inl e, w1) | (Inr x, w1) \<Rightarrow> (Inr None, w1))"

definition some_stats :: "job_stats act \<Rightarrow> job_stats option act" where
  "some_stats f w = (case f w of (Inl e, w1) \<Rightarrow> (Inl e, w1) | (Inr x, w1) \<Rightarrow> (Inr (Some x), w1))"

fun dispatch_job ::
  "chain_env \<Rightarrow> config \<Rightarrow> sweep_config \<Rightarrow> external_body \<Rightarrow> job_opts \<Rightarrow> job_type \<Rightarrow> payload \<Rightarrow> job_stats option act" where
  "dispatch_job env cfg sw ext jo Backfill_hacker_address p = some_stats (backfillHacker env cfg p True jo)"
| "dispatch_job env cfg sw ext jo Audit_hacker_backfill p = no_stats (auditHackerBackfill env cfg (payload_address p))"
| "dispatch_job env cfg sw ext jo Poll_hacker_address p = no_stats (pollHacker env cfg p jo)"
| "dispatch_job env cfg sw ext jo Poll_downstream_address p = no_stats (pollDownstream env cfg p jo)"
| "dispatch_job env cfg sw ext jo Expand_downstream p = expandDownstream env cfg sw p jo"
| "dispatch_job env cfg sw ext jo Refresh_live_balance p = no_stats (refreshBalance env (payload_address p))"
| "dispatch_job env cfg sw ext jo Backfill_op_return p = backfillOpReturn env cfg jo"
| "dispatch_job env cfg sw ext jo Process_tx p = no_stats (process_tx_body env cfg p jo)"
| "dispatch_job env cfg sw ext jo (Other_job_type t) p = (\<lambda>w. (Inl (Other_error (''Unknown job type: '' @ t)), w))"
| "dispatch_job env cfg sw ext jo ty p = no_stats (external_act ext ty p)"

text \<open>The \<open>finally\<close> flushes the buffered activity on every way out.\<close>

definition processJob ::
  "chain_env \<Rightarrow> config \<Rightarrow> sweep_config \<Rightarrow> external_body \<Rightarrow> job_opts \<Rightarrow> job \<Rightarrow> job_stats option act" where
  "processJob env cfg sw ext jo j w =
     (case (case payloadJson j of
              None \<Rightarrow> (Inl (Other_error ''Unexpected token in JSON''), w)
            | Some p \<Rightarrow> dispatch_job env cfg sw ext jo (job_kind j) p w) of
        (r, w1) \<Rightarrow> (r, on_store (\<lambda>s. snd (flushRecentHackerActivity (recentHackersLimit cfg) s)) w1))"

definition is_feed :: "job_type \<Rightarrow> bool" where
  "is_feed ty \<longleftrightarrow> ty \<in> {Sync_coldcardwatch, Sync_vercel_trackers, Sync_bitquery_coldcard}"

record body_env =
  be_chain :: "job \<Rightarrow> store \<Rightarrow> chain_env"
  be_cachedHackers :: "job \<Rightarrow> address list option"
  be_sweep :: sweep_config
  be_external :: external_body
  be_budget :: "job \<Rightarrow> store \<Rightarrow> budget option \<Rightarrow> budget option"

definition job_world :: "config \<Rightarrow> store \<Rightarrow> world" where
  "job_world cfg s = \<lparr>w_store = s, w_asked = 0, w_budget = \<lparr>cb_max = 0, cb_used = 0\<rparr>,
     w_guard = createCpuGuardFromConfig (jobCpuGuardMs cfg)\<rparr>"

text \<open>A feed runs outside \<open>processJob\<close>: its payload is parsed, the activity is not flushed.\<close>

definition feed_job :: "external_body \<Rightarrow> job \<Rightarrow> job_stats option act" where
  "feed_job ext j w =
     (case payloadJson j of
        None \<Rightarrow> (Inl (Other_error ''Unexpected token in JSON''), w)
      | Some p \<Rightarrow> no_stats (external_act ext (job_kind j) p) w)"

text \<open>
  A job that needs the hacker set gets the one that an earlier job of the tick loaded, or loads it.
\<close>

definition run_job :: "body_env \<Rightarrow> config \<Rightarrow> job_body" where
  "run_job be cfg j s b =
     (let w = job_world cfg s;
          (hackers, w1) =
            (if jobNeedsHackersSet (job_kind j)
             then (let (hs, w') = hacker_set \<lparr>jo_subreq = True, jo_hackers = be_cachedHackers be j\<rparr> w in (Some hs, w'))
             else (None, w));
          jo = \<lparr>jo_subreq = True, jo_hackers = hackers\<rparr>;
          (r, w2) = (if is_feed (job_kind j) then feed_job (be_external be) j w1
                     else processJob (be_chain be j s) cfg (be_sweep be) (be_external be) jo j w1)
      in (case r of Inl e \<Rightarrow> Threw e | Inr x \<Rightarrow> Returned, w_store w2, be_budget be j s b))"

end
