(* ===== verification/BodyFrame.thy ===== *)
theory BodyFrame
  imports JobBody
begin

text \<open>
  What the bodies of the jobs write. The locale lists the store operations that they call, as the laws
  of a relation between the store before and after; every body then stays within the relation, on
  every way out. It is interpreted for the job queue and for the counters of the addresses.
\<close>

section \<open>The laws\<close>

definition trace_ok :: "(edge_draft list \<Rightarrow> bool) \<Rightarrow> trace_state \<Rightarrow> bool" where
  "trace_ok ok tr \<longleftrightarrow> (case ts_flat tr of Some es \<Rightarrow> ok es | None \<Rightarrow> True)"

lemma trace_ok_simps [simp]:
  "trace_ok ok no_trace" "pr_state (finished n) = no_trace"
  "trace_ok ok \<lparr>ts_txid = i, ts_index = j, ts_pending = p, ts_total = n', ts_flat = f\<rparr> =
     (\<forall>es. f = Some es \<longrightarrow> ok es)"
  by (auto simp: trace_ok_def no_trace_def finished_def split: option.splits)

definition payload_ok :: "(edge_draft list \<Rightarrow> bool) \<Rightarrow> payload \<Rightarrow> bool" where
  "payload_ok ok p \<longleftrightarrow> trace_ok ok (read_trace p)"

definition ends_in :: "(store \<Rightarrow> bool) \<Rightarrow> ('a \<Rightarrow> bool) \<Rightarrow> (job_error + 'a) \<times> world \<Rightarrow> bool" where
  "ends_in R Q p \<longleftrightarrow> R (w_store (snd p)) \<and> (\<forall>x. fst p = Inr x \<longrightarrow> Q x)"

lemma ends_in_simps [simp]:
  "ends_in R Q (Inl e, w) = R (w_store w)"
  "ends_in R Q (Inr y, w) = (R (w_store w) \<and> Q y)"
  by (auto simp: ends_in_def)

lemma ends_in_bind:
  assumes "ends_in R Q p" and "\<And>x w. R (w_store w) \<Longrightarrow> Q x \<Longrightarrow> ends_in R Q' (g x w)"
  shows "ends_in R Q' (case p of (Inl e, w) \<Rightarrow> (Inl e, w) | (Inr x, w) \<Rightarrow> g x w)"
  using assms by (cases p; cases "fst p") auto

lemma ends_in_weaken: "ends_in R Q p \<Longrightarrow> (\<And>x. Q x \<Longrightarrow> Q' x) \<Longrightarrow> ends_in R Q' p"
  by (auto simp: ends_in_def)

lemma world_store [simp]:
  "w_store (on_store f w) = f (w_store w)"
  "w_store (start_budget cfg w) = w_store w"
  "w_store (spend_call w) = w_store w"
  "w_store (charge_calls r w) = w_store w"
  "w_store (snd (ask_canUse env w)) = w_store w"
  "w_store (snd (ask_exhausted env w)) = w_store w"
  "w_store (snd (subreq_room env jo w)) = w_store w"
  "w_store (snd (subreq_spent env jo w)) = w_store w"
  "w_store (snd (out_of_room env cfg jo w)) = w_store w"
  "w_store (snd (may_process env jo n w)) = w_store w"
  "w_store (snd (stop_now env cfg jo w)) = w_store w"
  "w_store (snd (can_fetch env c w)) = w_store w"
  by (simp_all add: on_store_def start_budget_def spend_call_def charge_calls_def ask_canUse_def
      ask_exhausted_def subreq_room_def subreq_spent_def out_of_room_def may_process_def stop_now_def
      can_fetch_def Let_def split: prod.splits)


text \<open>What a payload that a body writes says of the trace.\<close>

lemma jget_pending [simp]:
  "(f ++ jget (writePendingPayload ps i c)) k =
     (if k \<in> {''pendingTxs'', ''pendingTxids'', ''processedIndex''} then jget (writePendingPayload ps i c) k else f k)"
  by (auto simp: writePendingPayload_def Let_def Map.map_add_def)

lemma jget_flag [simp]:
  "(f ++ jget (flag_field k b)) k' = (if k = k' \<and> b then Some (JBool True) else f k')"
  by (auto simp: flag_field_def Map.map_add_def)

lemma jget_one [simp]: "(f ++ jget [(k, v)]) k' = (if k = k' then Some v else f k')"
  by (auto simp: Map.map_add_def)

lemma as_arr_enc [simp]: "as_arr (map_option (\<lambda>es. JArr (f es)) v) = map_option f v"
  by (cases v) auto

definition reread :: "trace_state \<Rightarrow> trace_state" where
  "reread tr = tr\<lparr>ts_flat := map_option (map (read_draft \<circ> draft_json)) (ts_flat tr)\<rparr>"

lemma read_trace_none:
  "jget p ''traceEdgesFlat'' = None \<Longrightarrow> payload_ok ok p"
  by (simp add: payload_ok_def trace_ok_def read_trace_def)

lemma parse_trace: "bp_trace (parseBackfillPayload q) = read_trace q"
  by (simp add: parseBackfillPayload_def Let_def split: prod.splits)

lemma spread_trace: "read_trace (obj_spread [(''address'', x)] q) = read_trace q"
proof -
  have "jget (obj_spread [(''address'', x)] q) k = jget q k" if "k \<noteq> ''address''" for k
    using that by (auto simp: obj_spread_def Map.map_add_def split: option.splits)
  then show ?thesis by (simp add: read_trace_def)
qed

lemma persisted_trace: "read_trace (toPersistedPayload (backfill_payload_of cfg a tr v)) = reread tr"
  by (cases tr) (simp add: read_trace_def trace_json_def reread_def option.map_comp comp_def
      toPersistedPayload_def backfill_payload_of_def)

lemma expand_trace: "read_trace (expand_payload c a tr x) = reread tr"
  by (cases tr) (simp add: read_trace_def trace_json_def reread_def option.map_comp comp_def
      expand_payload_def ops_json_def Let_def)

lemma poll_payload_flat:
  assumes "jget (pp_pending p) ''traceEdgesFlat'' = None"
  shows "payload_ok ok (toPollJobPayload p)"
  by (rule read_trace_none) (simp add: toPollJobPayload_def assms)

locale job_writes =
  fixes R :: "store \<Rightarrow> store \<Rightarrow> bool" and drafts_ok :: "edge_draft list \<Rightarrow> bool" and saved_ok :: "store \<Rightarrow> bool"
  assumes R_refl: "R s s" and R_trans: "R s t \<Longrightarrow> R t u \<Longrightarrow> R s u"
    and R_provider: "\<And>rt (net :: provider \<Rightarrow> chain_tx answer) s r c t. withProvider rt net s = (r, c, t) \<Longrightarrow> R s t"
    and R_page: "\<And>rt (net :: provider \<Rightarrow> chain_tx list answer) s r c t. withProvider rt net s = (r, c, t) \<Longrightarrow> R s t"
    and R_stats: "\<And>rt (net :: provider \<Rightarrow> addr_stats answer) s r c t. withProvider rt net s = (r, c, t) \<Longrightarrow> R s t"
    and R_tx: "\<And>u s. R s (upsertTransaction u s)"
    and R_address: "\<And>u s. R s (upsertAddress u s)"
    and R_status: "\<And>a x s. R s (setExpandStatus a x s)"
    and R_profile: "\<And>a p r f s. R s (setExpandProfile a p r f s)"
    and R_edge: "\<And>u s. R s (upsertEdge u s)"
    and R_inbound: "\<And>a d s. R s (addInboundSats a d s)"
    and R_chunk: "\<And>t bt flat vs op s. drafts_ok flat \<Longrightarrow> [] \<notin> set vs \<Longrightarrow>
      R s (snd (applyHackTraceEdgesChunk t bt flat vs op s))"
    and R_poll: "\<And>a d s. R s (recordSyncPoll a d s)"
    and R_backfill: "\<And>a p b s. (\<And>q. p = Some q \<Longrightarrow> payload_ok drafts_ok q) \<Longrightarrow> R s (upsertBackfillState a p b s)"
    and R_audit: "\<And>a n s. R s (updateBackfillAudit a n s)"
    and R_enqueue: "\<And>ty p pr ra b s. payload_ok drafts_ok p \<Longrightarrow> R s (snd (enqueueJob ty p pr ra b s))"
    and R_absent: "\<And>ty p pr ra dt ad b s. payload_ok drafts_ok p \<Longrightarrow> R s (snd (enqueueJobIfAbsent ty p pr ra dt ad b s))"
    and R_hackers: "\<And>s. R s (snd (getHackerAddressSet s))"
    and R_flush: "\<And>n s. R s (snd (flushRecentHackerActivity n s))"
    and computed_ok: "\<And>tx hs op. drafts_ok (flattenHackTraceEdges (computeHackTraceEdges tx hs op))"
    and reread_ok: "\<And>es. drafts_ok es \<Longrightarrow> drafts_ok (map (read_draft \<circ> draft_json) es)"
    and saved_step: "\<And>s t. R s t \<Longrightarrow> saved_ok s \<Longrightarrow> saved_ok t"
    and saved_payload: "\<And>s a b q. saved_ok s \<Longrightarrow> getBackfillState a s = Some b \<Longrightarrow> bs_payload b = Some q \<Longrightarrow>
      payload_ok drafts_ok q"
begin

lemmas step = R_trans[OF _ R_tx] R_trans[OF _ R_address] R_trans[OF _ R_status] R_trans[OF _ R_profile]
  R_trans[OF _ R_edge] R_trans[OF _ R_inbound] R_trans[OF _ R_poll] R_trans[OF _ R_audit]
  R_trans[OF _ R_hackers] R_trans[OF _ R_flush]



lemma call_ok:
  assumes "R s0 (w_store w)" and "\<And>rt s r c t. withProvider rt net s = (r, c, t) \<Longrightarrow> R s t"
  shows "ends_in (R s0) (\<lambda>x. True) (call_provider env net w)"
proof -
  obtain r c t where p: "withProvider (ce_router env) net (w_store w) = (r, c, t)" by (metis prod.exhaust)
  then have "R s0 t" using assms R_trans by blast
  then show ?thesis
    using assms(1) p by (auto simp: call_provider_def ends_in_def split: option.splits)
qed

lemma getTx_ok: "R s0 (w_store w) \<Longrightarrow> ends_in (R s0) (\<lambda>x. True) (getTx env t w)"
  unfolding getTx_def by (erule call_ok) (rule R_provider)

lemma getStats_ok: "R s0 (w_store w) \<Longrightarrow> ends_in (R s0) (\<lambda>x. True) (getAddressStats env a w)"
  unfolding getAddressStats_def by (erule call_ok) (rule R_stats)

lemma fetchPage_ok: "R s0 (w_store w) \<Longrightarrow> ends_in (R s0) (\<lambda>x. True) (fetchAddressTxPage env a c w)"
  unfolding fetchAddressTxPage_def by (erule call_ok) (rule R_page)

lemma asked_store:
  "can_fetch env c w = (b, w') \<Longrightarrow> w_store w' = w_store w"
  "subreq_room env jo w = (b, w') \<Longrightarrow> w_store w' = w_store w"
  "subreq_spent env jo w = (b, w') \<Longrightarrow> w_store w' = w_store w"
  "out_of_room env cfg jo w = (b, w') \<Longrightarrow> w_store w' = w_store w"
  "may_process env jo n w = (b, w') \<Longrightarrow> w_store w' = w_store w"
  "stop_now env cfg jo w = (b, w') \<Longrightarrow> w_store w' = w_store w"
  by (metis snd_conv world_store)+

lemma capture_source_ok:
  assumes "R s0 (w_store w)"
  shows "ends_in (R s0) (\<lambda>x. True) (capture_source env t c tx w)"
proof -
  obtain b w1 where f: "can_fetch env c w = (b, w1)" by (metis prod.exhaust)
  have r: "R s0 (w_store w1)" using assms asked_store(1)[OF f] by simp
  obtain q w2 where g: "getTx env t w1 = (q, w2)" by (metis prod.exhaust)
  have "R s0 (w_store w2)" using getTx_ok[OF r, of env t] g by (simp add: ends_in_def)
  then show ?thesis using assms r f g by (auto simp: capture_source_def split: sum.splits)
qed

lemma capture_ok:
  assumes "R s0 (w_store w)"
  shows "ends_in (R s0) (\<lambda>x. True) (captureOpReturnForTx env t c tx w)"
proof -
  obtain q w1 where f: "capture_source env t c tx w = (q, w1)" by (metis prod.exhaust)
  then have r: "R s0 (w_store w1)" using capture_source_ok[OF assms, of env t c tx] by (simp add: ends_in_def)
  then show ?thesis
    using assms f step(1) by (auto simp: captureOpReturnForTx_def Let_def split: sum.splits option.splits)
qed

lemma trace_input_ok:
  assumes "\<And>es. po_flat op = Some es \<Longrightarrow> drafts_ok es" and "trace_input env tx hs op w = ((flat, vs, n), w')"
  shows "drafts_ok flat" and "[] \<notin> set vs" and "w_store w' = w_store w"
proof -
  have "[] \<notin> fst ` set (fold (\<lambda>i m. if is_coinbase i = Some True then m
         else case (truthy (vin_address i), case prevout_of i of Some p \<Rightarrow> prev_value p | None \<Rightarrow> None) of
         (Some a, Some v) \<Rightarrow> if v \<le> 0 \<or> a \<in> set hs then m else map_add a v m
       | _ \<Rightarrow> m) is m)" if "[] \<notin> fst ` set m" for "is" m
    using that
    by (induction "is" arbitrary: m) (auto simp: keys_map_add truthy_def split: option.splits list.splits)
  from this[of "[]" "vins tx"] have v: "[] \<notin> set (victimAddresses (computeHackTraceEdges tx hs to))" for to
    by (simp add: computeHackTraceEdges_def Let_def aggregateInputsByAddress_def)
  show "drafts_ok flat" "[] \<notin> set vs" "w_store w' = w_store w"
    using assms computed_ok v
    by (cases "po_flat op"; auto simp: trace_input_def trace_compute_def Let_def split: if_splits option.splits bool.splits)+
qed

lemma trace_tx_ok:
  assumes "R s0 (w_store w)" and "\<And>es. po_flat op = Some es \<Longrightarrow> drafts_ok es"
  shows "ends_in (R s0) (\<lambda>r. \<forall>es. tr_flat r = Some es \<longrightarrow> drafts_ok es) (trace_tx env t tx hs op w)"
proof -
  obtain flat vs n w2 where i: "trace_input env tx hs op (on_store (upsertTransaction (tx_row_of t tx)) w) = ((flat, vs, n), w2)"
    by (metis prod.exhaust)
  note ti = trace_input_ok[OF assms(2) i]
  have r2: "R s0 (w_store w2)" using ti(3) step(1)[OF assms(1)] by simp
  obtain r s3 where c: "applyHackTraceEdgesChunk t (blockTimeIso tx) flat vs (chunk_opts hs op (w_guard w2)) (w_store w2) = (r, s3)"
    by (metis prod.exhaust)
  have "R (w_store w2) s3" using R_chunk[OF ti(1,2)] c by (metis snd_conv)
  then have r3: "R s0 (w_store (w2\<lparr>w_store := s3\<rparr>))" using r2 R_trans by simp
  show ?thesis
    using capture_ok[OF r3] ti(1) unfolding trace_tx_def Let_def i prod.case c
    by (intro ends_in_bind[where Q = "\<lambda>x. True"]) (auto split: prod.splits)
qed

lemma processTx_ok:
  assumes "R s0 (w_store w)" and "\<And>es. po_flat op = Some es \<Longrightarrow> drafts_ok es"
  shows "ends_in (R s0) (\<lambda>r. \<forall>es. tr_flat r = Some es \<longrightarrow> drafts_ok es) (processTxForHackTrace env t hs op w)"
  unfolding processTxForHackTrace_def
  by (cases "po_tx op") (auto intro!: ends_in_bind[OF getTx_ok] trace_tx_ok assms)


text \<open>From here on a state is reached from \<open>s0\<close> when it is related to it.\<close>

lemma fanout_ok: "R s0 s \<Longrightarrow> R s0 (snd (applySpendFanoutSummary tx a hop cfg s))"
  by (auto simp: applySpendFanoutSummary_def Let_def intro!: step split: list.splits)

lemma patch_ok: "R s0 (w_store w) \<Longrightarrow> ends_in (R s0) (\<lambda>x. True) (patchOpReturnFromPageIfNeeded env t e cl w)"
  unfolding patchOpReturnFromPageIfNeeded_def by (auto intro!: ends_in_bind[OF capture_ok])

lemma finish_ok:
  "R s0 (w_store w) \<Longrightarrow> ends_in (R s0) (\<lambda>r. trace_ok drafts_ok (pr_state r)) (capture_and_finish env t c tx n w)"
  unfolding capture_and_finish_def
  by (auto intro!: ends_in_bind[OF capture_ok])

lemma trace_stage_ok:
  assumes "R s0 (w_store w)" and "trace_ok drafts_ok st"
  shows "ends_in (R s0) (\<lambda>r. trace_ok drafts_ok (pr_state r)) (trace_stage env cfg a hop e hs st cl tx n w)"
proof -
  have f: "drafts_ok es" if "po_flat (traceOptions cfg st t tx a hop cl) = Some es" for t es
    using assms(2) that by (auto simp: traceOptions_def Let_def trace_ok_def split: if_splits)
  have p: "ends_in (R s0) (\<lambda>r. \<forall>es. tr_flat r = Some es \<longrightarrow> drafts_ok es)
      (processTxForHackTrace env t hs (traceOptions cfg st t tx a hop cl) w)" for t
    by (rule processTx_ok[OF assms(1) f])
  show ?thesis
    unfolding trace_stage_def Let_def
    using assms(1)
    by (auto intro!: finish_ok ends_in_bind[OF p])
qed

lemma detail_stage_ok:
  assumes "R s0 (w_store w)" and "trace_ok drafts_ok st"
  shows "ends_in (R s0) (\<lambda>r. trace_ok drafts_ok (pr_state r)) (detail_stage env cfg a hop e hs st cl w)"
proof -
  have g: "ends_in (R s0) (\<lambda>r. trace_ok drafts_ok (pr_state r)) (case getTx env (c_txid e) w of
      (Inl er, w1) \<Rightarrow> (Inl er, w1)
    | (Inr tx, w1) \<Rightarrow> (let fe = (classified_tx.truncate e)\<lparr>isSpend := Some (txInvolvesSpend tx a),
                          voutCount := Some (int (length (vouts tx))),
                          outputAddressCount := Some (uniqueOutputAddresses tx)\<rparr>
               in if fanout_spend cfg a fe (Some tx)
                  then (Inr (finished 1), on_store (\<lambda>s. snd (applySpendFanoutSummary tx a hop cfg s)) w1)
                  else trace_stage env cfg a hop e hs st cl tx 1 w1))"
    by (rule ends_in_bind[OF getTx_ok[OF assms(1)]])
       (auto simp: Let_def intro!: fanout_ok trace_stage_ok assms(2))
  show ?thesis
    unfolding detail_stage_def using g by (auto split: option.splits intro!: trace_stage_ok assms)
qed

lemma fetch_stage_ok:
  assumes "R s0 (w_store w)" and "trace_ok drafts_ok st"
  shows "ends_in (R s0) (\<lambda>r. trace_ok drafts_ok (pr_state r)) (fetch_stage env cfg a hop e hs st cl w)"
proof -
  have p: "ends_in (R s0) (\<lambda>r. trace_ok drafts_ok (pr_state r)) (case patchOpReturnFromPageIfNeeded env (c_txid e) e cl w of
                 (Inl er, w1) \<Rightarrow> (Inl er, w1)
               | (Inr u, w1) \<Rightarrow> (Inr (finished 0), w1))"
    by (rule ends_in_bind[OF patch_ok[OF assms(1)]]) simp
  show ?thesis
    unfolding fetch_stage_def Let_def
    using p by (auto intro!: finish_ok detail_stage_ok fanout_ok assms split: option.splits)
qed

lemma indexed_stage_ok:
  "R s0 (w_store w) \<Longrightarrow> ends_in (R s0) (\<lambda>r. trace_ok drafts_ok (pr_state r)) (indexed_stage env e cl row w)"
  unfolding indexed_stage_def by (auto intro!: finish_ok)

lemma process_entry_ok:
  assumes "R s0 (w_store w)" and "trace_ok drafts_ok st"
  shows "ends_in (R s0) (\<lambda>r. trace_ok drafts_ok (pr_state r)) (processClassifiedPendingTx env cfg a hop e hs st cl w)"
proof -
  have u: "ends_in (R s0) (\<lambda>x. True) (if b then patchOpReturnFromPageIfNeeded env (c_txid e) e cl w else (Inr (), w))" for b
    by (simp add: assms(1) patch_ok)
  show ?thesis
    unfolding processClassifiedPendingTx_def Let_def
    by (rule ends_in_bind[OF u])
       (auto intro!: indexed_stage_ok fetch_stage_ok assms(2) split: option.splits)
qed


section \<open>The bodies\<close>

lemma trace_ok_reread: "trace_ok drafts_ok tr \<Longrightarrow> trace_ok drafts_ok (reread tr)"
  using reread_ok by (auto simp: trace_ok_def reread_def split: option.splits)

lemma persisted_ok: "trace_ok drafts_ok tr \<Longrightarrow> payload_ok drafts_ok (toPersistedPayload (backfill_payload_of cfg a tr v))"
  by (simp add: payload_ok_def persisted_trace trace_ok_reread)

lemma continuation_ok:
  assumes "R s0 s" and "trace_ok drafts_ok tr"
  shows "R s0 (enqueueBackfillContinuation (backfill_payload_of cfg a tr v) b s)"
proof -
  note p = persisted_ok[OF assms(2), of cfg a v]
  let ?s = "upsertBackfillState a (Some (toPersistedPayload (backfill_payload_of cfg a tr v))) False s"
  have a: "bp_address (backfill_payload_of cfg a tr v) = a" by (simp add: backfill_payload_of_def)
  have r: "R s0 ?s" by (rule R_trans[OF assms(1) R_backfill]) (simp add: p)
  then show ?thesis
    using R_trans[OF r R_enqueue[OF p]] by (simp add: enqueueBackfillContinuation_def Let_def a)
qed

lemma cleared: "clearTraceFields (backfill_payload_of cfg a tr v) = backfill_payload_of cfg a no_trace v"
  by (simp add: clearTraceFields_def backfill_payload_of_def)

lemma backfill_state_ok:
  "R s0 s \<Longrightarrow> (\<And>q. p = Some q \<Longrightarrow> payload_ok drafts_ok q) \<Longrightarrow> R s0 (upsertBackfillState a p b s)"
  by (erule R_trans) (rule R_backfill)

lemma hackers_ok: "hacker_set jo w = (hs, w') \<Longrightarrow> R s0 (w_store w) \<Longrightarrow> R s0 (w_store w')"
  using step(9) by (auto simp: hacker_set_def split: option.splits prod.splits) (metis snd_conv)

lemma quota_ok:
  assumes "ends_in (R s0) Q (f w)" and "\<And>w. R s0 (w_store w) \<Longrightarrow> ends_in (R s0) (\<lambda>x. True) (save w)"
  shows "ends_in (R s0) Q (withD1QuotaContinuationSave save f w)"
proof -
  obtain r w1 where f: "f w = (r, w1)" by (metis prod.exhaust)
  then have r: "R s0 (w_store w1)" using assms(1) by (simp add: ends_in_def)
  obtain q w2 where s: "save w1 = (q, w2)" by (metis prod.exhaust)
  have "R s0 (w_store w2)" using assms(2)[OF r] s by (simp add: ends_in_def)
  then show ?thesis
    using assms(1) f s by (auto simp: withD1QuotaContinuationSave_def split: sum.splits job_error.splits)
qed

lemma step_entry_ok:
  assumes "R s0 (w_store w)" and "trace_ok drafts_ok tr"
    and "\<And>w. R s0 (w_store w) \<Longrightarrow> ends_in (R s0) (\<lambda>x. True) (save w)"
  shows "ends_in (R s0) (\<lambda>r. trace_ok drafts_ok (pr_state r)) (step_entry env cfg a hop profile jo hs save tr e w)"
  unfolding step_entry_def by (intro quota_ok process_entry_ok assms)

lemma room_cases:
  "w_store (snd (subreq_room env jo w)) = w_store w"
  by simp

lemma fetch_vars: "bv_trace (take_page a txs v) = bv_trace v"
  by (simp add: take_page_def Let_def split: list.splits)

lemma backfill_fetch_ok:
  assumes "R s0 (w_store w)"
  shows "ends_in (R s0) (\<lambda>(v1, b). bv_trace v1 = bv_trace v) (backfill_fetch env cfg a jo enq v w)"
proof -
  obtain room w0 where r: "subreq_room env jo w = (room, w0)" by (metis prod.exhaust)
  have w0: "R s0 (w_store w0)" using assms asked_store(2)[OF r] by simp
  have b: "ends_in (R s0) (\<lambda>(v1, b). bv_trace v1 = bv_trace v)
     (case fetchAddressTxPage env a (bv_cursor v) w0 of
               (Inl e, w1) \<Rightarrow> (Inl e, w1)
             | (Inr txs, w1) \<Rightarrow>
                 (let w2 = spend_call w1; v1 = take_page a txs v; (out, w3) = out_of_room env cfg jo w2
                  in if out \<and> (has_pending v1 \<or> \<not> bv_exhausted v1)
                     then (Inr (v1, True),
                           on_store (enqueueBackfillContinuation (backfill_payload_of cfg a no_trace v1) enq) w3)
                     else (Inr (v1, False), w3)))"
    by (rule ends_in_bind[OF fetchPage_ok[OF w0]])
       (auto simp: Let_def fetch_vars split: prod.splits dest!: asked_store(4) intro!: continuation_ok)
  show ?thesis
    unfolding backfill_fetch_def using assms w0 b by (simp add: Let_def r)
qed

lemma backfill_loop_ok:
  "R s0 (w_store w) \<Longrightarrow> trace_ok drafts_ok (bv_trace v) \<Longrightarrow>
     ends_in (R s0) (\<lambda>(v1, c). trace_ok drafts_ok (bv_trace v1) \<and>
         (\<forall>r. c = Some r \<longrightarrow> trace_ok drafts_ok (pr_state r)))
       (backfill_loop env cfg a profile jo hs enq n xs v w)"
proof (induction xs arbitrary: n v w)
  case (Cons x xs)
  obtain go w0 where m: "may_process env jo n w = (go, w0)" by (metis prod.exhaust)
  have w0: "R s0 (w_store w0)" using Cons.prems(1) asked_store(5)[OF m] by simp
  show ?case
  proof (cases "\<exists>e. go \<and> x = Some e")
    case True
    then obtain e where e: "go" "x = Some e" by blast
    let ?save = "save_backfill (clearTraceFields (backfill_payload_of cfg a (bv_trace v) v)) enq"
    have s: "ends_in (R s0) (\<lambda>x. True) (?save w)" if "R s0 (w_store w)" for w
      using continuation_ok[OF that] by (simp add: save_backfill_def cleared)
    show ?thesis
    proof (cases "skippable cfg v n e")
      case False
      have "ends_in (R s0) (\<lambda>(v1, c). trace_ok drafts_ok (bv_trace v1) \<and>
         (\<forall>r. c = Some r \<longrightarrow> trace_ok drafts_ok (pr_state r)))
        (case step_entry env cfg a 0 profile jo hs ?save (bv_trace v) e w0 of
                 (Inl er, w1) \<Rightarrow> (Inl er, w1)
               | (Inr r, w1) \<Rightarrow>
                   let w2 = charge_calls r w1
                   in if pr_continued r then (Inr (v, Some r), w2)
                      else
                        let v1 = v\<lparr>bv_index := bv_index v + 1, bv_trace := pr_state r\<rparr>;
                            (stop, w3) = stop_now env cfg jo w2
                        in if stop then (Inr (v1, None), w3)
                           else backfill_loop env cfg a profile jo hs enq
                                  (n\<lparr>lc_processed := lc_processed n + 1\<rparr>) xs v1 w3)"
        by (rule ends_in_bind[OF step_entry_ok[OF w0 Cons.prems(2) s]])
           (auto simp: Let_def Cons.prems split: prod.splits dest!: asked_store(6) intro!: Cons.IH)
      then show ?thesis using e False by (simp add: m)
    qed (use e w0 Cons in \<open>simp add: m\<close>)
  qed (use w0 Cons.prems(2) in \<open>auto simp: m split: option.splits\<close>)
qed simp

lemma backfill_finish_ok: "R s0 s \<Longrightarrow> R s0 (snd (backfill_finish cfg a enq v s))"
  by (auto simp: backfill_finish_def Let_def cleared upsertSyncState_def split: option.splits
      intro!: continuation_ok step backfill_state_ok)

lemma backfill_process_ok:
  assumes "R s0 (w_store w)" and "trace_ok drafts_ok (bv_trace v)"
  shows "ends_in (R s0) (\<lambda>x. True) (backfill_process env cfg a jo hs enq v w)"
  unfolding backfill_process_def Let_def
  by (rule ends_in_bind[OF backfill_loop_ok[OF assms]])
     (auto simp: prod.case_eq_if split: option.splits intro!: continuation_ok backfill_finish_ok)

lemma vars_trace: "bv_trace (backfill_vars_of p) = bp_trace p"
  by (simp add: backfill_vars_of_def)

lemma hydrate_ok:
  assumes "payload_ok drafts_ok raw" and "saved_ok s"
  shows "trace_ok drafts_ok (bp_trace (hydrateBackfillPayload raw s))"
proof -
  have "payload_ok drafts_ok q" if "Option.bind (getBackfillState a s) bs_payload = Some q" for a q
    using that saved_payload[OF assms(2)] by (auto simp: bind_eq_Some_conv)
  then show ?thesis
    using assms(1) by (auto simp: hydrateBackfillPayload_def Let_def parse_trace spread_trace payload_ok_def split: option.splits)
qed

lemma backfill_ok:
  assumes "R s0 (w_store w)" and "payload_ok drafts_ok raw" and "saved_ok s0"
  shows "ends_in (R s0) (\<lambda>x. True) (backfillHacker env cfg raw enq jo w)"
proof -
  define p where "p = hydrateBackfillPayload raw (w_store w)"
  obtain hs w1 where h: "hacker_set jo w = (hs, w1)" by (metis prod.exhaust)
  let ?w = "start_budget cfg (on_store (setExpandStatus (bp_address p) XBackfilling) w1)"
  have r: "R s0 (w_store ?w)" using step(3) hackers_ok[OF h assms(1)] by simp
  have t: "trace_ok drafts_ok (bv_trace (backfill_vars_of p))"
    unfolding vars_trace p_def by (intro hydrate_ok assms(2) saved_step[OF assms(1) assms(3)])
  show ?thesis
    unfolding backfillHacker_def Let_def p_def[symmetric] h prod.case
    by (rule ends_in_bind[OF backfill_fetch_ok[OF r]])
       (use t in \<open>auto split: bool.splits intro!: backfill_process_ok\<close>)
qed

lemma audit_ok:
  assumes "R s0 (w_store w)" and "saved_ok s0"
  shows "ends_in (R s0) (\<lambda>x. True) (auditHackerBackfill env cfg a w)"
proof -
  have e: "R s0 (snd (enqueueJobIfAbsent ty (buildBackfillJobPayload a s) pr ra dt ad b s))" if "R s0 s" for ty pr ra dt ad b s
  proof (rule R_trans[OF that R_absent])
    have "payload_ok drafts_ok q" if "Option.bind (getBackfillState a s) bs_payload = Some q" for q
      using that saved_payload[OF saved_step[OF \<open>R s0 s\<close> assms(2)]] by (auto simp: bind_eq_Some_conv)
    then show "payload_ok drafts_ok (buildBackfillJobPayload a s)"
      by (auto simp: buildBackfillJobPayload_def payload_ok_def spread_trace split: option.splits)
         (simp add: read_trace_def trace_ok_def)
  qed
  show ?thesis
    unfolding auditHackerBackfill_def
    by (rule ends_in_bind[OF getStats_ok[OF assms(1)]])
       (auto simp: Let_def applyAddressStats_def intro!: e backfill_state_ok step)
qed


lemma enqueue_poll_ok:
  assumes "R s0 (w_store w)" and "jget (pp_pending p) ''traceEdgesFlat'' = None"
  shows "R s0 (w_store (enqueue_poll ty pr p w))"
  using R_trans[OF assms(1) R_enqueue[OF poll_payload_flat[OF assms(2)]]] by (simp add: enqueue_poll_def)

lemma written_flat [simp]: "jget (writePendingPayload ps i c) ''traceEdgesFlat'' = None"
  by (simp add: writePendingPayload_def Let_def)

lemma poll_flat [simp]:
  "jget (pp_pending (hacker_poll_payload cfg a f v)) ''traceEdgesFlat'' = None"
  "jget (pp_pending (stats_only_payload a n)) ''traceEdgesFlat'' = None"
  "jget (pp_pending (poll_fields cfg a v)) ''traceEdgesFlat'' = None"
  by (simp_all add: hacker_poll_payload_def stats_only_payload_def poll_fields_def)

lemma enqueue_down_ok: "R s0 (w_store w) \<Longrightarrow> R s0 (w_store (enqueue_down cfg a v w))"
  unfolding enqueue_down_def by (rule enqueue_poll_ok) simp_all

lemma touch_ok: "R s0 s \<Longrightarrow> R s0 (touchSyncPoll a x s)" "R s0 s \<Longrightarrow> R s0 (upsertSyncState a d s)"
  "R s0 (w_store w) \<Longrightarrow> R s0 (w_store (touch_observed a n w))"
  by (simp_all add: touchSyncPoll_def upsertSyncState_def touch_observed_def step)

lemma stats_applied: "R s0 s \<Longrightarrow> R s0 (applyAddressStats a st s)"
  by (simp add: applyAddressStats_def step)

lemma probe_ok: "R s0 (w_store w) \<Longrightarrow> ends_in (R s0) (\<lambda>x. True) (probePollAddressStats env a w)"
  unfolding probePollAddressStats_def
  by (rule ends_in_bind[OF getStats_ok]) (auto simp: Let_def intro!: stats_applied)

lemma poll_stats_ok:
  assumes "R s0 (w_store w)" and "\<And>v. jget (pp_pending (cont v)) ''traceEdgesFlat'' = None"
  shows "ends_in (R s0) (\<lambda>x. True) (poll_stats env cfg a ty pr cont v w)"
proof -
  have "ends_in (R s0) (\<lambda>x. True) (case probePollAddressStats env a w of
          (Inl e, w1) \<Rightarrow> (Inl e, w1)
        | (Inr (n, skip), w1) \<Rightarrow>
            (let w2 = spend_call w1; v1 = v\<lparr>pv_observed := Some n, pv_stats := True\<rparr>
             in if skip then (Inr None, touch_observed a (Some n) w2)
                else if limited cfg \<and> chain_exhausted (w_budget w2)
                then (Inr None, enqueue_poll ty pr (cont v1) w2)
                else (Inr (Some v1), w2)))"
    by (rule ends_in_bind[OF probe_ok[OF assms(1)]])
       (auto simp: Let_def assms(2) intro!: touch_ok enqueue_poll_ok)
  then show ?thesis using assms(1) by (simp add: poll_stats_def)
qed

lemma hacker_page_ok: "R s0 (w_store w) \<Longrightarrow> ends_in (R s0) (\<lambda>x. True) (hacker_page cfg a page v w)"
  by (auto simp: hacker_page_def Let_def split: list.splits prod.splits intro!: touch_ok enqueue_poll_ok)

lemma down_page_ok: "R s0 (w_store w) \<Longrightarrow> ends_in (R s0) (\<lambda>x. True) (down_page cfg a page v w)"
  by (auto simp: down_page_def Let_def split: list.splits prod.splits intro!: touch_ok enqueue_down_ok)

lemma poll_fetch_ok:
  assumes "R s0 (w_store w)" and "\<And>v. jget (pp_pending (cont v)) ''traceEdgesFlat'' = None"
    and "\<And>page v w. R s0 (w_store w) \<Longrightarrow> ends_in (R s0) (\<lambda>x. True) (on_page page v w)"
  shows "ends_in (R s0) (\<lambda>x. True)
    (case poll_stats env cfg a ty pr cont v w of
          (Inl e, w1) \<Rightarrow> (Inl e, w1)
        | (Inr None, w1) \<Rightarrow> (Inr None, w1)
        | (Inr (Some v1), w1) \<Rightarrow>
            (case fetchAddressTxPage env a None w1 of
               (Inl e, w2) \<Rightarrow> (Inl e, w2)
             | (Inr page, w2) \<Rightarrow> on_page page v1 (spend_call w2)))"
  by (rule ends_in_bind[OF poll_stats_ok[OF assms(1,2)]])
     (auto intro!: ends_in_bind[OF fetchPage_ok] assms(3) split: option.splits)

lemma hacker_fetch_ok:
  assumes "R s0 (w_store w)" shows "ends_in (R s0) (\<lambda>x. True) (hacker_fetch env cfg a v w)"
  using assms poll_fetch_ok[OF assms, of "\<lambda>v1. stats_only_payload a (pv_observed v1)" "hacker_page cfg a"]
  by (auto simp: hacker_fetch_def hacker_page_ok)

lemma down_fetch_ok:
  assumes "R s0 (w_store w)" shows "ends_in (R s0) (\<lambda>x. True) (down_fetch env cfg a v w)"
  using assms poll_fetch_ok[OF assms, of "poll_fields cfg a" "down_page cfg a"]
  by (auto simp: down_fetch_def down_page_ok)

lemma hacker_loop_nil [simp]: "hacker_loop env cfg a jo hs n [] v w = (Inr v, w)"
  by (cases n) simp_all

lemma hacker_loop_ok:
  "R s0 (w_store w) \<Longrightarrow> ends_in (R s0) (\<lambda>x. True) (hacker_loop env cfg a jo hs n xs v w)"
proof (induction xs arbitrary: n v w)
  case (Cons x xs)
  show ?case
  proof (cases "n \<noteq> 0 \<and> canCall (w_budget w) \<and> \<not> cpu_exceeded w \<and> x \<noteq> None")
    case True
    then obtain e m where x: "x = Some e" "n = Suc m" by (auto simp: gr0_conv_Suc)
    let ?save = "\<lambda>w. (Inr (), enqueue_poll Poll_hacker_address POLL_HACKER (hacker_poll_payload cfg a True v) w)"
    let ?op = "(classified_job_opts None jo w)\<lparr>cl_skipIfIndexed := Some False\<rparr>"
    have p: "ends_in (R s0) (\<lambda>r. trace_ok drafts_ok (pr_state r))
        (withD1QuotaContinuationSave ?save (processClassifiedPendingTx env cfg a 0 e hs no_trace ?op) w)"
      by (rule quota_ok, rule process_entry_ok[OF Cons.prems]) (auto intro!: enqueue_poll_ok)
    have "ends_in (R s0) (\<lambda>x. True)
       (case withD1QuotaContinuationSave ?save (processClassifiedPendingTx env cfg a 0 e hs no_trace ?op) w of
            (Inl er, w1) \<Rightarrow> (Inl er, w1)
          | (Inr r, w1) \<Rightarrow>
              let w2 = charge_calls r w1; v1 = v\<lparr>pv_index := pv_index v + 1\<rparr>
              in if limited cfg \<and> chain_exhausted (w_budget w2) then (Inr v1, w2)
                 else hacker_loop env cfg a jo hs m xs v1 w2)"
    proof (rule ends_in_bind[OF p])
      fix r :: classified_result and w1 :: world assume "R s0 (w_store w1)"
      then show "ends_in (R s0) (\<lambda>x. True) (let w2 = charge_calls r w1; v1 = v\<lparr>pv_index := pv_index v + 1\<rparr>
              in if limited cfg \<and> chain_exhausted (w_budget w2) then (Inr v1, w2)
                 else hacker_loop env cfg a jo hs m xs v1 w2)"
        by (auto simp: Let_def intro!: Cons.IH)
    qed
    then show ?thesis using True x by simp
  qed (use Cons.prems in \<open>cases n; auto split: option.splits\<close>)
qed simp

lemma hacker_finish_ok: "R s0 (w_store w) \<Longrightarrow> R s0 (w_store (hacker_finish cfg a v w))"
  by (auto simp: hacker_finish_def intro!: touch_ok enqueue_poll_ok)

lemma pollHacker_ok:
  assumes "R s0 (w_store w)" shows "ends_in (R s0) (\<lambda>x. True) (pollHacker env cfg raw jo w)"
proof -
  have r: "R s0 (w_store (start_budget cfg w))" using assms by simp
  have g: "ends_in (R s0) (\<lambda>x. True) (let (hackers, w2) = hacker_set jo w1
              in case hacker_loop env cfg a jo hackers (nat (poll_limit cfg v w2))
                        (entries_from (pv_index v) (pv_pending v)) v w2 of
                   (Inl e, w3) \<Rightarrow> (Inl e, w3)
                 | (Inr v1, w3) \<Rightarrow> (Inr (), hacker_finish cfg a v1 w3))" if "R s0 (w_store w1)" for a v w1
  proof -
    obtain hs w2 where h: "hacker_set jo w1 = (hs, w2)" by (metis prod.exhaust)
    show ?thesis unfolding h Let_def prod.case
      by (rule ends_in_bind[OF hacker_loop_ok[OF hackers_ok[OF h that]]]) (simp add: hacker_finish_ok)
  qed
  show ?thesis
    unfolding pollHacker_def Let_def
    by (rule ends_in_bind[OF hacker_fetch_ok[OF r]]) (auto split: option.splits intro!: g[unfolded Let_def])
qed

lemma processAddressTxs_ok:
  "R s0 (w_store w) \<Longrightarrow> trace_ok drafts_ok tr \<Longrightarrow>
     ends_in (R s0) (\<lambda>x. True) (processAddressTxs env cfg a xs hs hop mc calls tr profile w)"
proof (induction xs arbitrary: calls tr w)
  case (Cons x xs)
  show ?case
  proof (cases "((case mc of Some m \<Rightarrow> calls \<ge> m | None \<Rightarrow> False) \<or> cpu_exceeded w) \<or> x = None")
    case False
    then obtain e where x: "x = Some e" by blast
    let ?op = "classified_job_opts profile \<lparr>jo_subreq = False, jo_hackers = None\<rparr> w"
    have "ends_in (R s0) (\<lambda>x. True)
      (case processClassifiedPendingTx env cfg a hop e hs tr ?op w of
            (Inl er, w1) \<Rightarrow> (Inl er, w1)
          | (Inr r, w1) \<Rightarrow>
              if pr_continued r then (Inr (Some (pr_state r)), w1)
              else processAddressTxs env cfg a xs hs hop mc (calls + pr_calls r) (pr_state r) profile w1)"
      by (rule ends_in_bind[OF process_entry_ok[OF Cons.prems]]) (auto intro!: Cons.IH)
    then show ?thesis using False x by simp
  qed (use Cons.prems(1) in \<open>auto split: option.splits\<close>)
qed simp

lemma down_process_ok:
  assumes "R s0 (w_store w)" shows "ends_in (R s0) (\<lambda>x. True) (down_process env cfg a jo hop profile v w)"
proof -
  obtain hs w1 where h: "hacker_set jo w = (hs, w1)" by (metis prod.exhaust)
  note r = hackers_ok[OF h assms]
  have q: "ends_in (R s0) (\<lambda>x. True) (withD1QuotaContinuationSave (\<lambda>w. (Inr (), enqueue_down cfg a v' w))
      (processAddressTxs env cfg a xs hs hop mc calls tr profile) w)" if "trace_ok drafts_ok tr" "R s0 (w_store w)"
    for v' xs mc calls tr w
    by (rule quota_ok, rule processAddressTxs_ok[OF that(2,1)]) (simp add: enqueue_down_ok)
  show ?thesis
    unfolding down_process_def h Let_def prod.case
    by (auto simp: r intro!: ends_in_bind[OF q] enqueue_down_ok)
qed

lemma gap_check_ok:
  assumes "R s0 (w_store w)" shows "ends_in (R s0) (\<lambda>x. True) (gap_check env cfg a needs v w)"
  unfolding gap_check_def
  by (auto simp: assms Let_def intro!: ends_in_bind[OF getStats_ok[OF assms]] touch_ok enqueue_down_ok stats_applied)

lemma gap_fill_ok:
  assumes "R s0 (w_store w)" shows "ends_in (R s0) (\<lambda>x. True) (gap_fill env cfg a v w)"
  unfolding gap_fill_def
  by (auto simp: assms Let_def intro!: ends_in_bind[OF fetchPage_ok[OF assms]] enqueue_down_ok)

lemma down_finish_ok: "R s0 (w_store w) \<Longrightarrow> R s0 (w_store (down_finish cfg a v w))"
  by (auto simp: down_finish_def Let_def intro!: touch_ok enqueue_down_ok)

lemma pollDownstream_ok:
  assumes "R s0 (w_store w)" shows "ends_in (R s0) (\<lambda>x. True) (pollDownstream env cfg raw jo w)"
proof -
  have r: "R s0 (w_store (start_budget cfg w))" using assms by simp
  show ?thesis
    unfolding pollDownstream_def Let_def
    by (auto simp: assms down_finish_ok split: option.splits
        intro!: ends_in_bind[OF down_fetch_ok[OF r]] ends_in_bind[OF gap_check_ok] ends_in_bind[OF gap_fill_ok]
          ends_in_bind[OF down_process_ok])
qed


text \<open>The expansion of a downstream address.\<close>

lemma expand_payload_ok: "trace_ok drafts_ok tr \<Longrightarrow> payload_ok drafts_ok (expand_payload c a tr x)"
  by (simp add: payload_ok_def expand_trace trace_ok_reread)

lemma expand_enqueue_ok:
  assumes "R s0 (w_store w)" and "payload_ok drafts_ok p"
  shows "ends_in (R s0) (\<lambda>x. True) (enqueueExpandContinuation p w)"
proof -
  obtain i s where e: "enqueueJob Expand_downstream p (resolveExpandJobPriority p) None False (w_store w) = (i, s)"
    by (metis prod.exhaust)
  have "R (w_store w) s" using R_enqueue[OF assms(2)] e by (metis snd_conv)
  then have "R s0 s" using R_trans assms(1) by blast
  then show ?thesis by (auto simp: enqueueExpandContinuation_def e split: option.splits)
qed

lemma relay_ok: "R s0 s \<Longrightarrow> R s0 (mark_relay sw a ps s)"
  by (auto simp: mark_relay_def intro!: step split: option.splits)

lemma expand_page_trace: "bv_trace (ev_base (take_expand_page cfg a txs x)) = bv_trace (ev_base x)"
  by (simp add: take_expand_page_def Let_def split: list.splits)

lemma expand_fetch_ok:
  assumes "R s0 (w_store w)"
  shows "ends_in (R s0) (\<lambda>(x1, b). bv_trace (ev_base x1) = bv_trace (ev_base x)) (expand_fetch env cfg sw a jo x w)"
proof -
  obtain room w0 where r: "subreq_room env jo w = (room, w0)" by (metis prod.exhaust)
  have w0: "R s0 (w_store w0)" using assms asked_store(2)[OF r] by simp
  have b: "ends_in (R s0) (\<lambda>(x1, b). bv_trace (ev_base x1) = bv_trace (ev_base x))
     (case fetchAddressTxPage env a (bv_cursor (ev_base x)) w0 of
             (Inl e, w1) \<Rightarrow> (Inl e, w1)
           | (Inr txs, w1) \<Rightarrow>
               (let x1 = take_expand_page cfg a txs x;
                    w2 = spend_call w1;
                    w3 = (if txs \<noteq> [] \<and> ev_pages x1 = 1
                          then on_store (mark_relay sw a (bv_pending (ev_base x1))) w2 else w2);
                    (out, w4) = out_of_room env cfg jo w3
                in if out \<and> (has_pending (ev_base x1) \<or> \<not> bv_exhausted (ev_base x1))
                   then (case enqueueExpandContinuation (expand_payload None a no_trace x1) w4 of
                           (Inl e, w5) \<Rightarrow> (Inl e, w5)
                         | (Inr u, w5) \<Rightarrow> (Inr (x1, True), w5))
                   else (Inr (x1, False), w4)))"
  proof (rule ends_in_bind[OF fetchPage_ok[OF w0]])
    fix txs :: "chain_tx list" and w1 :: world assume "R s0 (w_store w1)"
    let ?x1 = "take_expand_page cfg a txs x"
    let ?w3 = "if txs \<noteq> [] \<and> ev_pages ?x1 = 1
               then on_store (mark_relay sw a (bv_pending (ev_base ?x1))) (spend_call w1) else spend_call w1"
    obtain out w4 where o: "out_of_room env cfg jo ?w3 = (out, w4)" by (metis prod.exhaust)
    have "R s0 (w_store ?w3)" using \<open>R s0 (w_store w1)\<close> by (simp add: relay_ok)
    then have w4: "R s0 (w_store w4)" using asked_store(4)[OF o] by simp
    have "ends_in (R s0) (\<lambda>(x1, b). bv_trace (ev_base x1) = bv_trace (ev_base x))
        (case enqueueExpandContinuation (expand_payload None a no_trace ?x1) w4 of
           (Inl e, w5) \<Rightarrow> (Inl e, w5) | (Inr u, w5) \<Rightarrow> (Inr (?x1, True), w5))"
      by (rule ends_in_bind[OF expand_enqueue_ok[OF w4 expand_payload_ok]]) (simp_all add: expand_page_trace)
    then show "ends_in (R s0) (\<lambda>(x1, b). bv_trace (ev_base x1) = bv_trace (ev_base x))
               (let x1 = take_expand_page cfg a txs x;
                    w2 = spend_call w1;
                    w3 = (if txs \<noteq> [] \<and> ev_pages x1 = 1
                          then on_store (mark_relay sw a (bv_pending (ev_base x1))) w2 else w2);
                    (out, w4) = out_of_room env cfg jo w3
                in if out \<and> (has_pending (ev_base x1) \<or> \<not> bv_exhausted (ev_base x1))
                   then (case enqueueExpandContinuation (expand_payload None a no_trace x1) w4 of
                           (Inl e, w5) \<Rightarrow> (Inl e, w5)
                         | (Inr u, w5) \<Rightarrow> (Inr (x1, True), w5))
                   else (Inr (x1, False), w4))"
      using w4 by (simp add: Let_def o expand_page_trace)
  qed
  show ?thesis
    unfolding expand_fetch_def using assms w0 b by (simp add: Let_def r split: if_splits)
qed

lemma expand_loop_ok:
  "R s0 (w_store w) \<Longrightarrow> trace_ok drafts_ok (bv_trace (ev_base x)) \<Longrightarrow>
     ends_in (R s0) (\<lambda>(x1, c). trace_ok drafts_ok (bv_trace (ev_base x1)) \<and>
         (\<forall>r. c = Some r \<longrightarrow> trace_ok drafts_ok (pr_state r)))
       (expand_loop env cfg a hop profile jo hs n ys x w)"
proof (induction ys arbitrary: n x w)
  case (Cons y ys)
  obtain go w0 where m: "may_process env jo n w = (go, w0)" by (metis prod.exhaust)
  have w0: "R s0 (w_store w0)" using Cons.prems(1) asked_store(5)[OF m] by simp
  show ?case
  proof (cases "\<exists>e. go \<and> y = Some e")
    case True
    then obtain e where e: "go" "y = Some e" by blast
    let ?v = "ev_base x"
    have s: "ends_in (R s0) (\<lambda>x. True) (enqueueExpandContinuation (expand_payload None a (bv_trace ?v) x) w)"
      if "R s0 (w_store w)" for w
      by (rule expand_enqueue_ok[OF that expand_payload_ok[OF Cons.prems(2)]])
    have "ends_in (R s0) (\<lambda>(x1, c). trace_ok drafts_ok (bv_trace (ev_base x1)) \<and>
         (\<forall>r. c = Some r \<longrightarrow> trace_ok drafts_ok (pr_state r)))
       (case step_entry env cfg a hop profile jo hs
                       (enqueueExpandContinuation (expand_payload None a (bv_trace ?v) x)) (bv_trace ?v) e w0 of
                  (Inl er, w1) \<Rightarrow> (Inl er, w1)
                | (Inr r, w1) \<Rightarrow>
                    let w2 = charge_calls r w1
                    in if pr_continued r then (Inr (x, Some r), w2)
                       else
                         let x1 = x\<lparr>ev_base := ?v\<lparr>bv_index := bv_index ?v + 1, bv_trace := pr_state r\<rparr>\<rparr>;
                             (stop, w3) = stop_now env cfg jo w2
                         in if stop then (Inr (x1, None), w3)
                            else expand_loop env cfg a hop profile jo hs
                                   (n\<lparr>lc_processed := lc_processed n + 1\<rparr>) ys x1 w3)"
      by (rule ends_in_bind[OF step_entry_ok[OF w0 Cons.prems(2) s]])
         (auto simp: Let_def Cons.prems split: prod.splits dest!: asked_store(6) intro!: Cons.IH)
    then show ?thesis using e by (simp add: m Let_def)
  qed (use w0 Cons.prems(2) in \<open>auto simp: m split: option.splits\<close>)
qed simp

lemma max_depth_ok: "R s0 s \<Longrightarrow> R s0 (mark_max_depth cfg a hop s)"
proof -
  have "R s0 s \<Longrightarrow> R s0 (fold (\<lambda>e. upsertAddress (f e)) es s)" for es and f :: "edge_row \<Rightarrow> addr_upsert"
    by (induction es arbitrary: s) (auto intro: step)
  then show "R s0 s \<Longrightarrow> ?thesis" by (simp add: mark_max_depth_def)
qed

lemma expand_done_ok: "R s0 s \<Longrightarrow> R s0 (expand_done cfg a hop v s)"
  by (auto simp: expand_done_def Let_def upsertSyncState_def intro!: step max_depth_ok split: option.splits)

lemma expand_process_ok:
  assumes "R s0 (w_store w)" and "trace_ok drafts_ok (bv_trace (ev_base x))"
  shows "ends_in (R s0) (\<lambda>x. True) (expand_process env cfg a hop profile jo hs x w)"
proof -
  have q: "ends_in (R s0) (\<lambda>x. True) (case enqueueExpandContinuation (expand_payload c a tr y) w of
        (Inl e, w2) \<Rightarrow> (Inl e, w2) | (Inr u, w2) \<Rightarrow> (Inr st, w2))"
    if "R s0 (w_store w)" "trace_ok drafts_ok tr" for c tr y w and st :: job_stats
    by (rule ends_in_bind[OF expand_enqueue_ok[OF that(1) expand_payload_ok[OF that(2)]]]) simp
  show ?thesis
    unfolding expand_process_def Let_def
    by (rule ends_in_bind[OF expand_loop_ok[OF assms]])
       (auto intro!: q expand_done_ok split: option.splits)
qed

lemma expandDownstream_ok:
  assumes "R s0 (w_store w)" and "payload_ok drafts_ok raw"
  shows "ends_in (R s0) (\<lambda>x. True) (expandDownstream env cfg sw raw jo w)"
proof -
  obtain hs w1 where h: "hacker_set jo w = (hs, w1)" by (metis prod.exhaust)
  let ?w = "start_budget cfg (on_store (setExpandStatus (payload_address raw) XExpanding) w1)"
  have r: "R s0 (w_store ?w)" using step(3) hackers_ok[OF h assms(1)] by simp
  have t: "trace_ok drafts_ok (bv_trace (ev_base (expand_vars_of raw)))"
    using assms(2) by (simp add: expand_vars_of_def payload_ok_def)
  have p: "ends_in (R s0) (\<lambda>x. True) (case expand_process env cfg a hop profile jo hs x w of
      (Inl e, w4) \<Rightarrow> (Inl e, w4) | (Inr st, w4) \<Rightarrow> (Inr (Some st), w4))"
    if "R s0 (w_store w)" "trace_ok drafts_ok (bv_trace (ev_base x))" for a hop profile x w
    by (rule ends_in_bind[OF expand_process_ok[OF that]]) simp
  have f: "ends_in (R s0) (\<lambda>x. True)
      (case expand_fetch env cfg sw a jo (expand_vars_of raw) ?w of
                (Inl e, w3) \<Rightarrow> (Inl e, w3)
              | (Inr (x, True), w3) \<Rightarrow> (Inr (Some (plain_stats True)), w3)
              | (Inr (x, False), w3) \<Rightarrow>
                  (case expand_process env cfg a hop profile jo hs x w3 of
                     (Inl e, w4) \<Rightarrow> (Inl e, w4)
                   | (Inr st, w4) \<Rightarrow> (Inr (Some st), w4)))" for a hop profile
    by (rule ends_in_bind[OF expand_fetch_ok[OF r]]) (use t in \<open>auto split: bool.splits intro!: p\<close>)
  show ?thesis
    unfolding expandDownstream_def Let_def h prod.case
    using f assms(1) by (auto intro: step)
qed

text \<open>The other bodies and the dispatch.\<close>

lemma op_return_loop_ok: "R s0 (w_store w) \<Longrightarrow> ends_in (R s0) (\<lambda>x. True) (op_return_loop env jo ts n w)"
proof (induction ts arbitrary: n w)
  case (Cons t ts)
  obtain sp w1 where m: "subreq_spent env jo w = (sp, w1)" by (metis prod.exhaust)
  have w1: "R s0 (w_store w1)" using Cons.prems asked_store(3)[OF m] by simp
  have "ends_in (R s0) (\<lambda>x. True) (case captureOpReturnForTx env t (captureOpReturnJobOpts jo w1) None w1 of
                  (Inl e, w2) \<Rightarrow> (Inl e, w2)
                | (Inr x, w2) \<Rightarrow> op_return_loop env jo ts (n + 1) w2)"
    by (rule ends_in_bind[OF capture_ok[OF w1]]) (rule Cons.IH)
  then show ?case using Cons.prems w1 by (simp add: m)
qed simp

lemma empty_payload_ok: "payload_ok drafts_ok []"
  by (simp add: payload_ok_def read_trace_def trace_ok_def)

lemma backfillOpReturn_ok:
  assumes "R s0 (w_store w)" shows "ends_in (R s0) (\<lambda>x. True) (backfillOpReturn env cfg jo w)"
proof -
  have r: "R s0 (w_store (start_budget cfg w))" using assms by simp
  show ?thesis
    unfolding backfillOpReturn_def Let_def
    by (rule ends_in_bind[OF op_return_loop_ok[OF r]])
       (auto split: prod.splits dest!: asked_store(3) intro!: R_trans[OF _ R_absent] empty_payload_ok)
qed

lemma process_tx_ok:
  assumes "R s0 (w_store w)" shows "ends_in (R s0) (\<lambda>x. True) (process_tx_body env cfg p jo w)"
proof -
  obtain hs w1 where h: "hacker_set jo w = (hs, w1)" by (metis prod.exhaust)
  have "ends_in (R s0) (\<lambda>r. \<forall>es. tr_flat r = Some es \<longrightarrow> drafts_ok es)
      (processTxForHackTrace env t hs (process_tx_opts cfg w1) w1)" for t
    by (rule processTx_ok[OF hackers_ok[OF h assms]]) (simp add: process_tx_opts_def)
  then show ?thesis unfolding process_tx_body_def h Let_def prod.case by (rule ends_in_weaken) simp
qed

lemma refresh_ok:
  assumes "R s0 (w_store w)" shows "ends_in (R s0) (\<lambda>x. True) (refreshBalance env a w)"
  unfolding refreshBalance_def by (rule ends_in_bind[OF getStats_ok[OF assms]]) (simp add: stats_applied)

lemma stats_kept:
  "ends_in (R s0) Q (f w) \<Longrightarrow> ends_in (R s0) (\<lambda>x. True) (no_stats f w)"
  "ends_in (R s0) Q' (g w) \<Longrightarrow> ends_in (R s0) (\<lambda>x. True) (some_stats g w)"
  unfolding no_stats_def some_stats_def by (erule ends_in_bind, simp)+

lemma external_ok:
  assumes "\<And>ty p s. R s (snd (ext ty p s))" and "R s0 (w_store w)"
  shows "ends_in (R s0) (\<lambda>x. True) (external_act ext ty p w)"
  using R_trans[OF assms(2) assms(1)[of "w_store w" ty p]]
  by (auto simp: external_act_def ends_in_def split: prod.splits)

lemma dispatch_ok:
  assumes "\<And>ty p s. R s (snd (ext ty p s))" and "R s0 (w_store w)" and "payload_ok drafts_ok p" and "saved_ok s0"
  shows "ends_in (R s0) (\<lambda>x. True) (dispatch_job env cfg sw ext jo ty p w)"
  by (cases ty; simp only: dispatch_job.simps; (rule stats_kept)?)
     ((rule backfill_ok audit_ok pollHacker_ok pollDownstream_ok expandDownstream_ok refresh_ok process_tx_ok
         backfillOpReturn_ok external_ok, (rule assms)+) | simp add: assms)+

lemma processJob_ok:
  assumes "\<And>ty p s. R s (snd (ext ty p s))" and "R s0 (w_store w)" and "saved_ok s0"
    and "\<And>p. payloadJson j = Some p \<Longrightarrow> payload_ok drafts_ok p"
  shows "R s0 (w_store (snd (processJob env cfg sw ext jo j w)))"
proof -
  have "ends_in (R s0) (\<lambda>x. True) (case payloadJson j of
      None \<Rightarrow> (Inl (Other_error ''Unexpected token in JSON''), w)
    | Some p \<Rightarrow> dispatch_job env cfg sw ext jo (job_kind j) p w)"
    using assms by (auto split: option.splits intro!: dispatch_ok)
  then show ?thesis
    by (auto simp: processJob_def ends_in_def step split: prod.splits)
qed

lemma run_job_ok:
  assumes "\<And>ty p s. R s (snd (be_external be ty p s))" and "saved_ok s"
    and "\<And>p. payloadJson j = Some p \<Longrightarrow> payload_ok drafts_ok p" and "run_job be cfg j s b = (r, t, b')"
  shows "R s t"
proof -
  have h: "R s (w_store w')" if "hacker_set jo (job_world cfg s) = (hs, w')" for jo hs w'
    using hackers_ok[OF that, of s] R_refl by (simp add: job_world_def)
  have f: "R s (w_store (snd (feed_job (be_external be) j w)))" if "R s (w_store w)" for w
  proof -
    have "ends_in (R s) (\<lambda>x. True) (no_stats (external_act (be_external be) ty p) w)" for ty p
      by (rule stats_kept, rule external_ok[OF assms(1) that])
    then show ?thesis using that by (auto simp: feed_job_def ends_in_def split: option.splits)
  qed
  have p: "R s (w_store (snd (if is_feed (job_kind j) then feed_job (be_external be) j w
        else processJob (be_chain be j s) cfg (be_sweep be) (be_external be) jo j w)))" if "R s (w_store w)" for jo w
    using f[OF that] processJob_ok[OF assms(1) that assms(2,3)] by simp
  have "R s (w_store (job_world cfg s))" by (simp add: job_world_def R_refl)
  then show ?thesis
    using assms(4) p by (auto simp: run_job_def Let_def split: prod.splits if_splits dest!: h) (metis snd_conv)+
qed

end

end
