(* ===== verification/JobFrame.thy ===== *)
theory JobFrame
  imports JobBody ProcessSafety AddrReach
begin

text \<open>
  What the writes to addresses, edges, transactions, sync rows and provider columns leave alone: the
  job rows and the counters of the jobs.
\<close>

definition jobs_same :: "store \<Rightarrow> store \<Rightarrow> bool" where
  "jobs_same s t \<longleftrightarrow> jobs t = jobs s \<and> job_seq t = job_seq s \<and> (\<forall>k\<in>set job_counters. cv k t = cv k s)"

named_theorems keeps_jobs

lemma jobs_same_refl [keeps_jobs]: "jobs_same s s"
  by (simp add: jobs_same_def)

lemma jobs_same_trans: "jobs_same s t \<Longrightarrow> jobs_same t u \<Longrightarrow> jobs_same s u"
  by (simp add: jobs_same_def)

lemma jobs_same_set:
  "jobs_same s (t\<lparr>addresses := as\<rparr>) = jobs_same s t" "jobs_same s (t\<lparr>edges := es\<rparr>) = jobs_same s t"
  "jobs_same s (t\<lparr>transactions := ts\<rparr>) = jobs_same s t" "jobs_same s (t\<lparr>sync_state := ss\<rparr>) = jobs_same s t"
  "jobs_same s (t\<lparr>hack_stats := hs\<rparr>) = jobs_same s t" "jobs_same s (t\<lparr>hack_victims := vs\<rparr>) = jobs_same s t"
  "jobs_same s (t\<lparr>hacker_victim_peaks := ps\<rparr>) = jobs_same s t" "jobs_same s (t\<lparr>recent_buffer := rb\<rparr>) = jobs_same s t"
  "jobs_same s (t\<lparr>clock := c\<rparr>) = jobs_same s t" "jobs_same s (t\<lparr>rate_limits := rl\<rparr>) = jobs_same s t"
  by (simp_all add: jobs_same_def)

lemma jobs_same_sched:
  assumes "jobs_same s t" and "\<And>k r. k \<in> set job_counters \<Longrightarrow> counter_val k (f r) = counter_val k r"
  shows "jobs_same s (updateSchedulerState f t)"
  using assms by (simp add: jobs_same_def)

lemma jobs_same_adjust: "jobs_same s t \<Longrightarrow> k \<notin> set job_counters \<Longrightarrow> jobs_same s (adjust k d t)"
  by (auto simp: jobs_same_def cv_adjust simp del: counter_val.simps)

lemma jobs_same_stats: "jobs_same s t \<Longrightarrow> stats_frame t u \<Longrightarrow> jobs_same s u"
  by (auto simp: jobs_same_def stats_frame_def job_counters_def)

lemma jobs_same_hack [keeps_jobs]: "jobs_same s t \<Longrightarrow> jobs_same s (adjustHackStatsCounter h f d t)"
  by (simp add: adjustHackStatsCounter_def jobs_same_set)

lemma jobs_same_rows [keeps_jobs]: "jobs_same s t \<Longrightarrow> jobs_same s (set_addresses rows t)"
  by (simp add: set_addresses_def jobs_same_set)

lemma jobs_same_put_sync [keeps_jobs]: "jobs_same s t \<Longrightarrow> jobs_same s (put_sync a f t)"
  by (simp add: put_sync_def jobs_same_set)

lemma jobs_same_flip [keeps_jobs]: "jobs_same s t \<Longrightarrow> k \<notin> set job_counters \<Longrightarrow> jobs_same s (flip_counter k b c t)"
  by (simp add: flip_counter_def adjustSchedulerCounter_def jobs_same_adjust)

lemma jobs_same_crawl [keeps_jobs]: "jobs_same s t \<Longrightarrow> jobs_same s (adjustCrawlPendingCount d t)"
  unfolding adjustCrawlPendingCount_def by (rule jobs_same_adjust) (simp_all add: job_counters_def)

lemma jobs_same_invalidate [keeps_jobs]: "jobs_same s t \<Longrightarrow> jobs_same s (invalidateFlaggedHackersCache t)"
  unfolding invalidateFlaggedHackersCache_def by (rule jobs_same_sched) simp_all

lemma jobs_same_dirty [keeps_jobs]: "jobs_same s t \<Longrightarrow> jobs_same s (markMonitorSnapshotDirty t)"
  unfolding markMonitorSnapshotDirty_def by (rule jobs_same_sched) simp_all

lemma jobs_same_maybeMark [keeps_jobs]: "jobs_same s t \<Longrightarrow> jobs_same s (maybeMarkMonitorSnapshotDirty b a t)"
  by (erule jobs_same_stats) (rule maybeMark_frame)

lemma jobs_same_delta [keeps_jobs]: "jobs_same s t \<Longrightarrow> jobs_same s (applyAddressStatsDelta b a t)"
  by (erule jobs_same_stats) (rule apply_stats_frame)

lemma jobs_same_batch_stats [keeps_jobs]: "jobs_same s t \<Longrightarrow> jobs_same s (apply_batch_stats b a as t)"
  by (erule jobs_same_stats) (rule batch_stats_frame)

lemma jobs_same_poll_due [keeps_jobs]:
  assumes "jobs_same s t"
  shows "jobs_same s (case adjustPollDueCountDelta d m i f t of (True, u) \<Rightarrow> u | (False, u) \<Rightarrow> markMonitorSnapshotDirty u)"
proof -
  have "counter_val k ((counter_upd PollDue x r)\<lparr>downstreamPollDueAt := y\<rparr>) = counter_val k r"
    if "k \<in> set job_counters" for k x y r
    using that by (auto simp: job_counters_def)
  then show ?thesis
    using assms jobs_same_sched[OF assms(1)] by (auto simp: adjustPollDueCountDelta_def keeps_jobs)
qed

lemma jobs_same_fold: "jobs_same s t \<Longrightarrow> (\<And>x u. jobs_same s u \<Longrightarrow> jobs_same s (f x u)) \<Longrightarrow> jobs_same s (fold f xs t)"
  by (induction xs arbitrary: t) auto


lemma jobs_same_tx [keeps_jobs]: "jobs_same s t \<Longrightarrow> jobs_same s (upsertTransaction u t)"
  by (simp add: upsertTransaction_def jobs_same_set)

lemma jobs_same_address [keeps_jobs]: "jobs_same s t \<Longrightarrow> jobs_same s (upsertAddress u t)"
  unfolding upsertAddress_def Let_def by (auto intro!: keeps_jobs split: option.split)

lemma jobs_same_batch [keeps_jobs]: "jobs_same s t \<Longrightarrow> jobs_same s (upsertAddressesBatch us t)"
  unfolding upsertAddressesBatch_def Let_def by (auto intro!: keeps_jobs)

lemma jobs_same_status [keeps_jobs]: "jobs_same s t \<Longrightarrow> jobs_same s (setExpandStatus a x t)"
  unfolding setExpandStatus_def Let_def by (auto intro!: keeps_jobs simp: job_counters_def split: option.split)

lemma jobs_same_profile [keeps_jobs]: "jobs_same s t \<Longrightarrow> jobs_same s (setExpandProfile a x r f t)"
  unfolding setExpandProfile_def by (intro keeps_jobs)

lemma jobs_same_sync [keeps_jobs]: "jobs_same s t \<Longrightarrow> jobs_same s (recordSyncPoll a d t)"
  unfolding recordSyncPoll_def Let_def
  by (auto intro!: keeps_jobs)

lemma jobs_same_backfill [keeps_jobs]:
  "jobs_same s t \<Longrightarrow> jobs_same s (upsertBackfillState a p b t)" "jobs_same s t \<Longrightarrow> jobs_same s (updateBackfillAudit a n t)"
  by (simp_all add: upsertBackfillState_def updateBackfillAudit_def jobs_same_put_sync)

lemma jobs_same_received [keeps_jobs]: "jobs_same s t \<Longrightarrow> jobs_same s (applyTotalReceivedDelta a d t)"
  unfolding applyTotalReceivedDelta_def Let_def by (auto intro!: keeps_jobs simp: job_counters_def split: option.split)

lemma jobs_same_inbound [keeps_jobs]: "jobs_same s t \<Longrightarrow> jobs_same s (applyInboundSatsDelta a d t)"
  unfolding applyInboundSatsDelta_def Let_def
  by (auto split: option.split intro!: keeps_jobs)

lemma jobs_same_recent [keeps_jobs]: "jobs_same s t \<Longrightarrow> jobs_same s (recordRecentHackerActivity a d t)"
  by (simp add: recordRecentHackerActivity_def Let_def jobs_same_set)

lemma jobs_same_victim [keeps_jobs]: "jobs_same s t \<Longrightarrow> jobs_same s (count_new_victim h u t)"
  by (auto simp: count_new_victim_def tryInsertHackVictim_def jobs_same_set intro!: keeps_jobs split: option.split)

lemma jobs_same_peak [keeps_jobs]: "jobs_same s t \<Longrightarrow> jobs_same s (applyHackerVictimPeakDelta h v n m t)"
  by (auto simp: applyHackerVictimPeakDelta_def Let_def jobs_same_set split: option.split)

lemma jobs_same_totals [keeps_jobs]:
  assumes "jobs_same s t" shows "jobs_same s (adjustEdgeTotalsCounters i d t)"
  unfolding adjustEdgeTotalsCounters_def using assms
  by (auto intro!: jobs_same_sched simp: job_counters_def)

lemma jobs_same_edge_chunk [keeps_jobs]: "jobs_same s t \<Longrightarrow> jobs_same s (upsert_edge_chunk c t)"
  unfolding upsert_edge_chunk_def Let_def
  by (intro jobs_same_fold; simp add: jobs_same_set keeps_jobs split: prod.split)

lemma jobs_same_edges [keeps_jobs]: "jobs_same s t \<Longrightarrow> jobs_same s (upsertEdgesBatch us t)"
proof -
  have "jobs_same s t \<Longrightarrow> jobs_same s (upsert_edge_chunks cs i d t)" for cs i d
    by (induction cs i d t rule: upsert_edge_chunks.induct) (simp_all add: keeps_jobs)
  then show "jobs_same s t \<Longrightarrow> ?thesis" by (simp add: upsertEdgesBatch_def)
qed

lemma jobs_same_slice [keeps_jobs]: "jobs_same s t \<Longrightarrow> jobs_same s (apply_slice tx bt op vs es t)"
proof -
  have v: "jobs_same s t \<Longrightarrow> jobs_same s (record_victims nv ok tm rows t)" for nv ok tm rows t
    unfolding record_victims_def Let_def by (intro jobs_same_fold; simp add: keeps_jobs)
  have d: "jobs_same s t \<Longrightarrow> jobs_same s (record_downstream sp tm t)" for sp tm t
    unfolding record_downstream_def by (intro jobs_same_fold; auto intro!: jobs_same_fold keeps_jobs)
  have i: "jobs_same s t \<Longrightarrow> jobs_same s (fold (\<lambda>(a, d). addInboundSats a d) m t)" for m t
    by (rule jobs_same_fold) (auto simp: addInboundSats_def intro: keeps_jobs)
  assume "jobs_same s t"
  then show ?thesis unfolding apply_slice_def Let_def by (auto intro!: v d i keeps_jobs)
qed

lemma jobs_same_trace_chunk: "jobs_same s (snd (applyHackTraceEdgesChunk t bt flat vs op s))"
  by (auto simp: applyHackTraceEdgesChunk_def register_victims_def Let_def split: prod.split intro!: keeps_jobs)

lemma jobs_same_hackers: "jobs_same s (snd (getHackerAddressSet s))"
  unfolding getHackerAddressSet_def
  by (auto simp: listHackersCached_def refreshFlaggedHackersCache_def Let_def keeps_jobs intro!: jobs_same_sched
      split: prod.splits)

lemma jobs_same_flush: "jobs_same s (snd (flushRecentHackerActivity n s))"
proof -
  have "counter_val k (r\<lparr>recentHackers := m\<rparr>) = counter_val k r" for k r m by (cases k) simp_all
  then show ?thesis
    by (auto simp: flushRecentHackerActivity_def clearRecentHackerActivityBuffer_def Let_def jobs_same_set keeps_jobs
        intro!: jobs_same_sched)
qed

lemma jobs_same_provider:
  assumes "withProvider rt net s = (r, c, t)" shows "jobs_same s t"
proof -
  have m: "jobs_same s u \<Longrightarrow> jobs_same s (markCalled rt p b u)" for p b u
    unfolding markCalled_def by (rule jobs_same_sched) (auto simp: job_counters_def)
  have c: "jobs_same s u \<Longrightarrow> jobs_same s (clearProviderStrike p u)" for p u
    by (cases p) (auto simp: clearProviderStrike_def job_counters_def intro!: jobs_same_sched)
  have e: "jobs_same s u \<Longrightarrow> jobs_same s (ensureApiThresholdDay u)" for u
    by (auto simp: ensureApiThresholdDay_def Let_def job_counters_def intro!: jobs_same_sched)
  have l: "jobs_same s u \<Longrightarrow> jobs_same s (recordProviderRateLimit rt st p h u)" for st p h u
    by (cases p) (auto simp: recordProviderRateLimit_def recordApiThreshold_def Let_def job_counters_def
        intro!: jobs_same_sched e)
  have t: "jobs_same s u \<Longrightarrow> jobs_same s (snd (snd (try_providers rt net ps last u)))" for ps last u
  proof (induction ps arbitrary: last u)
    case (Cons p ps)
    then show ?case by (cases "net p") (simp_all add: m c l prod.case_eq_if)
  qed (simp add: m split: option.split)
  have w: "jobs_same s u" if "waitForRateLimit rt s = Inr u" for u
    using that by (auto simp: waitForRateLimit_def jobs_same_set keeps_jobs split: option.splits if_splits)
  show ?thesis
  proof (cases "waitForRateLimit rt s")
    case (Inr u)
    then show ?thesis
    proof (cases "orderedProviders rt (clock u) (sched u)")
      case (Cons p ps)
      then show ?thesis using t[OF w[OF Inr], of "p # ps" None] assms Inr by (simp add: withProvider_def del: try_providers.simps)
    qed (use assms w[OF Inr] Inr in \<open>simp add: withProvider_def\<close>)
  qed (use assms in \<open>simp add: withProvider_def keeps_jobs\<close>)
qed

end
