(* ===== verification/BodySafety.thy ===== *)
theory BodySafety
  imports BodyFrame JobFrame TxProcessProps
begin

text \<open>
  The bodies of the jobs and the queue: what a body writes leaves the claimed jobs claimed and the
  counters exact, so the loop of \<open>processJobs\<close> with the modelled bodies leaves no job running.
\<close>

definition queue_kept :: "store \<Rightarrow> store \<Rightarrow> bool" where
  "queue_kept s t \<longleftrightarrow> (jobs_inv s \<longrightarrow>
     jobs_inv t \<and> running_ids t \<subseteq> running_ids s \<and> (\<forall>i. not_done i s \<longrightarrow> not_done i t))"

lemma queue_kept_trans: "queue_kept s t \<Longrightarrow> queue_kept t u \<Longrightarrow> queue_kept s u"
  unfolding queue_kept_def by blast

lemma jobs_same_queue: "jobs_same s t \<Longrightarrow> queue_kept s t"
  unfolding queue_kept_def
proof (intro impI conjI allI)
  assume j: "jobs_same s t" and inv: "jobs_inv s"
  show "jobs_inv t" by (rule jobs_inv_frame[OF inv]) (use j in \<open>auto simp: jobs_same_def\<close>)
  show "running_ids t \<subseteq> running_ids s" using j by (simp add: jobs_same_def running_ids_def)
  show "not_done i t" if "not_done i s" for i using that j by (simp add: not_done_def getJob_def jobs_same_def)
qed

lemma queue_kept_enqueue: "queue_kept s (snd (enqueueJob ty p pr ra b s))"
  by (simp add: queue_kept_def enqueueJob_running enqueueJob_not_done inv_intros)

lemma queue_kept_absent: "queue_kept s (snd (enqueueJobIfAbsent ty p pr ra dt ad b s))"
proof -
  obtain ok t where a: "shouldAllowEnqueue ty p b s = (ok, t)" by fastforce
  have e: "snd (enqueueJob ty p pr ra b s) = (if ok then snd (insert_job ty p pr ra t) else t)"
    by (simp add: enqueueJob_def a)
  have i: "snd (enqueueJobIfAbsent ty p pr ra dt ad b s) = t \<or>
      (ok \<and> snd (enqueueJobIfAbsent ty p pr ra dt ad b s) = snd (insert_job ty p pr ra t))"
    by (cases ok) (simp_all add: enqueueJobIfAbsent_def a Let_def)
  have "jobs_inv s \<Longrightarrow> jobs_inv t" using shouldAllowEnqueue_inv[of s ty p b] a by simp
  moreover have "jobs t = jobs s" by (rule shouldAllow_frame[OF a])
  ultimately have "queue_kept s t" by (simp add: queue_kept_def running_ids_def not_done_def getJob_def)
  then show ?thesis using i e queue_kept_enqueue[of s ty p pr ra b] by metis
qed

interpretation queue_writes: job_writes queue_kept "\<lambda>_. True" "\<lambda>_. True"
proof unfold_locales
  show "queue_kept s s" for s by (simp add: queue_kept_def)
  show "queue_kept s u" if "queue_kept s t" "queue_kept t u" for s t u using that by (rule queue_kept_trans)
qed (auto simp: payload_ok_def trace_ok_def addInboundSats_def upsertEdge_def queue_kept_enqueue queue_kept_absent
       intro!: jobs_same_queue keeps_jobs jobs_same_trace_chunk jobs_same_hackers jobs_same_flush
       intro: jobs_same_provider split: option.splits)

lemma run_job_body_ok:
  assumes "\<And>ty p s. queue_kept s (snd (be_external be ty p s))"
  shows "body_ok (run_job be cfg)"
  unfolding body_ok_def
proof (intro allI impI)
  fix j s b out s' b'
  assume "run_job be cfg j s b = (out, s', b')" and inv: "jobs_inv s"
  then have "queue_kept s s'" by (intro queue_writes.run_job_ok[OF assms]) (simp_all add: payload_ok_def trace_ok_def split: option.splits)
  then show "jobs_inv s' \<and> running_ids s' \<subseteq> running_ids s \<and> (\<forall>i. not_done i s \<longrightarrow> not_done i s')"
    using inv by (simp add: queue_kept_def)
qed


text \<open>A hacker with one incoming payment on the chain, and the job that backfills it.\<close>

definition demo_receive_tx :: chain_tx where
  "demo_receive_tx = \<lparr>ctx_txid = ''r'', ctx_status = None, ctx_fee = None,
     ctx_vin = Some [\<lparr>vin_txid = None, vin_vout = None,
        prevout_of = Some \<lparr>prev_address = Some ''v'', prev_value = Some 510000\<rparr>, is_coinbase = None\<rparr>],
     ctx_vout = Some [\<lparr>out_address = Some ''h'', out_value = Some 500000, out_type = None, out_asm = None, out_script = None\<rparr>]\<rparr>"

definition demo_bodies :: body_env where
  "demo_bodies = \<lparr>be_chain = (\<lambda>j s. failing_env\<lparr>ce_router := (ce_router failing_env)\<lparr>r_sleepOnRateLimit := True\<rparr>,
        ce_page := (\<lambda>n a c p. Answer (if c = None then [demo_receive_tx] else [])),
        ce_getTx := (\<lambda>n t p. Answer demo_receive_tx)\<rparr>),
     be_cachedHackers = (\<lambda>j. None),
     be_sweep = \<lparr>sw_minReceiveRatio = (1, 2), sw_minVoutCount = 2, sw_minSpendTargetShare = (1, 2)\<rparr>,
     be_external = (\<lambda>ty p s. (Inr (), s)), be_budget = (\<lambda>j s b. b)\<rparr>"

definition one_backfill :: store where
  "one_backfill = snd (enqueueJob Backfill_hacker_address [(''address'', JStr ''h'')] 5 None False
     (upsertAddress ((plain_upsert ''h'')\<lparr>u_role := Some Hacker, u_flagged := Some True, u_hop := Some (Some 0)\<rparr>)
        (init_store default_options 1000)))"



text \<open>
  With the bodies as they are written, the loop keeps the queue sound. Whatever the providers
  answer and however often they fail, whatever the quota, the CPU guard and the subrequest budget
  say, and provided only that the fetches from the feeds leave the queue sound, a run of
  \<open>processJobs\<close> over the modelled bodies returns with every job it claimed completed, failed or
  deferred, with distinct ids and exact counters, so that the next tick starts from the same
  invariant; it processes at most the allowed number of jobs.
\<close>

lemma processJobs_with_bodies:
  assumes "jobs_inv s" and "\<And>ty p u. queue_kept u (snd (be_external be ty p u))"
    and "processJobs cfg (run_job be cfg) d (Some n) cands b s = ((processed, why), ls)"
  shows "jobs_inv (ls_store ls) \<and> running_ids (ls_store ls) \<subseteq> running_ids s \<and>
    0 \<le> processed \<and> processed \<le> max 0 n"
  using processJobs_ok[OF assms(1) run_job_body_ok[OF assms(2)] assms(3)] by simp

lemma processJobs_with_bodies_witness:
  "running_ids (ls_store (snd (processJobs default_config (run_job demo_bodies default_config) None (Some 2) None None
     one_backfill))) = {} \<and>
   pendingJobCount (sched one_backfill) = 1"
proof -
  obtain pr w ls where e: "processJobs default_config (run_job demo_bodies default_config) None (Some 2) None None
     one_backfill = ((pr, w), ls)"
    by (cases "processJobs default_config (run_job demo_bodies default_config) None (Some 2) None None one_backfill") auto
  have q: "queue_kept u (snd (be_external demo_bodies ty p u))" for ty p u
    by (simp add: demo_bodies_def queue_writes.R_refl)
  have "queue_kept (init_store default_options 1000) one_backfill"
    unfolding one_backfill_def by (rule queue_kept_trans[OF queue_writes.R_address queue_kept_enqueue])
  then have i: "jobs_inv one_backfill" using init_store_inv by (simp add: queue_kept_def)
  have "list_all (\<lambda>j. \<not> is_running j) (jobs one_backfill)" and n: "pendingJobCount (sched one_backfill) = 1"
    by code_simp+
  then have "running_ids one_backfill = {}" by (auto simp: running_ids_def list_all_iff)
  then show ?thesis using processJobs_with_bodies[OF i q e] e n by auto
qed

end
