(* ===== verification/BackfillProps.thy ===== *)
theory BackfillProps
  imports BodyFrame JobFrame
begin

text \<open>
  What a run of a backfill leaves behind for the next one: the entries that were not handled, the page
  cursor and the trace in progress.
\<close>

section \<open>Reading back a saved payload\<close>

lemma parse_pending_cong:
  assumes "jget p ''pendingTxs'' = jget q ''pendingTxs''" and "jget p ''pendingTxids'' = jget q ''pendingTxids''"
    and "jget p ''processedIndex'' = jget q ''processedIndex''"
  shows "readPendingRuntime p = readPendingRuntime q"
  unfolding readPendingRuntime_def parsePendingTxs_def assms by simp

lemma read_written:
  assumes "0 \<le> idx"
  shows "readPendingRuntime (writePendingPayload ps idx cfg) =
    (if idx < int (length ps)
     then (runtimeFromClassified (case cfg of
             Some c \<Rightarrow> serializePendingTxs ps (traceFlaggedHackerReceives c) (Some (maxVoutCountSkipGetTx c))
           | None \<Rightarrow> serializePendingTxs ps False None), idx)
     else ([], 0))"
proof (cases "idx < int (length ps)")
  case True
  have i: "as_num (jget (writePendingPayload ps idx cfg) ''processedIndex'') = Some idx"
    using True by (simp add: writePendingPayload_def Let_def)
  show ?thesis
    unfolding readPendingRuntime_def i using parse_written[OF assms True, of cfg "[]"] True by simp
next
  case False
  then show ?thesis
    by (simp add: readPendingRuntime_def writePendingPayload_def parsePendingTxs_def Let_def runtimeFromClassified_def)
qed

lemma serialize_runtime: "serializePendingTxs (runtimeFromClassified cs) False None = cs"
  by (induction cs) (simp_all add: serializePendingTxs_def runtimeFromClassified_def serialize_one_def to_pending_def)

lemma length_runtime [simp]: "length (runtimeFromClassified cs) = length cs"
  by (simp add: runtimeFromClassified_def)

definition kept_pending :: "config \<Rightarrow> pending_tx list \<Rightarrow> pending_tx list" where
  "kept_pending cfg ps = runtimeFromClassified
     (serializePendingTxs ps (traceFlaggedHackerReceives cfg) (Some (maxVoutCountSkipGetTx cfg)))"

lemma kept_pending_facts:
  "length (kept_pending cfg ps) = length ps" "map c_txid (kept_pending cfg ps) = map c_txid ps"
  "map isSpend (kept_pending cfg ps) = map isSpend ps"
  by (simp_all add: kept_pending_def runtimeFromClassified_def serializePendingTxs_def serialize_one_def to_pending_def)

text \<open>The variables of the next run, from what this run saves.\<close>

lemma saved_vars:
  assumes "0 \<le> bv_index v"
  shows "backfill_vars_of (parseBackfillPayload (toPersistedPayload (backfill_payload_of cfg a tr v))) =
    \<lparr>bv_pending = (if has_pending v then kept_pending cfg (bv_pending v) else []),
     bv_index = (if has_pending v then bv_index v else 0),
     bv_cursor = bv_cursor v, bv_exhausted = bv_exhausted v, bv_newest = bv_newest v, bv_height = bv_height v,
     bv_trace = reread tr\<rparr>"
proof -
  let ?q = "toPersistedPayload (backfill_payload_of cfg a tr v)"
  have r: "readPendingRuntime ?q = readPendingRuntime (writePendingPayload (bv_pending v) (bv_index v) (Some cfg))"
    by (rule parse_pending_cong) (simp_all add: toPersistedPayload_def backfill_payload_of_def trace_json_def)
  have f: "as_str (jget ?q ''chainCursor'') = bv_cursor v" "as_bool (jget ?q ''pagesExhausted'') = Some (bv_exhausted v)"
    "as_str (jget ?q ''newestTxid'') = bv_newest v" "as_num (jget ?q ''newestBlockHeight'') = bv_height v"
    by (simp_all add: toPersistedPayload_def backfill_payload_of_def trace_json_def nullable_def split: option.splits)
  have i: "as_num (jget (writePendingPayload ps n None) ''processedIndex'') = Some (if n < int (length ps) then n else 0)"
    for ps n by (simp add: writePendingPayload_def Let_def)
  have k: "readPendingRuntime (writePendingPayload (kept_pending cfg ps) n None) = (kept_pending cfg ps, n)"
    if "0 \<le> n" "n < int (length ps)" for ps n
    using that by (simp add: read_written kept_pending_facts) (simp add: kept_pending_def serialize_runtime)
  have n: "readPendingRuntime (writePendingPayload [] 0 None) = ([], 0)" by (simp add: read_written)
  show ?thesis
  proof (cases "has_pending v")
    case True
    then have "readPendingRuntime ?q = (kept_pending cfg (bv_pending v), bv_index v)"
      using assms by (simp add: r read_written has_pending_def kept_pending_def)
    then show ?thesis
      using assms True k[of "bv_index v" "bv_pending v"]
      by (simp add: parseBackfillPayload_def backfill_vars_of_def f persisted_trace has_pending_def i kept_pending_facts)
  next
    case False
    then have "readPendingRuntime ?q = ([], 0)" using assms by (simp add: r read_written has_pending_def)
    then show ?thesis
      using False n by (simp add: parseBackfillPayload_def backfill_vars_of_def f persisted_trace i)
  qed
qed

section \<open>The saved state in the store\<close>


lemma find_append: "List.find P (xs @ ys) = (case List.find P xs of Some x \<Rightarrow> Some x | None \<Rightarrow> List.find P ys)"
  by (induction xs) auto

lemma put_sync_get:
  assumes "\<And>r. sync_address (f r) = sync_address r"
  shows "getSyncState a (put_sync a f s) = Some (f (or_else (getSyncState a s) (new_sync_row a)))"
proof (cases "getSyncState a s")
  case None
  then show ?thesis using assms by (simp add: getSyncState_def put_sync_def find_append new_sync_row_def)
next
  case (Some r)
  then show ?thesis
    using find_update_key[of sync_address f a a "sync_state s"] assms
    by (simp add: getSyncState_def put_sync_def)
qed

lemma upsertBackfill_get:
  "getBackfillState a (upsertBackfillState a (Some q) False s) =
     Some \<lparr>bs_payload = Some q, bs_complete = False,
       bs_auditAt = Option.bind (getBackfillState a s) bs_auditAt,
       bs_chainTxCount = Option.bind (getBackfillState a s) bs_chainTxCount\<rparr>"
  "getBackfillState a (upsertBackfillState a p True s) =
     Some \<lparr>bs_payload = None, bs_complete = True,
       bs_auditAt = Option.bind (getBackfillState a s) bs_auditAt,
       bs_chainTxCount = Option.bind (getBackfillState a s) bs_chainTxCount\<rparr>"
  by (cases "getSyncState a s";
      simp add: getBackfillState_def upsertBackfillState_def put_sync_get backfill_row_def new_sync_row_def)+

lemma getBackfill_cong: "sync_state t = sync_state s \<Longrightarrow> getBackfillState a t = getBackfillState a s"
  by (simp add: getBackfillState_def getSyncState_def)

lemma enqueue_sync: "sync_state (snd (enqueueJob ty p pr ra b s)) = sync_state s"
proof -
  have "sync_state (snd (shouldAllowEnqueue ty p b s)) = sync_state s"
    using shouldAllowEnqueue_state[of ty p b s] by (auto simp: setQueueSchedulingPaused_def)
  moreover have "sync_state (snd (insert_job ty p pr ra t)) = sync_state t" for t
    by (simp add: insert_job_def afterJobInserted_def Let_def adjustPendingJobCount_def adjustActiveJobCount_def split: option.split)
  ultimately show ?thesis by (auto simp: enqueueJob_def split: prod.split bool.split)
qed

lemma setExpandStatus_sync: "sync_state (setExpandStatus a x s) = sync_state s"
proof -
  have "stats_frame t (maybeMarkMonitorSnapshotDirty b c (flip_counter CrawlExpanded y z (adjustCrawlPendingCount d t)))" for t b c y z d
    by (rule stats_frame_trans[OF _ maybeMark_frame(1)])
       (auto simp: adjustCrawlPendingCount_def flip_counter_adjust intro!: stats_frame_trans[OF stats_frame_adjust stats_frame_adjust])
  then have "sync_state (maybeMarkMonitorSnapshotDirty b c (flip_counter CrawlExpanded y z (adjustCrawlPendingCount d t))) = sync_state t"
    for t b c y z d by (simp add: stats_frame_def)
  moreover have "sync_state (flip_counter CrawlExpanded y z (adjustCrawlPendingCount d t)) = sync_state t" for t y z d
    by (simp add: flip_counter_adjust adjustCrawlPendingCount_def)
  ultimately show ?thesis
    unfolding setExpandStatus_def Let_def by (simp split: option.split)
qed

lemma continuation_saved:
  assumes "0 \<le> bv_index v"
  shows "\<exists>b q. getBackfillState a (enqueueBackfillContinuation (backfill_payload_of cfg a tr v) enq s) = Some b \<and>
    bs_payload b = Some q \<and> \<not> bs_complete b \<and>
    backfill_vars_of (parseBackfillPayload q) =
      \<lparr>bv_pending = (if has_pending v then kept_pending cfg (bv_pending v) else []),
       bv_index = (if has_pending v then bv_index v else 0),
       bv_cursor = bv_cursor v, bv_exhausted = bv_exhausted v, bv_newest = bv_newest v, bv_height = bv_height v,
       bv_trace = reread tr\<rparr>"
proof -
  let ?q = "toPersistedPayload (backfill_payload_of cfg a tr v)"
  have a: "bp_address (backfill_payload_of cfg a tr v) = a" by (simp add: backfill_payload_of_def)
  have "getBackfillState a (enqueueBackfillContinuation (backfill_payload_of cfg a tr v) enq s) =
      getBackfillState a (upsertBackfillState a (Some ?q) False s)"
    by (rule getBackfill_cong) (simp add: enqueueBackfillContinuation_def a enqueue_sync Let_def)
  then show ?thesis using saved_vars[OF assms, of cfg a tr] by (simp add: upsertBackfill_get)
qed

section \<open>The loop\<close>

definition same_page :: "backfill_vars \<Rightarrow> backfill_vars \<Rightarrow> bool" where
  "same_page v v' \<longleftrightarrow> bv_pending v' = bv_pending v \<and> bv_cursor v' = bv_cursor v \<and> bv_exhausted v' = bv_exhausted v \<and>
     bv_newest v' = bv_newest v \<and> bv_height v' = bv_height v \<and> bv_index v \<le> bv_index v'"

lemma same_page_refl [simp]: "same_page v v"
  by (simp add: same_page_def)

lemma same_page_step: "same_page (v\<lparr>bv_index := bv_index v + 1\<rparr>) v' \<Longrightarrow> same_page v v'"
  "same_page (v\<lparr>bv_index := bv_index v + 1, bv_trace := tr\<rparr>) v' \<Longrightarrow> same_page v v'"
  by (auto simp: same_page_def)

lemma backfill_loop_result:
  assumes "backfill_loop env cfg a profile jo hs enq n xs v w = (Inr (v', c), w')"
    and "xs = map Some (drop (nat (bv_index v)) (bv_pending v))" and "0 \<le> bv_index v"
  shows "same_page v v' \<and> (has_pending v \<longrightarrow> bv_index v' \<le> int (length (bv_pending v))) \<and>
    (c \<noteq> None \<longrightarrow> has_pending v') \<and>
    (\<not> has_pending v \<longrightarrow> v' = v)"
  using assms
proof (induction xs arbitrary: n v w)
  case Nil
  then show ?case by (auto simp: has_pending_def)
next
  case (Cons x xs)
  obtain go w0 where m: "may_process env jo n w = (go, w0)" by (metis prod.exhaust)
  have hp: "has_pending v" using Cons.prems(2,3) by (auto simp: has_pending_def drop_eq_Nil2 intro: ccontr)
  have d: "drop (nat (bv_index v)) (bv_pending v) = bv_pending v ! nat (bv_index v) # drop (nat (bv_index v + 1)) (bv_pending v)"
    using hp Cons.prems(3) by (simp add: has_pending_def Cons_nth_drop_Suc[symmetric] nat_add_distrib)
  then have x: "x = Some (bv_pending v ! nat (bv_index v))" and xs: "xs = map Some (drop (nat (bv_index v + 1)) (bv_pending v))"
    using Cons.prems(2) by auto
  have IH: "same_page v v' \<and> bv_index v' \<le> int (length (bv_pending v)) \<and> (c \<noteq> None \<longrightarrow> has_pending v')"
    if l: "backfill_loop env cfg a profile jo hs enq n1 xs v1 w1 = (Inr (v', c), w')" and i: "bv_index v1 = bv_index v + 1"
      "bv_pending v1 = bv_pending v" and st: "same_page v1 v' \<Longrightarrow> same_page v v'" for n1 v1 w1
  proof -
    have "same_page v1 v' \<and> (has_pending v1 \<longrightarrow> bv_index v' \<le> int (length (bv_pending v1))) \<and> (c \<noteq> None \<longrightarrow> has_pending v') \<and>
        (\<not> has_pending v1 \<longrightarrow> v' = v1)"
      by (rule Cons.IH[OF l]) (use xs i Cons.prems(3) in \<open>simp_all\<close>)
    then show ?thesis using st i hp by (auto simp: has_pending_def)
  qed
  let ?e = "bv_pending v ! nat (bv_index v)"
  show ?case
  proof (cases go)
    case False
    then show ?thesis using Cons.prems(1) m hp by (simp add: has_pending_def)
  next
    case True
    show ?thesis
    proof (cases "skippable cfg v n ?e")
      case sk: True
      then have "backfill_loop env cfg a profile jo hs enq (n\<lparr>lc_skipped := lc_skipped n + 1\<rparr>) xs
          (v\<lparr>bv_index := bv_index v + 1\<rparr>) w0 = (Inr (v', c), w')"
        using Cons.prems(1) m x True by simp
      from IH[OF this] show ?thesis using hp same_page_step(1) by simp
    next
      case False
      let ?save = "save_backfill (clearTraceFields (backfill_payload_of cfg a (bv_trace v) v)) enq"
      obtain q w1 where st: "step_entry env cfg a 0 profile jo hs ?save (bv_trace v) ?e w0 = (q, w1)" by (metis prod.exhaust)
      then obtain r where q: "q = Inr r" using Cons.prems(1) m x True False by (cases q) (auto simp: Let_def)
      show ?thesis
      proof (cases "pr_continued r")
        case True
        then show ?thesis using Cons.prems(1) m x \<open>go\<close> False st q hp by (auto simp: Let_def has_pending_def)
      next
        case nc: False
        let ?v1 = "v\<lparr>bv_index := bv_index v + 1, bv_trace := pr_state r\<rparr>"
        obtain stop w3 where sn: "stop_now env cfg jo (charge_calls r w1) = (stop, w3)" by (metis prod.exhaust)
        show ?thesis
        proof (cases stop)
          case True
          then have "v' = ?v1" "c = None" using Cons.prems(1) m x \<open>go\<close> False st q nc sn by (auto simp: Let_def)
          then show ?thesis using hp by (simp add: same_page_def has_pending_def)
        next
          case ns: False
          then have "backfill_loop env cfg a profile jo hs enq (n\<lparr>lc_processed := lc_processed n + 1\<rparr>) xs ?v1 w3 = (Inr (v', c), w')"
            using Cons.prems(1) m x \<open>go\<close> False st q nc sn by (simp add: Let_def)
          from IH[OF this] show ?thesis using hp same_page_step(2) by simp
        qed
      qed
    qed
  qed
qed

section \<open>Entries handled\<close>

text \<open>
  What handling a list of entries is, on the store: a receive is passed over when receives are not
  traced and no trace of it is under way; any other entry goes through \<open>processClassifiedPendingTx\<close>,
  in order, each on the store that the one before left, and none of them asks to be continued.
\<close>

inductive handled ::
  "chain_env \<Rightarrow> config \<Rightarrow> address \<Rightarrow> string option \<Rightarrow> job_opts \<Rightarrow> address list \<Rightarrow> pending_tx list
   \<Rightarrow> trace_state \<Rightarrow> store \<Rightarrow> trace_state \<Rightarrow> store \<Rightarrow> bool" for env cfg a profile jo hs where
  handled_none: "handled env cfg a profile jo hs [] tr s tr s"
| handled_receive:
    "handled env cfg a profile jo hs es tr s tr' s' \<Longrightarrow> isSpend e = Some False \<Longrightarrow>
     \<not> traceFlaggedHackerReceives cfg \<Longrightarrow> \<not> trace_active tr (c_txid e) \<Longrightarrow>
     handled env cfg a profile jo hs (e # es) tr s tr' s'"
| handled_processed:
    "processClassifiedPendingTx env cfg a 0 e hs tr (classified_job_opts profile jo w) w = (Inr r, w') \<Longrightarrow>
     \<not> pr_continued r \<Longrightarrow> handled env cfg a profile jo hs es (pr_state r) (w_store w') tr' s' \<Longrightarrow>
     handled env cfg a profile jo hs (e # es) tr (w_store w) tr' s'"

text \<open>An entry whose trace asks to be continued.\<close>

definition cut_short ::
  "chain_env \<Rightarrow> config \<Rightarrow> address \<Rightarrow> string option \<Rightarrow> job_opts \<Rightarrow> address list \<Rightarrow> pending_tx list
   \<Rightarrow> trace_state \<Rightarrow> store \<Rightarrow> classified_result \<Rightarrow> store \<Rightarrow> bool" where
  "cut_short env cfg a profile jo hs rest tr s r s' \<longleftrightarrow>
     (\<exists>e es w w'. rest = e # es \<and> w_store w = s \<and> w_store w' = s' \<and> pr_continued r \<and>
        processClassifiedPendingTx env cfg a 0 e hs tr (classified_job_opts profile jo w) w = (Inr r, w'))"

text \<open>Where the loop over the entries ends: between two entries, or within one.\<close>

fun loop_end ::
  "chain_env \<Rightarrow> config \<Rightarrow> address \<Rightarrow> string option \<Rightarrow> job_opts \<Rightarrow> address list \<Rightarrow> classified_result option
   \<Rightarrow> pending_tx list \<Rightarrow> trace_state \<Rightarrow> store \<Rightarrow> store \<Rightarrow> bool" where
  "loop_end env cfg a profile jo hs None rest tr s s' = (s' = s)"
| "loop_end env cfg a profile jo hs (Some r) rest tr s s' = cut_short env cfg a profile jo hs rest tr s r s'"

lemma asks_keep_store:
  "may_process env jo n w = (go, w0) \<Longrightarrow> w_store w0 = w_store w"
  "stop_now env cfg jo w = (stop, w0) \<Longrightarrow> w_store w0 = w_store w"
  "w_store (charge_calls r w) = w_store w"
  by (auto simp: may_process_def stop_now_def out_of_room_def subreq_room_def subreq_spent_def ask_canUse_def
    ask_exhausted_def charge_calls_def spend_call_def Let_def split: if_splits prod.splits)

lemma step_entry_result:
  assumes "step_entry env cfg a hop profile jo hs save tr e w = (Inr r, w')"
  shows "processClassifiedPendingTx env cfg a hop e hs tr (classified_job_opts profile jo w) w = (Inr r, w')"
  using assms by (auto simp: step_entry_def withD1QuotaContinuationSave_def split: prod.splits sum.splits job_error.splits)

lemma backfill_loop_handled:
  assumes "backfill_loop env cfg a profile jo hs enq n xs v w = (Inr (v', c), w')"
    and "xs = map Some (drop (nat (bv_index v)) (bv_pending v))" and "0 \<le> bv_index v"
  shows "\<exists>d s. drop (nat (bv_index v)) (bv_pending v) = d @ drop (nat (bv_index v')) (bv_pending v) \<and>
    handled env cfg a profile jo hs d (bv_trace v) (w_store w) (bv_trace v') s \<and>
    loop_end env cfg a profile jo hs c (drop (nat (bv_index v')) (bv_pending v)) (bv_trace v') s (w_store w')"
  using assms
proof (induction xs arbitrary: n v w)
  case Nil
  then have "v' = v" "c = None" "w' = w" by simp_all
  then show ?case by (auto intro!: exI[of _ "[]"] handled_none)
next
  case (Cons x xs)
  obtain go w0 where m: "may_process env jo n w = (go, w0)" by (metis prod.exhaust)
  note k = asks_keep_store(1)[OF m]
  have hp: "has_pending v" using Cons.prems(2,3) by (auto simp: has_pending_def drop_eq_Nil2 intro: ccontr)
  let ?e = "bv_pending v ! nat (bv_index v)"
  have d: "drop (nat (bv_index v)) (bv_pending v) = ?e # drop (nat (bv_index v + 1)) (bv_pending v)"
    using hp Cons.prems(3) by (simp add: has_pending_def Cons_nth_drop_Suc[symmetric] nat_add_distrib)
  then have x: "x = Some ?e" and xs: "xs = map Some (drop (nat (bv_index v + 1)) (bv_pending v))"
    using Cons.prems(2) by auto
  show ?case
  proof (cases go)
    case False
    then have "v' = v" "c = None" "w' = w0" using Cons.prems(1) m by auto
    then show ?thesis using k by (auto intro!: exI[of _ "[]"] handled_none)
  next
    case go: True
    show ?thesis
    proof (cases "skippable cfg v n ?e")
      case True
      let ?v1 = "v\<lparr>bv_index := bv_index v + 1\<rparr>"
      have "backfill_loop env cfg a profile jo hs enq (n\<lparr>lc_skipped := lc_skipped n + 1\<rparr>) xs ?v1 w0 = (Inr (v', c), w')"
        using Cons.prems(1) m x go True by simp
      from Cons.IH[OF this] obtain t s where "drop (nat (bv_index v + 1)) (bv_pending v) = t @ drop (nat (bv_index v')) (bv_pending v)"
        "handled env cfg a profile jo hs t (bv_trace v) (w_store w) (bv_trace v') s"
        "loop_end env cfg a profile jo hs c (drop (nat (bv_index v')) (bv_pending v)) (bv_trace v') s (w_store w')"
        using xs Cons.prems(3) k by auto
      then show ?thesis using True unfolding d skippable_def
        by (intro exI[of _ "?e # t"] exI[of _ s]) (auto intro: handled_receive)
    next
      case False
      let ?save = "save_backfill (clearTraceFields (backfill_payload_of cfg a (bv_trace v) v)) enq"
      obtain q w1 where st: "step_entry env cfg a 0 profile jo hs ?save (bv_trace v) ?e w0 = (q, w1)" by (metis prod.exhaust)
      then obtain r where q: "q = Inr r" using Cons.prems(1) m x go False by (cases q) (auto simp: Let_def)
      note pr = step_entry_result[OF st[unfolded q]]
      show ?thesis
      proof (cases "pr_continued r")
        case True
        then have "v' = v" "c = Some r" "w' = charge_calls r w1" using Cons.prems(1) m x go False st q by (auto simp: Let_def)
        then show ?thesis using pr d k True asks_keep_store(3)[of r w1]
          by (intro exI[of _ "[]"] exI[of _ "w_store w"]) (auto simp: cut_short_def intro: handled_none)
      next
        case nc: False
        let ?v1 = "v\<lparr>bv_index := bv_index v + 1, bv_trace := pr_state r\<rparr>"
        obtain stop w3 where sn: "stop_now env cfg jo (charge_calls r w1) = (stop, w3)" by (metis prod.exhaust)
        have k3: "w_store w3 = w_store w1" using asks_keep_store(2)[OF sn] asks_keep_store(3) by metis
        have one: "\<exists>d s. drop (nat (bv_index v)) (bv_pending v) = d @ drop (nat (bv_index v')) (bv_pending v) \<and>
            handled env cfg a profile jo hs d (bv_trace v) (w_store w) (bv_trace v') s \<and> loop_end env cfg a profile jo hs c (drop (nat (bv_index v')) (bv_pending v)) (bv_trace v') s (w_store w')"
          if "drop (nat (bv_index v + 1)) (bv_pending v) = t @ drop (nat (bv_index v')) (bv_pending v)"
            "handled env cfg a profile jo hs t (pr_state r) (w_store w1) (bv_trace v') s"
            "loop_end env cfg a profile jo hs c (drop (nat (bv_index v')) (bv_pending v)) (bv_trace v') s (w_store w')" for t s
          using handled_processed[OF pr nc that(2)] that(1,3) unfolding k d
          by (intro exI[of _ "?e # t"] exI[of _ s]) simp
        show ?thesis
        proof (cases stop)
          case True
          then have "v' = ?v1" "c = None" "w' = w3" using Cons.prems(1) m x go False st q nc sn by (auto simp: Let_def)
          then show ?thesis using k3 by (intro one[of "[]" "w_store w1"]) (auto intro: handled_none)
        next
          case ns: False
          then have "backfill_loop env cfg a profile jo hs enq (n\<lparr>lc_processed := lc_processed n + 1\<rparr>) xs ?v1 w3 = (Inr (v', c), w')"
            using Cons.prems(1) m x go False st q nc sn by (simp add: Let_def)
          from Cons.IH[OF this] show ?thesis using xs Cons.prems(3) k3 one by auto
        qed
      qed
    qed
  qed
qed

section \<open>A run\<close>

definition remaining :: "backfill_vars \<Rightarrow> txid list" where
  "remaining v = map c_txid (drop (nat (bv_index v)) (bv_pending v))"

lemma remaining_none: "\<not> has_pending v \<Longrightarrow> remaining v = []"
  by (simp add: remaining_def has_pending_def)

text \<open>The store when the entries are looked at, and the profile they are handled under.\<close>

definition backfill_start :: "address \<Rightarrow> job_opts \<Rightarrow> world \<Rightarrow> store" where
  "backfill_start a jo w = setExpandStatus a XBackfilling (w_store (snd (hacker_set jo w)))"

definition profile_of :: "address \<Rightarrow> store \<Rightarrow> string option" where
  "profile_of a s = (case getAddress a s of Some r \<Rightarrow> expandProfile r | None \<Rightarrow> None)"

text \<open>
  The entries of a run that starts on the variables \<open>v\<close> and the store \<open>s\<close>, with the page cursor and
  the exhaustion that go with them: those pending, or, when nothing is, those of the next page that
  the provider returns, oldest first; an empty page is the end. \<open>s'\<close> is the store after the call.
\<close>

definition run_entries ::
  "chain_env \<Rightarrow> address \<Rightarrow> backfill_vars \<Rightarrow> store \<Rightarrow> pending_tx list \<Rightarrow> txid option \<Rightarrow> bool \<Rightarrow> store \<Rightarrow> bool" where
  "run_entries env a v s es cur ex s' \<longleftrightarrow>
     es = drop (nat (bv_index v)) (bv_pending v) \<and> cur = bv_cursor v \<and> ex = bv_exhausted v \<and> s' = s \<or>
     remaining v = [] \<and> \<not> bv_exhausted v \<and>
     (\<exists>txs w w'. fetchAddressTxPage env a (bv_cursor v) w = (Inr txs, w') \<and> w_store w = s \<and> w_store w' = s' \<and>
        es = classifyPageTxs (rev txs) a \<and>
        (if txs = [] then ex \<and> cur = bv_cursor v else ex = bv_exhausted v \<and> cur = Some (ctx_txid (last txs))))"

lemma take_page_facts:
  "txs \<noteq> [] \<Longrightarrow> bv_pending (take_page a txs v) = classifyPageTxs (rev txs) a \<and> bv_index (take_page a txs v) = 0 \<and>
     bv_cursor (take_page a txs v) = Some (ctx_txid (last txs)) \<and> bv_exhausted (take_page a txs v) = bv_exhausted v \<and>
     bv_trace (take_page a txs v) = bv_trace v"
  "take_page a [] v = v\<lparr>bv_exhausted := True\<rparr>"
  by (cases txs; simp add: take_page_def Let_def)+

lemma room_keeps_store:
  "subreq_room env jo w = (room, w0) \<Longrightarrow> w_store w0 = w_store w"
  "out_of_room env cfg jo w = (out, w0) \<Longrightarrow> w_store w0 = w_store w"
  by (auto simp: out_of_room_def subreq_room_def subreq_spent_def ask_canUse_def ask_exhausted_def split: if_splits)

lemma backfill_fetch_result:
  assumes "backfill_fetch env cfg a jo enq v w = (Inr (v1, b), w1)" and "0 \<le> bv_index v"
  shows "\<exists>s1. run_entries env a v (w_store w) (drop (nat (bv_index v1)) (bv_pending v1)) (bv_cursor v1) (bv_exhausted v1) s1 \<and>
    0 \<le> bv_index v1 \<and> bv_trace v1 = bv_trace v \<and>
    w_store w1 = (if b then enqueueBackfillContinuation (backfill_payload_of cfg a no_trace v1) enq s1 else s1)"
proof -
  obtain room w0 where r: "subreq_room env jo w = (room, w0)" by (metis prod.exhaust)
  show ?thesis
  proof (cases "v1 = v \<and> \<not> b \<and> w_store w1 = w_store w")
    case True
    then show ?thesis using assms(2) by (intro exI[of _ "w_store w"]) (simp add: run_entries_def)
  next
    case False
    then have g: "\<not> has_pending v" "\<not> bv_exhausted v" "room"
      using assms(1) r room_keeps_store(1)[OF r] by (auto simp: backfill_fetch_def split: if_splits)
    obtain q w2 where f: "fetchAddressTxPage env a (bv_cursor v) w0 = (q, w2)" by (metis prod.exhaust)
    obtain txs where q: "q = Inr txs"
      using assms(1) r f g False room_keeps_store(1)[OF r] by (cases q) (auto simp: backfill_fetch_def Let_def split: if_splits)
    obtain out w3 where o: "out_of_room env cfg jo (spend_call w2) = (out, w3)" by (metis prod.exhaust)
    have s3: "w_store w3 = w_store w2" using room_keeps_store(2)[OF o] by (simp add: spend_call_def)
    have v1: "v1 = take_page a txs v"
      and w1: "w_store w1 = (if b then enqueueBackfillContinuation (backfill_payload_of cfg a no_trace v1) enq (w_store w2) else w_store w2)"
      using assms(1) r f q o g False s3 room_keeps_store(1)[OF r]
      by (auto simp: backfill_fetch_def Let_def on_store_def split: if_splits)
    have "run_entries env a v (w_store w) (drop (nat (bv_index v1)) (bv_pending v1)) (bv_cursor v1) (bv_exhausted v1) (w_store w2)"
      unfolding run_entries_def using f q v1 take_page_facts(1)[of txs a v] take_page_facts(2)[of a v] remaining_none[OF g(1)] g
        room_keeps_store(1)[OF r]
      by (cases "txs = []") (auto simp: has_pending_def classifyPageTxs_def)
    moreover have "0 \<le> bv_index v1 \<and> bv_trace v1 = bv_trace v"
      using v1 take_page_facts(1)[of txs a v] take_page_facts(2)[of a v] assms(2) by (cases "txs = []") auto
    ultimately show ?thesis using w1 by auto
  qed
qed

lemma entries_nonneg: "0 \<le> i \<Longrightarrow> entries_from i ps = map Some (drop (nat i) ps)"
  by (simp add: entries_from_def)

text \<open>The writes of a completed backfill: the newest transaction when there is one, and the completion.\<close>

definition completed :: "address \<Rightarrow> store \<Rightarrow> store \<Rightarrow> bool" where
  "completed a s s' \<longleftrightarrow>
     (\<exists>u. s' = setExpandStatus a XExpanded (upsertBackfillState a None True u) \<and> (u = s \<or> (\<exists>x. u = upsertSyncState a x s)))"

text \<open>What is saved of the trace: nothing between two entries, its state within one.\<close>

definition kept_trace :: "classified_result option \<Rightarrow> trace_state" where
  "kept_trace c = (case c of None \<Rightarrow> no_trace | Some r \<Rightarrow> pr_state r)"

lemma completed_intros:
  "completed a s (setExpandStatus a XExpanded (upsertBackfillState a None True s))"
  "completed a s (setExpandStatus a XExpanded (upsertBackfillState a None True (upsertSyncState a x s)))"
  unfolding completed_def by blast+

lemma backfill_finish_result:
  assumes "backfill_finish cfg a enq v s = (st, s')"
  shows "if js_continued st then s' = enqueueBackfillContinuation (backfill_payload_of cfg a no_trace v) enq s
    else \<not> has_pending v \<and> bv_exhausted v \<and> completed a s s'"
proof -
  have "clearTraceFields (backfill_payload_of cfg a (bv_trace v) v) = backfill_payload_of cfg a no_trace v"
    by (simp add: clearTraceFields_def backfill_payload_of_def)
  then show ?thesis
    using assms completed_intros[of a s]
    by (cases "truthy (bv_newest v)") (auto simp: backfill_finish_def plain_stats_def Let_def split: if_splits)
qed

lemma backfill_process_result:
  assumes "backfill_process env cfg a jo hs enq v w = (Inr st, w')" and "0 \<le> bv_index v"
  shows "\<exists>v1 c d s s3. same_page v v1 \<and> drop (nat (bv_index v)) (bv_pending v) = d @ drop (nat (bv_index v1)) (bv_pending v1) \<and>
    handled env cfg a (profile_of a (w_store w)) jo hs d (bv_trace v) (w_store w) (bv_trace v1) s \<and>
    loop_end env cfg a (profile_of a (w_store w)) jo hs c (drop (nat (bv_index v1)) (bv_pending v1)) (bv_trace v1) s s3 \<and>
    (if js_continued st
     then w_store w' = enqueueBackfillContinuation (backfill_payload_of cfg a (kept_trace c) v1) enq s3
     else c = None \<and> \<not> has_pending v1 \<and> bv_exhausted v1 \<and> completed a s3 (w_store w'))"
proof -
  let ?n = "\<lparr>lc_limit = processBatchLimit (backfillTxsPerJob cfg) (w_budget w), lc_processed = 0, lc_skipped = 0\<rparr>"
  let ?pf = "profile_of a (w_store w)"
  obtain q w1 where l: "backfill_loop env cfg a ?pf jo hs enq ?n (entries_from (bv_index v) (bv_pending v)) v w = (q, w1)"
    by (metis prod.exhaust)
  then obtain v1 c where q: "q = Inr (v1, c)"
    using assms(1) by (cases q) (auto simp: backfill_process_def profile_of_def Let_def)
  note lr = backfill_loop_result[OF l[unfolded q] entries_nonneg[OF assms(2)] assms(2)]
  note lh = backfill_loop_handled[OF l[unfolded q] entries_nonneg[OF assms(2)] assms(2)]
  have pend: "bv_pending v1 = bv_pending v" and same: "same_page v v1" using lr by (simp_all add: same_page_def)
  have "if js_continued st
     then w_store w' = enqueueBackfillContinuation (backfill_payload_of cfg a (kept_trace c) v1) enq (w_store w1)
     else c = None \<and> \<not> has_pending v1 \<and> bv_exhausted v1 \<and> completed a (w_store w1) (w_store w')"
  proof (cases c)
    case (Some r)
    then have "js_continued st" "w_store w' = enqueueBackfillContinuation (backfill_payload_of cfg a (pr_state r) v1) enq (w_store w1)"
      using assms(1) l q by (auto simp: backfill_process_def profile_of_def Let_def jobStatsFromTrace_def)
    then show ?thesis using Some by (simp add: kept_trace_def)
  next
    case None
    obtain st' s' where f: "backfill_finish cfg a enq v1 (w_store w1) = (st', s')" by (metis prod.exhaust)
    then have e: "st = st'" "w_store w' = s'" using assms(1) l q None by (auto simp: backfill_process_def profile_of_def Let_def)
    show ?thesis using backfill_finish_result[OF f] e None by (auto simp: kept_trace_def)
  qed
  then show ?thesis using lh same unfolding pend[symmetric] by blast
qed

lemma saved_remaining:
  assumes "backfill_vars_of (parseBackfillPayload q) =
      \<lparr>bv_pending = (if has_pending v then kept_pending cfg (bv_pending v) else []),
       bv_index = (if has_pending v then bv_index v else 0),
       bv_cursor = bv_cursor v, bv_exhausted = bv_exhausted v, bv_newest = bv_newest v, bv_height = bv_height v,
       bv_trace = tr\<rparr>"
  shows "remaining (backfill_vars_of (parseBackfillPayload q)) = remaining v"
proof (cases "has_pending v")
  case True
  then show ?thesis by (simp add: assms remaining_def kept_pending_facts(2) flip: drop_map)
next
  case False
  from remaining_none[OF False] show ?thesis by (simp add: assms False) (simp add: remaining_def)
qed

text \<open>
  C24: a run of a backfill that does not throw loses no pending transaction. The entries it looks at
  are those its state holds, or those of the next page when none is left; it handles a prefix of them,
  each on the store that the one before left. When it stops early - for its budget, for the CPU guard
  or within a trace - it writes nothing but the saved state, which reads back as exactly the entries
  that were not handled, in order, with the page cursor behind them and the state of the interrupted
  trace. It marks the backfill complete only when every entry was handled and the provider has returned
  an empty page.
\<close>

theorem backfill_keeps_remaining:
  assumes "backfillHacker env cfg raw enq jo w = (Inr st, w')"
    and "p = hydrateBackfillPayload raw (w_store w)" and "a = bp_address p" and "v = backfill_vars_of p"
    and "0 \<le> bv_index v" and "hs = fst (hacker_set jo w)"
  shows "\<exists>es cur ex s1 prefix rest c tr s2 s3 b.
    run_entries env a v (backfill_start a jo w) es cur ex s1 \<and> es = prefix @ rest \<and>
    handled env cfg a (profile_of a s1) jo hs prefix (bv_trace v) s1 tr s2 \<and>
    loop_end env cfg a (profile_of a s1) jo hs c rest tr s2 s3 \<and>
    getBackfillState a (w_store w') = Some b \<and>
    (if js_continued st
     then \<exists>q pl. bs_payload b = Some q \<and> \<not> bs_complete b \<and> w_store w' = enqueueBackfillContinuation pl enq s3 \<and>
       (let u = backfill_vars_of (parseBackfillPayload q)
        in remaining u = map c_txid rest \<and> bv_cursor u = cur \<and> bv_exhausted u = ex \<and> bv_trace u = reread (kept_trace c))
     else bs_complete b \<and> bs_payload b = None \<and> rest = [] \<and> c = None \<and> ex \<and> completed a s3 (w_store w'))"
proof -
  obtain h w1 where h: "hacker_set jo w = (h, w1)" by (metis prod.exhaust)
  let ?w2 = "start_budget cfg (on_store (setExpandStatus a XBackfilling) w1)"
  have s0: "w_store ?w2 = backfill_start a jo w" by (simp add: start_budget_def on_store_def backfill_start_def h)
  obtain x w3 where f: "backfill_fetch env cfg a jo enq v ?w2 = (x, w3)" by (metis prod.exhaust)
  have hs: "h = hs" using assms(6) h by simp
  obtain v1 stop where x: "x = Inr (v1, stop)"
    using assms(1) h f by (cases x) (auto simp: backfillHacker_def Let_def assms(2-4)[symmetric])
  obtain s1 where fr: "run_entries env a v (backfill_start a jo w) (drop (nat (bv_index v1)) (bv_pending v1)) (bv_cursor v1) (bv_exhausted v1) s1"
    "0 \<le> bv_index v1" "bv_trace v1 = bv_trace v"
    "w_store w3 = (if stop then enqueueBackfillContinuation (backfill_payload_of cfg a no_trace v1) enq s1 else s1)"
    using backfill_fetch_result[OF f[unfolded x] assms(5)] s0 by auto
  have saved: "\<exists>b q. getBackfillState a (w_store w') = Some b \<and> bs_payload b = Some q \<and> \<not> bs_complete b \<and>
      remaining (backfill_vars_of (parseBackfillPayload q)) = map c_txid (drop (nat (bv_index v2)) (bv_pending v2)) \<and>
      bv_cursor (backfill_vars_of (parseBackfillPayload q)) = bv_cursor v2 \<and>
      bv_exhausted (backfill_vars_of (parseBackfillPayload q)) = bv_exhausted v2 \<and>
      bv_trace (backfill_vars_of (parseBackfillPayload q)) = reread tr"
    if w: "w_store w' = enqueueBackfillContinuation (backfill_payload_of cfg a tr v2) enq s" and i: "0 \<le> bv_index v2" for tr v2 s
  proof -
    obtain b q where bq: "getBackfillState a (w_store w') = Some b" "bs_payload b = Some q" "\<not> bs_complete b"
      "backfill_vars_of (parseBackfillPayload q) =
        \<lparr>bv_pending = (if has_pending v2 then kept_pending cfg (bv_pending v2) else []),
         bv_index = (if has_pending v2 then bv_index v2 else 0),
         bv_cursor = bv_cursor v2, bv_exhausted = bv_exhausted v2, bv_newest = bv_newest v2, bv_height = bv_height v2,
         bv_trace = reread tr\<rparr>"
      using continuation_saved[OF i, of a cfg tr enq s] w by metis
    from saved_remaining[OF bq(4)] bq show ?thesis by (simp add: remaining_def)
  qed
  show ?thesis
  proof (cases stop)
    case True
    then have "js_continued st" "w' = w3"
      using assms(1) h f x by (auto simp: backfillHacker_def Let_def assms(2-4)[symmetric] plain_stats_def)
    let ?es = "drop (nat (bv_index v1)) (bv_pending v1)"
    have w': "w_store w' = enqueueBackfillContinuation (backfill_payload_of cfg a no_trace v1) enq s1"
      using fr(4) True \<open>w' = w3\<close> by simp
    obtain b q where bq: "getBackfillState a (w_store w') = Some b" "bs_payload b = Some q" "\<not> bs_complete b"
      "remaining (backfill_vars_of (parseBackfillPayload q)) = map c_txid ?es"
      "bv_cursor (backfill_vars_of (parseBackfillPayload q)) = bv_cursor v1"
      "bv_exhausted (backfill_vars_of (parseBackfillPayload q)) = bv_exhausted v1"
      "bv_trace (backfill_vars_of (parseBackfillPayload q)) = reread no_trace"
      using saved[OF w' fr(2)] by blast
    show ?thesis
      by (rule exI[of _ ?es], rule exI[of _ "bv_cursor v1"], rule exI[of _ "bv_exhausted v1"], rule exI[of _ s1],
          rule exI[of _ "[]"], rule exI[of _ ?es], rule exI[of _ None], rule exI[of _ "bv_trace v"], rule exI[of _ s1],
          rule exI[of _ s1], rule exI[of _ b])
         (use fr(1) bq w' \<open>js_continued st\<close> in \<open>auto simp: kept_trace_def Let_def intro: handled_none\<close>)
  next
    case False
    then have pr: "backfill_process env cfg a jo hs enq v1 w3 = (Inr st, w')" and s3: "w_store w3 = s1"
      using assms(1) h f x hs fr(4) by (simp_all add: backfillHacker_def Let_def assms(2-4)[symmetric])
    obtain v2 c d s t where v2: "same_page v1 v2"
      "drop (nat (bv_index v1)) (bv_pending v1) = d @ drop (nat (bv_index v2)) (bv_pending v2)"
      "handled env cfg a (profile_of a s1) jo hs d (bv_trace v) s1 (bv_trace v2) s"
      "loop_end env cfg a (profile_of a s1) jo hs c (drop (nat (bv_index v2)) (bv_pending v2)) (bv_trace v2) s t"
      "if js_continued st then w_store w' = enqueueBackfillContinuation (backfill_payload_of cfg a (kept_trace c) v2) enq t
       else c = None \<and> \<not> has_pending v2 \<and> bv_exhausted v2 \<and>
         completed a t (w_store w')"
      using backfill_process_result[OF pr fr(2)] fr(3) s3 by metis
    have i: "0 \<le> bv_index v2" and same: "bv_cursor v2 = bv_cursor v1" "bv_exhausted v2 = bv_exhausted v1"
      using fr(2) v2(1) by (simp_all add: same_page_def)
    let ?es = "drop (nat (bv_index v1)) (bv_pending v1)" and ?rest = "drop (nat (bv_index v2)) (bv_pending v2)"
    have "\<exists>b. getBackfillState a (w_store w') = Some b \<and> (if js_continued st
     then \<exists>q pl. bs_payload b = Some q \<and> \<not> bs_complete b \<and> w_store w' = enqueueBackfillContinuation pl enq t \<and>
       (let u = backfill_vars_of (parseBackfillPayload q)
        in remaining u = map c_txid ?rest \<and> bv_cursor u = bv_cursor v1 \<and> bv_exhausted u = bv_exhausted v1 \<and> bv_trace u = reread (kept_trace c))
     else bs_complete b \<and> bs_payload b = None \<and> ?rest = [] \<and> c = None \<and> bv_exhausted v1 \<and> completed a t (w_store w'))"
    proof (cases "js_continued st")
      case True
      then have w': "w_store w' = enqueueBackfillContinuation (backfill_payload_of cfg a (kept_trace c) v2) enq t" using v2(5) by simp
      from saved[OF this i] w' show ?thesis using True same by (auto simp: Let_def)
    next
      case False
      then obtain s where w': "w_store w' = setExpandStatus a XExpanded (upsertBackfillState a None True s)"
        using v2(5) by (auto simp: completed_def)
      have "getBackfillState a (w_store w') = getBackfillState a (upsertBackfillState a None True s)"
        unfolding w' by (intro getBackfill_cong setExpandStatus_sync)
      then show ?thesis using False v2(5) same by (auto simp: upsertBackfill_get has_pending_def)
    qed
    then show ?thesis using fr(1) v2(2-4) by blast
  qed
qed

text \<open>A provider that answers with a page of two transactions.\<close>

definition page_env :: chain_env where
  "page_env = \<lparr>ce_router = \<lparr>r_sleepOnRateLimit = True, r_rateLimitMs = 3000, r_baseSec = 300, r_maxSec = 3600, r_primary = Esplora\<rparr>,
     ce_quota = (\<lambda>n. None), ce_stats = (\<lambda>n a p. Failed ''timeout''), ce_getTx = (\<lambda>n t p. Failed ''timeout''),
     ce_page = (\<lambda>n a c p. Answer [demo_tx ''t1'' ''victim'' 500000 ''h'' 499000, demo_tx ''t2'' ''h'' 800000 ''d'' 790000]),
     ce_cpu = (\<lambda>n. 0), ce_canUse = (\<lambda>n. False), ce_subreqExhausted = (\<lambda>n. False)\<rparr>"

definition page_world :: world where
  "page_world = \<lparr>w_store = init_store default_options 1000000, w_asked = 0,
     w_budget = \<lparr>cb_max = 0, cb_used = 0\<rparr>, w_guard = None\<rparr>"

definition no_subreq :: job_opts where
  "no_subreq = \<lparr>jo_subreq = False, jo_hackers = Some [''h'']\<rparr>"

text \<open>Two entries and room for one: the receive is passed over, the spend behind it is saved.\<close>

definition resumed_vars :: backfill_vars where
  "resumed_vars = \<lparr>bv_pending = demo_pending, bv_index = 0, bv_cursor = Some ''t2'', bv_exhausted = False,
     bv_newest = Some ''t1'', bv_height = Some 7, bv_trace = no_trace\<rparr>"

definition resumed_payload :: payload where
  "resumed_payload = toPersistedPayload (backfill_payload_of default_config ''h'' no_trace resumed_vars)"

definition spend_config :: config where
  "spend_config = default_config\<lparr>traceFlaggedHackerReceives := False\<rparr>"

definition one_ask_env :: chain_env where
  "one_ask_env = page_env\<lparr>ce_canUse := (\<lambda>n. n < 1)\<rparr>"

theorem backfill_keeps_remaining_witness:
  "\<exists>e tr s1 s2 b q w'. handled one_ask_env spend_config ''h'' None (no_subreq\<lparr>jo_subreq := True\<rparr>) [''h''] [e] no_trace s1 tr s2 \<and>
     c_txid e = ''t1'' \<and> snd (backfillHacker one_ask_env spend_config resumed_payload True (no_subreq\<lparr>jo_subreq := True\<rparr>) page_world) = w' \<and>
     getBackfillState ''h'' (w_store w') = Some b \<and> bs_payload b = Some q \<and> \<not> bs_complete b \<and>
     remaining (backfill_vars_of (parseBackfillPayload q)) = [''t2''] \<and>
     bv_cursor (backfill_vars_of (parseBackfillPayload q)) = Some ''t2''"
proof -
  let ?jo = "no_subreq\<lparr>jo_subreq := True\<rparr>"
  let ?run = "backfillHacker one_ask_env spend_config resumed_payload True ?jo page_world"
  let ?p = "hydrateBackfillPayload resumed_payload (w_store page_world)" let ?v = "backfill_vars_of ?p"
  have a: "''h'' = bp_address ?p" and i: "0 \<le> bv_index ?v" and r0: "remaining ?v = [''t1'', ''t2'']"
    and tr: "bv_trace ?v = no_trace" and cur: "bv_cursor ?v = Some ''t2''" and hs: "[''h''] = fst (hacker_set ?jo page_world)"
    by code_simp+
  have pf: "profile_of ''h'' (backfill_start ''h'' ?jo page_world) = None" by code_simp
  have c: "(case fst ?run of Inl e \<Rightarrow> False | Inr st \<Rightarrow> js_continued st)" by code_simp
  have r: "map_option (\<lambda>b. map_option (\<lambda>q. remaining (backfill_vars_of (parseBackfillPayload q))) (bs_payload b))
      (getBackfillState ''h'' (w_store (snd ?run))) = Some (Some [''t2''])" by code_simp
  obtain st w' where run: "?run = (Inr st, w')" "js_continued st"
    using c by (cases ?run; cases "fst ?run") auto
  obtain es cu ex s1 prefix rest c tr' s2 s3 b where m:
    "run_entries one_ask_env ''h'' ?v (backfill_start ''h'' ?jo page_world) es cu ex s1" "es = prefix @ rest"
    "handled one_ask_env spend_config ''h'' (profile_of ''h'' s1) ?jo [''h''] prefix (bv_trace ?v) s1 tr' s2"
    "getBackfillState ''h'' (w_store w') = Some b"
    "\<exists>q pl. bs_payload b = Some q \<and> \<not> bs_complete b \<and>
       (let u = backfill_vars_of (parseBackfillPayload q) in remaining u = map c_txid rest \<and> bv_cursor u = cu)"
    using backfill_keeps_remaining[OF run(1) refl a refl i hs] run(2) by (auto simp: Let_def)
  have e: "map c_txid es = [''t1'', ''t2'']" "cu = Some ''t2''" "s1 = backfill_start ''h'' ?jo page_world"
    using m(1) r0 cur by (auto simp: run_entries_def remaining_def)
  obtain q where q: "bs_payload b = Some q" "\<not> bs_complete b" "remaining (backfill_vars_of (parseBackfillPayload q)) = map c_txid rest"
    "bv_cursor (backfill_vars_of (parseBackfillPayload q)) = cu" using m(5) by (auto simp: Let_def)
  have rest: "map c_txid rest = [''t2'']" using r run(1) m(4) q(1,3) by simp
  have "map c_txid prefix @ map c_txid rest = [''t1'', ''t2'']" using e(1) m(2) by simp
  then have "map c_txid prefix = [''t1'']" using rest by simp
  then obtain x where x: "prefix = [x]" "c_txid x = ''t1''" by auto
  have "handled one_ask_env spend_config ''h'' None ?jo [''h''] [x] no_trace s1 tr' s2"
    using m(3) unfolding e(3) pf tr x(1) .
  moreover have "snd ?run = w'" using run(1) by simp
  moreover have "remaining (backfill_vars_of (parseBackfillPayload q)) = [''t2'']"
    "bv_cursor (backfill_vars_of (parseBackfillPayload q)) = Some ''t2''" using q(3,4) rest e(2) by simp_all
  ultimately show ?thesis using x(2) m(4) q(1,2) by blast
qed

section \<open>The trace in progress\<close>

lemma reread_none [simp]: "reread no_trace = no_trace"
  by (simp add: reread_def no_trace_def)

lemma no_room:
  assumes "jo_subreq jo" and "\<not> ce_canUse env (w_asked w)"
  shows "\<exists>w0. may_process env jo n w = (False, w0)"
  using assms by (cases "lc_processed n < lc_limit n \<and> canCall (w_budget w)")
    (auto simp: may_process_def subreq_room_def ask_canUse_def)

lemma hacker_set_asked: "hacker_set jo w = (hs, w1) \<Longrightarrow> w_asked w1 = w_asked w"
  by (auto simp: hacker_set_def split: option.splits prod.splits)

lemma first_entry:
  assumes "has_pending v" and "0 \<le> bv_index v"
  obtains y ys where "entries_from (bv_index v) (bv_pending v) = y # ys"
  using assms by (cases "drop (nat (bv_index v)) (bv_pending v)") (auto simp: entries_nonneg has_pending_def)

text \<open>
  C25: a backfill that finds no room for its first entry forgets the trace in progress. Its pending
  entries are saved, but without the trace fields, although the entry they point to was traced in
  part; the next run has nothing to continue from. An expansion in the same situation saves the trace.
\<close>

theorem backfill_forgets_trace:
  assumes "p = hydrateBackfillPayload raw (w_store w)" and "v = backfill_vars_of p"
    and "has_pending v" and "0 \<le> bv_index v" and "ts_pending (bv_trace v) = Some True"
    and "jo_subreq jo" and "\<not> ce_canUse env (w_asked w)" and "ev_base x = v"
  shows "(\<exists>st w' b q. backfillHacker env cfg raw enq jo w = (Inr st, w') \<and> js_continued st \<and>
      getBackfillState (bp_address p) (w_store w') = Some b \<and> bs_payload b = Some q \<and>
      remaining (backfill_vars_of (parseBackfillPayload q)) = remaining v \<and> read_trace q = no_trace) \<and>
    (\<exists>w1 q. expand_process env cfg a hop profile jo hs x w =
       (case enqueueExpandContinuation q w1 of
          (Inl e, w2) \<Rightarrow> (Inl e, w2) | (Inr u, w2) \<Rightarrow> (Inr (plain_stats True), w2)) \<and>
       ts_txid (read_trace q) = ts_txid (bv_trace v) \<and> ts_index (read_trace q) = ts_index (bv_trace v) \<and>
       ts_pending (read_trace q) = Some True)"
proof
  let ?a = "bp_address p"
  obtain hs1 w1 where h: "hacker_set jo w = (hs1, w1)" by (metis prod.exhaust)
  let ?w2 = "start_budget cfg (on_store (setExpandStatus ?a XBackfilling) w1)"
  have asked: "w_asked ?w2 = w_asked w" using hacker_set_asked[OF h] by (simp add: start_budget_def on_store_def)
  obtain y ys where y: "entries_from (bv_index v) (bv_pending v) = y # ys" using first_entry[OF assms(3,4)] .
  let ?n = "\<lparr>lc_limit = processBatchLimit (backfillTxsPerJob cfg) (w_budget ?w2), lc_processed = 0, lc_skipped = 0\<rparr>"
  obtain w0 where m: "may_process env jo ?n ?w2 = (False, w0)"
    using no_room[OF assms(6), of env ?w2 ?n] assms(7) asked by auto
  have cl: "clearTraceFields (backfill_payload_of cfg ?a (bv_trace v) v) = backfill_payload_of cfg ?a no_trace v"
    by (simp add: clearTraceFields_def backfill_payload_of_def)
  have run: "backfillHacker env cfg raw enq jo w =
      (Inr (plain_stats True), w0\<lparr>w_store := enqueueBackfillContinuation (backfill_payload_of cfg ?a no_trace v) enq (w_store w0)\<rparr>)"
    using assms(3,5) by (simp add: backfillHacker_def Let_def assms(1,2)[symmetric] h backfill_fetch_def backfill_process_def
        y m backfill_finish_def cl)
  obtain b q where bq: "getBackfillState ?a (enqueueBackfillContinuation (backfill_payload_of cfg ?a no_trace v) enq (w_store w0)) = Some b"
    "bs_payload b = Some q" "backfill_vars_of (parseBackfillPayload q) =
      \<lparr>bv_pending = (if has_pending v then kept_pending cfg (bv_pending v) else []),
       bv_index = (if has_pending v then bv_index v else 0), bv_cursor = bv_cursor v, bv_exhausted = bv_exhausted v,
       bv_newest = bv_newest v, bv_height = bv_height v, bv_trace = reread no_trace\<rparr>"
    using continuation_saved[OF assms(4)] by blast
  have "remaining (backfill_vars_of (parseBackfillPayload q)) = remaining v"
    using assms(3) by (simp add: bq(3) remaining_def kept_pending_facts(2) flip: drop_map)
  moreover have "read_trace q = no_trace"
    using arg_cong[OF bq(3), of bv_trace] by (simp add: backfill_vars_of_def parse_trace)
  ultimately show "\<exists>st w' b q. backfillHacker env cfg raw enq jo w = (Inr st, w') \<and> js_continued st \<and>
      getBackfillState ?a (w_store w') = Some b \<and> bs_payload b = Some q \<and>
      remaining (backfill_vars_of (parseBackfillPayload q)) = remaining v \<and> read_trace q = no_trace"
    using run bq by (auto simp: plain_stats_def)
next
  obtain y ys where y: "entries_from (bv_index v) (bv_pending v) = y # ys" using first_entry[OF assms(3,4)] .
  let ?n = "\<lparr>lc_limit = processBatchLimit (backfillTxsPerJob cfg) (w_budget w), lc_processed = 0, lc_skipped = 0\<rparr>"
  obtain w0 where m: "may_process env jo ?n w = (False, w0)" using no_room[OF assms(6,7), of ?n] by auto
  let ?q = "expand_payload (Some cfg) a (bv_trace v) x"
  have run: "expand_process env cfg a hop profile jo hs x w = (case enqueueExpandContinuation ?q w0 of
          (Inl e, w2) \<Rightarrow> (Inl e, w2) | (Inr u, w2) \<Rightarrow> (Inr (plain_stats True), w2))"
    using assms(3) by (simp add: expand_process_def Let_def assms(8) y m)
  have "ts_txid (read_trace ?q) = ts_txid (bv_trace v)" "ts_index (read_trace ?q) = ts_index (bv_trace v)"
    "ts_pending (read_trace ?q) = Some True"
    using assms(5) by (simp_all add: expand_trace reread_def)
  with run show "\<exists>w1 q. expand_process env cfg a hop profile jo hs x w =
       (case enqueueExpandContinuation q w1 of
          (Inl e, w2) \<Rightarrow> (Inl e, w2) | (Inr u, w2) \<Rightarrow> (Inr (plain_stats True), w2)) \<and>
       ts_txid (read_trace q) = ts_txid (bv_trace v) \<and> ts_index (read_trace q) = ts_index (bv_trace v) \<and>
       ts_pending (read_trace q) = Some True" by blast
qed

definition traced_vars :: backfill_vars where
  "traced_vars = \<lparr>bv_pending = demo_pending, bv_index = 0, bv_cursor = Some ''t2'', bv_exhausted = False,
     bv_newest = Some ''t1'', bv_height = Some 7,
     bv_trace = \<lparr>ts_txid = Some ''t1'', ts_index = Some 1, ts_pending = Some True, ts_total = Some 2, ts_flat = None\<rparr>\<rparr>"

theorem backfill_forgets_trace_witness:
  "\<exists>st w' b q. backfillHacker page_env default_config
       (toPersistedPayload (backfill_payload_of default_config ''h'' (bv_trace traced_vars) traced_vars)) True
       (no_subreq\<lparr>jo_subreq := True\<rparr>) page_world = (Inr st, w') \<and>
     getBackfillState ''h'' (w_store w') = Some b \<and> bs_payload b = Some q \<and>
     remaining (backfill_vars_of (parseBackfillPayload q)) = [''t1'', ''t2''] \<and> read_trace q = no_trace"
proof -
  let ?raw = "toPersistedPayload (backfill_payload_of default_config ''h'' (bv_trace traced_vars) traced_vars)"
  let ?p = "hydrateBackfillPayload ?raw (w_store page_world)"
  let ?x = "\<lparr>ev_base = backfill_vars_of ?p, ev_pages = 1, ev_ops = (False, None)\<rparr>"
  have c: "has_pending (backfill_vars_of ?p)" "0 \<le> bv_index (backfill_vars_of ?p)"
    "ts_pending (bv_trace (backfill_vars_of ?p)) = Some True" "bp_address ?p = ''h''"
    "remaining (backfill_vars_of ?p) = [''t1'', ''t2'']" by code_simp+
  have u: "jo_subreq (no_subreq\<lparr>jo_subreq := True\<rparr>)" "\<not> ce_canUse page_env (w_asked page_world)"
    by (simp_all add: page_env_def)
  have x: "ev_base ?x = backfill_vars_of ?p" by simp
  show ?thesis
    using backfill_forgets_trace[where cfg = default_config and enq = True, OF refl refl c(1-3) u x, THEN conjunct1] c(4,5)
    by metis
qed

end
