(* ===== verification/PollProps.thy ===== *)
theory PollProps
  imports BodyFrame TxProcessProps
begin

text \<open>
  What a poll of a downstream address does with the entries behind the one it stops at.
\<close>

lemma downstream_batch:
  assumes "jo_hackers jo = Some hs" and "\<not> limited cfg" and "canCall (w_budget w)" and "\<not> cpu_exceeded w"
    and "0 \<le> pv_index v" and "drop (nat (pv_index v)) (pv_pending v) = e # rest"
    and "processClassifiedPendingTx env cfg a hop e hs no_trace
           (classified_job_opts profile \<lparr>jo_subreq = False, jo_hackers = None\<rparr> w) w = (Inr r, w1)"
    and "pr_continued r"
  shows "down_process env cfg a jo hop profile v w = (Inr (v\<lparr>pv_index := int (length (pv_pending v))\<rparr>), w1)"
proof -
  have n: "nat (int (length (pv_pending v)) - pv_index v) = length (e # rest)"
    using assms(5) arg_cong[OF assms(6), of length] by simp
  have i: "pv_index v + int (length (e # rest)) = int (length (pv_pending v))"
    using assms(5) arg_cong[OF assms(6), of length] by simp
  have b: "take (nat (poll_limit cfg v w)) (entries_from (pv_index v) (pv_pending v)) = Some e # map Some rest"
    using assms(2,5,6) n by (simp add: poll_limit_def entries_from_def)
  have p: "processAddressTxs env cfg a (Some e # map Some rest) hs hop None 0 no_trace profile w = (Inr (Some (pr_state r)), w1)"
    using assms(4,7,8) by simp
  show ?thesis
    using assms(1-4) i by (simp add: down_process_def hacker_set_def b p withD1QuotaContinuationSave_def Let_def
        del: processAddressTxs.simps)
qed

text \<open>
  C26: a poll of a downstream address drops the entries behind a long transaction. With no limit on
  provider calls the whole page is one batch, and it is taken off the pending list before it is
  processed; when the trace of one entry asks to be continued, the batch ends there, the answer is not
  looked at, and the poll finishes with the store as that entry left it and the newest transaction of
  the page recorded as seen. Neither the rest of that trace nor any later entry is processed, now or in
  a later poll.
\<close>

theorem downstream_poll_drops_rest:
  assumes "jo_hackers jo = Some hs" and "\<not> limited cfg" and "canCall (w_budget w)" and "\<not> cpu_exceeded w"
    and "0 \<le> pv_index v" and "drop (nat (pv_index v)) (pv_pending v) = e # rest"
    and "processClassifiedPendingTx env cfg a hop e hs no_trace
           (classified_job_opts profile \<lparr>jo_subreq = False, jo_hackers = None\<rparr> w) w = (Inr r, w1)"
    and "pr_continued r"
    and "pv_fetched v" and "\<not> pv_miss v" and "\<not> pv_gapFill v" and "pv_newest v = Some t" and "t \<noteq> []"
  shows "case down_process env cfg a jo hop profile v w of
      (Inl er, w2) \<Rightarrow> False
    | (Inr v', w2) \<Rightarrow> w2 = w1 \<and>
        w_store (down_finish cfg a v' w2) = upsertSyncState a (observed_sync v) (w_store w1) \<and>
        sp_lastSeenTxid (observed_sync v) = Some t"
  using assms(9-) by (cases t; simp add: downstream_batch[OF assms(1-8)] down_finish_def poll_pending_def Let_def truthy_def
      observed_sync_def on_store_def)

definition two_spends :: poll_vars where
  "two_spends = \<lparr>pv_pending = [demo_spend, demo_spend\<lparr>c_txid := ''t2''\<rparr>], pv_index = 0, pv_fetched = True, pv_stats = True,
     pv_observed = None, pv_newest = Some ''t2'', pv_height = None, pv_miss = False, pv_gapChecked = False,
     pv_gapFill = False, pv_cursor = None, pv_exhausted = False, pv_pages = 0, pv_fill = None\<rparr>"

definition demo_chain :: chain_env where
  "demo_chain = failing_env\<lparr>ce_getTx := (\<lambda>n t p. Answer demo_spend_tx),
     ce_router := (ce_router failing_env)\<lparr>r_sleepOnRateLimit := True\<rparr>\<rparr>"

theorem downstream_poll_drops_rest_witness:
  "\<exists>v' w2. down_process demo_chain (default_config\<lparr>maxEdgesPerJob := 1\<rparr>) ''h''
       \<lparr>jo_subreq = False, jo_hackers = Some [''h'']\<rparr> 1 None two_spends demo_world = (Inr v', w2) \<and>
     map edge_txid (edges (w_store w2)) = [''t''] \<and>
     w_store (down_finish (default_config\<lparr>maxEdgesPerJob := 1\<rparr>) ''h'' v' w2) =
       upsertSyncState ''h'' (observed_sync two_spends) (w_store w2)"
proof -
  let ?cfg = "default_config\<lparr>maxEdgesPerJob := 1\<rparr>" and ?jo = "\<lparr>jo_subreq = False, jo_hackers = Some [''h'']\<rparr>"
  let ?op = "classified_job_opts None \<lparr>jo_subreq = False, jo_hackers = None\<rparr> demo_world"
  let ?p = "processClassifiedPendingTx demo_chain ?cfg ''h'' 1 demo_spend [''h''] no_trace ?op demo_world"
  have f: "(case fst ?p of Inl e \<Rightarrow> False | Inr r \<Rightarrow> pr_continued r) \<and> map edge_txid (edges (w_store (snd ?p))) = [''t'']"
    by code_simp
  obtain r w1 where p: "?p = (Inr r, w1)" "pr_continued r" using f by (cases ?p; cases "fst ?p") auto
  have c: "jo_hackers ?jo = Some [''h'']" "\<not> limited ?cfg" "canCall (w_budget demo_world)" "\<not> cpu_exceeded demo_world"
    "0 \<le> pv_index two_spends" "drop (nat (pv_index two_spends)) (pv_pending two_spends) = demo_spend # [demo_spend\<lparr>c_txid := ''t2''\<rparr>]"
    "pv_fetched two_spends" "\<not> pv_miss two_spends" "\<not> pv_gapFill two_spends" "pv_newest two_spends = Some ''t2''"
    by (simp add: two_spends_def, code_simp, code_simp, code_simp, simp_all add: two_spends_def)
  have "(''t2'' :: string) \<noteq> []" by simp
  from downstream_poll_drops_rest[OF c(1-6) p c(7-10) this] show ?thesis
    using f p by (auto split: prod.splits sum.splits)
qed

end
