(* ===== verification/Maintenance.thy ===== *)
theory Maintenance
  imports JobLifecycle SyncStore Config ProcessJobs
begin

text \<open>
  Housekeeping: the batched pruning of \<open>packages/db/src/store.ts\<close> (old done jobs, stale rate limits,
  orphaned sync rows, done jobs without a completion time), the recounts of the counters, and the
  scheduled run over them in \<open>packages/core/src/indexer/maintenance.ts\<close>.

  The clock of the store stands still during a run; whether the deadline of the tick has passed when a
  batch is about to start is a parameter.
\<close>

section \<open>The pause of an exceeded quota\<close>

definition isD1QuotaBlocked :: "d1_kind option \<Rightarrow> store \<Rightarrow> bool" where
  "isD1QuotaBlocked kind s =
     (let blocked = (\<lambda>at. case at of Some t \<Rightarrow> t > clock s | None \<Rightarrow> False)
      in case kind of
           Some D1_read \<Rightarrow> blocked (d1ReadRetryAfterAt (sched s))
         | Some D1_write \<Rightarrow> blocked (d1WriteRetryAfterAt (sched s))
         | None \<Rightarrow> blocked (d1ReadRetryAfterAt (sched s)) \<or> blocked (d1WriteRetryAfterAt (sched s)))"

definition clearExpiredD1QuotaPause :: "store \<Rightarrow> store" where
  "clearExpiredD1QuotaPause s =
     (let clear = (\<lambda>at. case at of Some t \<Rightarrow> if t \<le> clock s then None else Some t | None \<Rightarrow> None)
      in updateSchedulerState (\<lambda>r. r\<lparr>d1ReadRetryAfterAt := clear (d1ReadRetryAfterAt r),
           d1WriteRetryAfterAt := clear (d1WriteRetryAfterAt r)\<rparr>) s)"

section \<open>When\<close>

definition isPruneDue :: "time option \<Rightarrow> int \<Rightarrow> time \<Rightarrow> bool" where
  "isPruneDue lastPruned intervalDays nowMs =
     (if intervalDays \<le> 0 then False
      else case lastPruned of None \<Rightarrow> True | Some t \<Rightarrow> nowMs - t \<ge> intervalDays * MS_PER_DAY)"

definition nextPruneAtIso :: "time option \<Rightarrow> int \<Rightarrow> time \<Rightarrow> time" where
  "nextPruneAtIso lastPruned intervalDays nowMs =
     (case lastPruned of None \<Rightarrow> nowMs | Some t \<Rightarrow> max (t + max 1 intervalDays * MS_PER_DAY) nowMs)"

definition maintenanceShouldStop :: "bool \<Rightarrow> int option \<Rightarrow> int option \<Rightarrow> bool" where
  "maintenanceShouldStop late remainingBatches remainingWrites \<longleftrightarrow>
     late \<or> (case remainingBatches of Some n \<Rightarrow> n \<le> 0 | None \<Rightarrow> False) \<or>
     (case remainingWrites of Some n \<Rightarrow> n \<le> 0 | None \<Rightarrow> False)"

definition retentionCutoff :: "int \<Rightarrow> store \<Rightarrow> time" where
  "retentionCutoff days s = clock s - max 1 days * MS_PER_DAY"

section \<open>The rows to work on\<close>

definition done_unstamped :: "job \<Rightarrow> bool" where
  "done_unstamped j \<longleftrightarrow> job_status j = Done \<and> completedAt j = None"

definition expired_done :: "time \<Rightarrow> job \<Rightarrow> bool" where
  "expired_done cutoff j \<longleftrightarrow>
     job_status j = Done \<and> (case completedAt j of Some t \<Rightarrow> t < cutoff | None \<Rightarrow> False)"

text \<open>\<open>unixepoch\<close> counts whole seconds.\<close>

definition stale_limit :: "int \<Rightarrow> time \<Rightarrow> rate_limit_row \<Rightarrow> bool" where
  "stale_limit inactiveSec nowMs r \<longleftrightarrow> nowMs div 1000 - windowStart r div 1000 > inactiveSec"

definition orphan_sync :: "store \<Rightarrow> sync_row \<Rightarrow> bool" where
  "orphan_sync s r \<longleftrightarrow> getAddress (sync_address r) s = None"

definition countDoneJobsWithNullCompletedAt :: "store \<Rightarrow> int" where
  "countDoneJobsWithNullCompletedAt s = count_rows done_unstamped (jobs s)"

definition countPruneableDoneJobs :: "int \<Rightarrow> store \<Rightarrow> int" where
  "countPruneableDoneJobs days s = count_rows (expired_done (retentionCutoff days s)) (jobs s)"

definition countStaleRateLimits :: "int \<Rightarrow> store \<Rightarrow> int" where
  "countStaleRateLimits inactiveSec s = count_rows (stale_limit inactiveSec (clock s)) (rate_limits s)"

definition countOrphanSyncStateRows :: "store \<Rightarrow> int" where
  "countOrphanSyncStateRows s = count_rows (orphan_sync s) (sync_state s)"

record work_estimate =
  we_backfill :: int
  we_pruneJobs :: int
  we_rateLimits :: int
  we_syncOrphans :: int
  we_total :: int

definition estimateMaintenanceWork :: "int \<Rightarrow> int \<Rightarrow> store \<Rightarrow> work_estimate" where
  "estimateMaintenanceWork retentionDays inactiveDays s =
     (let b = countDoneJobsWithNullCompletedAt s; p = countPruneableDoneJobs retentionDays s;
          r = countStaleRateLimits (inactiveDays * 24 * 60 * 60) s; q = countOrphanSyncStateRows s
      in \<lparr>we_backfill = b, we_pruneJobs = p, we_rateLimits = r, we_syncOrphans = q, we_total = b + p + r + q\<rparr>)"

section \<open>One batch\<close>

text \<open>Each returns the number of rows changed; ties of an \<open>ORDER BY\<close> go by row order.\<close>

definition batch_ids :: "int \<Rightarrow> 'a list \<Rightarrow> 'a list" where
  "batch_ids n xs = take (nat (max 1 n)) xs"

definition backfillDoneJobCompletedAtBatch :: "int \<Rightarrow> store \<Rightarrow> int \<times> store" where
  "backfillDoneJobCompletedAtBatch n s =
     (let ids = batch_ids n (sort (map job_id (filter done_unstamped (jobs s))))
      in (int (length ids),
          s\<lparr>jobs := update_where (\<lambda>j. job_id j \<in> set ids) (\<lambda>j. j\<lparr>completedAt := Some (createdAt j)\<rparr>) (jobs s)\<rparr>))"

definition pruneDoneJobsBatch :: "int \<Rightarrow> time \<Rightarrow> store \<Rightarrow> int \<times> store" where
  "pruneDoneJobsBatch n cutoff s =
     (let ids = batch_ids n (map job_id (sort_key (\<lambda>j. or_else (completedAt j) 0)
                  (filter (expired_done cutoff) (jobs s))))
      in (int (length ids), s\<lparr>jobs := filter (\<lambda>j. job_id j \<notin> set ids) (jobs s)\<rparr>))"

definition pruneStaleRateLimitsBatch :: "int \<Rightarrow> int \<Rightarrow> store \<Rightarrow> int \<times> store" where
  "pruneStaleRateLimitsBatch n inactiveSec s =
     (let ks = batch_ids n (map rl_key (sort_key windowStart
                 (filter (stale_limit inactiveSec (clock s)) (rate_limits s))))
      in (int (length ks), s\<lparr>rate_limits := filter (\<lambda>r. rl_key r \<notin> set ks) (rate_limits s)\<rparr>))"

definition pruneOrphanSyncStateBatch :: "int \<Rightarrow> store \<Rightarrow> int \<times> store" where
  "pruneOrphanSyncStateBatch n s =
     (let ks = batch_ids n (sort (map sync_address (filter (orphan_sync s) (sync_state s))))
      in (int (length ks), s\<lparr>sync_state := filter (\<lambda>r. sync_address r \<notin> set ks) (sync_state s)\<rparr>))"

section \<open>Runs of batches\<close>

record batch_opts =
  bo_batchSize :: int
  bo_maxBatches :: int
  bo_maxPerRun :: "int option"
  bo_remainingBatches :: "int option"
  bo_remainingWrites :: "int option"

record batch_result =
  br_affected :: int
  br_batches :: int
  br_complete :: bool

text \<open>
  The loop, given whether it halts before a batch (on the batches and rows so far) and the batch. The
  flag says that a batch found nothing to do.
\<close>

fun run_batches ::
  "(int \<Rightarrow> int \<Rightarrow> bool) \<Rightarrow> (store \<Rightarrow> int \<times> store) \<Rightarrow> nat \<Rightarrow> int \<Rightarrow> int \<Rightarrow> store \<Rightarrow> (int \<times> int \<times> bool) \<times> store" where
  "run_batches halt step 0 b n s = ((n, b, False), s)"
| "run_batches halt step (Suc k) b n s =
     (if halt b n then ((n, b, False), s)
      else let (m, s1) = step s
           in if m = 0 then ((n, b + 1, True), s1) else run_batches halt step k (b + 1) (n + m) s1)"

definition batch_stop :: "(nat \<Rightarrow> bool) \<Rightarrow> batch_opts \<Rightarrow> int \<Rightarrow> bool" where
  "batch_stop late op b =
     maintenanceShouldStop (late (nat b)) (Some (or_else (bo_remainingBatches op) (bo_maxBatches op) - b))
       (bo_remainingWrites op)"

definition backfillDoneJobCompletedAt :: "(nat \<Rightarrow> bool) \<Rightarrow> batch_opts \<Rightarrow> store \<Rightarrow> batch_result \<times> store" where
  "backfillDoneJobCompletedAt late op s =
     (let maxWrites = (case bo_maxPerRun op of Some m \<Rightarrow> Some m | None \<Rightarrow> bo_remainingWrites op);
          halt = (\<lambda>b n. batch_stop late op b \<or> (case maxWrites of Some m \<Rightarrow> n \<ge> m | None \<Rightarrow> False))
      in case run_batches halt (backfillDoneJobCompletedAtBatch (bo_batchSize op)) (nat (bo_maxBatches op)) 0 0 s of
           ((n, b, True), s1) \<Rightarrow> (\<lparr>br_affected = n, br_batches = b, br_complete = True\<rparr>, s1)
         | ((n, b, False), s1) \<Rightarrow>
             (\<lparr>br_affected = n, br_batches = b, br_complete = (countDoneJobsWithNullCompletedAt s1 = 0)\<rparr>, s1))"

definition pruneDoneJobs :: "(nat \<Rightarrow> bool) \<Rightarrow> batch_opts \<Rightarrow> int \<Rightarrow> store \<Rightarrow> batch_result \<times> store" where
  "pruneDoneJobs late op retentionDays s =
     (let maxDeletes = or_else (bo_maxPerRun op) 10000; cutoff = retentionCutoff retentionDays s;
          halt = (\<lambda>b n. n \<ge> maxDeletes \<or> batch_stop late op b \<or>
                        (case bo_remainingWrites op of Some m \<Rightarrow> m - n \<le> 0 | None \<Rightarrow> False))
      in case run_batches halt (pruneDoneJobsBatch (bo_batchSize op) cutoff) (nat (bo_maxBatches op)) 0 0 s of
           ((n, b, True), s1) \<Rightarrow> (\<lparr>br_affected = n, br_batches = b, br_complete = True\<rparr>, s1)
         | ((n, b, False), s1) \<Rightarrow>
             (let (tail, s2) = pruneDoneJobsBatch 1 cutoff s1
              in (\<lparr>br_affected = n + tail, br_batches = b + (if tail > 0 then 1 else 0),
                   br_complete = (tail = 0)\<rparr>, s2)))"

text \<open>The other two do not count what their last probe deletes.\<close>

definition probed_run ::
  "(nat \<Rightarrow> bool) \<Rightarrow> batch_opts \<Rightarrow> int \<Rightarrow> (int \<Rightarrow> store \<Rightarrow> int \<times> store) \<Rightarrow> store \<Rightarrow> batch_result \<times> store" where
  "probed_run late op dflt step s =
     (let maxDeletes = or_else (bo_maxPerRun op) dflt; halt = (\<lambda>b n. n \<ge> maxDeletes \<or> batch_stop late op b)
      in case run_batches halt (step (bo_batchSize op)) (nat (bo_maxBatches op)) 0 0 s of
           ((n, b, True), s1) \<Rightarrow> (\<lparr>br_affected = n, br_batches = b, br_complete = True\<rparr>, s1)
         | ((n, b, False), s1) \<Rightarrow>
             (let (probe, s2) = step 1 s1
              in (\<lparr>br_affected = n, br_batches = b, br_complete = (probe = 0)\<rparr>, s2)))"

definition pruneStaleRateLimits :: "(nat \<Rightarrow> bool) \<Rightarrow> batch_opts \<Rightarrow> int \<Rightarrow> store \<Rightarrow> batch_result \<times> store" where
  "pruneStaleRateLimits late op inactiveSec = probed_run late op 2000 (\<lambda>n. pruneStaleRateLimitsBatch n inactiveSec)"

definition pruneOrphanSyncState :: "(nat \<Rightarrow> bool) \<Rightarrow> batch_opts \<Rightarrow> store \<Rightarrow> batch_result \<times> store" where
  "pruneOrphanSyncState late op = probed_run late op 5000 pruneOrphanSyncStateBatch"

section \<open>Recounts\<close>

definition seedLastCompletedJobCache :: "store \<Rightarrow> bool \<times> store" where
  "seedLastCompletedJobCache s =
     (if lastCompletedJobAt (sched s) \<noteq> None then (False, s)
      else case rev (sort_key (\<lambda>j. (or_else (completedAt j) 0, job_id j))
                       (filter (\<lambda>j. job_status j = Done \<and> completedAt j \<noteq> None) (jobs s))) of
             [] \<Rightarrow> (False, s)
           | j # _ \<Rightarrow> (True, set_last_completed (or_else (completedAt j) 0) (job_kind j)
                              (jobDurationMs (startedAt j) (or_else (completedAt j) 0)) s))"

definition HACK_STAT_IDS :: "string list" where
  "HACK_STAT_IDS = [''coldcard'', ''liquid'', ''ledger'', ''binance'']"

text \<open>The victims are distinct pairs, in the order of the edges.\<close>

definition traced_victims :: "store \<Rightarrow> (string \<times> address) list" where
  "traced_victims s =
     uniq (concat (map (\<lambda>e. if direction_of e = In_to_hacker
                           then map (\<lambda>a. (hackId a, fromAddress e))
                                  (filter (\<lambda>a. address_of a = toAddress e \<and> isFlaggedHacker a) (addresses s))
                           else []) (edges s)))"

definition recounted_stats :: "store \<Rightarrow> string \<Rightarrow> hack_stats_row" where
  "recounted_stats s h =
     \<lparr>hs_victimCount = count_rows (\<lambda>(h', a). h' = h) (hack_victims s),
      hs_hackerCount = count_rows (\<lambda>a. hackId a = h \<and> isFlaggedHacker a \<and> totalReceivedSats a > 0) (addresses s),
      hs_totalInSats = (\<Sum>a\<leftarrow>addresses s. if hackId a = h \<and> isFlaggedHacker a then totalReceivedSats a else 0)\<rparr>"

definition reconcileHackStats :: "store \<Rightarrow> store" where
  "reconcileHackStats s =
     (let s1 = s\<lparr>hack_victims := traced_victims s\<rparr>;
          rows = fold ensureHackStatsRow HACK_STAT_IDS (hack_stats s1)
      in s1\<lparr>hack_stats := map (\<lambda>(h, r). (h, recounted_stats s1 h)) rows\<rparr>)"

definition reconcileCheapCounters :: "store \<Rightarrow> store" where
  "reconcileCheapCounters s =
     reconcileActiveJobCounts (snd (reconcilePendingJobCount (snd (reconcileCrawlPendingCount s))))"

definition max_downstream_hop :: "store \<Rightarrow> int" where
  "max_downstream_hop s =
     (case List.map_filter hopFromHacker (filter (\<lambda>r. role_of r = Downstream) (addresses s)) of
        [] \<Rightarrow> 0 | h # hs \<Rightarrow> foldl max h hs)"

definition reconcileStatsCounters :: "store \<Rightarrow> store" where
  "reconcileStatsCounters s0 =
     (let s = reconcileHackStats (reconcileCheapCounters s0); maxDepth = downstreamTreeMaxDepth (sched s)
      in updateSchedulerState (\<lambda>r. r\<lparr>
           victimCount := count_rows (\<lambda>a. role_of a = Victim) (addresses s),
           hackerActiveCount := count_rows (\<lambda>a. isFlaggedHacker a \<and> totalReceivedSats a > 0) (addresses s),
           crawlExpandedCount := count_rows (\<lambda>a. expandStatus a = XExpanded) (addresses s),
           crawlMaxHopReached := max_downstream_hop s,
           downstreamTreeCount := count_tree maxDepth s,
           downstreamTreeMaxDepth := maxDepth\<rparr>) s)"

section \<open>The scheduled run\<close>

record maintenance_result =
  ms_backfillUpdated :: int
  ms_seedCache :: bool
  ms_jobsDeleted :: int
  ms_rateLimitsDeleted :: int
  ms_orphansDeleted :: int
  ms_batchesTotal :: int
  ms_prunePending :: bool

definition no_maintenance :: maintenance_result where
  "no_maintenance = \<lparr>ms_backfillUpdated = 0, ms_seedCache = False, ms_jobsDeleted = 0,
     ms_rateLimitsDeleted = 0, ms_orphansDeleted = 0, ms_batchesTotal = 0, ms_prunePending = False\<rparr>"

definition pruneIsDue :: "config \<Rightarrow> bool \<Rightarrow> store \<Rightarrow> bool" where
  "pruneIsDue cfg force s \<longleftrightarrow> jobPruneEnabled cfg \<and>
     (force \<or> maintenancePrunePending (sched s) \<or>
      isPruneDue (lastDoneJobsPrunedAt (sched s)) (jobPruneIntervalDays cfg) (clock s))"

definition fresh_progress :: "time \<Rightarrow> run_progress" where
  "fresh_progress t = \<lparr>rp_phase = None, rp_jobs = 0, rp_rateLimits = 0, rp_orphans = 0, rp_completedAt = 0, rp_startedAt = t\<rparr>"

definition set_pending_run :: "run_progress \<Rightarrow> store \<Rightarrow> store" where
  "set_pending_run p = updateSchedulerState (\<lambda>r. r\<lparr>maintenancePrunePending := True, maintenanceRun := Some p\<rparr>)"

definition finish_run :: "store \<Rightarrow> store" where
  "finish_run s = updateSchedulerState (\<lambda>r. r\<lparr>maintenancePrunePending := False, maintenanceRun := None,
     lastDoneJobsPrunedAt := Some (clock s), lastHousekeepingAt := Some (clock s)\<rparr>) s"

text \<open>
  The three pruning phases; \<open>bl\<close> and \<open>wl\<close> are the batches and writes left. A phase runs when the one
  before is complete and both are positive.
\<close>

definition phase_opts :: "int \<Rightarrow> int \<Rightarrow> int \<Rightarrow> int \<Rightarrow> int \<Rightarrow> batch_opts" where
  "phase_opts bsize maxBatches maxRows bl wl =
     \<lparr>bo_batchSize = bsize, bo_maxBatches = min maxBatches bl, bo_maxPerRun = Some maxRows,
      bo_remainingBatches = Some bl, bo_remainingWrites = Some wl\<rparr>"

definition jobs_phase ::
  "config \<Rightarrow> (maintenance_phase \<Rightarrow> nat \<Rightarrow> bool) \<Rightarrow> int \<Rightarrow> int \<Rightarrow> store \<Rightarrow> batch_result \<times> store" where
  "jobs_phase cfg late bl wl =
     pruneDoneJobs (late Phase_jobs)
       (phase_opts (jobPruneBatchSize cfg) (jobPruneMaxBatchesPerRun cfg) (min (jobPruneMaxDeletesPerRun cfg) wl) bl wl)
       (jobDoneRetentionDays cfg)"

definition limits_phase ::
  "config \<Rightarrow> (maintenance_phase \<Rightarrow> nat \<Rightarrow> bool) \<Rightarrow> int \<Rightarrow> int \<Rightarrow> store \<Rightarrow> batch_result \<times> store" where
  "limits_phase cfg late bl wl =
     pruneStaleRateLimits (late Phase_rate_limits)
       (phase_opts (rateLimitPruneBatchSize cfg) (rateLimitPruneMaxBatchesPerRun cfg) wl bl wl)
       (rateLimitPruneInactiveDays cfg * 24 * 60 * 60)"

definition orphans_phase ::
  "config \<Rightarrow> (maintenance_phase \<Rightarrow> nat \<Rightarrow> bool) \<Rightarrow> int \<Rightarrow> int \<Rightarrow> store \<Rightarrow> batch_result \<times> store" where
  "orphans_phase cfg late bl wl =
     pruneOrphanSyncState (late Phase_orphans)
       (phase_opts (syncStateOrphanPruneBatchSize cfg) (syncStateOrphanPruneMaxBatchesPerRun cfg) wl bl wl)"

definition prune_phases ::
  "config \<Rightarrow> (maintenance_phase \<Rightarrow> nat \<Rightarrow> bool) \<Rightarrow> int \<Rightarrow> int \<Rightarrow> run_progress \<Rightarrow> maintenance_result \<Rightarrow> store
   \<Rightarrow> maintenance_result \<times> store" where
  "prune_phases cfg late bl wl p0 res s0 =
     (let p1 = p0\<lparr>rp_phase := Some Phase_jobs\<rparr>;
          (jobsR, s2) = jobs_phase cfg late bl wl (set_pending_run p1 s0);
          res1 = res\<lparr>ms_jobsDeleted := br_affected jobsR, ms_batchesTotal := ms_batchesTotal res + br_batches jobsR\<rparr>;
          bl1 = bl - br_batches jobsR; wl1 = wl - br_affected jobsR;
          p2 = p1\<lparr>rp_jobs := rp_jobs p1 + br_affected jobsR\<rparr>; ok1 = br_complete jobsR;
          (res2, bl2, wl2, p3, ok2, s3) =
            (if ok1 \<and> bl1 > 0 \<and> wl1 > 0
             then (let (r, s) = limits_phase cfg late bl1 wl1 s2
                   in (res1\<lparr>ms_rateLimitsDeleted := br_affected r,
                            ms_batchesTotal := ms_batchesTotal res1 + br_batches r\<rparr>,
                       bl1 - br_batches r, wl1 - br_affected r,
                       p2\<lparr>rp_phase := Some Phase_rate_limits, rp_rateLimits := rp_rateLimits p2 + br_affected r\<rparr>,
                       br_complete r, s))
             else (res1, bl1, wl1, p2, ok1, s2));
          (res3, p4, ok3, s4) =
            (if ok2 \<and> bl2 > 0 \<and> wl2 > 0
             then (let (r, s) = orphans_phase cfg late bl2 wl2 s3
                   in (res2\<lparr>ms_orphansDeleted := br_affected r,
                            ms_batchesTotal := ms_batchesTotal res2 + br_batches r\<rparr>,
                       p3\<lparr>rp_phase := Some Phase_orphans, rp_orphans := rp_orphans p3 + br_affected r\<rparr>,
                       br_complete r, s))
             else (res2, p3, ok2, s3))
      in (res3\<lparr>ms_prunePending := \<not> ok3\<rparr>, if ok3 then finish_run s4 else set_pending_run p4 s4))"

definition recount_on_schedule :: "int \<Rightarrow> store \<Rightarrow> store" where
  "recount_on_schedule counter s =
     (if counter mod 1440 = 0 then reconcileStatsCounters s
      else if counter mod 60 = 0 then reconcileCheapCounters s else s)"

definition runScheduledMaintenance ::
  "config \<Rightarrow> (maintenance_phase \<Rightarrow> nat \<Rightarrow> bool) \<Rightarrow> int \<Rightarrow> bool \<Rightarrow> bool \<Rightarrow> store \<Rightarrow> maintenance_result \<times> store" where
  "runScheduledMaintenance cfg late counter skipNonCritical force s =
     (if isD1QuotaBlocked (Some D1_write) s then (no_maintenance, s)
      else
        let pending = maintenancePrunePending (sched s); due = pruneIsDue cfg force s;
            p = (if pending then or_else (maintenanceRun (sched s)) (fresh_progress (clock s)) else fresh_progress (clock s))
        in if skipNonCritical
           then (no_maintenance\<lparr>ms_prunePending := due\<rparr>, if due \<and> \<not> pending then set_pending_run p s else s)
           else
             let (r, s1) = backfillDoneJobCompletedAt (late Phase_backfill)
                    \<lparr>bo_batchSize = jobCompletedAtBackfillBatchSize cfg,
                     bo_maxBatches = jobCompletedAtBackfillMaxBatchesPerTick cfg, bo_maxPerRun = None,
                     bo_remainingBatches = Some (maintenanceMaxBatchesPerTick cfg),
                     bo_remainingWrites = Some (maintenanceMaxWritesPerTick cfg)\<rparr> s;
                 p1 = (if br_affected r > 0
                       then p\<lparr>rp_phase := Some Phase_backfill, rp_completedAt := rp_completedAt p + br_affected r\<rparr> else p);
                 (seeded, s2) = seedLastCompletedJobCache s1;
                 s3 = recount_on_schedule counter s2;
                 res = no_maintenance\<lparr>ms_backfillUpdated := br_affected r, ms_batchesTotal := br_batches r,
                                       ms_seedCache := seeded\<rparr>;
                 unstamped = countDoneJobsWithNullCompletedAt s3
             in if \<not> (due \<and> unstamped = 0)
                then (if due \<and> unstamped > 0
                      then (res\<lparr>ms_prunePending := True\<rparr>, set_pending_run (p1\<lparr>rp_phase := Some Phase_backfill\<rparr>) s3)
                      else (res, s3))
                else prune_phases cfg late (maintenanceMaxBatchesPerTick cfg - br_batches r)
                       (maintenanceMaxWritesPerTick cfg - br_affected r) p1 res s3)"

end
