(* ===== verification/Snapshots.thy ===== *)
theory Snapshots
  imports SyncStore Maintenance
begin

text \<open>
  The cached summaries of \<open>packages/db/src/store.ts\<close>: the counts of due polls and of the tree, the
  snapshot in \<open>sync_snapshot_json\<close> that the web client polls, the daily rows per hack, and the rows of
  \<open>source_sync_state\<close>.
\<close>

section \<open>Due polls\<close>

definition downstreamPollEligibleWhere :: "int \<Rightarrow> int \<Rightarrow> addr_row \<Rightarrow> bool" where
  "downstreamPollEligibleWhere depth minExpand r \<longleftrightarrow>
     role_of r = Downstream \<and> expandStatus r \<in> {XPending, XExpanded} \<and>
     (case hopFromHacker r of Some h \<Rightarrow> h < depth | None \<Rightarrow> False) \<and>
     (max 0 minExpand \<le> 0 \<or> inboundSats r \<ge> max 0 minExpand)"

definition last_polled :: "address \<Rightarrow> store \<Rightarrow> time option" where
  "last_polled a s = Option.bind (getSyncState a s) lastPolledAt"

definition countDownstreamPollDue :: "int \<Rightarrow> int \<Rightarrow> int \<Rightarrow> store \<Rightarrow> int" where
  "countDownstreamPollDue maxDepth interval minExpand s =
     count_rows (\<lambda>r. downstreamPollEligibleWhere maxDepth minExpand r \<and>
        (case last_polled (address_of r) s of None \<Rightarrow> True | Some t \<Rightarrow> t \<le> clock s - interval * 1000))
       (addresses s)"

text \<open>
  Never-polled addresses first, by hop; then the longest unpolled. The second query walks the sync
  rows.
\<close>

definition hop_key :: "addr_row \<Rightarrow> int" where
  "hop_key r = or_else (hopFromHacker r) 0"

definition listDownstreamNeverPolled :: "int \<Rightarrow> int \<Rightarrow> int \<Rightarrow> store \<Rightarrow> address list" where
  "listDownstreamNeverPolled maxDepth cap minExpand s =
     map address_of (take (nat cap) (sort_key hop_key
       (filter (\<lambda>r. downstreamPollEligibleWhere maxDepth minExpand r \<and> last_polled (address_of r) s = None)
         (addresses s))))"

definition listDownstreamStalePolled :: "int \<Rightarrow> time \<Rightarrow> int \<Rightarrow> int \<Rightarrow> store \<Rightarrow> address list" where
  "listDownstreamStalePolled maxDepth cutoff cap minExpand s =
     map (\<lambda>(q, r). address_of r) (take (nat cap) (sort_key (\<lambda>(q, r). (or_else (lastPolledAt q) 0, hop_key r))
       (filter (\<lambda>(q, r). (case lastPolledAt q of Some t \<Rightarrow> t \<le> cutoff | None \<Rightarrow> False) \<and>
                         downstreamPollEligibleWhere maxDepth minExpand r)
         (List.map_filter (\<lambda>q. map_option (Pair q) (getAddress (sync_address q) s)) (sync_state s)))))"

definition listDownstreamForPoll :: "int \<Rightarrow> int \<Rightarrow> int \<Rightarrow> int \<Rightarrow> store \<Rightarrow> address list" where
  "listDownstreamForPoll limit maxDepth interval minExpand s =
     (let cap = max 0 limit
      in if cap = 0 then []
         else let never = listDownstreamNeverPolled maxDepth cap minExpand s
              in if int (length never) \<ge> cap then never
                 else never @ listDownstreamStalePolled maxDepth (clock s - interval * 1000)
                                (cap - int (length never)) minExpand s)"

section \<open>The cached counts\<close>

definition countDownstreamTreeNodes :: "int \<Rightarrow> store \<Rightarrow> int \<times> store" where
  "countDownstreamTreeNodes maxDepth s =
     (if downstreamTreeMaxDepth (sched s) = maxDepth then (downstreamTreeCount (sched s), s)
      else reconcileDownstreamTreeCount maxDepth s)"

definition getDownstreamMonitorStatsCached :: "int \<Rightarrow> int \<Rightarrow> bool \<Rightarrow> int \<Rightarrow> store \<Rightarrow> (int \<times> int) \<times> store" where
  "getDownstreamMonitorStatsCached maxDepth interval forceRefresh minExpand s0 =
     (let (tree, s) = countDownstreamTreeNodes maxDepth s0; floor = max 0 minExpand
      in if poll_cache_fresh maxDepth interval floor s \<and> \<not> forceRefresh
         then ((tree, downstreamPollDueCount (sched s)), s)
         else let due = countDownstreamPollDue maxDepth interval floor s
              in ((tree, due), updateSchedulerState (\<lambda>r. r\<lparr>downstreamPollDueCount := due,
                    downstreamPollDueAt := Some (clock s), downstreamPollMaxDepth := maxDepth,
                    downstreamPollIntervalSec := interval, downstreamPollMinExpandSats := floor,
                    monitorSnapshotDirty := False\<rparr>) s))"

section \<open>The snapshot\<close>

definition getCrawlStats :: "store \<Rightarrow> int \<times> int \<times> int" where
  "getCrawlStats s =
     (crawlPendingCount (sched s), crawlExpandedCount (sched s), crawlMaxHopReached (sched s))"

definition computeStatsCounts :: "store \<Rightarrow> int \<times> int \<times> int \<times> int" where
  "computeStatsCounts s =
     (victimCount (sched s), hackerActiveCount (sched s), totalInSats (sched s), totalOutSats (sched s))"

definition last_done_job :: "store \<Rightarrow> job option" where
  "last_done_job s =
     (case rev (sort_key (\<lambda>j. (or_else (completedAt j) 0, job_id j))
             (filter (\<lambda>j. job_status j = Done \<and> completedAt j \<noteq> None) (jobs s))) of
        [] \<Rightarrow> None | j # _ \<Rightarrow> Some j)"

definition getLastCompletedJobSummary :: "store \<Rightarrow> last_completed" where
  "getLastCompletedJobSummary s =
     (case lastCompletedJobAt (sched s) of
        Some t \<Rightarrow> \<lparr>lc_type = lastCompletedJobType (sched s),
                   lc_durationMs = lastCompletedJobDurationMs (sched s), lc_at = Some t\<rparr>
      | None \<Rightarrow>
          (case last_done_job s of
             None \<Rightarrow> \<lparr>lc_type = None, lc_durationMs = None, lc_at = None\<rparr>
           | Some j \<Rightarrow> \<lparr>lc_type = Some (job_kind j),
                         lc_durationMs = jobDurationMs (startedAt j) (or_else (completedAt j) 0),
                         lc_at = completedAt j\<rparr>))"

text \<open>The smallest amount to expand is not compared.\<close>

definition syncSnapshotParamsMatch :: "sync_snapshot \<Rightarrow> snapshot_params \<Rightarrow> bool" where
  "syncSnapshotParamsMatch sn p \<longleftrightarrow>
     sn_maxCrawlDepth (sn_params sn) = sn_maxCrawlDepth p \<and>
     sn_pollIntervalSec (sn_params sn) = sn_pollIntervalSec p"

definition snapshot_current :: "snapshot_params \<Rightarrow> int \<Rightarrow> store \<Rightarrow> sync_snapshot \<Rightarrow> bool" where
  "snapshot_current p maxAgeSec s sn \<longleftrightarrow>
     isCacheFresh (Some (or_else (syncSnapshotAt (sched s)) (sn_at sn))) maxAgeSec (clock s) \<and>
     syncSnapshotParamsMatch sn p"

definition refreshSyncSnapshot :: "snapshot_params \<Rightarrow> store \<Rightarrow> sync_snapshot \<times> store" where
  "refreshSyncSnapshot p s =
     (let crawl = getCrawlStats s; jobDirty = syncSnapshotDirty (sched s); parsed = syncSnapshot (sched s);
          (monitor, s1) = getDownstreamMonitorStatsCached (sn_maxCrawlDepth p) (sn_pollIntervalSec p)
                            (monitorSnapshotDirty (sched s)) (sn_minExpandSats p) s;
          lastJob = (case parsed of
                       Some sn \<Rightarrow> if jobDirty then getLastCompletedJobSummary s1 else sn_lastCompleted sn
                     | None \<Rightarrow> getLastCompletedJobSummary s1);
          sn = \<lparr>sn_at = clock s1, sn_params = p, sn_crawl = crawl, sn_monitor = monitor,
                sn_lastCompleted = lastJob, sn_stats = computeStatsCounts s1\<rparr>
      in (sn, updateSchedulerState (\<lambda>r. r\<lparr>syncSnapshot := Some sn, syncSnapshotAt := Some (sn_at sn),
                syncSnapshotDirty := False, monitorSnapshotDirty := False\<rparr>) s1))"

definition maybeRefreshSyncSnapshot :: "snapshot_params \<Rightarrow> int \<Rightarrow> store \<Rightarrow> sync_snapshot \<times> store" where
  "maybeRefreshSyncSnapshot p maxAgeSec s =
     (case syncSnapshot (sched s) of
        Some sn \<Rightarrow>
          if snapshot_current p maxAgeSec s sn \<and> \<not> syncSnapshotDirty (sched s) \<and> \<not> monitorSnapshotDirty (sched s)
          then (sn, s) else refreshSyncSnapshot p s
      | None \<Rightarrow> refreshSyncSnapshot p s)"

definition getSyncSnapshot :: "snapshot_params \<Rightarrow> int \<Rightarrow> store \<Rightarrow> sync_snapshot option" where
  "getSyncSnapshot p maxAgeSec s =
     (case syncSnapshot (sched s) of
        Some sn \<Rightarrow> if snapshot_current p maxAgeSec s sn then Some sn else None
      | None \<Rightarrow> None)"

section \<open>The rows per hack\<close>

definition computeStatsCountsByHack :: "store \<Rightarrow> (string \<times> hack_stats_row) list" where
  "computeStatsCountsByHack s =
     map (\<lambda>h. (h, or_else (map_of (hack_stats s) h) empty_hack_stats)) HACK_STAT_IDS"

definition todayUtc :: "store \<Rightarrow> int" where
  "todayUtc s = clock s div MS_PER_DAY"

definition tryClaimHackStatsDay :: "int \<Rightarrow> store \<Rightarrow> bool \<times> store" where
  "tryClaimHackStatsDay today s =
     (if hackStatsDayUtc (sched s) \<noteq> Some today
      then (True, updateSchedulerState (\<lambda>r. r\<lparr>hackStatsDayUtc := Some today\<rparr>) s)
      else (False, s))"

definition maybeRefreshHackStatsDaily :: "store \<Rightarrow> bool \<times> store" where
  "maybeRefreshHackStatsDaily s =
     (if hackStatsDayUtc (sched s) = Some (todayUtc s) then (False, s)
      else case tryClaimHackStatsDay (todayUtc s) s of
             (False, s1) \<Rightarrow> (False, s1)
           | (True, s1) \<Rightarrow>
               (True, updateSchedulerState (\<lambda>r. r\<lparr>hackStatsRows := Some (computeStatsCountsByHack s1)\<rparr>) s1))"

section \<open>Sources and the price\<close>

definition getSourceSync :: "string \<Rightarrow> store \<Rightarrow> source_row option" where
  "getSourceSync n s = List.find (\<lambda>r. src_name r = n) (source_sync s)"

definition put_source :: "source_row \<Rightarrow> (source_row \<Rightarrow> source_row) \<Rightarrow> store \<Rightarrow> store" where
  "put_source fresh f s =
     s\<lparr>source_sync := (if getSourceSync (src_name fresh) s = None then source_sync s @ [fresh]
                        else update_where (\<lambda>r. src_name r = src_name fresh) f (source_sync s))\<rparr>"

definition upsertSourceSync :: "string \<Rightarrow> int option \<Rightarrow> string option \<Rightarrow> store \<Rightarrow> store" where
  "upsertSourceSync n addressCount hash s =
     put_source \<lparr>src_name = n, src_lastSyncAt = Some (clock s), src_addressCount = addressCount,
                 src_contentHash = hash, src_lastError = None\<rparr>
       (\<lambda>r. r\<lparr>src_lastSyncAt := Some (clock s), src_addressCount := coalesce addressCount (src_addressCount r),
              src_contentHash := coalesce hash (src_contentHash r), src_lastError := None\<rparr>) s"

definition setSourceSyncError :: "string \<Rightarrow> string \<Rightarrow> store \<Rightarrow> store" where
  "setSourceSyncError n msg =
     put_source \<lparr>src_name = n, src_lastSyncAt = None, src_addressCount = None, src_contentHash = None,
                 src_lastError = Some (take 1000 msg)\<rparr>
       (\<lambda>r. r\<lparr>src_lastError := Some (take 1000 msg)\<rparr>)"

definition getBtcUsdPrice :: "store \<Rightarrow> (int \<times> time) option" where
  "getBtcUsdPrice s =
     (case (btcUsdPrice (sched s), btcUsdPriceAt (sched s)) of
        (Some usd, Some t) \<Rightarrow> Some (usd, t) | _ \<Rightarrow> None)"

definition setBtcUsdPrice :: "int \<Rightarrow> time \<Rightarrow> store \<Rightarrow> store" where
  "setBtcUsdPrice usd t = updateSchedulerState (\<lambda>r. r\<lparr>btcUsdPrice := Some usd, btcUsdPriceAt := Some t\<rparr>)"

definition setBtcUsdRefreshAttemptAt :: "time \<Rightarrow> store \<Rightarrow> store" where
  "setBtcUsdRefreshAttemptAt t = updateSchedulerState (\<lambda>r. r\<lparr>btcUsdRefreshAttemptAt := Some t\<rparr>)"

end
