(* ===== verification/Crawl.thy ===== *)
theory Crawl
  imports Snapshots JobBody
begin

text \<open>
  The schedule phase of a tick (\<open>packages/core/src/indexer/crawl.ts\<close>, \<open>rebuildMode.ts\<close>): it enqueues
  the synchronisation of the sources, the maintenance of one hacker, the expansion of the addresses
  around one hacker and the polls that are due, runs housekeeping and refreshes the cached summaries.

  What the tick's subrequest budget is when it is looked at, what the price service answers and
  whether the deadline of housekeeping has passed is the environment \<open>sched_env\<close>.
\<close>

section \<open>The environment\<close>

datatype sched_point = At_price | At_crawl | At_maintain | At_op_return

record sched_env =
  se_budget :: "sched_point \<Rightarrow> budget"
  se_price :: "string + int \<times> time" \<comment> \<open>fetchMempoolBtcUsd\<close>
  se_late :: "maintenance_phase \<Rightarrow> nat \<Rightarrow> bool"

definition scheduleBudgetLow :: "budget \<Rightarrow> int \<Rightarrow> int \<Rightarrow> bool" where
  "scheduleBudgetLow b reserve minJobBudget =
     (if b_cap b \<le> 0 then False
      else case remaining b of Some r \<Rightarrow> r \<le> reserve + minJobBudget | None \<Rightarrow> False)"

definition isRebuildActive :: "config \<Rightarrow> int option \<Rightarrow> store \<Rightarrow> bool" where
  "isRebuildActive cfg processTxCount s =
     (if indexerRebuildMode cfg then True
      else case processTxCount of Some n \<Rightarrow> n > 0 | None \<Rightarrow> hasActiveJob Process_tx s)"

definition processTxPriority :: "config \<Rightarrow> store \<Rightarrow> int" where
  "processTxPriority cfg s = (if isRebuildActive cfg None s then processTxRebuildPriority cfg else PROCESS_TX)"

text \<open>\<open>UPDATE ... SET i = (i + 1) % n ... RETURNING ((i - 1 + n) % n)\<close> and the cron counter, on the row.\<close>

definition claim_poll_index :: "int \<Rightarrow> store \<Rightarrow> int \<times> store" where
  "claim_poll_index n s =
     (if n \<le> 0 then (0, s)
      else let s1 = updateSchedulerState (\<lambda>r. r\<lparr>hackerPollIndex := (hackerPollIndex r + 1) mod n\<rparr>) s
           in ((hackerPollIndex (sched s1) - 1 + n) mod n, s1))"

definition increment_cron_counter :: "store \<Rightarrow> int \<times> store" where
  "increment_cron_counter s =
     (let s1 = updateSchedulerState (\<lambda>r. r\<lparr>maintenanceCronCounter := maintenanceCronCounter r + 1\<rparr>) s
      in (maintenanceCronCounter (sched s1), s1))"

section \<open>Candidates\<close>

text \<open>Equal amounts keep the order of the rows.\<close>

definition getCrawlEnqueueCandidates :: "address \<Rightarrow> int \<Rightarrow> int \<Rightarrow> int \<Rightarrow> store \<Rightarrow> address list" where
  "getCrawlEnqueueCandidates hacker limit maxDepth minExpand s =
     (if limit \<le> 0 \<or> maxDepth \<le> 1 then []
      else map address_of (take (nat limit) (sort_key (\<lambda>r. - inboundSats r)
             (filter (\<lambda>r. expandStatus r = XPending \<and> hopFromHacker r = Some 1 \<and> 1 < maxDepth \<and>
                          inboundSats r \<ge> max 0 minExpand \<and>
                          (\<exists>e\<in>set (edges s). fromAddress e = hacker \<and> toAddress e = address_of r \<and>
                             direction_of e = Out_from_hacker))
               (addresses s)))))"

definition getDownstreamFrontier :: "int \<Rightarrow> int \<Rightarrow> int \<Rightarrow> store \<Rightarrow> address list" where
  "getDownstreamFrontier limit maxDepth minExpand s =
     map address_of (take (nat limit) (sort_key (\<lambda>r. (hop_key r, lastSeenAt r \<noteq> None, or_else (lastSeenAt r) 0))
       (filter (\<lambda>r. (role_of r = Downstream \<or> role_of r = Hacker) \<and> expandStatus r = XPending \<and>
                    (case hopFromHacker r of Some h \<Rightarrow> h < maxDepth | None \<Rightarrow> False) \<and>
                    (max 0 minExpand > 0 \<longrightarrow> inboundSats r \<ge> max 0 minExpand))
          (addresses s))))"

section \<open>One hacker\<close>

definition enqueueBackfillResume :: "address \<Rightarrow> store \<Rightarrow> store" where
  "enqueueBackfillResume a s =
     snd (enqueueJobIfAbsent Backfill_hacker_address (buildBackfillJobPayload a s) BACKFILL_HACKER None
            (Some BACKFILL_DEDUPE_TYPES) (Some a) False s)"

text \<open>A job about one address, unless the same is waiting.\<close>

definition enqueue_about :: "job_type \<Rightarrow> address \<Rightarrow> int \<Rightarrow> job_type list option \<Rightarrow> store \<Rightarrow> store" where
  "enqueue_about ty a prio dedupe s =
     snd (enqueueJobIfAbsent ty [(''address'', JStr a)] prio None dedupe (Some a) False s)"

definition audit_due :: "config \<Rightarrow> address \<Rightarrow> time \<Rightarrow> store \<Rightarrow> bool" where
  "audit_due cfg a ts s \<longleftrightarrow>
     (case getAddress a s of Some r \<Rightarrow> expandStatus r = XExpanded | None \<Rightarrow> False) \<and>
     (case getBackfillState a s of
        Some b \<Rightarrow> bs_complete b \<and> ts - or_else (bs_auditAt b) 0 \<ge> backfillHealAuditIntervalSec cfg * 1000
      | None \<Rightarrow> False)"

definition maintain_backfill :: "config \<Rightarrow> address \<Rightarrow> time \<Rightarrow> bool \<Rightarrow> store \<Rightarrow> store" where
  "maintain_backfill cfg a ts throttled s =
     (let status = (case getAddress a s of Some r \<Rightarrow> expandStatus r | None \<Rightarrow> XPending);
          complete = (case getBackfillState a s of Some b \<Rightarrow> bs_complete b | None \<Rightarrow> False)
      in if status = XPending \<or> status = XBackfilling then enqueueBackfillResume a s
         else if status = XExpanded \<and> \<not> complete then enqueueBackfillResume a s
         else if audit_due cfg a ts s \<and> \<not> throttled
              then enqueue_about Audit_hacker_backfill a AUDIT_HACKER_BACKFILL (Some BACKFILL_DEDUPE_TYPES) s
         else s)"

definition hacker_poll_due :: "config \<Rightarrow> address \<Rightarrow> time \<Rightarrow> store \<Rightarrow> bool" where
  "hacker_poll_due cfg a ts s \<longleftrightarrow>
     (case getBackfillState a s of
        Some b \<Rightarrow> bs_complete b \<and> ts - or_else (last_polled a s) 0 \<ge> cronIntervalSec cfg * 1000
      | None \<Rightarrow> False)"

definition maintainOneHacker :: "config \<Rightarrow> address \<Rightarrow> time option \<Rightarrow> time \<Rightarrow> bool \<Rightarrow> store \<Rightarrow> store" where
  "maintainOneHacker cfg a balanceAt ts throttled s =
     (let auditDue = audit_due cfg a ts s; s1 = maintain_backfill cfg a ts throttled s
      in if throttled then s1
         else
           let pollDue = hacker_poll_due cfg a ts s1;
               balanceStale = (ts - or_else balanceAt 0 \<ge> balanceRefreshIntervalSec cfg * 1000);
               s2 = (if shouldEnqueueRefreshLiveBalance balanceStale pollDue auditDue
                     then enqueue_about Refresh_live_balance a REFRESH_BALANCE None s1 else s1)
           in if pollDue then enqueue_about Poll_hacker_address a POLL_HACKER None s2 else s2)"

section \<open>The price\<close>

datatype price_mode = Price_skip | Price_fresh | Price_queued | Price_inline

definition scheduleBtcUsdPriceRefresh :: "sched_env \<Rightarrow> config \<Rightarrow> int \<Rightarrow> store \<Rightarrow> price_mode \<times> store" where
  "scheduleBtcUsdPriceRefresh env cfg reserve s =
     (if isD1QuotaBlocked (Some D1_write) s then (Price_skip, s)
      else
        let ts = clock s; interval = btcUsdPriceRefreshIntervalSec cfg * 1000;
            lastAttempt = or_else (btcUsdRefreshAttemptAt (sched s)) 0
        in if (case getBtcUsdPrice s of Some (usd, t) \<Rightarrow> ts - t < interval | None \<Rightarrow> False) then (Price_fresh, s)
           else if lastAttempt > 0 \<and> ts - lastAttempt < interval then (Price_skip, s)
           else if scheduleBudgetLow (se_budget env At_price) reserve 5
                then (Price_queued,
                      snd (enqueueJobIfAbsent Refresh_btc_usd_price [] REFRESH_BTC_USD None None None False s))
           else let s1 = setBtcUsdRefreshAttemptAt ts s
                in case se_price env of
                     Inr (usd, t) \<Rightarrow> (Price_inline, setBtcUsdPrice usd t s1)
                   | Inl e \<Rightarrow> (Price_skip, s1))"

section \<open>The schedule phase\<close>

record crawl_stats =
  cs_skipNonCritical :: bool
  cs_crawlEnqueued :: int
  cs_pollEnqueued :: int
  cs_maintTick :: bool
  cs_throttled :: bool

definition empty_crawl :: crawl_stats where
  "empty_crawl = \<lparr>cs_skipNonCritical = False, cs_crawlEnqueued = 0, cs_pollEnqueued = 0, cs_maintTick = False,
     cs_throttled = False\<rparr>"

text \<open>What \<open>loadScheduleEnqueueCache\<close> read at the start, and whether a source may be enqueued.\<close>

record enqueue_cache =
  ec_paused :: bool
  ec_depth :: int

definition loadScheduleEnqueueCache :: "store \<Rightarrow> enqueue_cache" where
  "loadScheduleEnqueueCache s =
     \<lparr>ec_paused = queueSchedulingPaused (sched s), ec_depth = pendingJobCount (sched s)\<rparr>"

definition queue_open :: "config \<Rightarrow> enqueue_cache \<Rightarrow> bool" where
  "queue_open cfg ec \<longleftrightarrow> \<not> ec_paused ec \<and> ec_depth ec < cfg_maxQueueDepth cfg"

definition source_last :: "string \<Rightarrow> store \<Rightarrow> time" where
  "source_last n s = or_else (Option.bind (getSourceSync n s) src_lastSyncAt) 0"

definition schedule_source ::
  "config \<Rightarrow> enqueue_cache \<Rightarrow> bool \<Rightarrow> time \<Rightarrow> time \<Rightarrow> int \<Rightarrow> job_type \<Rightarrow> int \<Rightarrow> store \<Rightarrow> store" where
  "schedule_source cfg ec skip ts lastAt everySec ty prio s =
     (if \<not> skip \<and> ts - lastAt \<ge> everySec * 1000 \<and> queue_open cfg ec
      then snd (enqueueJobIfAbsent ty [] prio None None None False s) else s)"

definition schedule_sources :: "config \<Rightarrow> enqueue_cache \<Rightarrow> bool \<Rightarrow> time \<Rightarrow> store \<Rightarrow> store" where
  "schedule_sources cfg ec skip ts s =
     (let s1 = schedule_source cfg ec skip ts (source_last ''coldcardwatch'' s)
                 (coldcardwatchSyncIntervalSec cfg) Sync_coldcardwatch SYNC_COLDCARDWATCH s;
          s2 = schedule_source cfg ec skip ts
                 (max (source_last ''coldcard_hack_tracker'' s1) (source_last ''coldcard_sweep_watch'' s1))
                 (vercelTrackersSyncIntervalSec cfg) Sync_vercel_trackers SYNC_VERCEL_TRACKERS s1
      in schedule_source cfg ec skip ts (source_last ''bitquery_coldcard'' s2)
           (bitqueryColdcardSyncIntervalSec cfg) Sync_bitquery_coldcard SYNC_BITQUERY_COLDCARD s2)"

definition every_n :: "int \<Rightarrow> int \<Rightarrow> bool" where
  "every_n n tick \<longleftrightarrow> n > 0 \<and> tick mod n = 0"

text \<open>Index and entry of the hacker whose turn it is; the list is not empty.\<close>

definition next_hacker :: "addr_row list \<Rightarrow> store \<Rightarrow> addr_row \<times> store" where
  "next_hacker hackers s = (let (idx, s1) = claim_poll_index (int (length hackers)) s in (hackers ! nat idx, s1))"

definition maintain_phase ::
  "sched_env \<Rightarrow> config \<Rightarrow> int \<Rightarrow> addr_row list \<Rightarrow> time \<Rightarrow> bool \<Rightarrow> bool \<Rightarrow> store \<Rightarrow> store" where
  "maintain_phase env cfg reserve hackers ts throttled isMaintTick s =
     (if isMaintTick \<and> \<not> scheduleBudgetLow (se_budget env At_maintain) reserve 8 \<and> hackers \<noteq> []
      then (let (h, s1) = next_hacker hackers s
            in maintainOneHacker cfg (address_of h) (liveBalanceAt h) ts throttled s1)
      else s)"

definition op_return_phase ::
  "sched_env \<Rightarrow> config \<Rightarrow> int \<Rightarrow> enqueue_cache \<Rightarrow> bool \<Rightarrow> store \<Rightarrow> store" where
  "op_return_phase env cfg reserve ec isOpTick s =
     (if isOpTick \<and> queue_open cfg ec \<and> \<not> scheduleBudgetLow (se_budget env At_op_return) reserve 5 \<and>
         hasTransactionsMissingOpReturn s
      then snd (enqueueJobIfAbsent Backfill_op_return [] REFRESH_BALANCE None (Some [Backfill_op_return]) None False s)
      else s)"

definition resume_picked :: "config \<Rightarrow> enqueue_cache \<Rightarrow> address \<Rightarrow> store \<Rightarrow> store" where
  "resume_picked cfg ec a s =
     (if \<not> ec_paused ec \<and> countActiveJobs Backfill_hacker_address s < cfg_maxPendingBackfillGlobal cfg \<and>
         (case getAddress a s of Some r \<Rightarrow> expandStatus r \<in> {XPending, XBackfilling} | None \<Rightarrow> False)
      then enqueueBackfillResume a s else s)"

definition enqueue_expand :: "address \<Rightarrow> int \<times> store \<Rightarrow> int \<times> store" where
  "enqueue_expand a ns =
     (case enqueueJobIfAbsent Expand_downstream [(''address'', JStr a), (''cron'', JBool True)] CRON_EXPAND None
             None (Some a) False (snd ns) of
        (Some i, s1) \<Rightarrow> (fst ns + 1, setExpandStatus a XQueued s1)
      | (None, s1) \<Rightarrow> (fst ns, s1))"

definition enqueue_poll_of :: "address \<Rightarrow> int \<times> store \<Rightarrow> int \<times> store" where
  "enqueue_poll_of a ns =
     (case enqueueJobIfAbsent Poll_downstream_address [(''address'', JStr a)] POLL_DOWNSTREAM None
             None (Some a) False (snd ns) of
        (Some i, s1) \<Rightarrow> (fst ns + 1, s1)
      | (None, s1) \<Rightarrow> (fst ns, s1))"

definition crawl_phase :: "config \<Rightarrow> enqueue_cache \<Rightarrow> addr_row list \<Rightarrow> store \<Rightarrow> int \<times> store" where
  "crawl_phase cfg ec hackers s =
     (if hackers = [] then (0, s)
      else let (h, s1) = next_hacker hackers s;
               s2 = resume_picked cfg ec (address_of h) s1
           in fold enqueue_expand
                (getCrawlEnqueueCandidates (address_of h) (crawlEnqueuePerCron cfg) (maxCrawlDepth cfg)
                   (minExpandSats cfg) s2) (0, s2))"

definition poll_phase :: "config \<Rightarrow> store \<Rightarrow> int \<times> store" where
  "poll_phase cfg s =
     fold enqueue_poll_of
       (listDownstreamForPoll (downstreamPollEnqueuePerCron cfg) (maxCrawlDepth cfg)
          (cfg_downstreamPollIntervalSec cfg) (minExpandSats cfg) s) (0, s)"

definition syncSnapshotMaxAgeSec :: "config \<Rightarrow> int" where
  "syncSnapshotMaxAgeSec cfg =
     (case syncSnapshotTtlSec cfg of
        Some n \<Rightarrow> if n \<ge> 0 then n else max 0 (cfg_downstreamPollIntervalSec cfg)
      | None \<Rightarrow> max 0 (cfg_downstreamPollIntervalSec cfg))"

definition refresh_summaries :: "config \<Rightarrow> store \<Rightarrow> store" where
  "refresh_summaries cfg s =
     snd (maybeRefreshSyncSnapshot
            \<lparr>sn_maxCrawlDepth = maxCrawlDepth cfg, sn_pollIntervalSec = cfg_downstreamPollIntervalSec cfg,
             sn_minExpandSats = minExpandSats cfg\<rparr> (syncSnapshotMaxAgeSec cfg)
            (ensurePollDueCacheParams (maxCrawlDepth cfg) (cfg_downstreamPollIntervalSec cfg) (minExpandSats cfg)
               (ensureDownstreamTreeDepth (maxCrawlDepth cfg) s)))"

text \<open>Up to the counter of the ticks.\<close>

record crawl_plan =
  cp_hackers :: "addr_row list"
  cp_ts :: time
  cp_cache :: enqueue_cache
  cp_throttled :: bool
  cp_skip :: bool
  cp_tick :: int

definition crawl_start :: "sched_env \<Rightarrow> config \<Rightarrow> int \<Rightarrow> store \<Rightarrow> crawl_plan \<times> store" where
  "crawl_start env cfg reserve s0 =
     (let (hackers, s1) = listHackersCached None False s0; ts = clock s1; ec = loadScheduleEnqueueCache s1;
          skip = scheduleBudgetLow (se_budget env At_crawl) reserve 5;
          (tick, s2) = increment_cron_counter (schedule_sources cfg ec skip ts s1)
      in (\<lparr>cp_hackers = hackers, cp_ts = ts, cp_cache = ec,
           cp_throttled = (ec_depth ec \<ge> queueSoftThrottleDepth cfg), cp_skip = skip, cp_tick = tick\<rparr>, s2))"

definition is_maint_tick :: "config \<Rightarrow> crawl_plan \<Rightarrow> bool" where
  "is_maint_tick cfg pl = every_n (hackerMaintenanceEveryNCrons cfg) (cp_tick pl)"

definition crawl_and_poll :: "sched_env \<Rightarrow> config \<Rightarrow> int \<Rightarrow> crawl_plan \<Rightarrow> store \<Rightarrow> int \<times> int \<times> store" where
  "crawl_and_poll env cfg reserve pl s =
     (if cp_skip pl \<or> cp_throttled pl then (0, 0, s)
      else let (c, t) = crawl_phase cfg (cp_cache pl) (cp_hackers pl)
                          (op_return_phase env cfg reserve (cp_cache pl)
                             (every_n (opReturnBackfillEveryNCrons cfg) (cp_tick pl)) s);
               (p, u) = poll_phase cfg t
           in (c, p, u))"

definition scheduleDownstreamCrawl :: "sched_env \<Rightarrow> config \<Rightarrow> int \<Rightarrow> store \<Rightarrow> crawl_stats \<times> store" where
  "scheduleDownstreamCrawl env cfg reserve s0 =
     (if isRebuildActive cfg None s0 then (empty_crawl, s0)
      else if isD1QuotaBlocked (Some D1_write) s0 then (empty_crawl\<lparr>cs_skipNonCritical := True\<rparr>, s0)
      else
        let (pl, s2) = crawl_start env cfg reserve s0;
            s3 = maintain_phase env cfg reserve (cp_hackers pl) (cp_ts pl) (cp_throttled pl) (is_maint_tick cfg pl) s2;
            (crawled, polled, s4) = crawl_and_poll env cfg reserve pl s3;
            s5 = snd (runScheduledMaintenance cfg (se_late env) (cp_tick pl) (cp_skip pl) False s4)
        in (\<lparr>cs_skipNonCritical = cp_skip pl, cs_crawlEnqueued = crawled, cs_pollEnqueued = polled,
             cs_maintTick = is_maint_tick cfg pl, cs_throttled = cp_throttled pl\<rparr>, refresh_summaries cfg s5))"

end
