(* ===== verification/Quota.thy ===== *)
theory Quota
  imports Maintenance JsDouble
begin

text \<open>
  The daily budgets of the platform: the meter of rows (\<open>packages/db/src/d1RowMeter.ts\<close>), the usage
  columns of the scheduler row (\<open>getQuotaSnapshot\<close>, \<open>flushQuotaUsage\<close> of
  \<open>packages/db/src/store.ts\<close>) and the decision to skip a tick
  (\<open>packages/core/src/quota/dailyPace.ts\<close>).

  A UTC date is its day number. Quotients and products go through \<open>fl\<close>, the rounding to a double;
  \<open>None\<close> stands for an infinite allowance.
\<close>

section \<open>The meter\<close>

record meter =
  m_day :: int
  m_read :: int
  m_written :: int
  m_overRead :: int
  m_overWritten :: int
  m_suppress :: int

definition new_meter :: "int \<Rightarrow> meter" where
  "new_meter day = \<lparr>m_day = day, m_read = 0, m_written = 0, m_overRead = 0, m_overWritten = 0, m_suppress = 0\<rparr>"

definition rolloverIfNeeded :: "time \<Rightarrow> meter \<Rightarrow> bool \<times> meter" where
  "rolloverIfNeeded now m =
     (let today = now div MS_PER_DAY
      in if m_day m = today then (False, m)
         else (True, m\<lparr>m_day := today, m_read := 0, m_written := 0, m_overRead := 0, m_overWritten := 0\<rparr>))"

definition suppress :: "meter \<Rightarrow> meter" where
  "suppress m = m\<lparr>m_suppress := m_suppress m + 1\<rparr>"

definition unsuppress :: "meter \<Rightarrow> meter" where
  "unsuppress m = m\<lparr>m_suppress := max 0 (m_suppress m - 1)\<rparr>"

definition drainOverhead :: "meter \<Rightarrow> (int \<times> int) \<times> meter" where
  "drainOverhead m = ((m_overRead m, m_overWritten m), m\<lparr>m_overRead := 0, m_overWritten := 0\<rparr>)"

definition record_rows :: "int \<Rightarrow> int \<Rightarrow> time \<Rightarrow> meter \<Rightarrow> bool \<times> meter" where
  "record_rows reads writes now m0 =
     (let (rolled, m) = rolloverIfNeeded now m0; r = max 0 reads; w = max 0 writes
      in (rolled,
          if m_suppress m > 0 then m\<lparr>m_overRead := m_overRead m + r, m_overWritten := m_overWritten m + w\<rparr>
          else m\<lparr>m_read := m_read m + r, m_written := m_written m + w\<rparr>))"

section \<open>The usage columns\<close>

text \<open>The values that the snapshot shows.\<close>

record quota_snapshot =
  qs_day :: int
  qs_read :: int
  qs_written :: int
  qs_requests :: int
  qs_readCron :: int
  qs_writtenCron :: int
  qs_requestsCron :: int

definition snapshot_of :: "int \<Rightarrow> quota_row \<Rightarrow> quota_snapshot" where
  "snapshot_of today q = \<lparr>qs_day = or_else (quotaDayUtc q) today, qs_read = d1RowsReadTotal q,
     qs_written = d1RowsWrittenTotal q, qs_requests = workersRequestsTotal q, qs_readCron = d1RowsReadCron q,
     qs_writtenCron = d1RowsWrittenCron q, qs_requestsCron = workersRequestsCron q\<rparr>"

definition getQuotaSnapshot :: "store \<Rightarrow> quota_snapshot \<times> store" where
  "getQuotaSnapshot s =
     (let today = clock s div MS_PER_DAY;
          s1 = (if quotaDayUtc (quota_usage (sched s)) \<noteq> Some today
                then updateSchedulerState (\<lambda>r. r\<lparr>quota_usage := no_usage\<lparr>quotaDayUtc := Some today\<rparr>\<rparr>) s else s)
      in (snapshot_of today (quota_usage (sched s1)), s1))"

definition applyOverhead :: "int \<Rightarrow> int \<Rightarrow> store \<Rightarrow> store" where
  "applyOverhead reads writes s =
     (let r = max 0 reads; w = max 0 writes
      in if r = 0 \<and> w = 0 then s
         else updateSchedulerState (\<lambda>x. x\<lparr>quota_usage := (quota_usage x)\<lparr>
                d1RowsReadTotal := d1RowsReadTotal (quota_usage x) + r,
                d1RowsWrittenTotal := d1RowsWrittenTotal (quota_usage x) + w,
                d1RowsReadOverhead := d1RowsReadOverhead (quota_usage x) + r,
                d1RowsWrittenOverhead := d1RowsWrittenOverhead (quota_usage x) + w\<rparr>\<rparr>) s)"

datatype usage_source = From_cron | From_api

definition add_usage :: "usage_source \<Rightarrow> int \<Rightarrow> int \<Rightarrow> int \<Rightarrow> int \<Rightarrow> int \<Rightarrow> quota_row \<Rightarrow> quota_row" where
  "add_usage src r w q ohR ohW u =
     (let c = (if src = From_cron then 1 else 0)
      in u\<lparr>d1RowsReadTotal := d1RowsReadTotal u + (r + ohR), d1RowsWrittenTotal := d1RowsWrittenTotal u + (w + ohW),
           workersRequestsTotal := workersRequestsTotal u + q,
           d1RowsReadCron := d1RowsReadCron u + c * r, d1RowsWrittenCron := d1RowsWrittenCron u + c * w,
           workersRequestsCron := workersRequestsCron u + c * q,
           d1RowsReadOverhead := d1RowsReadOverhead u + ohR, d1RowsWrittenOverhead := d1RowsWrittenOverhead u + ohW\<rparr>)"

text \<open>
  \<open>flushQuotaUsage\<close>. The rows that its own statements read and write are recorded in the meter as
  overhead: before the update (\<open>before\<close>), by the update itself (\<open>after\<close>) and by the last update
  (\<open>trailing\<close>), whose rows wait for the next flush.
\<close>

definition flushQuotaUsage ::
  "usage_source \<Rightarrow> int \<Rightarrow> int \<Rightarrow> int \<Rightarrow> int \<times> int \<Rightarrow> int \<times> int \<Rightarrow> int \<times> int \<Rightarrow> meter \<times> store \<Rightarrow> meter \<times> store" where
  "flushQuotaUsage src reads writes requests before after trailing ms =
     (let (m, s) = ms; r = max 0 reads; w = max 0 writes; q = max 0 requests
      in if r = 0 \<and> w = 0 \<and> q = 0 then (m, s)
         else
           let m1 = suppress m;
               (snap, s1) = getQuotaSnapshot s;
               m2 = snd (record_rows (fst before) (snd before) (clock s1) m1);
               ((ohR, ohW), m3) = drainOverhead m2;
               s2 = updateSchedulerState (\<lambda>x. x\<lparr>quota_usage := add_usage src r w q ohR ohW (quota_usage x)\<rparr>) s1;
               m4 = snd (record_rows (fst after) (snd after) (clock s2) m3);
               ((tR, tW), m5) = drainOverhead m4;
               m6 = unsuppress m5
           in if tR > 0 \<or> tW > 0
              then (let s3 = applyOverhead tR tW s2
                    in (unsuppress (snd (record_rows (fst trailing) (snd trailing) (clock s3) (suppress m6))), s3))
              else (m6, s2))"

section \<open>Pacing\<close>

definition computeUtcDayProgress :: "time \<Rightarrow> rat" where
  "computeUtcDayProgress now = min 1 (max 0 (fl (of_int (now mod MS_PER_DAY) / of_int MS_PER_DAY)))"

definition computeLinearAllowance :: "rat \<Rightarrow> rat \<Rightarrow> int option" where
  "computeLinearAllowance limit dayProgress = (if limit \<le> 0 then None else Some \<lfloor>fl (limit * dayProgress)\<rfloor>)"

definition cronUtilFraction :: "int \<Rightarrow> rat" where
  "cronUtilFraction pct = min 1 (max 0 (fl (of_int pct / 100)))"

definition hysteresisAmount :: "rat \<Rightarrow> rat \<Rightarrow> int" where
  "hysteresisAmount limit pct =
     (if limit \<le> 0 then 0 else max 1 \<lfloor>fl (limit * min (fl (1 / 10)) (max 0 pct))\<rfloor>)"

definition isAheadOfAllowance :: "int \<Rightarrow> int option \<Rightarrow> rat \<Rightarrow> rat \<Rightarrow> bool" where
  "isAheadOfAllowance used allowance limit pct =
     (case allowance of None \<Rightarrow> False | Some a \<Rightarrow> used \<ge> a + hysteresisAmount limit pct)"

datatype pace_reason =
  Account_reads | Account_writes | Account_requests | Cron_reads | Cron_writes | Cron_requests

record daily_limits =
  dl_reads :: int
  dl_writes :: int
  dl_requests :: int

text \<open>The reason of the first check that holds; \<open>None\<close> is not paced.\<close>

definition pace_checks :: "quota_snapshot \<Rightarrow> daily_limits \<Rightarrow> int \<Rightarrow> time \<Rightarrow> (bool \<times> pace_reason) list" where
  "pace_checks q lims pct now =
     (let p = computeUtcDayProgress now; h = fl (1 / 100); frac = cronUtilFraction pct;
          ahead = (\<lambda>used limit. isAheadOfAllowance used (computeLinearAllowance limit p) limit h)
      in [(ahead (qs_read q) (of_int (dl_reads lims)), Account_reads),
          (ahead (qs_written q) (of_int (dl_writes lims)), Account_writes),
          (ahead (qs_requests q) (of_int (dl_requests lims)), Account_requests),
          (ahead (qs_readCron q) (fl (of_int (dl_reads lims) * frac)), Cron_reads),
          (ahead (qs_writtenCron q) (fl (of_int (dl_writes lims) * frac)), Cron_writes),
          (ahead (qs_requestsCron q) (fl (of_int (dl_requests lims) * frac)), Cron_requests)])"

definition shouldPaceCron :: "quota_snapshot \<Rightarrow> daily_limits \<Rightarrow> int \<Rightarrow> time \<Rightarrow> pace_reason option" where
  "shouldPaceCron q lims pct now = map_option snd (List.find fst (pace_checks q lims pct now))"

end
