(* ===== verification/Tick.thy ===== *)
theory Tick
  imports Crawl Quota
begin

text \<open>
  One tick of the indexer (\<open>packages/core/src/indexer/tick.ts\<close>) and the scheduled handler around it
  (\<open>packages/api/src/workerCron.ts\<close>): pause, pacing, lease, reclaim, tick, release, usage.

  The body of a job is a parameter, as in \<open>ProcessJobs\<close>; the budget when the tick is planned and when
  the loop starts, and the rows that the database says the tick has used, are the environment. Log
  output is left out.
\<close>

section \<open>The tick\<close>

definition runSchedulePhase :: "sched_env \<Rightarrow> config \<Rightarrow> store \<Rightarrow> (price_mode \<times> crawl_stats) \<times> store" where
  "runSchedulePhase env cfg s =
     (let reserve = scheduleSubrequestReserveFor cfg (maintenanceCronCounter (sched s) + 1);
          (price, s1) = scheduleBtcUsdPriceRefresh env cfg reserve s;
          (stats, s2) = scheduleDownstreamCrawl env cfg reserve s1
      in ((price, stats), s2))"

record tick_env =
  te_sched :: sched_env
  te_plan :: budget
  te_loop :: budget

record tick_result =
  tr_scheduled :: bool
  tr_jobs :: int
  tr_stop :: stop_reason

text \<open>After the jobs, the schedule phase runs when enough of the budget is left.\<close>

definition budget_above :: "int \<Rightarrow> budget option \<Rightarrow> bool" where
  "budget_above n b =
     (case b of Some x \<Rightarrow> (case remaining x of Some r \<Rightarrow> r > n | None \<Rightarrow> True) | None \<Rightarrow> True)"

definition drain_tick ::
  "tick_env \<Rightarrow> config \<Rightarrow> job_body \<Rightarrow> bool \<Rightarrow> time option \<Rightarrow> int \<Rightarrow> job list \<Rightarrow> store \<Rightarrow> tick_result \<times> store" where
  "drain_tick env cfg run schedule deadline cap cands s =
     (let ((n, why), ls) = processJobs cfg run deadline (Some cap) (Some cands) (Some (te_loop env)) s
      in (\<lparr>tr_scheduled = schedule, tr_jobs = n, tr_stop = why\<rparr>,
          if schedule \<and> budget_above (scheduleSubrequestReserve cfg) (ls_budget ls)
          then snd (runSchedulePhase (te_sched env) cfg (ls_store ls)) else ls_store ls))"

definition schedule_tick ::
  "tick_env \<Rightarrow> config \<Rightarrow> job_body \<Rightarrow> bool \<Rightarrow> time option \<Rightarrow> int \<Rightarrow> store \<Rightarrow> tick_result \<times> store" where
  "schedule_tick env cfg run schedule deadline cap s =
     (let t = (if schedule then snd (runSchedulePhase (te_sched env) cfg s) else s);
          ((n, why), ls) = processJobs cfg run deadline (Some cap) None (Some (te_loop env)) t
      in (\<lparr>tr_scheduled = schedule, tr_jobs = n, tr_stop = why\<rparr>, ls_store ls))"

definition runIndexerTick ::
  "tick_env \<Rightarrow> config \<Rightarrow> job_body \<Rightarrow> bool \<Rightarrow> store \<Rightarrow> tick_result \<times> store" where
  "runIndexerTick env cfg run schedule s0 =
     (let s1 = clearExpiredD1QuotaPause s0
      in if isD1QuotaBlocked None s1 then (\<lparr>tr_scheduled = schedule, tr_jobs = 0, tr_stop = Idle\<rparr>, s1)
         else
           let s = (if schedule then snd (maybeRefreshHackStatsDaily s1) else s1);
               queueDepth = getPendingQueueDepthAll s; cands = listPendingIngestCandidates 32 s;
               continuation = (schedule \<and> (\<exists>j\<in>set cands. isIngestContinuation (payloadJson j)));
               cap = jobsCap (planTickJobs cfg queueDepth cands (Some (te_plan env)));
               deadline = Some (clock s + tickBudgetMs cfg)
           in if shouldDrainBeforeSchedule continuation queueDepth (queueDrainFirstDepth cfg)
              then drain_tick env cfg run schedule deadline cap cands s
              else schedule_tick env cfg run schedule deadline cap s)"

section \<open>The scheduled handler\<close>

definition TICK_LEASE_SKEW_MS :: int where
  "TICK_LEASE_SKEW_MS = 10000"

definition quotaLimits :: "config \<Rightarrow> daily_limits" where
  "quotaLimits cfg = \<lparr>dl_reads = d1ReadDailyLimit cfg, dl_writes = d1WriteDailyLimit cfg,
     dl_requests = workersRequestDailyLimit cfg\<rparr>"

record cron_env =
  ce_tick :: tick_env
  ce_rows :: "int \<times> int" \<comment> \<open>rows read and written by the tick\<close>
  ce_before :: "int \<times> int" \<comment> \<open>rows of the flush: before, by and after its update\<close>
  ce_after :: "int \<times> int"
  ce_trailing :: "int \<times> int"

definition leased_tick :: "tick_env \<Rightarrow> config \<Rightarrow> job_body \<Rightarrow> store \<Rightarrow> store" where
  "leased_tick env cfg run s =
     (let (s1, n, d) = resetRunningJobs (runningJobStaleMs cfg) (Some (jobReclaimDeferAfter cfg))
                         (Some (jobReclaimDeferSec cfg)) s
      in clearTickLease (snd (runIndexerTick env cfg run True s1)))"

definition cron_body :: "tick_env \<Rightarrow> config \<Rightarrow> job_body \<Rightarrow> store \<Rightarrow> store" where
  "cron_body env cfg run s =
     (if cronIndexerPaused (sched s) then s
      else
        let (snap, s1) = getQuotaSnapshot s
        in if shouldPaceCron snap (quotaLimits cfg) (cronQuotaUtilizationPct cfg) (clock s1) \<noteq> None then s1
           else case tryAcquireTickLease (tickBudgetMs cfg + TICK_LEASE_SKEW_MS) s1 of
                  (False, s2) \<Rightarrow> s2
                | (True, s2) \<Rightarrow> leased_tick env cfg run s2)"

definition flushCronQuota ::
  "int \<times> int \<Rightarrow> int \<times> int \<Rightarrow> int \<times> int \<Rightarrow> int \<times> int \<Rightarrow> meter \<times> store \<Rightarrow> meter \<times> store" where
  "flushCronQuota start before after trailing ms =
     (let m = snd (rolloverIfNeeded (clock (snd ms)) (fst ms))
      in flushQuotaUsage From_cron (m_read m - fst start) (m_written m - snd start) 1 before after trailing (m, snd ms))"

definition runCronScheduled :: "cron_env \<Rightarrow> config \<Rightarrow> job_body \<Rightarrow> meter \<times> store \<Rightarrow> meter \<times> store" where
  "runCronScheduled env cfg run ms =
     (let m0 = snd (rolloverIfNeeded (clock (snd ms)) (fst ms));
          s1 = cron_body (ce_tick env) cfg run (snd ms);
          m1 = snd (record_rows (fst (ce_rows env)) (snd (ce_rows env)) (clock s1) m0)
      in flushCronQuota (m_read m0, m_written m0) (ce_before env) (ce_after env) (ce_trailing env) (m1, s1))"

end
