(* ===== verification/MaintenanceProps.thy ===== *)
theory MaintenanceProps
  imports Maintenance JobFrame JobReach
begin

text \<open>
  What housekeeping deletes and what it reports, and that the recounts repair every counter.
\<close>

section \<open>An example\<close>

text \<open>Ten days later: one old done job, one stale rate limit, one sync row without its address.\<close>

definition demo_house :: store where
  "demo_house = demo_store\<lparr>clock := 1000 + 10 * MS_PER_DAY,
     rate_limits := [\<lparr>rl_key = ''ip'', windowStart = 1000, rl_count = 1\<rparr>],
     sync_state := [new_sync_row ''gone'']\<rparr>"

definition demo_prune_opts :: batch_opts where
  "demo_prune_opts = \<lparr>bo_batchSize = 5, bo_maxBatches = 3, bo_maxPerRun = None, bo_remainingBatches = None,
     bo_remainingWrites = None\<rparr>"

lemma demo_house_invs: "jobs_inv demo_house" "addr_inv demo_house" "distinct (map job_id (jobs demo_house))"
proof -
  have "jobs_inv demo_store" by (rule job_reach_inv[OF demo_reach])
  then show j: "jobs_inv demo_house" by (rule jobs_inv_frame) (simp_all add: demo_house_def)
  have "addresses demo_house = []" "tree_depth demo_house = 0"
    "(cv CrawlPending demo_house, cv VictimC demo_house, cv CrawlExpanded demo_house, cv HackerActive demo_house) = (0, 0, 0, 0)"
    by code_simp+
  then show "addr_inv demo_house" by (simp add: addr_inv_def addr_counted_def exact_count_def del: counter_val.simps)
  show "distinct (map job_id (jobs demo_house))" by (rule jobs_invD(1)[OF j])
qed

section \<open>Batches\<close>

text \<open>From \<open>s\<close> to \<open>s'\<close>, \<open>n\<close> jobs were deleted, all of them with \<open>P\<close>, and nothing else changed.\<close>

definition jobs_deleted :: "(job \<Rightarrow> bool) \<Rightarrow> store \<Rightarrow> store \<Rightarrow> int \<Rightarrow> bool" where
  "jobs_deleted P s s' n \<longleftrightarrow> (\<exists>Q. s' = s\<lparr>jobs := filter Q (jobs s)\<rparr> \<and> (\<forall>j\<in>set (jobs s). \<not> Q j \<longrightarrow> P j)) \<and>
     n = int (length (jobs s)) - int (length (jobs s'))"

lemma jobs_deleted_none: "jobs_deleted P s s 0"
  unfolding jobs_deleted_def by (intro conjI exI[of _ "\<lambda>_. True"]) simp_all

lemma jobs_deleted_trans: "jobs_deleted P s t m \<Longrightarrow> jobs_deleted P t u n \<Longrightarrow> jobs_deleted P s u (m + n)"
  unfolding jobs_deleted_def
proof (elim conjE exE, intro conjI)
  fix Q Q' assume q: "t = s\<lparr>jobs := filter Q (jobs s)\<rparr>" "\<forall>j\<in>set (jobs s). \<not> Q j \<longrightarrow> P j"
    "u = t\<lparr>jobs := filter Q' (jobs t)\<rparr>" "\<forall>j\<in>set (jobs t). \<not> Q' j \<longrightarrow> P j"
  show "\<exists>Q. u = s\<lparr>jobs := filter Q (jobs s)\<rparr> \<and> (\<forall>j\<in>set (jobs s). \<not> Q j \<longrightarrow> P j)"
    by (rule exI[of _ "\<lambda>j. Q' j \<and> Q j"]) (use q in \<open>auto simp: conj_commute\<close>)
qed simp

lemma batch_ids_facts:
  "set (batch_ids n xs) \<subseteq> set xs" "distinct xs \<Longrightarrow> distinct (batch_ids n xs)" "batch_ids n xs = [] \<longleftrightarrow> xs = []"
  by (auto simp: batch_ids_def dest: in_set_takeD)

lemma sort_key_empty: "sort_key f xs = [] \<longleftrightarrow> xs = []"
  by (metis set_empty set_sort)

lemma length_filter_keys:
  assumes "distinct (map f xs)" and "distinct ks" and "set ks \<subseteq> f ` set xs"
  shows "int (length (filter (\<lambda>x. f x \<notin> set ks) xs)) = int (length xs) - int (length ks)"
proof -
  let ?ys = "filter (\<lambda>x. f x \<in> set ks) xs"
  have d: "distinct (map f ?ys)" using assms(1) by (rule distinct_map_filter)
  have "set (map f ?ys) = set ks" using assms(3) by auto
  then have "length ?ys = length ks" using distinct_card[OF d] distinct_card[OF assms(2)] by simp
  then show ?thesis using sum_length_filter_compl[of "\<lambda>x. f x \<in> set ks" xs] by linarith
qed

lemma pruneDoneJobsBatch_spec:
  assumes "distinct (map job_id (jobs s))" and "pruneDoneJobsBatch n c s = (m, s')"
  shows "jobs_deleted (expired_done c) s s' m" and "(m = 0) = (\<forall>j\<in>set (jobs s). \<not> expired_done c j)" and "0 \<le> m"
proof -
  let ?ks = "map job_id (sort_key (\<lambda>j. or_else (completedAt j) 0) (filter (expired_done c) (jobs s)))"
  let ?ids = "batch_ids n ?ks"
  have m: "m = int (length ?ids)" and s': "s' = s\<lparr>jobs := filter (\<lambda>j. job_id j \<notin> set ?ids) (jobs s)\<rparr>"
    using assms(2) by (simp_all add: pruneDoneJobsBatch_def Let_def)
  have "mset ?ks = mset (map job_id (filter (expired_done c) (jobs s)))" by simp
  then have dk: "distinct ?ks"
    using distinct_map_filter[OF assms(1)] by (metis mset_eq_imp_distinct_iff)
  have sub: "set ?ids \<subseteq> job_id ` {j \<in> set (jobs s). expired_done c j}" using batch_ids_facts(1)[of n ?ks] by auto
  have k: "expired_done c j" if jin: "j \<in> set (jobs s)" and jid: "job_id j \<in> set ?ids" for j
  proof -
    obtain j' where j': "j' \<in> set (jobs s)" "expired_done c j'" "job_id j = job_id j'" using sub jid by blast
    then show ?thesis using assms(1) jin by (auto simp: distinct_map inj_on_def)
  qed
  have sub2: "set ?ids \<subseteq> job_id ` set (jobs s)" using sub by blast
  have len: "int (length (jobs s')) = int (length (jobs s)) - int (length ?ids)"
    unfolding s' using length_filter_keys[OF assms(1) batch_ids_facts(2)[OF dk, of n] sub2] by simp
  have ex: "s' = s\<lparr>jobs := filter (\<lambda>j. job_id j \<notin> set ?ids) (jobs s)\<rparr> \<and>
      (\<forall>j\<in>set (jobs s). \<not> job_id j \<notin> set ?ids \<longrightarrow> expired_done c j)" using k s' by blast
  show "jobs_deleted (expired_done c) s s' m"
    unfolding jobs_deleted_def
  proof (rule conjI)
    show "m = int (length (jobs s)) - int (length (jobs s'))" unfolding len m by simp
    show "\<exists>Q. s' = s\<lparr>jobs := filter Q (jobs s)\<rparr> \<and> (\<forall>j\<in>set (jobs s). \<not> Q j \<longrightarrow> expired_done c j)"
      by (rule exI, rule ex)
  qed
  show "(m = 0) = (\<forall>j\<in>set (jobs s). \<not> expired_done c j)"
    using batch_ids_facts(3)[of n ?ks] by (simp add: m sort_key_empty filter_empty_conv)
  show "0 \<le> m" by (simp add: m)
qed

lemma jobs_deleted_distinct: "jobs_deleted P s s' n \<Longrightarrow> distinct (map job_id (jobs s)) \<Longrightarrow> distinct (map job_id (jobs s'))"
  by (auto simp: jobs_deleted_def intro: distinct_map_filter)

lemma run_prune_jobs:
  assumes "distinct (map job_id (jobs s))"
    and "run_batches halt (pruneDoneJobsBatch bsize c) k b n s = ((n', b', fin), s')"
  shows "jobs_deleted (expired_done c) s s' (n' - n)" and "fin \<Longrightarrow> \<forall>j\<in>set (jobs s'). \<not> expired_done c j"
    and "b \<le> b'" "b' \<le> b + int k" "n \<le> n'"
proof -
  have "jobs_deleted (expired_done c) s s' (n' - n) \<and> (fin \<longrightarrow> (\<forall>j\<in>set (jobs s'). \<not> expired_done c j)) \<and>
      b \<le> b' \<and> b' \<le> b + int k \<and> n \<le> n'"
    using assms
  proof (induction k arbitrary: b n s)
    case 0
    then show ?case by (simp add: jobs_deleted_none)
  next
    case (Suc k)
    obtain m s1 where st: "pruneDoneJobsBatch bsize c s = (m, s1)" by fastforce
    note sp = pruneDoneJobsBatch_spec[OF Suc.prems(1) st]
    show ?case
    proof (cases "halt b n")
      case True
      then show ?thesis using Suc.prems(2) by (simp add: jobs_deleted_none)
    next
      case False
      show ?thesis
      proof (cases "m = 0")
        case True
        then have "s1 = s'" "n' = n" "b' = b + 1" using Suc.prems(2) False st by simp_all
        moreover have "set (jobs s1) \<subseteq> set (jobs s)" using sp(1) by (auto simp: jobs_deleted_def)
        ultimately show ?thesis using sp True by auto
      next
        case nz: False
        then have "run_batches halt (pruneDoneJobsBatch bsize c) k (b + 1) (n + m) s1 = ((n', b', fin), s')"
          using Suc.prems(2) False st by simp
        from Suc.IH[OF jobs_deleted_distinct[OF sp(1) Suc.prems(1)] this] show ?thesis
          using jobs_deleted_trans[OF sp(1), of s' "n' - (n + m)"] sp(3) by auto
      qed
    qed
  qed
  then show "jobs_deleted (expired_done c) s s' (n' - n)" "fin \<Longrightarrow> \<forall>j\<in>set (jobs s'). \<not> expired_done c j"
    "b \<le> b'" "b' \<le> b + int k" "n \<le> n'" by auto
qed

lemma pruneDoneJobs_deletes:
  assumes "distinct (map job_id (jobs s))" and "pruneDoneJobs late op days s = (r, s')"
  shows "jobs_deleted (expired_done (retentionCutoff days s)) s s' (br_affected r)"
    and "br_complete r \<Longrightarrow> \<forall>j\<in>set (jobs s'). \<not> expired_done (retentionCutoff days s) j"
proof -
  let ?c = "retentionCutoff days s"
  let ?halt = "\<lambda>b n. n \<ge> or_else (bo_maxPerRun op) 10000 \<or> batch_stop late op b \<or>
                        (case bo_remainingWrites op of Some m \<Rightarrow> m - n \<le> 0 | None \<Rightarrow> False)"
  obtain n b fin s1 where rb: "run_batches ?halt (pruneDoneJobsBatch (bo_batchSize op) ?c) (nat (bo_maxBatches op)) 0 0 s = ((n, b, fin), s1)"
    by (cases "run_batches ?halt (pruneDoneJobsBatch (bo_batchSize op) ?c) (nat (bo_maxBatches op)) 0 0 s", cases "fst (run_batches ?halt (pruneDoneJobsBatch (bo_batchSize op) ?c) (nat (bo_maxBatches op)) 0 0 s)") simp
  note sp = run_prune_jobs[OF assms(1) rb]
  have del: "jobs_deleted (expired_done ?c) s s' (br_affected r) \<and> (br_complete r \<longrightarrow> (\<forall>j\<in>set (jobs s'). \<not> expired_done ?c j))"
  proof (cases fin)
    case True
    then show ?thesis using sp assms(2) rb by (auto simp: pruneDoneJobs_def Let_def)
  next
    case False
    obtain tl s2 where t: "pruneDoneJobsBatch 1 ?c s1 = (tl, s2)" by fastforce
    note ts = pruneDoneJobsBatch_spec[OF jobs_deleted_distinct[OF sp(1) assms(1)] t]
    have r: "s' = s2" "br_affected r = n + tl" "br_complete r = (tl = 0)"
      using assms(2) rb False t by (auto simp: pruneDoneJobs_def Let_def)
    have "set (jobs s2) \<subseteq> set (jobs s1)" using ts(1) by (auto simp: jobs_deleted_def)
    then show ?thesis using jobs_deleted_trans[OF sp(1) ts(1)] ts(2) r by auto
  qed
  then show "jobs_deleted (expired_done ?c) s s' (br_affected r)" "br_complete r \<Longrightarrow> \<forall>j\<in>set (jobs s'). \<not> expired_done ?c j"
    by blast+
qed

text \<open>
  C29: pruning the job table deletes done jobs past their retention, and nothing else: pending,
  running and recent jobs and every other table stay as they are, it reports exactly the number of
  rows that it deleted, and when it says that it is complete no such job is left.
\<close>

theorem pruneDoneJobs_only_expired:
  assumes "distinct (map job_id (jobs s))" and "pruneDoneJobs late op days s = (r, s')"
  shows "(\<exists>Q. s' = s\<lparr>jobs := filter Q (jobs s)\<rparr> \<and>
            (\<forall>j\<in>set (jobs s). \<not> Q j \<longrightarrow> expired_done (clock s - max 1 days * MS_PER_DAY) j)) \<and>
    br_affected r = int (length (jobs s)) - int (length (jobs s')) \<and>
    (br_complete r \<longrightarrow> countPruneableDoneJobs days s' = 0)"
proof -
  note del = pruneDoneJobs_deletes[OF assms]
  have "clock s' = clock s" using del(1) by (auto simp: jobs_deleted_def)
  then have "br_complete r \<longrightarrow> countPruneableDoneJobs days s' = 0"
    using del(2) by (simp add: countPruneableDoneJobs_def retentionCutoff_def count_rows_zero)
  then show ?thesis using del(1) by (auto simp: jobs_deleted_def retentionCutoff_def)
qed

theorem pruneDoneJobs_only_expired_witness:
  "br_affected (fst (pruneDoneJobs (\<lambda>b. False) demo_prune_opts 3 demo_house)) = 1 \<and>
   length (jobs demo_house) = 3 \<and> length (jobs (snd (pruneDoneJobs (\<lambda>b. False) demo_prune_opts 3 demo_house))) = 2 \<and>
   countPruneableDoneJobs 3 (snd (pruneDoneJobs (\<lambda>b. False) demo_prune_opts 3 demo_house)) = 0"
proof -
  obtain r u where e: "pruneDoneJobs (\<lambda>b. False) demo_prune_opts 3 demo_house = (r, u)" by fastforce
  have v: "br_affected (fst (pruneDoneJobs (\<lambda>b. False) demo_prune_opts 3 demo_house)) = 1"
    "br_complete (fst (pruneDoneJobs (\<lambda>b. False) demo_prune_opts 3 demo_house))" "length (jobs demo_house) = 3"
    by code_simp+
  from pruneDoneJobs_only_expired[OF demo_house_invs(3) e] show ?thesis using v unfolding e by simp
qed

section \<open>Recounts\<close>

lemma active_recount:
  "count_active_of Expand_downstream s = count_rows (job_counted ActiveExpand) (jobs s)"
  "count_active_of Backfill_hacker_address s = count_rows (job_counted ActiveBackfill) (jobs s)"
  "count_active_of Audit_hacker_backfill s = count_rows (job_counted ActiveAudit) (jobs s)"
  "count_active_of Process_tx s = count_rows (job_counted ActiveProcessTx) (jobs s)"
  unfolding count_active_of_def
  by (rule count_rows_cong, simp, case_tac "job_kind r"; simp)+

lemma pending_recount: "count_rows (job_counted PendingJob) js = count_rows is_pending js"
  by (rule count_rows_cong) simp

lemma tree_recount: "count_tree d s = count_rows (addr_pred d DownstreamTree) (addresses s)"
  unfolding count_tree_def by (rule count_rows_cong) (simp add: isDownstreamTreeNode_def)

text \<open>What the recount writes, counter by counter.\<close>

lemma recount_frame:
  "hackerPollIndex (sched (reconcileStatsCounters s)) = hackerPollIndex (sched s)"
  "maintenanceCronCounter (sched (reconcileStatsCounters s)) = maintenanceCronCounter (sched s)"
  "jobs (reconcileStatsCounters s) = jobs s" "job_seq (reconcileStatsCounters s) = job_seq s"
  "addresses (reconcileStatsCounters s) = addresses s" "edges (reconcileStatsCounters s) = edges s"
  "tree_depth (reconcileStatsCounters s) = tree_depth s" "clock (reconcileStatsCounters s) = clock s"
  "transactions (reconcileStatsCounters s) = transactions s" "sync_state (reconcileStatsCounters s) = sync_state s"
  by (simp_all add: reconcileStatsCounters_def reconcileHackStats_def reconcileCheapCounters_def
    reconcileActiveJobCounts_def reconcilePendingJobCount_def reconcileCrawlPendingCount_def tree_depth_def Let_def)

lemma recount_values:
  "k \<in> set job_counters \<Longrightarrow> cv k (reconcileStatsCounters s) = count_rows (job_counted k) (jobs s)"
  "k \<in> {CrawlPending, VictimC, CrawlExpanded, HackerActive, DownstreamTree} \<Longrightarrow>
     cv k (reconcileStatsCounters s) = count_rows (addr_pred (tree_depth s) k) (addresses s)"
proof -
  assume "k \<in> set job_counters"
  then show "cv k (reconcileStatsCounters s) = count_rows (job_counted k) (jobs s)"
    by (auto simp: job_counters_def reconcileStatsCounters_def reconcileHackStats_def reconcileCheapCounters_def
      reconcileActiveJobCounts_def reconcilePendingJobCount_def reconcileCrawlPendingCount_def Let_def
      active_recount[symmetric] count_active_of_def pending_recount simp del: job_counted.simps)
next
  assume "k \<in> {CrawlPending, VictimC, CrawlExpanded, HackerActive, DownstreamTree}"
  then show "cv k (reconcileStatsCounters s) = count_rows (addr_pred (tree_depth s) k) (addresses s)"
    by (auto simp: reconcileStatsCounters_def reconcileHackStats_def reconcileCheapCounters_def tree_recount
      reconcileActiveJobCounts_def reconcilePendingJobCount_def reconcileCrawlPendingCount_def tree_depth_def Let_def
      isCrawlPendingEligible_def isExpandedStatus_def isHackerActive_def isDownstreamTreeNode_def
      intro!: count_rows_cong)
qed

lemma recount_invs:
  "ids_ok s \<Longrightarrow> jobs_inv (reconcileStatsCounters s)"
  "distinct (map address_of (addresses s)) \<Longrightarrow> addr_inv (reconcileStatsCounters s)"
proof -
  show "jobs_inv (reconcileStatsCounters s)" if "ids_ok s"
    using that ids_ok_cong[OF recount_frame(3,4)]
    by (intro jobs_invI) (simp_all add: exact_count_def recount_values recount_frame(3) del: counter_val.simps job_counted.simps)
  have "addr_counted s \<subseteq> {CrawlPending, VictimC, CrawlExpanded, HackerActive, DownstreamTree}" for s
    by (auto simp: addr_counted_def)
  then show "addr_inv (reconcileStatsCounters s)" if "distinct (map address_of (addresses s))"
    unfolding addr_inv_def exact_count_def using that recount_values(2)[of _ s] by (auto simp: recount_frame subset_iff)
qed

lemma count_rows_card: "distinct xs \<Longrightarrow> count_rows P xs = int (card {x \<in> set xs. P x})"
proof (induction xs)
  case (Cons x xs)
  have "{y \<in> set (x # xs). P y} = (if P x then insert x {y \<in> set xs. P y} else {y \<in> set xs. P y})" by auto
  then show ?case using Cons by (auto simp: b2i_def)
qed (simp add: count_rows_Nil)

text \<open>The victims of the flagged hackers of a group, read from the edges.\<close>

definition victims_of_hack :: "string \<Rightarrow> store \<Rightarrow> address set" where
  "victims_of_hack h s = {fromAddress e | e a. e \<in> set (edges s) \<and> direction_of e = In_to_hacker \<and>
     a \<in> set (addresses s) \<and> address_of a = toAddress e \<and> isFlaggedHacker a \<and> hackId a = h}"

lemma traced_victims_set: "distinct (traced_victims s)" "(h, v) \<in> set (traced_victims s) \<longleftrightarrow> v \<in> victims_of_hack h s"
  unfolding traced_victims_def by (auto simp: set_uniq distinct_uniq victims_of_hack_def split: if_splits)

lemma traced_victims_count: "count_rows (\<lambda>(h', v). h' = h) (traced_victims s) = int (card (victims_of_hack h s))"
proof -
  have "{x \<in> set (traced_victims s). case x of (h', v) \<Rightarrow> h' = h} = Pair h ` victims_of_hack h s"
    using traced_victims_set(2)[of _ _ s] by (auto simp: image_iff)
  then show ?thesis by (simp add: count_rows_card traced_victims_set(1) card_image inj_on_def)
qed

lemma ensured_rows:
  "fst ` set (fold ensureHackStatsRow ids m) = set ids \<union> fst ` set m"
  by (induction ids arbitrary: m) (auto simp: ensureHackStatsRow_def map_of_eq_None_iff)

lemma map_of_recount: "h \<in> fst ` set m \<Longrightarrow> map_of (map (\<lambda>(k, r). (k, f k)) m) h = Some (f h)"
  by (induction m) auto

lemma foldl_max_Max: "foldl max (x :: int) xs = Max (insert x (set xs))"
proof (induction xs arbitrary: x)
  case (Cons y ys)
  have "Max (insert x (insert y (set ys))) = Max (insert (max x y) (set ys))"
    by (cases "ys = []") (simp_all add: max.assoc)
  then show ?case using Cons[of "max x y"] by simp
qed simp

lemma max_hop_Max:
  "max_downstream_hop s = (let H = {k. \<exists>r\<in>set (addresses s). role_of r = Downstream \<and> hopFromHacker r = Some k}
     in if H = {} then 0 else Max H)"
proof -
  let ?hs = "List.map_filter hopFromHacker (filter (\<lambda>r. role_of r = Downstream) (addresses s))"
  have "set ?hs = {k. \<exists>r\<in>set (addresses s). role_of r = Downstream \<and> hopFromHacker r = Some k}"
    by (force simp: List.map_filter_def image_iff)
  then show ?thesis
    unfolding max_downstream_hop_def Let_def by (cases ?hs) (auto simp: foldl_max_Max)
qed

lemma recount_stats_rows:
  assumes "h \<in> set HACK_STAT_IDS \<union> fst ` set (hack_stats s)"
  shows "map_of (hack_stats (reconcileStatsCounters s)) h = Some
    \<lparr>hs_victimCount = int (card (victims_of_hack h s)),
     hs_hackerCount = count_rows (\<lambda>a. hackId a = h \<and> isFlaggedHacker a \<and> totalReceivedSats a > 0) (addresses s),
     hs_totalInSats = (\<Sum>a\<leftarrow>addresses s. if hackId a = h \<and> isFlaggedHacker a then totalReceivedSats a else 0)\<rparr>"
proof -
  let ?c = "reconcileCheapCounters s"
  have c: "addresses ?c = addresses s" "edges ?c = edges s" "hack_stats ?c = hack_stats s"
    by (simp_all add: reconcileCheapCounters_def reconcileActiveJobCounts_def reconcilePendingJobCount_def
      reconcileCrawlPendingCount_def Let_def)
  have t: "traced_victims ?c = traced_victims s" unfolding traced_victims_def c by simp
  have "hack_stats (reconcileStatsCounters s) = map (\<lambda>(k, r). (k, recounted_stats (?c\<lparr>hack_victims := traced_victims ?c\<rparr>) k))
      (fold ensureHackStatsRow HACK_STAT_IDS (hack_stats s))"
    by (simp add: reconcileStatsCounters_def reconcileHackStats_def Let_def c)
  moreover have "h \<in> fst ` set (fold ensureHackStatsRow HACK_STAT_IDS (hack_stats s))" using assms by (simp add: ensured_rows)
  ultimately show ?thesis
    using map_of_recount[of h "fold ensureHackStatsRow HACK_STAT_IDS (hack_stats s)"]
    by (simp add: recounted_stats_def traced_victims_count t c)
qed

text \<open>
  C30: the daily recount repairs the counters: whatever they were before, afterwards every maintained
  counter of the jobs and of the addresses has the value that counting the rows returns; the statistics
  of each group of hackers are its distinct victims read from the edges, its hackers that have received
  something and the sum they received; the greatest hop is that of the downstream rows, and 0 without
  any; and no row has changed. It asks only that ids and addresses are the keys of their tables.
\<close>

theorem reconcileStatsCounters_repairs:
  assumes "ids_ok s" and "distinct (map address_of (addresses s))"
  shows "jobs_inv (reconcileStatsCounters s) \<and> addr_inv (reconcileStatsCounters s) \<and>
    jobs (reconcileStatsCounters s) = jobs s \<and> addresses (reconcileStatsCounters s) = addresses s \<and>
    edges (reconcileStatsCounters s) = edges s \<and>
    (\<forall>h\<in>set HACK_STAT_IDS \<union> fst ` set (hack_stats s). \<exists>r. map_of (hack_stats (reconcileStatsCounters s)) h = Some r \<and>
       hs_victimCount r = int (card (victims_of_hack h s)) \<and>
       hs_hackerCount r = count_rows (\<lambda>a. hackId a = h \<and> isFlaggedHacker a \<and> totalReceivedSats a > 0) (addresses s) \<and>
       hs_totalInSats r = (\<Sum>a\<leftarrow>filter (\<lambda>a. hackId a = h \<and> isFlaggedHacker a) (addresses s). totalReceivedSats a)) \<and>
    (let hops = {k. \<exists>a\<in>set (addresses s). role_of a = Downstream \<and> hopFromHacker a = Some k}
     in crawlMaxHopReached (sched (reconcileStatsCounters s)) = (if hops = {} then 0 else Max hops))"
proof -
  have a: "addresses (reconcileHackStats (reconcileCheapCounters s)) = addresses s"
    by (simp add: reconcileHackStats_def reconcileCheapCounters_def reconcileActiveJobCounts_def reconcilePendingJobCount_def
      reconcileCrawlPendingCount_def Let_def)
  have "crawlMaxHopReached (sched (reconcileStatsCounters s)) = max_downstream_hop (reconcileHackStats (reconcileCheapCounters s))"
    by (simp add: reconcileStatsCounters_def Let_def)
  moreover have "max_downstream_hop (reconcileHackStats (reconcileCheapCounters s)) = max_downstream_hop s"
    by (simp add: max_downstream_hop_def a)
  ultimately show ?thesis
    using recount_invs assms by (simp add: recount_frame recount_stats_rows max_hop_Max sum_list_map_filter' Let_def)
qed

text \<open>A count of 77 pending jobs in a store with none, and an out-of-date row of statistics.\<close>

definition drifted_house :: store where
  "drifted_house = demo_house\<lparr>sched := (sched demo_house)\<lparr>pendingJobCount := 77, crawlMaxHopReached := 9\<rparr>,
     hack_stats := [(''coldcard'', \<lparr>hs_victimCount = 5, hs_hackerCount = 5, hs_totalInSats = 5\<rparr>)]\<rparr>"

theorem reconcileStatsCounters_repairs_witness:
  "pendingJobCount (sched drifted_house) = 77 \<and> jobs_inv (reconcileStatsCounters drifted_house) \<and>
   (\<exists>r. map_of (hack_stats (reconcileStatsCounters drifted_house)) ''coldcard'' = Some r \<and>
      hs_hackerCount r = count_rows (\<lambda>a. hackId a = ''coldcard'' \<and> isFlaggedHacker a \<and> totalReceivedSats a > 0) (addresses demo_house))"
proof -
  have "ids_ok drifted_house" "distinct (map address_of (addresses drifted_house))"
    using demo_house_invs(1,2) by (auto simp: drifted_house_def jobs_inv_def addr_inv_def ids_ok_def)
  note r = reconcileStatsCounters_repairs[OF this]
  have "pendingJobCount (sched drifted_house) = 77" "addresses drifted_house = addresses demo_house"
    by (simp_all add: drifted_house_def)
  moreover have "''coldcard'' \<in> set HACK_STAT_IDS" by (simp add: HACK_STAT_IDS_def)
  ultimately show ?thesis using conjunct1[OF r] conjunct1[OF conjunct2[OF conjunct2[OF conjunct2[OF conjunct2[OF conjunct2[OF r]]]]]]
    by auto
qed

section \<open>Probes\<close>

text \<open>
  A step that reports the number of rows by which it shrinks a table (measured by \<open>len\<close>, under an
  invariant): the run reports what its batches delete and not what its probe deletes.
\<close>

definition counts_rows :: "(store \<Rightarrow> int) \<Rightarrow> (store \<Rightarrow> bool) \<Rightarrow> (int \<Rightarrow> store \<Rightarrow> int \<times> store) \<Rightarrow> bool" where
  "counts_rows len I f \<longleftrightarrow> (\<forall>n s. I s \<longrightarrow> I (snd (f n s)) \<and> fst (f n s) = len s - len (snd (f n s)) \<and>
     0 \<le> fst (f n s) \<and> fst (f 1 s) \<le> 1)"

lemma run_batches_count:
  assumes "counts_rows len I f" and "I s" and "run_batches halt (f z) k b n s = ((n', b', fin), s')"
  shows "I s' \<and> n' - n = len s - len s'"
  using assms(2,3)
proof (induction k arbitrary: b n s)
  case (Suc k)
  have st: "I (snd (f z s))" "fst (f z s) = len s - len (snd (f z s))"
    using assms(1) Suc.prems(1) by (auto simp: counts_rows_def)
  obtain m u where f: "f z s = (m, u)" by fastforce
  show ?case
  proof (cases "halt b n \<or> m = 0")
    case True
    then show ?thesis using Suc.prems st f by (auto split: if_splits)
  next
    case False
    then have "run_batches halt (f z) k (b + 1) (n + m) u = ((n', b', fin), s')" using Suc.prems(2) f by simp
    from Suc.IH[OF _ this] st f show ?thesis by simp
  qed
qed simp

lemma probed_run_count:
  assumes "counts_rows len I f" and "I s" and "probed_run late op d f s = (r, s')"
  shows "len s - len s' = br_affected r + (if br_complete r then 0 else 1)"
proof -
  let ?h = "\<lambda>b n. n \<ge> or_else (bo_maxPerRun op) d \<or> batch_stop late op b"
  obtain q s1 where "run_batches ?h (f (bo_batchSize op)) (nat (bo_maxBatches op)) 0 0 s = (q, s1)" by fastforce
  moreover obtain n b fin where "q = (n, b, fin)" by (cases q)
  ultimately have rb: "run_batches ?h (f (bo_batchSize op)) (nat (bo_maxBatches op)) 0 0 s = ((n, b, fin), s1)" by simp
  note c = run_batches_count[OF assms(1,2) rb]
  show ?thesis
  proof (cases fin)
    case True
    then show ?thesis using c rb assms(3) by (auto simp: probed_run_def Let_def)
  next
    case False
    then have r: "br_affected r = n" "br_complete r = (fst (f 1 s1) = 0)" "s' = snd (f 1 s1)"
      using rb assms(3) by (auto simp: probed_run_def Let_def split: prod.splits)
    have "fst (f 1 s1) = len s1 - len s'" "0 \<le> fst (f 1 s1)" "fst (f 1 s1) \<le> 1"
      using assms(1)[unfolded counts_rows_def, rule_format, of s1 1] c r(3) by blast+
    then show ?thesis using c r by auto
  qed
qed

lemma counts_keys:
  assumes "\<And>s. I s \<Longrightarrow> distinct (map key (tbl s))"
    and "\<And>s. I s \<Longrightarrow> distinct (ks s) \<and> set (ks s) \<subseteq> key ` set (tbl s)"
    and "\<And>n s. fst (f n s) = int (length (batch_ids n (ks s)))"
    and "\<And>n s. tbl (snd (f n s)) = filter (\<lambda>r. key r \<notin> set (batch_ids n (ks s))) (tbl s)"
    and "\<And>n s. I s \<Longrightarrow> I (snd (f n s))"
  shows "counts_rows (\<lambda>s. int (length (tbl s))) I f"
  unfolding counts_rows_def
proof (intro allI impI)
  fix n s assume I: "I s"
  let ?b = "batch_ids n (ks s)"
  have "int (length (filter (\<lambda>r. key r \<notin> set ?b) (tbl s))) = int (length (tbl s)) - int (length ?b)"
    by (rule length_filter_keys[OF assms(1)[OF I]])
       (use assms(2)[OF I] batch_ids_facts(1)[of n "ks s"] batch_ids_facts(2)[of "ks s" n] in auto)
  moreover have "length (batch_ids 1 (ks s)) \<le> 1" by (simp add: batch_ids_def)
  ultimately show "I (snd (f n s)) \<and> fst (f n s) = int (length (tbl s)) - int (length (tbl (snd (f n s)))) \<and>
      0 \<le> fst (f n s) \<and> fst (f 1 s) \<le> 1"
    using assms(5)[OF I] by (simp add: assms(3,4))
qed

lemma distinct_keys_filter: "distinct (map f xs) \<Longrightarrow> distinct (map f (sort_key g (filter P xs)))"
  using distinct_map_filter[of f xs P] by (metis mset_eq_imp_distinct_iff mset_map mset_sort)

lemma limits_count:
  "counts_rows (\<lambda>s. int (length (rate_limits s))) (\<lambda>s. distinct (map rl_key (rate_limits s)))
     (\<lambda>n. pruneStaleRateLimitsBatch n sec)"
  by (rule counts_keys[where key = rl_key and tbl = rate_limits and ks = "\<lambda>s. map rl_key (sort_key windowStart
        (filter (stale_limit sec (clock s)) (rate_limits s)))"])
     (auto simp: pruneStaleRateLimitsBatch_def Let_def distinct_keys_filter intro: distinct_map_filter)

lemma orphans_count:
  "counts_rows (\<lambda>s. int (length (sync_state s))) (\<lambda>s. distinct (map sync_address (sync_state s)))
     pruneOrphanSyncStateBatch"
  by (rule counts_keys[where key = sync_address and tbl = sync_state
        and ks = "\<lambda>s. sort (map sync_address (filter (orphan_sync s) (sync_state s)))"])
     (auto simp: pruneOrphanSyncStateBatch_def Let_def intro: distinct_map_filter)

text \<open>
  The runs over stale rate limits and over orphaned sync rows under-report by one row whenever
  they stop early: the probe by which they find out whether anything is left deletes that row, and
  its row is not counted.
\<close>

lemma probes_delete_uncounted:
  "(distinct (map rl_key (rate_limits s)) \<and> pruneStaleRateLimits late op sec s = (r, s') \<longrightarrow>
     int (length (rate_limits s)) - int (length (rate_limits s')) = br_affected r + (if br_complete r then 0 else 1)) \<and>
   (distinct (map sync_address (sync_state s)) \<and> pruneOrphanSyncState late op s = (r, s') \<longrightarrow>
     int (length (sync_state s)) - int (length (sync_state s')) = br_affected r + (if br_complete r then 0 else 1))"
  unfolding pruneStaleRateLimits_def pruneOrphanSyncState_def
  using probed_run_count[OF limits_count, of s] probed_run_count[OF orphans_count, of s] by blast

section \<open>The scheduled run\<close>

text \<open>
  Both invariants are kept, and every job that is not done, the addresses, edges and transactions stay
  as they are.
\<close>

definition cursor :: "store \<Rightarrow> int \<times> int" where
  "cursor s = (hackerPollIndex (sched s), maintenanceCronCounter (sched s))"

definition job_marks :: "store \<Rightarrow> (int \<times> job_status) set" where
  "job_marks s = (\<lambda>j. (job_id j, job_status j)) ` set (jobs s)"

definition housekept :: "store \<Rightarrow> store \<Rightarrow> bool" where
  "housekept s t \<longleftrightarrow>
     (jobs_inv s \<longrightarrow> jobs_inv t \<and>
        filter (\<lambda>j. job_status j \<noteq> Done) (jobs t) = filter (\<lambda>j. job_status j \<noteq> Done) (jobs s) \<and>
        job_marks t \<subseteq> job_marks s) \<and>
     (addr_inv s \<longrightarrow> addr_inv t) \<and> addresses t = addresses s \<and> edges t = edges s \<and>
     transactions t = transactions s \<and> clock t = clock s \<and> cursor t = cursor s"

lemma housekept_refl: "housekept s s"
  by (simp add: housekept_def)

lemma housekept_trans: "housekept s t \<Longrightarrow> housekept t u \<Longrightarrow> housekept s u"
  by (auto simp: housekept_def)

lemma job_marks_cong: "jobs t = jobs s \<Longrightarrow> job_marks t = job_marks s"
  by (simp add: job_marks_def)

lemma housekept_sched:
  assumes "\<And>k r. counter_val k (f r) = counter_val k r" and "\<And>r. downstreamTreeMaxDepth (f r) = downstreamTreeMaxDepth r"
    and "\<And>r. hackerPollIndex (f r) = hackerPollIndex r" and "\<And>r. maintenanceCronCounter (f r) = maintenanceCronCounter r"
  shows "housekept s (updateSchedulerState f s)"
  unfolding housekept_def
proof (intro conjI impI)
  show "jobs_inv s \<Longrightarrow> jobs_inv (updateSchedulerState f s)" "addr_inv s \<Longrightarrow> addr_inv (updateSchedulerState f s)"
    using assms by (auto intro: jobs_inv_frame addr_inv_frame[of s] simp: tree_depth_def)
qed (simp_all add: job_marks_def cursor_def assms)

lemma counted_not_done: "job_counted k j \<Longrightarrow> job_status j \<noteq> Done"
  by (cases k) (auto simp: is_pending_def is_active_def)

lemma counted_filter: "count_rows (job_counted k) js = count_rows (job_counted k) (filter (\<lambda>j. job_status j \<noteq> Done) js)"
  by (simp add: count_rows_filter) (metis counted_not_done)

lemma housekept_jobs:
  assumes "ids_ok s \<Longrightarrow> filter (\<lambda>j. job_status j \<noteq> Done) js = filter (\<lambda>j. job_status j \<noteq> Done) (jobs s) \<and>
      ids_ok (s\<lparr>jobs := js\<rparr>) \<and> job_marks (s\<lparr>jobs := js\<rparr>) \<subseteq> job_marks s"
  shows "housekept s (s\<lparr>jobs := js\<rparr>)"
  unfolding housekept_def
proof (intro conjI impI)
  assume j: "jobs_inv s"
  note js = assms[OF jobs_inv_def[THEN iffD1, OF j, THEN conjunct1]]
  have "count_rows (job_counted k) js = count_rows (job_counted k) (jobs s)" for k
    using counted_filter[of k js] counted_filter[of k "jobs s"] js by simp
  then show "jobs_inv (s\<lparr>jobs := js\<rparr>)"
    using j js by (auto simp: jobs_inv_def exact_count_def simp del: counter_val.simps)
  show "filter (\<lambda>j. job_status j \<noteq> Done) (jobs (s\<lparr>jobs := js\<rparr>)) = filter (\<lambda>j. job_status j \<noteq> Done) (jobs s)"
    using js by simp
  show "job_marks (s\<lparr>jobs := js\<rparr>) \<subseteq> job_marks s" using js by simp
next
  assume a: "addr_inv s"
  show "addr_inv (s\<lparr>jobs := js\<rparr>)" by (rule addr_inv_frame[OF a]) (simp_all add: tree_depth_def)
qed (simp_all add: cursor_def)

lemma filter_filter_absorb: "(\<And>x. x \<in> set xs \<Longrightarrow> \<not> Q x \<Longrightarrow> \<not> P x) \<Longrightarrow> filter P (filter Q xs) = filter P xs"
  by (induction xs) auto

lemma housekept_deleted:
  assumes "jobs_deleted P s s' n" and "\<And>j. P j \<Longrightarrow> job_status j = Done"
  shows "housekept s s'"
proof -
  obtain Q where q: "s' = s\<lparr>jobs := filter Q (jobs s)\<rparr>" "\<forall>j\<in>set (jobs s). \<not> Q j \<longrightarrow> P j"
    using assms(1) by (auto simp: jobs_deleted_def)
  show ?thesis
    unfolding q(1)
  proof (intro housekept_jobs conjI)
    show "filter (\<lambda>j. job_status j \<noteq> Done) (filter Q (jobs s)) = filter (\<lambda>j. job_status j \<noteq> Done) (jobs s)"
      by (rule filter_filter_absorb) (use q(2) assms(2) in blast)
  qed (auto simp: ids_ok_def job_marks_def intro: distinct_map_filter)
qed

lemma housekept_run:
  assumes "\<And>s. housekept s (snd (f s))"
  shows "housekept s (snd (run_batches halt f k b n s))"
proof (induction k arbitrary: b n s)
  case (Suc k)
  show ?case using assms[of s] Suc.IH housekept_trans by (auto simp: Let_def housekept_refl split: prod.split)
qed (simp add: housekept_refl)

lemma filter_update_dropped:
  "(\<And>x. x \<in> set xs \<Longrightarrow> P x \<Longrightarrow> \<not> Q x \<and> \<not> Q (f x)) \<Longrightarrow> filter Q (update_where P f xs) = filter Q xs"
  by (induction xs) auto

lemma housekept_runE:
  "run_batches halt f k b n s = (x, t) \<Longrightarrow> (\<And>s. housekept s (snd (f s))) \<Longrightarrow> housekept s t"
  using housekept_run[of f s halt k b n] by simp

lemma housekept_stepE: "f s = (x, t) \<Longrightarrow> (\<And>s. housekept s (snd (f s))) \<Longrightarrow> housekept s t"
  by (metis snd_conv)

lemma housekept_stamp: "housekept s (snd (backfillDoneJobCompletedAtBatch n s))"
proof -
  let ?ids = "batch_ids n (sort (map job_id (filter done_unstamped (jobs s))))"
  let ?js = "update_where (\<lambda>j. job_id j \<in> set ?ids) (\<lambda>j. j\<lparr>completedAt := Some (createdAt j)\<rparr>) (jobs s)"
  have "filter (\<lambda>j. job_status j \<noteq> Done) ?js = filter (\<lambda>j. job_status j \<noteq> Done) (jobs s)"
    if "ids_ok s"
  proof (rule filter_update_dropped)
    fix j assume j: "j \<in> set (jobs s)" "job_id j \<in> set ?ids"
    then obtain i where "i \<in> set (jobs s)" "done_unstamped i" "job_id j = job_id i"
      using batch_ids_facts(1)[of n "sort (map job_id (filter done_unstamped (jobs s)))"] by auto
    then have "done_unstamped j" using \<open>ids_ok s\<close> j(1) by (auto simp: ids_ok_def distinct_map inj_on_def)
    then show "\<not> job_status j \<noteq> Done \<and> \<not> job_status (j\<lparr>completedAt := Some (createdAt j)\<rparr>) \<noteq> Done"
      by (simp add: done_unstamped_def)
  qed
  moreover have "ids_ok s \<Longrightarrow> ids_ok (s\<lparr>jobs := ?js\<rparr>)"
    by (subst ids_ok_map[of _ s]) (simp_all add: map_key_update_where)
  moreover have "job_marks (s\<lparr>jobs := ?js\<rparr>) \<subseteq> job_marks s"
    by (auto simp: job_marks_def update_where_def image_image)
  ultimately have "housekept s (s\<lparr>jobs := ?js\<rparr>)" by (intro housekept_jobs conjI)
  then show ?thesis by (simp add: backfillDoneJobCompletedAtBatch_def Let_def)
qed

lemma housekept_prune: "housekept s (snd (pruneDoneJobsBatch n c s))"
proof (cases "distinct (map job_id (jobs s))")
  case True
  then show ?thesis
    using housekept_deleted[OF pruneDoneJobsBatch_spec(1)[OF True, of n c "fst (pruneDoneJobsBatch n c s)"]]
    by (simp add: expired_done_def)
next
  case False
  then have "housekept s (s\<lparr>jobs := js\<rparr>)" for js by (intro housekept_jobs) (simp add: ids_ok_def)
  then show ?thesis by (simp add: pruneDoneJobsBatch_def Let_def)
qed

lemma housekept_tables:
  "housekept s (s\<lparr>rate_limits := rl\<rparr>)" "housekept s (s\<lparr>sync_state := ss\<rparr>)"
  by (auto simp: housekept_def job_marks_def cursor_def intro: jobs_inv_frame addr_inv_frame[of s] simp: tree_depth_def)

lemma housekept_probed:
  assumes f: "\<And>n s. housekept s (snd (f n s))"
  shows "housekept s (snd (probed_run late op d f s))"
proof -
  let ?h = "\<lambda>b n. n \<ge> or_else (bo_maxPerRun op) d \<or> batch_stop late op b"
  obtain x s1 where r: "run_batches ?h (f (bo_batchSize op)) (nat (bo_maxBatches op)) 0 0 s = (x, s1)" by fastforce
  obtain n b fin where "x = (n, b, fin)" by (cases x)
  moreover have "housekept s (snd (f 1 s1))" using housekept_trans[OF housekept_runE[OF r f] f] .
  ultimately show ?thesis using r housekept_runE[OF r f] by (cases fin) (auto simp: probed_run_def Let_def split: prod.splits)
qed

lemma housekept_jobs_pruned: "housekept s (snd (pruneDoneJobs late op days s))"
proof -
  let ?c = "retentionCutoff days s"
  let ?h = "\<lambda>b n. n \<ge> or_else (bo_maxPerRun op) 10000 \<or> batch_stop late op b \<or>
                        (case bo_remainingWrites op of Some m \<Rightarrow> m - n \<le> 0 | None \<Rightarrow> False)"
  obtain x s1 where r: "run_batches ?h (pruneDoneJobsBatch (bo_batchSize op) ?c) (nat (bo_maxBatches op)) 0 0 s = (x, s1)"
    by fastforce
  obtain n b fin where "x = (n, b, fin)" by (cases x)
  moreover have "housekept s (snd (pruneDoneJobsBatch 1 ?c s1))"
    using housekept_trans[OF housekept_runE[OF r housekept_prune] housekept_prune] .
  ultimately show ?thesis
    using r housekept_runE[OF r housekept_prune] by (cases fin) (auto simp: pruneDoneJobs_def Let_def split: prod.splits)
qed

lemma housekept_stamped: "housekept s (snd (backfillDoneJobCompletedAt late op s))"
proof -
  let ?m = "case bo_maxPerRun op of Some m \<Rightarrow> Some m | None \<Rightarrow> bo_remainingWrites op"
  let ?h = "\<lambda>b n. batch_stop late op b \<or> (case ?m of Some m \<Rightarrow> n \<ge> m | None \<Rightarrow> False)"
  obtain x s1 where r: "run_batches ?h (backfillDoneJobCompletedAtBatch (bo_batchSize op)) (nat (bo_maxBatches op)) 0 0 s = (x, s1)"
    by fastforce
  obtain n b fin where "x = (n, b, fin)" by (cases x)
  then show ?thesis
    using r housekept_runE[OF r housekept_stamp] by (cases fin) (auto simp: backfillDoneJobCompletedAt_def Let_def)
qed

lemma housekept_rows:
  "housekept s (snd (pruneStaleRateLimits late op sec s))" "housekept s (snd (pruneOrphanSyncState late op s))"
  unfolding pruneStaleRateLimits_def pruneOrphanSyncState_def
  by (rule housekept_probed, simp add: pruneStaleRateLimitsBatch_def pruneOrphanSyncStateBatch_def Let_def housekept_tables)+

lemma counter_val_housekeeping [simp]:
  "counter_val k (r\<lparr>lastCompletedJobAt := x1, lastCompletedJobType := x2, lastCompletedJobDurationMs := x3\<rparr>) = counter_val k r"
  "counter_val k (r\<lparr>maintenancePrunePending := b, maintenanceRun := m\<rparr>) = counter_val k r"
  "counter_val k (r\<lparr>maintenancePrunePending := b, maintenanceRun := m, lastDoneJobsPrunedAt := t1, lastHousekeepingAt := t2\<rparr>)
     = counter_val k r"
  by (cases k; simp)+

lemma housekept_seed: "housekept s (snd (seedLastCompletedJobCache s))"
  by (auto simp: seedLastCompletedJobCache_def set_last_completed_def housekept_refl intro!: housekept_sched split: list.split)

lemma housekept_marks: "housekept s (set_pending_run p s)" "housekept s (finish_run s)"
  unfolding set_pending_run_def finish_run_def by (auto intro: housekept_sched)

lemma cheap_frame:
  "jobs (reconcileCheapCounters s) = jobs s" "job_seq (reconcileCheapCounters s) = job_seq s"
  "addresses (reconcileCheapCounters s) = addresses s" "tree_depth (reconcileCheapCounters s) = tree_depth s"
  "edges (reconcileCheapCounters s) = edges s" "transactions (reconcileCheapCounters s) = transactions s"
  "clock (reconcileCheapCounters s) = clock s"
  "hackerPollIndex (sched (reconcileCheapCounters s)) = hackerPollIndex (sched s)"
  "maintenanceCronCounter (sched (reconcileCheapCounters s)) = maintenanceCronCounter (sched s)"
  by (simp_all add: reconcileCheapCounters_def reconcileActiveJobCounts_def reconcilePendingJobCount_def
    reconcileCrawlPendingCount_def tree_depth_def Let_def)

lemma cheap_values:
  "k \<in> set job_counters \<Longrightarrow> cv k (reconcileCheapCounters s) = count_rows (job_counted k) (jobs s)"
  "k \<in> {VictimC, CrawlExpanded, HackerActive, DownstreamTree} \<Longrightarrow> cv k (reconcileCheapCounters s) = cv k s"
  "cv CrawlPending (reconcileCheapCounters s) = count_rows (addr_pred d CrawlPending) (addresses s)"
proof -
  assume "k \<in> set job_counters"
  then show "cv k (reconcileCheapCounters s) = count_rows (job_counted k) (jobs s)"
    by (auto simp: job_counters_def reconcileCheapCounters_def reconcileActiveJobCounts_def reconcilePendingJobCount_def
      reconcileCrawlPendingCount_def Let_def active_recount[symmetric] count_active_of_def pending_recount simp del: job_counted.simps)
qed (auto simp: reconcileCheapCounters_def reconcileActiveJobCounts_def reconcilePendingJobCount_def
      reconcileCrawlPendingCount_def Let_def isCrawlPendingEligible_def intro!: count_rows_cong)

lemma housekept_recount: "housekept s (recount_on_schedule n s)"
proof -
  have "housekept s (reconcileStatsCounters s)"
    using recount_invs[of s] by (simp add: housekept_def recount_frame jobs_inv_def addr_inv_def job_marks_def cursor_def)
  moreover have "housekept s (reconcileCheapCounters s)"
    unfolding housekept_def
  proof (intro conjI impI)
    assume j: "jobs_inv s"
    show "jobs_inv (reconcileCheapCounters s)"
      using j by (intro jobs_invI)
        (simp_all add: jobs_inv_def exact_count_def cheap_values cheap_frame ids_ok_cong[OF cheap_frame(1,2)] del: counter_val.simps job_counted.simps)
  next
    assume a: "addr_inv s"
    have "addr_counted (reconcileCheapCounters s) = addr_counted s" by (simp add: addr_counted_def cheap_frame)
    then show "addr_inv (reconcileCheapCounters s)"
      using addr_invD[OF a] cheap_values(2)[of _ s] cheap_values(3)[of s]
      by (intro addr_inv_set_sched[OF a cheap_frame(3)])
         (auto simp: addr_counted_def cheap_frame simp del: counter_val.simps addr_pred.simps split: if_splits)
  qed (simp_all add: cheap_frame job_marks_def cursor_def)
  ultimately show ?thesis by (simp add: recount_on_schedule_def housekept_refl)
qed

lemma housekept_prune_phases: "housekept s (snd (prune_phases cfg late bl wl p res s))"
proof -
  let ?s1 = "set_pending_run (p\<lparr>rp_phase := Some Phase_jobs\<rparr>) s"
  obtain r s2 where r: "jobs_phase cfg late bl wl ?s1 = (r, s2)" by fastforce
  have "housekept ?s1 s2" using housekept_jobs_pruned r by (metis jobs_phase_def snd_conv)
  then have s2: "housekept s s2" using housekept_marks(1) housekept_trans by blast
  have l: "housekept s t" if "limits_phase cfg late b w u = (x, t)" "housekept s u" for b w u x t
    using that housekept_rows(1) housekept_trans by (metis limits_phase_def snd_conv)
  have q: "housekept s t" if "orphans_phase cfg late b w u = (x, t)" "housekept s u" for b w u x t
    using that housekept_rows(2) housekept_trans by (metis orphans_phase_def snd_conv)
  have m: "housekept s (set_pending_run y t)" "housekept s (finish_run t)" if "housekept s t" for y t
    using that housekept_marks housekept_trans by blast+
  show ?thesis
    unfolding prune_phases_def Let_def r prod.case
    using s2 by (auto split: prod.splits if_splits intro: m dest!: l q)
qed

text \<open>
  C28: housekeeping never touches live work: whatever it prunes and recounts, and wherever the
  deadline cuts it short, every pending and running job, every address, edge and transaction stays as
  it is, and the counters of jobs and addresses stay exact.
\<close>

theorem runScheduledMaintenance_keeps_live:
  assumes "jobs_inv s" and "addr_inv s" and "runScheduledMaintenance cfg late n skip force s = (r, s')"
  shows "filter (\<lambda>j. job_status j \<noteq> Done) (jobs s') = filter (\<lambda>j. job_status j \<noteq> Done) (jobs s) \<and>
    addresses s' = addresses s \<and> edges s' = edges s \<and> transactions s' = transactions s \<and>
    jobs_inv s' \<and> addr_inv s'"
proof -
  have b: "housekept s t" if "backfillDoneJobCompletedAt l op s = (x, t)" for l op x t
    using that housekept_stamped by (metis snd_conv)
  have d: "housekept s t" if "seedLastCompletedJobCache u = (x, t)" "housekept s u" for u x t
    using that housekept_seed housekept_trans by (metis snd_conv)
  have c: "housekept s (recount_on_schedule n t)" "housekept s (set_pending_run p t)"
    "housekept s (snd (prune_phases cfg late bl wl p res t))" if "housekept s t" for t p bl wl res
    using that housekept_recount housekept_marks housekept_prune_phases housekept_trans by blast+
  have "housekept s (snd (runScheduledMaintenance cfg late n skip force s))"
    unfolding runScheduledMaintenance_def Let_def
    by (auto simp: housekept_refl c split: prod.splits dest!: b d)
  then show ?thesis using assms by (simp add: housekept_def)
qed

theorem runScheduledMaintenance_keeps_live_witness:
  "ms_jobsDeleted (fst (runScheduledMaintenance default_config (\<lambda>p b. False) 60 False False demo_house)) = 1 \<and>
   jobs_inv (snd (runScheduledMaintenance default_config (\<lambda>p b. False) 60 False False demo_house))"
proof -
  obtain r u where e: "runScheduledMaintenance default_config (\<lambda>p b. False) 60 False False demo_house = (r, u)" by fastforce
  have v: "ms_jobsDeleted (fst (runScheduledMaintenance default_config (\<lambda>p b. False) 60 False False demo_house)) = 1"
    by code_simp
  from runScheduledMaintenance_keeps_live[OF demo_house_invs(1,2) e] show ?thesis using v unfolding e by simp
qed

text \<open>
  Housekeeping can be recorded as complete without having looked at two of its three tables. When
  the pruning of the jobs is complete with the last of the batches (or writes) of this tick, the stale rate limits and the
  orphaned sync rows are skipped, and yet the run ends with nothing pending and with the time of
  the last housekeeping set, so that they wait for the next interval.
\<close>

lemma housekeeping_skips_phases:
  assumes "distinct (map job_id (jobs s))"
    and "jobs_phase cfg late bl wl (set_pending_run (p\<lparr>rp_phase := Some Phase_jobs\<rparr>) s) = (jr, s2)"
    and "br_complete jr" and "bl \<le> br_batches jr \<or> wl \<le> br_affected jr"
    and "prune_phases cfg late bl wl p res s = (r, s')"
  shows "rate_limits s' = rate_limits s \<and> sync_state s' = sync_state s \<and> \<not> ms_prunePending r \<and>
    \<not> maintenancePrunePending (sched s') \<and> lastDoneJobsPrunedAt (sched s') = Some (clock s) \<and>
    lastHousekeepingAt (sched s') = Some (clock s)"
proof -
  let ?s1 = "set_pending_run (p\<lparr>rp_phase := Some Phase_jobs\<rparr>) s"
  have "distinct (map job_id (jobs ?s1))" using assms(1) by (simp add: set_pending_run_def)
  from pruneDoneJobs_deletes(1)[OF this assms(2)[unfolded jobs_phase_def]]
  have "rate_limits s2 = rate_limits s" "sync_state s2 = sync_state s" "clock s2 = clock s"
    by (auto simp: jobs_deleted_def set_pending_run_def)
  then show ?thesis
    using assms(3-5) by (auto simp: prune_phases_def Let_def assms(2) finish_run_def)
qed

lemma housekeeping_skips_phases_witness:
  "length (rate_limits (snd (prune_phases default_config (\<lambda>p b. False) 2 100 (fresh_progress 0) no_maintenance demo_house))) = 1 \<and>
   countStaleRateLimits 3600 demo_house = 1 \<and>
   maintenancePrunePending (sched (snd (prune_phases default_config (\<lambda>p b. False) 2 100 (fresh_progress 0) no_maintenance demo_house))) = False"
proof -
  let ?s1 = "set_pending_run ((fresh_progress 0)\<lparr>rp_phase := Some Phase_jobs\<rparr>) demo_house"
  obtain r u where e: "prune_phases default_config (\<lambda>p b. False) 2 100 (fresh_progress 0) no_maintenance demo_house = (r, u)" by fastforce
  obtain jr s2 where j: "jobs_phase default_config (\<lambda>p b. False) 2 100 ?s1 = (jr, s2)" by fastforce
  have "br_complete (fst (jobs_phase default_config (\<lambda>p b. False) 2 100 ?s1))"
    "2 \<le> br_batches (fst (jobs_phase default_config (\<lambda>p b. False) 2 100 ?s1))"
    "length (rate_limits demo_house) = 1" "countStaleRateLimits 3600 demo_house = 1"
    by code_simp+
  then show ?thesis
    using housekeeping_skips_phases[OF demo_house_invs(3) j _ _ e] unfolding e j by simp
qed

text \<open>In particular the queue stays sound.\<close>

lemma housekept_queue:
  assumes "housekept s t" and "jobs_inv s"
  shows "jobs_inv t" and "running_ids t = running_ids s" and "not_done i s \<Longrightarrow> not_done i t"
proof -
  have f: "filter (\<lambda>j. job_status j \<noteq> Done) (jobs t) = filter (\<lambda>j. job_status j \<noteq> Done) (jobs s)"
    and m: "job_marks t \<subseteq> job_marks s" and "jobs_inv t"
    using assms by (auto simp: housekept_def)
  then show "jobs_inv t" by simp
  have "running_ids u = job_id ` {j \<in> set (filter (\<lambda>j. job_status j \<noteq> Done) (jobs u)). is_running j}" for u
    by (auto simp: running_ids_def is_running_def)
  then show "running_ids t = running_ids s" by (simp only: f)
  assume nd: "not_done i s"
  show "not_done i t"
  proof (cases "getJob i t")
    case (Some j)
    then have j: "j \<in> set (jobs t)" "job_id j = i" unfolding getJob_def by (auto simp: find_Some_iff)
    then obtain k where k: "k \<in> set (jobs s)" "job_id k = i" "job_status k = job_status j"
      using m by (force simp: job_marks_def)
    then have "getJob i s = Some k"
      using find_key_eq[OF jobs_invD(1)[OF assms(2)] k(1)] k(2) by (simp add: getJob_def)
    then show ?thesis using nd Some k(3) by (simp add: not_done_def is_active_def)
  qed (simp add: not_done_def)
qed

end
