(* ===== verification/TickProps.thy ===== *)
theory TickProps
  imports Tick MaintenanceProps BodySafety
begin

text \<open>
  The tick and the queue: every part of the schedule phase leaves the claimed jobs and the counters of
  the queue sound, and so does a whole run of the scheduled handler, which gives its lease back.
\<close>

section \<open>The schedule phase keeps the queue\<close>

named_theorems keeps_queue

lemma queue_kept_refl [keeps_queue]: "queue_kept s s"
  by (simp add: queue_kept_def)

lemma queue_kept_into: "queue_kept s t \<Longrightarrow> queue_kept t u \<Longrightarrow> queue_kept s u"
  by (rule queue_kept_trans)

lemma queue_kept_same: "queue_kept s t \<Longrightarrow> jobs_same t u \<Longrightarrow> queue_kept s u"
  using queue_kept_trans jobs_same_queue by blast

lemma queue_kept_house: "queue_kept s t \<Longrightarrow> housekept t u \<Longrightarrow> queue_kept s u"
proof -
  assume q: "queue_kept s t" and h: "housekept t u"
  have "queue_kept t u" using housekept_queue[OF h] by (simp add: queue_kept_def)
  with q show "queue_kept s u" by (rule queue_kept_trans)
qed

lemma queue_kept_sched:
  assumes "queue_kept s t" and "\<And>k r. k \<in> set job_counters \<Longrightarrow> counter_val k (f r) = counter_val k r"
  shows "queue_kept s (updateSchedulerState f t)"
  by (rule queue_kept_same[OF assms(1) jobs_same_sched[OF jobs_same_refl assms(2)]])

lemma queue_kept_put [keeps_queue]:
  "queue_kept s t \<Longrightarrow> queue_kept s (snd (enqueueJobIfAbsent ty p pr ra dt ad b t))"
  "queue_kept s t \<Longrightarrow> queue_kept s (setExpandStatus a x t)"
  using queue_kept_absent queue_kept_trans queue_kept_same[OF _ jobs_same_status[OF jobs_same_refl]] by blast+

lemma queue_kept_small [keeps_queue]:
  "queue_kept s t \<Longrightarrow> queue_kept s (clearExpiredD1QuotaPause t)"
  "queue_kept s t \<Longrightarrow> queue_kept s (snd (maybeRefreshHackStatsDaily t))"
  "queue_kept s t \<Longrightarrow> queue_kept s (setBtcUsdPrice u ta t)"
  "queue_kept s t \<Longrightarrow> queue_kept s (setBtcUsdRefreshAttemptAt ta t)"
  "queue_kept s t \<Longrightarrow> queue_kept s (snd (claim_poll_index n t))"
  "queue_kept s t \<Longrightarrow> queue_kept s (snd (increment_cron_counter t))"
  "queue_kept s t \<Longrightarrow> queue_kept s (snd (listHackersCached age act t))"
  "queue_kept s t \<Longrightarrow> queue_kept s (snd (getQuotaSnapshot t))"
  "queue_kept s t \<Longrightarrow> queue_kept s (clearTickLease t)"
  "queue_kept s t \<Longrightarrow> queue_kept s (snd (tryAcquireTickLease n t))"
  by (auto simp: clearExpiredD1QuotaPause_def maybeRefreshHackStatsDaily_def tryClaimHackStatsDay_def
    setBtcUsdPrice_def setBtcUsdRefreshAttemptAt_def claim_poll_index_def increment_cron_counter_def Let_def
    listHackersCached_def refreshFlaggedHackersCache_def getQuotaSnapshot_def clearTickLease_def
    tryAcquireTickLease_def job_counters_def split: option.split intro!: queue_kept_sched)

lemma queue_kept_summaries [keeps_queue]: "queue_kept s t \<Longrightarrow> queue_kept s (refresh_summaries cfg t)"
proof -
  assume t: "queue_kept s t"
  have tree: "queue_kept s u \<Longrightarrow> queue_kept s (snd (reconcileDownstreamTreeCount d u))" for u d
    by (auto simp: reconcileDownstreamTreeCount_def job_counters_def intro!: queue_kept_sched)
  have "queue_kept s u \<Longrightarrow> queue_kept s (snd (getDownstreamMonitorStatsCached d i f m u))" for d i f m u
    using tree by (auto simp: getDownstreamMonitorStatsCached_def countDownstreamTreeNodes_def Let_def job_counters_def
      split: prod.split intro!: queue_kept_sched) (metis snd_conv)+
  then have r: "queue_kept s u \<Longrightarrow> queue_kept s (snd (maybeRefreshSyncSnapshot p n u))" for p n u
    by (auto simp: maybeRefreshSyncSnapshot_def refreshSyncSnapshot_def Let_def job_counters_def
      split: prod.split option.split intro!: queue_kept_sched) (metis snd_conv)+
  have e: "queue_kept s (ensureDownstreamTreeDepth d t)" for d using t tree by (simp add: ensureDownstreamTreeDepth_def)
  have "queue_kept s (ensurePollDueCacheParams a b c u)" if "queue_kept s u" for a b c u
    using that by (auto simp: ensurePollDueCacheParams_def markMonitorSnapshotDirty_def Let_def job_counters_def intro!: queue_kept_sched)
  then show ?thesis unfolding refresh_summaries_def using e r by blast
qed

lemma queue_kept_fold:
  assumes "\<And>x ns. queue_kept s (snd ns) \<Longrightarrow> queue_kept s (snd (f x ns))" and "queue_kept s (snd ns)"
  shows "queue_kept s (snd (fold f xs ns))"
  using assms(2)
proof (induction xs arbitrary: ns)
  case (Cons x xs)
  then show ?case using assms(1)[of ns x] by simp
qed simp

lemma queue_kept_enqueue_loops [keeps_queue]:
  "queue_kept s (snd ns) \<Longrightarrow> queue_kept s (snd (fold enqueue_expand xs ns))"
  "queue_kept s (snd ns) \<Longrightarrow> queue_kept s (snd (fold enqueue_poll_of xs ns))"
proof -
  have "queue_kept s (snd (enqueue_expand x ns))" if q: "queue_kept s (snd ns)" for x ns
  proof -
    obtain i u where e: "enqueueJobIfAbsent Expand_downstream [(''address'', JStr x), (''cron'', JBool True)] CRON_EXPAND None
             None (Some x) False (snd ns) = (i, u)" by fastforce
    have "queue_kept s u" using e by (metis snd_conv queue_kept_put(1)[OF q])
    then show ?thesis by (auto simp: enqueue_expand_def e queue_kept_put split: option.split)
  qed
  then show "queue_kept s (snd ns) \<Longrightarrow> queue_kept s (snd (fold enqueue_expand xs ns))" by (rule queue_kept_fold)
  have "queue_kept s (snd (enqueue_poll_of x ns))" if q: "queue_kept s (snd ns)" for x ns
  proof -
    obtain i u where e: "enqueueJobIfAbsent Poll_downstream_address [(''address'', JStr x)] POLL_DOWNSTREAM None
             None (Some x) False (snd ns) = (i, u)" by fastforce
    have "queue_kept s u" using e by (metis snd_conv queue_kept_put(1)[OF q])
    then show ?thesis by (auto simp: enqueue_poll_of_def e split: option.split)
  qed
  then show "queue_kept s (snd ns) \<Longrightarrow> queue_kept s (snd (fold enqueue_poll_of xs ns))" by (rule queue_kept_fold)
qed

lemma queue_kept_parts [keeps_queue]:
  "queue_kept s t \<Longrightarrow> queue_kept s (enqueueBackfillResume a t)"
  "queue_kept s t \<Longrightarrow> queue_kept s (enqueue_about ty a prio dd t)"
  "queue_kept s t \<Longrightarrow> queue_kept s (schedule_source cfg ec skip ts la ev ty pr t)"
  "queue_kept s t \<Longrightarrow> queue_kept s (op_return_phase env cfg reserve ec isOp t)"
  by (auto simp: enqueueBackfillResume_def enqueue_about_def schedule_source_def op_return_phase_def intro: keeps_queue)

lemma queue_kept_resume [keeps_queue]: "queue_kept s t \<Longrightarrow> queue_kept s (resume_picked cfg ec a t)"
  by (simp add: resume_picked_def keeps_queue)

lemma queue_kept_maintain [keeps_queue]: "queue_kept s t \<Longrightarrow> queue_kept s (maintainOneHacker cfg a b ts th t)"
proof -
  assume t: "queue_kept s t"
  have "queue_kept s (maintain_backfill cfg a ts b t)" for b using t by (auto simp: maintain_backfill_def Let_def intro: keeps_queue)
  then show "queue_kept s (maintainOneHacker cfg a b ts th t)" by (simp add: maintainOneHacker_def Let_def queue_kept_parts)
qed

lemma next_hacker_store: "snd (next_hacker hs t) = snd (claim_poll_index (int (length hs)) t)"
  by (simp add: next_hacker_def split: prod.split)

lemma queue_kept_phases [keeps_queue]:
  "queue_kept s t \<Longrightarrow> queue_kept s (schedule_sources cfg ec skip ts t)"
  "queue_kept s t \<Longrightarrow> queue_kept s (maintain_phase env cfg reserve hs ts th im t)"
  "queue_kept s t \<Longrightarrow> queue_kept s (snd (crawl_phase cfg ec hs t))"
  "queue_kept s t \<Longrightarrow> queue_kept s (snd (poll_phase cfg t))"
proof -
  assume t: "queue_kept s t"
  have n: "queue_kept s u" if "next_hacker hs t = (h, u)" for h u
    using that next_hacker_store[of hs t] queue_kept_small(5)[OF t] by (metis snd_conv)
  show "queue_kept s (schedule_sources cfg ec skip ts t)"
    unfolding schedule_sources_def Let_def by (intro queue_kept_parts t)
  show "queue_kept s (maintain_phase env cfg reserve hs ts th im t)"
    using t n by (auto simp: maintain_phase_def split: prod.split intro: queue_kept_maintain)
  show "queue_kept s (snd (crawl_phase cfg ec hs t))"
    using t n by (auto simp: crawl_phase_def Let_def split: prod.split intro!: queue_kept_enqueue_loops queue_kept_resume)
  show "queue_kept s (snd (poll_phase cfg t))" using t by (simp add: poll_phase_def queue_kept_enqueue_loops)
qed

lemma housekept_scheduled: "housekept s (snd (runScheduledMaintenance cfg late n skip force s))"
proof -
  have b: "housekept s t" if "backfillDoneJobCompletedAt l op s = (x, t)" for l op x t
    using that housekept_stamped by (metis snd_conv)
  have d: "housekept s t" if "seedLastCompletedJobCache u = (x, t)" "housekept s u" for u x t
    using that housekept_seed housekept_trans by (metis snd_conv)
  have c: "housekept s (recount_on_schedule n t)" "housekept s (set_pending_run p t)"
    "housekept s (snd (prune_phases cfg late bl wl p res t))" if "housekept s t" for t p bl wl res
    using that housekept_recount housekept_marks housekept_prune_phases housekept_trans by blast+
  show ?thesis
    unfolding runScheduledMaintenance_def Let_def
    by (auto simp: housekept_refl c split: prod.splits dest!: b d)
qed

lemma queue_kept_start [keeps_queue]:
  assumes "queue_kept s t" shows "queue_kept s (snd (crawl_start env cfg reserve t))"
proof -
  have l: "queue_kept s u" if "listHackersCached None False t = (hs, u)" for hs u
    using that queue_kept_small(7)[OF assms] by (metis snd_conv)
  have i: "queue_kept s v" if "increment_cron_counter u = (k, v)" "queue_kept s u" for u v k
    using that queue_kept_small(6) by (metis snd_conv)
  show ?thesis
    unfolding crawl_start_def Let_def by (auto split: prod.split dest!: l i[OF _ queue_kept_phases(1)])
qed

lemma queue_kept_crawled [keeps_queue]:
  assumes "queue_kept s t" shows "queue_kept s (snd (snd (crawl_and_poll env cfg reserve pl t)))"
proof -
  have c: "queue_kept s v" if "crawl_phase cfg ec hs u = (k, v)" "queue_kept s u" for ec hs u k v
    using that queue_kept_phases(3) by (metis snd_conv)
  show ?thesis
    unfolding crawl_and_poll_def Let_def using assms
    by (auto split: prod.split dest!: c[OF _ queue_kept_parts(4)] intro: queue_kept_phases(4))
qed

lemma queue_kept_crawl:
  assumes "queue_kept s t" shows "queue_kept s (snd (scheduleDownstreamCrawl env cfg reserve t))"
proof -
  obtain pl u where u: "crawl_start env cfg reserve t = (pl, u)" by fastforce
  let ?m = "maintain_phase env cfg reserve (cp_hackers pl) (cp_ts pl) (cp_throttled pl) (is_maint_tick cfg pl) u"
  obtain c p v where v: "crawl_and_poll env cfg reserve pl ?m = (c, p, v)" by (metis prod.exhaust)
  have "queue_kept s u" using queue_kept_start[OF assms] u by (metis snd_conv)
  then have "queue_kept s v" using queue_kept_crawled[OF queue_kept_phases(2)] v by (metis snd_conv)
  from queue_kept_summaries[OF queue_kept_house[OF this housekept_scheduled]] show ?thesis
    by (simp add: scheduleDownstreamCrawl_def Let_def u v assms)
qed

section \<open>The tick\<close>

lemma queue_kept_schedule: "queue_kept s t \<Longrightarrow> queue_kept s (snd (runSchedulePhase env cfg t))"
proof -
  assume t: "queue_kept s t"
  have "queue_kept s (snd (scheduleBtcUsdPriceRefresh env cfg r t))" for r
    using t by (auto simp: scheduleBtcUsdPriceRefresh_def Let_def split: sum.split prod.split intro: keeps_queue)
  then have p: "queue_kept s u" if "scheduleBtcUsdPriceRefresh env cfg r t = (x, u)" for r x u using that by (metis snd_conv)
  show ?thesis
    using queue_kept_crawl p by (auto simp: runSchedulePhase_def Let_def split: prod.split) (metis snd_conv)
qed

text \<open>The invariant is kept, no further job is left running, and the lease is not touched.\<close>

definition queue_sound :: "store \<Rightarrow> store \<Rightarrow> bool" where
  "queue_sound s t \<longleftrightarrow> (jobs_inv s \<longrightarrow> jobs_inv t \<and> running_ids t \<subseteq> running_ids s)"

lemma queue_sound_intros:
  "queue_sound s s" "queue_kept s t \<Longrightarrow> queue_sound s t" "queue_sound s t \<Longrightarrow> queue_sound t u \<Longrightarrow> queue_sound s u"
  by (auto simp: queue_sound_def queue_kept_def)

lemma schedule_sound: "queue_sound u (snd (runSchedulePhase e cfg u))"
  by (rule queue_sound_intros(2), rule queue_kept_schedule, rule queue_kept_refl)

lemma loop_sound:
  assumes "body_ok run" and "processJobs cfg run d (Some n) cands b u = (r, ls)"
  shows "queue_sound u (ls_store ls)"
  using assms processJobs_ok(1,2)[OF _ assms(1), of u cfg d n cands b "fst r" "snd r" ls] by (simp add: queue_sound_def)

lemma tick_kinds_sound:
  assumes "body_ok run"
  shows "queue_sound s (snd (drain_tick env cfg run sc d cap cands s))"
    and "queue_sound s (snd (schedule_tick env cfg run sc d cap s))"
proof -
  obtain n w ls where l: "processJobs cfg run d (Some cap) (Some cands) (Some (te_loop env)) s = ((n, w), ls)"
    by (metis prod.exhaust)
  show "queue_sound s (snd (drain_tick env cfg run sc d cap cands s))"
    using loop_sound[OF assms l] queue_sound_intros(3)[OF loop_sound[OF assms l] schedule_sound]
    by (simp add: drain_tick_def l)
  let ?t = "if sc then snd (runSchedulePhase (te_sched env) cfg s) else s"
  obtain n w ls where l: "processJobs cfg run d (Some cap) None (Some (te_loop env)) ?t = ((n, w), ls)"
    by (metis prod.exhaust)
  have "queue_sound s ?t" using schedule_sound queue_sound_intros(1) by simp
  then show "queue_sound s (snd (schedule_tick env cfg run sc d cap s))"
    using queue_sound_intros(3)[OF _ loop_sound[OF assms l]] by (simp add: schedule_tick_def Let_def l)
qed

lemma tick_sound:
  assumes "body_ok run" shows "queue_sound s (snd (runIndexerTick env cfg run schedule s))"
proof -
  have c: "queue_kept s (clearExpiredD1QuotaPause s)" by (rule queue_kept_small) (rule queue_kept_refl)
  let ?s = "if schedule then snd (maybeRefreshHackStatsDaily (clearExpiredD1QuotaPause s)) else clearExpiredD1QuotaPause s"
  have "queue_kept s ?s" using c queue_kept_small(2)[OF c] by simp
  then have s: "queue_sound s ?s" by (rule queue_sound_intros)
  show ?thesis
    unfolding runIndexerTick_def Let_def
    using queue_sound_intros(2)[OF c] queue_sound_intros(3)[OF s tick_kinds_sound(1)[OF assms]]
      queue_sound_intros(3)[OF s tick_kinds_sound(2)[OF assms]] by simp
qed

lemma reset_sound: "queue_sound s (fst (resetRunningJobs st da ds s))"
proof -
  obtain t r d where e: "resetRunningJobs st da ds s = (t, r, d)" by (metis prod.exhaust)
  show ?thesis
    using resetRunningJobs_spec(1,4)[OF _ e] by (auto simp: queue_sound_def running_ids_def e)
qed

lemma flush_frame:
  assumes "flushQuotaUsage src r w q bf af tr (m, s) = (m', t)"
  shows "queue_kept s t" and "tickLeaseUntil (sched t) = tickLeaseUntil (sched s)" and "jobs t = jobs s"
proof -
  have q: "queue_kept s u \<Longrightarrow> queue_kept s (updateSchedulerState (\<lambda>x. x\<lparr>quota_usage := g x\<rparr>) u)" for g u
    by (auto simp: job_counters_def intro!: queue_kept_sched)
  have "queue_kept s t \<and> tickLeaseUntil (sched t) = tickLeaseUntil (sched s) \<and> jobs t = jobs s"
    using assms q[OF q[OF queue_kept_refl]] q[OF queue_kept_refl] q[OF q[OF q[OF queue_kept_refl]]] queue_kept_refl[of s]
    by (auto simp: flushQuotaUsage_def getQuotaSnapshot_def drainOverhead_def applyOverhead_def Let_def split: if_splits)
  then show "queue_kept s t" "tickLeaseUntil (sched t) = tickLeaseUntil (sched s)" "jobs t = jobs s" by auto
qed

lemma cron_body_sound:
  assumes "body_ok run"
  shows "queue_sound s (cron_body env cfg run s)"
    and "tickLeaseUntil (sched (cron_body env cfg run s)) = None \<or>
      tickLeaseUntil (sched (cron_body env cfg run s)) = tickLeaseUntil (sched s) \<and> jobs (cron_body env cfg run s) = jobs s"
proof -
  obtain snap s1 where q: "getQuotaSnapshot s = (snap, s1)" by fastforce
  have s1: "queue_kept s s1" using queue_kept_small(8)[OF queue_kept_refl] q by (metis snd_conv)
  have f: "tickLeaseUntil (sched s1) = tickLeaseUntil (sched s)" "jobs s1 = jobs s"
    using q by (auto simp: getQuotaSnapshot_def Let_def split: if_splits)
  obtain ok s2 where l: "tryAcquireTickLease (tickBudgetMs cfg + TICK_LEASE_SKEW_MS) s1 = (ok, s2)" by fastforce
  have s2: "queue_kept s s2" using queue_kept_small(10)[OF s1] l by (metis snd_conv)
  have nl: "\<not> ok \<Longrightarrow> s2 = s1" using l by (auto simp: tryAcquireTickLease_def Let_def split: if_splits)
  let ?r = "resetRunningJobs (runningJobStaleMs cfg) (Some (jobReclaimDeferAfter cfg)) (Some (jobReclaimDeferSec cfg)) s2"
  obtain t n d where r: "?r = (t, n, d)" by (metis prod.exhaust)
  have "queue_sound s2 t" using reset_sound[of s2] r by (metis fst_conv)
  then have "queue_sound s t" using queue_sound_intros(3) queue_sound_intros(2)[OF s2] by blast
  then have "queue_sound s (snd (runIndexerTick env cfg run True t))"
    using queue_sound_intros(3) tick_sound[OF assms] by blast
  from queue_sound_intros(3)[OF this queue_sound_intros(2)[OF queue_kept_small(9)[OF queue_kept_refl]]]
  have lt: "queue_sound s (leased_tick env cfg run s2)"
    by (simp add: leased_tick_def r)
  show "queue_sound s (cron_body env cfg run s)"
    using lt queue_sound_intros(1)[of s] queue_sound_intros(2)[OF s1] queue_sound_intros(2)[OF s2]
    by (simp add: cron_body_def q l split: bool.split)
  have "tickLeaseUntil (sched (leased_tick env cfg run s2)) = None"
    by (simp add: leased_tick_def r clearTickLease_def)
  then show "tickLeaseUntil (sched (cron_body env cfg run s)) = None \<or>
      tickLeaseUntil (sched (cron_body env cfg run s)) = tickLeaseUntil (sched s) \<and> jobs (cron_body env cfg run s) = jobs s"
    using f nl by (cases ok) (simp_all add: cron_body_def q l)
qed

text \<open>
  C27: a run of the scheduled handler with the modelled job bodies leaves the queue as the next run
  needs it. Whatever the providers, the quotas, the budgets and the clocks do, ids stay distinct and
  the counters exact, every job that the run has claimed is completed, deferred or waiting again, and
  either the lease has been given back or the run did not get it and left the jobs alone.
\<close>

theorem runCronScheduled_sound:
  assumes "jobs_inv s" and "\<And>ty p u. queue_kept u (snd (be_external be ty p u))"
    and "runCronScheduled env cfg (run_job be cfg) (m, s) = (m', s')"
  shows "jobs_inv s' \<and> running_ids s' \<subseteq> running_ids s \<and>
    (tickLeaseUntil (sched s') = None \<or>
     tickLeaseUntil (sched s') = tickLeaseUntil (sched s) \<and> jobs s' = jobs s)"
proof -
  let ?t = "cron_body (ce_tick env) cfg (run_job be cfg) s"
  note c = cron_body_sound[OF run_job_body_ok[OF assms(2)], where s = s and env = "ce_tick env" and cfg = cfg]
  obtain src r w q bf af tr n where "flushQuotaUsage src r w q bf af tr (n, ?t) = (m', s')"
    using assms(3) by (auto simp: runCronScheduled_def flushCronQuota_def Let_def)
  note f = flush_frame[OF this]
  have "queue_sound s s'" using queue_sound_intros(3)[OF c(1) queue_sound_intros(2)[OF f(1)]] .
  then show ?thesis using assms(1) c(2) f(2,3) by (auto simp: queue_sound_def)
qed

definition demo_budget :: budget where
  "demo_budget = \<lparr>b_cap = 0, b_used = 0\<rparr>"

definition demo_cron :: cron_env where
  "demo_cron = \<lparr>ce_tick = \<lparr>te_sched = \<lparr>se_budget = (\<lambda>p. demo_budget), se_price = Inr (60000, 900), se_late = (\<lambda>p b. False)\<rparr>,
       te_plan = demo_budget, te_loop = demo_budget\<rparr>,
     ce_rows = (100, 20), ce_before = (1, 0), ce_after = (1, 1), ce_trailing = (1, 1)\<rparr>"

theorem runCronScheduled_sound_witness:
  "running_ids (snd (runCronScheduled demo_cron default_config (run_job demo_bodies default_config) (new_meter 0, one_backfill))) = {} \<and>
   tickLeaseUntil (sched (snd (runCronScheduled demo_cron default_config (run_job demo_bodies default_config)
      (new_meter 0, one_backfill)))) = None \<and>
   pendingJobCount (sched one_backfill) = 1"
proof -
  obtain m' s' where e: "runCronScheduled demo_cron default_config (run_job demo_bodies default_config) (new_meter 0, one_backfill) = (m', s')"
    by fastforce
  have q: "queue_kept u (snd (be_external demo_bodies ty p u))" for ty p u
    by (simp add: demo_bodies_def queue_kept_refl)
  have "queue_kept (init_store default_options 1000) one_backfill"
    unfolding one_backfill_def by (rule queue_kept_trans[OF queue_writes.R_address queue_kept_enqueue])
  then have i: "jobs_inv one_backfill" using init_store_inv by (simp add: queue_kept_def)
  have "list_all (\<lambda>j. \<not> is_running j) (jobs one_backfill)" "pendingJobCount (sched one_backfill) = 1"
    "tickLeaseUntil (sched one_backfill) = None"
    by code_simp+
  moreover from this have "running_ids one_backfill = {}" by (auto simp: running_ids_def list_all_iff)
  ultimately show ?thesis using runCronScheduled_sound[OF i q e] unfolding e by auto
qed

end
