(* ===== verification/CrawlTurns.thy ===== *)
theory CrawlTurns
  imports TickProps
begin

text \<open>
  Whose turn it is: the poll index of the scheduler row is advanced by the maintenance of a hacker and
  by the crawl around a hacker, and by nothing else in a schedule phase.
\<close>

section \<open>What leaves the index and the tick counter alone\<close>

named_theorems cursor_simps

lemma cursor_sched [cursor_simps]:
  "(\<And>r. hackerPollIndex (f r) = hackerPollIndex r) \<Longrightarrow> (\<And>r. maintenanceCronCounter (f r) = maintenanceCronCounter r) \<Longrightarrow>
     cursor (updateSchedulerState f s) = cursor s"
  by (simp add: cursor_def)

lemma cursor_counter [simp]:
  "hackerPollIndex (counter_upd k f r) = hackerPollIndex r"
  "maintenanceCronCounter (counter_upd k f r) = maintenanceCronCounter r"
  by (cases k; simp)+

lemma cursor_tables [cursor_simps]:
  "cursor (s\<lparr>jobs := js\<rparr>) = cursor s" "cursor (s\<lparr>job_seq := i\<rparr>) = cursor s" "cursor (s\<lparr>addresses := rows\<rparr>) = cursor s"
  "cursor (s\<lparr>rate_limits := rl\<rparr>) = cursor s" "cursor (s\<lparr>sync_state := ss\<rparr>) = cursor s"
  "cursor (s\<lparr>hack_stats := hs\<rparr>) = cursor s" "cursor (s\<lparr>hack_victims := hv\<rparr>) = cursor s"
  by (simp_all add: cursor_def)

lemma cursor_adjust [cursor_simps]: "cursor (adjust k d s) = cursor s"
  by (simp add: adjust_def cursor_simps)

lemma cursor_enqueue [cursor_simps]: "cursor (snd (enqueueJobIfAbsent ty p pr ra dt ad b s)) = cursor s"
proof -
  have "cursor (snd (shouldAllowEnqueue ty p b s)) = cursor s"
    by (simp add: shouldAllowEnqueue_def Let_def setQueueSchedulingPaused_def cursor_simps)
  moreover have "cursor (snd (insert_job ty p pr ra t)) = cursor t" for t
    by (simp add: insert_job_def Let_def afterJobInserted_def adjustPendingJobCount_def adjustActiveJobCount_def
      cursor_simps split: option.split)
  ultimately show ?thesis
    by (auto simp: enqueueJobIfAbsent_def Let_def split: prod.split bool.split)
qed

lemma cursor_status [cursor_simps]: "cursor (setExpandStatus a x s) = cursor s"
proof -
  have "cursor (maybeMarkMonitorSnapshotDirty b c t) = cursor t" for b c t
    by (auto simp: maybeMarkMonitorSnapshotDirty_def Let_def adjustPollDueCountDelta_def markMonitorSnapshotDirty_def
      cursor_simps split: option.split)
  then show ?thesis
    by (simp add: setExpandStatus_def Let_def set_addresses_def adjustCrawlPendingCount_def flip_counter_def
      adjustSchedulerCounter_def cursor_simps split: option.split)
qed

lemma cursor_rows [cursor_simps]:
  "cursor (snd (listHackersCached age act s)) = cursor s"
  "cursor (refresh_summaries cfg s) = cursor s"
proof -
  show "cursor (snd (listHackersCached age act s)) = cursor s"
    by (simp add: listHackersCached_def Let_def refreshFlaggedHackersCache_def cursor_simps)
  have tree: "cursor (snd (reconcileDownstreamTreeCount d t)) = cursor t" for d t
    by (simp add: reconcileDownstreamTreeCount_def cursor_simps)
  have m: "cursor (snd (getDownstreamMonitorStatsCached d i f mn t)) = cursor t" for d i f mn t
    by (simp add: getDownstreamMonitorStatsCached_def countDownstreamTreeNodes_def Let_def split_beta tree cursor_simps)
  have r: "cursor (snd (maybeRefreshSyncSnapshot p n t)) = cursor t" for p n t
    by (simp add: maybeRefreshSyncSnapshot_def refreshSyncSnapshot_def Let_def split_beta m cursor_simps split: option.split)
  show "cursor (refresh_summaries cfg s) = cursor s"
    by (simp add: refresh_summaries_def r ensurePollDueCacheParams_def markMonitorSnapshotDirty_def
      ensureDownstreamTreeDepth_def tree Let_def cursor_simps)
qed

lemma cursor_fold: "(\<And>x ns. cursor (snd (f x ns)) = cursor (snd ns)) \<Longrightarrow> cursor (snd (fold f xs ns)) = cursor (snd ns)"
  by (induction xs arbitrary: ns) simp_all

lemma cursor_loops [cursor_simps]:
  "cursor (snd (fold enqueue_expand xs ns)) = cursor (snd ns)" "cursor (snd (fold enqueue_poll_of xs ns)) = cursor (snd ns)"
proof -
  have "cursor t = cursor (snd ns)" if "enqueueJobIfAbsent ty p pr ra dt ad b (snd ns) = (i, t)" for ty p pr ra dt ad b i t ns
    using cursor_enqueue that by (metis snd_conv)
  then show "cursor (snd (fold enqueue_expand xs ns)) = cursor (snd ns)" "cursor (snd (fold enqueue_poll_of xs ns)) = cursor (snd ns)"
    by (intro cursor_fold; auto simp: enqueue_expand_def enqueue_poll_of_def cursor_simps split: prod.split option.split)+
qed

lemma cursor_maintenance [cursor_simps]: "cursor (snd (runScheduledMaintenance cfg late n skip force s)) = cursor s"
  using housekept_scheduled[of s cfg late n skip force] by (simp add: housekept_def)

lemma cursor_if: "cursor (if b then s else t) = (if b then cursor s else cursor t)"
  by simp

lemma cursor_parts [cursor_simps]:
  "cursor (enqueueBackfillResume a s) = cursor s" "cursor (enqueue_about ty a prio dd s) = cursor s"
  "cursor (schedule_source cfg ec skip ts la ev ty pr s) = cursor s" "cursor (op_return_phase env cfg reserve ec isOp s) = cursor s"
  "cursor (snd (poll_phase cfg s)) = cursor s"
  by (simp_all add: enqueueBackfillResume_def enqueue_about_def schedule_source_def
    op_return_phase_def poll_phase_def Let_def cursor_simps)

lemma cursor_phases [cursor_simps]:
  "cursor (schedule_sources cfg ec skip ts s) = cursor s" "cursor (resume_picked cfg ec a s) = cursor s"
  "cursor (maintain_backfill cfg a ts th s) = cursor s"
  by (simp_all only: schedule_sources_def resume_picked_def maintain_backfill_def Let_def cursor_if cursor_parts if_cancel)

lemma cursor_maintain [cursor_simps]: "cursor (maintainOneHacker cfg a b ts th s) = cursor s"
  by (simp only: maintainOneHacker_def Let_def cursor_if cursor_parts cursor_phases if_cancel)

section \<open>What moves them\<close>

lemma next_hacker_turn:
  assumes "0 < length hs"
  shows "fst (next_hacker hs s) = hs ! nat (hackerPollIndex (sched s) mod int (length hs))"
    and "cursor (snd (next_hacker hs s)) = ((hackerPollIndex (sched s) + 1) mod int (length hs), maintenanceCronCounter (sched s))"
proof -
  let ?n = "int (length hs)" and ?i = "hackerPollIndex (sched s)"
  have "((?i + 1) mod ?n - 1 + ?n) mod ?n = ?i mod ?n"
    by (metis add_diff_cancel_right' mod_add_self2 mod_diff_left_eq)
  then show "fst (next_hacker hs s) = hs ! nat (?i mod ?n)"
    using assms by (simp add: next_hacker_def claim_poll_index_def Let_def)
  show "cursor (snd (next_hacker hs s)) = ((?i + 1) mod ?n, maintenanceCronCounter (sched s))"
    using assms by (simp add: next_hacker_def claim_poll_index_def Let_def cursor_def)
qed

text \<open>The hacker that a schedule phase maintains.\<close>

definition maintained :: "sched_env \<Rightarrow> config \<Rightarrow> int \<Rightarrow> store \<Rightarrow> addr_row option" where
  "maintained env cfg reserve s =
     (let (pl, s2) = crawl_start env cfg reserve s
      in if is_maint_tick cfg pl \<and> \<not> scheduleBudgetLow (se_budget env At_maintain) reserve 8 \<and> cp_hackers pl \<noteq> []
         then Some (fst (next_hacker (cp_hackers pl) s2)) else None)"

text \<open>A tick on which nothing is skipped for want of budget, quota or room in the queue.\<close>

definition full_tick :: "sched_env \<Rightarrow> config \<Rightarrow> int \<Rightarrow> addr_row list \<Rightarrow> store \<Rightarrow> bool" where
  "full_tick env cfg reserve hs s \<longleftrightarrow>
     \<not> isRebuildActive cfg None s \<and> \<not> isD1QuotaBlocked (Some D1_write) s \<and>
     fst (listHackersCached None False s) = hs \<and> hs \<noteq> [] \<and>
     pendingJobCount (sched s) < queueSoftThrottleDepth cfg \<and>
     \<not> scheduleBudgetLow (se_budget env At_crawl) reserve 5 \<and>
     \<not> scheduleBudgetLow (se_budget env At_maintain) reserve 8"

lemma cached_depth: "pendingJobCount (sched (snd (listHackersCached age act s))) = pendingJobCount (sched s)"
  by (simp add: listHackersCached_def Let_def refreshFlaggedHackersCache_def)

lemma crawl_start_turn:
  assumes "crawl_start env cfg reserve s = (pl, s2)" and "full_tick env cfg reserve hs s"
  shows "cp_hackers pl = hs" "\<not> cp_skip pl" "\<not> cp_throttled pl" "cp_tick pl = maintenanceCronCounter (sched s) + 1"
    and "cursor s2 = (hackerPollIndex (sched s), maintenanceCronCounter (sched s) + 1)"
proof -
  obtain l where l: "listHackersCached None False s = (hs, l)" using assms(2) by (cases "listHackersCached None False s") (simp add: full_tick_def)
  have c: "cursor l = cursor s" using cursor_rows(1) l by (metis snd_conv)
  have d: "pendingJobCount (sched l) = pendingJobCount (sched s)" using cached_depth l by (metis snd_conv)
  let ?ec = "loadScheduleEnqueueCache l" and ?skip = "scheduleBudgetLow (se_budget env At_crawl) reserve 5"
  let ?u = "schedule_sources cfg ?ec ?skip (clock l) l"
  have u: "cursor ?u = cursor s" using c by (simp add: cursor_simps)
  have p: "pl = \<lparr>cp_hackers = hs, cp_ts = clock l, cp_cache = ?ec, cp_throttled = (ec_depth ?ec \<ge> queueSoftThrottleDepth cfg),
      cp_skip = ?skip, cp_tick = fst (increment_cron_counter ?u)\<rparr>" "s2 = snd (increment_cron_counter ?u)"
    using assms(1) by (auto simp: crawl_start_def l Let_def split: prod.splits)
  show "cp_hackers pl = hs" "\<not> cp_skip pl" "\<not> cp_throttled pl"
    using assms(2) d by (simp_all add: p(1) full_tick_def loadScheduleEnqueueCache_def)
  show "cp_tick pl = maintenanceCronCounter (sched s) + 1" "cursor s2 = (hackerPollIndex (sched s), maintenanceCronCounter (sched s) + 1)"
    using u by (simp_all add: p increment_cron_counter_def Let_def cursor_def)
qed

lemma full_tick_turn:
  assumes "full_tick env cfg reserve hs s"
  shows "cursor (snd (scheduleDownstreamCrawl env cfg reserve s)) =
      ((hackerPollIndex (sched s) + 1 + b2i (every_n (hackerMaintenanceEveryNCrons cfg) (maintenanceCronCounter (sched s) + 1)))
         mod int (length hs), maintenanceCronCounter (sched s) + 1)" (is "?A")
    and "maintained env cfg reserve s =
      (if every_n (hackerMaintenanceEveryNCrons cfg) (maintenanceCronCounter (sched s) + 1)
       then Some (hs ! nat (hackerPollIndex (sched s) mod int (length hs))) else None)" (is "?B")
proof -
  obtain pl s2 where st: "crawl_start env cfg reserve s = (pl, s2)" by fastforce
  note pl = crawl_start_turn[OF st assms]
  let ?i = "hackerPollIndex (sched s)" and ?n = "int (length hs)"
  let ?due = "every_n (hackerMaintenanceEveryNCrons cfg) (maintenanceCronCounter (sched s) + 1)"
  have hs: "0 < length hs" and low: "\<not> scheduleBudgetLow (se_budget env At_maintain) reserve 8"
    using assms by (auto simp: full_tick_def)
  have due: "is_maint_tick cfg pl = ?due" by (simp add: is_maint_tick_def pl)
  have i2: "hackerPollIndex (sched s2) = ?i" "maintenanceCronCounter (sched s2) = maintenanceCronCounter (sched s) + 1"
    using pl(5) by (simp_all add: cursor_def)
  show ?B using hs low due next_hacker_turn(1)[OF hs, of s2] by (simp add: maintained_def st pl(1) i2)
  let ?m = "maintain_phase env cfg reserve (cp_hackers pl) (cp_ts pl) (cp_throttled pl) (is_maint_tick cfg pl) s2"
  have m: "cursor ?m = (if ?due then (?i + 1) mod ?n else ?i, maintenanceCronCounter (sched s) + 1)"
    using hs low next_hacker_turn(2)[OF hs, of s2] pl(5)
    by (simp add: maintain_phase_def due pl(1) i2 cursor_simps split_beta)
  have cr: "cursor (snd (crawl_phase cfg ec hs u)) = ((hackerPollIndex (sched u) + 1) mod ?n, maintenanceCronCounter (sched u))" for ec u
    using hs next_hacker_turn(2)[OF hs, of u] by (simp add: crawl_phase_def Let_def cursor_simps split_beta)
  have "cursor (snd (snd (crawl_and_poll env cfg reserve pl ?m))) =
      ((?i + 1 + b2i ?due) mod ?n, maintenanceCronCounter (sched s) + 1)"
  proof -
    let ?o = "op_return_phase env cfg reserve (cp_cache pl) (every_n (opReturnBackfillEveryNCrons cfg) (cp_tick pl)) ?m"
    have o: "cursor ?o = cursor ?m" by (simp add: cursor_simps)
    have "(hackerPollIndex (sched ?o) + 1) mod ?n = (?i + 1 + b2i ?due) mod ?n"
      using o m by (simp add: cursor_def mod_add_left_eq mod_add_right_eq b2i_def add.commute add.left_commute mod_simps)
    moreover have "maintenanceCronCounter (sched ?o) = maintenanceCronCounter (sched s) + 1" using o m by (simp add: cursor_def)
    ultimately show ?thesis
      using pl(2,3) cr[of "cp_cache pl" ?o] by (simp add: crawl_and_poll_def pl(1) Let_def cursor_simps split_beta)
  qed
  then show ?A
    using assms by (simp add: scheduleDownstreamCrawl_def full_tick_def st Let_def cursor_simps split_beta)
qed

section \<open>Many ticks\<close>

definition crawl_runs :: "sched_env \<Rightarrow> config \<Rightarrow> int \<Rightarrow> nat \<Rightarrow> store \<Rightarrow> store" where
  "crawl_runs env cfg reserve k = (\<lambda>s. snd (scheduleDownstreamCrawl env cfg reserve s)) ^^ k"

lemma mod_pred:
  fixes N x :: int
  assumes "0 < N" and "(x + 1) mod N = 0" shows "x mod N = N - 1"
proof -
  obtain q where "x + 1 = N * q" using assms(2) by (metis mod_0_imp_dvd dvdE)
  then have "x = (N - 1) + N * (q - 1)" by (simp add: right_diff_distrib)
  then have "x mod N = (N - 1) mod N" by (metis mod_mult_self2)
  also have "(N - 1) mod N = N - 1" using assms(1) by (intro mod_pos_pos_trivial) linarith+
  finally show ?thesis .
qed

lemma div_step:
  fixes N x :: int
  assumes "0 < N" shows "(x + 1) div N = x div N + b2i ((x + 1) mod N = 0)"
proof (cases "(x + 1) mod N = 0")
  case True
  have "x = N * (x div N) + (N - 1)" using mod_pred[OF assms True] by (metis mult_div_mod_eq)
  then have "x + 1 = (x div N + 1) * N" by (simp add: algebra_simps)
  then have "(x + 1) div N = x div N + 1" using assms by (metis nonzero_mult_div_cancel_right less_irrefl)
  then show ?thesis using True by simp
next
  case False
  have r: "0 \<le> (x + 1) mod N - 1" "(x + 1) mod N - 1 < N"
    using False assms pos_mod_bound[of N "x + 1"] pos_mod_sign[of N "x + 1"] by linarith+
  have "x = N * ((x + 1) div N) + ((x + 1) mod N - 1)" using mult_div_mod_eq[of N "x + 1"] by linarith
  then have "x div N = (x + 1) div N" using r by (rule int_div_pos_eq)
  then show ?thesis using False by simp
qed

lemma every_shift:
  fixes c :: int
  assumes "0 < N" and "c mod N = 0" shows "every_n N (c + x) = (x mod N = 0)"
proof -
  have "(c + x) mod N = x mod N" using assms(2) by (metis add_0 mod_add_left_eq)
  then show ?thesis using assms(1) by (simp add: every_n_def)
qed

lemma turns_after:
  assumes "0 < hackerMaintenanceEveryNCrons cfg" and "maintenanceCronCounter (sched s) mod hackerMaintenanceEveryNCrons cfg = 0"
    and "\<forall>i<k. full_tick env cfg reserve hs (crawl_runs env cfg reserve i s)" and "i \<le> k"
  shows "hackerPollIndex (sched (crawl_runs env cfg reserve i s)) mod int (length hs) =
      (hackerPollIndex (sched s) + int i + int i div hackerMaintenanceEveryNCrons cfg) mod int (length hs) \<and>
    maintenanceCronCounter (sched (crawl_runs env cfg reserve i s)) = maintenanceCronCounter (sched s) + int i"
  using assms(4)
proof (induction i)
  case 0
  then show ?case by (simp add: crawl_runs_def)
next
  case (Suc i)
  let ?N = "hackerMaintenanceEveryNCrons cfg" and ?n = "int (length hs)" and ?t = "crawl_runs env cfg reserve i s"
  have f: "full_tick env cfg reserve hs ?t" using assms(3) Suc.prems by simp
  have st: "crawl_runs env cfg reserve (Suc i) s = snd (scheduleDownstreamCrawl env cfg reserve ?t)"
    by (simp add: crawl_runs_def)
  have c: "maintenanceCronCounter (sched ?t) = maintenanceCronCounter (sched s) + int i" using Suc by simp
  have e: "every_n ?N (maintenanceCronCounter (sched ?t) + 1) = ((int i + 1) mod ?N = 0)"
    unfolding c add.assoc by (rule every_shift[OF assms(1,2)])
  have d: "int (Suc i) div ?N = int i div ?N + b2i ((int i + 1) mod ?N = 0)"
    using div_step[OF assms(1), of "int i"] by (simp add: add.commute)
  have "hackerPollIndex (sched (crawl_runs env cfg reserve (Suc i) s)) =
      (hackerPollIndex (sched ?t) + 1 + b2i ((int i + 1) mod ?N = 0)) mod ?n"
    and "maintenanceCronCounter (sched (crawl_runs env cfg reserve (Suc i) s)) = maintenanceCronCounter (sched ?t) + 1"
    using full_tick_turn(1)[OF f] unfolding st[symmetric] e by (simp_all add: cursor_def)
  moreover have "(hackerPollIndex (sched ?t) + (1 + b2i ((int i + 1) mod ?N = 0))) mod ?n =
      (hackerPollIndex (sched s) + int i + int i div ?N + (1 + b2i ((int i + 1) mod ?N = 0))) mod ?n"
    using Suc by (intro mod_add_cong) simp_all
  ultimately show ?case unfolding d using c by (simp add: algebra_simps)
qed

text \<open>
  C31: maintenance does not go around the hackers one by one. The crawl advances the same index, so
  with maintenance every \<open>N\<close> ticks the hackers it maintains lie \<open>N + 1\<close> apart: on ticks where nothing is
  held back, tick \<open>i\<close> maintains the hacker of index \<open>i0 + (N - 1) + (i div N)(N + 1)\<close> modulo their
  number. When \<open>N + 1\<close> and the number of hackers have a common divisor \<open>g\<close>, the indices maintained all
  leave the same remainder modulo \<open>g\<close>: of 22 hackers with the default of 10, maintenance only ever
  reaches two, and of 11 only one; a hacker with another remainder is never maintained.
\<close>

theorem maintenance_stride:
  assumes "0 < N" and "N = hackerMaintenanceEveryNCrons cfg" and "maintenanceCronCounter (sched s) mod N = 0"
    and "\<forall>i<k. full_tick env cfg reserve hs (crawl_runs env cfg reserve i s)"
    and "i < k" and "(int i + 1) mod N = 0" and "hs \<noteq> []"
  shows "maintained env cfg reserve (crawl_runs env cfg reserve i s) =
      Some (hs ! nat ((hackerPollIndex (sched s) + (N - 1) + (int i div N) * (N + 1)) mod int (length hs))) \<and>
    (\<forall>g y. g dvd N + 1 \<and> g dvd int (length hs) \<and> distinct hs \<and> y < length hs \<and>
       int y mod g \<noteq> (hackerPollIndex (sched s) + (N - 1)) mod g \<longrightarrow>
       maintained env cfg reserve (crawl_runs env cfg reserve i s) \<noteq> Some (hs ! y))"
proof -
  let ?t = "crawl_runs env cfg reserve i s" and ?n = "int (length hs)" and ?j = "int i div N"
  have N: "0 < hackerMaintenanceEveryNCrons cfg" "maintenanceCronCounter (sched s) mod hackerMaintenanceEveryNCrons cfg = 0"
    using assms(1-3) by simp_all
  have f: "full_tick env cfg reserve hs ?t" using assms(4,5) by simp
  note tn = turns_after[OF N assms(4) less_imp_le[OF assms(5)]]
  have c: "maintenanceCronCounter (sched ?t) + 1 = maintenanceCronCounter (sched s) + (int i + 1)" using tn by simp
  have e: "every_n N (maintenanceCronCounter (sched ?t) + 1)"
    unfolding c using every_shift[OF assms(1,3), of "int i + 1"] assms(6) by simp
  have "int i mod N = N - 1" by (rule mod_pred[OF assms(1,6)])
  then have i: "int i = ?j * N + (N - 1)" by (metis div_mult_mod_eq)
  have j: "hackerPollIndex (sched s) + int i + ?j = hackerPollIndex (sched s) + (N - 1) + ?j * (N + 1)"
    using i by (simp add: algebra_simps)
  let ?x = "(hackerPollIndex (sched s) + (N - 1) + ?j * (N + 1)) mod ?n"
  have m: "maintained env cfg reserve ?t = Some (hs ! nat ?x)"
    unfolding j[symmetric] using full_tick_turn(2)[OF f, folded assms(2)] e conjunct1[OF tn, folded assms(2)] by simp
  have "?x mod g = (hackerPollIndex (sched s) + (N - 1)) mod g" if "g dvd N + 1" "g dvd ?n" for g
  proof -
    have "?x mod g = (hackerPollIndex (sched s) + (N - 1) + ?j * (N + 1)) mod g" using that(2) by (rule mod_mod_cancel)
    also have "\<dots> = (hackerPollIndex (sched s) + (N - 1)) mod g" using that(1) by (auto simp: mod_eq_dvd_iff)
    finally show ?thesis .
  qed
  then have "hs ! nat ?x \<noteq> hs ! y"
    if "g dvd N + 1" "g dvd ?n" "distinct hs" "y < length hs" "int y mod g \<noteq> (hackerPollIndex (sched s) + (N - 1)) mod g" for g y
    using that assms(7) nth_eq_iff_index_eq[OF that(3), of "nat ?x" y] by (auto simp: nat_less_iff)
  with m show ?thesis by auto
qed

text \<open>
  Two hackers, maintained on every tick, the queue paused: the second tick maintains the first hacker
  again, and no tick the second one.
\<close>

definition two_hackers :: store where
  "two_hackers = setQueueSchedulingPaused True
     (upsertAddress ((plain_upsert ''h2'')\<lparr>u_role := Some Hacker, u_flagged := Some True, u_hop := Some (Some 0)\<rparr>)
       (upsertAddress ((plain_upsert ''h1'')\<lparr>u_role := Some Hacker, u_flagged := Some True, u_hop := Some (Some 0)\<rparr>)
          (init_store default_options 1000)))"

definition every_tick :: config where
  "every_tick = default_config\<lparr>hackerMaintenanceEveryNCrons := 1\<rparr>"

definition demo_sched :: sched_env where
  "demo_sched = \<lparr>se_budget = (\<lambda>p. \<lparr>b_cap = 0, b_used = 0\<rparr>), se_price = Inr (60000, 900), se_late = (\<lambda>p b. True)\<rparr>"

lemma two_hackers_ticks:
  "map address_of (fst (listHackersCached None False two_hackers)) = [''h1'', ''h2'']"
  "hackerPollIndex (sched two_hackers) = 0" "maintenanceCronCounter (sched two_hackers) = 0"
  "full_tick demo_sched every_tick 0 (fst (listHackersCached None False two_hackers)) two_hackers"
  by code_simp+

lemma two_hackers_next_tick:
  "full_tick demo_sched every_tick 0 (fst (listHackersCached None False two_hackers))
     (snd (scheduleDownstreamCrawl demo_sched every_tick 0 two_hackers))"
  by code_simp

theorem maintenance_stride_witness:
  "\<exists>hs. map address_of hs = [''h1'', ''h2''] \<and>
     maintained demo_sched every_tick 0 (crawl_runs demo_sched every_tick 0 1 two_hackers) = Some (hs ! 0) \<and>
     maintained demo_sched every_tick 0 (crawl_runs demo_sched every_tick 0 1 two_hackers) \<noteq> Some (hs ! 1)"
proof -
  let ?hs = "fst (listHackersCached None False two_hackers)"
  have f: "\<forall>i<2. full_tick demo_sched every_tick 0 ?hs (crawl_runs demo_sched every_tick 0 i two_hackers)"
    using two_hackers_ticks(4) two_hackers_next_tick by (simp add: crawl_runs_def less_2_cases_iff)
  have l: "length ?hs = 2" using two_hackers_ticks(1) by (metis length_map length_Cons list.size(3) numeral_2_eq_2 One_nat_def)
  have "distinct (map address_of ?hs)" by (simp add: two_hackers_ticks(1))
  then have d: "distinct ?hs" by (simp add: distinct_map)
  have n: "1 = hackerMaintenanceEveryNCrons every_tick" by (simp add: every_tick_def)
  have c: "maintenanceCronCounter (sched two_hackers) mod 1 = 0" by simp
  have ne: "?hs \<noteq> []" using l by auto
  note r = maintenance_stride[OF _ n c f, of 1]
  have "maintained demo_sched every_tick 0 (crawl_runs demo_sched every_tick 0 1 two_hackers) = Some (?hs ! 0)"
    using r ne two_hackers_ticks(2) l by simp
  moreover have "?hs ! 0 \<noteq> ?hs ! 1" using d l by (simp add: nth_eq_iff_index_eq)
  ultimately show ?thesis using two_hackers_ticks(1) by (intro exI[of _ ?hs]) simp
qed

end
