(* ===== verification/Operator.thy ===== *)
theory Operator
  imports AddrReach Crawl
begin

text \<open>
  The operator commands of \<open>packages/core/src/ops\<close> and the store operations that only they use:
  adding and removing a hacker, clearing the queue, expanding an address, repairing roles and pruning
  addresses that are not valid.

  Whether a text is an address is decided by a library (\<open>bitcoinjs-lib\<close>): it is the parameter
  \<open>valid\<close>. Texts are ASCII.
\<close>

section \<open>Names\<close>

definition starts_with :: "string \<Rightarrow> string \<Rightarrow> bool" where
  "starts_with p t \<longleftrightarrow> take (length p) t = p"

definition normalizeBitcoinAddress :: "(string \<Rightarrow> bool) \<Rightarrow> string \<Rightarrow> address option" where
  "normalizeBitcoinAddress valid raw =
     (let a = trim raw
      in if a = [] \<or> length a > 90 then None
         else if valid a then Some (if starts_with ''bc1'' a \<or> starts_with ''BC1'' a then map lower a else a)
         else None)"

definition hackDefaultsToXSource :: "string \<Rightarrow> bool" where
  "hackDefaultsToXSource h \<longleftrightarrow> h = ''liquid'' \<or> h = ''ledger'' \<or> h = ''binance''"

section \<open>Edges and addresses\<close>

definition touches :: "address \<Rightarrow> edge_row \<Rightarrow> bool" where
  "touches a e \<longleftrightarrow> fromAddress e = a \<or> toAddress e = a"

definition listVictimAddressesForHacker :: "address \<Rightarrow> store \<Rightarrow> address list" where
  "listVictimAddressesForHacker h s =
     uniq (map fromAddress (filter (\<lambda>e. toAddress e = h \<and> direction_of e = In_to_hacker) (edges s)))"

definition outbound_to :: "store \<Rightarrow> address \<Rightarrow> address list" where
  "outbound_to s a =
     map toAddress (filter (\<lambda>e. fromAddress e = a \<and> direction_of e = Out_from_hacker) (edges s))"

text \<open>
  The breadth-first walk along the out-edges. \<open>seen\<close> is the insertion-ordered set of the code; an
  address enters the queue when it enters \<open>seen\<close>.
\<close>

definition visit :: "address list \<Rightarrow> address list \<Rightarrow> address list" where
  "visit seen outs = uniq (filter (\<lambda>a. a \<notin> set seen) outs)"

function down_search :: "store \<Rightarrow> address list \<Rightarrow> address list \<Rightarrow> address list" where
  "down_search s [] seen = seen"
| "down_search s (cur # queue) seen =
     (let fresh = visit seen (outbound_to s cur) in down_search s (queue @ fresh) (seen @ fresh))"
  by pat_completeness auto

definition unseen :: "store \<Rightarrow> address list \<Rightarrow> address set" where
  "unseen s seen = toAddress ` set (edges s) - set seen"

lemma set_visit: "set (visit seen outs) = set outs - set seen"
  by (auto simp: visit_def)

lemma outbound_sub: "set (outbound_to s a) \<subseteq> toAddress ` set (edges s)"
  by (auto simp: outbound_to_def)

termination down_search
proof (relation "measures [\<lambda>(s, queue, seen). card (unseen s seen), \<lambda>(s, queue, seen). length queue]", goal_cases)
  case (2 s cur queue seen fresh)
  have fin: "finite (unseen s seen)" by (simp add: unseen_def)
  show ?case
  proof (cases "fresh = []")
    case False
    then obtain x where "x \<in> set fresh" by (cases fresh) auto
    then have "x \<in> unseen s seen - unseen s (seen @ fresh)"
      using outbound_sub[of s cur] 2 by (auto simp: unseen_def set_visit)
    then have "card (unseen s (seen @ fresh)) < card (unseen s seen)"
      by (intro psubset_card_mono[OF fin]) (auto simp: unseen_def)
    then show ?thesis by simp
  qed simp
qed simp

definition collectDownstreamAddresses :: "address \<Rightarrow> store \<Rightarrow> address list" where
  "collectDownstreamAddresses h s = filter (\<lambda>a. a \<noteq> h) (down_search s [h] [h])"

definition deleteEdgesTouchingAddress :: "address \<Rightarrow> store \<Rightarrow> int \<times> store" where
  "deleteEdgesTouchingAddress a s =
     (let inboundTargets = map toAddress (filter (\<lambda>e. direction_of e = Out_from_hacker \<and> touches a e) (edges s))
      in (count_rows (touches a) (edges s),
          recalcInboundSatsFor inboundTargets (s\<lparr>edges := filter (\<lambda>e. \<not> touches a e) (edges s)\<rparr>)))"

definition countInToHackerEdgesToOtherFlagged :: "address \<Rightarrow> address \<Rightarrow> store \<Rightarrow> int" where
  "countInToHackerEdgesToOtherFlagged victim exclude s =
     count_rows (\<lambda>e. fromAddress e = victim \<and> direction_of e = In_to_hacker \<and>
                     flagged_address s (toAddress e) \<and> toAddress e \<noteq> exclude) (edges s)"

definition hasEdgeWithOtherFlaggedHacker :: "address \<Rightarrow> address \<Rightarrow> store \<Rightarrow> bool" where
  "hasEdgeWithOtherFlaggedHacker a exclude s \<longleftrightarrow>
     (\<exists>e\<in>set (edges s). touches a e \<and>
        (let other = (if fromAddress e = a then toAddress e else fromAddress e)
         in other \<noteq> exclude \<and> other \<noteq> a \<and> flagged_address s other))"

definition hasOutFromHackerInboundOutside :: "address \<Rightarrow> address list \<Rightarrow> address \<Rightarrow> store \<Rightarrow> bool" where
  "hasOutFromHackerInboundOutside a candidates exclude s \<longleftrightarrow>
     (\<exists>x\<in>set (inbound_from s a). x \<noteq> exclude \<and> x \<notin> set candidates)"

section \<open>Adding and removing a hacker\<close>

record add_result =
  ad_address :: address
  ad_enqueued :: bool

definition addHacker ::
  "(string \<Rightarrow> bool) \<Rightarrow> string \<Rightarrow> string option \<Rightarrow> string option \<Rightarrow> string option \<Rightarrow> store
   \<Rightarrow> (string + add_result) \<times> store" where
  "addHacker valid raw label source hack s =
     (case normalizeBitcoinAddress valid raw of
        None \<Rightarrow> (Inl (''Invalid Bitcoin address: '' @ raw), s)
      | Some a \<Rightarrow>
          (let h = or_else hack ''coldcard'';
               given = (case source of Some t \<Rightarrow> trim t | None \<Rightarrow> []);
               src = (if given \<noteq> [] then given else if hackDefaultsToXSource h then ''x'' else ''ops'');
               s1 = upsertAddress ((plain_upsert a)\<lparr>u_role := Some Hacker, u_flagged := Some True,
                      u_hop := Some (Some 0), u_source := Some src, u_hackId := Some h,
                      u_label := map_option Some label\<rparr>) s;
               (i, s2) = enqueueJobIfAbsent Backfill_hacker_address [(''address'', JStr a)] BACKFILL_HACKER None
                           None (Some a) True s1
           in (Inr \<lparr>ad_address = a, ad_enqueued = (i \<noteq> None)\<rparr>, s2)))"

record remove_result =
  rm_unflagged :: bool
  rm_jobsCancelled :: int
  rm_victimsPruned :: int
  rm_downstreamPruned :: int
  rm_edgesRemoved :: int

text \<open>The state of the two loops: what they have pruned, the edges removed, the store.\<close>

record prune_state =
  pn_pruned :: "address list"
  pn_edges :: int
  pn_store :: store

definition prune_address :: "address \<Rightarrow> prune_state \<Rightarrow> prune_state" where
  "prune_address x p =
     (let (n, s1) = deleteEdgesTouchingAddress x (pn_store p)
      in \<lparr>pn_pruned = x # pn_pruned p, pn_edges = pn_edges p + n, pn_store = deleteAddress x s1\<rparr>)"

definition victim_exclusive :: "address \<Rightarrow> address \<Rightarrow> prune_state \<Rightarrow> bool" where
  "victim_exclusive h v p \<longleftrightarrow> v \<noteq> h \<and> v \<notin> set (pn_pruned p) \<and>
     countInToHackerEdgesToOtherFlagged v h (pn_store p) \<le> 0 \<and>
     (case getAddress v (pn_store p) of Some r \<Rightarrow> \<not> isFlaggedHacker r | None \<Rightarrow> False)"

definition downstream_exclusive :: "address \<Rightarrow> address list \<Rightarrow> address \<Rightarrow> prune_state \<Rightarrow> bool" where
  "downstream_exclusive h candidates c p \<longleftrightarrow> c \<noteq> h \<and> c \<notin> set (pn_pruned p) \<and>
     (case getAddress c (pn_store p) of Some r \<Rightarrow> \<not> isFlaggedHacker r | None \<Rightarrow> False) \<and>
     \<not> hasEdgeWithOtherFlaggedHacker c h (pn_store p) \<and>
     \<not> hasOutFromHackerInboundOutside c candidates h (pn_store p)"

definition prune_when :: "(address \<Rightarrow> prune_state \<Rightarrow> bool) \<Rightarrow> address list \<Rightarrow> prune_state \<Rightarrow> prune_state" where
  "prune_when ok xs p = fold (\<lambda>x q. if ok x q then prune_address x q else q) xs p"

definition prune_exclusive :: "address \<Rightarrow> address list \<Rightarrow> address list \<Rightarrow> store \<Rightarrow> (int \<times> int) \<times> prune_state" where
  "prune_exclusive h victims down s =
     (let (n, s1) = deleteEdgesTouchingAddress h s;
          p1 = prune_when (victim_exclusive h) victims \<lparr>pn_pruned = [], pn_edges = n, pn_store = s1\<rparr>;
          p2 = prune_when (downstream_exclusive h down) down p1
      in ((int (length (pn_pruned p1)), int (length (pn_pruned p2)) - int (length (pn_pruned p1))), p2))"

definition removeHacker ::
  "(string \<Rightarrow> bool) \<Rightarrow> string \<Rightarrow> bool \<Rightarrow> store \<Rightarrow> (string + remove_result) \<times> store" where
  "removeHacker valid raw pruneExclusive s =
     (case normalizeBitcoinAddress valid raw of
        None \<Rightarrow> (Inl (''Invalid Bitcoin address: '' @ raw), s)
      | Some a \<Rightarrow>
          if \<not> flagged_address s a
          then (Inr \<lparr>rm_unflagged = False, rm_jobsCancelled = 0, rm_victimsPruned = 0, rm_downstreamPruned = 0,
                     rm_edgesRemoved = 0\<rparr>, s)
          else
            (let victims = listVictimAddressesForHacker a s; down = collectDownstreamAddresses a s;
                 s1 = upsertAddress ((plain_upsert a)\<lparr>u_flagged := Some False\<rparr>) s;
                 (cancelled, s2) = deleteActiveJobsForAddress a s1
             in if pruneExclusive
                then (let ((v, d), p) = prune_exclusive a victims down s2
                      in (Inr \<lparr>rm_unflagged = True, rm_jobsCancelled = cancelled, rm_victimsPruned = v,
                               rm_downstreamPruned = d, rm_edgesRemoved = pn_edges p\<rparr>, pn_store p))
                else (Inr \<lparr>rm_unflagged = True, rm_jobsCancelled = cancelled, rm_victimsPruned = 0,
                           rm_downstreamPruned = 0, rm_edgesRemoved = 0\<rparr>, s2)))"

section \<open>Clearing the queue\<close>

record clear_result =
  cq_deleted :: int
  cq_pending :: int
  cq_running :: int
  cq_statusesReset :: int
  cq_unpaused :: bool
  cq_leaseCleared :: bool

definition clearQueue :: "store \<Rightarrow> clear_result \<times> store" where
  "clearQueue s =
     (let wasPaused = isQueueSchedulingPaused s;
          hadLease = (case tickLeaseUntil (sched s) of Some t \<Rightarrow> t > clock s | None \<Rightarrow> False);
          ((d, p, r), s1) = deleteActiveJobs s;
          (n, s2) = resetStuckExpandStatuses s1;
          s3 = maybeClearQueueSchedulingPause s2
      in (\<lparr>cq_deleted = d, cq_pending = p, cq_running = r, cq_statusesReset = n,
           cq_unpaused = (wasPaused \<and> \<not> isQueueSchedulingPaused s3), cq_leaseCleared = hadLease\<rparr>,
          clearTickLease s3))"

section \<open>Expansion on demand\<close>

datatype expand_message =
  Not_in_database | Already_queued | Scheduling_paused | Caps_reached | No_expand_job | Expand_running

definition buildEnqueueFailureMessage :: "address \<Rightarrow> store \<Rightarrow> expand_message" where
  "buildEnqueueFailureMessage a s =
     (if hasPendingJob Expand_downstream (Some a) s then Already_queued
      else if isQueueSchedulingPaused s then Scheduling_paused else Caps_reached)"

definition buildBumpFailureMessage :: "address \<Rightarrow> store \<Rightarrow> expand_message" where
  "buildBumpFailureMessage a s =
     (if countActiveJobsForAddress Expand_downstream a s = 0 then No_expand_job else Expand_running)"

record expand_result =
  ex_address :: address
  ex_jobId :: "int option"
  ex_priority :: int
  ex_message :: "expand_message option"

definition enqueueExpandDownstream ::
  "(string \<Rightarrow> bool) \<Rightarrow> string \<Rightarrow> int option \<Rightarrow> store \<Rightarrow> (string + expand_result) \<times> store" where
  "enqueueExpandDownstream valid raw prio s =
     (case normalizeBitcoinAddress valid raw of
        None \<Rightarrow> (Inl (''Invalid Bitcoin address: '' @ raw), s)
      | Some a \<Rightarrow>
          (let p = or_else prio CRON_EXPAND
           in if getAddress a s = None
              then (Inr \<lparr>ex_address = a, ex_jobId = None, ex_priority = p, ex_message = Some Not_in_database\<rparr>, s)
              else if p < 1 then (Inl ''Invalid priority'', s)
              else case enqueueJobIfAbsent Expand_downstream
                          [(''address'', JStr a), (''ops'', JBool True), (''opsPriority'', JNum p)] p None
                          None (Some a) False s of
                     (Some i, s1) \<Rightarrow>
                       (Inr \<lparr>ex_address = a, ex_jobId = Some i, ex_priority = p, ex_message = None\<rparr>,
                        setExpandStatus a XQueued s1)
                   | (None, s1) \<Rightarrow>
                       (Inr \<lparr>ex_address = a, ex_jobId = None, ex_priority = p,
                             ex_message = Some (buildEnqueueFailureMessage a s1)\<rparr>, s1)))"

record bump_result =
  bp_address :: address
  bp_jobIds :: "int list"
  bp_priority :: int
  bp_message :: "expand_message option"

definition bumpExpandDownstream ::
  "(string \<Rightarrow> bool) \<Rightarrow> string \<Rightarrow> int option \<Rightarrow> store \<Rightarrow> (string + bump_result) \<times> store" where
  "bumpExpandDownstream valid raw prio s =
     (case normalizeBitcoinAddress valid raw of
        None \<Rightarrow> (Inl (''Invalid Bitcoin address: '' @ raw), s)
      | Some a \<Rightarrow>
          (let p = or_else prio PROCESS_TX_REBUILD
           in if p < 1 then (Inl ''Invalid priority'', s)
              else let (ids, s1) = bumpPendingExpandDownstream a p True s
                   in (Inr \<lparr>bp_address = a, bp_jobIds = ids, bp_priority = p,
                        bp_message = (if ids \<noteq> [] then None else Some (buildBumpFailureMessage a s1))\<rparr>, s1)))"

section \<open>Repairs\<close>

definition sends_to_hacker :: "store \<Rightarrow> address \<Rightarrow> bool" where
  "sends_to_hacker s a \<longleftrightarrow> (\<exists>e\<in>set (edges s). fromAddress e = a \<and> direction_of e = In_to_hacker)"

definition selected :: "address option \<Rightarrow> address \<Rightarrow> bool" where
  "selected only a \<longleftrightarrow> (case only of Some x \<Rightarrow> x = [] \<or> a = x | None \<Rightarrow> True)"

definition listMislabelledSweepHops :: "address option \<Rightarrow> store \<Rightarrow> address list" where
  "listMislabelledSweepHops only s =
     filter (\<lambda>a. \<not> sends_to_hacker s a)
       (map address_of (filter (\<lambda>r. role_of r = Victim \<and> hopFromHacker r \<noteq> None \<and> selected only (address_of r))
          (addresses s)))"

definition listVictimRolePollution :: "address option \<Rightarrow> store \<Rightarrow> address list" where
  "listVictimRolePollution only s =
     filter (sends_to_hacker s)
       (map address_of (filter (\<lambda>r. role_of r = Downstream \<and> selected only (address_of r)) (addresses s)))"

text \<open>The operations of the store return the number found and the addresses repaired; the commands add the list found.\<close>

definition repairDownstreamRole :: "address option \<Rightarrow> bool \<Rightarrow> store \<Rightarrow> (int \<times> address list) \<times> store" where
  "repairDownstreamRole only dryRun s =
     (let bad = listMislabelledSweepHops only s
      in if dryRun then ((int (length bad), []), s)
         else ((int (length bad), bad),
               fold (\<lambda>a. upsertAddress ((plain_upsert a)\<lparr>u_role := Some Downstream, u_forceRole := True\<rparr>)) bad s))"

definition repairDownstreamRoleCommand ::
  "address option \<Rightarrow> bool \<Rightarrow> store \<Rightarrow> (int \<times> address list \<times> address list) \<times> store" where
  "repairDownstreamRoleCommand only dryRun s =
     (let bad = listMislabelledSweepHops only s
      in if dryRun then ((int (length bad), bad, []), s)
         else let ((n, repaired), s1) = repairDownstreamRole only False s in ((n, bad, repaired), s1))"

definition make_victim :: "address \<Rightarrow> int \<times> store \<Rightarrow> int \<times> store" where
  "make_victim a ns =
     (let (k, s1) = deleteActiveJobsForAddress a
            (upsertAddress ((plain_upsert a)\<lparr>u_role := Some Victim, u_hop := Some None, u_forceRole := True\<rparr>) (snd ns))
      in (fst ns + k, s1))"

definition repairVictimRolePollution ::
  "address option \<Rightarrow> bool \<Rightarrow> store \<Rightarrow> (int \<times> address list \<times> int) \<times> store" where
  "repairVictimRolePollution only dryRun s =
     (let bad = listVictimRolePollution only s
      in if dryRun then ((int (length bad), [], 0), s)
         else let (k, s1) = fold make_victim bad (0, s) in ((int (length bad), bad, k), s1))"

definition repairVictimRoles ::
  "address option \<Rightarrow> bool \<Rightarrow> store \<Rightarrow> (int \<times> address list \<times> address list \<times> int) \<times> store" where
  "repairVictimRoles only dryRun s =
     (let bad = listVictimRolePollution only s
      in if dryRun then ((int (length bad), bad, [], 0), s)
         else let ((n, repaired, k), s1) = repairVictimRolePollution only False s in ((n, bad, repaired, k), s1))"

record prune_invalid_result =
  pi_scanned :: int
  pi_invalid :: "address list"
  pi_hackersUnflagged :: int
  pi_rowsDeleted :: int
  pi_jobsCancelled :: int
  pi_edgesRemoved :: int

definition prune_invalid_row :: "addr_row \<Rightarrow> prune_invalid_result \<times> store \<Rightarrow> prune_invalid_result \<times> store" where
  "prune_invalid_row r rs =
     (let (jobsN, s1) = deleteActiveJobsForAddress (address_of r) (snd rs);
          (edgesN, s2) = deleteEdgesTouchingAddress (address_of r) s1; p = fst rs
      in (p\<lparr>pi_hackersUnflagged := pi_hackersUnflagged p + b2i (isFlaggedHacker r),
            pi_jobsCancelled := pi_jobsCancelled p + jobsN, pi_edgesRemoved := pi_edgesRemoved p + edgesN,
            pi_rowsDeleted := pi_rowsDeleted p + 1\<rparr>, deleteAddress (address_of r) s2))"

definition pruneInvalidAddresses ::
  "(string \<Rightarrow> bool) \<Rightarrow> bool \<Rightarrow> store \<Rightarrow> prune_invalid_result \<times> store" where
  "pruneInvalidAddresses valid dryRun s =
     (let bad = filter (\<lambda>r. normalizeBitcoinAddress valid (address_of r) = None) (addresses s);
          res = \<lparr>pi_scanned = int (length (addresses s)), pi_invalid = map address_of bad, pi_hackersUnflagged = 0,
                 pi_rowsDeleted = 0, pi_jobsCancelled = 0, pi_edgesRemoved = 0\<rparr>
      in if dryRun then (res, s) else fold prune_invalid_row bad (res, s))"

end
