(* ===== verification/OperatorProps.thy ===== *)
theory OperatorProps
  imports Operator JobFrame
begin

text \<open>
  What the operator commands do: the removal of a hacker deletes only its edges and the addresses
  around it, but may take addresses of another hacker with them; clearing the queue leaves it empty
  and open; the two repairs leave no address mislabelled.
\<close>

section \<open>The walk along the out-edges\<close>

inductive spent_to :: "store \<Rightarrow> address \<Rightarrow> address \<Rightarrow> bool" for s a where
  spent_start: "spent_to s a a"
| spent_step: "spent_to s a x \<Longrightarrow> y \<in> set (outbound_to s x) \<Longrightarrow> spent_to s a y"

lemma down_search_spec:
  assumes "\<forall>x\<in>set seen. spent_to s a x" and "set queue \<subseteq> set seen" and "a \<in> set seen" and "distinct seen"
    and "\<forall>x\<in>set seen - set queue. set (outbound_to s x) \<subseteq> set seen"
  shows "set (down_search s queue seen) = {x. spent_to s a x} \<and> distinct (down_search s queue seen)"
  using assms
proof (induction s queue seen rule: down_search.induct)
  case (1 s seen)
  have "x \<in> set seen" if "spent_to s a x" for x
    using that by induction (use 1 in auto)
  then show ?case using 1 by auto
next
  case (2 s cur queue seen)
  let ?f = "visit seen (outbound_to s cur)"
  have cur: "spent_to s a cur" using 2(2,3) by auto
  have d: "distinct ?f" by (simp add: visit_def)
  show ?case
    unfolding down_search.simps Let_def
    by (rule 2(1)[OF refl]) (use 2(2-) cur d in \<open>auto simp: set_visit intro: spent_step\<close>)
qed

lemma collectDownstream_spec:
  "set (collectDownstreamAddresses h s) = {x. spent_to s h x \<and> x \<noteq> h}"
  "distinct (collectDownstreamAddresses h s)"
  using down_search_spec[of "[h]" s h "[h]"]
  by (auto simp: collectDownstreamAddresses_def spent_start simp del: down_search.simps)

section \<open>What a deletion changes\<close>

text \<open>Rows up to the recalculated sum.\<close>

definition core :: "addr_row \<Rightarrow> addr_row" where
  "core r = r\<lparr>inboundSats := 0\<rparr>"

lemma core_simps [simp]:
  "address_of (core r) = address_of r" "isFlaggedHacker (core r) = isFlaggedHacker r" "role_of (core r) = role_of r"
  by (simp_all add: core_def)

text \<open>The edges that touch \<open>E\<close> and the rows of \<open>D\<close> are gone, the rest is as it was.\<close>

definition cut :: "address set \<Rightarrow> address set \<Rightarrow> store \<Rightarrow> store \<Rightarrow> bool" where
  "cut E D s t \<longleftrightarrow>
     map core (addresses t) = map core (filter (\<lambda>r. address_of r \<notin> D) (addresses s)) \<and>
     edges t = filter (\<lambda>e. fromAddress e \<notin> E \<and> toAddress e \<notin> E) (edges s) \<and> jobs_same s t \<and>
     clock t = clock s \<and> transactions t = transactions s"

lemma recalcInbound_cut:
  "map core (addresses (recalcInboundSatsFor as s)) = map core (addresses s)"
  "edges (recalcInboundSatsFor as s) = edges s" "jobs_same s (recalcInboundSatsFor as s)"
  "sync_state (recalcInboundSatsFor as s) = sync_state s" "clock (recalcInboundSatsFor as s) = clock s"
  "transactions (recalcInboundSatsFor as s) = transactions s"
proof -
  have "map core (addresses (fold recalcInboundSats xs t)) = map core (addresses t) \<and>
      edges (fold recalcInboundSats xs t) = edges t \<and> jobs_same t (fold recalcInboundSats xs t) \<and>
      sync_state (fold recalcInboundSats xs t) = sync_state t \<and> clock (fold recalcInboundSats xs t) = clock t \<and>
      transactions (fold recalcInboundSats xs t) = transactions t" for xs t
  proof (induction xs arbitrary: t)
    case (Cons x xs)
    have "map core (addresses (recalcInboundSats x t)) = map core (addresses t)"
      by (auto simp: recalcInboundSats_def update_where_def core_def)
    moreover have "jobs_same t (recalcInboundSats x t)"
      by (simp add: recalcInboundSats_def keeps_jobs)
    ultimately show ?case using Cons[of "recalcInboundSats x t"] jobs_same_trans
      by (auto simp: recalcInboundSats_def)
  qed (simp add: jobs_same_refl)
  then show "map core (addresses (recalcInboundSatsFor as s)) = map core (addresses s)"
    "edges (recalcInboundSatsFor as s) = edges s" "jobs_same s (recalcInboundSatsFor as s)"
    "sync_state (recalcInboundSatsFor as s) = sync_state s" "clock (recalcInboundSatsFor as s) = clock s"
    "transactions (recalcInboundSatsFor as s) = transactions s"
    by (simp_all add: recalcInboundSatsFor_def)
qed

lemma deleteEdges_cut:
  assumes "cut E D s t" and "deleteEdgesTouchingAddress a t = (n, u)"
  shows "cut (insert a E) D s u" and "n = int (length (edges t)) - int (length (edges u))"
proof -
  let ?t = "t\<lparr>edges := filter (\<lambda>e. \<not> touches a e) (edges t)\<rparr>"
  obtain as where u: "u = recalcInboundSatsFor as ?t"
    using assms(2) by (auto simp: deleteEdgesTouchingAddress_def Let_def)
  have j: "jobs_same s ?t" using assms(1) by (simp add: cut_def jobs_same_set)
  have "filter (\<lambda>e. \<not> touches a e) (filter (\<lambda>e. fromAddress e \<notin> E \<and> toAddress e \<notin> E) es) =
      filter (\<lambda>e. fromAddress e \<notin> insert a E \<and> toAddress e \<notin> insert a E) es" for es
    by (induction es) (auto simp: touches_def)
  then show "cut (insert a E) D s u"
    using assms(1) jobs_same_trans[OF j recalcInbound_cut(3)] by (simp add: cut_def u recalcInbound_cut)
  have "n = count_rows (touches a) (edges t)"
    using assms(2) by (simp add: deleteEdgesTouchingAddress_def Let_def)
  moreover have "int (length (edges t)) - int (length (filter (\<lambda>e. \<not> P e) (edges t))) = count_rows P (edges t)" for P
    using sum_length_filter_compl[of P "edges t"] by (simp add: count_rows_def)
  ultimately show "n = int (length (edges t)) - int (length (edges u))"
    by (simp add: u recalcInbound_cut)
qed

lemma map_core_filter: "map core xs = map core ys \<Longrightarrow>
  map core (filter (\<lambda>r. address_of r \<notin> D) xs) = map core (filter (\<lambda>r. address_of r \<notin> D) ys)"
proof (induction xs arbitrary: ys)
  case (Cons x xs)
  then obtain y ys' where ys: "ys = y # ys'" "core x = core y" "map core xs = map core ys'" by (cases ys) auto
  from ys(2) have "address_of x = address_of y" by (metis core_simps(1))
  then show ?case using ys Cons.IH[OF ys(3)] by simp
qed simp

lemma deleteAddress_cut:
  assumes "cut E D s t" shows "cut E (insert a D) s (deleteAddress a t)"
proof -
  have c: "map core (addresses t) = map core (filter (\<lambda>r. address_of r \<notin> D) (addresses s))"
    using assms by (simp add: cut_def)
  from map_core_filter[OF c, of "{a}"]
  have "map core (filter (\<lambda>r. address_of r \<noteq> a) (addresses t)) =
      map core (filter (\<lambda>r. address_of r \<notin> insert a D) (addresses s))"
    by (simp add: conj_commute)
  moreover have "jobs_same s (deleteAddress a t)"
    unfolding deleteAddress_def by (rule jobs_same_rows) (use assms in \<open>simp add: cut_def jobs_same_set\<close>)
  ultimately show ?thesis using assms by (simp add: cut_def deleteAddress_def)
qed

lemma find_core:
  "map core xs = map core ys \<Longrightarrow>
   map_option core (List.find (\<lambda>r. address_of r = a) xs) = map_option core (List.find (\<lambda>r. address_of r = a) ys)"
proof (induction xs arbitrary: ys)
  case (Cons x xs)
  then obtain y ys' where ys: "ys = y # ys'" "core x = core y" "map core xs = map core ys'" by (cases ys) auto
  from ys(2) have "address_of x = address_of y" by (metis core_simps(1))
  then show ?case using ys Cons.IH[OF ys(3)] by simp
qed simp

lemma find_not_in: "a \<in> D \<Longrightarrow> List.find (\<lambda>r. address_of r = a) (filter (\<lambda>r. address_of r \<notin> D) xs) = None"
  by (auto simp: find_None_iff)

lemma find_filter_out: "a \<notin> D \<Longrightarrow>
  List.find (\<lambda>r. address_of r = a) (filter (\<lambda>r. address_of r \<notin> D) xs) = List.find (\<lambda>r. address_of r = a) xs"
  by (induction xs) auto

lemma cut_getAddress:
  assumes "cut E D s t"
  shows "a \<in> D \<Longrightarrow> getAddress a t = None"
    and "a \<notin> D \<Longrightarrow> map_option core (getAddress a t) = map_option core (getAddress a s)"
    and "flagged_address t a \<longleftrightarrow> flagged_address s a \<and> a \<notin> D"
proof -
  have e: "map_option core (getAddress a t) =
      map_option core (List.find (\<lambda>r. address_of r = a) (filter (\<lambda>r. address_of r \<notin> D) (addresses s)))"
    unfolding getAddress_def by (rule find_core) (use assms in \<open>simp add: cut_def\<close>)
  show n: "a \<in> D \<Longrightarrow> getAddress a t = None"
    using e by (simp add: find_not_in)
  show y: "a \<notin> D \<Longrightarrow> map_option core (getAddress a t) = map_option core (getAddress a s)"
    using e by (simp add: find_filter_out getAddress_def)
  have f: "flagged_address u a = (case map_option core (getAddress a u) of Some r \<Rightarrow> isFlaggedHacker r | None \<Rightarrow> False)" for u
    by (simp add: flagged_address_def split: option.split)
  show "flagged_address t a \<longleftrightarrow> flagged_address s a \<and> a \<notin> D"
    by (cases "a \<in> D") (simp_all add: f n y)
qed


section \<open>The removal of a hacker\<close>

definition prune_inv :: "address \<Rightarrow> store \<Rightarrow> prune_state \<Rightarrow> bool" where
  "prune_inv h s p \<longleftrightarrow> cut (insert h (set (pn_pruned p))) (set (pn_pruned p)) s (pn_store p) \<and>
     distinct (pn_pruned p) \<and>
     (\<forall>x\<in>set (pn_pruned p). x \<noteq> h \<and> getAddress x s \<noteq> None \<and> \<not> flagged_address s x) \<and>
     pn_edges p = int (length (edges s)) - int (length (edges (pn_store p)))"

lemma cut_refl: "cut {} {} s s"
  by (simp add: cut_def jobs_same_refl)

lemma prune_address_inv:
  assumes "prune_inv h s p" and "x \<noteq> h" and "x \<notin> set (pn_pruned p)"
    and "case getAddress x (pn_store p) of Some r \<Rightarrow> \<not> isFlaggedHacker r | None \<Rightarrow> False"
  shows "prune_inv h s (prune_address x p)" and "pn_pruned (prune_address x p) = x # pn_pruned p"
proof -
  let ?D = "set (pn_pruned p)"
  have c: "cut (insert h ?D) ?D s (pn_store p)" using assms(1) by (simp add: prune_inv_def)
  obtain n u where u: "deleteEdgesTouchingAddress x (pn_store p) = (n, u)" by fastforce
  note d = deleteEdges_cut[OF c u]
  have m: "map_option core (getAddress x (pn_store p)) = map_option core (getAddress x s)"
    using cut_getAddress(2)[OF c] assms(3) by simp
  then have "getAddress x s \<noteq> None \<and> \<not> flagged_address s x"
    using assms(4) cut_getAddress(3)[OF c, of x] assms(3)
    by (auto simp: flagged_address_def split: option.splits)
  moreover have "edges (deleteAddress x u) = edges u" by (simp add: deleteAddress_def)
  ultimately show "prune_inv h s (prune_address x p)"
    using assms(1-3) d(2) deleteAddress_cut[OF d(1), of x]
    by (simp add: prune_inv_def prune_address_def u insert_commute)
  show "pn_pruned (prune_address x p) = x # pn_pruned p"
    by (simp add: prune_address_def u)
qed

lemma prune_when_inv:
  assumes "prune_inv h s p"
    and "\<And>x q. ok x q \<Longrightarrow> x \<noteq> h \<and> x \<notin> set (pn_pruned q) \<and>
      (case getAddress x (pn_store q) of Some r \<Rightarrow> \<not> isFlaggedHacker r | None \<Rightarrow> False)"
  shows "prune_inv h s (prune_when ok xs p) \<and>
    set (pn_pruned p) \<subseteq> set (pn_pruned (prune_when ok xs p)) \<and>
    set (pn_pruned (prune_when ok xs p)) \<subseteq> set (pn_pruned p) \<union> set xs"
  using assms(1)
proof (induction xs arbitrary: p)
  case (Cons x xs)
  show ?case
  proof (cases "ok x p")
    case True
    note i = prune_address_inv[OF Cons.prems] assms(2)[OF True]
    then show ?thesis using Cons.IH[of "prune_address x p"] True by (auto simp: prune_when_def)
  next
    case False
    then show ?thesis using Cons.IH[OF Cons.prems] by (auto simp: prune_when_def)
  qed
qed (simp add: prune_when_def)

lemma prune_exclusive_inv:
  assumes "prune_exclusive h victims down s = ((v, d), p)"
  shows "prune_inv h s p" and "set (pn_pruned p) \<subseteq> set victims \<union> set down" and "v + d = int (length (pn_pruned p))"
proof -
  obtain n s1 where s1: "deleteEdgesTouchingAddress h s = (n, s1)" by fastforce
  let ?p0 = "\<lparr>pn_pruned = [], pn_edges = n, pn_store = s1\<rparr>"
  let ?p1 = "prune_when (victim_exclusive h) victims ?p0"
  have p0: "prune_inv h s ?p0"
    using deleteEdges_cut[OF cut_refl s1] by (simp add: prune_inv_def)
  have p1: "prune_inv h s ?p1" "set (pn_pruned ?p1) \<subseteq> set victims"
    using prune_when_inv[OF p0, of "victim_exclusive h" victims] by (auto simp: victim_exclusive_def)
  have "p = prune_when (downstream_exclusive h down) down ?p1" "v + d = int (length (pn_pruned p))"
    using assms by (auto simp: prune_exclusive_def s1 Let_def)
  then show "prune_inv h s p" "set (pn_pruned p) \<subseteq> set victims \<union> set down" "v + d = int (length (pn_pruned p))"
    using prune_when_inv[OF p1(1), of "downstream_exclusive h down" down] p1(2)
    by (auto simp: downstream_exclusive_def)
qed

lemma upsertAddress_frame:
  "addresses (upsertAddress u s) = put_address (clock s) u (addresses s)"
  "edges (upsertAddress u s) = edges s" "jobs_same s (upsertAddress u s)" "clock (upsertAddress u s) = clock s"
  "transactions (upsertAddress u s) = transactions s"
proof -
  let ?s1 = "set_addresses (put_address (clock s) u (addresses s)) s"
  define s2 where "s2 = (case u_flagged u of
      Some f \<Rightarrow> if was_flagged (getAddress (u_address u) s) \<noteq> f then invalidateFlaggedHackersCache ?s1 else ?s1
    | None \<Rightarrow> ?s1)"
  have s2: "addresses s2 = addresses ?s1" "edges s2 = edges s" "clock s2 = clock s" "transactions s2 = transactions s"
    by (auto simp: s2_def invalidateFlaggedHackersCache_def set_addresses_def split: option.split)
  have "upsertAddress u s = s2 \<or> (\<exists>b a d. upsertAddress u s =
      maybeMarkMonitorSnapshotDirty b a (applyAddressStatsDelta b a (adjustCrawlPendingCount d s2)))"
    by (auto simp: upsertAddress_def Let_def s2_def)
  moreover have "stats_frame s2 (maybeMarkMonitorSnapshotDirty b a (applyAddressStatsDelta b a (adjustCrawlPendingCount d s2)))" for b a d
    unfolding adjustCrawlPendingCount_def
    by (rule stats_frame_trans[OF stats_frame_adjust stats_frame_trans[OF apply_stats_frame maybeMark_frame(1)]]) simp
  ultimately have "stats_frame s2 (upsertAddress u s)" by auto
  then show "addresses (upsertAddress u s) = put_address (clock s) u (addresses s)"
    "edges (upsertAddress u s) = edges s" "clock (upsertAddress u s) = clock s"
    "transactions (upsertAddress u s) = transactions s"
    by (auto simp: stats_frame_def s2)
  show "jobs_same s (upsertAddress u s)" by (rule jobs_same_address[OF jobs_same_refl])
qed


lemma upsert_getAddress:
  "getAddress x (upsertAddress u s) =
    (if x = u_address u
     then Some (case getAddress x s of None \<Rightarrow> new_address (clock s) u | Some r \<Rightarrow> merge_address (clock s) u r)
     else getAddress x s)"
  by (simp add: getAddress_def upsertAddress_frame find_put_address)

lemma unflag_flags:
  assumes "flagged_address s a" and "u_address u = a" and "u_flagged u = Some False"
  shows "flagged_address (upsertAddress u s) x \<longleftrightarrow> flagged_address s x \<and> x \<noteq> a"
    and "getAddress x (upsertAddress u s) = None \<longleftrightarrow> getAddress x s = None"
  using assms by (auto simp: flagged_address_def upsert_getAddress merge_address_def split: option.splits)

lemma fold_active_tables:
  "addresses (fold (\<lambda>(ty, d). adjustActiveJobCount ty d) m s) = addresses s"
  "edges (fold (\<lambda>(ty, d). adjustActiveJobCount ty d) m s) = edges s"
  "transactions (fold (\<lambda>(ty, d). adjustActiveJobCount ty d) m s) = transactions s"
  by (induction m arbitrary: s) (auto simp: adjustActiveJobCount_def adjust_def split: option.split)

lemma cancel_frame:
  assumes "deleteActiveJobsForAddress a s = (n, t)"
  shows "addresses t = addresses s" and "edges t = edges s" and "transactions t = transactions s" and "clock t = clock s"
    and "jobs t = filter (\<lambda>j. \<not> (is_active j \<and> job_address j = Some a)) (jobs s)"
  using assms
  by (auto simp: deleteActiveJobsForAddress_def Let_def fold_active_tables adjustPendingJobCount_def adjust_def)

text \<open>The store on which the loops of \<open>removeHacker\<close> work.\<close>

lemma removeHacker_cases:
  assumes "normalizeBitcoinAddress valid raw = Some a" and "flagged_address s a"
    and "removeHacker valid raw True s = (Inr r, s')"
  obtains s2 v d p where
    "prune_exclusive a (listVictimAddressesForHacker a s) (collectDownstreamAddresses a s) s2 = ((v, d), p)"
    and "s' = pn_store p" and "rm_victimsPruned r = v" and "rm_downstreamPruned r = d" and "rm_edgesRemoved r = pn_edges p"
    and "\<forall>x. flagged_address s2 x \<longleftrightarrow> flagged_address s x \<and> x \<noteq> a"
    and "\<forall>x. getAddress x s2 = None \<longleftrightarrow> getAddress x s = None"
    and "edges s2 = edges s" and "transactions s2 = transactions s"
    and "jobs s2 = filter (\<lambda>j. \<not> (is_active j \<and> job_address j = Some a)) (jobs s)"
    and "jobs_inv s \<longrightarrow> jobs_inv s2"
proof -
  define u where "u = (plain_upsert a)\<lparr>u_flagged := Some False\<rparr>"
  have u: "u_address u = a" "u_flagged u = Some False" by (simp_all add: u_def plain_upsert_def)
  let ?s1 = "upsertAddress u s"
  obtain n s2 where s2: "deleteActiveJobsForAddress a ?s1 = (n, s2)" by fastforce
  obtain v d p where p: "prune_exclusive a (listVictimAddressesForHacker a s) (collectDownstreamAddresses a s) s2 = ((v, d), p)"
    by (metis prod.exhaust)
  note c = cancel_frame[OF s2] and f = upsertAddress_frame[where u = u and s = s]
  have j: "jobs ?s1 = jobs s" using f(3) by (simp add: jobs_same_def)
  have g: "getAddress x s2 = getAddress x ?s1" for x by (simp add: getAddress_def c)
  have fl: "flagged_address s2 x = flagged_address ?s1 x" for x by (simp add: flagged_address_def g)
  have i: "jobs_inv s2" if "jobs_inv s"
  proof -
    have "jobs_inv ?s1" by (rule jobs_inv_frame[OF that]) (use f(3) in \<open>auto simp: jobs_same_def\<close>)
    from deleteActiveJobsForAddress_inv[OF this, of a] show ?thesis by (simp add: s2)
  qed
  have "s' = pn_store p" "rm_victimsPruned r = v" "rm_downstreamPruned r = d" "rm_edgesRemoved r = pn_edges p"
    using assms p by (auto simp: removeHacker_def s2 u_def[symmetric])
  then show thesis
    by (rule that[OF p]) (simp_all add: g fl unflag_flags[OF assms(2) u] c f j i)
qed


text \<open>
  C32: the removal of a hacker stays around the hacker. The rows that go are victims of the hacker or
  addresses that its money reached, none of them a flagged hacker; the edges that go are those that
  touch the hacker or a removed row; every other row stays, the hacker is the only one to lose its
  flag, its waiting jobs are cancelled, and the reported numbers are the numbers of rows.
\<close>

theorem removeHacker_scope:
  assumes "jobs_inv s" and "normalizeBitcoinAddress valid raw = Some a" and "flagged_address s a"
    and "removeHacker valid raw True s = (Inr r, s')"
  shows "\<exists>D. distinct D \<and> set D \<subseteq> {x. x \<noteq> a \<and> (x \<in> set (listVictimAddressesForHacker a s) \<or> spent_to s a x)} \<and>
    (\<forall>x. getAddress x s' = None \<longleftrightarrow> getAddress x s = None \<or> x \<in> set D) \<and>
    (\<forall>x. flagged_address s' x \<longleftrightarrow> flagged_address s x \<and> x \<noteq> a) \<and>
    edges s' = filter (\<lambda>e. fromAddress e \<notin> set (a # D) \<and> toAddress e \<notin> set (a # D)) (edges s) \<and>
    rm_victimsPruned r + rm_downstreamPruned r = int (length D) \<and>
    rm_edgesRemoved r = int (length (edges s)) - int (length (edges s')) \<and>
    jobs s' = filter (\<lambda>j. \<not> (is_active j \<and> job_address j = Some a)) (jobs s) \<and> jobs_inv s' \<and>
    transactions s' = transactions s"
proof -
  obtain s2 v d p where
    p: "prune_exclusive a (listVictimAddressesForHacker a s) (collectDownstreamAddresses a s) s2 = ((v, d), p)"
    and r: "s' = pn_store p" "rm_victimsPruned r = v" "rm_downstreamPruned r = d" "rm_edgesRemoved r = pn_edges p"
    and fl: "\<forall>x. flagged_address s2 x \<longleftrightarrow> flagged_address s x \<and> x \<noteq> a"
    and g: "\<forall>x. getAddress x s2 = None \<longleftrightarrow> getAddress x s = None"
    and e: "edges s2 = edges s" "transactions s2 = transactions s"
      "jobs s2 = filter (\<lambda>j. \<not> (is_active j \<and> job_address j = Some a)) (jobs s)"
    and i: "jobs_inv s \<longrightarrow> jobs_inv s2"
    using removeHacker_cases[OF assms(2-4)] .
  let ?D = "pn_pruned p"
  note pe = prune_exclusive_inv[OF p]
  have c: "cut (insert a (set ?D)) (set ?D) s2 s'" and q: "distinct ?D"
      "\<forall>x\<in>set ?D. x \<noteq> a \<and> getAddress x s2 \<noteq> None \<and> \<not> flagged_address s2 x"
      "pn_edges p = int (length (edges s2)) - int (length (edges s'))"
    using pe(1) by (auto simp: prune_inv_def r)
  have 1: "set ?D \<subseteq> {x. x \<noteq> a \<and> (x \<in> set (listVictimAddressesForHacker a s) \<or> spent_to s a x)}"
    using pe(2) q(2) by (auto simp: collectDownstream_spec)
  have 2: "getAddress x s' = None \<longleftrightarrow> getAddress x s = None \<or> x \<in> set ?D" for x
    using cut_getAddress(1,2)[OF c, of x] g by (metis map_option_is_None)
  have 3: "flagged_address s' x \<longleftrightarrow> flagged_address s x \<and> x \<noteq> a" for x
    using cut_getAddress(3)[OF c, of x] fl q(2) by auto
  have 4: "jobs_inv s'"
    by (rule jobs_inv_frame[OF i[rule_format, OF assms(1)]]) (use c in \<open>auto simp: cut_def jobs_same_def\<close>)
  have 5: "edges s' = filter (\<lambda>e. fromAddress e \<notin> set (a # ?D) \<and> toAddress e \<notin> set (a # ?D)) (edges s)"
    "jobs s' = filter (\<lambda>j. \<not> (is_active j \<and> job_address j = Some a)) (jobs s)" "transactions s' = transactions s"
    using c by (simp_all add: cut_def jobs_same_def e)
  have 6: "rm_victimsPruned r + rm_downstreamPruned r = int (length ?D)"
    "rm_edgesRemoved r = int (length (edges s)) - int (length (edges s'))"
    using pe(3) q(3) e(1) r by simp_all
  show ?thesis by (intro exI[of _ ?D] conjI allI q(1) 1 2 3 4 5 6)
qed

text \<open>A small graph: two hackers pay \<open>b\<close>, and \<open>b\<close> pays \<open>c\<close>.\<close>

definition out_edge :: "address \<Rightarrow> address \<Rightarrow> txid \<Rightarrow> edge_upsert" where
  "out_edge x y t = \<lparr>eu_from = x, eu_to = y, eu_txid = t, eu_amount = 10, eu_blockTime = None, eu_hop = None,
     eu_direction = Out_from_hacker, eu_edgeKind = None, eu_fanoutMeta = None\<rparr>"

definition plain_row :: "address \<Rightarrow> role \<Rightarrow> bool \<Rightarrow> addr_row" where
  "plain_row a ro f = new_address 0 ((plain_upsert a)\<lparr>u_role := Some ro, u_flagged := Some f\<rparr>)"

definition shared_graph :: store where
  "shared_graph = (init_store default_options 1000)
     \<lparr>addresses := [plain_row ''h'' Hacker True, plain_row ''k'' Hacker True, plain_row ''b'' Downstream False,
        plain_row ''c'' Downstream False],
      edges := map new_edge [out_edge ''h'' ''b'' ''t1'', out_edge ''k'' ''b'' ''t2'', out_edge ''b'' ''c'' ''t3'']\<rparr>"

lemma shared_graph_inv: "jobs_inv shared_graph"
  by (rule jobs_inv_frame[OF init_store_inv[of default_options 1000]]) (simp_all add: shared_graph_def)

lemmas shared_graph_simps = shared_graph_def plain_row_def new_address_def plain_upsert_def out_edge_def new_edge_def
  flagged_address_def getAddress_def

lemma remove_returns:
  assumes "normalizeBitcoinAddress valid raw = Some a"
  obtains r s' where "removeHacker valid raw b s = (Inr r, s')"
proof -
  have "\<exists>r. fst (removeHacker valid raw b s) = Inr r"
    by (simp add: removeHacker_def assms Let_def split_beta)
  then show thesis using that by (metis prod.collapse)
qed

theorem removeHacker_scope_witness:
  "transactions (snd (removeHacker (\<lambda>_. True) ''h'' True shared_graph)) = [] \<and>
   flagged_address (snd (removeHacker (\<lambda>_. True) ''h'' True shared_graph)) ''k'' \<and>
   \<not> flagged_address (snd (removeHacker (\<lambda>_. True) ''h'' True shared_graph)) ''h''"
proof -
  have n: "normalizeBitcoinAddress (\<lambda>_. True) ''h'' = Some ''h''" by code_simp
  obtain r s' where e: "removeHacker (\<lambda>_. True) ''h'' True shared_graph = (Inr r, s')" using remove_returns[OF n] .
  have f: "flagged_address shared_graph ''h''" "flagged_address shared_graph ''k''"
    by (simp_all add: shared_graph_simps)
  obtain D where "\<forall>x. flagged_address s' x \<longleftrightarrow> flagged_address shared_graph x \<and> x \<noteq> ''h''"
      "transactions s' = transactions shared_graph"
    using removeHacker_scope[OF shared_graph_inv n f(1) e] by blast
  then show ?thesis using f(2) by (simp add: e) (simp add: shared_graph_def init_store_def)
qed


section \<open>What the removal takes from another hacker\<close>

lemma prune_when_takes:
  assumes "prune_inv h s p" and "c \<in> set xs"
    and "\<And>q. prune_inv h s q \<Longrightarrow> c \<notin> set (pn_pruned q) \<Longrightarrow> ok c q"
    and "\<And>x q. ok x q \<Longrightarrow> x \<noteq> h \<and> x \<notin> set (pn_pruned q) \<and>
      (case getAddress x (pn_store q) of Some r \<Rightarrow> \<not> isFlaggedHacker r | None \<Rightarrow> False)"
  shows "c \<in> set (pn_pruned (prune_when ok xs p))"
  using assms(1,2)
proof (induction xs arbitrary: p)
  case (Cons x xs)
  let ?p = "if ok x p then prune_address x p else p"
  have i: "prune_inv h s ?p"
    using prune_address_inv(1)[OF Cons.prems(1)] assms(4)[of x p] Cons.prems(1) by auto
  have w: "prune_when ok (x # xs) p = prune_when ok xs ?p" by (simp add: prune_when_def)
  show ?case
  proof (cases "x = c")
    case True
    then have "c \<in> set (pn_pruned ?p)"
      using assms(3)[OF Cons.prems(1)] prune_address_inv(2)[OF Cons.prems(1)] assms(4)[of c p] by (cases "ok c p") auto
    then show ?thesis using prune_when_inv[where ok = ok and xs = xs, OF i assms(4)] w by auto
  next
    case False
    then show ?thesis using Cons.IH[OF i] Cons.prems(2) w by simp
  qed
qed simp

text \<open>
  C33: the removal of a hacker can take an address that the money of another hacker reached too. The
  test looks one step back: an address whose inbound edges all come from addresses downstream of the
  removed hacker, and which has no edge with another flagged hacker, is deleted with all its edges,
  although a walk back from it ends at a flagged hacker that stays.
\<close>

theorem removeHacker_takes_shared:
  assumes "normalizeBitcoinAddress valid raw = Some a" and "flagged_address s a"
    and "removeHacker valid raw True s = (Inr r, s')"
    and "spent_to s a c" and "c \<noteq> a" and "getAddress c s \<noteq> None" and "\<not> flagged_address s c"
    and "\<not> hasEdgeWithOtherFlaggedHacker c a s" and "\<forall>x\<in>set (inbound_from s c). spent_to s a x"
    and "traces_back s c k" and "flagged_address s k" and "k \<noteq> a"
  shows "getAddress c s' = None \<and> (\<forall>e\<in>set (edges s'). \<not> touches c e) \<and> flagged_address s' k"
proof -
  obtain s2 v d p where
    p: "prune_exclusive a (listVictimAddressesForHacker a s) (collectDownstreamAddresses a s) s2 = ((v, d), p)"
    and r: "s' = pn_store p" "rm_victimsPruned r = v" "rm_downstreamPruned r = d" "rm_edgesRemoved r = pn_edges p"
    and fl: "\<forall>x. flagged_address s2 x \<longleftrightarrow> flagged_address s x \<and> x \<noteq> a"
    and g: "\<forall>x. getAddress x s2 = None \<longleftrightarrow> getAddress x s = None"
    and e: "edges s2 = edges s" "transactions s2 = transactions s"
      "jobs s2 = filter (\<lambda>j. \<not> (is_active j \<and> job_address j = Some a)) (jobs s)"
    and i: "jobs_inv s \<longrightarrow> jobs_inv s2"
    using removeHacker_cases[OF assms(1-3)] .
  let ?down = "collectDownstreamAddresses a s"
  have ok: "downstream_exclusive a ?down c q" if q: "prune_inv a s2 q" "c \<notin> set (pn_pruned q)" for q
  proof -
    let ?D = "set (pn_pruned q)"
    have u: "cut (insert a ?D) ?D s2 (pn_store q)" using q(1) by (simp add: prune_inv_def)
    have sub: "set (edges (pn_store q)) \<subseteq> set (edges s)" using u by (auto simp: cut_def e)
    have f: "flagged_address (pn_store q) x \<Longrightarrow> flagged_address s x" for x
      using cut_getAddress(3)[OF u] fl by auto
    have "\<not> hasEdgeWithOtherFlaggedHacker c a (pn_store q)"
      using assms(8) sub f unfolding hasEdgeWithOtherFlaggedHacker_def Let_def by blast
    moreover have "\<not> hasOutFromHackerInboundOutside c ?down a (pn_store q)"
      using assms(9) sub by (auto simp: hasOutFromHackerInboundOutside_def inbound_from_def collectDownstream_spec)
    moreover have "getAddress c (pn_store q) \<noteq> None"
      using cut_getAddress(2)[OF u q(2)] g assms(6) by (metis map_option_is_None)
    moreover have "\<not> flagged_address (pn_store q) c" using f assms(7) by blast
    ultimately show ?thesis
      using assms(5) q(2) by (auto simp: downstream_exclusive_def flagged_address_def split: option.splits)
  qed
  obtain n s1 where s1: "deleteEdgesTouchingAddress a s2 = (n, s1)" by fastforce
  let ?p0 = "\<lparr>pn_pruned = [], pn_edges = n, pn_store = s1\<rparr>"
  let ?p1 = "prune_when (victim_exclusive a) (listVictimAddressesForHacker a s) ?p0"
  have p0: "prune_inv a s2 ?p0"
    using deleteEdges_cut[OF cut_refl s1] by (simp add: prune_inv_def)
  have p1: "prune_inv a s2 ?p1"
    using prune_when_inv[OF p0, of "victim_exclusive a"] by (auto simp: victim_exclusive_def)
  have pp: "p = prune_when (downstream_exclusive a ?down) ?down ?p1"
    using p by (auto simp: prune_exclusive_def s1 Let_def)
  have c: "c \<in> set (pn_pruned p)"
    unfolding pp by (rule prune_when_takes[where ok = "downstream_exclusive a ?down", OF p1 _ ok])
      (use assms(4,5) in \<open>auto simp: collectDownstream_spec downstream_exclusive_def\<close>)
  have u: "cut (insert a (set (pn_pruned p))) (set (pn_pruned p)) s2 s'" "k \<notin> set (pn_pruned p)"
    using prune_exclusive_inv(1)[OF p] fl assms(11,12) by (auto simp: prune_inv_def r)
  show ?thesis
    using cut_getAddress(1)[OF u(1) c] cut_getAddress(3)[OF u(1)] u c fl assms(11,12)
    by (auto simp: cut_def touches_def)
qed

theorem removeHacker_takes_shared_witness:
  "getAddress ''c'' shared_graph \<noteq> None \<and> traces_back shared_graph ''c'' ''k'' \<and>
   getAddress ''c'' (snd (removeHacker (\<lambda>_. True) ''h'' True shared_graph)) = None \<and>
   flagged_address (snd (removeHacker (\<lambda>_. True) ''h'' True shared_graph)) ''k''"
proof -
  have n: "normalizeBitcoinAddress (\<lambda>_. True) ''h'' = Some ''h''" by code_simp
  obtain r s' where e: "removeHacker (\<lambda>_. True) ''h'' True shared_graph = (Inr r, s')" using remove_returns[OF n] .
  have f: "flagged_address shared_graph ''h''" "flagged_address shared_graph ''k''" "\<not> flagged_address shared_graph ''c''"
    "\<not> flagged_address shared_graph ''b''" "getAddress ''c'' shared_graph \<noteq> None"
    by (simp_all add: shared_graph_simps)
  have i: "inbound_from shared_graph ''c'' = [''b'']" "inbound_from shared_graph ''b'' = [''h'', ''k'']"
    "outbound_to shared_graph ''h'' = [''b'']" "outbound_to shared_graph ''b'' = [''c'']"
    by (simp_all add: inbound_from_def outbound_to_def shared_graph_simps)
  have sp: "spent_to shared_graph ''h'' ''b''" by (rule spent_step[OF spent_start]) (simp add: i)
  have sc: "spent_to shared_graph ''h'' ''c''" by (rule spent_step[OF sp]) (simp add: i)
  have t: "traces_back shared_graph ''c'' ''k''"
    by (rule trace_step[OF trace_step[OF trace_start f(3)] f(4)]) (simp_all add: i)
  have o: "\<not> hasEdgeWithOtherFlaggedHacker ''c'' ''h'' shared_graph"
    using f(4) by (simp add: hasEdgeWithOtherFlaggedHacker_def touches_def shared_graph_simps)
  have b: "\<forall>x\<in>set (inbound_from shared_graph ''c''). spent_to shared_graph ''h'' x" by (simp add: i sp)
  show ?thesis
    using removeHacker_takes_shared[OF n f(1) e sc _ f(5) f(3) o b t f(2)] f(5) t by (simp add: e)
qed


section \<open>Clearing the queue\<close>

lemma resetStuck_frame:
  assumes "resetStuckExpandStatuses s = (n, t)"
  shows "jobs_same s t" and "opts t = opts s" and "isQueueSchedulingPaused t = isQueueSchedulingPaused s" and "clock t = clock s"
    and "addresses t = map (\<lambda>r. if expandStatus r \<in> {XQueued, XExpanding} then r\<lparr>expandStatus := XPending\<rparr> else r) (addresses s)"
proof -
  let ?rows = "update_where (\<lambda>r. expandStatus r = XQueued \<or> expandStatus r = XExpanding) (\<lambda>r. r\<lparr>expandStatus := XPending\<rparr>) (addresses s)"
  obtain d where t: "t = adjustCrawlPendingCount d (set_addresses ?rows s)"
    using assms by (auto simp: resetStuckExpandStatuses_def Let_def)
  show "jobs_same s t" unfolding t by (intro keeps_jobs)
  show "opts t = opts s" "isQueueSchedulingPaused t = isQueueSchedulingPaused s" "clock t = clock s"
    "addresses t = map (\<lambda>r. if expandStatus r \<in> {XQueued, XExpanding} then r\<lparr>expandStatus := XPending\<rparr> else r) (addresses s)"
    by (simp_all add: t adjustCrawlPendingCount_def adjust_def isQueueSchedulingPaused_def update_where_def)
qed

text \<open>
  C34: clearing the queue leaves a state from which the indexer starts over. Only finished jobs remain
  and the counters are exact, no address is marked as queued or being expanded, new jobs are accepted
  again, the lease is free, and the numbers reported are those of the jobs that waited and ran.
\<close>

theorem clearQueue_empties:
  assumes "jobs_inv s" and "addr_inv s" and "0 \<le> queueSchedulingResumeDepth (opts s)" and "clearQueue s = (r, s')"
  shows "jobs s' = filter (\<lambda>j. \<not> is_active j) (jobs s) \<and> jobs_inv s' \<and> addr_inv s' \<and> pendingJobCount (sched s') = 0 \<and>
    \<not> isQueueSchedulingPaused s' \<and> tickLeaseUntil (sched s') = None \<and>
    (\<forall>x\<in>set (addresses s'). expandStatus x \<noteq> XQueued \<and> expandStatus x \<noteq> XExpanding) \<and>
    cq_pending r = count_rows is_pending (jobs s) \<and> cq_running r = count_rows is_running (jobs s) \<and>
    cq_deleted r = cq_pending r + cq_running r"
proof -
  obtain d p q s1 where d: "deleteActiveJobs s = ((d, p, q), s1)" by (metis prod.exhaust)
  obtain n s2 where n: "resetStuckExpandStatuses s1 = (n, s2)" by fastforce
  note f = resetStuck_frame[OF n]
  have s1: "jobs s1 = filter (\<lambda>j. \<not> is_active j) (jobs s)" "pendingJobCount (sched s1) = 0" "opts s1 = opts s"
    "p = count_rows is_pending (jobs s)" "q = count_rows is_running (jobs s)" "d = p + q"
    "addresses s1 = addresses s" "tree_depth s1 = tree_depth s" "\<And>k. k \<notin> set job_counters \<Longrightarrow> cv k s1 = cv k s"
    using d by (auto simp: deleteActiveJobs_def Let_def tree_depth_def job_counters_def; case_tac k; auto)+
  have s2: "jobs s2 = jobs s1" "pendingJobCount (sched s2) = 0" "opts s2 = opts s"
    using f(1,2) s1(2,3) by (simp_all add: jobs_same_def job_counters_def)
  let ?s3 = "maybeClearQueueSchedulingPause s2"
  have s': "s' = clearTickLease ?s3" "?s3 = setQueueSchedulingPaused False s2"
    and r: "cq_deleted r = d" "cq_pending r = p" "cq_running r = q"
    using assms(3,4) s2 by (auto simp: clearQueue_def d n Let_def maybeClearQueueSchedulingPause_def)
  have i1: "jobs_inv s1" using deleteActiveJobs_inv[OF assms(1)] by (simp add: d)
  have i2: "jobs_inv s2" by (rule jobs_inv_frame[OF i1]) (use f(1) in \<open>auto simp: jobs_same_def\<close>)
  have i3: "jobs_inv s'"
    by (rule jobs_inv_frame[OF i2]) (auto simp: s' clearTickLease_def setQueueSchedulingPaused_def job_counters_def)
  have job: "k \<notin> set job_counters" if "k \<in> addr_counted u" for k u
    using that by (auto simp: addr_counted_def job_counters_def split: if_splits)
  have a1: "addr_inv s1" by (rule addr_inv_frame[OF assms(2) s1(7,8)]) (simp add: s1(9) job)
  have a2: "addr_inv s2" using resetStuck_inv[OF a1] by (simp add: n)
  have a3: "addr_inv s'"
    by (rule addr_inv_frame[OF a2]) (auto simp: s' clearTickLease_def setQueueSchedulingPaused_def tree_depth_def addr_counted_def split: if_splits)
  have x: "addresses s' = addresses s2" "jobs s' = jobs s2" "pendingJobCount (sched s') = 0"
    "\<not> isQueueSchedulingPaused s'" "tickLeaseUntil (sched s') = None"
    using s2(2) by (simp_all add: s' clearTickLease_def setQueueSchedulingPaused_def isQueueSchedulingPaused_def)
  have y: "expandStatus r \<noteq> XQueued \<and> expandStatus r \<noteq> XExpanding" if "r \<in> set (addresses s')" for r
    using that unfolding x f(5) by auto
  show ?thesis using i3 a3 x y r s1 s2(1) by simp
qed

definition busy_queue :: store where
  "busy_queue = snd (claimNextJob None (snd (enqueueJob Poll_hacker_address [] 10 None True
     (snd (enqueueJob Backfill_hacker_address [] 20 None True (init_store default_options 1000))))))"

theorem clearQueue_empties_witness:
  "jobs (snd (clearQueue busy_queue)) = [] \<and> cq_running (fst (clearQueue busy_queue)) = 1 \<and>
   cq_pending (fst (clearQueue busy_queue)) = 1 \<and> pendingJobCount (sched (snd (clearQueue busy_queue))) = 0"
proof -
  obtain r s' where e: "clearQueue busy_queue = (r, s')" by fastforce
  have i: "jobs_inv busy_queue" unfolding busy_queue_def by (intro inv_intros init_store_inv)
  have "addresses busy_queue = [] \<and> tree_depth busy_queue = tree_depth (init_store default_options 1000) \<and>
      list_all (\<lambda>k. cv k busy_queue = 0) [CrawlPending, VictimC, CrawlExpanded, HackerActive, DownstreamTree] \<and>
      queueSchedulingResumeDepth (opts busy_queue) = 180 \<and> length (jobs busy_queue) = 2 \<and>
      list_all is_active (jobs busy_queue) \<and> count_rows is_running (jobs busy_queue) = 1 \<and> count_rows is_pending (jobs busy_queue) = 1"
    by code_simp
  then have f: "addresses busy_queue = []" "\<And>k. k \<in> addr_counted busy_queue \<Longrightarrow> cv k busy_queue = 0"
    "0 \<le> queueSchedulingResumeDepth (opts busy_queue)" "filter (\<lambda>j. \<not> is_active j) (jobs busy_queue) = []"
    "count_rows is_running (jobs busy_queue) = 1" "count_rows is_pending (jobs busy_queue) = 1"
    by (auto simp: addr_counted_def list_all_iff filter_empty_conv split: if_splits)
  have a: "addr_inv busy_queue" by (simp add: addr_inv_def exact_count_def f count_rows_def)
  show ?thesis using clearQueue_empties[OF i a f(3) e] f by (simp add: e)
qed

section \<open>Repaired roles\<close>

lemma or_else_again: "or_else x (or_else x y) = or_else x y"
  by (cases x) simp_all

lemma merge_forced:
  assumes "u_forceRole u"
  shows "merge_address t u (merge_address t u r) = merge_address t u r"
  using assms by (simp add: merge_address_def role_protected_def or_else_again)

lemma put_forced:
  assumes "\<And>a. u_forceRole (U a) \<and> u_address (U a) = a" and "\<forall>a\<in>set xs. a \<in> address_of ` set rows"
  shows "fold (\<lambda>a. put_address t (U a)) xs rows =
    map (\<lambda>r. if address_of r \<in> set xs then merge_address t (U (address_of r)) r else r) rows"
  using assms(2)
proof (induction xs arbitrary: rows)
  case (Cons x xs)
  have p: "put_address t (U x) rows = map (\<lambda>r. if address_of r = x then merge_address t (U x) r else r) rows" (is "_ = ?m")
    using Cons.prems assms(1) by (auto simp: put_address_def update_where_def image_iff)
  have "map address_of ?m = map address_of rows" by (auto simp: comp_def)
  then have "address_of ` set ?m = address_of ` set rows" by (metis set_map)
  then have "fold (\<lambda>a. put_address t (U a)) xs ?m =
      map (\<lambda>r. if address_of r \<in> set xs then merge_address t (U (address_of r)) r else r) ?m"
    using Cons.IH[of ?m] Cons.prems by simp
  then show ?case using assms(1) by (simp add: p merge_forced)
qed (simp add: map_idI)


lemma fold_upsert_forced:
  assumes "\<And>a. u_forceRole (U a) \<and> u_address (U a) = a" and "\<forall>a\<in>set xs. a \<in> address_of ` set (addresses s)"
  shows "addresses (fold (\<lambda>a. upsertAddress (U a)) xs s) =
      map (\<lambda>r. if address_of r \<in> set xs then merge_address (clock s) (U (address_of r)) r else r) (addresses s)"
    and "edges (fold (\<lambda>a. upsertAddress (U a)) xs s) = edges s"
proof -
  have "addresses (fold (\<lambda>a. upsertAddress (U a)) xs t) = fold (\<lambda>a. put_address (clock t) (U a)) xs (addresses t) \<and>
      edges (fold (\<lambda>a. upsertAddress (U a)) xs t) = edges t" for t
    by (induction xs arbitrary: t) (simp_all add: upsertAddress_frame)
  then show "edges (fold (\<lambda>a. upsertAddress (U a)) xs s) = edges s"
    "addresses (fold (\<lambda>a. upsertAddress (U a)) xs s) =
      map (\<lambda>r. if address_of r \<in> set xs then merge_address (clock s) (U (address_of r)) r else r) (addresses s)"
    using put_forced[OF assms] by simp_all
qed

lemma make_victim_tables:
  "addresses (snd (fold make_victim xs (n, s))) =
     addresses (fold (\<lambda>a. upsertAddress ((plain_upsert a)\<lparr>u_role := Some Victim, u_hop := Some None, u_forceRole := True\<rparr>)) xs s)"
  "edges (snd (fold make_victim xs (n, s))) = edges s"
proof -
  let ?U = "\<lambda>a. (plain_upsert a)\<lparr>u_role := Some Victim, u_hop := Some None, u_forceRole := True\<rparr>"
  have "addresses (snd (fold make_victim xs (n, t))) = addresses (fold (\<lambda>a. upsertAddress (?U a)) xs u) \<and>
      edges (snd (fold make_victim xs (n, t))) = edges t"
    if "addresses t = addresses u" "clock t = clock u" for t u
    using that
  proof (induction xs arbitrary: n t u)
    case (Cons x xs)
    obtain k s1 where s1: "deleteActiveJobsForAddress x (upsertAddress (?U x) t) = (k, s1)" by fastforce
    have "make_victim x (n, t) = (n + k, s1)" by (simp add: make_victim_def s1)
    moreover have "addresses s1 = addresses (upsertAddress (?U x) u)" "clock s1 = clock (upsertAddress (?U x) u)" "edges s1 = edges t"
      using Cons.prems cancel_frame[OF s1] by (simp_all add: upsertAddress_frame)
    ultimately show ?case using Cons.IH[of s1 "upsertAddress (?U x) u" "n + k"] by simp
  qed simp
  from this[OF refl refl]
  show "addresses (snd (fold make_victim xs (n, s))) = addresses (fold (\<lambda>a. upsertAddress (?U a)) xs s)"
    "edges (snd (fold make_victim xs (n, s))) = edges s" by auto
qed

lemma sends_same: "edges t = edges s \<Longrightarrow> sends_to_hacker t = sends_to_hacker s"
  by (simp add: sends_to_hacker_def fun_eq_iff)

text \<open>
  C35: after the two repairs no role contradicts the edges. Among the addresses they were asked to look
  at, no downstream address has paid a hacker, and no victim that has a distance from a hacker has not;
  no edge and no address has come or gone. A second run finds nothing.
\<close>

theorem repair_roles_fixpoint:
  assumes "repairVictimRoles only False s = (b1, s1)" and "repairDownstreamRoleCommand only False s1 = (b2, s2)"
  shows "listVictimRolePollution only s2 = [] \<and> listMislabelledSweepHops only s2 = [] \<and>
    edges s2 = edges s \<and> map address_of (addresses s2) = map address_of (addresses s) \<and>
    snd (repairVictimRoles only False s2) = s2 \<and> snd (repairDownstreamRoleCommand only False s2) = s2"
proof -
  let ?V = "\<lambda>a. (plain_upsert a)\<lparr>u_role := Some Victim, u_hop := Some None, u_forceRole := True\<rparr>"
  let ?D = "\<lambda>a. (plain_upsert a)\<lparr>u_role := Some Downstream, u_forceRole := True\<rparr>"
  let ?bad1 = "listVictimRolePollution only s" and ?bad2 = "listMislabelledSweepHops only s1"
  have U: "u_forceRole (?V a) \<and> u_address (?V a) = a" "u_forceRole (?D a) \<and> u_address (?D a) = a" for a
    by (simp_all add: plain_upsert_def)
  have in1: "\<forall>a\<in>set ?bad1. a \<in> address_of ` set (addresses s)" and in2: "\<forall>a\<in>set ?bad2. a \<in> address_of ` set (addresses s1)"
    by (auto simp: listVictimRolePollution_def listMislabelledSweepHops_def)
  have s1: "s1 = snd (fold make_victim ?bad1 (0, s))"
    using assms(1) by (auto simp: repairVictimRoles_def repairVictimRolePollution_def Let_def split_beta)
  have s2: "s2 = fold (\<lambda>a. upsertAddress (?D a)) ?bad2 s1"
    using assms(2) by (simp add: repairDownstreamRoleCommand_def repairDownstreamRole_def Let_def)
  have e1: "edges s1 = edges s" and a1: "addresses s1 = map (\<lambda>r. if address_of r \<in> set ?bad1
      then merge_address (clock s) (?V (address_of r)) r else r) (addresses s)"
    unfolding s1 make_victim_tables using fold_upsert_forced(1)[OF U(1) in1] by simp_all
  have e2: "edges s2 = edges s1" and a2: "addresses s2 = map (\<lambda>r. if address_of r \<in> set ?bad2
      then merge_address (clock s1) (?D (address_of r)) r else r) (addresses s1)"
    unfolding s2 using fold_upsert_forced[OF U(2) in2] by simp_all
  note snd = sends_same[OF e1] sends_same[OF e2]
  have v: "role_of (merge_address t (?V a) r) = Victim" "role_of (merge_address t (?D a) r) = Downstream"
    "hopFromHacker (merge_address t (?V a) r) = None" for t a r
    by (simp_all add: merge_address_def plain_upsert_def role_protected_def)
  have m1: "\<not> (role_of r = Downstream \<and> selected only (address_of r) \<and> sends_to_hacker s (address_of r))"
    if "r \<in> set (addresses s1)" for r
    using that unfolding a1 by (auto simp: v listVictimRolePollution_def split: if_splits)
  have l1: "listVictimRolePollution only s2 = []"
    using m1 unfolding listVictimRolePollution_def a2
    by (auto simp: filter_empty_conv snd v listMislabelledSweepHops_def split: if_splits)
  have l2: "listMislabelledSweepHops only s2 = []"
    unfolding listMislabelledSweepHops_def[of only s2] a2
    by (auto simp: filter_empty_conv snd v split: if_splits) (auto simp: listMislabelledSweepHops_def snd)
  have k: "map address_of (addresses s2) = map address_of (addresses s)"
    unfolding a2 a1 by (auto simp: comp_def)
  show ?thesis using l1 l2 e1 e2 k by (simp add: repairVictimRoles_def repairVictimRolePollution_def repairDownstreamRoleCommand_def
      repairDownstreamRole_def Let_def)
qed


definition mislabelled :: store where
  "mislabelled = (init_store default_options 1000)
     \<lparr>addresses := [plain_row ''h'' Hacker True, plain_row ''p'' Downstream False,
        (plain_row ''m'' Victim False)\<lparr>hopFromHacker := Some 1\<rparr>],
      edges := [new_edge ((out_edge ''p'' ''h'' ''t1'')\<lparr>eu_direction := In_to_hacker\<rparr>)]\<rparr>"

theorem repair_roles_fixpoint_witness:
  "listVictimRolePollution None mislabelled = [''p''] \<and> listMislabelledSweepHops None mislabelled = [''m''] \<and>
   listVictimRolePollution None (snd (repairDownstreamRoleCommand None False (snd (repairVictimRoles None False mislabelled)))) = [] \<and>
   listMislabelledSweepHops None (snd (repairDownstreamRoleCommand None False (snd (repairVictimRoles None False mislabelled)))) = []"
proof -
  obtain b1 s1 where s1: "repairVictimRoles None False mislabelled = (b1, s1)" by fastforce
  obtain b2 s2 where s2: "repairDownstreamRoleCommand None False s1 = (b2, s2)" by fastforce
  have "listVictimRolePollution None mislabelled = [''p'']" "listMislabelledSweepHops None mislabelled = [''m'']"
    by (simp_all add: listVictimRolePollution_def listMislabelledSweepHops_def mislabelled_def shared_graph_simps
        sends_to_hacker_def selected_def)
  then show ?thesis using repair_roles_fixpoint[OF s1 s2] by (simp add: s1 s2)
qed

end
