(* ===== verification/TableReach.thy ===== *)
theory TableReach
  imports MaintenanceProps OperatorProps EdgeSums AddrReach
begin

text \<open>
  Every write of the store to the addresses and the edges as one transition system: the writes of
  \<open>AddrReach\<close>, the deletions and recalculations of the operator's commands and of a new trace, and
  the daily recount. Three of these writes leave the maintained counters behind; the relation records
  whether one of them has run since the last recount.
\<close>

datatype table_op =
    T_addr addr_op
  | T_delete_trace
  | T_delete_touching address
  | T_inbound_from_edges address
  | T_delete address
  | T_received_from_edges address
  | T_all_received_from_edges
  | T_reset_received
  | T_recount

fun exec_table_op :: "table_op \<Rightarrow> store \<Rightarrow> store" where
  "exec_table_op (T_addr op) s = exec_addr_op op s"
| "exec_table_op T_delete_trace s = deleteHackTraceEdges s"
| "exec_table_op (T_delete_touching a) s = snd (deleteEdgesTouchingAddress a s)"
| "exec_table_op (T_inbound_from_edges a) s = recalcInboundSats a s"
| "exec_table_op (T_delete a) s = deleteAddress a s"
| "exec_table_op (T_received_from_edges a) s = recalcTotalReceived a s"
| "exec_table_op T_all_received_from_edges s = recalcAllTotalReceived s"
| "exec_table_op T_reset_received s = resetHackerTotalReceived s"
| "exec_table_op T_recount s = reconcileStatsCounters s"

fun table_op_enabled :: "table_op \<Rightarrow> bool" where
  "table_op_enabled (T_addr op) = addr_op_enabled op"
| "table_op_enabled _ = True"

text \<open>The deletion of an address and the writes of the received total do not touch the counters.\<close>

fun leaves_counters :: "table_op \<Rightarrow> bool" where
  "leaves_counters (T_delete a) = True"
| "leaves_counters (T_received_from_edges a) = True"
| "leaves_counters T_all_received_from_edges = True"
| "leaves_counters T_reset_received = True"
| "leaves_counters _ = False"

definition in_step :: "bool \<Rightarrow> table_op \<Rightarrow> bool" where
  "in_step c op \<longleftrightarrow> op = T_recount \<or> (c \<and> \<not> leaves_counters op)"

inductive table_reach :: "store_options \<Rightarrow> time \<Rightarrow> bool \<Rightarrow> store \<Rightarrow> bool" for opt t where
  treach_init: "table_reach opt t True (init_store opt t)"
| treach_step: "table_reach opt t c s \<Longrightarrow> table_op_enabled op \<Longrightarrow> table_reach opt t (in_step c op) (exec_table_op op s)"

section \<open>The keys\<close>

definition keyed :: "store \<Rightarrow> bool" where
  "keyed s \<longleftrightarrow> distinct (map address_of (addresses s))"

lemma keyed_keys: "map address_of (addresses t) = map address_of (addresses s) \<Longrightarrow> keyed s \<Longrightarrow> keyed t"
  by (simp add: keyed_def)

lemma insert_if_missing_keyed: "keyed s \<Longrightarrow> keyed (snd (insertAddressIfMissing u s))"
proof (cases "getAddress (u_address u) s")
  case None
  assume k: "keyed s"
  let ?t = "set_addresses (addresses s @ [new_address (clock s) u]) s"
  have "stats_frame ?t (adjustCrawlPendingCount 1 ?t)"
    by (simp add: adjustCrawlPendingCount_def stats_frame_adjust)
  then have "stats_frame ?t (snd (insertAddressIfMissing u s))"
    using None by (auto simp: insertAddressIfMissing_def Let_def split: option.split
        intro: stats_frame_trans[OF _ stats_frame_trans[OF apply_stats_frame maybeMark_frame(1)]])
  moreover have "keyed ?t" using k None by (auto simp: keyed_def getAddress_def find_None_iff)
  ultimately show ?thesis using stats_frameD(1) by (simp add: keyed_def)
qed (simp add: insertAddressIfMissing_def)

lemma upsert_keyed: "keyed s \<Longrightarrow> keyed (upsertAddress u s)"
proof -
  assume k: "keyed s"
  let ?s1 = "set_addresses (put_address (clock s) u (addresses s)) s"
  have "stats_frame t (maybeMarkMonitorSnapshotDirty b v (applyAddressStatsDelta b v (adjustCrawlPendingCount n t)))" for b v n t
    unfolding adjustCrawlPendingCount_def
    by (rule stats_frame_trans[OF stats_frame_adjust stats_frame_trans[OF apply_stats_frame maybeMark_frame(1)]]) simp
  then have f: "addresses (maybeMarkMonitorSnapshotDirty b v (applyAddressStatsDelta b v (adjustCrawlPendingCount n t))) = addresses t"
    for b v n t using stats_frameD(1) by blast
  have "addresses (upsertAddress u s) = addresses ?s1"
    by (auto simp: upsertAddress_def Let_def f split: option.split)
  then show ?thesis using put_address_distinct k by (simp add: keyed_def)
qed

lemma set_status_keys: "map address_of (addresses (setExpandStatus a x s)) = map address_of (addresses s)"
proof -
  have "addresses (maybeMarkMonitorSnapshotDirty b v (flip_counter CrawlExpanded p q (adjustCrawlPendingCount n t))) = addresses t"
    for b v p q n t
    using stats_frameD(1)[OF maybeMark_frame(1)] by (simp add: flip_counter_adjust adjustCrawlPendingCount_def)
  then show ?thesis
    by (simp add: setExpandStatus_def Let_def map_key_update_where flip_counter_adjust adjustCrawlPendingCount_def split: option.split)
qed

lemma upsert_edges_keys: "map address_of (addresses (upsertEdgesBatch us s)) = map address_of (addresses s)"
proof -
  have "map address_of (addresses (upsert_edge_chunks cs i j s)) = map address_of (addresses s)" for cs i j
    by (induction cs i j s rule: upsert_edge_chunks.induct)
       (use chunk_edge_frame in \<open>auto simp: edge_frame_def adjustEdgeTotalsCounters_def\<close>)
  then show ?thesis by (simp add: upsertEdgesBatch_def)
qed

lemma exec_addr_op_keyed: "keyed s \<Longrightarrow> keyed (exec_addr_op op s)"
proof (cases op)
  case (A_inbound a d)
  assume k: "keyed s"
  then show ?thesis
    using A_inbound applyInbound_facts(1)[of s a d] by (simp add: addInboundSats_def edge_frame_def keyed_def)
qed (simp_all add: insert_if_missing_keyed upsert_keyed keyed_keys[OF set_status_keys] keyed_keys[OF upsert_edges_keys],
  simp_all add: keyed_def batch_addresses fold_put_facts(1) resetStuckExpandStatuses_def setExpandProfile_def
    map_key_update_where adjustCrawlPendingCount_def reconcileCrawlPendingCount_def ensureDownstreamTreeDepth_def
    reconcileDownstreamTreeCount_def ensurePollDueCacheParams_def markMonitorSnapshotDirty_def Let_def)

lemma recalc_received_keys: "map address_of (addresses (recalcTotalReceived a s)) = map address_of (addresses s)"
  by (simp add: recalcTotalReceived_def Let_def map_key_update_where split: option.split)

lemma recalc_all_keys: "map address_of (addresses (recalcAllTotalReceived s)) = map address_of (addresses s)"
proof -
  have f: "map address_of (addresses (fold (\<lambda>h. recalcTotalReceived (address_of h)) hs t)) = map address_of (addresses t)" for hs t
    by (induction hs arbitrary: t) (simp_all add: recalc_received_keys)
  obtain hs t where l: "listHackersCached None False s = (hs, t)" by fastforce
  then have "addresses t = addresses s"
    by (auto simp: listHackersCached_def refreshFlaggedHackersCache_def Let_def split: if_splits)
  then show ?thesis by (simp add: recalcAllTotalReceived_def l f)
qed

lemma core_counts:
  assumes "map core rows' = map core rows"
  shows "map address_of rows' = map address_of rows" and "count_rows (addr_pred d k) rows' = count_rows (addr_pred d k) rows"
proof -
  have p: "addr_pred d k (core r) = addr_pred d k r" for r by (cases k) (simp_all add: core_def)
  have c: "count_rows (addr_pred d k) (map core rs) = count_rows (addr_pred d k) rs" for rs
    by (induction rs) (simp_all add: p)
  show "count_rows (addr_pred d k) rows' = count_rows (addr_pred d k) rows" using c assms by metis
  have "map address_of (map core rs) = map address_of rs" for rs by simp
  then show "map address_of rows' = map address_of rows" using assms by metis
qed

lemma core_only:
  assumes "map core (addresses t) = map core (addresses s)" and "sched t = sched s"
  shows "addr_inv s \<Longrightarrow> addr_inv t" and "keyed s \<Longrightarrow> keyed t"
  using core_counts[OF assms(1)] assms(2)
  by (simp_all add: keyed_def addr_inv_def exact_count_def addr_counted_def tree_depth_def)

lemma inbound_writes:
  "map core (addresses (recalcInboundSats a s)) = map core (addresses s)" "sched (recalcInboundSats a s) = sched s"
  "map core (addresses (deleteHackTraceEdges s)) = map core (addresses s)" "sched (deleteHackTraceEdges s) = sched s"
  "map core (addresses (snd (deleteEdgesTouchingAddress a s))) = map core (addresses s)"
  "sched (snd (deleteEdgesTouchingAddress a s)) = sched s"
proof -
  show "map core (addresses (recalcInboundSats a s)) = map core (addresses s)"
    by (simp add: recalcInboundSats_def update_where_def core_def)
  show r: "sched (recalcInboundSats a s) = sched s" for a s by (simp add: recalcInboundSats_def)
  show "map core (addresses (deleteHackTraceEdges s)) = map core (addresses s)"
    by (simp add: deleteHackTraceEdges_def core_def)
  show "sched (deleteHackTraceEdges s) = sched s" by (simp add: deleteHackTraceEdges_def)
  have "sched (fold recalcInboundSats as t) = sched t" for as t by (induction as arbitrary: t) (simp_all add: r)
  then show "map core (addresses (snd (deleteEdgesTouchingAddress a s))) = map core (addresses s)"
    "sched (snd (deleteEdgesTouchingAddress a s)) = sched s"
    by (simp_all add: deleteEdgesTouchingAddress_def recalcInbound_cut recalcInboundSatsFor_def[symmetric])
       (simp add: recalcInboundSatsFor_def)
qed

lemmas inbound_inv = core_only(1)[OF inbound_writes(1,2)] core_only(1)[OF inbound_writes(3,4)] core_only(1)[OF inbound_writes(5,6)]
lemmas inbound_keyed = core_only(2)[OF inbound_writes(1,2)] core_only(2)[OF inbound_writes(3,4)] core_only(2)[OF inbound_writes(5,6)]

lemma exec_table_op_keyed: "keyed s \<Longrightarrow> keyed (exec_table_op op s)"
proof (cases op)
  case (T_delete a)
  assume "keyed s"
  then show ?thesis using T_delete by (simp add: keyed_def deleteAddress_def distinct_map_filter)
next
  case T_recount
  then show "keyed s \<Longrightarrow> ?thesis" by (simp add: keyed_def recount_frame)
next
  case T_reset_received
  then show "keyed s \<Longrightarrow> ?thesis" by (simp add: keyed_def resetHackerTotalReceived_def map_key_update_where)
qed (simp_all add: exec_addr_op_keyed inbound_keyed keyed_keys[OF recalc_received_keys] keyed_keys[OF recalc_all_keys])

lemma exec_table_op_inv:
  assumes "keyed s" and "c \<Longrightarrow> addr_inv s" and "table_op_enabled op" and "in_step c op"
  shows "addr_inv (exec_table_op op s)"
proof (cases op)
  case T_recount
  then show ?thesis using assms(1) recount_invs(2) by (simp add: keyed_def)
qed (use assms in \<open>simp_all add: in_step_def exec_addr_op_inv inbound_inv\<close>)

lemma table_reach_inv: "table_reach opt t c s \<Longrightarrow> keyed s \<and> (c \<longrightarrow> addr_inv s)"
proof (induction rule: table_reach.induct)
  case treach_init
  show ?case using init_addr_inv[of opt t] by (simp add: keyed_def addr_inv_def)
next
  case (treach_step c s op)
  then show ?case using exec_table_op_keyed exec_table_op_inv by blast
qed

text \<open>The counters in terms of the rows.\<close>

lemma addr_inv_counts:
  assumes "addr_inv s"
  shows "crawlPendingCount (sched s) = count_rows (\<lambda>r. isCrawlPendingEligible (role_of r) (expandStatus r)) (addresses s) \<and>
    victimCount (sched s) = count_rows (\<lambda>r. role_of r = Victim) (addresses s) \<and>
    crawlExpandedCount (sched s) = count_rows (\<lambda>r. expandStatus r = XExpanded) (addresses s) \<and>
    hackerActiveCount (sched s) = count_rows (\<lambda>r. isFlaggedHacker r \<and> totalReceivedSats r > 0) (addresses s) \<and>
    (0 < downstreamTreeMaxDepth (sched s) \<longrightarrow>
       downstreamTreeCount (sched s) = count_tree (downstreamTreeMaxDepth (sched s)) s)"
proof -
  have td: "tree_depth s = downstreamTreeMaxDepth (sched s)" by (simp add: tree_depth_def)
  have p: "addr_pred d CrawlPending = (\<lambda>r. isCrawlPendingEligible (role_of r) (expandStatus r))"
    "addr_pred d VictimC = (\<lambda>r. role_of r = Victim)"
    "addr_pred d CrawlExpanded = (\<lambda>r. expandStatus r = XExpanded)"
    "addr_pred d HackerActive = (\<lambda>r. isFlaggedHacker r \<and> totalReceivedSats r > 0)"
    "addr_pred d DownstreamTree = (\<lambda>r. role_of r = Downstream \<and> (case hopFromHacker r of Some h \<Rightarrow> h < d | None \<Rightarrow> False))" for d
    by (auto simp: isExpandedStatus_def isHackerActive_def isDownstreamTreeNode_def)
  show ?thesis
    using addr_invD[OF assms, of CrawlPending] addr_invD[OF assms, of VictimC] addr_invD[OF assms, of CrawlExpanded]
      addr_invD[OF assms, of HackerActive] addr_invD[OF assms, of DownstreamTree]
    unfolding p td by (simp add: addr_counted_def count_tree_def td)
qed

text \<open>
  C12: whatever sequence of writes has run on the addresses and edges, the addresses are distinct; and
  while no address has been deleted and no received total rewritten since the tables were empty or were
  last recounted, each maintained counter is the number of rows it stands for: the crawl candidates, the
  victims, the expanded addresses, the active hackers and, once a depth is set, the nodes of the
  downstream tree. After the recount they are exact again, whatever ran before.
\<close>

theorem addr_counters_exact:
  assumes "table_reach opt t current s"
  shows "distinct (map address_of (addresses s)) \<and>
    (\<forall>u. u = reconcileStatsCounters s \<or> (current \<and> u = s) \<longrightarrow>
      crawlPendingCount (sched u) = count_rows (\<lambda>r. isCrawlPendingEligible (role_of r) (expandStatus r)) (addresses u) \<and>
      victimCount (sched u) = count_rows (\<lambda>r. role_of r = Victim) (addresses u) \<and>
      crawlExpandedCount (sched u) = count_rows (\<lambda>r. expandStatus r = XExpanded) (addresses u) \<and>
      hackerActiveCount (sched u) = count_rows (\<lambda>r. isFlaggedHacker r \<and> totalReceivedSats r > 0) (addresses u) \<and>
      (0 < downstreamTreeMaxDepth (sched u) \<longrightarrow>
         downstreamTreeCount (sched u) = count_tree (downstreamTreeMaxDepth (sched u)) u))"
proof -
  note r = table_reach_inv[OF assms]
  have "addr_inv (reconcileStatsCounters s)" using r recount_invs(2) by (simp add: keyed_def)
  then show ?thesis using r addr_inv_counts by (auto simp: keyed_def)
qed

lemma table_reach_run:
  "table_reach opt t c s \<Longrightarrow> list_all table_op_enabled ops \<Longrightarrow>
     table_reach opt t (fold (\<lambda>op c. in_step c op) ops c) (fold exec_table_op ops s)"
  by (induction ops arbitrary: c s) (auto intro: treach_step)

text \<open>The hacker is deleted, which leaves its place in the crawl count behind; the recount repairs it.\<close>

definition demo_deletion :: "table_op list" where
  "demo_deletion = map T_addr demo_addr_ops @ [T_delete ''h'']"

definition demo_recount :: "table_op list" where
  "demo_recount = demo_deletion @ [T_recount, T_addr (A_status ''d'' XPending), T_delete_trace]"

definition deleted_store :: store where
  "deleted_store = fold exec_table_op demo_deletion (init_store default_options 1000)"

definition recounted_store :: store where
  "recounted_store = fold exec_table_op demo_recount (init_store default_options 1000)"

theorem addr_counters_exact_witness:
  "table_reach default_options 1000 False deleted_store \<and> table_reach default_options 1000 True recounted_store \<and>
   crawlPendingCount (sched deleted_store) = 1 \<and> crawlPendingCount (sched (reconcileStatsCounters deleted_store)) = 0 \<and>
   crawlPendingCount (sched recounted_store) = 1 \<and> length (addresses recounted_store) = 2 \<and>
   victimCount (sched recounted_store) = count_rows (\<lambda>r. role_of r = Victim) (addresses recounted_store)"
proof -
  have e: "list_all table_op_enabled demo_recount" "list_all table_op_enabled demo_deletion"
    by (simp_all add: demo_recount_def demo_deletion_def demo_addr_ops_def plain_upsert_def)
  have f: "fold (\<lambda>op c. in_step c op) demo_deletion True = False" "fold (\<lambda>op c. in_step c op) demo_recount True = True"
    by (simp_all add: demo_recount_def demo_deletion_def demo_addr_ops_def in_step_def)
  have d: "table_reach default_options 1000 False deleted_store"
    using table_reach_run[OF treach_init e(2)] unfolding f deleted_store_def by simp
  have r: "table_reach default_options 1000 True recounted_store"
    using table_reach_run[OF treach_init e(1)] unfolding f recounted_store_def by simp
  have "crawlPendingCount (sched deleted_store) = 1" "crawlPendingCount (sched recounted_store) = 1"
    "length (addresses recounted_store) = 2" 
    "count_rows (\<lambda>r. isCrawlPendingEligible (role_of r) (expandStatus r)) (addresses (reconcileStatsCounters deleted_store)) = 0"
    by code_simp+
  with addr_counters_exact[OF d] addr_counters_exact[OF r] d r show ?thesis by simp
qed

end
