(* ===== verification/Sources.thy ===== *)
theory Sources
  imports JobBody Operator Snapshots
begin

text \<open>
  The feeds (\<open>core/src/sources\<close> and the \<open>sync_*\<close> jobs of \<open>core/src/indexer/processor.ts\<close>): reading the
  answer of a site, cutting what is new into batch jobs, applying a batch, and the job of the price.

  What the sites answer, SHA-256, \<open>JSON.parse\<close>, the validity of an address and the subrequest budget
  are parameters (\<open>feed_env\<close>). Texts are ASCII, so that there is no byte order mark to remove.
\<close>

section \<open>The sites\<close>

record feed_env =
  fe_get :: "string \<Rightarrow> job_error + (int \<times> string)"
  fe_json :: "string \<Rightarrow> json option"
  fe_sha :: "string \<Rightarrow> string"
  fe_valid :: "string \<Rightarrow> bool"
  fe_exhausted :: "nat \<Rightarrow> bool"

record feed_config =
  fc_coldcardwatchBase :: string
  fc_hackTrackerBase :: string
  fc_sweepWatchBase :: string
  fc_bitqueryCsvUrl :: string
  fc_mempoolBase :: string

text \<open>How the loop of the jobs tells a rate limit from other errors.\<close>

definition isRateLimitText :: "string \<Rightarrow> bool" where
  "isRateLimitText m \<longleftrightarrow> (let t = map lower m in str_includes t ''429'' \<or> str_includes t ''too many requests'')"

definition feed_error :: "string \<Rightarrow> job_error" where
  "feed_error m = (if isRateLimitText m then Rate_limit m else Other_error m)"

definition http_ok :: "int \<Rightarrow> bool" where
  "http_ok st \<longleftrightarrow> 200 \<le> st \<and> st \<le> 299"

definition fetch_text :: "feed_env \<Rightarrow> string \<Rightarrow> string \<Rightarrow> job_error + string" where
  "fetch_text fe what url =
     (case fe_get fe url of
        Inl e \<Rightarrow> Inl e
      | Inr (st, body) \<Rightarrow>
          if http_ok st then Inr body else Inl (feed_error (what @ '' fetch failed: '' @ js_string (JNum st))))"

definition dedupeNormalized :: "(string \<Rightarrow> bool) \<Rightarrow> string list \<Rightarrow> address list" where
  "dedupeNormalized valid raw = uniq (List.map_filter (normalizeBitcoinAddress valid) raw)"

definition join_lines :: "string list \<Rightarrow> string" where
  "join_lines ts = (case ts of [] \<Rightarrow> [] | t # r \<Rightarrow> t @ concat (map (\<lambda>x. CHR 0x0A # x) r))"

section \<open>Pages of addresses\<close>

definition is_alnum :: "char \<Rightarrow> bool" where
  "is_alnum c = (let n = of_char c :: nat in (48 \<le> n \<and> n \<le> 57) \<or> (65 \<le> n \<and> n \<le> 90) \<or> (97 \<le> n \<and> n \<le> 122))"

text \<open>The length of a match of \<open>/bc1[a-z0-9]{25,87}/i\<close> at the start of the text.\<close>

definition bc1_at :: "string \<Rightarrow> nat option" where
  "bc1_at t =
     (let run = length (takeWhile is_alnum (drop 3 t))
      in if map lower (take 3 t) = ''bc1'' \<and> 25 \<le> run then Some (3 + min 87 run) else None)"

lemma bc1_at_pos: "bc1_at t = Some n \<Longrightarrow> 0 < n"
  by (auto simp: bc1_at_def Let_def split: if_splits)

function bc1_matches :: "string \<Rightarrow> string list" where
  "bc1_matches [] = []"
| "bc1_matches (c # t) =
     (case bc1_at (c # t) of
        Some n \<Rightarrow> take n (c # t) # bc1_matches (drop n (c # t))
      | None \<Rightarrow> bc1_matches t)"
  by pat_completeness auto
termination
  by (relation "measure length") (auto dest!: bc1_at_pos)

definition section_head :: string where
  "section_head = ''where the money is''"

fun find_section :: "string \<Rightarrow> string option" where
  "find_section [] = None"
| "find_section (c # t) =
     (if map lower (take (length section_head) (c # t)) = section_head
      then Some (take (length section_head + 8000) (c # t)) else find_section t)"

definition collector_section :: "string \<Rightarrow> string" where
  "collector_section html = (case find_section html of Some t \<Rightarrow> t | None \<Rightarrow> take 12000 html)"

record watch_data =
  wd_collectors :: "address list"
  wd_victims :: "address list"
  wd_downstream :: "address list"
  wd_hash :: string

definition fetchColdcardWatch :: "feed_env \<Rightarrow> string \<Rightarrow> job_error + watch_data" where
  "fetchColdcardWatch fe base =
     (case fetch_text fe ''ColdcardWatch'' (base @ ''/'') of
        Inl e \<Rightarrow> Inl e
      | Inr html \<Rightarrow>
          let unique = dedupeNormalized (fe_valid fe) (bc1_matches html);
              collectors = dedupeNormalized (fe_valid fe) (bc1_matches (collector_section html));
              listed = (case fe_get fe (base @ ''/addresses'') of
                          Inr (st, t) \<Rightarrow> if http_ok st then dedupeNormalized (fe_valid fe) (bc1_matches t) else []
                        | Inl e \<Rightarrow> []);
              victims = (if listed = [] then filter (\<lambda>v. v \<notin> set collectors) unique else listed)
          in Inr \<lparr>wd_collectors = collectors, wd_victims = filter (\<lambda>v. v \<notin> set collectors) victims,
                  wd_downstream = [], wd_hash = fe_sha fe (join_lines (sort (collectors @ victims)))\<rparr>)"

record tracker_data =
  td_addresses :: "address list"
  td_hash :: string

text \<open>Reading \<open>address\<close> of an entry without such a text raises a \<open>TypeError\<close>.\<close>

fun entry_addresses :: "json list \<Rightarrow> string list option" where
  "entry_addresses [] = Some []"
| "entry_addresses (JObj fs # es) =
     (case (as_str (jget fs ''address''), entry_addresses es) of
        (Some a, Some r) \<Rightarrow> Some (a # r) | _ \<Rightarrow> None)"
| "entry_addresses (e # es) = None"

definition fetchColdcardHackTracker :: "feed_env \<Rightarrow> string \<Rightarrow> job_error + tracker_data" where
  "fetchColdcardHackTracker fe base =
     (case fetch_text fe ''ColdcardHackTracker'' (base @ ''/snapshot.json'') of
        Inl e \<Rightarrow> Inl e
      | Inr t \<Rightarrow>
          (case fe_json fe t of
             None \<Rightarrow> Inl (Other_error ''Unexpected token in JSON'')
           | Some j \<Rightarrow>
               (case Option.bind (as_arr (jget (obj_fields j) ''addresses'')) entry_addresses of
                  None \<Rightarrow> Inl (Other_error ''TypeError'')
                | Some raw \<Rightarrow>
                    let as = sort (dedupeNormalized (fe_valid fe) raw)
                    in Inr \<lparr>td_addresses = as, td_hash = fe_sha fe (join_lines as)\<rparr>)))"

record sweep_data =
  sd_collectors :: "address list"
  sd_vaults :: "address list"
  sd_hash :: string

text \<open>\<open>replace(/^\s*window\.WAVE3\s*=\s*/, "").trim().replace(/;$/, "")\<close>\<close>

definition wave_json :: "string \<Rightarrow> string" where
  "wave_json t =
     (let a = dropWhile is_blank t; name = ''window.WAVE3'';
          b = dropWhile is_blank (drop (length name) a);
          c = trim (if starts_with name a \<and> starts_with ''='' b then drop 1 b else t)
      in if c \<noteq> [] \<and> last c = CHR '';'' then butlast c else c)"

fun vault_names :: "json list \<Rightarrow> string list option" where
  "vault_names [] = Some []"
| "vault_names (JArr (JStr a # r) # es) = map_option ((#) a) (vault_names es)"
| "vault_names (JStr (c # t) # es) = map_option ((#) [c]) (vault_names es)"
| "vault_names (e # es) = None"

definition fetchColdcardSweepWatch :: "feed_env \<Rightarrow> string \<Rightarrow> job_error + sweep_data" where
  "fetchColdcardSweepWatch fe base =
     (case fetch_text fe ''ColdcardSweepWatch wave3'' (base @ ''/wave3.js'') of
        Inl e \<Rightarrow> Inl e
      | Inr wave \<Rightarrow>
          (case fe_json fe (wave_json wave) of
             None \<Rightarrow> Inl (Other_error ''Unexpected token in JSON'')
           | Some j \<Rightarrow>
               (case (if j = JNull then None
                      else if non_null (jget (obj_fields j) ''vaults'')
                      then Option.bind (as_arr (jget (obj_fields j) ''vaults'')) vault_names else Some []) of
                  None \<Rightarrow> Inl (Other_error ''TypeError'')
                | Some raw \<Rightarrow>
                    (case fetch_text fe ''ColdcardSweepWatch homepage'' (base @ ''/'') of
                       Inl e \<Rightarrow> Inl e
                     | Inr html \<Rightarrow>
                         let vaults = dedupeNormalized (fe_valid fe) raw;
                             collectors = dedupeNormalized (fe_valid fe) (bc1_matches (collector_section html))
                         in Inr \<lparr>sd_collectors = collectors, sd_vaults = filter (\<lambda>v. v \<notin> set collectors) vaults,
                                 sd_hash = fe_sha fe (join_lines (sort (collectors @ vaults)))\<rparr>))))"

section \<open>The table of a feed\<close>

text \<open>One line of the table: the fields read so far, the field being read, and whether inside quotes.\<close>

abbreviation quote :: char where "quote \<equiv> CHR 0x22"

fun csv_fields :: "bool \<Rightarrow> string \<Rightarrow> string \<Rightarrow> string list" where
  "csv_fields q cur [] = [cur]"
| "csv_fields True cur (c # t) =
     (if c = quote
      then (case t of
              d # r \<Rightarrow> if d = quote then csv_fields True (cur @ [quote]) r else csv_fields False cur t
            | [] \<Rightarrow> csv_fields False cur t)
      else csv_fields True (cur @ [c]) t)"
| "csv_fields False cur (c # t) =
     (if c = quote then csv_fields True cur t
      else if c = CHR '','' then cur # csv_fields False [] t
      else csv_fields False (cur @ [c]) t)"

definition splitCsvLine :: "string \<Rightarrow> string list" where
  "splitCsvLine = csv_fields False []"

definition isBitqueryAttackerControlled :: "string \<Rightarrow> bool" where
  "isBitqueryAttackerControlled t = starts_with ''attacker-controlled'' (map lower (trim t))"

text \<open>\<open>split(/\r?\n/)\<close>\<close>

fun split_lines :: "string \<Rightarrow> string \<Rightarrow> string list" where
  "split_lines cur [] = [cur]"
| "split_lines cur (c # t) =
     (if c = CHR 0x0A then cur # split_lines [] t
      else if c = CHR 0x0D \<and> t \<noteq> [] \<and> hd t = CHR 0x0A then cur # split_lines [] (tl t)
      else split_lines (cur @ [c]) t)"

definition index_of :: "'a \<Rightarrow> 'a list \<Rightarrow> nat option" where
  "index_of x xs = (let n = length (takeWhile (\<lambda>y. y \<noteq> x) xs) in if n < length xs then Some n else None)"

definition col :: "nat \<Rightarrow> string list \<Rightarrow> string" where
  "col i cols = (if i < length cols then cols ! i else [])"

definition parseBitqueryColdcardCsv :: "(string \<Rightarrow> bool) \<Rightarrow> string \<Rightarrow> job_error + address list" where
  "parseBitqueryColdcardCsv valid text =
     (let dataLines = filter (\<lambda>l. trim l \<noteq> [] \<and> \<not> starts_with ''#'' (trim l)) (split_lines [] text);
          missing = Inl (Other_error ''Bitquery CSV missing address and classification columns'')
      in case dataLines of
           [] \<Rightarrow> missing
         | h # rows \<Rightarrow>
             (let headers = map (\<lambda>t. map lower (trim t)) (splitCsvLine h)
              in case (index_of ''address'' headers, index_of ''classification'' headers) of
                   (Some a, Some c) \<Rightarrow>
                     Inr (sort (dedupeNormalized valid
                            (map (col a) (filter (\<lambda>cols. isBitqueryAttackerControlled (col c cols)) (map splitCsvLine rows)))))
                 | _ \<Rightarrow> missing))"

definition fetchBitqueryColdcard :: "feed_env \<Rightarrow> string \<Rightarrow> job_error + tracker_data" where
  "fetchBitqueryColdcard fe url =
     (case fetch_text fe ''Bitquery Coldcard CSV'' url of
        Inl e \<Rightarrow> Inl e
      | Inr t \<Rightarrow>
          (case parseBitqueryColdcardCsv (fe_valid fe) t of
             Inl e \<Rightarrow> Inl e
           | Inr as \<Rightarrow> Inr \<lparr>td_addresses = as, td_hash = fe_sha fe (join_lines as)\<rparr>))"

section \<open>What is new\<close>

definition D1_IN_CLAUSE_CHUNK_SIZE :: int where "D1_IN_CLAUSE_CHUNK_SIZE = 80"

definition getAddressesMap :: "address list \<Rightarrow> store \<Rightarrow> (address \<times> addr_row) list" where
  "getAddressesMap as s =
     (let unique = filter (\<lambda>a. a \<noteq> []) (uniq as)
      in fold (\<lambda>r m. map_put (address_of r) r m)
           (concat (map (\<lambda>c. filter (\<lambda>r. address_of r \<in> set c) (addresses s)) (chunkArray unique D1_IN_CLAUSE_CHUNK_SIZE))) [])"

definition partitionSourceHackers ::
  "address list \<Rightarrow> (address \<times> addr_row) list \<Rightarrow> address list \<times> address list" where
  "partitionSourceHackers as existing =
     (let known = (\<lambda>a. case map_of existing a of Some r \<Rightarrow> isFlaggedHacker r | None \<Rightarrow> False)
      in (filter (\<lambda>a. \<not> known a) as, filter known as))"

definition partitionSourceMissing ::
  "address list \<Rightarrow> (address \<times> addr_row) list \<Rightarrow> address list \<times> address list" where
  "partitionSourceMissing as existing =
     (filter (\<lambda>a. map_of existing a = None) as, filter (\<lambda>a. map_of existing a \<noteq> None) as)"

definition sourceDeltaEmpty :: "address list \<Rightarrow> address list \<Rightarrow> address list \<Rightarrow> bool" where
  "sourceDeltaEmpty hackers victims downstream \<longleftrightarrow> length hackers = 0 \<and> length victims = 0 \<and> length downstream = 0"

definition source_hacker :: "address \<Rightarrow> string \<Rightarrow> addr_upsert" where
  "source_hacker a src = (plain_upsert a)\<lparr>u_role := Some Hacker, u_flagged := Some True, u_source := Some src,
     u_hackId := Some ''coldcard'', u_hop := Some (Some 0)\<rparr>"

definition enqueue_source_backfill :: "address \<Rightarrow> store \<Rightarrow> store" where
  "enqueue_source_backfill a s =
     snd (enqueueJobIfAbsent Backfill_hacker_address [(''address'', JStr a)] BACKFILL_HACKER None None (Some a) False s)"

definition ingestSourceHacker :: "string \<Rightarrow> address \<Rightarrow> store \<Rightarrow> bool \<times> store" where
  "ingestSourceHacker src a s =
     (case insertAddressIfMissing ((source_hacker a src)\<lparr>u_expandStatus := Some XPending\<rparr>) s of
        (True, s1) \<Rightarrow> (True, enqueue_source_backfill a s1)
      | (False, s1) \<Rightarrow>
          if flagged_address s1 a then (False, s1)
          else (True, enqueue_source_backfill a (upsertAddress (source_hacker a src) s1)))"

definition ingestSourceHackerIfMissing :: "string \<Rightarrow> address \<Rightarrow> store \<Rightarrow> bool \<times> store" where
  "ingestSourceHackerIfMissing src a s =
     (case insertAddressIfMissing ((source_hacker a src)\<lparr>u_expandStatus := Some XPending\<rparr>) s of
        (True, s1) \<Rightarrow> (True, enqueue_source_backfill a s1)
      | (False, s1) \<Rightarrow> (False, s1))"

definition ingestSourceVictim :: "string \<Rightarrow> address \<Rightarrow> store \<Rightarrow> bool \<times> store" where
  "ingestSourceVictim src a =
     insertAddressIfMissing ((plain_upsert a)\<lparr>u_role := Some Victim, u_source := Some src\<rparr>)"

text \<open>\<open>insertAddressIfMissing\<close> of \<open>sources/insertIfMissing.ts\<close>, as the vaults use it.\<close>

definition insertNormalized :: "(string \<Rightarrow> bool) \<Rightarrow> string \<Rightarrow> string \<Rightarrow> store \<Rightarrow> bool \<times> store" where
  "insertNormalized valid src raw s =
     (case normalizeBitcoinAddress valid raw of None \<Rightarrow> (False, s) | Some a \<Rightarrow> ingestSourceVictim src a s)"

definition expandStatusForNewDownstream :: "int \<Rightarrow> expand_status" where
  "expandStatusForNewDownstream minExpand = or_else (expandStatusToWrite None 0 minExpand) XPending"

definition ingestSourceDownstream :: "string \<Rightarrow> int \<Rightarrow> address \<Rightarrow> store \<Rightarrow> bool \<times> store" where
  "ingestSourceDownstream src minExpand a =
     insertAddressIfMissing ((plain_upsert a)\<lparr>u_role := Some Downstream, u_source := Some src,
       u_expandStatus := Some (expandStatusForNewDownstream minExpand)\<rparr>)"

end
