(* ===== verification/SourceSync.thy ===== *)
theory SourceSync
  imports Sources
begin

text \<open>
  The jobs of the feeds: a fetch that finds something new is cut into batch jobs of
  \<open>syncAddressesPerJob\<close> addresses; a batch job stops when the subrequest budget is used up and puts a
  job with the rest in the queue; the last batch records the hash of the content.
\<close>

section \<open>Batches\<close>

text \<open>\<open>chunkArray\<close> of the feeds: it steps by at least one, and slices by the size given.\<close>

definition feed_chunks :: "int \<Rightarrow> 'a list \<Rightarrow> 'a list list" where
  "feed_chunks sz xs =
     (let step = max 1 sz; n = nat ((int (length xs) + step - 1) div step)
      in map (\<lambda>k. js_slice xs (int k * step) (int k * step + sz)) [0..<n])"

definition str_arr :: "string list \<Rightarrow> json" where
  "str_arr ts = JArr (map JStr ts)"

text \<open>\<open>payload.k ?? []\<close> for a list of texts.\<close>

definition strings_at :: "payload \<Rightarrow> string \<Rightarrow> string list" where
  "strings_at p k = (case as_arr (jget p k) of Some vs \<Rightarrow> map js_string vs | None \<Rightarrow> [])"

definition number_jobs :: "payload list \<Rightarrow> payload list" where
  "number_jobs ps =
     map (\<lambda>(i, p). p @ [(''chunkIndex'', JNum (int i + 1)), (''chunkTotal'', JNum (int (length ps)))])
       (zip [0..<length ps] ps)"

definition finalize_last :: "int \<Rightarrow> payload list \<Rightarrow> payload list" where
  "finalize_last n ps =
     (if ps = [] then []
      else butlast ps @ [last ps @ [(''finalize'', JBool True), (''lastAddressCount'', JNum n)]])"

definition enqueue_all :: "job_type \<Rightarrow> int \<Rightarrow> payload list \<Rightarrow> store \<Rightarrow> store" where
  "enqueue_all ty pr ps s = fold (\<lambda>p s. snd (enqueueJob ty p pr None False s)) ps s"

definition chunk_jobs :: "string \<Rightarrow> string \<Rightarrow> int \<Rightarrow> address list \<Rightarrow> payload list" where
  "chunk_jobs h k perJob as = map (\<lambda>c. [(''contentHash'', JStr h), (k, str_arr c)]) (feed_chunks perJob as)"

definition watch_jobs :: "watch_data \<Rightarrow> int \<Rightarrow> int \<Rightarrow> payload list" where
  "watch_jobs d perJob n = number_jobs (finalize_last n
     (chunk_jobs (wd_hash d) ''collectors'' perJob (wd_collectors d) @ chunk_jobs (wd_hash d) ''victims'' perJob (wd_victims d) @
      chunk_jobs (wd_hash d) ''downstream'' perJob (wd_downstream d)))"

definition enqueueColdcardWatchBatchJobs :: "watch_data \<Rightarrow> int \<Rightarrow> int option \<Rightarrow> store \<Rightarrow> store" where
  "enqueueColdcardWatchBatchJobs d perJob lastCount s =
     (let n = or_else lastCount (int (length (wd_collectors d)) + int (length (wd_victims d))); ps = watch_jobs d perJob n
      in if ps = [] then upsertSourceSync ''coldcardwatch'' (Some n) (Some (wd_hash d)) s
         else enqueue_all Sync_coldcardwatch SYNC_COLDCARDWATCH ps s)"

text \<open>The batches of a feed that is one list of addresses.\<close>

definition tracker_jobs :: "payload \<Rightarrow> tracker_data \<Rightarrow> int \<Rightarrow> int \<Rightarrow> payload list" where
  "tracker_jobs tag d perJob n =
     (let cs = feed_chunks perJob (td_addresses d)
      in map (\<lambda>(i, c). tag @ [(''contentHash'', JStr (td_hash d)), (''addresses'', str_arr c),
             (''finalize'', JBool (i + 1 = length cs)), (''lastAddressCount'', JNum n),
             (''chunkIndex'', JNum (int i + 1)), (''chunkTotal'', JNum (int (length cs)))]) (zip [0..<length cs] cs))"

definition tracker_tag :: payload where "tracker_tag = [(''source'', JStr ''coldcard_hack_tracker'')]"
definition sweep_tag :: payload where "sweep_tag = [(''source'', JStr ''coldcard_sweep_watch'')]"

definition enqueueColdcardHackTrackerBatchJobs :: "tracker_data \<Rightarrow> int \<Rightarrow> int option \<Rightarrow> store \<Rightarrow> store" where
  "enqueueColdcardHackTrackerBatchJobs d perJob lastCount s =
     (let n = or_else lastCount (int (length (td_addresses d))); ps = tracker_jobs tracker_tag d perJob n
      in if ps = [] then upsertSourceSync ''coldcard_hack_tracker'' (Some n) (Some (td_hash d)) s
         else enqueue_all Sync_vercel_trackers SYNC_VERCEL_TRACKERS ps s)"

definition enqueueBitqueryColdcardBatchJobs :: "tracker_data \<Rightarrow> int \<Rightarrow> int option \<Rightarrow> store \<Rightarrow> store" where
  "enqueueBitqueryColdcardBatchJobs d perJob lastCount s =
     (let n = or_else lastCount (int (length (td_addresses d))); ps = tracker_jobs [] d perJob n
      in if ps = [] then upsertSourceSync ''bitquery_coldcard'' (Some n) (Some (td_hash d)) s
         else enqueue_all Sync_bitquery_coldcard SYNC_BITQUERY_COLDCARD ps s)"

definition sweep_jobs :: "sweep_data \<Rightarrow> int \<Rightarrow> int \<Rightarrow> payload list" where
  "sweep_jobs d perJob n = map (\<lambda>p. sweep_tag @ p) (number_jobs (finalize_last n
     (chunk_jobs (sd_hash d) ''collectors'' perJob (sd_collectors d) @ chunk_jobs (sd_hash d) ''vaults'' perJob (sd_vaults d))))"

definition enqueueColdcardSweepWatchBatchJobs :: "sweep_data \<Rightarrow> int \<Rightarrow> int option \<Rightarrow> store \<Rightarrow> store" where
  "enqueueColdcardSweepWatchBatchJobs d perJob lastCount s =
     (let n = or_else lastCount (int (length (sd_collectors d)) + int (length (sd_vaults d))); ps = sweep_jobs d perJob n
      in if ps = [] then upsertSourceSync ''coldcard_sweep_watch'' (Some n) (Some (sd_hash d)) s
         else enqueue_all Sync_vercel_trackers SYNC_VERCEL_TRACKERS ps s)"

section \<open>Applying a batch\<close>

text \<open>
  The loop of every batch: the budget is asked before each address. The result is the list from the
  address at which it was used up, the number of questions so far, and the number of new addresses
  with the store.
\<close>

fun ingest_until ::
  "(nat \<Rightarrow> bool) \<Rightarrow> (address \<Rightarrow> store \<Rightarrow> bool \<times> store) \<Rightarrow> nat \<Rightarrow> address list \<Rightarrow> int \<times> store
   \<Rightarrow> address list \<times> nat \<times> int \<times> store" where
  "ingest_until ex f n [] (k, s) = ([], n, k, s)"
| "ingest_until ex f n (x # xs) (k, s) =
     (if ex n then (x # xs, Suc n, k, s)
      else (case f x s of (b, s1) \<Rightarrow> ingest_until ex f (Suc n) xs (k + b2i b, s1)))"

text \<open>The fields that a job with the rest takes over; one that is undefined does not survive.\<close>

definition carried :: "string list \<Rightarrow> payload \<Rightarrow> payload" where
  "carried ks p = concat (map (\<lambda>k. field k (\<lambda>v. v) (jget p k)) ks)"

definition batch_fields :: "string list" where
  "batch_fields = [''contentHash'', ''finalize'', ''lastAddressCount'', ''chunkIndex'', ''chunkTotal'']"

definition finalize_batch :: "string \<Rightarrow> payload \<Rightarrow> int \<Rightarrow> store \<Rightarrow> store" where
  "finalize_batch src p dflt s =
     (if is_true (jget p ''finalize'')
      then upsertSourceSync src (Some (or_else (as_num (jget p ''lastAddressCount'')) dflt)) (as_str (jget p ''contentHash'')) s
      else s)"

definition applyColdcardWatchSyncBatch :: "feed_env \<Rightarrow> int \<Rightarrow> payload \<Rightarrow> store \<Rightarrow> store" where
  "applyColdcardWatchSyncBatch fe minExpand p s =
     (let again = (\<lambda>q s. snd (enqueueJob Sync_coldcardwatch q SYNC_COLDCARDWATCH None False s));
          ex = fe_exhausted fe
      in case ingest_until ex (ingestSourceHacker ''coldcardwatch'') 0 (strings_at p ''collectors'') (0, s) of
           (rest, n, k, s1) \<Rightarrow>
             if rest \<noteq> [] then again ((''collectors'', str_arr rest) # carried (''victims'' # ''downstream'' # batch_fields) p) s1
             else case ingest_until ex (ingestSourceVictim ''coldcardwatch'') n (strings_at p ''victims'') (k, s1) of
               (rest, n, k, s2) \<Rightarrow>
                 if rest \<noteq> [] then again ((''victims'', str_arr rest) # carried (''downstream'' # batch_fields) p) s2
                 else case ingest_until ex (ingestSourceDownstream ''coldcardwatch'' minExpand) n (strings_at p ''downstream'') (k, s2) of
                   (rest, n, k, s3) \<Rightarrow>
                     if rest \<noteq> [] then again ((''downstream'', str_arr rest) # carried batch_fields p) s3
                     else finalize_batch ''coldcardwatch'' p 0 s3)"

text \<open>The batch of a feed that is one list, with what distinguishes the two such feeds.\<close>

definition apply_tracker_batch ::
  "job_type \<Rightarrow> int \<Rightarrow> payload \<Rightarrow> string \<Rightarrow> (address \<Rightarrow> store \<Rightarrow> bool \<times> store) \<Rightarrow> feed_env \<Rightarrow> payload \<Rightarrow> store \<Rightarrow> int \<times> store" where
  "apply_tracker_batch ty pr tag src ingest fe p s =
     (case ingest_until (fe_exhausted fe) ingest 0 (strings_at p ''addresses'') (0, s) of
        (rest, n, k, s1) \<Rightarrow>
          if rest \<noteq> [] then (k, snd (enqueueJob ty (tag @ (''addresses'', str_arr rest) # carried batch_fields p) pr None False s1))
          else (k, finalize_batch src p (int (length (strings_at p ''addresses''))) s1))"

definition applyColdcardHackTrackerSyncBatch :: "feed_env \<Rightarrow> payload \<Rightarrow> store \<Rightarrow> int \<times> store" where
  "applyColdcardHackTrackerSyncBatch = apply_tracker_batch Sync_vercel_trackers SYNC_VERCEL_TRACKERS tracker_tag
     ''coldcard_hack_tracker'' (ingestSourceHacker ''coldcard_hack_tracker'')"

definition applyBitqueryColdcardSyncBatch :: "feed_env \<Rightarrow> payload \<Rightarrow> store \<Rightarrow> int \<times> store" where
  "applyBitqueryColdcardSyncBatch = apply_tracker_batch Sync_bitquery_coldcard SYNC_BITQUERY_COLDCARD []
     ''bitquery_coldcard'' (ingestSourceHackerIfMissing ''bitquery_coldcard'')"

definition applyColdcardSweepWatchSyncBatch :: "feed_env \<Rightarrow> payload \<Rightarrow> store \<Rightarrow> int \<times> store" where
  "applyColdcardSweepWatchSyncBatch fe p s =
     (let again = (\<lambda>q s. snd (enqueueJob Sync_vercel_trackers q SYNC_VERCEL_TRACKERS None False s));
          ex = fe_exhausted fe; vaults = strings_at p ''vaults''
      in case ingest_until ex (ingestSourceHacker ''coldcard_sweep_watch'') 0 (strings_at p ''collectors'') (0, s) of
           (rest, n, k, s1) \<Rightarrow>
             if rest \<noteq> []
             then (k, again (sweep_tag @ (''collectors'', str_arr rest) # (''vaults'', str_arr vaults) # carried batch_fields p) s1)
             else case ingest_until ex (insertNormalized (fe_valid fe) ''coldcard_sweep_watch'') n vaults (k, s1) of
               (rest, n, k, s2) \<Rightarrow>
                 if rest \<noteq> [] then (k, again (sweep_tag @ (''vaults'', str_arr rest) # carried batch_fields p) s2)
                 else (k, finalize_batch ''coldcard_sweep_watch'' p 0 s2))"

section \<open>A feed in one go\<close>

definition ingest_all :: "(address \<Rightarrow> store \<Rightarrow> bool \<times> store) \<Rightarrow> address list \<Rightarrow> int \<times> store \<Rightarrow> int \<times> store" where
  "ingest_all f xs ks = fold (\<lambda>x (k, s). case f x s of (b, s1) \<Rightarrow> (k + b2i b, s1)) xs ks"

definition applyColdcardWatchSync :: "watch_data \<Rightarrow> int \<Rightarrow> store \<Rightarrow> store" where
  "applyColdcardWatchSync d minExpand s =
     (let s1 = snd (ingest_all (ingestSourceHacker ''coldcardwatch'') (wd_collectors d) (0, s));
          s2 = snd (ingest_all (ingestSourceVictim ''coldcardwatch'') (wd_victims d) (0, s1));
          s3 = snd (ingest_all (ingestSourceDownstream ''coldcardwatch'' minExpand) (wd_downstream d) (0, s2))
      in upsertSourceSync ''coldcardwatch'' (Some (int (length (wd_collectors d)) + int (length (wd_victims d)))) (Some (wd_hash d)) s3)"

definition applyColdcardHackTrackerSync :: "tracker_data \<Rightarrow> store \<Rightarrow> int \<times> store" where
  "applyColdcardHackTrackerSync d s =
     (let (k, s1) = ingest_all (ingestSourceHacker ''coldcard_hack_tracker'') (td_addresses d) (0, s)
      in (k, upsertSourceSync ''coldcard_hack_tracker'' (Some (int (length (td_addresses d)))) (Some (td_hash d)) s1))"

definition applyColdcardSweepWatchSync :: "(string \<Rightarrow> bool) \<Rightarrow> sweep_data \<Rightarrow> store \<Rightarrow> int \<times> store" where
  "applyColdcardSweepWatchSync valid d s =
     (let (k, s1) = ingest_all (ingestSourceHacker ''coldcard_sweep_watch'') (sd_collectors d) (0, s);
          (k, s2) = ingest_all (insertNormalized valid ''coldcard_sweep_watch'') (sd_vaults d) (k, s1)
      in (k, upsertSourceSync ''coldcard_sweep_watch''
               (Some (int (length (sd_collectors d)) + int (length (sd_vaults d)))) (Some (sd_hash d)) s2))"

section \<open>The jobs\<close>

definition content_hash :: "string \<Rightarrow> store \<Rightarrow> string option" where
  "content_hash src s = Option.bind (getSourceSync src s) src_contentHash"

text \<open>A fetch that fails records the error and throws.\<close>

definition fetch_failed :: "string \<Rightarrow> job_error \<Rightarrow> store \<Rightarrow> (job_error + unit) \<times> store" where
  "fetch_failed src e s = (Inl e, setSourceSyncError src (error_message e) s)"

definition syncColdcardwatch :: "feed_env \<Rightarrow> feed_config \<Rightarrow> config \<Rightarrow> payload \<Rightarrow> store \<Rightarrow> (job_error + unit) \<times> store" where
  "syncColdcardwatch fe fc cfg p s =
     (if non_null (jget p ''collectors'') \<or> non_null (jget p ''victims'') \<or> non_null (jget p ''downstream'')
      then (Inr (), applyColdcardWatchSyncBatch fe (minExpandSats cfg) p s)
      else case fetchColdcardWatch fe (fc_coldcardwatchBase fc) of
             Inl e \<Rightarrow> fetch_failed ''coldcardwatch'' e s
           | Inr d \<Rightarrow>
               (let n = int (length (wd_collectors d)) + int (length (wd_victims d))
                in if content_hash ''coldcardwatch'' s = Some (wd_hash d)
                   then (Inr (), upsertSourceSync ''coldcardwatch'' None (Some (wd_hash d)) s)
                   else
                     let existing = getAddressesMap (wd_collectors d @ wd_victims d @ wd_downstream d) s;
                         collectors = fst (partitionSourceHackers (wd_collectors d) existing);
                         victims = fst (partitionSourceMissing (wd_victims d) existing);
                         downstream = fst (partitionSourceMissing (wd_downstream d) existing)
                     in if sourceDeltaEmpty collectors victims downstream
                        then (Inr (), upsertSourceSync ''coldcardwatch'' (Some n) (Some (wd_hash d)) s)
                        else (Inr (), enqueueColdcardWatchBatchJobs
                               \<lparr>wd_collectors = collectors, wd_victims = victims, wd_downstream = downstream,
                                wd_hash = wd_hash d\<rparr> (syncAddressesPerJob cfg) (Some n) s)))"

definition sync_tracker_delta :: "config \<Rightarrow> tracker_data \<Rightarrow> store \<Rightarrow> store" where
  "sync_tracker_delta cfg d s =
     (let as = fst (partitionSourceHackers (td_addresses d) (getAddressesMap (td_addresses d) s)); n = int (length (td_addresses d))
      in if length as = 0 then upsertSourceSync ''coldcard_hack_tracker'' (Some n) (Some (td_hash d)) s
         else enqueueColdcardHackTrackerBatchJobs \<lparr>td_addresses = as, td_hash = td_hash d\<rparr> (syncAddressesPerJob cfg) (Some n) s)"

definition sync_sweep_delta :: "config \<Rightarrow> sweep_data \<Rightarrow> store \<Rightarrow> store" where
  "sync_sweep_delta cfg d s =
     (let existing = getAddressesMap (sd_collectors d @ sd_vaults d) s;
          collectors = fst (partitionSourceHackers (sd_collectors d) existing);
          vaults = fst (partitionSourceMissing (sd_vaults d) existing);
          n = int (length (sd_collectors d)) + int (length (sd_vaults d))
      in if sourceDeltaEmpty collectors vaults [] then upsertSourceSync ''coldcard_sweep_watch'' (Some n) (Some (sd_hash d)) s
         else enqueueColdcardSweepWatchBatchJobs \<lparr>sd_collectors = collectors, sd_vaults = vaults, sd_hash = sd_hash d\<rparr>
                (syncAddressesPerJob cfg) (Some n) s)"

definition syncVercelTrackers :: "feed_env \<Rightarrow> feed_config \<Rightarrow> config \<Rightarrow> payload \<Rightarrow> store \<Rightarrow> (job_error + unit) \<times> store" where
  "syncVercelTrackers fe fc cfg p s =
     (if jget p ''source'' = Some (JStr ''coldcard_hack_tracker'') \<and> non_null (jget p ''addresses'')
      then (Inr (), snd (applyColdcardHackTrackerSyncBatch fe p s))
      else if jget p ''source'' = Some (JStr ''coldcard_sweep_watch'') \<and>
              (non_null (jget p ''collectors'') \<or> non_null (jget p ''vaults''))
      then (Inr (), snd (applyColdcardSweepWatchSyncBatch fe p s))
      else
        let hack = fetchColdcardHackTracker fe (fc_hackTrackerBase fc);
            s1 = (case hack of Inl e \<Rightarrow> setSourceSyncError ''coldcard_hack_tracker'' (error_message e) s | Inr d \<Rightarrow> s);
            sweep = fetchColdcardSweepWatch fe (fc_sweepWatchBase fc);
            s2 = (case sweep of Inl e \<Rightarrow> setSourceSyncError ''coldcard_sweep_watch'' (error_message e) s1 | Inr d \<Rightarrow> s1)
        in case (hack, sweep) of
             (Inl e, _) \<Rightarrow> (Inl e, s2)
           | (_, Inl e) \<Rightarrow> (Inl e, s2)
           | (Inr td, Inr sd) \<Rightarrow>
               (let same1 = (content_hash ''coldcard_hack_tracker'' s2 = Some (td_hash td));
                    same2 = (content_hash ''coldcard_sweep_watch'' s2 = Some (sd_hash sd))
                in if same1 \<and> same2
                   then (Inr (), upsertSourceSync ''coldcard_sweep_watch'' None (Some (sd_hash sd))
                                   (upsertSourceSync ''coldcard_hack_tracker'' None (Some (td_hash td)) s2))
                   else
                     let s3 = (if same1 then s2 else sync_tracker_delta cfg td s2)
                     in (Inr (), if same2 then s3 else sync_sweep_delta cfg sd s3)))"

definition syncBitqueryColdcard :: "feed_env \<Rightarrow> feed_config \<Rightarrow> config \<Rightarrow> payload \<Rightarrow> store \<Rightarrow> (job_error + unit) \<times> store" where
  "syncBitqueryColdcard fe fc cfg p s =
     (if non_null (jget p ''addresses'') then (Inr (), snd (applyBitqueryColdcardSyncBatch fe p s))
      else case fetchBitqueryColdcard fe (fc_bitqueryCsvUrl fc) of
             Inl e \<Rightarrow> fetch_failed ''bitquery_coldcard'' e s
           | Inr d \<Rightarrow>
               (let n = int (length (td_addresses d))
                in if content_hash ''bitquery_coldcard'' s = Some (td_hash d)
                   then (Inr (), upsertSourceSync ''bitquery_coldcard'' None (Some (td_hash d)) s)
                   else
                     let missing = fst (partitionSourceMissing (td_addresses d) (getAddressesMap (td_addresses d) s))
                     in if length missing = 0
                        then (Inr (), upsertSourceSync ''bitquery_coldcard'' (Some n) (Some (td_hash d)) s)
                        else (Inr (), enqueueBitqueryColdcardBatchJobs \<lparr>td_addresses = missing, td_hash = td_hash d\<rparr>
                               (syncAddressesPerJob cfg) (Some n) s)))"

text \<open>
  The price. A base without its last slash; a time in seconds. The price of an answer is a whole number,
  so that there is nothing to round.
\<close>

definition mempoolPricesUrl :: "string \<Rightarrow> string" where
  "mempoolPricesUrl base = (if base \<noteq> [] \<and> last base = CHR ''/'' then butlast base else base) @ ''/v1/prices''"

definition fetchMempoolBtcUsd :: "feed_env \<Rightarrow> string \<Rightarrow> store \<Rightarrow> job_error + int \<times> time" where
  "fetchMempoolBtcUsd fe base s =
     (case fetch_text fe ''Mempool prices'' (mempoolPricesUrl base) of
        Inl e \<Rightarrow> Inl e
      | Inr t \<Rightarrow>
          (case fe_json fe t of
             None \<Rightarrow> Inl (Other_error ''Unexpected token in JSON'')
           | Some JNull \<Rightarrow> Inl (Other_error ''TypeError'')
           | Some j \<Rightarrow>
               (case as_num (jget (obj_fields j) ''USD'') of
                  Some usd \<Rightarrow>
                    if 0 < usd
                    then Inr (usd, case as_num (jget (obj_fields j) ''time'') of Some t \<Rightarrow> t * 1000 | None \<Rightarrow> clock s)
                    else Inl (Other_error ''Mempool prices response missing valid USD field'')
                | None \<Rightarrow> Inl (Other_error ''Mempool prices response missing valid USD field''))))"

definition refreshBtcUsdPrice :: "feed_env \<Rightarrow> feed_config \<Rightarrow> store \<Rightarrow> (job_error + unit) \<times> store" where
  "refreshBtcUsdPrice fe fc s =
     (case fetchMempoolBtcUsd fe (fc_mempoolBase fc) s of
        Inl e \<Rightarrow> (Inl e, s) | Inr (usd, t) \<Rightarrow> (Inr (), setBtcUsdPrice usd t s))"

text \<open>The bodies that were the parameter of the dispatch.\<close>

fun feed_body :: "feed_env \<Rightarrow> feed_config \<Rightarrow> config \<Rightarrow> external_body" where
  "feed_body fe fc cfg Sync_coldcardwatch p s = syncColdcardwatch fe fc cfg p s"
| "feed_body fe fc cfg Sync_vercel_trackers p s = syncVercelTrackers fe fc cfg p s"
| "feed_body fe fc cfg Sync_bitquery_coldcard p s = syncBitqueryColdcard fe fc cfg p s"
| "feed_body fe fc cfg Refresh_btc_usd_price p s = refreshBtcUsdPrice fe fc s"
| "feed_body fe fc cfg ty p s = (Inl (Other_error ''Unknown job type''), s)"

end
