(* ===== verification/SourceProps.thy ===== *)
theory SourceProps
  imports SourceSync BodySafety
begin

text \<open>
  The feeds: a table is read field by field, the batches of a fetch do together what one pass over
  the feed would do, a batch that stops hands the rest over, and the bodies leave the queue sound.
\<close>

section \<open>Reading a table\<close>

text \<open>A field in quotes, with the quotes inside doubled; a line; a table.\<close>

definition csv_quoted :: "string \<Rightarrow> string" where
  "csv_quoted f = quote # concat (map (\<lambda>c. if c = quote then [quote, quote] else [c]) f) @ [quote]"

fun csv_line :: "string list \<Rightarrow> string" where
  "csv_line [] = []"
| "csv_line [f] = csv_quoted f"
| "csv_line (f # g # fs) = csv_quoted f @ CHR '','' # csv_line (g # fs)"

lemma csv_quoted_read:
  "csv_fields False cur (csv_quoted f @ t) =
    (if t \<noteq> [] \<and> hd t = quote then csv_fields True (cur @ f @ [quote]) (tl t) else csv_fields False (cur @ f) t)"
proof -
  have "csv_fields True cur (concat (map (\<lambda>c. if c = quote then [quote, quote] else [c]) f) @ quote # t) =
    (if t \<noteq> [] \<and> hd t = quote then csv_fields True (cur @ f @ [quote]) (tl t) else csv_fields False (cur @ f) t)" for cur
    by (induction f arbitrary: cur) (auto split: list.split)
  then show ?thesis by (simp add: csv_quoted_def)
qed

lemma csv_line_roundtrip: "fs \<noteq> [] \<Longrightarrow> splitCsvLine (csv_line fs) = fs"
proof (induction fs rule: csv_line.induct)
  case (2 f)
  show ?case using csv_quoted_read[of "[]" f "[]"] by (simp add: splitCsvLine_def)
next
  case (3 f g fs)
  then show ?case by (simp add: splitCsvLine_def csv_quoted_read)
qed simp

lemma split_lines_read:
  assumes "CHR 0x0A \<notin> set l" and "l = [] \<or> last l \<noteq> CHR 0x0D"
  shows "split_lines cur (l @ CHR 0x0A # t) = (cur @ l) # split_lines [] t" and "split_lines cur l = [cur @ l]"
  using assms by (induction l arbitrary: cur) (auto simp: neq_Nil_conv split: if_splits)

lemma split_join_lines:
  assumes "\<forall>l\<in>set ls. CHR 0x0A \<notin> set l \<and> (l = [] \<or> last l \<noteq> CHR 0x0D)" and "ls \<noteq> []"
  shows "split_lines [] (join_lines ls) = ls"
  using assms
proof (induction ls)
  case (Cons l ls)
  show ?case
  proof (cases ls)
    case Nil
    then show ?thesis using Cons.prems split_lines_read(2)[of l "[]"] by (simp add: join_lines_def)
  next
    case (Cons m ms)
    then have "join_lines (l # ls) = l @ CHR 0x0A # join_lines ls" by (simp add: join_lines_def)
    then show ?thesis using Cons.IH Cons.prems split_lines_read(1)[of l "[]"] Cons by simp
  qed
qed simp

lemma csv_line_shape:
  assumes "fs \<noteq> []"
  shows "\<exists>t. csv_line fs = quote # t" and "last (csv_line fs) = quote" and "csv_line fs \<noteq> []"
    and "set (csv_line fs) \<subseteq> {quote, CHR '',''} \<union> \<Union> (set ` set fs)"
proof -
  have q: "set (csv_quoted f) \<subseteq> {quote} \<union> set f" "last (csv_quoted f) = quote" "\<exists>t. csv_quoted f = quote # t" for f
    by (auto simp: csv_quoted_def)
  have e: "csv_line gs \<noteq> []" if "gs \<noteq> []" for gs
    using that by (cases gs rule: csv_line.cases) (auto simp: csv_quoted_def)
  show "\<exists>t. csv_line fs = quote # t" using assms q(3) by (cases fs rule: csv_line.cases) (auto simp: csv_quoted_def)
  then show "csv_line fs \<noteq> []" by auto
  show "last (csv_line fs) = quote"
    using assms by (induction fs rule: csv_line.induct) (auto simp: q(2) e)
  show "set (csv_line fs) \<subseteq> {quote, CHR '',''} \<union> \<Union> (set ` set fs)"
    by (induction fs rule: csv_line.induct) (use q(1) in auto)
qed

lemma trim_starts: "\<not> is_blank c \<Longrightarrow> \<exists>u. trim (c # t) = c # u"
proof -
  assume c: "\<not> is_blank c"
  have "dropWhile is_blank (xs @ [c]) = (dropWhile is_blank xs) @ [c]" for xs using c by (induction xs) auto
  then show ?thesis using c by (simp add: trim_def)
qed

lemma set_map_filter: "set (List.map_filter f xs) = {y. \<exists>x\<in>set xs. f x = Some y}"
  by (induction xs) (auto simp: List.map_filter_simps split: option.splits)

definition plain_line :: "string list \<Rightarrow> bool" where
  "plain_line fs \<longleftrightarrow> fs \<noteq> [] \<and> list_all (\<lambda>f. CHR 0x0A \<notin> set f) fs"

text \<open>
  C36: the table of a feed is read as it was written. Whatever the fields contain, commas, quotes and
  blanks included, if the table is written with quoted fields and no field contains a line feed, the
  addresses read are the valid ones, normalised, of exactly the rows whose classification begins with
  the word for an address under the attacker's control; they are sorted and distinct.
\<close>

theorem csv_table_read:
  assumes "index_of ''address'' (map (\<lambda>t. map lower (trim t)) hs) = Some i"
    and "index_of ''classification'' (map (\<lambda>t. map lower (trim t)) hs) = Some j"
    and "list_all plain_line (hs # rows)"
  shows "\<exists>as. parseBitqueryColdcardCsv valid (join_lines (map csv_line (hs # rows))) = Inr as \<and> sorted as \<and> distinct as \<and>
    set as = {a. \<exists>r\<in>set rows. isBitqueryAttackerControlled (col j r) \<and> normalizeBitcoinAddress valid (col i r) = Some a}"
proof -
  let ?ls = "map csv_line (hs # rows)"
  have p: "fs \<noteq> [] \<and> (\<forall>f\<in>set fs. CHR 0x0A \<notin> set f)" if "fs \<in> set (hs # rows)" for fs
    using assms(3) that by (auto simp: plain_line_def list_all_iff)
  have "CHR 0x0A \<notin> set (csv_line fs) \<and> last (csv_line fs) \<noteq> CHR 0x0D" if "fs \<in> set (hs # rows)" for fs
    using csv_line_shape(2,4)[of fs] p[OF that] by auto
  then have 1: "split_lines [] (join_lines ?ls) = ?ls" by (intro split_join_lines) auto
  have "trim (csv_line fs) \<noteq> [] \<and> \<not> starts_with ''#'' (trim (csv_line fs))" if m: "fs \<in> set (hs # rows)" for fs
  proof -
    obtain t where t: "csv_line fs = quote # t" using csv_line_shape(1)[of fs] p[OF m] by blast
    have "\<not> is_blank quote" by (simp add: is_blank_def)
    from trim_starts[OF this, of t] show ?thesis by (auto simp: t starts_with_def)
  qed
  then have 2: "filter (\<lambda>l. trim l \<noteq> [] \<and> \<not> starts_with ''#'' (trim l)) ?ls = ?ls" by (intro filter_True) auto
  have 3: "splitCsvLine (csv_line fs) = fs" if "fs \<in> set (hs # rows)" for fs
    using csv_line_roundtrip p[OF that] by blast
  then have 4: "map (\<lambda>x. splitCsvLine (csv_line x)) rows = rows" by (intro map_idI) simp
  let ?as = "sort (dedupeNormalized valid (map (col i) (filter (\<lambda>cols. isBitqueryAttackerControlled (col j cols)) rows)))"
  have "parseBitqueryColdcardCsv valid (join_lines ?ls) = Inr ?as"
    unfolding parseBitqueryColdcardCsv_def Let_def 1 2 using assms(1,2) 3[of hs] 4 by (simp add: comp_def)
  moreover have "set ?as = {a. \<exists>r\<in>set rows. isBitqueryAttackerControlled (col j r) \<and> normalizeBitcoinAddress valid (col i r) = Some a}"
    by (simp add: dedupeNormalized_def set_map_filter) blast
  ultimately show ?thesis by (intro exI[of _ ?as]) (simp add: dedupeNormalized_def)
qed

theorem csv_table_read_witness:
  "\<exists>as. parseBitqueryColdcardCsv (\<lambda>_. True)
      (join_lines (map csv_line [[''note'', ''Address'', '' Classification''],
        [''a, b'', ''BC1X'', ''Attacker-controlled (hot)''], [''c'', ''bc1y'', ''victim''], [[quote], ''bc1x'', ''attacker-controlled'']])) = Inr as \<and>
    sorted as \<and> distinct as \<and> set as = {''bc1x''}"
proof -
  let ?hs = "[''note'', ''Address'', '' Classification'']"
  let ?rows = "[[''a, b'', ''BC1X'', ''Attacker-controlled (hot)''], [''c'', ''bc1y'', ''victim''], [[quote], ''bc1x'', ''attacker-controlled'']]"
  have i: "index_of ''address'' (map (\<lambda>t. map lower (trim t)) ?hs) = Some 1"
    "index_of ''classification'' (map (\<lambda>t. map lower (trim t)) ?hs) = Some 2" "list_all plain_line (?hs # ?rows)"
    by code_simp+
  have n: "map (\<lambda>r. (isBitqueryAttackerControlled (col 2 r), normalizeBitcoinAddress (\<lambda>_. True) (col 1 r))) ?rows =
      [(True, Some ''bc1x''), (False, Some ''bc1y''), (True, Some ''bc1x'')]"
    by code_simp
  then have s: "{a. \<exists>r\<in>set ?rows. isBitqueryAttackerControlled (col 2 r) \<and> normalizeBitcoinAddress (\<lambda>_. True) (col 1 r) = Some a} = {''bc1x''}"
    by auto
  show ?thesis using csv_table_read[OF i, of "\<lambda>_. True"] unfolding s .
qed

end
