(* ===== verification/SourceBatch.thy ===== *)
theory SourceBatch
  imports SourceSync BodySafety
begin

text \<open>
  The batches of the feeds: together they do what one pass over the feed does, a batch that stops hands
  over what is left, and no body of a feed disturbs the queue.
\<close>

section \<open>Chunks and passes\<close>

lemma js_index_nat: "js_index xs (int i) = min i (length xs)"
  by (simp add: js_index_def)

lemma feed_chunks_concat:
  assumes "0 < sz" shows "concat (feed_chunks sz xs) = xs"
proof -
  let ?m = "nat sz" and ?n = "nat ((int (length xs) + sz - 1) div sz)"
  have s: "js_slice xs (int k * sz) (int k * sz + sz) = take ?m (drop (k * ?m) xs)" if "k < ?n" for k
  proof -
    have "int k + 1 \<le> (int (length xs) + sz - 1) div sz" using that by linarith
    then have "(int k + 1) * sz \<le> (int (length xs) + sz - 1) div sz * sz" using assms by (intro mult_right_mono) auto
    also have "\<dots> \<le> int (length xs) + sz - 1" using assms by (metis div_mult_mod_eq le_add_same_cancel1 pos_mod_sign)
    finally have "(int k + 1) * sz \<le> int (length xs) + sz - 1" .
    then have k: "int k * sz < int (length xs)" by (simp add: algebra_simps)
    have m: "int (k * ?m) = int k * sz" using assms by simp
    have m2: "int k * sz + sz = int (k * ?m + ?m)" using m assms by simp
    have "k * ?m < length xs" using k m by linarith
    then have "js_index xs (int k * sz) = k * ?m" unfolding m[symmetric] js_index_nat by simp
    moreover have "js_index xs (int k * sz + sz) = min (k * ?m + ?m) (length xs)" unfolding m2 js_index_nat ..
    ultimately show ?thesis by (auto simp: js_slice_def min_def not_le)
  qed
  have c: "concat (map (\<lambda>k. take ?m (drop (k * ?m) xs)) [0..<n]) = take (n * ?m) xs" for n
  proof (induction n)
    case (Suc n)
    then show ?case using take_add[of "n * ?m" ?m xs] by (simp add: add.commute)
  qed simp
  have "length xs \<le> ?n * ?m"
  proof -
    have "int (length xs) \<le> (int (length xs) + sz - 1) div sz * sz"
    proof -
      have "(int (length xs) + sz - 1) mod sz < sz" using assms by simp
      moreover have "(int (length xs) + sz - 1) div sz * sz + (int (length xs) + sz - 1) mod sz = int (length xs) + sz - 1" by simp
      ultimately show ?thesis by linarith
    qed
    then have "int (length xs) \<le> int (?n * ?m)"
      using assms by (smt (verit, best) int_nat_eq of_nat_0_le_iff of_nat_mult pos_imp_zdiv_nonneg_iff)
    then show ?thesis by linarith
  qed
  then have "concat (map (\<lambda>k. take ?m (drop (k * ?m) xs)) [0..<?n]) = xs" using c[of ?n] by simp
  moreover have "map (\<lambda>k. js_slice xs (int k * sz) (int k * sz + sz)) [0..<?n] = map (\<lambda>k. take ?m (drop (k * ?m) xs)) [0..<?n]"
    using s by auto
  moreover have "max 1 sz = sz" using assms by simp
  ultimately show ?thesis by (simp only: feed_chunks_def Let_def)
qed

text \<open>The store after a pass over a list.\<close>

definition passed :: "(address \<Rightarrow> store \<Rightarrow> bool \<times> store) \<Rightarrow> address list \<Rightarrow> store \<Rightarrow> store" where
  "passed f xs s = fold (\<lambda>x s. snd (f x s)) xs s"

lemma passed_simps [simp]:
  "passed f [] s = s" "passed f (x # xs) s = passed f xs (snd (f x s))" "passed f (xs @ ys) s = passed f ys (passed f xs s)"
  by (simp_all add: passed_def)

lemma passed_chunks: "fold (passed f) cs s = passed f (concat cs) s"
  by (induction cs arbitrary: s) simp_all

lemma ingest_all_passed: "snd (ingest_all f xs (k, s)) = passed f xs s"
proof -
  have "snd (fold (\<lambda>x (k, s). case f x s of (b, s1) \<Rightarrow> (k + b2i b, s1)) xs ks) = passed f xs (snd ks)" for ks
    by (induction xs arbitrary: ks) (auto simp: split_beta)
  then show ?thesis by (simp add: ingest_all_def)
qed

lemma ingest_all_pass: "snd (ingest_all f xs ks) = passed f xs (snd ks)"
  using ingest_all_passed[of f xs "fst ks" "snd ks"] by simp

text \<open>The loop of a batch: a prefix has been passed, and the rest is what the budget left.\<close>

lemma ingest_until_split:
  assumes "ingest_until ex f n xs (k, s) = (rest, n', k', s')"
  shows "\<exists>pre. xs = pre @ rest \<and> s' = passed f pre s"
  using assms
proof (induction xs arbitrary: n k s)
  case (Cons x xs)
  show ?case
  proof (cases "ex n")
    case False
    obtain b s1 where b: "f x s = (b, s1)" by fastforce
    with Cons False obtain pre where "xs = pre @ rest" "s' = passed f pre s1" by fastforce
    then show ?thesis using b by (intro exI[of _ "x # pre"]) simp
  qed (use Cons.prems in auto)
qed simp

lemma ingest_until_free:
  assumes "\<forall>n. \<not> ex n"
  shows "ingest_until ex f n xs ks = ([], n + length xs, ingest_all f xs ks)"
proof -
  have "ingest_until ex f n xs (k, s) = ([], n + length xs, ingest_all f xs (k, s))" for k s
    using assms by (induction xs arbitrary: n k s) (auto simp: ingest_all_def split_beta)
  then show ?thesis by (metis prod.collapse)
qed

section \<open>A batch without interruption\<close>

definition watch_step :: "int \<Rightarrow> payload \<Rightarrow> store \<Rightarrow> store" where
  "watch_step m p s = passed (ingestSourceDownstream ''coldcardwatch'' m) (strings_at p ''downstream'')
     (passed (ingestSourceVictim ''coldcardwatch'') (strings_at p ''victims'')
       (passed (ingestSourceHacker ''coldcardwatch'') (strings_at p ''collectors'') s))"

lemma watch_free:
  assumes "\<forall>n. \<not> fe_exhausted fe n"
  shows "applyColdcardWatchSyncBatch fe m p s = finalize_batch ''coldcardwatch'' p 0 (watch_step m p s)"
  by (simp add: applyColdcardWatchSyncBatch_def watch_step_def ingest_until_free[OF assms] split_beta ingest_all_pass)

definition sweep_step :: "(string \<Rightarrow> bool) \<Rightarrow> payload \<Rightarrow> store \<Rightarrow> store" where
  "sweep_step valid p s = passed (insertNormalized valid ''coldcard_sweep_watch'') (strings_at p ''vaults'')
       (passed (ingestSourceHacker ''coldcard_sweep_watch'') (strings_at p ''collectors'') s)"

lemma sweep_free:
  assumes "\<forall>n. \<not> fe_exhausted fe n"
  shows "snd (applyColdcardSweepWatchSyncBatch fe p s) = finalize_batch ''coldcard_sweep_watch'' p 0 (sweep_step (fe_valid fe) p s)"
  by (simp add: applyColdcardSweepWatchSyncBatch_def sweep_step_def ingest_until_free[OF assms] Let_def split_beta ingest_all_pass)

lemma tracker_free:
  assumes "\<forall>n. \<not> fe_exhausted fe n"
  shows "snd (apply_tracker_batch ty pr tag src f fe p s) =
    finalize_batch src p (int (length (strings_at p ''addresses''))) (passed f (strings_at p ''addresses'') s)"
  by (simp add: apply_tracker_batch_def ingest_until_free[OF assms] split_beta ingest_all_pass)

section \<open>Batches together\<close>

lemma jget_append: "jget (p @ r) k = (case jget p k of Some v \<Rightarrow> Some v | None \<Rightarrow> jget r k)"
  by (induction p) (auto simp del: map_of_append)

lemma jget_skip: "jget r k = None \<Longrightarrow> jget (p @ r) k = jget p k"
  unfolding jget_append by (cases "jget p k") simp_all

lemma strings_append: "jget r k = None \<Longrightarrow> strings_at (p @ r) k = strings_at p k"
  by (cases "jget p k") (simp_all add: strings_at_def jget_append del: map_of_append)

lemma strings_arr: "jget p k = Some (str_arr ts) \<Longrightarrow> strings_at p k = ts"
  by (simp add: strings_at_def str_arr_def comp_def)

lemma strings_none: "jget p k = None \<Longrightarrow> strings_at p k = []"
  by (simp add: strings_at_def)

lemma fold_numbered:
  assumes "\<And>i p. F (p @ [(''chunkIndex'', JNum i), (''chunkTotal'', JNum n)]) = F p" and "length ns = length ps"
  shows "fold F (map (\<lambda>(i, p). p @ [(''chunkIndex'', JNum (int i + 1)), (''chunkTotal'', JNum n)]) (zip ns ps)) s = fold F ps s"
  using assms(2)
proof (induction ps arbitrary: ns s)
  case (Cons p ps)
  then obtain i ns' where "ns = i # ns'" "length ns' = length ps" by (cases ns) auto
  then show ?case using Cons.IH[of ns'] assms(1) by simp
qed simp

text \<open>The batches of a list of jobs whose last one records the hash.\<close>

lemma fold_finalized:
  assumes "ps \<noteq> []" and "\<And>p s. p \<in> set ps \<Longrightarrow> jget p ''finalize'' = None \<and> jget p ''lastAddressCount'' = None"
    and "\<And>p. p \<in> set ps \<Longrightarrow> jget p ''contentHash'' = Some (JStr h)"
    and "\<And>p r s. jget r ''collectors'' = None \<Longrightarrow> jget r ''victims'' = None \<Longrightarrow> jget r ''downstream'' = None \<Longrightarrow>
      jget r ''vaults'' = None \<Longrightarrow> step (p @ r) s = step p s"
  shows "fold (\<lambda>p s. finalize_batch src p 0 (step p s)) (number_jobs (finalize_last n ps)) s =
    upsertSourceSync src (Some n) (Some h) (fold step ps s)"
proof -
  let ?F = "\<lambda>p s. finalize_batch src p 0 (step p s)"
  have b: "fold ?F qs s = fold step qs s" if "set qs \<subseteq> set ps" for qs s
    using that assms(2) by (induction qs arbitrary: s) (auto simp: finalize_batch_def)
  have l: "last ps \<in> set ps" using assms(1) by simp
  define r where "r = [(''finalize'', JBool True), (''lastAddressCount'', JNum n)]"
  have r: "jget r ''collectors'' = None" "jget r ''victims'' = None" "jget r ''downstream'' = None" "jget r ''vaults'' = None"
    "jget r ''finalize'' = Some (JBool True)" "jget r ''lastAddressCount'' = Some (JNum n)" "jget r ''contentHash'' = None"
    by (simp_all add: r_def)
  have last_one: "finalize_batch src (last ps @ [(''finalize'', JBool True), (''lastAddressCount'', JNum n)]) 0
      (step (last ps @ [(''finalize'', JBool True), (''lastAddressCount'', JNum n)]) u) =
      upsertSourceSync src (Some n) (Some h) (step (last ps) u)" for u
    unfolding r_def[symmetric] finalize_batch_def jget_append assms(4)[OF r(1-4)]
    using assms(2,3)[OF l] by (simp add: r)
  have bl: "fold ?F (butlast ps) s = fold step (butlast ps) s" by (rule b) (auto dest: in_set_butlastD)
  have "fold ?F (finalize_last n ps) s = upsertSourceSync src (Some n) (Some h) (step (last ps) (fold step (butlast ps) s))"
    unfolding finalize_last_def using assms(1) by (simp only: if_False fold_append fold_simps comp_apply bl last_one)
  moreover have "fold step ps s = step (last ps) (fold step (butlast ps) s)"
    using fold_append[of step "butlast ps" "[last ps]"] append_butlast_last_id[OF assms(1)] by simp
  moreover have "fold ?F (number_jobs qs) s = fold ?F qs s" for qs
    unfolding number_jobs_def
  proof (rule fold_numbered)
    fix i p
    define r where "r = [(''chunkIndex'', JNum i), (''chunkTotal'', JNum (int (length qs)))]"
    have r: "jget r ''collectors'' = None" "jget r ''victims'' = None" "jget r ''downstream'' = None" "jget r ''vaults'' = None"
      "jget r ''finalize'' = None" "jget r ''lastAddressCount'' = None" "jget r ''contentHash'' = None"
      by (simp_all add: r_def)
    show "?F (p @ [(''chunkIndex'', JNum i), (''chunkTotal'', JNum (int (length qs)))]) = ?F p"
      unfolding r_def[symmetric] finalize_batch_def assms(4)[OF r(1-4)] r(5-7)[THEN jget_skip] ..
  qed simp
  ultimately show ?thesis by simp
qed

lemma fold_chunk_jobs:
  assumes "0 < perJob" and "\<And>c s. step [(''contentHash'', JStr h), (k, str_arr c)] s = passed f c s"
  shows "fold step (chunk_jobs h k perJob as) s = passed f as s"
proof -
  have "fold step (map (\<lambda>c. [(''contentHash'', JStr h), (k, str_arr c)]) cs) s = fold (passed f) cs s" for cs
    by (induction cs arbitrary: s) (simp_all add: assms(2))
  then show ?thesis by (simp add: chunk_jobs_def passed_chunks feed_chunks_concat[OF assms(1)])
qed

lemma chunk_jobs_keys:
  "p \<in> set (chunk_jobs h k perJob as) \<Longrightarrow> k \<noteq> ''finalize'' \<Longrightarrow> k \<noteq> ''lastAddressCount'' \<Longrightarrow>
   jget p ''finalize'' = None \<and> jget p ''lastAddressCount'' = None \<and> jget p ''contentHash'' = Some (JStr h)"
  by (auto simp: chunk_jobs_def)

lemma chunk_jobs_empty: "0 < perJob \<Longrightarrow> chunk_jobs h k perJob as = [] \<longleftrightarrow> as = []"
  using feed_chunks_concat[of perJob as] by (auto simp: chunk_jobs_def feed_chunks_def)

lemma watch_batches:
  assumes "\<forall>n. \<not> fe_exhausted fe n" and "0 < perJob" and "wd_collectors d @ wd_victims d @ wd_downstream d \<noteq> []"
  shows "fold (applyColdcardWatchSyncBatch fe m) (watch_jobs d perJob (int (length (wd_collectors d)) + int (length (wd_victims d)))) s =
    applyColdcardWatchSync d m s"
proof -
  let ?c = "chunk_jobs (wd_hash d) ''collectors'' perJob (wd_collectors d)"
  let ?v = "chunk_jobs (wd_hash d) ''victims'' perJob (wd_victims d)"
  let ?w = "chunk_jobs (wd_hash d) ''downstream'' perJob (wd_downstream d)"
  have e: "applyColdcardWatchSyncBatch fe m = (\<lambda>p s. finalize_batch ''coldcardwatch'' p 0 (watch_step m p s))"
    by (simp add: fun_eq_iff watch_free[OF assms(1)])
  have c: "fold (watch_step m) ?c u = passed (ingestSourceHacker ''coldcardwatch'') (wd_collectors d) u"
    "fold (watch_step m) ?v u = passed (ingestSourceVictim ''coldcardwatch'') (wd_victims d) u"
    "fold (watch_step m) ?w u = passed (ingestSourceDownstream ''coldcardwatch'' m) (wd_downstream d) u" for u
    by (rule fold_chunk_jobs[OF assms(2)]; simp add: watch_step_def strings_arr strings_none)+
  have "fold (watch_step m) (?c @ ?v @ ?w) s =
      passed (ingestSourceDownstream ''coldcardwatch'' m) (wd_downstream d)
       (passed (ingestSourceVictim ''coldcardwatch'') (wd_victims d)
         (passed (ingestSourceHacker ''coldcardwatch'') (wd_collectors d) s))"
    unfolding fold_append comp_apply by (simp add: c)
  moreover have "?c @ ?v @ ?w \<noteq> []" using assms(3) by (simp add: chunk_jobs_empty[OF assms(2)])
  ultimately show ?thesis
    unfolding e watch_jobs_def
    by (subst fold_finalized[where h = "wd_hash d"])
      (auto simp: applyColdcardWatchSync_def ingest_all_pass watch_step_def strings_append dest: chunk_jobs_keys)
qed

lemma tag_skip:
  "k \<noteq> ''source'' \<Longrightarrow> jget (sweep_tag @ p) k = jget p k" "k \<noteq> ''source'' \<Longrightarrow> strings_at (sweep_tag @ p) k = strings_at p k"
  by (simp_all add: sweep_tag_def strings_at_def)

lemma sweep_batches:
  assumes "\<forall>n. \<not> fe_exhausted fe n" and "0 < perJob" and "sd_collectors d @ sd_vaults d \<noteq> []"
  shows "fold (\<lambda>p s. snd (applyColdcardSweepWatchSyncBatch fe p s))
      (sweep_jobs d perJob (int (length (sd_collectors d)) + int (length (sd_vaults d)))) s =
    snd (applyColdcardSweepWatchSync (fe_valid fe) d s)"
proof -
  let ?c = "chunk_jobs (sd_hash d) ''collectors'' perJob (sd_collectors d)"
  let ?v = "chunk_jobs (sd_hash d) ''vaults'' perJob (sd_vaults d)"
  let ?F = "\<lambda>p s. finalize_batch ''coldcard_sweep_watch'' p 0 (sweep_step (fe_valid fe) p s)"
  have e: "snd (applyColdcardSweepWatchSyncBatch fe (sweep_tag @ p) s) = ?F p s" for p s
    by (simp add: sweep_free[OF assms(1)] finalize_batch_def sweep_step_def tag_skip del: map_of_append)
  have c: "fold (sweep_step (fe_valid fe)) ?c u = passed (ingestSourceHacker ''coldcard_sweep_watch'') (sd_collectors d) u"
    "fold (sweep_step (fe_valid fe)) ?v u = passed (insertNormalized (fe_valid fe) ''coldcard_sweep_watch'') (sd_vaults d) u" for u
    by (rule fold_chunk_jobs[OF assms(2)]; simp add: sweep_step_def strings_arr strings_none)+
  have "?c @ ?v \<noteq> []" using assms(3) by (simp add: chunk_jobs_empty[OF assms(2)])
  then have "fold ?F (number_jobs (finalize_last n (?c @ ?v))) s =
      upsertSourceSync ''coldcard_sweep_watch'' (Some n) (Some (sd_hash d)) (fold (sweep_step (fe_valid fe)) (?c @ ?v) s)" for n
    by (rule fold_finalized) (auto simp: sweep_step_def strings_append dest: chunk_jobs_keys)
  then show ?thesis
    by (simp add: sweep_jobs_def fold_map comp_def e fold_append c applyColdcardSweepWatchSync_def split_beta ingest_all_pass)
qed

lemma tracker_batches:
  assumes "\<forall>n. \<not> fe_exhausted fe n" and "0 < perJob" and "td_addresses d \<noteq> []" and "tag = [] \<or> tag = tracker_tag"
  shows "fold (\<lambda>p s. snd (apply_tracker_batch ty pr tag' src f fe p s)) (tracker_jobs tag d perJob n) s =
    upsertSourceSync src (Some n) (Some (td_hash d)) (passed f (td_addresses d) s)"
proof -
  define job where "job m i c = tag @ [(''contentHash'', JStr (td_hash d)), (''addresses'', str_arr c),
             (''finalize'', JBool (i + 1 = m)), (''lastAddressCount'', JNum n),
             (''chunkIndex'', JNum (int i + 1)), (''chunkTotal'', JNum (int m))]" for m and i :: nat and c
  let ?F = "\<lambda>p s. snd (apply_tracker_batch ty pr tag' src f fe p s)"
  define cs where "cs = feed_chunks perJob (td_addresses d)"
  have cc: "concat cs = td_addresses d" by (simp add: cs_def feed_chunks_concat[OF assms(2)])
  then have "cs \<noteq> []" using assms(3) by auto
  then obtain ds c where cs: "cs = ds @ [c]" by (metis append_butlast_last_id)
  have j: "strings_at (job m i c) ''addresses'' = c" "jget (job m i c) ''finalize'' = Some (JBool (i + 1 = m))"
    "jget (job m i c) ''lastAddressCount'' = Some (JNum n)" "jget (job m i c) ''contentHash'' = Some (JStr (td_hash d))" for m i c
    using assms(4) by (auto simp: tracker_tag_def strings_arr job_def)
  have F: "?F (job m i c) s = (if i + 1 = m then upsertSourceSync src (Some n) (Some (td_hash d)) (passed f c s) else passed f c s)" for m i c s
    unfolding tracker_free[OF assms(1)] j finalize_batch_def by simp
  have "fold ?F (map (\<lambda>(i, c). job m i c) (zip [k..<k + length es] es)) s = passed f (concat es) s"
    if "k + length es < m" for m k es s
    using that
  proof (induction es arbitrary: k s)
    case (Cons e es)
    have "[k..<k + length (e # es)] = k # [Suc k..<Suc k + length es]" by (simp add: upt_rec)
    then show ?case using Cons.IH[of "Suc k"] Cons.prems by (simp add: F del: upt_Suc)
  qed simp
  from this[of 0 ds "Suc (length ds)"]
  have "fold ?F (map (\<lambda>(i, c). job (Suc (length ds)) i c) (zip [0..<length ds] ds)) s = passed f (concat ds) s" by simp
  then have "fold ?F (map (\<lambda>(i, c). job (length cs) i c) (zip [0..<length cs] cs)) s =
      upsertSourceSync src (Some n) (Some (td_hash d)) (passed f c (passed f (concat ds) s))"
    by (simp add: cs F)
  moreover have "tracker_jobs tag d perJob n = map (\<lambda>(i, c). job (length cs) i c) (zip [0..<length cs] cs)"
    by (simp only: tracker_jobs_def job_def cs_def Let_def)
  moreover have "passed f (td_addresses d) s = passed f c (passed f (concat ds) s)" using cc by (simp add: cs flip: passed_simps(3))
  ultimately show ?thesis by simp
qed

text \<open>
  C37: cutting a feed into jobs changes nothing. When no batch runs out of its budget, applying the batch
  jobs of a feed in their order ends in the same store as one pass over the whole feed, for every size
  of a batch: the same addresses, flags, jobs and counters, and the hash recorded after the last one.
\<close>

theorem feed_batches_equal_sync:
  assumes "\<forall>n. \<not> fe_exhausted fe n" and "0 < perJob"
  shows "(wd_collectors w @ wd_victims w @ wd_downstream w \<noteq> [] \<longrightarrow>
      fold (applyColdcardWatchSyncBatch fe m) (watch_jobs w perJob (int (length (wd_collectors w)) + int (length (wd_victims w)))) s =
        applyColdcardWatchSync w m s) \<and>
    (td_addresses t \<noteq> [] \<longrightarrow>
      fold (\<lambda>p s. snd (applyColdcardHackTrackerSyncBatch fe p s)) (tracker_jobs tracker_tag t perJob (int (length (td_addresses t)))) s =
        snd (applyColdcardHackTrackerSync t s)) \<and>
    (sd_collectors d @ sd_vaults d \<noteq> [] \<longrightarrow>
      fold (\<lambda>p s. snd (applyColdcardSweepWatchSyncBatch fe p s))
          (sweep_jobs d perJob (int (length (sd_collectors d)) + int (length (sd_vaults d)))) s =
        snd (applyColdcardSweepWatchSync (fe_valid fe) d s))"
proof (intro conjI impI)
  show "fold (\<lambda>p s. snd (applyColdcardHackTrackerSyncBatch fe p s)) (tracker_jobs tracker_tag t perJob (int (length (td_addresses t)))) s =
      snd (applyColdcardHackTrackerSync t s)" if "td_addresses t \<noteq> []"
    using tracker_batches[OF assms that] by (simp add: applyColdcardHackTrackerSyncBatch_def applyColdcardHackTrackerSync_def split_beta ingest_all_pass)
qed (rule watch_batches[OF assms] sweep_batches[OF assms]; assumption)+

definition silent_feeds :: feed_env where
  "silent_feeds = \<lparr>fe_get = (\<lambda>u. Inr (200, [])), fe_json = (\<lambda>t. None), fe_sha = (\<lambda>t. t), fe_valid = (\<lambda>a. True), fe_exhausted = (\<lambda>n. False)\<rparr>"

definition three_new :: tracker_data where
  "three_new = \<lparr>td_addresses = [''a'', ''b'', ''c''], td_hash = ''abc''\<rparr>"

theorem feed_batches_equal_sync_witness:
  "fold (\<lambda>p s. snd (applyColdcardHackTrackerSyncBatch silent_feeds p s)) (tracker_jobs tracker_tag three_new 2 3) (init_store default_options 1000) =
     snd (applyColdcardHackTrackerSync three_new (init_store default_options 1000)) \<and>
   length (tracker_jobs tracker_tag three_new 2 3) = 2 \<and>
   map address_of (addresses (snd (applyColdcardHackTrackerSync three_new (init_store default_options 1000)))) = [''a'', ''b'', ''c'']"
proof -
  have "\<forall>n. \<not> fe_exhausted silent_feeds n" "td_addresses three_new = [''a'', ''b'', ''c'']" by (simp_all add: silent_feeds_def three_new_def)
  moreover have "length (tracker_jobs tracker_tag three_new 2 3) = 2 \<and>
      map address_of (addresses (snd (applyColdcardHackTrackerSync three_new (init_store default_options 1000)))) = [''a'', ''b'', ''c'']"
    by code_simp
  ultimately show ?thesis
    using feed_batches_equal_sync[of silent_feeds 2 undefined undefined "init_store default_options 1000" three_new undefined] by simp
qed

section \<open>A batch that stops\<close>

lemma jget_carried: "jget (carried ks p) k = (if k \<in> set ks then jget p k else None)"
proof (induction ks)
  case (Cons x ks)
  have "carried (x # ks) p = field x (\<lambda>v. v) (jget p x) @ carried ks p" by (simp add: carried_def)
  then show ?case using Cons by (auto simp: jget_append field_def simp del: map_of_append split: option.splits)
qed (simp add: carried_def)

lemma watch_free_cong:
  assumes "\<forall>n. \<not> fe_exhausted free n" and "watch_step m q s1 = watch_step m p s"
    and "\<And>k. k \<in> set batch_fields \<Longrightarrow> jget q k = jget p k"
  shows "applyColdcardWatchSyncBatch free m q s1 = applyColdcardWatchSyncBatch free m p s"
  unfolding watch_free[OF assms(1)] finalize_batch_def by (simp add: assms(2,3) batch_fields_def)

text \<open>
  C38: a batch that runs out of its budget hands over exactly what is left. Whatever the budget answers,
  the batch either ends as an unlimited one would, or it puts one batch job in the queue, and that job
  run on the store it was enqueued from, without a limit, ends where the whole batch would have ended.
\<close>

theorem watch_batch_resumes:
  assumes "\<forall>n. \<not> fe_exhausted free n"
  shows "applyColdcardWatchSyncBatch fe m p s = applyColdcardWatchSyncBatch free m p s \<or>
    (\<exists>q s1. applyColdcardWatchSyncBatch fe m p s = snd (enqueueJob Sync_coldcardwatch q SYNC_COLDCARDWATCH None False s1) \<and>
      (non_null (jget q ''collectors'') \<or> non_null (jget q ''victims'') \<or> non_null (jget q ''downstream'')) \<and>
      applyColdcardWatchSyncBatch free m q s1 = applyColdcardWatchSyncBatch free m p s)"
proof -
  let ?C = "ingestSourceHacker ''coldcardwatch''" and ?V = "ingestSourceVictim ''coldcardwatch''"
  let ?D = "ingestSourceDownstream ''coldcardwatch'' m"
  obtain rc n1 k1 s1 where c: "ingest_until (fe_exhausted fe) ?C 0 (strings_at p ''collectors'') (0, s) = (rc, n1, k1, s1)"
    by (metis prod.exhaust)
  obtain rv n2 k2 s2 where v: "ingest_until (fe_exhausted fe) ?V n1 (strings_at p ''victims'') (k1, s1) = (rv, n2, k2, s2)"
    by (metis prod.exhaust)
  obtain rd n3 k3 s3 where d: "ingest_until (fe_exhausted fe) ?D n2 (strings_at p ''downstream'') (k2, s2) = (rd, n3, k3, s3)"
    by (metis prod.exhaust)
  obtain cs where cs: "strings_at p ''collectors'' = cs @ rc" "s1 = passed ?C cs s" using ingest_until_split[OF c] by blast
  obtain vs where vs: "strings_at p ''victims'' = vs @ rv" "s2 = passed ?V vs s1" using ingest_until_split[OF v] by blast
  obtain ds where ds: "strings_at p ''downstream'' = ds @ rd" "s3 = passed ?D ds s2" using ingest_until_split[OF d] by blast
  note ap = applyColdcardWatchSyncBatch_def[of fe m p s]
  let ?qc = "(''collectors'', str_arr rc) # carried (''victims'' # ''downstream'' # batch_fields) p"
  let ?qv = "(''victims'', str_arr rv) # carried (''downstream'' # batch_fields) p"
  let ?qd = "(''downstream'', str_arr rd) # carried batch_fields p"
  have keys: "''collectors'' \<notin> set batch_fields" "''victims'' \<notin> set batch_fields" "''downstream'' \<notin> set batch_fields"
    by (simp_all add: batch_fields_def)
  note st = watch_step_def strings_at_def[of "_ # _"] str_arr_def jget_carried keys comp_def
  consider "rc \<noteq> []" | "rc = []" "rv \<noteq> []" | "rc = []" "rv = []" "rd \<noteq> []" | "rc = []" "rv = []" "rd = []" by blast
  then show ?thesis
  proof cases
    case 1
    have "applyColdcardWatchSyncBatch free m ?qc s1 = applyColdcardWatchSyncBatch free m p s"
      by (rule watch_free_cong[OF assms]) (use keys cs in \<open>auto simp: st strings_at_def[of p]\<close>)
    moreover have "applyColdcardWatchSyncBatch fe m p s = snd (enqueueJob Sync_coldcardwatch ?qc SYNC_COLDCARDWATCH None False s1)"
      using 1 by (simp add: ap c Let_def)
    ultimately show ?thesis by (intro disjI2 exI[of _ ?qc] exI[of _ s1]) (simp add: str_arr_def)
  next
    case 2
    have "applyColdcardWatchSyncBatch free m ?qv s2 = applyColdcardWatchSyncBatch free m p s"
      by (rule watch_free_cong[OF assms]) (use keys cs vs 2 in \<open>auto simp: st strings_at_def[of p]\<close>)
    moreover have "applyColdcardWatchSyncBatch fe m p s = snd (enqueueJob Sync_coldcardwatch ?qv SYNC_COLDCARDWATCH None False s2)"
      using 2 by (simp add: ap c v Let_def)
    ultimately show ?thesis by (intro disjI2 exI[of _ ?qv] exI[of _ s2]) (simp add: str_arr_def)
  next
    case 3
    have "applyColdcardWatchSyncBatch free m ?qd s3 = applyColdcardWatchSyncBatch free m p s"
      by (rule watch_free_cong[OF assms]) (use keys cs vs ds 3 in \<open>auto simp: st strings_at_def[of p]\<close>)
    moreover have "applyColdcardWatchSyncBatch fe m p s = snd (enqueueJob Sync_coldcardwatch ?qd SYNC_COLDCARDWATCH None False s3)"
      using 3 by (simp add: ap c v d Let_def)
    ultimately show ?thesis by (intro disjI2 exI[of _ ?qd] exI[of _ s3]) (simp add: str_arr_def)
  next
    case 4
    then have "applyColdcardWatchSyncBatch fe m p s = finalize_batch ''coldcardwatch'' p 0 s3" by (simp add: ap c v d Let_def)
    moreover have "s3 = watch_step m p s" using 4 cs vs ds by (simp add: watch_step_def)
    ultimately show ?thesis by (simp add: watch_free[OF assms])
  qed
qed

definition one_call :: feed_env where
  "one_call = silent_feeds\<lparr>fe_exhausted := (\<lambda>n. 0 < n)\<rparr>"

definition two_victims :: payload where
  "two_victims = [(''contentHash'', JStr ''h''), (''victims'', str_arr [''v'', ''w''])]"

theorem watch_batch_resumes_witness:
  "\<exists>q s1. applyColdcardWatchSyncBatch one_call 0 two_victims (init_store default_options 1000) =
      snd (enqueueJob Sync_coldcardwatch q SYNC_COLDCARDWATCH None False s1) \<and>
    map address_of (addresses (applyColdcardWatchSyncBatch one_call 0 two_victims (init_store default_options 1000))) = [''v''] \<and>
    map address_of (addresses (applyColdcardWatchSyncBatch silent_feeds 0 q s1)) = [''v'', ''w'']"
proof -
  let ?a = "\<lambda>fe. applyColdcardWatchSyncBatch fe 0 two_victims (init_store default_options 1000)"
  have f: "\<forall>n. \<not> fe_exhausted silent_feeds n" by (simp add: silent_feeds_def)
  have "map address_of (addresses (?a one_call)) = [''v'']" "map address_of (addresses (?a silent_feeds)) = [''v'', ''w'']"
    by code_simp+
  then have r: "map address_of (addresses (?a one_call)) = [''v'']" "map address_of (addresses (?a silent_feeds)) = [''v'', ''w'']" by auto
  then have "?a one_call \<noteq> ?a silent_feeds" by auto
  then obtain q s1 where "?a one_call = snd (enqueueJob Sync_coldcardwatch q SYNC_COLDCARDWATCH None False s1)"
      "applyColdcardWatchSyncBatch silent_feeds 0 q s1 = ?a silent_feeds"
    using watch_batch_resumes[OF f, of one_call 0 two_victims "init_store default_options 1000"] by blast
  with r show ?thesis by (intro exI[of _ q] exI[of _ s1]) simp
qed

end
