(* ===== verification/SourceSafety.thy ===== *)
theory SourceSafety
  imports SourceBatch
begin

text \<open>
  The bodies of the feeds and the queue: what they write leaves the queue sound, so the loop of the jobs
  runs soundly with the feeds as they are written; and what a batch that stops can lose.
\<close>

section \<open>The queue\<close>

lemma insert_missing_frame:
  "\<exists>t. stats_frame t (snd (insertAddressIfMissing u s)) \<and>
    t = (if getAddress (u_address u) s = None then set_addresses (addresses s @ [new_address (clock s) u]) s else s)"
proof (cases "getAddress (u_address u) s = None")
  case True
  let ?t = "set_addresses (addresses s @ [new_address (clock s) u]) s"
  have "stats_frame ?t (adjustCrawlPendingCount 1 ?t)"
    by (simp add: adjustCrawlPendingCount_def stats_frame_adjust)
  then have "stats_frame ?t (snd (insertAddressIfMissing u s))"
    using True by (auto simp: insertAddressIfMissing_def Let_def split: option.split
        intro: stats_frame_trans[OF _ stats_frame_trans[OF apply_stats_frame maybeMark_frame(1)]])
  then show ?thesis using True by auto
qed (auto simp: insertAddressIfMissing_def)

lemma insert_missing_queue: "queue_kept s (snd (insertAddressIfMissing u s))"
proof -
  obtain t where t: "stats_frame t (snd (insertAddressIfMissing u s))"
    "t = s \<or> t = set_addresses (addresses s @ [new_address (clock s) u]) s"
    using insert_missing_frame[of u s] by (metis (full_types))
  have "jobs_same s t" using t(2) by (auto intro: keeps_jobs)
  then show ?thesis by (rule jobs_same_queue[OF jobs_same_stats[OF _ t(1)]])
qed

lemma upsert_queue: "queue_kept s (upsertAddress u s)"
  by (rule jobs_same_queue) (intro keeps_jobs)

lemma ingest_queue:
  "queue_kept s (snd (ingestSourceHacker src a s))" "queue_kept s (snd (ingestSourceHackerIfMissing src a s))"
  "queue_kept s (snd (ingestSourceVictim src a s))" "queue_kept s (snd (insertNormalized valid src a s))"
  "queue_kept s (snd (ingestSourceDownstream src m a s))"
proof -
  obtain b t where i: "insertAddressIfMissing ((source_hacker a src)\<lparr>u_expandStatus := Some XPending\<rparr>) s = (b, t)" by fastforce
  have t: "queue_kept s t" using insert_missing_queue i by (metis snd_conv)
  have e: "queue_kept s (enqueue_source_backfill a v)" if "queue_kept s v" for v
    unfolding enqueue_source_backfill_def by (rule queue_kept_trans[OF that queue_kept_absent])
  show "queue_kept s (snd (ingestSourceHacker src a s))" "queue_kept s (snd (ingestSourceHackerIfMissing src a s))"
    using t e[OF t] e[OF queue_kept_trans[OF t upsert_queue]]
    by (auto simp: ingestSourceHacker_def ingestSourceHackerIfMissing_def i split: bool.split)
  show "queue_kept s (snd (ingestSourceVictim src a s))" "queue_kept s (snd (insertNormalized valid src a s))"
    "queue_kept s (snd (ingestSourceDownstream src m a s))"
    by (auto simp: ingestSourceVictim_def insertNormalized_def ingestSourceDownstream_def insert_missing_queue queue_writes.R_refl
        split: option.split)
qed

lemma source_row_queue: "queue_kept s (upsertSourceSync src n h s)" "queue_kept s (setSourceSyncError src m s)"
  by (rule jobs_same_queue; simp add: upsertSourceSync_def setSourceSyncError_def put_source_def jobs_same_def)+

lemma finalize_queue: "queue_kept s (finalize_batch src p n s)"
  by (simp add: finalize_batch_def source_row_queue queue_writes.R_refl)

lemma ingest_until_queue:
  assumes "\<And>a s. queue_kept s (snd (f a s))" and "ingest_until ex f n xs (k, s) = (rest, n', k', s')"
  shows "queue_kept s s'"
proof -
  have "queue_kept s (passed f xs s)" for xs s
    by (induction xs arbitrary: s) (auto intro: queue_kept_trans[OF assms(1)] simp: queue_writes.R_refl)
  then show ?thesis using ingest_until_split[OF assms(2)] by auto
qed

lemma enqueue_all_queue: "queue_kept s (enqueue_all ty pr ps s)"
  unfolding enqueue_all_def
  by (induction ps arbitrary: s) (auto intro: queue_kept_trans[OF queue_kept_enqueue] simp: queue_writes.R_refl)

lemmas feed_queue = ingest_queue source_row_queue finalize_queue queue_kept_enqueue enqueue_all_queue queue_writes.R_refl

lemma watch_batch_queue: "queue_kept s (applyColdcardWatchSyncBatch fe m p s)"
proof -
  let ?C = "ingestSourceHacker ''coldcardwatch''" and ?V = "ingestSourceVictim ''coldcardwatch''"
  let ?D = "ingestSourceDownstream ''coldcardwatch'' m"
  obtain rc n1 k1 s1 where c: "ingest_until (fe_exhausted fe) ?C 0 (strings_at p ''collectors'') (0, s) = (rc, n1, k1, s1)"
    by (metis prod.exhaust)
  obtain rv n2 k2 s2 where v: "ingest_until (fe_exhausted fe) ?V n1 (strings_at p ''victims'') (k1, s1) = (rv, n2, k2, s2)"
    by (metis prod.exhaust)
  obtain rd n3 k3 s3 where d: "ingest_until (fe_exhausted fe) ?D n2 (strings_at p ''downstream'') (k2, s2) = (rd, n3, k3, s3)"
    by (metis prod.exhaust)
  have 1: "queue_kept s s1" by (rule ingest_until_queue[OF _ c]) (rule feed_queue)
  have 2: "queue_kept s s2" by (rule queue_kept_trans[OF 1 ingest_until_queue[OF _ v]]) (rule feed_queue)
  have 3: "queue_kept s s3" by (rule queue_kept_trans[OF 2 ingest_until_queue[OF _ d]]) (rule feed_queue)
  show ?thesis
    by (auto simp: applyColdcardWatchSyncBatch_def c v d Let_def intro: queue_kept_trans[OF 1] queue_kept_trans[OF 2]
        queue_kept_trans[OF 3] feed_queue)
qed

lemma sweep_batch_queue: "queue_kept s (snd (applyColdcardSweepWatchSyncBatch fe p s))"
proof -
  let ?C = "ingestSourceHacker ''coldcard_sweep_watch''" and ?V = "insertNormalized (fe_valid fe) ''coldcard_sweep_watch''"
  obtain rc n1 k1 s1 where c: "ingest_until (fe_exhausted fe) ?C 0 (strings_at p ''collectors'') (0, s) = (rc, n1, k1, s1)"
    by (metis prod.exhaust)
  obtain rv n2 k2 s2 where v: "ingest_until (fe_exhausted fe) ?V n1 (strings_at p ''vaults'') (k1, s1) = (rv, n2, k2, s2)"
    by (metis prod.exhaust)
  have 1: "queue_kept s s1" by (rule ingest_until_queue[OF _ c]) (rule feed_queue)
  have 2: "queue_kept s s2" by (rule queue_kept_trans[OF 1 ingest_until_queue[OF _ v]]) (rule feed_queue)
  show ?thesis
    by (auto simp: applyColdcardSweepWatchSyncBatch_def c v Let_def intro: queue_kept_trans[OF 1] queue_kept_trans[OF 2] feed_queue)
qed

lemma tracker_batch_queue:
  assumes "\<And>a s. queue_kept s (snd (f a s))"
  shows "queue_kept s (snd (apply_tracker_batch ty pr tag src f fe p s))"
proof -
  obtain rc n1 k1 s1 where c: "ingest_until (fe_exhausted fe) f 0 (strings_at p ''addresses'') (0, s) = (rc, n1, k1, s1)"
    by (metis prod.exhaust)
  have 1: "queue_kept s s1" by (rule ingest_until_queue[OF assms c])
  show ?thesis by (auto simp: apply_tracker_batch_def c intro: queue_kept_trans[OF 1] feed_queue)
qed

lemma batch_jobs_queue:
  "queue_kept s (enqueueColdcardWatchBatchJobs w k n s)" "queue_kept s (enqueueColdcardHackTrackerBatchJobs t k n s)"
  "queue_kept s (enqueueColdcardSweepWatchBatchJobs d k n s)" "queue_kept s (enqueueBitqueryColdcardBatchJobs t k n s)"
  by (simp_all add: enqueueColdcardWatchBatchJobs_def enqueueColdcardHackTrackerBatchJobs_def
      enqueueColdcardSweepWatchBatchJobs_def enqueueBitqueryColdcardBatchJobs_def Let_def feed_queue)

lemma watch_sync_queue: "queue_kept s (snd (syncColdcardwatch fe fc cfg p s))"
  unfolding syncColdcardwatch_def Let_def fetch_failed_def
  by (auto simp: watch_batch_queue feed_queue batch_jobs_queue split: sum.split)

lemma bitquery_sync_queue: "queue_kept s (snd (syncBitqueryColdcard fe fc cfg p s))"
  unfolding syncBitqueryColdcard_def Let_def fetch_failed_def applyBitqueryColdcardSyncBatch_def
  by (auto simp: feed_queue batch_jobs_queue tracker_batch_queue split: sum.split)

lemma delta_queue: "queue_kept s (sync_tracker_delta cfg t s)" "queue_kept s (sync_sweep_delta cfg d s)"
  unfolding sync_tracker_delta_def sync_sweep_delta_def Let_def by (simp_all add: feed_queue batch_jobs_queue)

lemma vercel_sync_queue: "queue_kept s (snd (syncVercelTrackers fe fc cfg p s))"
proof -
  let ?hack = "fetchColdcardHackTracker fe (fc_hackTrackerBase fc)" and ?sweep = "fetchColdcardSweepWatch fe (fc_sweepWatchBase fc)"
  define s1 where "s1 = (case ?hack of Inl e \<Rightarrow> setSourceSyncError ''coldcard_hack_tracker'' (error_message e) s | Inr d \<Rightarrow> s)"
  define s2 where "s2 = (case ?sweep of Inl e \<Rightarrow> setSourceSyncError ''coldcard_sweep_watch'' (error_message e) s1 | Inr d \<Rightarrow> s1)"
  have 1: "queue_kept s s1" by (simp add: s1_def feed_queue split: sum.split)
  have 2: "queue_kept s s2" unfolding s2_def using 1 by (auto intro: queue_kept_trans feed_queue split: sum.split)
  have 3: "queue_kept s (sync_tracker_delta cfg td s2)" for td by (rule queue_kept_trans[OF 2 delta_queue(1)])
  show ?thesis
    unfolding syncVercelTrackers_def s1_def[symmetric] s2_def[symmetric] Let_def applyColdcardHackTrackerSyncBatch_def
    using 2 queue_kept_trans[OF 2 queue_kept_trans[OF source_row_queue(1) source_row_queue(1)]]
      3 queue_kept_trans[OF 3 delta_queue(2)] queue_kept_trans[OF 2 delta_queue(2)]
    by (auto simp: sweep_batch_queue tracker_batch_queue feed_queue split: sum.split)
qed

lemma price_queue: "queue_kept s (setBtcUsdPrice usd t s)"
  unfolding setBtcUsdPrice_def by (rule jobs_same_queue[OF jobs_same_sched[OF jobs_same_refl]]) (auto simp: job_counters_def)

lemma feed_body_queue: "queue_kept s (snd (feed_body fe fc cfg ty p s))"
  by (cases ty) (simp_all add: watch_sync_queue vercel_sync_queue bitquery_sync_queue queue_writes.R_refl price_queue
      refreshBtcUsdPrice_def split: sum.split prod.split)

text \<open>
  C39: with the feeds as they are written the loop of the jobs keeps the queue sound. Whatever the sites
  and the providers answer, whatever the budgets, the quota and the CPU guard say, a run of the loop over
  all the bodies of the program leaves every job it claimed completed, failed or deferred, the ids
  distinct and the counters exact, and processes at most the allowed number of jobs.
\<close>

theorem processJobs_with_feeds:
  assumes "jobs_inv s" and "be_external be = (\<lambda>ty p u. feed_body (fe ty p u) fc cfg ty p u)"
    and "processJobs cfg (run_job be cfg) d (Some n) cands b s = ((processed, why), ls)"
  shows "jobs_inv (ls_store ls) \<and> running_ids (ls_store ls) \<subseteq> running_ids s \<and> 0 \<le> processed \<and> processed \<le> max 0 n"
proof -
  have "queue_kept u (snd (be_external be ty p u))" for ty p u by (simp add: assms(2) feed_body_queue)
  then show ?thesis using processJobs_ok[OF assms(1) run_job_body_ok assms(3)] by simp
qed

definition feed_config_demo :: feed_config where
  "feed_config_demo = \<lparr>fc_coldcardwatchBase = ''w'', fc_hackTrackerBase = ''t'', fc_sweepWatchBase = ''s'', fc_bitqueryCsvUrl = ''b'',
     fc_mempoolBase = ''m''\<rparr>"

definition feed_bodies :: body_env where
  "feed_bodies = demo_bodies\<lparr>be_external := (\<lambda>ty p u. feed_body silent_feeds feed_config_demo default_config ty p u)\<rparr>"

definition one_feed :: store where
  "one_feed = snd (enqueueJob Sync_coldcardwatch two_victims SYNC_COLDCARDWATCH None False (init_store default_options 1000))"

theorem processJobs_with_feeds_witness:
  "running_ids (ls_store (snd (processJobs default_config (run_job feed_bodies default_config) None (Some 2) None None one_feed))) = {} \<and>
   length (jobs one_feed) = 1"
proof -
  obtain pr w ls where e: "processJobs default_config (run_job feed_bodies default_config) None (Some 2) None None one_feed = ((pr, w), ls)"
    by (metis prod.exhaust)
  have q: "be_external feed_bodies = (\<lambda>ty p u. feed_body silent_feeds feed_config_demo default_config ty p u)"
    by (simp add: feed_bodies_def)
  have "queue_kept (init_store default_options 1000) one_feed"
    unfolding one_feed_def by (rule queue_kept_enqueue)
  then have i: "jobs_inv one_feed" using init_store_inv by (simp add: queue_kept_def)
  have "list_all (\<lambda>j. \<not> is_running j) (jobs one_feed) \<and> length (jobs one_feed) = 1" by code_simp
  then have "running_ids one_feed = {}" "length (jobs one_feed) = 1" by (auto simp: running_ids_def list_all_iff)
  then show ?thesis using processJobs_with_feeds[OF i q e] e by auto
qed

section \<open>What a batch that stops can lose\<close>

text \<open>While scheduling is paused, a pass that skips known addresses changes only the table of addresses.\<close>

definition only_rows :: "address \<Rightarrow> store \<Rightarrow> store \<Rightarrow> bool" where
  "only_rows a s t \<longleftrightarrow> jobs t = jobs s \<and> queueSchedulingPaused (sched t) = queueSchedulingPaused (sched s) \<and>
     getAddress a t = getAddress a s"

lemma paused_refuses:
  assumes "queueSchedulingPaused (sched s)" and "ty \<noteq> Expand_downstream" and "ty = Backfill_hacker_address \<Longrightarrow> \<not> isIngestContinuation (Some p)"
  shows "snd (enqueueJob ty p pr ra False s) = s" and "snd (enqueueJobIfAbsent ty p pr ra dt ad False s) = s"
  using assms by (auto simp: enqueueJob_def enqueueJobIfAbsent_def shouldAllowEnqueue_def Let_def)

lemma find_last_other: "\<not> P y \<Longrightarrow> List.find P (xs @ [y]) = List.find P xs"
  by (induction xs) auto

lemma find_last_new: "List.find P xs = None \<Longrightarrow> List.find P (xs @ [y]) = (if P y then Some y else None)"
  by (induction xs) (auto split: if_splits)

lemma missing_only_rows:
  assumes "x \<noteq> a" and "queueSchedulingPaused (sched s)"
  shows "only_rows a s (snd (ingestSourceHackerIfMissing src x s))"
proof -
  obtain b t where i: "insertAddressIfMissing ((source_hacker x src)\<lparr>u_expandStatus := Some XPending\<rparr>) s = (b, t)" by fastforce
  obtain u where u: "stats_frame u t" "u = s \<or> u = set_addresses (addresses s @ [new_address (clock s) ((source_hacker x src)\<lparr>u_expandStatus := Some XPending\<rparr>)]) s"
    using insert_missing_frame[of "(source_hacker x src)\<lparr>u_expandStatus := Some XPending\<rparr>" s] by (auto simp: i)
  have t: "only_rows a s t"
    using u assms(1) by (auto simp: only_rows_def stats_frame_def getAddress_def set_addresses_def new_address_def
        source_hacker_def plain_upsert_def find_last_other split: option.split)
  then have "queueSchedulingPaused (sched t)" using assms(2) by (simp add: only_rows_def)
  then have "enqueue_source_backfill x t = t"
    unfolding enqueue_source_backfill_def by (rule paused_refuses) (simp_all add: isIngestContinuation_def num_pos_def nonempty_arr_def)
  then show ?thesis using t by (auto simp: ingestSourceHackerIfMissing_def i split: bool.split)
qed

lemma pass_only_rows:
  assumes "a \<notin> set xs" and "queueSchedulingPaused (sched s)"
  shows "only_rows a s (passed (ingestSourceHackerIfMissing src) xs s)"
  using assms
proof (induction xs arbitrary: s)
  case (Cons x xs)
  let ?t = "snd (ingestSourceHackerIfMissing src x s)"
  have "only_rows a s ?t" using Cons.prems by (intro missing_only_rows) auto
  moreover from this have "only_rows a ?t (passed (ingestSourceHackerIfMissing src) xs ?t)"
    using Cons.prems by (intro Cons.IH) (auto simp: only_rows_def)
  ultimately show ?case by (simp add: only_rows_def)
qed (simp add: only_rows_def)

lemma source_row_read:
  "only_rows a s (upsertSourceSync src n g s)" "content_hash src (upsertSourceSync src n (Some h) s) = Some h"
proof -
  show "only_rows a s (upsertSourceSync src n g s)" by (simp add: only_rows_def upsertSourceSync_def put_source_def getAddress_def)
  show "content_hash src (upsertSourceSync src n (Some h) s) = Some h"
  proof (cases "getSourceSync src s")
    case None
    then have "List.find (\<lambda>r. src_name r = src) (source_sync s) = None" by (simp add: getSourceSync_def)
    then have "List.find (\<lambda>r. src_name r = src) (source_sync s @ [r]) = (if src_name r = src then Some r else None)" for r
      by (rule find_last_new)
    then show ?thesis using None by (simp add: content_hash_def upsertSourceSync_def put_source_def getSourceSync_def)
  next
    case (Some r)
    have u: "List.find (\<lambda>r. src_name r = src) (update_where (\<lambda>r. src_name r = src) f rs) = map_option f (List.find (\<lambda>r. src_name r = src) rs)"
      if "\<And>r. src_name (f r) = src_name r" for f rs
      by (induction rs) (auto simp: update_where_def that)
    show ?thesis using Some
      by (simp add: content_hash_def upsertSourceSync_def put_source_def getSourceSync_def coalesce_def u)
  qed
qed

text \<open>
  C40: addresses of a feed can be lost for good. When scheduling is paused, a batch that runs out of its
  budget cannot put the job with the rest in the queue and still ends without an error: its addresses are
  gone. The last batch records the hash of the content all the same, so that the next fetch of the same
  content is taken as unchanged, enqueues nothing, and the address stays unknown.
\<close>

theorem feed_rest_lost:
  assumes "queueSchedulingPaused (sched s)" and "fe_exhausted fe1 0" and "a \<in> set (strings_at p ''addresses'')"
    and "\<forall>n. \<not> fe_exhausted fe2 n" and "a \<notin> set (strings_at q ''addresses'')"
    and "is_true (jget q ''finalize'')" and "jget q ''contentHash'' = Some (JStr h)"
    and "fetchBitqueryColdcard fe3 (fc_bitqueryCsvUrl fc) = Inr d" and "td_hash d = h" and "a \<in> set (td_addresses d)"
    and "getAddress a s = None"
  shows "let s1 = snd (applyBitqueryColdcardSyncBatch fe1 p s); s2 = snd (applyBitqueryColdcardSyncBatch fe2 q s1)
    in s1 = s \<and> (\<exists>s3. syncBitqueryColdcard fe3 fc cfg [] s2 = (Inr (), s3) \<and> getAddress a s3 = None \<and> jobs s3 = jobs s)"
proof -
  let ?f = "ingestSourceHackerIfMissing ''bitquery_coldcard''"
  obtain x xs where x: "strings_at p ''addresses'' = x # xs" using assms(3) by (cases "strings_at p ''addresses''") auto
  have 1: "snd (applyBitqueryColdcardSyncBatch fe1 p s) = s"
    using assms(2) paused_refuses(1)[OF assms(1), of Sync_bitquery_coldcard]
    by (simp add: applyBitqueryColdcardSyncBatch_def apply_tracker_batch_def x)
  let ?u = "passed ?f (strings_at q ''addresses'') s"
  obtain n where 2: "snd (applyBitqueryColdcardSyncBatch fe2 q s) = upsertSourceSync ''bitquery_coldcard'' (Some n) (Some h) ?u"
    using assms(6,7) by (simp add: applyBitqueryColdcardSyncBatch_def tracker_free[OF assms(4)] finalize_batch_def)
  let ?s2 = "upsertSourceSync ''bitquery_coldcard'' (Some n) (Some h) ?u"
  have 3: "syncBitqueryColdcard fe3 fc cfg [] ?s2 = (Inr (), upsertSourceSync ''bitquery_coldcard'' None (Some h) ?s2)"
    by (simp add: syncBitqueryColdcard_def assms(8,9) source_row_read(2))
  have "only_rows a s ?u" by (rule pass_only_rows[OF assms(5,1)])
  then have "only_rows a s (upsertSourceSync ''bitquery_coldcard'' None (Some h) ?s2)"
    using source_row_read(1)[of a ?u] source_row_read(1)[of a ?s2] by (simp add: only_rows_def)
  then show ?thesis using assms(11) by (simp add: 1 2 3 Let_def only_rows_def)
qed

definition table_feed :: feed_env where
  "table_feed = silent_feeds\<lparr>fe_get := (\<lambda>u. Inr (200, join_lines [''address,classification'', ''x,Attacker-controlled'', ''y,Attacker-controlled'']))\<rparr>"

definition paused_queue :: store where
  "paused_queue = setQueueSchedulingPaused True (init_store default_options 1000)"

theorem feed_rest_lost_witness:
  "let s1 = snd (applyBitqueryColdcardSyncBatch (silent_feeds\<lparr>fe_exhausted := (\<lambda>n. True)\<rparr>)
         [(''contentHash'', JStr (''x'' @ CHR 0x0A # ''y'')), (''addresses'', str_arr [''x''])] paused_queue);
       s2 = snd (applyBitqueryColdcardSyncBatch silent_feeds
         [(''contentHash'', JStr (''x'' @ CHR 0x0A # ''y'')), (''addresses'', str_arr [''y'']), (''finalize'', JBool True)] s1)
   in s1 = paused_queue \<and> (\<exists>s3. syncBitqueryColdcard table_feed feed_config_demo default_config [] s2 = (Inr (), s3) \<and>
        getAddress ''x'' s3 = None \<and> jobs s3 = [])"
proof -
  have f: "fetchBitqueryColdcard table_feed (fc_bitqueryCsvUrl feed_config_demo) =
      Inr \<lparr>td_addresses = [''x'', ''y''], td_hash = ''x'' @ CHR 0x0A # ''y''\<rparr>"
    by code_simp
  have p: "queueSchedulingPaused (sched paused_queue)" "getAddress ''x'' paused_queue = None" "jobs paused_queue = []"
    by (simp_all add: paused_queue_def setQueueSchedulingPaused_def getAddress_def init_store_def)
  let ?p = "[(''contentHash'', JStr (''x'' @ CHR 0x0A # ''y'')), (''addresses'', str_arr [''x''])]"
  let ?q = "[(''contentHash'', JStr (''x'' @ CHR 0x0A # ''y'')), (''addresses'', str_arr [''y'']), (''finalize'', JBool True)]"
  show ?thesis
    using feed_rest_lost[OF p(1), of "silent_feeds\<lparr>fe_exhausted := (\<lambda>n. True)\<rparr>" "''x''" ?p silent_feeds ?q "''x'' @ CHR 0x0A # ''y''"
        table_feed feed_config_demo, OF _ _ _ _ _ _ f _ _ p(2)] p(3)
    by (simp add: silent_feeds_def strings_at_def str_arr_def)
qed

end
