(* ===== verification/Spec2Isabelle.thy ===== *)
theory Spec2Isabelle
  imports QueueRules ProcessSafety TraceProps SchedulerRefine OpReturnText TxProcessProps ChainRouter PendingPayload
    JobPolicy JobBody BodySafety BackfillProps PollProps TickProps CrawlTurns OperatorProps TableReach
    SourceProps SourceSafety
begin

text \<open>
  A model of the indexer of this repository: a crawler that follows stolen bitcoin from the addresses
  of hackers. A cron tick claims jobs from a queue in a SQL database, runs them against two rate
  limited chain providers, and writes a graph of addresses, edges and transactions to the same
  database, with counters that are maintained by deltas beside the tables.

  \<^bold>\<open>Parts and theories.\<close> Paths are below \<open>packages/\<close>.

  \<^item> \<open>Prelude\<close>: JavaScript maps as insertion-ordered association lists, JSON values, the theorem
    collections. \<open>JsDouble\<close>: the rounding of IEEE doubles where a result depends on it.
  \<^item> \<open>StoreState\<close>: the tables of \<open>db/src/schema.ts\<close> as lists of rows, the scheduler row as a record,
    and the record \<open>store\<close> that every operation transforms. \<open>Counters\<close>: the delta updates of a counter.
  \<^item> \<open>SchedulerCache\<close>, \<open>SchedulerRefine\<close>: the in-memory copy of the scheduler row that \<open>IndexerStore\<close>
    (\<open>db/src/store.ts\<close>) keeps, and the proof that it cannot be observed.
  \<^item> \<open>JobRows\<close>, \<open>JobQueue\<close>, \<open>JobLifecycle\<close>: the jobs table and the operations on it (enqueue, claim,
    complete, fail, defer, delete, reset). \<open>JobInv\<close>, \<open>JobSteps\<close>, \<open>JobReach\<close>, \<open>QueueRules\<close>: its invariant,
    its reachable states and its rules (caps, deduplication, the scheduling latch).
  \<^item> \<open>Config\<close>, \<open>JobPolicy\<close>: \<open>core/src/config.ts\<close> and the pure policies of \<open>core/src/indexer\<close>
    (classes, weights and ages of jobs, budgets, the plan of a tick).
  \<^item> \<open>ChainRouter\<close>: the choice between the providers and their backoff (\<open>core/src/chain/router.ts\<close>,
    \<open>backoff.ts\<close>, the provider columns of the scheduler row).
  \<^item> \<open>TxPage\<close>, \<open>PendingPayload\<close>: chain transactions, the classification of a page, the pending
    transactions in a job payload (\<open>txPage.ts\<close>, \<open>pendingPayload.ts\<close>, \<open>pollGap.ts\<close>).
  \<^item> \<open>AddressStore\<close>, \<open>EdgeStore\<close>, \<open>SyncStore\<close>: the address, edge, transaction and sync tables with
    their statistics. \<open>AddressInv\<close>, \<open>EdgeInv\<close>, \<open>AddrReach\<close>, \<open>EdgeSums\<close>: their counters and sums.
    \<open>TableReach\<close>: all writes of the store to addresses and edges as one transition system, the ones that
    leave the counters behind and the recount that repairs them included.
    \<open>RecentHackers\<close>: the ring of recently active hackers.
  \<^item> \<open>HackTrace\<close>, \<open>RootHackers\<close>, \<open>ApplyTrace\<close>, \<open>TraceProps\<close>: \<open>core/src/graph/builder.ts\<close>, from a
    transaction to its edges and from the edges to the tables, in chunks: what a chunk writes, what a
    slice credits, and that the chunks together store every edge once.
  \<^item> \<open>OpReturn\<close>, \<open>OpReturnProps\<close>, \<open>OpReturnText\<close>: the decoder of \<open>OP_RETURN\<close> outputs
    (\<open>core/src/chain/opReturn.ts\<close>).
  \<^item> \<open>TxProcess\<close>, \<open>TxProcessProps\<close>: one pending transaction, from its entry in the payload to the graph
    (\<open>txProcess.ts\<close>, \<open>spendFanout.ts\<close>, \<open>opReturnCapture.ts\<close>, \<open>cpuGuard.ts\<close>), and the trace that is
    carried over from job to job, CPU guard and errors included.
  \<^item> \<open>JobPayload\<close>, \<open>BackfillJob\<close>, \<open>PollJob\<close>, \<open>ExpandJob\<close>, \<open>JobBody\<close>: the bodies of the jobs and their
    dispatch (\<open>core/src/indexer/processor.ts\<close>). \<open>ProcessJobs\<close>, \<open>ProcessSafety\<close>: the loop of a tick that
    claims jobs and runs a body for each. \<open>JobFrame\<close>, \<open>BodyFrame\<close>, \<open>BodySafety\<close>: what the bodies write,
    stated once as the laws of the locale \<open>job_writes\<close> and interpreted for the queue.
    \<open>BackfillProps\<close>, \<open>PollProps\<close>: what a backfill and a poll keep of their pages when they stop early; the
    relation \<open>handled\<close> says on the store what it is to handle a list of entries.
  \<^item> \<open>Maintenance\<close>, \<open>MaintenanceProps\<close>: the scheduled housekeeping (\<open>core/src/indexer/maintenance.ts\<close>
    and the batches in \<open>db/src/store.ts\<close>): pruning, repair of \<open>completed_at\<close>, recounts.
  \<^item> \<open>Snapshots\<close>: the cached summaries of the dashboard, the due polls, the rows of the sources.
  \<^item> \<open>Quota\<close>: the meter of database rows, the usage columns, the pacing of the cron
    (\<open>core/src/quota/dailyPace.ts\<close>, \<open>db/src/d1RowMeter.ts\<close>).
  \<^item> \<open>Crawl\<close>, \<open>CrawlTurns\<close>, \<open>Tick\<close>, \<open>TickProps\<close>: the schedule phase (\<open>crawl.ts\<close>), the tick (\<open>tick.ts\<close>) and the
    scheduled handler (\<open>api/src/workerCron.ts\<close>), which composes all of the above: pause, pacing, lease,
    reclaim, schedule, jobs, release, usage.
  \<^item> \<open>Operator\<close>, \<open>OperatorProps\<close>: the commands of an operator (\<open>core/src/ops\<close>) that change the store:
    adding and removing hackers, clearing the queue, expansion on demand, repairs of roles and rows.
    Whether a text is a bitcoin address is decided by a library: the parameter \<open>valid\<close>.
  \<^item> \<open>Sources\<close>, \<open>SourceSync\<close>: the feeds (\<open>core/src/sources\<close>, \<open>price/mempoolPrices.ts\<close>), from the answer of a
    site to the batches of jobs and the bodies \<open>sync_*\<close> of the jobs. \<open>SourceProps\<close>, \<open>SourceBatch\<close>,
    \<open>SourceSafety\<close>: the table that is read, the batches against one pass, and the loop of the jobs with
    these bodies in place of the parameter \<open>external_body\<close>.

  \<^bold>\<open>Representation.\<close> Numbers of the program are \<open>int\<close>: satoshi amounts, heights and times stay far
  below the range where a double loses integers. A time is its number of milliseconds; the texts of
  \<open>toISOString\<close> order like the times. \<open>clock\<close> is \<open>Date.now()\<close>; it moves where the code sleeps. An SQL
  table is the list of its rows in insertion order; a statement is the list function that computes its
  result, with the order of \<open>ORDER BY\<close> made explicit. A job payload and a JSON column are \<open>json\<close>
  values; \<open>None\<close> in a column is a text that does not parse. An exception is an \<open>Inl\<close>, with one
  constructor of \<open>job_error\<close> per error class that a caller tells apart. A database statement succeeds,
  except that a call that goes to a provider may find the daily quota used up.

  \<^bold>\<open>Environment.\<close> What is outside is a parameter that answers questions in order: the providers, the
  CPU time of a guarded computation and the subrequest budget (\<open>chain_env\<close>), the bodies of the feeds
  and of the price (\<open>external_body\<close>, which \<open>feed_body\<close> of \<open>SourceSync\<close> instantiates, with the answers of
  the sites as \<open>feed_env\<close>), the hacker set cached by an earlier job (\<open>body_env\<close>); in the
  schedule phase and the handler the budget at each point where it is looked at, the answer of the
  price service, whether the deadline of housekeeping has passed, and the rows that the database reports
  as read and written (\<open>sched_env\<close>, \<open>tick_env\<close>, \<open>cron_env\<close>).

  \<^bold>\<open>Loops.\<close> A loop over a list is recursion on the list. The loop of \<open>processJobs\<close> runs at most the
  number of slots, which is its recursion argument; the breadth-first search for root hackers has a
  proved measure.

  \<^bold>\<open>Not modelled\<close>: the HTTP servers, the web client, the database bindings, the logs and the
  command-line programs (input and output around the parts above); the read-only listings
  of the operator and the graph queries of the API.
\<close>

end
